(* ===== verification/Prelude.thy ===== *)
theory Prelude
  imports Main "HOL-Library.Word"
begin

text \<open>
  The prelude of the development: the machine types of the program, its error-carrying
  results, the checked and saturating operations of Rust's unsigned integers (and of
  \<^verbatim>\<open>ruint\<close>'s \<open>U256\<close> and \<open>U512\<close>), rounding division, and the generic lemmas the
  component theories share.

  Unsigned integers of \<open>w\<close> bits are \<open>w word\<close>, so that \<open>+\<close>, \<open>-\<close> and \<open>*\<close> wrap as
  \<open>wrapping_add\<close> and the operators of \<open>U256\<close> do. An \<open>i64\<close> and an \<open>i16\<close> are kept as
  words too and read with \<^term>\<open>sint\<close>; an \<open>i32\<close> tick and an \<open>i128\<close> liquidity delta are
  \<^typ>\<open>int\<close>, with each checked operation of the source written as its range test.
  Arithmetic facts are stated over \<^term>\<open>uint\<close>.
\<close>

unbundle bit_operations_syntax

section \<open>Types\<close>

type_synonym u8 = "8 word"
type_synonym u16 = "16 word"
type_synonym u32 = "32 word"
type_synonym u64 = "64 word"
type_synonym u128 = "128 word"
type_synonym u256 = "256 word"
type_synonym u512 = "512 word"
type_synonym i16 = "16 word"
type_synonym i64 = "64 word"
type_synonym i32 = int
type_synonym i128 = int
type_synonym address = "160 word"
type_synonym b256 = "256 word"

text \<open>A read-only view of cached storage: \<open>None\<close> is a cold slot, never a zero.\<close>

type_synonym state_view = "address \<Rightarrow> u256 \<Rightarrow> u256 option"

text \<open>Lemma collections: facts about results, about checked arithmetic and about packed words.\<close>

named_theorems result_simps
named_theorems checked_simps
named_theorems packed_simps

section \<open>Results\<close>

text \<open>The \<open>?\<close> operator: stop at the first error, otherwise continue with the value.\<close>

definition rbind :: "'e + 'a \<Rightarrow> ('a \<Rightarrow> 'e + 'b) \<Rightarrow> 'e + 'b" where
  "rbind m f = (case m of Inl e \<Rightarrow> Inl e | Inr x \<Rightarrow> f x)"

definition ok_or :: "'a option \<Rightarrow> 'e \<Rightarrow> 'e + 'a" where
  "ok_or x e = (case x of None \<Rightarrow> Inl e | Some v \<Rightarrow> Inr v)"

text \<open>\<open>iter().map(f).collect::<Result<Vec<_>, _>>()\<close>.\<close>

fun rmap :: "('a \<Rightarrow> 'e + 'b) \<Rightarrow> 'a list \<Rightarrow> 'e + 'b list" where
  "rmap f [] = Inr []"
| "rmap f (x # xs) = rbind (f x) (\<lambda>y. rbind (rmap f xs) (\<lambda>ys. Inr (y # ys)))"

lemma rbind_simps [simp, result_simps]:
  "rbind (Inl e) f = Inl e" "rbind (Inr x) f = f x"
  by (simp_all add: rbind_def)

lemma rbind_eq_Inr [result_simps]:
  "rbind m f = Inr y \<longleftrightarrow> (\<exists>x. m = Inr x \<and> f x = Inr y)"
  by (cases m) auto

lemma rbind_eq_InrE [elim!]:
  assumes "rbind m f = Inr y"
  obtains x where "m = Inr x" and "f x = Inr y"
  using assms by (cases m) auto

lemma rbind_cong [fundef_cong]:
  "m = m' \<Longrightarrow> (\<And>x. m' = Inr x \<Longrightarrow> f x = f' x) \<Longrightarrow> rbind m f = rbind m' f'"
  by (cases m') auto

lemma ok_or_simps [simp, result_simps]:
  "ok_or None e = Inl e" "ok_or (Some v) e = Inr v"
  by (simp_all add: ok_or_def)

lemma ok_or_eq_Inr [simp, result_simps]: "ok_or x e = Inr v \<longleftrightarrow> x = Some v"
  by (cases x) auto

lemma ok_or_eq_Inl [simp, result_simps]: "ok_or x e = Inl e' \<longleftrightarrow> x = None \<and> e' = e"
  by (cases x) auto

lemma rmap_eq_Inr_length: "rmap f xs = Inr ys \<Longrightarrow> length ys = length xs"
  by (induction xs arbitrary: ys) auto

lemma rmap_eq_Inr_nth:
  "rmap f xs = Inr ys \<Longrightarrow> i < length xs \<Longrightarrow> f (xs ! i) = Inr (ys ! i)"
  by (induction xs arbitrary: ys i) (auto simp: nth_Cons split: nat.splits)

lemma rmap_eq_Inr_iff: "rmap f xs = Inr ys \<longleftrightarrow> list_all2 (\<lambda>x y. f x = Inr y) xs ys"
  by (induction xs arbitrary: ys) (auto simp: list_all2_Cons1 result_simps)

lemma rmap_append:
  "rmap f (xs @ ys) = rbind (rmap f xs) (\<lambda>as. rbind (rmap f ys) (\<lambda>bs. Inr (as @ bs)))"
proof (induction xs)
  case Nil
  then show ?case by (cases "rmap f ys") auto
next
  case (Cons x xs)
  then show ?case
    by (cases "f x"; cases "rmap f xs"; cases "rmap f ys") auto
qed

section \<open>Checked and saturating arithmetic\<close>

definition checked_add :: "'a::len word \<Rightarrow> 'a word \<Rightarrow> 'a word option" where
  "checked_add a b = (if uint a + uint b < 2 ^ LENGTH('a) then Some (a + b) else None)"

definition checked_sub :: "'a::len word \<Rightarrow> 'a word \<Rightarrow> 'a word option" where
  "checked_sub a b = (if b \<le> a then Some (a - b) else None)"

definition checked_mul :: "'a::len word \<Rightarrow> 'a word \<Rightarrow> 'a word option" where
  "checked_mul a b = (if uint a * uint b < 2 ^ LENGTH('a) then Some (a * b) else None)"

definition saturating_sub :: "'a::len word \<Rightarrow> 'a word \<Rightarrow> 'a word" where
  "saturating_sub a b = (if b \<le> a then a - b else 0)"

definition saturating_add :: "'a::len word \<Rightarrow> 'a word \<Rightarrow> 'a word" where
  "saturating_add a b = (if uint a + uint b < 2 ^ LENGTH('a) then a + b else - 1)"

lemma uint_lt_exp: "uint (a :: 'a::len word) < 2 ^ LENGTH('a)"
  by simp

lemma uint_pos_iff: "0 < uint (a :: 'a::len word) \<longleftrightarrow> a \<noteq> 0"
  using uint_ge_0 [of a] uint_0_iff [of a] by (auto simp: order_less_le)

lemma uint_word_of_int_id:
  "0 \<le> k \<Longrightarrow> k < 2 ^ LENGTH('a) \<Longrightarrow> uint (word_of_int k :: 'a::len word) = k"
  by (simp add: uint_word_of_int)

lemma uint_add_no_wrap:
  fixes a b :: "'a::len word"
  assumes "uint a + uint b < 2 ^ LENGTH('a)"
  shows "uint (a + b) = uint a + uint b"
  using assms by (simp add: uint_word_ariths)

lemma uint_mult_no_wrap:
  fixes a b :: "'a::len word"
  assumes "uint a * uint b < 2 ^ LENGTH('a)"
  shows "uint (a * b) = uint a * uint b"
  using assms by (simp add: uint_word_ariths)

lemma uint_sub_no_wrap:
  fixes a b :: "'a::len word"
  assumes "b \<le> a"
  shows "uint (a - b) = uint a - uint b"
proof -
  have "0 \<le> uint a - uint b" and "uint a - uint b < 2 ^ LENGTH('a)"
    using assms uint_lt_exp [of a] uint_ge_0 [of b] by (simp_all add: word_le_def)
  then show ?thesis by (simp add: uint_word_ariths)
qed

lemma checked_add_eq_Some [checked_simps]:
  "checked_add a b = Some c \<longleftrightarrow> uint c = uint a + uint b"
proof
  assume "checked_add a b = Some c"
  then show "uint c = uint a + uint b"
    by (auto simp: checked_add_def uint_add_no_wrap split: if_splits)
next
  assume c: "uint c = uint a + uint b"
  then have "uint a + uint b < 2 ^ LENGTH('a)" using uint_lt_exp [of c] by simp
  with c show "checked_add a b = Some c"
    by (simp add: checked_add_def word_uint_eq_iff uint_add_no_wrap)
qed

lemma checked_sub_eq_Some [checked_simps]:
  "checked_sub a b = Some c \<longleftrightarrow> uint c = uint a - uint b"
proof
  assume "checked_sub a b = Some c"
  then show "uint c = uint a - uint b"
    by (auto simp: checked_sub_def uint_sub_no_wrap split: if_splits)
next
  assume c: "uint c = uint a - uint b"
  then have "b \<le> a" using uint_ge_0 [of c] by (simp add: word_le_def)
  with c show "checked_sub a b = Some c"
    by (simp add: checked_sub_def word_uint_eq_iff uint_sub_no_wrap)
qed

lemma checked_mul_eq_Some [checked_simps]:
  "checked_mul a b = Some c \<longleftrightarrow> uint c = uint a * uint b"
proof
  assume "checked_mul a b = Some c"
  then show "uint c = uint a * uint b"
    by (auto simp: checked_mul_def uint_mult_no_wrap split: if_splits)
next
  assume c: "uint c = uint a * uint b"
  then have "uint a * uint b < 2 ^ LENGTH('a)" using uint_lt_exp [of c] by simp
  with c show "checked_mul a b = Some c"
    by (simp add: checked_mul_def word_uint_eq_iff uint_mult_no_wrap)
qed

lemma checked_add_eq_None [checked_simps]:
  "checked_add (a :: 'a::len word) b = None \<longleftrightarrow> 2 ^ LENGTH('a) \<le> uint a + uint b"
  by (simp add: checked_add_def)

lemma checked_sub_eq_None [checked_simps]: "checked_sub a b = None \<longleftrightarrow> a < b"
  by (auto simp: checked_sub_def)

lemma checked_mul_eq_None [checked_simps]:
  "checked_mul (a :: 'a::len word) b = None \<longleftrightarrow> 2 ^ LENGTH('a) \<le> uint a * uint b"
  by (simp add: checked_mul_def)

lemma uint_saturating_sub: "uint (saturating_sub a b) = max 0 (uint a - uint b)"
  by (auto simp: saturating_sub_def uint_sub_no_wrap word_le_def)

section \<open>Rounding division\<close>

text \<open>\<open>round_div up n d\<close> is the floor of \<open>n / d\<close>, or its ceiling when \<open>up\<close> holds.\<close>

definition round_div :: "bool \<Rightarrow> int \<Rightarrow> int \<Rightarrow> int" where
  "round_div up n d = (if up \<and> n mod d \<noteq> 0 then n div d + 1 else n div d)"

abbreviation ceil_div :: "int \<Rightarrow> int \<Rightarrow> int" where
  "ceil_div \<equiv> round_div True"

lemma round_div_floor [simp]: "round_div False n d = n div d"
  by (simp add: round_div_def)

lemma le_div_iff:
  assumes "0 < d"
  shows "k \<le> n div d \<longleftrightarrow> k * d \<le> (n :: int)"
proof -
  have n: "n = n div d * d + n mod d" by simp
  have r: "0 \<le> n mod d" "n mod d < d" using assms by simp_all
  show ?thesis
  proof
    assume "k \<le> n div d"
    then have "k * d \<le> n div d * d" using assms by simp
    with n r(1) show "k * d \<le> n" by linarith
  next
    assume "k * d \<le> n"
    moreover have "(n div d + 1) * d = n div d * d + d" by (simp add: distrib_right)
    ultimately have "k * d < (n div d + 1) * d" using n r(2) by linarith
    then show "k \<le> n div d" using assms by (simp add: mult_less_cancel_right)
  qed
qed

lemma div_less_iff: "0 < d \<Longrightarrow> n div d < k \<longleftrightarrow> (n :: int) < k * d"
  using le_div_iff [of d k n] by (auto simp: not_le [symmetric])

lemma ceil_div_le_iff:
  assumes "0 < d"
  shows "ceil_div n d \<le> k \<longleftrightarrow> n \<le> k * d"
proof -
  have n: "n = n div d * d + n mod d" by simp
  have "0 \<le> n mod d" and "n mod d < d" using assms by simp_all
  show ?thesis
  proof (cases "n mod d = 0")
    case True
    with n have "n = n div d * d" by simp
    then show ?thesis
      using True assms by (metis round_div_def mult_le_cancel_right_pos)
  next
    case False
    then have "ceil_div n d \<le> k \<longleftrightarrow> n div d < k" by (auto simp: round_div_def)
    also have "\<dots> \<longleftrightarrow> n < k * d" using assms by (rule div_less_iff)
    also have "\<dots> \<longleftrightarrow> n \<le> k * d" using False by (auto simp: order_le_less)
    finally show ?thesis .
  qed
qed

lemma less_ceil_div_iff: "0 < d \<Longrightarrow> k < ceil_div n d \<longleftrightarrow> k * d < n"
  using ceil_div_le_iff [of d n k] by (auto simp: not_le [symmetric])

lemma ceil_div_mono: "0 < d \<Longrightarrow> n \<le> m \<Longrightarrow> ceil_div n d \<le> ceil_div m d"
  using ceil_div_le_iff [of d n "ceil_div m d"] ceil_div_le_iff [of d m "ceil_div m d"] by simp

lemma ceil_div_antimono:
  assumes "0 < d" "d \<le> e" "0 \<le> n"
  shows "ceil_div n e \<le> ceil_div n d"
proof -
  have "0 \<le> ceil_div n d"
    using assms by (auto simp: round_div_def pos_imp_zdiv_nonneg_iff)
  then have "ceil_div n d * d \<le> ceil_div n d * e" using assms by (simp add: mult_left_mono)
  moreover have "n \<le> ceil_div n d * d" using assms ceil_div_le_iff by blast
  ultimately show ?thesis using assms by (simp add: ceil_div_le_iff)
qed

lemma div_le_ceil_div: "n div d \<le> ceil_div n d"
  by (simp add: round_div_def)

lemma ceil_div_le_Suc_div: "ceil_div n d \<le> n div d + 1"
  by (simp add: round_div_def)

lemma round_div_nonneg: "0 < d \<Longrightarrow> 0 \<le> n \<Longrightarrow> 0 \<le> round_div up n d"
  by (auto simp: round_div_def pos_imp_zdiv_nonneg_iff)

lemma ceil_div_pos: "0 < d \<Longrightarrow> 0 < n \<Longrightarrow> 0 < ceil_div n d"
  using less_ceil_div_iff [of d 0 n] by simp

lemma ceil_div_0 [simp]: "round_div up 0 d = 0"
  by (simp add: round_div_def)

lemma ceil_ceil_div:
  assumes "0 < d" "0 < e"
  shows "ceil_div (ceil_div n d) e = ceil_div n (d * e)"
proof (rule order_antisym)
  have de: "0 < d * e" using assms by simp
  have "n \<le> ceil_div n (d * e) * (d * e)" using ceil_div_le_iff [OF de] by blast
  then have "n \<le> (ceil_div n (d * e) * e) * d" by (simp add: mult.assoc mult.commute)
  then show "ceil_div (ceil_div n d) e \<le> ceil_div n (d * e)"
    using assms by (simp add: ceil_div_le_iff)
next
  have de: "0 < d * e" using assms by simp
  have "ceil_div n d \<le> ceil_div (ceil_div n d) e * e" using assms ceil_div_le_iff by blast
  then have "n \<le> ceil_div (ceil_div n d) e * e * d" using assms by (simp add: ceil_div_le_iff)
  then show "ceil_div n (d * e) \<le> ceil_div (ceil_div n d) e"
    using de by (simp add: ceil_div_le_iff mult.assoc mult.commute)
qed

section \<open>Bit positions\<close>

text \<open>
  \<open>U256::bit_len\<close> (one more than the highest set bit, 0 for zero) and
  \<open>U256::trailing_zeros\<close> (the lowest set bit, the width for zero), by a scan of the bits.
\<close>

primrec bit_len_upto :: "'a::len word \<Rightarrow> nat \<Rightarrow> nat" where
  "bit_len_upto w 0 = 0"
| "bit_len_upto w (Suc n) = (if bit w n then Suc n else bit_len_upto w n)"

definition bit_len :: "'a::len word \<Rightarrow> nat" where
  "bit_len w = bit_len_upto w LENGTH('a)"

definition trailing_zeros :: "'a::len word \<Rightarrow> nat" where
  "trailing_zeros w = (case filter (bit w) [0..<LENGTH('a)] of [] \<Rightarrow> LENGTH('a) | i # _ \<Rightarrow> i)"

lemma bit_len_upto_cases:
  "(bit_len_upto w n = 0 \<and> (\<forall>i<n. \<not> bit w i))
    \<or> (\<exists>m. bit_len_upto w n = Suc m \<and> m < n \<and> bit w m \<and> (\<forall>i<n. m < i \<longrightarrow> \<not> bit w i))"
proof (induction n)
  case 0
  then show ?case by simp
next
  case (Suc n)
  then show ?case by (cases "bit w n") (auto simp: less_Suc_eq)
qed

lemma bit_len_nonzero:
  fixes w :: "'a::len word"
  assumes "w \<noteq> 0"
  obtains m where "bit_len w = Suc m" "m < LENGTH('a)" "bit w m" "\<And>i. m < i \<Longrightarrow> \<not> bit w i"
proof -
  from assms obtain k where "bit w k" by (auto simp: bit_eq_iff)
  then have "k < LENGTH('a)" by (rule bit_imp_le_length)
  with \<open>bit w k\<close> bit_len_upto_cases [of w "LENGTH('a)"]
  obtain m where "bit_len w = Suc m" "m < LENGTH('a)" "bit w m"
    "\<forall>i<LENGTH('a). m < i \<longrightarrow> \<not> bit w i"
    unfolding bit_len_def by blast
  then show thesis using that bit_imp_le_length by blast
qed

lemma bit_len_0 [simp]: "bit_len (0 :: 'a::len word) = 0"
  using bit_len_upto_cases [of "0 :: 'a word" "LENGTH('a)"] by (auto simp: bit_len_def)

lemma trailing_zeros_nonzero:
  fixes w :: "'a::len word"
  assumes "w \<noteq> 0"
  shows "bit w (trailing_zeros w) \<and> (\<forall>i < trailing_zeros w. \<not> bit w i)"
proof -
  from assms obtain k where k: "bit w k" by (auto simp: bit_eq_iff)
  then have "k < LENGTH('a)" by (rule bit_imp_le_length)
  with k have "k \<in> set (filter (bit w) [0..<LENGTH('a)])" by simp
  then obtain m ms where ms: "filter (bit w) [0..<LENGTH('a)] = m # ms"
    by (cases "filter (bit w) [0..<LENGTH('a)]") auto
  have "sorted (filter (bit w) [0..<LENGTH('a)])"
    by (intro sorted_wrt_filter) simp
  with ms have least: "\<forall>i \<in> set (filter (bit w) [0..<LENGTH('a)]). m \<le> i" by auto
  have "\<not> bit w i" if "i < m" for i
  proof
    assume "bit w i"
    then have "i \<in> set (filter (bit w) [0..<LENGTH('a)])" by (simp add: bit_imp_le_length)
    with least that show False by auto
  qed
  moreover have "bit w m" using ms by (auto dest: filter_eq_ConsD)
  ultimately show ?thesis by (simp add: trailing_zeros_def ms)
qed

lemma bit_len_gt_iff:
  fixes w :: "'a::len word"
  shows "n < bit_len w \<longleftrightarrow> 2 ^ n \<le> uint w"
proof (cases "w = 0")
  case True
  then show ?thesis by simp
next
  case False
  then obtain m where m: "bit_len w = Suc m" "m < LENGTH('a)" "bit w m" "\<And>i. m < i \<Longrightarrow> \<not> bit w i"
    by (rule bit_len_nonzero) blast
  have lo: "2 ^ m \<le> uint w"
  proof (rule ccontr)
    assume "\<not> 2 ^ m \<le> uint w"
    then have "take_bit m (uint w) = uint w" by (simp add: take_bit_int_eq_self_iff)
    then have "\<not> bit (uint w) m" by (metis bit_take_bit_iff less_irrefl)
    with m(2,3) show False by (simp add: bit_uint_iff)
  qed
  have "uint w = take_bit (Suc m) (uint w)"
  proof (rule bit_eqI)
    fix i
    show "bit (uint w) i = bit (take_bit (Suc m) (uint w)) i"
      using m(4) [of i] by (cases "m < i") (auto simp: bit_take_bit_iff bit_uint_iff)
  qed
  then have hi: "uint w < 2 ^ Suc m" by (metis take_bit_int_less_exp)
  show ?thesis
  proof
    assume "n < bit_len w"
    then have "(2 :: int) ^ n \<le> 2 ^ m" using m(1) by simp
    from this lo show "2 ^ n \<le> uint w" by (rule order_trans)
  next
    assume "2 ^ n \<le> uint w"
    from this hi have "(2 :: int) ^ n < 2 ^ Suc m" by (rule order_le_less_trans)
    then have "n < Suc m" by (rule power_less_imp_less_exp [rotated]) simp
    then show "n < bit_len w" by (simp only: m(1))
  qed
qed

end
