(* ===== verification/Event_Types.thy ===== *)
theory Event_Types
  imports Prelude
begin

text \<open>
  The event vocabulary of \<open>src/adapters/types.rs\<close>: protocol identities, the failures an
  adapter reports, the chain context an exact transition needs, and the fee evidence of a
  reviewed Slipstream runtime with its validation.

  Field and constructor names are the source's; a record's fields carry a short prefix
  naming their struct (\<open>ctx_\<close>, \<open>fee_\<close>, \<open>prf_\<close>, \<open>snap_\<close>, \<open>rt_\<close>). The identities behind the
  \<open>experimental-protocols\<close> feature, which have no adapter, are left out.
\<close>

section \<open>Protocol identities and failures\<close>

datatype protocol_id =
    UniswapV2 | UniswapV3 | PancakeV3 | Slipstream | SolidlyV2 | BalancerV2 | Curve
  | CustomProtocol string

datatype unsupported_reason =
    UnsupportedProtocol protocol_id
  | MissingMetadata string
  | AdapterDefinedRouting
  | UnsupportedCustom string

datatype v3_transition_error =
    MissingContext string
  | MissingSlipstreamFeeEvidence
  | SlipstreamStakingEvidence string
  | SlipstreamFeeEvidence string
  | SlipstreamFeeInferenceNoMatch
  | SlipstreamFeeInferenceAmbiguous u32 u32
  | ContradictoryEvent string
  | FinalStateMismatch string u256 u256
  | ObservationError string
  | InitializedTickError i32 string
  | Arithmetic string
  | WorkLimitExceeded u32

datatype adapter_event_error =
    MalformedLog string
  | MissingState address u256
  | Unsupported unsupported_reason
  | V3Transition v3_transition_error
  | CustomError string
  | Panicked string

text \<open>
  \<open>Panicked\<close> is not a value of the source's enum: it is how the model shows an abort (a failed
  \<open>assert!\<close> or \<open>expect\<close>, a division by zero), so that the absence of aborts is a theorem.
\<close>

type_synonym 'a result = "adapter_event_error + 'a"

definition expect :: "'a option \<Rightarrow> string \<Rightarrow> 'a result" where
  "expect x msg = ok_or x (Panicked msg)"

lemma expect_simps [simp, result_simps]:
  "expect (Some v) msg = Inr v" "expect None msg = Inl (Panicked msg)"
  by (simp_all add: expect_def)

lemma expect_eq_Inr [simp, result_simps]: "expect x msg = Inr v \<longleftrightarrow> x = Some v"
  by (simp add: expect_def)

text \<open>A computation that does not abort, and the rules that compose this fact.\<close>

definition no_panic :: "'a result \<Rightarrow> bool" where
  "no_panic r \<longleftrightarrow> (\<forall>msg. r \<noteq> Inl (Panicked msg))"

named_theorems no_panic_intros

lemma no_panic_Inr [no_panic_intros, simp]: "no_panic (Inr x)"
  by (simp add: no_panic_def)

lemma no_panic_Inl [simp]: "no_panic (Inl e) \<longleftrightarrow> (\<forall>msg. e \<noteq> Panicked msg)"
  by (auto simp: no_panic_def)

lemma no_panic_rbind [no_panic_intros]:
  "no_panic m \<Longrightarrow> (\<And>x. m = Inr x \<Longrightarrow> no_panic (f x)) \<Longrightarrow> no_panic (rbind m f)"
  by (cases m) auto

lemma no_panic_if [no_panic_intros]:
  "(b \<Longrightarrow> no_panic x) \<Longrightarrow> (\<not> b \<Longrightarrow> no_panic y) \<Longrightarrow> no_panic (if b then x else y)"
  by simp

lemma no_panic_ok_or [no_panic_intros]: "no_panic (Inl e) \<Longrightarrow> no_panic (ok_or x e)"
  by (cases x) auto

lemma no_panic_option [no_panic_intros]:
  "(x = None \<Longrightarrow> no_panic a) \<Longrightarrow> (\<And>v. x = Some v \<Longrightarrow> no_panic (f v))
    \<Longrightarrow> no_panic (case x of None \<Rightarrow> a | Some v \<Rightarrow> f v)"
  by (cases x) auto

lemma no_panic_prod [no_panic_intros]:
  "(\<And>a b. p = (a, b) \<Longrightarrow> no_panic (f a b)) \<Longrightarrow> no_panic (case p of (a, b) \<Rightarrow> f a b)"
  by (cases p) auto

lemma no_panic_rmap [no_panic_intros]:
  "(\<And>x. x \<in> set xs \<Longrightarrow> no_panic (f x)) \<Longrightarrow> no_panic (rmap f xs)"
  by (induction xs) (auto intro!: no_panic_intros)

section \<open>Slipstream fee evidence\<close>

datatype slipstream_runtime_family = AerodromeBaseBifi | VelodromeOptimismBifi

datatype slipstream_unstaked_fee_proof_kind =
  UnusedAllLiquidityStaked | ReviewedRuntimeEvaluation

record slipstream_snapshot_identity =
  snap_chain_id :: u64
  snap_block_number :: u64
  snap_block_hash :: b256
  snap_parent_hash :: b256
  snap_block_timestamp :: u64
  snap_transaction_hash :: b256
  snap_transaction_index :: u64
  snap_log_index :: u64

record slipstream_unstaked_fee_proof =
  prf_runtime_family :: slipstream_runtime_family
  prf_kind :: slipstream_unstaked_fee_proof_kind
  prf_gauge_alive :: "bool option"
  prf_effective_fee :: "u32 option"
  prf_snapshot_identity :: "slipstream_snapshot_identity option"

record slipstream_swap_fee_evidence =
  fee_runtime_family :: slipstream_runtime_family
  fee_chain_id :: u64
  fee_pool :: address
  fee_factory :: address
  fee_proxy_runtime_code_hash :: b256
  fee_implementation :: address
  fee_implementation_runtime_code_hash :: b256
  fee_effective_swap_fee :: u32
  fee_effective_unstaked_fee :: u32
  fee_unstaked_fee_proof :: slipstream_unstaked_fee_proof
  fee_block_number :: u64
  fee_block_hash :: b256
  fee_parent_hash :: b256
  fee_block_timestamp :: u64
  fee_transaction_hash :: b256
  fee_transaction_index :: u64
  fee_log_index :: u64

datatype slipstream_fee_evidence_error =
  RuntimeIdentity | FeeRange | IncompleteLineage | UnstakedFeeProofMismatch

definition evidence_identity :: "slipstream_swap_fee_evidence \<Rightarrow> slipstream_snapshot_identity" where
  "evidence_identity ev = \<lparr>
     snap_chain_id = fee_chain_id ev,
     snap_block_number = fee_block_number ev,
     snap_block_hash = fee_block_hash ev,
     snap_parent_hash = fee_parent_hash ev,
     snap_block_timestamp = fee_block_timestamp ev,
     snap_transaction_hash = fee_transaction_hash ev,
     snap_transaction_index = fee_transaction_index ev,
     snap_log_index = fee_log_index ev\<rparr>"

fun evidence_identity_matches :: "slipstream_runtime_family \<Rightarrow> slipstream_swap_fee_evidence \<Rightarrow> bool" where
  "evidence_identity_matches AerodromeBaseBifi ev =
    (fee_chain_id ev = 8453
     \<and> fee_pool ev = 0xb378137c90444bbcecd44a1f766851fbf53d2a9e
     \<and> fee_factory ev = 0x5e7bb104d84c7cb9b682aac2f3d509f5f406809a
     \<and> fee_proxy_runtime_code_hash ev
         = 0xacd6710f7037ad095b1e4d5f8ee5b2681069cb4dd316e77e4e0cb8f85716a2a1
     \<and> fee_implementation ev = 0xec8e5342b19977b4ef8892e02d8daecfa1315831
     \<and> fee_implementation_runtime_code_hash ev
         = 0x772fb5c610b40a122036f544e5b9b5bce6becb19db9524331289d1aaed2d5888)"
| "evidence_identity_matches VelodromeOptimismBifi ev =
    (fee_chain_id ev = 10
     \<and> fee_pool ev = 0x173cdc71e29d5cffa6d090ad99f555a24b8831f9
     \<and> fee_factory ev = 0xcc0bddb707055e04e497ab22a59c2af4391cd12f
     \<and> fee_proxy_runtime_code_hash ev
         = 0x063ca35333cb7f2463f087d40ff9485475550abf4858a2f63c387d4d102b0f4f
     \<and> fee_implementation ev = 0xc28ad28853a547556780bebf7847628501a3bcbb
     \<and> fee_implementation_runtime_code_hash ev
         = 0x36c3da904ca0b58544254cd0d978fe4801c32dc1f9e3b3e644487ef541299794)"

definition evidence_validate ::
  "slipstream_swap_fee_evidence \<Rightarrow> slipstream_fee_evidence_error + unit" where
  "evidence_validate ev =
    (if \<not> evidence_identity_matches (fee_runtime_family ev) ev then Inl RuntimeIdentity
     else if 100000 < fee_effective_swap_fee ev \<or> 1000000 < fee_effective_unstaked_fee ev
     then Inl FeeRange
     else if prf_runtime_family (fee_unstaked_fee_proof ev) \<noteq> fee_runtime_family ev
     then Inl RuntimeIdentity
     else rbind
       (case prf_kind (fee_unstaked_fee_proof ev) of
          ReviewedRuntimeEvaluation \<Rightarrow>
            if prf_snapshot_identity (fee_unstaked_fee_proof ev) \<noteq> Some (evidence_identity ev)
            then Inl RuntimeIdentity
            else if prf_effective_fee (fee_unstaked_fee_proof ev)
                    \<noteq> Some (fee_effective_unstaked_fee ev)
            then Inl UnstakedFeeProofMismatch
            else Inr ()
        | UnusedAllLiquidityStaked \<Rightarrow>
            if prf_snapshot_identity (fee_unstaked_fee_proof ev) \<noteq> Some (evidence_identity ev)
               \<or> fee_effective_unstaked_fee ev \<noteq> 0
            then Inl UnstakedFeeProofMismatch
            else Inr ())
       (\<lambda>_.
        if fee_block_number ev = 0 \<or> fee_block_hash ev = 0 \<or> fee_parent_hash ev = 0
           \<or> fee_block_timestamp ev = 0 \<or> fee_transaction_hash ev = 0
        then Inl IncompleteLineage
        else Inr ()))"

text \<open>\<open>SlipstreamSwapFeeEvidence::new\<close>: the fields as given, kept only when they validate.\<close>

definition evidence_new ::
  "slipstream_swap_fee_evidence \<Rightarrow> slipstream_fee_evidence_error + slipstream_swap_fee_evidence" where
  "evidence_new ev = rbind (evidence_validate ev) (\<lambda>_. Inr ev)"

definition with_effective_swap_fee ::
  "slipstream_swap_fee_evidence \<Rightarrow> u32
    \<Rightarrow> slipstream_fee_evidence_error + slipstream_swap_fee_evidence" where
  "with_effective_swap_fee ev fee =
    (let ev' = ev\<lparr>fee_effective_swap_fee := fee\<rparr>
     in rbind (evidence_validate ev') (\<lambda>_. Inr ev'))"

definition with_unstaked_fee_evaluation ::
  "slipstream_swap_fee_evidence \<Rightarrow> u32 \<Rightarrow> slipstream_unstaked_fee_proof
    \<Rightarrow> slipstream_fee_evidence_error + slipstream_swap_fee_evidence" where
  "with_unstaked_fee_evaluation ev fee proof =
    (let ev' = ev\<lparr>fee_effective_unstaked_fee := fee, fee_unstaked_fee_proof := proof\<rparr>
     in rbind (evidence_validate ev') (\<lambda>_. Inr ev'))"

section \<open>Staking evidence and the event context\<close>

record transaction_key =
  txk_chain :: u64
  txk_number :: u64
  txk_hash :: b256
  txk_parent :: b256
  txk_timestamp :: u64
  txk_transaction :: b256
  txk_index :: u64

record event_key =
  evk_transaction :: transaction_key
  evk_log :: u64

record slipstream_staking_evidence =
  stk_key :: event_key
  stk_payload :: b256
  stk_lower :: i32
  stk_upper :: i32
  stk_delta :: i128

record adapter_event_context =
  ctx_chain_id :: "u64 option"
  ctx_block_number :: "u64 option"
  ctx_block_hash :: "b256 option"
  ctx_parent_hash :: "b256 option"
  ctx_block_timestamp :: "u64 option"
  ctx_transaction_hash :: "b256 option"
  ctx_transaction_index :: "u64 option"
  ctx_log_index :: "u64 option"
  ctx_slipstream_fee_evidence :: "slipstream_swap_fee_evidence option"
  ctx_slipstream_staking_evidence :: "slipstream_staking_evidence option"

definition for_block :: "u64 \<Rightarrow> b256 \<Rightarrow> u64 \<Rightarrow> adapter_event_context" where
  "for_block block_number block_hash block_timestamp = \<lparr>
     ctx_chain_id = None,
     ctx_block_number = Some block_number,
     ctx_block_hash = Some block_hash,
     ctx_parent_hash = None,
     ctx_block_timestamp = Some block_timestamp,
     ctx_transaction_hash = None,
     ctx_transaction_index = None,
     ctx_log_index = None,
     ctx_slipstream_fee_evidence = None,
     ctx_slipstream_staking_evidence = None\<rparr>"

definition with_chain_id :: "adapter_event_context \<Rightarrow> u64 \<Rightarrow> adapter_event_context" where
  "with_chain_id ctx c = ctx\<lparr>ctx_chain_id := Some c\<rparr>"

definition with_parent_hash :: "adapter_event_context \<Rightarrow> b256 \<Rightarrow> adapter_event_context" where
  "with_parent_hash ctx h = ctx\<lparr>ctx_parent_hash := Some h\<rparr>"

definition with_event_order :: "adapter_event_context \<Rightarrow> u64 \<Rightarrow> u64 \<Rightarrow> adapter_event_context" where
  "with_event_order ctx t l = ctx\<lparr>ctx_transaction_index := Some t, ctx_log_index := Some l\<rparr>"

definition with_transaction_hash :: "adapter_event_context \<Rightarrow> b256 \<Rightarrow> adapter_event_context" where
  "with_transaction_hash ctx h = ctx\<lparr>ctx_transaction_hash := Some h\<rparr>"

definition with_slipstream_fee_evidence ::
  "adapter_event_context \<Rightarrow> slipstream_swap_fee_evidence \<Rightarrow> adapter_event_context" where
  "with_slipstream_fee_evidence ctx ev = ctx\<lparr>ctx_slipstream_fee_evidence := Some ev\<rparr>"

definition matches_context :: "slipstream_snapshot_identity \<Rightarrow> adapter_event_context \<Rightarrow> bool" where
  "matches_context s ctx \<longleftrightarrow>
     ctx_chain_id ctx = Some (snap_chain_id s)
     \<and> ctx_block_number ctx = Some (snap_block_number s)
     \<and> ctx_block_hash ctx = Some (snap_block_hash s)
     \<and> ctx_parent_hash ctx = Some (snap_parent_hash s)
     \<and> ctx_block_timestamp ctx = Some (snap_block_timestamp s)
     \<and> ctx_transaction_hash ctx = Some (snap_transaction_hash s)
     \<and> ctx_transaction_index ctx = Some (snap_transaction_index s)
     \<and> ctx_log_index ctx = Some (snap_log_index s)"

section \<open>Facts\<close>

text \<open>
  Validated evidence is bound to one deployment and one event: its unstaked-fee proof
  carries the same runtime family and the snapshot identity of that very event.
\<close>

lemma evidence_validate_okD:
  assumes "evidence_validate ev = Inr ()"
  shows "evidence_identity_matches (fee_runtime_family ev) ev"
    and "fee_effective_swap_fee ev \<le> 100000" and "fee_effective_unstaked_fee ev \<le> 1000000"
    and "prf_runtime_family (fee_unstaked_fee_proof ev) = fee_runtime_family ev"
    and "prf_snapshot_identity (fee_unstaked_fee_proof ev) = Some (evidence_identity ev)"
    and "prf_kind (fee_unstaked_fee_proof ev) = UnusedAllLiquidityStaked
          \<Longrightarrow> fee_effective_unstaked_fee ev = 0"
    and "prf_kind (fee_unstaked_fee_proof ev) = ReviewedRuntimeEvaluation
          \<Longrightarrow> prf_effective_fee (fee_unstaked_fee_proof ev) = Some (fee_effective_unstaked_fee ev)"
  using assms
  by (auto simp: evidence_validate_def not_less
      split: if_splits slipstream_unstaked_fee_proof_kind.splits)

end
