(* ===== verification/State.thy ===== *)
theory State
  imports Event_Types
begin

text \<open>
  The state-mutation vocabulary of \<open>src/adapters/state.rs\<close>: relative deltas, targeted
  updates, purge scopes, the diff a cache reports, and the read-only view. Applying a batch
  is code of the cache crate; here a batch is data, and \<open>written\<close> reads off it the value it
  leaves in a slot.
\<close>

section \<open>Updates\<close>

datatype slot_delta = DeltaAdd u256 | DeltaSub u256

fun slot_delta_apply :: "slot_delta \<Rightarrow> u256 \<Rightarrow> u256" where
  "slot_delta_apply (DeltaAdd amount) current = saturating_add current amount"
| "slot_delta_apply (DeltaSub amount) current = saturating_sub current amount"

datatype purge_scope = AllStorage | Slots "u256 list"

datatype state_update =
    Slot address u256 u256
  | SlotDelta address u256 slot_delta
  | SlotMasked address u256 u256 u256
  | Purge address purge_scope

record slot_change =
  sc_address :: address
  sc_slot :: u256
  sc_old :: u256
  sc_new :: u256

record skipped_delta =
  sd_address :: address
  sd_slot :: u256
  sd_delta :: slot_delta

record skipped_mask =
  sm_address :: address
  sm_slot :: u256
  sm_mask :: u256
  sm_value :: u256

record state_diff =
  diff_slots :: "slot_change list"
  diff_skipped :: "skipped_delta list"
  diff_skipped_masks :: "skipped_mask list"

definition diff_is_empty :: "state_diff \<Rightarrow> bool" where
  "diff_is_empty d \<longleftrightarrow> diff_slots d = []"

definition diff_len :: "state_diff \<Rightarrow> nat" where
  "diff_len d = length (diff_slots d)"

definition has_skipped :: "state_diff \<Rightarrow> bool" where
  "has_skipped d \<longleftrightarrow> diff_skipped d \<noteq> [] \<or> diff_skipped_masks d \<noteq> []"

section \<open>Reading the parent state\<close>

text \<open>\<open>required\<close> of \<open>v3_transition.rs\<close>: an absent cell is an error, never a zero.\<close>

definition required :: "state_view \<Rightarrow> address \<Rightarrow> u256 \<Rightarrow> u256 result" where
  "required state addr slot = ok_or (state addr slot) (MissingState addr slot)"

lemma required_eq_Inr [simp, result_simps]: "required s a k = Inr v \<longleftrightarrow> s a k = Some v"
  by (simp add: required_def)

lemma required_Some [simp]: "s a k = Some v \<Longrightarrow> required s a k = Inr v"
  by simp

section \<open>The effect of a batch of exact writes\<close>

text \<open>\<open>written us a k\<close> is the last value the batch writes to slot \<open>k\<close> of account \<open>a\<close>.\<close>

fun written :: "state_update list \<Rightarrow> address \<Rightarrow> u256 \<Rightarrow> u256 option" where
  "written [] a k = None"
| "written (u # us) a k =
    (case written us a k of
       Some v \<Rightarrow> Some v
     | None \<Rightarrow> (case u of Slot a' k' v \<Rightarrow> if a' = a \<and> k' = k then Some v else None | _ \<Rightarrow> None))"

text \<open>\<open>overlay us s\<close> is the view that shows the exact writes of \<open>us\<close> on top of \<open>s\<close>.\<close>

definition overlay :: "state_update list \<Rightarrow> state_view \<Rightarrow> state_view" where
  "overlay us s a k = (case written us a k of Some v \<Rightarrow> Some v | None \<Rightarrow> s a k)"

definition exact_writes_to :: "address \<Rightarrow> state_update list \<Rightarrow> bool" where
  "exact_writes_to a us \<longleftrightarrow> list_all (\<lambda>u. case u of Slot a' _ _ \<Rightarrow> a' = a | _ \<Rightarrow> False) us"

lemma written_append:
  "written (us @ vs) a k = (case written vs a k of Some v \<Rightarrow> Some v | None \<Rightarrow> written us a k)"
  by (induction us) (auto split: option.splits)

lemma exact_writes_to_simps [simp]:
  "exact_writes_to a []"
  "exact_writes_to a (u # us) \<longleftrightarrow> (\<exists>k v. u = Slot a k v) \<and> exact_writes_to a us"
  "exact_writes_to a (us @ vs) \<longleftrightarrow> exact_writes_to a us \<and> exact_writes_to a vs"
  by (auto simp: exact_writes_to_def split: state_update.splits)

lemma exact_writes_to_map_Slot [simp]: "exact_writes_to a (map (\<lambda>(k, v). Slot a k v) kvs)"
  by (induction kvs) auto

lemma exact_writes_to_concat:
  "exact_writes_to a (concat uss) \<longleftrightarrow> (\<forall>us \<in> set uss. exact_writes_to a us)"
  by (induction uss) auto

lemma written_other_address:
  "exact_writes_to a us \<Longrightarrow> b \<noteq> a \<Longrightarrow> written us b k = None"
  by (induction us) (auto split: option.splits)

section \<open>Fail-closed readers\<close>

text \<open>
  The contract every exact transition keeps with the state view it reads: a result obtained
  from a partial view is the result of every view that knows more. A reader that took an
  absent cell for a zero would break it. \<open>view_le\<close> is the information order on views.
\<close>

definition view_le :: "state_view \<Rightarrow> state_view \<Rightarrow> bool" where
  "view_le s t \<longleftrightarrow> (\<forall>a k v. s a k = Some v \<longrightarrow> t a k = Some v)"

lemma view_leD: "view_le s t \<Longrightarrow> s a k = Some v \<Longrightarrow> t a k = Some v"
  by (auto simp: view_le_def)

lemma view_le_refl [simp, intro]: "view_le s s"
  by (simp add: view_le_def)

definition fail_closed :: "(state_view \<Rightarrow> 'a result) \<Rightarrow> bool" where
  "fail_closed f \<longleftrightarrow> (\<forall>s t r. view_le s t \<longrightarrow> f s = Inr r \<longrightarrow> f t = Inr r)"

lemma fail_closedI:
  "(\<And>s t r. view_le s t \<Longrightarrow> f s = Inr r \<Longrightarrow> f t = Inr r) \<Longrightarrow> fail_closed f"
  by (auto simp: fail_closed_def)

lemma fail_closedD: "fail_closed f \<Longrightarrow> view_le s t \<Longrightarrow> f s = Inr r \<Longrightarrow> f t = Inr r"
  by (auto simp: fail_closed_def)

named_theorems fail_closed_intros

lemma fail_closed_const [fail_closed_intros, simp]: "fail_closed (\<lambda>_. c)"
  by (simp add: fail_closed_def)

lemma fail_closed_required [fail_closed_intros, simp]: "fail_closed (\<lambda>s. required s a k)"
  by (auto simp: fail_closed_def view_le_def)

lemma fail_closed_rbind [fail_closed_intros]:
  assumes "fail_closed f" and "\<And>x. fail_closed (\<lambda>s. g s x)"
  shows "fail_closed (\<lambda>s. rbind (f s) (g s))"
proof (rule fail_closedI)
  fix s t r
  assume le: "view_le s t" and "rbind (f s) (g s) = Inr r"
  then obtain x where x: "f s = Inr x" "g s x = Inr r" by auto
  from assms(1) le x(1) have "f t = Inr x" by (rule fail_closedD)
  moreover from assms(2) le x(2) have "g t x = Inr r" by (rule fail_closedD)
  ultimately show "rbind (f t) (g t) = Inr r" by simp
qed

lemma fail_closed_if [fail_closed_intros]:
  "fail_closed f \<Longrightarrow> fail_closed g \<Longrightarrow> fail_closed (\<lambda>s. if b then f s else g s)"
  by (cases b) auto

lemma fail_closed_let [fail_closed_intros]:
  "(\<And>x. fail_closed (\<lambda>s. f s x)) \<Longrightarrow> fail_closed (\<lambda>s. let x = v in f s x)"
  by simp

lemma fail_closed_prod [fail_closed_intros]:
  "(\<And>x y. fail_closed (\<lambda>s. f s x y)) \<Longrightarrow> fail_closed (\<lambda>s. case p of (x, y) \<Rightarrow> f s x y)"
  by (cases p) auto

lemma fail_closed_option [fail_closed_intros]:
  "fail_closed f \<Longrightarrow> (\<And>x. fail_closed (\<lambda>s. g s x))
    \<Longrightarrow> fail_closed (\<lambda>s. case m of None \<Rightarrow> f s | Some x \<Rightarrow> g s x)"
  by (cases m) auto

lemma fail_closed_rmap [fail_closed_intros]:
  assumes "\<And>x. fail_closed (\<lambda>s. f s x)"
  shows "fail_closed (\<lambda>s. rmap (f s) xs)"
proof (induction xs)
  case Nil
  then show ?case by simp
next
  case (Cons x xs)
  then show ?case using assms by (simp add: fail_closed_rbind)
qed

text \<open>
  The interface of an exact transition towards the engine that replays it: the reader above,
  and what follows from it for every transition that satisfies it.
\<close>

locale exact_transition =
  fixes derive :: "state_view \<Rightarrow> 'a result"
  assumes closed: "fail_closed derive"
begin

lemma result_survives_warming: "view_le s t \<Longrightarrow> derive s = Inr r \<Longrightarrow> derive t = Inr r"
  using closed by (rule fail_closedD)

text \<open>Two views that agree with a common extension cannot yield different results.\<close>

lemma results_agree:
  assumes "view_le s u" "view_le t u" "derive s = Inr r" "derive t = Inr r'"
  shows "r = r'"
  using result_survives_warming [OF assms(1,3)] result_survives_warming [OF assms(2,4)] by simp

text \<open>Warming more cells never turns success into failure, nor a failure into a different success.\<close>

lemma error_only_if_less_warm:
  assumes "view_le s t" "derive t = Inl e" shows "\<exists>e'. derive s = Inl e'"
  using result_survives_warming [OF assms(1)] assms(2) by (cases "derive s") auto

end

end
