(* ===== verification/Storage.thy ===== *)
theory Storage
  imports State
begin

text \<open>
  The storage constants and storage-key helpers of \<open>src/adapters/storage.rs\<close>, with the
  \<open>maxLiquidityPerTick\<close> formula of \<open>bytecode.rs\<close>. \<open>keccak256\<close> is a function of another crate:
  the key helpers take it as their first argument and build its 64-byte preimages here.
\<close>

type_synonym keccak = "u8 list \<Rightarrow> b256"

section \<open>Slots and layouts\<close>

definition V2_TOKEN0_SLOT :: u256 where "V2_TOKEN0_SLOT = 6"
definition V2_TOKEN1_SLOT :: u256 where "V2_TOKEN1_SLOT = 7"
definition V2_RESERVES_SLOT :: u256 where "V2_RESERVES_SLOT = 8"
definition V3_SLOT0_SLOT :: u256 where "V3_SLOT0_SLOT = 0"
definition V3_LIQUIDITY_SLOT :: u256 where "V3_LIQUIDITY_SLOT = 4"
definition V3_TICKS_BASE_SLOT :: u256 where "V3_TICKS_BASE_SLOT = 5"
definition V3_TICK_BITMAP_BASE_SLOT :: u256 where "V3_TICK_BITMAP_BASE_SLOT = 6"
definition PANCAKE_V3_LIQUIDITY_SLOT :: u256 where "PANCAKE_V3_LIQUIDITY_SLOT = 5"
definition PANCAKE_V3_TICKS_BASE_SLOT :: u256 where "PANCAKE_V3_TICKS_BASE_SLOT = 6"
definition PANCAKE_V3_TICK_BITMAP_BASE_SLOT :: u256 where "PANCAKE_V3_TICK_BITMAP_BASE_SLOT = 7"
definition SLIPSTREAM_SLOT0_SLOT :: u256 where "SLIPSTREAM_SLOT0_SLOT = 6"
definition SLIPSTREAM_LIQUIDITY_SLOT :: u256 where "SLIPSTREAM_LIQUIDITY_SLOT = 16"
definition SLIPSTREAM_TICKS_BASE_SLOT :: u256 where "SLIPSTREAM_TICKS_BASE_SLOT = 17"
definition SLIPSTREAM_TICK_BITMAP_BASE_SLOT :: u256 where "SLIPSTREAM_TICK_BITMAP_BASE_SLOT = 18"

definition SLIPSTREAM_TRANSITION_GLOBAL_SLOTS :: "u64 list" where
  "SLIPSTREAM_TRANSITION_GLOBAL_SLOTS = [0, 3, 4, 7, 8, 9, 10, 11, 12, 14, 15]"

record v3_storage_layout =
  slot0_slot :: u256
  liquidity_slot :: u256
  ticks_base_slot :: u256
  tick_bitmap_base_slot :: u256
  tick_spacing :: i32

definition layout_uniswap :: "i32 \<Rightarrow> v3_storage_layout" where
  "layout_uniswap spacing = \<lparr>slot0_slot = V3_SLOT0_SLOT, liquidity_slot = V3_LIQUIDITY_SLOT,
     ticks_base_slot = V3_TICKS_BASE_SLOT, tick_bitmap_base_slot = V3_TICK_BITMAP_BASE_SLOT,
     tick_spacing = spacing\<rparr>"

definition layout_pancake :: "i32 \<Rightarrow> v3_storage_layout" where
  "layout_pancake spacing = \<lparr>slot0_slot = V3_SLOT0_SLOT,
     liquidity_slot = PANCAKE_V3_LIQUIDITY_SLOT, ticks_base_slot = PANCAKE_V3_TICKS_BASE_SLOT,
     tick_bitmap_base_slot = PANCAKE_V3_TICK_BITMAP_BASE_SLOT, tick_spacing = spacing\<rparr>"

definition layout_slipstream :: "i32 \<Rightarrow> v3_storage_layout" where
  "layout_slipstream spacing = \<lparr>slot0_slot = SLIPSTREAM_SLOT0_SLOT,
     liquidity_slot = SLIPSTREAM_LIQUIDITY_SLOT, ticks_base_slot = SLIPSTREAM_TICKS_BASE_SLOT,
     tick_bitmap_base_slot = SLIPSTREAM_TICK_BITMAP_BASE_SLOT, tick_spacing = spacing\<rparr>"

record solidly_storage_layout =
  reserve0_slot :: u256
  reserve1_slot :: u256
  token0_slot :: u256
  token1_slot :: u256

section \<open>Byte encodings\<close>

text \<open>\<open>to_be_bytes::<32>\<close>, most significant byte first.\<close>

definition to_be_bytes32 :: "u256 \<Rightarrow> u8 list" where
  "to_be_bytes32 w = map (\<lambda>i. ucast (drop_bit (8 * (31 - i)) w)) [0..<32]"

definition decode_address_slot :: "u256 \<Rightarrow> address" where
  "decode_address_slot w = ucast w"

text \<open>\<open>i256_from_i16\<close> and \<open>i256_from_i24\<close>: the 32-byte sign extension of an \<open>int16\<close> and an \<open>int24\<close>.\<close>

definition i256_from_i16 :: "i16 \<Rightarrow> u8 list" where
  "i256_from_i16 v =
    replicate 30 (if sint v < 0 then 0xFF else 0) @ [ucast (drop_bit 8 v), ucast v]"

definition i256_from_i24 :: "i32 \<Rightarrow> u8 list" where
  "i256_from_i24 v =
    (let masked = v AND 0x00FFFFFF; is_negative = masked AND 0x00800000 \<noteq> 0
     in replicate 29 (if is_negative then 0xFF else 0) @
        [word_of_int (drop_bit 16 masked AND 0xFF), word_of_int (drop_bit 8 masked AND 0xFF),
         word_of_int (masked AND 0xFF)])"

section \<open>Storage keys\<close>

text \<open>
  \<open>div_euclid\<close> by a positive divisor is \<^term>\<open>(div)\<close> on \<^typ>\<open>int\<close>; the cast to \<open>i16\<close> keeps the low
  16 bits. The assertion of the source is an abort of the model.
\<close>

definition v3_word_position :: "i32 \<Rightarrow> i32 \<Rightarrow> i16 result" where
  "v3_word_position tick spacing =
    (if 0 < spacing then Inr (word_of_int (tick div spacing div 256))
     else Inl (Panicked ''V3 tick_spacing must be positive''))"

definition v3_tick_bitmap_storage_key_with_base :: "keccak \<Rightarrow> i16 \<Rightarrow> u256 \<Rightarrow> u256" where
  "v3_tick_bitmap_storage_key_with_base keccak256 word_position base_slot =
    keccak256 (i256_from_i16 word_position @ to_be_bytes32 base_slot)"

definition v3_tick_bitmap_storage_key :: "keccak \<Rightarrow> i16 \<Rightarrow> u256" where
  "v3_tick_bitmap_storage_key keccak256 word_position =
    v3_tick_bitmap_storage_key_with_base keccak256 word_position V3_TICK_BITMAP_BASE_SLOT"

definition v3_tick_info_storage_base :: "keccak \<Rightarrow> i32 \<Rightarrow> u256 \<Rightarrow> u256" where
  "v3_tick_info_storage_base keccak256 tick ticks_slot =
    keccak256 (i256_from_i24 tick @ to_be_bytes32 ticks_slot)"

definition v3_tick_info_storage_keys_with_base :: "keccak \<Rightarrow> i32 \<Rightarrow> u256 \<Rightarrow> u256 list" where
  "v3_tick_info_storage_keys_with_base keccak256 tick ticks_slot =
    (let base = v3_tick_info_storage_base keccak256 tick ticks_slot
     in [base, base + 1, base + 2, base + 3])"

definition v3_tick_info_storage_keys :: "keccak \<Rightarrow> i32 \<Rightarrow> u256 list" where
  "v3_tick_info_storage_keys keccak256 tick =
    v3_tick_info_storage_keys_with_base keccak256 tick V3_TICKS_BASE_SLOT"

definition slipstream_tick_info_storage_keys_with_base :: "keccak \<Rightarrow> i32 \<Rightarrow> u256 \<Rightarrow> u256 list" where
  "slipstream_tick_info_storage_keys_with_base keccak256 tick ticks_slot =
    (let base = v3_tick_info_storage_base keccak256 tick ticks_slot
     in [base, base + 1, base + 2, base + 3, base + 4, base + 5])"

section \<open>Liquidity cap per tick\<close>

text \<open>\<open>i128\<close> division truncates towards zero; both quotients below have a positive divisor.\<close>

definition trunc_div :: "int \<Rightarrow> int \<Rightarrow> int" where
  "trunc_div a b = sgn a * sgn b * (\<bar>a\<bar> div \<bar>b\<bar>)"

definition uniswap_v3_max_liquidity_per_tick :: "i32 \<Rightarrow> u256 option" where
  "uniswap_v3_max_liquidity_per_tick spacing =
    (if spacing \<le> 0 then None
     else let min_tick = trunc_div (- 887272) spacing * spacing;
              max_tick = trunc_div 887272 spacing * spacing;
              tick_count = trunc_div (max_tick - min_tick) spacing + 1
          in if tick_count \<le> 0 then None
             else Some ((ucast (- 1 :: u128) :: u256) div ucast (word_of_int tick_count :: u128)))"

section \<open>Facts\<close>

lemma layout_select [simp]:
  "slot0_slot (layout_uniswap n) = 0" "liquidity_slot (layout_uniswap n) = 4"
  "ticks_base_slot (layout_uniswap n) = 5" "tick_bitmap_base_slot (layout_uniswap n) = 6"
  "tick_spacing (layout_uniswap n) = n"
  "slot0_slot (layout_slipstream n) = 6" "liquidity_slot (layout_slipstream n) = 16"
  "ticks_base_slot (layout_slipstream n) = 17" "tick_bitmap_base_slot (layout_slipstream n) = 18"
  "tick_spacing (layout_slipstream n) = n"
  by (simp_all add: layout_uniswap_def layout_slipstream_def V3_SLOT0_SLOT_def V3_LIQUIDITY_SLOT_def
      V3_TICKS_BASE_SLOT_def V3_TICK_BITMAP_BASE_SLOT_def SLIPSTREAM_SLOT0_SLOT_def
      SLIPSTREAM_LIQUIDITY_SLOT_def SLIPSTREAM_TICKS_BASE_SLOT_def SLIPSTREAM_TICK_BITMAP_BASE_SLOT_def)

lemma length_to_be_bytes32 [simp]: "length (to_be_bytes32 w) = 32"
  by (simp add: to_be_bytes32_def)

lemma length_i256 [simp]: "length (i256_from_i16 v) = 32" "length (i256_from_i24 t) = 32"
  by (simp_all add: i256_from_i16_def i256_from_i24_def Let_def)

lemma nth_to_be_bytes32:
  "i < 32 \<Longrightarrow> to_be_bytes32 w ! i = ucast (drop_bit (8 * (31 - i)) w)"
  by (simp add: to_be_bytes32_def)

lemma bit_to_be_bytes32:
  assumes "n < 256"
  shows "bit w n \<longleftrightarrow> bit (to_be_bytes32 w ! (31 - n div 8)) (n mod 8)"
proof -
  have "n div 8 < 32" using assms by auto
  then have "to_be_bytes32 w ! (31 - n div 8) = ucast (drop_bit (8 * (n div 8)) w)"
    by (simp add: nth_to_be_bytes32)
  then show ?thesis using assms
    by (simp add: bit_ucast_iff bit_drop_bit_eq)
qed

lemma to_be_bytes32_inj: "to_be_bytes32 v = to_be_bytes32 w \<longleftrightarrow> v = w"
proof
  assume eq: "to_be_bytes32 v = to_be_bytes32 w"
  show "v = w"
  proof (rule bit_word_eqI)
    fix n
    assume "n < LENGTH(256)"
    then have "n < 256" by simp
    then show "bit v n = bit w n" using eq by (simp add: bit_to_be_bytes32)
  qed
qed simp

end
