(* ===== verification/Fixed_Point.thy ===== *)
theory Fixed_Point
  imports Storage
begin

text \<open>
  The fixed-point and bit-field arithmetic of \<open>src/adapters/v3_transition.rs\<close>: the constants
  and masks, the typed failures, 512-bit multiply-and-divide with rounding, checked sums, and
  the signed bit fields packed into storage words.
\<close>

section \<open>Constants and failures\<close>

text \<open>\<open>U256::from_limbs\<close>, least significant limb first.\<close>

definition from_limbs :: "u64 \<Rightarrow> u64 \<Rightarrow> u64 \<Rightarrow> u64 \<Rightarrow> u256" where
  "from_limbs a b c d =
    ucast a OR push_bit 64 (ucast b) OR push_bit 128 (ucast c) OR push_bit 192 (ucast d)"

definition FEE_DENOMINATOR :: u64 where "FEE_DENOMINATOR = 1000000"
definition MAX_SWAP_STEPS :: u32 where "MAX_SWAP_STEPS = 4096"
definition Q96 :: u256 where "Q96 = from_limbs 0 (push_bit 32 1) 0 0"
definition Q128 :: u256 where "Q128 = from_limbs 0 0 1 0"

definition SLOT0_SQRT_MASK :: u256 where
  "SLOT0_SQRT_MASK = from_limbs (- 1) (- 1) (ucast (- 1 :: u32)) 0"
definition SLOT0_TICK_MASK :: u256 where "SLOT0_TICK_MASK = from_limbs 0x00ffffff 0 0 0"
definition WORD_128_MASK :: u256 where "WORD_128_MASK = from_limbs (- 1) (- 1) 0 0"
definition WORD_160_MASK :: u256 where "WORD_160_MASK = SLOT0_SQRT_MASK"
definition WORD_56_MASK :: u256 where "WORD_56_MASK = from_limbs (push_bit 56 1 - 1) 0 0 0"
definition WORD_32_MASK :: u256 where "WORD_32_MASK = from_limbs (ucast (- 1 :: u32)) 0 0 0"

definition contradiction :: "string \<Rightarrow> adapter_event_error" where
  "contradiction reason = V3Transition (ContradictoryEvent reason)"

definition final_mismatch :: "string \<Rightarrow> u256 \<Rightarrow> u256 \<Rightarrow> adapter_event_error" where
  "final_mismatch field derived event = V3Transition (FinalStateMismatch field derived event)"

definition arithmetic :: "string \<Rightarrow> adapter_event_error" where
  "arithmetic reason = V3Transition (Arithmetic reason)"

section \<open>Multiply and divide\<close>

definition div_512 :: "u512 \<Rightarrow> u512 \<Rightarrow> bool \<Rightarrow> u256 result" where
  "div_512 numerator denominator round_up =
    (if denominator = 0 then Inl (arithmetic ''division by zero'')
     else let quotient = numerator div denominator;
              remainder = numerator mod denominator;
              rounded = (if round_up \<and> remainder \<noteq> 0 then quotient + 1 else quotient)
          in if 256 < bit_len rounded then Inl (arithmetic ''value exceeds uint256'')
             else Inr (ucast rounded))"

definition mul_div :: "u256 \<Rightarrow> u256 \<Rightarrow> u256 \<Rightarrow> u256 result" where
  "mul_div a b denominator = div_512 (ucast a * ucast b) (ucast denominator) False"

definition mul_div_round_up :: "u256 \<Rightarrow> u256 \<Rightarrow> u256 \<Rightarrow> u256 result" where
  "mul_div_round_up a b denominator = div_512 (ucast a * ucast b) (ucast denominator) True"

fun checked_sum_from :: "u256 \<Rightarrow> u256 list \<Rightarrow> u256 result" where
  "checked_sum_from acc [] = Inr acc"
| "checked_sum_from acc (v # vs) =
    rbind (ok_or (checked_add acc v) (arithmetic ''amount sum overflow'')) (\<lambda>s. checked_sum_from s vs)"

definition checked_sum :: "u256 list \<Rightarrow> u256 result" where
  "checked_sum vs = checked_sum_from 0 vs"

definition mul_shift_128 :: "u256 \<Rightarrow> u256 \<Rightarrow> u256 result" where
  "mul_shift_128 a b =
    (let r = drop_bit 128 ((ucast a :: u512) * ucast b)
     in if 256 < bit_len r then Inl (arithmetic ''TickMath overflow'') else Inr (ucast r))"

section \<open>Signed bit fields\<close>

definition low_mask :: "nat \<Rightarrow> u256" where
  "low_mask bits = drop_bit (256 - bits) (- 1)"

definition signed_from_bits :: "u256 \<Rightarrow> nat \<Rightarrow> i64" where
  "signed_from_bits w bits =
    (let raw = (ucast (w AND low_mask bits) :: u64); sign = push_bit (bits - 1) 1
     in if raw AND sign = 0 then raw else word_of_int (uint raw - 2 ^ bits))"

definition unsigned_bits :: "i64 \<Rightarrow> nat \<Rightarrow> u256" where
  "unsigned_bits value bits = ucast (value AND (push_bit bits 1 - 1))"

definition wrapping_signed_add :: "i64 \<Rightarrow> i64 \<Rightarrow> nat \<Rightarrow> i64" where
  "wrapping_signed_add a b bits = signed_from_bits (unsigned_bits (a + b) bits) bits"

definition wrapping_signed_sub :: "i64 \<Rightarrow> i64 \<Rightarrow> nat \<Rightarrow> i64" where
  "wrapping_signed_sub a b bits = signed_from_bits (unsigned_bits (a - b) bits) bits"

section \<open>The masks are bit ranges\<close>

lemma from_limbs_low: "from_limbs a 0 0 0 = ucast a"
  by (simp add: from_limbs_def)

lemma Q96_eq [simp]: "Q96 = 2 ^ 96"
  by (simp add: Q96_def from_limbs_def)

lemma Q128_eq [simp]: "Q128 = 2 ^ 128"
  by (simp add: Q128_def from_limbs_def)

lemma WORD_128_MASK_eq [packed_simps]: "WORD_128_MASK = mask 128"
  by (simp add: WORD_128_MASK_def from_limbs_def unsigned_minus_1_eq_mask mask_eq_exp_minus_1)

lemma SLOT0_SQRT_MASK_eq [packed_simps]: "SLOT0_SQRT_MASK = mask 160"
  by (simp add: SLOT0_SQRT_MASK_def from_limbs_def unsigned_minus_1_eq_mask mask_eq_exp_minus_1)

lemma WORD_160_MASK_eq [packed_simps]: "WORD_160_MASK = mask 160"
  by (simp add: WORD_160_MASK_def SLOT0_SQRT_MASK_eq)

lemma SLOT0_TICK_MASK_eq [packed_simps]: "SLOT0_TICK_MASK = mask 24"
  by (simp add: SLOT0_TICK_MASK_def from_limbs_def mask_eq_exp_minus_1)

lemma WORD_56_MASK_eq [packed_simps]: "WORD_56_MASK = mask 56"
  by (simp add: WORD_56_MASK_def from_limbs_def mask_eq_exp_minus_1)

lemma WORD_32_MASK_eq [packed_simps]: "WORD_32_MASK = mask 32"
  by (simp add: WORD_32_MASK_def from_limbs_def unsigned_minus_1_eq_mask mask_eq_exp_minus_1)

lemma uint_Q96 [simp]: "uint Q96 = 2 ^ 96"
  by simp

lemma uint_Q128 [simp]: "uint Q128 = 2 ^ 128"
  by simp

lemma uint_mask: "uint (mask n :: 'a::len word) = 2 ^ min LENGTH('a) n - 1"
  unfolding uint_mask_eq by (simp add: mask_eq_exp_minus_1)

lemma word_le_mask_iff: "(w :: 'a::len word) \<le> mask n \<longleftrightarrow> LENGTH('a) \<le> n \<or> uint w < 2 ^ n"
proof (cases "LENGTH('a) \<le> n")
  case True
  then have "uint w < 2 ^ min LENGTH('a) n" using uint_lt_exp [of w] by (simp add: min_def)
  then show ?thesis using True by (simp add: word_le_def uint_mask)
next
  case False
  then show ?thesis by (simp add: word_le_def uint_mask min_def)
qed

lemma le_WORD_128_MASK_iff [packed_simps]: "w \<le> WORD_128_MASK \<longleftrightarrow> uint w < 2 ^ 128"
  by (simp add: WORD_128_MASK_eq word_le_mask_iff)

lemma le_SLOT0_SQRT_MASK_iff [packed_simps]: "w \<le> SLOT0_SQRT_MASK \<longleftrightarrow> uint w < 2 ^ 160"
  by (simp add: SLOT0_SQRT_MASK_eq word_le_mask_iff)

lemma uint_and_mask:
  fixes w :: "'a::len word"
  shows "uint (w AND mask n) = uint w mod 2 ^ n"
  unfolding take_bit_eq_mask [symmetric] unsigned_take_bit_eq by (rule take_bit_eq_mod)

section \<open>Exactness of the arithmetic\<close>

lemma uint_ucast_up [simp]: "uint (ucast (a :: u256) :: u512) = uint a"
  by (simp add: unsigned_ucast_eq take_bit_int_eq_self_iff order_less_le_trans [OF uint_lt_exp])

lemma uint_ucast_down:
  fixes w :: "'a::len word"
  assumes "uint w < 2 ^ LENGTH('b)"
  shows "uint (ucast w :: 'b::len word) = uint w"
  using assms by (simp add: unsigned_ucast_eq take_bit_int_eq_self_iff)

lemma uint_product_512: "uint (ucast (a :: u256) * ucast (b :: u256) :: u512) = uint a * uint b"
proof -
  have "uint a * uint b < 2 ^ 256 * 2 ^ 256"
    using uint_lt_exp [of a] uint_lt_exp [of b] by (intro mult_strict_mono) auto
  then show ?thesis by (simp add: uint_mult_no_wrap flip: power_add)
qed

text \<open>\<open>div_512\<close> fails exactly on a zero divisor or a quotient wider than 256 bits; otherwise it is exact.\<close>

lemma word_mod_eq_0_iff: "n mod d = 0 \<longleftrightarrow> uint n mod uint d = 0"
proof -
  have "n mod d = 0 \<longleftrightarrow> uint (n mod d) = 0" by (simp add: uint_0_iff)
  then show ?thesis by (simp only: uint_mod)
qed

lemma uint_rounded_512:
  fixes n d :: u512
  assumes "d \<noteq> 0"
  shows "uint (if up \<and> n mod d \<noteq> 0 then n div d + 1 else n div d) = round_div up (uint n) (uint d)"
proof (cases "up \<and> n mod d \<noteq> 0")
  case True
  then have "uint n mod uint d \<noteq> 0" by (simp add: word_mod_eq_0_iff)
  then have "uint d \<noteq> 1" by auto
  moreover have "0 < uint d" using assms by (simp add: uint_pos_iff)
  ultimately have "2 \<le> uint d" by simp
  then have "uint n div uint d \<le> uint n div 2"
    by (intro zdiv_mono2) simp_all
  also have "\<dots> < 2 ^ 511" using uint_lt_exp [of n] by simp
  finally have "uint n div uint d + 1 < 2 ^ 512" by simp
  then have "uint (n div d + 1) = uint n div uint d + 1"
    by (subst uint_add_no_wrap) (simp_all add: uint_div)
  then show ?thesis using True \<open>uint n mod uint d \<noteq> 0\<close> by (simp add: round_div_def)
next
  case False
  then show ?thesis
    by (auto simp: round_div_def uint_div word_mod_eq_0_iff)
qed

lemma div_512_eq_Inr:
  "div_512 n d up = Inr v \<longleftrightarrow> d \<noteq> 0 \<and> uint v = round_div up (uint n) (uint d)"
proof (cases "d = 0")
  case True
  then show ?thesis by (simp add: div_512_def)
next
  case False
  define r where "r = (if up \<and> n mod d \<noteq> 0 then n div d + 1 else n div d)"
  have r: "uint r = round_div up (uint n) (uint d)"
    unfolding r_def using False by (rule uint_rounded_512)
  have "div_512 n d up = Inr v \<longleftrightarrow> uint r < 2 ^ 256 \<and> ucast r = v"
    using False by (auto simp: div_512_def Let_def r_def [symmetric] bit_len_gt_iff not_le)
  also have "\<dots> \<longleftrightarrow> uint v = uint r"
  proof
    assume "uint r < 2 ^ 256 \<and> ucast r = v"
    then show "uint v = uint r" by (auto simp: unsigned_ucast_eq take_bit_int_eq_self_iff)
  next
    assume eq: "uint v = uint r"
    then have "uint r < 2 ^ 256" using uint_lt_exp [of v] by simp
    with eq show "uint r < 2 ^ 256 \<and> ucast r = v"
      by (simp add: word_uint_eq_iff unsigned_ucast_eq take_bit_int_eq_self_iff)
  qed
  finally show ?thesis using False r by simp
qed

lemma mul_div_eq_Inr:
  "mul_div a b d = Inr v \<longleftrightarrow> d \<noteq> 0 \<and> uint v = uint a * uint b div uint d"
  by (simp add: mul_div_def div_512_eq_Inr uint_product_512 word_uint_eq_iff)

lemma mul_div_round_up_eq_Inr:
  "mul_div_round_up a b d = Inr v \<longleftrightarrow> d \<noteq> 0 \<and> uint v = ceil_div (uint a * uint b) (uint d)"
  by (simp add: mul_div_round_up_def div_512_eq_Inr uint_product_512 word_uint_eq_iff)

lemma checked_sum_from_eq_Inr:
  "checked_sum_from acc vs = Inr v \<longleftrightarrow> uint v = uint acc + (\<Sum>x\<leftarrow>vs. uint x)"
proof (induction vs arbitrary: acc)
  case Nil
  then show ?case by (auto simp: word_uint_eq_iff)
next
  case (Cons x xs)
  have nonneg: "0 \<le> (\<Sum>y\<leftarrow>xs. uint y)" by (induction xs) simp_all
  show ?case
  proof
    assume "checked_sum_from acc (x # xs) = Inr v"
    then show "uint v = uint acc + (\<Sum>y\<leftarrow>x # xs. uint y)"
      using Cons.IH by (auto simp: checked_simps)
  next
    assume v: "uint v = uint acc + (\<Sum>y\<leftarrow>x # xs. uint y)"
    then have "uint acc + uint x < 2 ^ 256" using uint_lt_exp [of v] nonneg by simp
    then have "checked_add acc x = Some (acc + x)" and "uint (acc + x) = uint acc + uint x"
      by (simp_all add: checked_add_def uint_add_no_wrap)
    then show "checked_sum_from acc (x # xs) = Inr v" using v Cons.IH by simp
  qed
qed

lemma checked_sum_eq_Inr: "checked_sum vs = Inr v \<longleftrightarrow> uint v = (\<Sum>x\<leftarrow>vs. uint x)"
  by (simp add: checked_sum_def checked_sum_from_eq_Inr)

lemma mul_shift_128_eq_Inr: "mul_shift_128 a b = Inr v \<longleftrightarrow> uint v = uint a * uint b div 2 ^ 128"
proof -
  define r where "r = drop_bit 128 ((ucast a :: u512) * ucast b)"
  have r: "uint r = uint a * uint b div 2 ^ 128"
    unfolding r_def unsigned_drop_bit_eq take_bit_int_eq_self [OF uint_ge_0 uint_lt_exp]
    unfolding uint_product_512 by (rule drop_bit_eq_div)
  show ?thesis
  proof
    assume "mul_shift_128 a b = Inr v"
    then have "uint r < 2 ^ 256" "ucast r = v"
      by (auto simp: mul_shift_128_def Let_def r_def [symmetric] bit_len_gt_iff not_le split: if_splits)
    then have "uint v = uint r" using uint_ucast_down [of r, where 'b = 256] by auto
    then show "uint v = uint a * uint b div 2 ^ 128" by (simp only: r)
  next
    assume v: "uint v = uint a * uint b div 2 ^ 128"
    then have "uint r < 2 ^ 256" using r uint_lt_exp [of v] by simp
    moreover from this have "ucast r = v"
      using uint_ucast_down [of r, where 'b = 256] r v by (simp add: word_uint_eq_iff)
    ultimately show "mul_shift_128 a b = Inr v"
      by (simp add: mul_shift_128_def Let_def r_def [symmetric] bit_len_gt_iff not_le)
  qed
qed

section \<open>Signed fields are two's complement\<close>

lemma low_mask_eq [packed_simps]: "bits \<le> 256 \<Longrightarrow> low_mask bits = mask bits"
  unfolding low_mask_def by (rule bit_word_eqI) (auto simp: bit_simps)

lemma push_bit_one_minus_one [packed_simps]: "push_bit n (1 :: 'a::len word) - 1 = mask n"
  by (simp add: mask_eq_exp_minus_1 push_bit_eq_mult)

lemma uint_unsigned_bits:
  assumes "bits \<le> 64"
  shows "uint (unsigned_bits v bits) = take_bit bits (sint v)"
proof -
  have "uint (unsigned_bits v bits) = uint (v AND mask bits)"
    unfolding unsigned_bits_def push_bit_one_minus_one
    by (rule uint_ucast_down) (rule order_less_trans [OF uint_lt_exp], simp)
  also have "\<dots> = take_bit bits (uint v)"
    by (simp only: uint_and_mask take_bit_eq_mod)
  also have "\<dots> = take_bit bits (sint v)"
    using assms by (simp add: sint_uint min_def take_bit_signed_take_bit)
  finally show ?thesis .
qed

lemma sint_signed_from_bits:
  assumes "0 < bits" "bits \<le> 63"
  shows "sint (signed_from_bits w bits) = signed_take_bit (bits - 1) (uint w)"
proof -
  define raw where "raw = (ucast (w AND low_mask bits) :: u64)"
  have bnd: "take_bit bits (uint w) < 2 ^ bits" by simp
  also have "(2 :: int) ^ bits \<le> 2 ^ 63" using assms by (intro power_increasing) auto
  finally have lt63: "take_bit bits (uint w) < 2 ^ 63" .
  have "uint (w AND low_mask bits) = take_bit bits (uint w)"
    using assms by (simp only: low_mask_eq uint_and_mask take_bit_eq_mod)
  with lt63 have raw: "uint raw = take_bit bits (uint w)"
    unfolding raw_def by (subst uint_ucast_down) simp_all
  have neg: "raw AND push_bit (bits - 1) 1 = 0 \<longleftrightarrow> \<not> bit (uint w) (bits - 1)"
  proof -
    have "raw AND push_bit (bits - 1) 1 = 0 \<longleftrightarrow> \<not> bit raw (bits - 1)"
      by (simp add: push_bit_of_1 and_exp_eq_0_iff_not_bit)
    also have "bit raw (bits - 1) = bit (uint raw) (bits - 1)"
      using assms bit_imp_le_length [of raw "bits - 1"] by (auto simp: bit_uint_iff)
    finally show ?thesis using assms by (simp add: raw bit_take_bit_iff)
  qed
  have stb: "signed_take_bit (bits - 1) (uint w)
      = take_bit bits (uint w) - 2 ^ bits * of_bool (bit (uint w) (bits - 1))"
    using assms by (simp add: signed_take_bit_eq_take_bit_minus)
  have sint_small: "sint (word_of_int k :: u64) = k" if "- (2 ^ 63) \<le> k" "k < 2 ^ 63" for k
    using that by (simp add: sint_sbintrunc' signed_take_bit_int_eq_self_iff)
  show ?thesis
  proof (cases "bit (uint w) (bits - 1)")
    case True
    have "- (2 ^ 63) \<le> take_bit bits (uint w) - 2 ^ bits" "take_bit bits (uint w) - 2 ^ bits < 2 ^ 63"
      using bnd \<open>(2 :: int) ^ bits \<le> 2 ^ 63\<close> take_bit_nonnegative [of bits "uint w"] by linarith+
    then have "sint (word_of_int (uint raw - 2 ^ bits) :: u64) = uint raw - 2 ^ bits"
      unfolding raw by (rule sint_small)
    moreover have "signed_from_bits w bits = word_of_int (uint raw - 2 ^ bits)"
      using True neg unfolding signed_from_bits_def raw_def [symmetric] Let_def by (simp only: not_True_eq_False if_False)
    ultimately show ?thesis using True stb raw by simp
  next
    case False
    have "- (2 ^ 63) \<le> uint raw" "uint raw < 2 ^ 63"
      using lt63 raw uint_ge_0 [of raw] by linarith+
    then have "sint (word_of_int (uint raw) :: u64) = uint raw" by (rule sint_small)
    then have "sint raw = uint raw" by simp
    then show ?thesis
      using False neg stb raw by (simp add: signed_from_bits_def raw_def [symmetric] Let_def)
  qed
qed

lemma sint_signed_unsigned:
  assumes "0 < bits" "bits \<le> 63"
  shows "sint (signed_from_bits (unsigned_bits v bits) bits) = signed_take_bit (bits - 1) (sint v)"
  using assms by (simp add: sint_signed_from_bits uint_unsigned_bits signed_take_bit_eq_iff_take_bit_eq)

lemma signed_unsigned_roundtrip:
  assumes "0 < bits" "bits \<le> 63" "- (2 ^ (bits - 1)) \<le> sint v" "sint v < 2 ^ (bits - 1)"
  shows "signed_from_bits (unsigned_bits v bits) bits = v"
  using assms
  by (intro signed_word_eqI [where 'a = int])
     (simp add: sint_signed_unsigned signed_take_bit_int_eq_self_iff)

section \<open>Failures are values\<close>

lemma error_not_panic [simp]:
  "contradiction reason \<noteq> Panicked msg" "arithmetic reason \<noteq> Panicked msg"
  "final_mismatch field x y \<noteq> Panicked msg"
  by (simp_all add: contradiction_def arithmetic_def final_mismatch_def)

lemma no_panic_errors [no_panic_intros, simp]:
  "no_panic (Inl (contradiction reason))" "no_panic (Inl (arithmetic reason))"
  "no_panic (Inl (final_mismatch field x y))" "no_panic (Inl (V3Transition e))"
  "no_panic (Inl (MalformedLog reason))" "no_panic (Inl (MissingState a k))"
  by simp_all

lemma no_panic_required [no_panic_intros, simp]: "no_panic (required s a k)"
  by (simp add: required_def no_panic_ok_or)

lemma no_panic_div_512 [no_panic_intros, simp]: "no_panic (div_512 n d up)"
  by (simp add: div_512_def Let_def)

lemma no_panic_mul_div [no_panic_intros, simp]:
  "no_panic (mul_div a b d)" "no_panic (mul_div_round_up a b d)"
  by (simp_all add: mul_div_def mul_div_round_up_def)

lemma no_panic_checked_sum [no_panic_intros, simp]: "no_panic (checked_sum vs)"
proof -
  have "no_panic (checked_sum_from acc vs)" for acc
    by (induction vs arbitrary: acc) (auto intro!: no_panic_intros)
  then show ?thesis by (simp add: checked_sum_def)
qed

end
