(* ===== verification/Tick_Math.thy ===== *)
theory Tick_Math
  imports Fixed_Point
begin

text \<open>
  The tick-to-price function of \<open>src/adapters/v3_transition.rs\<close> (\<open>sqrt_ratio_at_tick\<close>) and the
  check of an event's final tick (\<open>validate_final_tick\<close>). The facts: the function is total on
  the tick range, it never aborts, it is monotone, and therefore the final-tick check pins
  down the tick of a price.
\<close>

section \<open>The price of a tick\<close>

definition TICK_CONSTANTS :: "(u32 \<times> u256) list" where
  "TICK_CONSTANTS =
    [(0x2, 0xfff97272373d413259a46990580e213a),
     (0x4, 0xfff2e50f5f656932ef12357cf3c7fdcc),
     (0x8, 0xffe5caca7e10e4e61c3624eaa0941cd0),
     (0x10, 0xffcb9843d60f6159c9db58835c926644),
     (0x20, 0xff973b41fa98c081472e6896dfb254c0),
     (0x40, 0xff2ea16466c96a3843ec78b326b52861),
     (0x80, 0xfe5dee046a99a2a811c461f1969c3053),
     (0x100, 0xfcbe86c7900a88aedcffc83b479aa3a4),
     (0x200, 0xf987a7253ac413176f2b074cf7815e54),
     (0x400, 0xf3392b0822b70005940c7a398e4b70f3),
     (0x800, 0xe7159475a2c29b7443b29c7fa6e889d9),
     (0x1000, 0xd097f3bdfd2022b8845ad8f792aa5825),
     (0x2000, 0xa9f746462d870fdf8a65dc1f90e061e5),
     (0x4000, 0x70d869a156d2a1b890bb3df62baf32f7),
     (0x8000, 0x31be135f97d08fd981231505542fcfa6),
     (0x10000, 0x9aa508b5b7a84e1c677de54f3e99bc9),
     (0x20000, 0x5d6af8dedb81196699c329225ee604),
     (0x40000, 0x2216e584f5fa1ea926041bedfe98),
     (0x80000, 0x48a170391f7dc42444e8fa2)]"

fun tick_ratio_loop :: "u32 \<Rightarrow> (u32 \<times> u256) list \<Rightarrow> u256 \<Rightarrow> u256 result" where
  "tick_ratio_loop abs_tick [] ratio = Inr ratio"
| "tick_ratio_loop abs_tick ((b, c) # cs) ratio =
    rbind (if abs_tick AND b \<noteq> 0 then mul_shift_128 ratio c else Inr ratio)
      (tick_ratio_loop abs_tick cs)"

definition sqrt_ratio_at_tick :: "i32 \<Rightarrow> u256 result" where
  "sqrt_ratio_at_tick tick =
    (if \<not> (- 887272 \<le> tick \<and> tick \<le> 887272)
     then Inl (contradiction ''tick is outside TickMath bounds'')
     else
       let abs_tick = (word_of_int \<bar>tick\<bar> :: u32);
           ratio = (if abs_tick AND 1 \<noteq> 0 then 0xfffcb933bd6fad37aa2d162d1a594001 else Q128)
       in rbind (tick_ratio_loop abs_tick TICK_CONSTANTS ratio) (\<lambda>ratio.
          rbind (if 0 < tick
                 then if ratio = 0 then Inl (Panicked ''division by zero'') else Inr (- 1 div ratio)
                 else Inr ratio) (\<lambda>ratio.
          let remainder_mask = (ucast (- 1 :: u32) :: u256)
          in Inr (drop_bit 32 ratio + (if ratio AND remainder_mask \<noteq> 0 then 1 else 0)))))"

definition validate_final_tick :: "u256 \<Rightarrow> i32 \<Rightarrow> bool \<Rightarrow> unit result" where
  "validate_final_tick sqrt_price_x96 tick zero_for_one =
    rbind (sqrt_ratio_at_tick (- 887272)) (\<lambda>min_sqrt.
    rbind (sqrt_ratio_at_tick 887272) (\<lambda>max_sqrt.
    if sqrt_price_x96 \<le> min_sqrt \<or> max_sqrt \<le> sqrt_price_x96
    then Inl (contradiction ''final sqrtPriceX96 is outside canonical swap bounds'')
    else
      rbind (sqrt_ratio_at_tick tick) (\<lambda>lower.
      rbind (if tick = 887272 then Inr None
             else rbind (sqrt_ratio_at_tick (tick + 1)) (\<lambda>u. Inr (Some u))) (\<lambda>upper.
      let valid = lower \<le> sqrt_price_x96 \<and>
            (case upper of None \<Rightarrow> True
             | Some u \<Rightarrow> sqrt_price_x96 < u \<or> (zero_for_one \<and> sqrt_price_x96 = u))
      in if valid then Inr ()
         else Inl (contradiction ''final sqrtPriceX96 is inconsistent with the event tick'')))))"

section \<open>The chain of multiplications over the integers\<close>

text \<open>
  \<open>chain cs n r\<close> multiplies \<open>r\<close> by the constant of every set bit of \<open>n\<close>, lowest first, dropping
  128 bits each time. \<open>descending\<close> is what makes it antitone: each constant is below the
  product of all the constants before it, by at least one part in \<open>2 ^ 15\<close>.
\<close>

fun chain :: "int list \<Rightarrow> nat \<Rightarrow> int \<Rightarrow> int" where
  "chain [] n r = r"
| "chain (c # cs) n r = chain cs (n div 2) (if odd n then r * c div 2 ^ 128 else r)"

fun descending :: "int list \<Rightarrow> int \<Rightarrow> bool" where
  "descending [] p = True"
| "descending (c # cs) p \<longleftrightarrow>
    0 \<le> c \<and> c \<le> 2 ^ 128 \<and> c \<le> p \<and> p \<le> (p - c) * 2 ^ 15 \<and> descending cs (p * c div 2 ^ 128)"

lemma chain_mono:
  "list_all (\<lambda>c. 0 \<le> c) cs \<Longrightarrow> r \<le> r' \<Longrightarrow> chain cs n r \<le> chain cs n r'"
proof (induction cs arbitrary: n r r')
  case Nil
  then show ?case by simp
next
  case (Cons c cs)
  have "r * c div 2 ^ 128 \<le> r' * c div 2 ^ 128"
    using Cons.prems by (intro zdiv_mono1) (simp_all add: mult_right_mono)
  with Cons show ?case by simp
qed

lemma descending_nonneg: "descending cs p \<Longrightarrow> list_all (\<lambda>c. 0 \<le> c) cs"
  by (induction cs arbitrary: p) auto

lemma chain_Suc_le:
  "descending cs p \<Longrightarrow> Suc n < 2 ^ length cs \<Longrightarrow> chain cs (Suc n) (2 ^ 128) \<le> chain cs n p"
proof (induction cs arbitrary: n p)
  case Nil
  then show ?case by simp
next
  case (Cons c cs)
  have nonneg: "list_all (\<lambda>c. 0 \<le> c) cs" using Cons.prems by (auto dest: descending_nonneg)
  show ?case
  proof (cases "even n")
    case True
    then have "chain (c # cs) (Suc n) (2 ^ 128) = chain cs (n div 2) c" by simp
    also have "\<dots> \<le> chain cs (n div 2) p" using nonneg Cons.prems by (intro chain_mono) simp_all
    finally show ?thesis using True by simp
  next
    case False
    then have "Suc n div 2 = Suc (n div 2)" by (elim oddE) simp
    moreover from False have "Suc (n div 2) < 2 ^ length cs" using Cons.prems(2) by (elim oddE) simp
    ultimately show ?thesis using False Cons.IH [of "p * c div 2 ^ 128" "n div 2"] Cons.prems by simp
  qed
qed

text \<open>The relative gap survives the truncations, up to one unit for each of them.\<close>

lemma gap_step:
  fixes a b c j :: int
  assumes "b \<le> (b - a + j) * 2 ^ 15" "0 \<le> c" "c \<le> 2 ^ 128" "0 \<le> j"
  shows "b * c div 2 ^ 128 \<le> (b * c div 2 ^ 128 - a * c div 2 ^ 128 + (j + 1)) * 2 ^ 15"
proof -
  define q :: int where "q = 2 ^ 128"
  have q: "0 < q" by (simp add: q_def)
  define B A where "B = b * c div q" and "A = a * c div q"
  define rb ra where "rb = b * c mod q" and "ra = a * c mod q"
  have eb: "b * c = B * q + rb" and ea: "a * c = A * q + ra"
    by (simp_all add: A_def B_def ra_def rb_def)
  have m: "0 \<le> rb" "rb < q" "0 \<le> ra" using q by (simp_all add: ra_def rb_def)
  have jc: "j * c \<le> j * q" using assms q_def by (intro mult_left_mono) simp_all
  have "b * c \<le> (b - a + j) * 2 ^ 15 * c" using assms(1,2) by (rule mult_right_mono)
  also have "\<dots> = (b * c - a * c + j * c) * 2 ^ 15" by (simp add: algebra_simps)
  also have "\<dots> \<le> (B * q - A * q + q + j * q) * 2 ^ 15"
    using eb ea m jc by (intro mult_right_mono) simp_all
  also have "\<dots> = (B - A + (j + 1)) * 2 ^ 15 * q" by (simp add: algebra_simps)
  finally have "B * q \<le> (B - A + (j + 1)) * 2 ^ 15 * q" using eb m by linarith
  then have "B \<le> (B - A + (j + 1)) * 2 ^ 15" using q by (simp add: mult_le_cancel_right)
  then show ?thesis by (simp only: A_def B_def q_def)
qed

lemma chain_gap_same:
  assumes "list_all (\<lambda>c. 0 \<le> c \<and> c \<le> 2 ^ 128) cs" "b \<le> (b - a + j) * 2 ^ 15" "0 \<le> j"
  shows "chain cs n b \<le> (chain cs n b - chain cs n a + (j + int (length cs))) * 2 ^ 15"
  using assms
proof (induction cs arbitrary: n a b j)
  case Nil
  then show ?case by simp
next
  case (Cons c cs)
  show ?case
  proof (cases "odd n")
    case True
    from Cons.prems have "b * c div 2 ^ 128 \<le> (b * c div 2 ^ 128 - a * c div 2 ^ 128 + (j + 1)) * 2 ^ 15"
      by (intro gap_step) simp_all
    from Cons.IH [OF _ this, of "n div 2"] Cons.prems True show ?thesis by (simp add: algebra_simps)
  next
    case False
    have "b \<le> (b - a + (j + 1)) * 2 ^ 15" using Cons.prems by (simp add: algebra_simps)
    from Cons.IH [OF _ this, of "n div 2"] Cons.prems False show ?thesis by (simp add: algebra_simps)
  qed
qed

lemma descending_bounds: "descending cs p \<Longrightarrow> list_all (\<lambda>c. 0 \<le> c \<and> c \<le> 2 ^ 128) cs"
  by (induction cs arbitrary: p) auto

lemma chain_gap:
  "descending cs p \<Longrightarrow> Suc n < 2 ^ length cs
    \<Longrightarrow> chain cs n p \<le> (chain cs n p - chain cs (Suc n) (2 ^ 128) + int (length cs)) * 2 ^ 15"
proof (induction cs arbitrary: n p)
  case Nil
  then show ?case by simp
next
  case (Cons c cs)
  have bounds: "list_all (\<lambda>c. 0 \<le> c \<and> c \<le> 2 ^ 128) cs"
    using Cons.prems by (auto dest: descending_bounds)
  show ?case
  proof (cases "even n")
    case True
    have "p \<le> (p - c + 1) * 2 ^ 15" using Cons.prems by (simp add: algebra_simps)
    from chain_gap_same [OF bounds this, of "n div 2"] True show ?thesis by (simp add: algebra_simps)
  next
    case False
    then have "Suc n div 2 = Suc (n div 2)" by (elim oddE) simp
    moreover from False have "Suc (n div 2) < 2 ^ length cs" using Cons.prems(2) by (elim oddE) simp
    ultimately show ?thesis
      using False Cons.IH [of "p * c div 2 ^ 128" "n div 2"] Cons.prems by (simp add: algebra_simps)
  qed
qed

section \<open>Totality\<close>

definition MULTIPLIERS :: "u256 list" where
  "MULTIPLIERS = 0xfffcb933bd6fad37aa2d162d1a594001 # map snd TICK_CONSTANTS"

definition tick_ratio :: "nat \<Rightarrow> int" where
  "tick_ratio n = chain (map uint MULTIPLIERS) n (2 ^ 128)"

lemma TICK_CONSTANTS_bits:
  "TICK_CONSTANTS = zip (map (\<lambda>i. 2 ^ i) [1..<1 + length (map snd TICK_CONSTANTS)]) (map snd TICK_CONSTANTS)"
  by (simp add: TICK_CONSTANTS_def upt_rec)

lemma MULTIPLIERS_facts:
  "length MULTIPLIERS = 20" "\<forall>c \<in> set MULTIPLIERS. uint c < 2 ^ 128"
  by (simp_all add: MULTIPLIERS_def TICK_CONSTANTS_def)

lemma MULTIPLIERS_descending: "descending (map uint MULTIPLIERS) (2 ^ 128)"
  by (simp add: MULTIPLIERS_def TICK_CONSTANTS_def)

lemma word_and_exp_iff: "(a :: 'a::len word) AND 2 ^ k \<noteq> 0 \<longleftrightarrow> odd (unat a div 2 ^ k)"
proof -
  have "a AND 2 ^ k \<noteq> 0 \<longleftrightarrow> bit a k" by (simp add: and_exp_eq_0_iff_not_bit)
  also have "\<dots> \<longleftrightarrow> bit (unat a) k" by (auto simp: bit_unsigned_iff possible_bit_def)
  finally show ?thesis by (simp add: bit_iff_odd)
qed

lemma tick_ratio_loop_chain:
  assumes "\<forall>c \<in> set cs. uint c < 2 ^ 128" "uint r \<le> 2 ^ 128"
  shows "\<exists>r'. tick_ratio_loop a (zip (map (\<lambda>i. 2 ^ i) [k..<k + length cs]) cs) r = Inr r'
    \<and> uint r' = chain (map uint cs) (unat a div 2 ^ k) (uint r)"
  using assms
proof (induction cs arbitrary: k r)
  case Nil
  then show ?case by simp
next
  case (Cons c cs)
  have step: "\<exists>r'. (if a AND 2 ^ k \<noteq> 0 then mul_shift_128 r c else Inr r) = Inr r'
      \<and> uint r' = (if odd (unat a div 2 ^ k) then uint r * uint c div 2 ^ 128 else uint r)
      \<and> uint r' \<le> 2 ^ 128"
  proof (cases "odd (unat a div 2 ^ k)")
    case True
    have "uint r * uint c \<le> 2 ^ 128 * 2 ^ 128"
      using Cons.prems by (intro mult_mono) (auto simp: less_imp_le)
    then have le: "uint r * uint c div 2 ^ 128 \<le> 2 ^ 128"
      using zdiv_mono1 [of "uint r * uint c" "2 ^ 128 * 2 ^ 128" "2 ^ 128"] by simp
    have ge: "0 \<le> uint r * uint c div 2 ^ 128" by (simp add: pos_imp_zdiv_nonneg_iff)
    define r' :: u256 where "r' = word_of_int (uint r * uint c div 2 ^ 128)"
    have "uint r' = uint r * uint c div 2 ^ 128"
      unfolding r'_def using le ge by (intro uint_word_of_int_id) simp_all
    then show ?thesis using True le by (auto simp: word_and_exp_iff mul_shift_128_eq_Inr)
  next
    case False
    then show ?thesis using Cons.prems by (simp add: word_and_exp_iff)
  qed
  then obtain r' where r': "(if a AND 2 ^ k \<noteq> 0 then mul_shift_128 r c else Inr r) = Inr r'"
    "uint r' = (if odd (unat a div 2 ^ k) then uint r * uint c div 2 ^ 128 else uint r)"
    "uint r' \<le> 2 ^ 128" by blast
  have "[k..<k + length (c # cs)] = k # [Suc k..<Suc k + length cs]"
    by (subst upt_conv_Cons) simp_all
  moreover have "unat a div 2 ^ k div 2 = unat a div 2 ^ Suc k" by (simp only: power_Suc2 div_mult2_eq)
  ultimately show ?case
    using Cons.IH [of r' "Suc k"] Cons.prems r' by simp
qed

section \<open>Monotonicity\<close>

lemma tick_ratio_Suc_le: "Suc n < 2 ^ 20 \<Longrightarrow> tick_ratio (Suc n) \<le> tick_ratio n"
  unfolding tick_ratio_def
  using MULTIPLIERS_descending MULTIPLIERS_facts(1) by (intro chain_Suc_le) simp_all

lemma tick_ratio_antimono:
  assumes "m \<le> n" "n < 2 ^ 20"
  shows "tick_ratio n \<le> tick_ratio m"
  using assms
proof (induction rule: dec_induct)
  case base
  then show ?case by simp
next
  case (step n)
  then have "tick_ratio (Suc n) \<le> tick_ratio n" by (intro tick_ratio_Suc_le) simp
  with step show ?case by simp
qed

lemma tick_ratio_gap:
  assumes "Suc n < 2 ^ 20"
  shows "tick_ratio n \<le> (tick_ratio n - tick_ratio (Suc n) + 20) * 2 ^ 15"
  using chain_gap [OF MULTIPLIERS_descending, of n] MULTIPLIERS_facts(1) assms
  by (simp add: tick_ratio_def)

lemma tick_ratio_min: "tick_ratio 887272 = 18447437462383981825"
  by (simp add: tick_ratio_def MULTIPLIERS_def TICK_CONSTANTS_def)

lemma tick_ratio_0: "tick_ratio 0 = 2 ^ 128"
  by (simp add: tick_ratio_def MULTIPLIERS_def TICK_CONSTANTS_def)

lemma tick_ratio_bounds:
  assumes "n \<le> 887272"
  shows "18447437462383981825 \<le> tick_ratio n" "tick_ratio n \<le> 2 ^ 128"
proof -
  show "18447437462383981825 \<le> tick_ratio n"
    using tick_ratio_antimono [of n 887272] assms by (simp add: tick_ratio_min)
  show "tick_ratio n \<le> 2 ^ 128"
    using tick_ratio_antimono [of 0 n] assms by (simp add: tick_ratio_0)
qed

definition sqrt_price_int :: "int \<Rightarrow> int" where
  "sqrt_price_int tick =
    (if 0 < tick then ceil_div ((2 ^ 256 - 1) div tick_ratio (nat \<bar>tick\<bar>)) (2 ^ 32)
     else ceil_div (tick_ratio (nat \<bar>tick\<bar>)) (2 ^ 32))"

lemma uint_shift_round_up:
  fixes ratio :: u256
  shows "uint (drop_bit 32 ratio + (if ratio AND ucast (- 1 :: u32) \<noteq> 0 then 1 else 0))
    = ceil_div (uint ratio) (2 ^ 32)"
proof -
  have m: "(ucast (- 1 :: u32) :: u256) = mask 32"
    by (simp add: unsigned_minus_1_eq_mask mask_eq_exp_minus_1)
  have rem: "ratio AND mask 32 = 0 \<longleftrightarrow> uint ratio mod 2 ^ 32 = 0"
    by (metis uint_0_iff uint_and_mask)
  have q: "uint (drop_bit 32 ratio) = uint ratio div 2 ^ 32"
    unfolding unsigned_drop_bit_eq take_bit_int_eq_self [OF uint_ge_0 uint_lt_exp]
    by (rule drop_bit_eq_div)
  have "uint ratio div 2 ^ 32 \<le> 2 ^ 256 div 2 ^ 32"
    using uint_lt_exp [of ratio] by (intro zdiv_mono1) simp_all
  then have "uint ratio div 2 ^ 32 + 1 < 2 ^ 256" by simp
  then have "uint (drop_bit 32 ratio + 1) = uint ratio div 2 ^ 32 + 1"
    using q by (subst uint_add_no_wrap) simp_all
  with q rem show ?thesis by (simp add: m round_div_def)
qed

lemma sqrt_ratio_at_tick_eq:
  assumes "- 887272 \<le> tick" "tick \<le> 887272"
  shows "\<exists>r. sqrt_ratio_at_tick tick = Inr r \<and> uint r = sqrt_price_int tick"
proof -
  define a where "a = (word_of_int \<bar>tick\<bar> :: u32)"
  define n where "n = nat \<bar>tick\<bar>"
  define r0 where "r0 = (if a AND 1 \<noteq> 0 then 0xfffcb933bd6fad37aa2d162d1a594001 else Q128)"
  have "uint a = \<bar>tick\<bar>" unfolding a_def using assms by (intro uint_word_of_int_id) simp_all
  then have a: "unat a = n" by (simp add: n_def unat_eq_nat_uint)
  have nb: "n \<le> 887272" using assms by (simp add: n_def)
  have cs: "\<forall>c \<in> set (map snd TICK_CONSTANTS). uint c < 2 ^ 128"
    using MULTIPLIERS_facts(2) by (auto simp: MULTIPLIERS_def)
  have odd: "a AND 1 \<noteq> 0 \<longleftrightarrow> odd n" using word_and_exp_iff [of a 0] a by simp
  have r0: "uint r0 = (if odd n then 2 ^ 128 * uint (hd MULTIPLIERS) div 2 ^ 128 else 2 ^ 128)"
    using odd by (simp add: r0_def MULTIPLIERS_def)
  then have "uint r0 \<le> 2 ^ 128" by (simp add: MULTIPLIERS_def)
  from tick_ratio_loop_chain [OF cs this, of a 1] TICK_CONSTANTS_bits
  obtain r where r: "tick_ratio_loop a TICK_CONSTANTS r0 = Inr r"
    "uint r = chain (map uint (map snd TICK_CONSTANTS)) (unat a div 2 ^ 1) (uint r0)" by auto
  then have ur: "uint r = tick_ratio n"
    using a r0 by (simp add: tick_ratio_def MULTIPLIERS_def)
  then have pos: "0 < uint r" using tick_ratio_bounds(1) [OF nb] by simp
  then have "r \<noteq> 0" by (simp add: uint_pos_iff)
  define r1 where "r1 = (if 0 < tick then - 1 div r else r)"
  have "uint (- 1 div r) = (2 ^ 256 - 1) div uint r"
    by (simp add: uint_div unsigned_minus_1_eq_mask mask_eq_exp_minus_1)
  then have r1: "uint r1 = (if 0 < tick then (2 ^ 256 - 1) div tick_ratio n else tick_ratio n)"
    by (simp add: r1_def ur)
  have "sqrt_ratio_at_tick tick
      = Inr (drop_bit 32 r1 + (if r1 AND ucast (- 1 :: u32) \<noteq> 0 then 1 else 0))"
    unfolding sqrt_ratio_at_tick_def Let_def a_def [symmetric] r0_def [symmetric]
    using assms r(1) \<open>r \<noteq> 0\<close> by (simp add: r1_def)
  moreover have "uint (drop_bit 32 r1 + (if r1 AND ucast (- 1 :: u32) \<noteq> 0 then 1 else 0))
      = sqrt_price_int tick"
    unfolding uint_shift_round_up by (simp add: sqrt_price_int_def r1 n_def)
  ultimately show ?thesis by blast
qed

lemma sqrt_price_int_mono:
  assumes "- 887272 \<le> s" "s \<le> t" "t \<le> 887272"
  shows "sqrt_price_int s \<le> sqrt_price_int t"
proof -
  have rb: "18447437462383981825 \<le> tick_ratio (nat \<bar>x\<bar>)" "tick_ratio (nat \<bar>x\<bar>) \<le> 2 ^ 128"
    if "- 887272 \<le> x" "x \<le> 887272" for x :: int
    using tick_ratio_bounds [of "nat \<bar>x\<bar>"] that by simp_all
  consider "0 < s" | "s \<le> 0" "0 < t" | "t \<le> 0" by linarith
  then show ?thesis
  proof cases
    case 1
    then have "tick_ratio (nat \<bar>t\<bar>) \<le> tick_ratio (nat \<bar>s\<bar>)"
      using assms by (intro tick_ratio_antimono) simp_all
    then have "(2 ^ 256 - 1) div tick_ratio (nat \<bar>s\<bar>) \<le> (2 ^ 256 - 1) div tick_ratio (nat \<bar>t\<bar>)"
      using rb(1) [of t] assms by (intro zdiv_mono2) simp_all
    then show ?thesis using 1 assms by (simp add: sqrt_price_int_def ceil_div_mono)
  next
    case 2
    have "tick_ratio (nat \<bar>t\<bar>) \<le> tick_ratio 1"
      using 2 assms by (intro tick_ratio_antimono) simp_all
    also have "tick_ratio 1 < 2 ^ 128"
      by (simp add: tick_ratio_def MULTIPLIERS_def TICK_CONSTANTS_def)
    finally have "2 ^ 128 * tick_ratio (nat \<bar>t\<bar>) \<le> 2 ^ 256 - 1" by simp
    then have "2 ^ 128 \<le> (2 ^ 256 - 1) div tick_ratio (nat \<bar>t\<bar>)"
      using rb(1) [of t] 2 assms by (subst le_div_iff) simp_all
    with rb(2) [of s] 2 assms have "tick_ratio (nat \<bar>s\<bar>) \<le> (2 ^ 256 - 1) div tick_ratio (nat \<bar>t\<bar>)"
      by linarith
    then show ?thesis using 2 assms by (simp add: sqrt_price_int_def ceil_div_mono)
  next
    case 3
    then have "tick_ratio (nat \<bar>s\<bar>) \<le> tick_ratio (nat \<bar>t\<bar>)"
      using assms by (intro tick_ratio_antimono) simp_all
    then show ?thesis using 3 assms by (simp add: sqrt_price_int_def ceil_div_mono)
  qed
qed

lemma ceil_div_less:
  assumes "0 < d" "n + d \<le> m"
  shows "ceil_div n d < ceil_div m d"
proof -
  have "n div d * d \<le> n" using assms(1) by (metis le_div_iff order_refl)
  have "ceil_div n d * d < n + d"
    using less_ceil_div_iff [of d "ceil_div n d - 1" n] assms(1) by (simp add: algebra_simps)
  then show ?thesis using assms by (simp add: less_ceil_div_iff)
qed

lemma sqrt_price_int_Suc:
  assumes "- 887272 \<le> t" "t < 887272"
  shows "sqrt_price_int t < sqrt_price_int (t + 1)"
proof (cases "0 \<le> t")
  case False
  define n where "n = nat (- t - 1)"
  have idx: "nat \<bar>t\<bar> = Suc n" "nat \<bar>t + 1\<bar> = n" "Suc n \<le> 887272"
    using False assms by (auto simp: n_def)
  have "tick_ratio (Suc n) + 2 ^ 32 \<le> tick_ratio n"
    using tick_ratio_gap [of n] tick_ratio_bounds(1) [of n] idx by simp
  then have "ceil_div (tick_ratio (Suc n)) (2 ^ 32) < ceil_div (tick_ratio n) (2 ^ 32)"
    by (intro ceil_div_less) simp_all
  with False idx show ?thesis by (simp add: sqrt_price_int_def)
next
  case True
  define n where "n = nat t"
  have idx: "nat \<bar>t\<bar> = n" "nat \<bar>t + 1\<bar> = Suc n" "Suc n \<le> 887272" "t = int n"
    using True assms by (auto simp: n_def)
  define a b :: int where "a = tick_ratio (Suc n)" and "b = tick_ratio n"
  define N :: int where "N = 2 ^ 256 - 1"
  have ab: "18447437462383981825 \<le> a" "a \<le> 2 ^ 128" "18447437462383981825 \<le> b" "b \<le> 2 ^ 128"
    using tick_ratio_bounds [of n] tick_ratio_bounds [of "Suc n"] idx by (simp_all add: a_def b_def)
  have gap: "b \<le> (b - a) * 2 ^ 16"
    using tick_ratio_gap [of n] idx ab by (simp add: a_def b_def)
  define Q R where "Q = N div b" and "R = N mod b"
  have "Q * b = N - R" by (simp add: Q_def R_def minus_mod_eq_div_mult)
  moreover have "R < b" "0 < b" using ab by (simp_all add: R_def)
  moreover have "2 ^ 255 \<le> N - 2 ^ 128" by (simp add: N_def)
  ultimately have "2 ^ 255 \<le> Q * b" using ab(4) by linarith
  then have qb: "2 ^ 255 \<le> N div b * b" by (simp only: Q_def)
  have q0: "0 \<le> N div b" using ab by (simp add: N_def pos_imp_zdiv_nonneg_iff)
  have "N div b * b \<le> N div b * ((b - a) * 2 ^ 16)" using gap q0 by (rule mult_left_mono)
  with qb have "2 ^ 255 \<le> (N div b * (b - a)) * 2 ^ 16" by (simp add: algebra_simps)
  then have "2 ^ 32 * 2 ^ 128 * 2 ^ 16 \<le> (N div b * (b - a)) * 2 ^ 16"
    by (rule order_trans [rotated]) simp
  then have "2 ^ 32 * 2 ^ 128 \<le> N div b * (b - a)" by (rule mult_right_le_imp_le) simp
  moreover have "2 ^ 32 * a \<le> 2 ^ 32 * 2 ^ 128" using ab(2) by simp
  ultimately have "2 ^ 32 * a \<le> N div b * b - N div b * a" by (simp add: right_diff_distrib)
  moreover have "N div b * b \<le> N" using \<open>0 < b\<close> by (metis le_div_iff order_refl)
  ultimately have "(N div b + 2 ^ 32) * a \<le> N" by (simp add: distrib_right)
  then have "N div b + 2 ^ 32 \<le> N div a" using ab(1) by (subst le_div_iff) simp_all
  then have lt: "ceil_div (N div b) (2 ^ 32) < ceil_div (N div a) (2 ^ 32)" by (intro ceil_div_less) simp_all
  show ?thesis
  proof (cases "t = 0")
    case False
    with True lt idx show ?thesis by (simp add: sqrt_price_int_def a_def b_def N_def)
  next
    case t0: True
    have "sqrt_price_int 0 = 2 ^ 96" by (simp add: sqrt_price_int_def tick_ratio_0 round_div_def)
    moreover have "2 ^ 96 < sqrt_price_int 1"
      by (simp add: sqrt_price_int_def tick_ratio_def MULTIPLIERS_def TICK_CONSTANTS_def round_div_def)
    ultimately show ?thesis using t0 by simp
  qed
qed

section \<open>The word-level facts\<close>

lemma sqrt_ratio_at_tick_total:
  "- 887272 \<le> tick \<Longrightarrow> tick \<le> 887272 \<Longrightarrow> \<exists>r. sqrt_ratio_at_tick tick = Inr r"
  using sqrt_ratio_at_tick_eq by blast

lemma sqrt_ratio_at_tick_okD:
  assumes "sqrt_ratio_at_tick tick = Inr r"
  shows "- 887272 \<le> tick" "tick \<le> 887272" "uint r = sqrt_price_int tick"
proof -
  show bounds: "- 887272 \<le> tick" "tick \<le> 887272"
    using assms by (auto simp: sqrt_ratio_at_tick_def split: if_splits)
  from sqrt_ratio_at_tick_eq [OF this] assms show "uint r = sqrt_price_int tick" by auto
qed

lemma sqrt_ratio_at_tick_mono:
  assumes "sqrt_ratio_at_tick s = Inr p" "sqrt_ratio_at_tick t = Inr q" "s \<le> t"
  shows "p \<le> q"
  using sqrt_ratio_at_tick_okD [OF assms(1)] sqrt_ratio_at_tick_okD [OF assms(2)] assms(3)
    sqrt_price_int_mono [of s t]
  by (simp add: word_le_def)

lemma sqrt_ratio_at_tick_strict_mono:
  assumes "sqrt_ratio_at_tick s = Inr p" "sqrt_ratio_at_tick t = Inr q" "s < t"
  shows "p < q"
  using sqrt_ratio_at_tick_okD [OF assms(1)] sqrt_ratio_at_tick_okD [OF assms(2)] assms(3)
    sqrt_price_int_Suc [of s] sqrt_price_int_mono [of "s + 1" t]
  by (simp add: word_less_def)

lemma sqrt_price_int_bounds:
  "sqrt_price_int (- 887272) = 4295128739"
  "sqrt_price_int 887272 = 0xfffd8963efd1fc6a506488495d951d5263988d26"
  by (simp_all add: sqrt_price_int_def tick_ratio_min round_div_def)

lemma sqrt_ratio_min: "sqrt_ratio_at_tick (- 887272) = Inr 4295128739"
  using sqrt_ratio_at_tick_eq [of "- 887272"] sqrt_price_int_bounds(1)
  by (auto simp: word_uint_eq_iff)

lemma sqrt_ratio_max:
  "sqrt_ratio_at_tick 887272 = Inr 0xfffd8963efd1fc6a506488495d951d5263988d26"
  using sqrt_ratio_at_tick_eq [of 887272] sqrt_price_int_bounds(2)
  by (auto simp: word_uint_eq_iff)

lemma sqrt_ratio_zero: "sqrt_ratio_at_tick 0 = Inr Q96"
  using sqrt_ratio_at_tick_eq [of 0]
  by (auto simp: sqrt_price_int_def tick_ratio_0 round_div_def word_uint_eq_iff)

lemma sqrt_ratio_at_tick_bounds:
  assumes "sqrt_ratio_at_tick tick = Inr r"
  shows "4295128739 \<le> r" "r \<le> 0xfffd8963efd1fc6a506488495d951d5263988d26" "uint r < 2 ^ 160" "r \<noteq> 0"
proof -
  note b = sqrt_ratio_at_tick_okD(1,2) [OF assms]
  show lo: "4295128739 \<le> r" using sqrt_ratio_at_tick_mono [OF sqrt_ratio_min assms b(1)] .
  show hi: "r \<le> 0xfffd8963efd1fc6a506488495d951d5263988d26"
    using sqrt_ratio_at_tick_mono [OF assms sqrt_ratio_max b(2)] .
  then show "uint r < 2 ^ 160" by (simp add: word_le_def)
  show "r \<noteq> 0" using lo by (auto simp: word_le_def)
qed

lemma validate_final_tick_okD:
  assumes "validate_final_tick p tick zfo = Inr ()"
  shows "4295128739 < p" "p < 0xfffd8963efd1fc6a506488495d951d5263988d26"
    and "\<exists>lower. sqrt_ratio_at_tick tick = Inr lower \<and> lower \<le> p"
    and "tick < 887272"
    and "\<exists>upper. sqrt_ratio_at_tick (tick + 1) = Inr upper \<and> (p < upper \<or> zfo \<and> p = upper)"
proof -
  show p: "4295128739 < p" "p < 0xfffd8963efd1fc6a506488495d951d5263988d26"
    using assms by (auto simp: validate_final_tick_def sqrt_ratio_min sqrt_ratio_max split: if_splits)
  show lower: "\<exists>lower. sqrt_ratio_at_tick tick = Inr lower \<and> lower \<le> p"
    using assms by (auto simp: validate_final_tick_def Let_def split: if_splits)
  show "tick < 887272"
  proof (rule ccontr)
    assume "\<not> tick < 887272"
    with lower sqrt_ratio_at_tick_okD(2) have "tick = 887272" by fastforce
    with lower sqrt_ratio_max p(2) show False by auto
  qed
  with assms show "\<exists>upper. sqrt_ratio_at_tick (tick + 1) = Inr upper \<and> (p < upper \<or> zfo \<and> p = upper)"
    by (auto simp: validate_final_tick_def Let_def split: if_splits)
qed

lemma no_panic_sqrt_ratio [no_panic_intros, simp]: "no_panic (sqrt_ratio_at_tick tick)"
proof (cases "- 887272 \<le> tick \<and> tick \<le> 887272")
  case True
  then obtain r where "sqrt_ratio_at_tick tick = Inr r" using sqrt_ratio_at_tick_total by blast
  then show ?thesis by simp
next
  case False
  then show ?thesis by (simp add: sqrt_ratio_at_tick_def)
qed

lemma no_panic_validate_final_tick [no_panic_intros, simp]: "no_panic (validate_final_tick p tick zfo)"
  unfolding validate_final_tick_def Let_def by (intro no_panic_intros)

end
