(* ===== verification/Pool_Words.thy ===== *)
theory Pool_Words
  imports Tick_Math
begin

text \<open>
  The packed words of a concentrated-liquidity pool, from \<open>src/adapters/v3_transition.rs\<close>:
  \<open>Slot0\<close>, \<open>Observation\<close> and the oracle half of a \<open>Tick.Info\<close> (\<open>cross_tick_word\<close>), with the
  checks of the event context and of the parent \<open>slot0\<close>, and the observation ring buffer
  (\<open>advance_oracle\<close>).
\<close>

section \<open>Operations\<close>

record swap_storage_surface =
  fee_growth_0_slot :: u256
  fee_growth_1_slot :: u256
  protocol_fees_slot :: u256
  observations_base_slot :: u256

definition UNISWAP_V3_SURFACE :: swap_storage_surface where
  "UNISWAP_V3_SURFACE = \<lparr>fee_growth_0_slot = from_limbs 1 0 0 0, fee_growth_1_slot = from_limbs 2 0 0 0,
     protocol_fees_slot = from_limbs 3 0 0 0, observations_base_slot = from_limbs 8 0 0 0\<rparr>"

definition SLIPSTREAM_SURFACE :: swap_storage_surface where
  "SLIPSTREAM_SURFACE = \<lparr>fee_growth_0_slot = from_limbs 7 0 0 0, fee_growth_1_slot = from_limbs 8 0 0 0,
     protocol_fees_slot = 0, observations_base_slot = from_limbs 20 0 0 0\<rparr>"

text \<open>\<open>as i32\<close> on an \<open>i64\<close>, and the two's complement \<open>as u32\<close> of a tick.\<close>

definition as_i32 :: "i64 \<Rightarrow> i32" where
  "as_i32 v = sint (ucast v :: u32)"

definition tick_bits :: "i32 \<Rightarrow> u256" where
  "tick_bits tick = ucast ((word_of_int tick :: u32) AND 0x00ffffff)"

record slot0_word =
  s0_raw :: u256
  s0_sqrt_price_x96 :: u256
  s0_tick :: i32
  s0_observation_index :: u16
  s0_observation_cardinality :: u16
  s0_observation_cardinality_next :: u16
  s0_fee_protocol :: u8

definition slot0_decode :: "u256 \<Rightarrow> slot0_word" where
  "slot0_decode raw = \<lparr>
     s0_raw = raw,
     s0_sqrt_price_x96 = raw AND SLOT0_SQRT_MASK,
     s0_tick = as_i32 (signed_from_bits (drop_bit 160 raw AND SLOT0_TICK_MASK) 24),
     s0_observation_index = ucast (drop_bit 184 raw AND ucast (- 1 :: u16)),
     s0_observation_cardinality = ucast (drop_bit 200 raw AND ucast (- 1 :: u16)),
     s0_observation_cardinality_next = ucast (drop_bit 216 raw AND ucast (- 1 :: u16)),
     s0_fee_protocol = ucast (drop_bit 232 raw AND ucast (- 1 :: u8))\<rparr>"

definition encode_final :: "slot0_word \<Rightarrow> u256 \<Rightarrow> i32 \<Rightarrow> u16 \<Rightarrow> u16 \<Rightarrow> u256" where
  "encode_final s sqrt_price_x96 tick observation_index observation_cardinality =
    (let mutable_mask = SLOT0_SQRT_MASK OR push_bit 160 SLOT0_TICK_MASK
           OR push_bit 184 (ucast (- 1 :: u16)) OR push_bit 200 (ucast (- 1 :: u16))
     in (s0_raw s AND NOT mutable_mask) OR sqrt_price_x96 OR push_bit 160 (tick_bits tick)
        OR push_bit 184 (ucast observation_index) OR push_bit 200 (ucast observation_cardinality))"

record observation =
  obs_timestamp :: u32
  obs_tick_cumulative :: i64
  obs_seconds_per_liquidity_cumulative_x128 :: u256
  obs_initialized :: bool

definition observation_decode :: "u256 \<Rightarrow> observation" where
  "observation_decode raw = \<lparr>
     obs_timestamp = ucast (raw AND WORD_32_MASK),
     obs_tick_cumulative = signed_from_bits (drop_bit 32 raw AND WORD_56_MASK) 56,
     obs_seconds_per_liquidity_cumulative_x128 = drop_bit 88 raw AND WORD_160_MASK,
     obs_initialized = (ucast (drop_bit 248 raw AND 1) \<noteq> (0 :: u8))\<rparr>"

definition observation_encode :: "observation \<Rightarrow> u256" where
  "observation_encode obs =
    ucast (obs_timestamp obs)
    OR push_bit 32 (unsigned_bits (obs_tick_cumulative obs) 56)
    OR push_bit 88 (obs_seconds_per_liquidity_cumulative_x128 obs AND WORD_160_MASK)
    OR push_bit 248 (if obs_initialized obs then 1 else 0)"

definition observation_transform :: "observation \<Rightarrow> u32 \<Rightarrow> i32 \<Rightarrow> u256 \<Rightarrow> observation" where
  "observation_transform obs timestamp tick liquidity =
    (let delta = timestamp - obs_timestamp obs;
         cumulative = wrapping_signed_add (obs_tick_cumulative obs) (word_of_int tick * ucast delta) 56;
         denominator = (if liquidity = 0 then 1 else liquidity);
         increment = push_bit 128 (ucast delta) div denominator
     in \<lparr>obs_timestamp = timestamp,
         obs_tick_cumulative = cumulative,
         obs_seconds_per_liquidity_cumulative_x128 =
           (obs_seconds_per_liquidity_cumulative_x128 obs + increment) AND WORD_160_MASK,
         obs_initialized = True\<rparr>)"

type_synonym oracle_advance = "u16 \<times> u16 \<times> (u256 \<times> u256) option \<times> observation"

text \<open>The first context field that is absent is the one reported.\<close>

fun first_missing :: "(bool \<times> string) list \<Rightarrow> unit result" where
  "first_missing [] = Inr ()"
| "first_missing ((present, name) # rest) =
    (if \<not> present then Inl (V3Transition (MissingContext name)) else first_missing rest)"

definition validate_context :: "adapter_event_context \<Rightarrow> unit result" where
  "validate_context ctx =
    rbind (first_missing
      [(ctx_chain_id ctx \<noteq> None, ''chain_id''),
       (ctx_block_number ctx \<noteq> None, ''block_number''),
       (ctx_block_hash ctx \<noteq> None, ''block_hash''),
       (ctx_parent_hash ctx \<noteq> None, ''parent_hash''),
       (ctx_block_timestamp ctx \<noteq> None, ''block_timestamp''),
       (ctx_transaction_hash ctx \<noteq> None, ''transaction_hash''),
       (ctx_transaction_index ctx \<noteq> None, ''transaction_index''),
       (ctx_log_index ctx \<noteq> None, ''log_index'')]) (\<lambda>_.
    rbind (expect (ctx_block_timestamp ctx) ''checked above'') (\<lambda>timestamp.
    if ucast (- 1 :: u32) < timestamp
    then Inl (V3Transition (ObservationError ''block timestamp exceeds uint32''))
    else Inr ()))"

text \<open>\<open>context.block_timestamp.expect("validated") as u32\<close>.\<close>

definition event_timestamp :: "adapter_event_context \<Rightarrow> u32 result" where
  "event_timestamp ctx = rbind (expect (ctx_block_timestamp ctx) ''validated'') (\<lambda>t. Inr (ucast t))"

definition consume_step :: "u32 \<Rightarrow> u32 result" where
  "consume_step steps =
    (let steps' = saturating_add steps 1
     in if MAX_SWAP_STEPS < steps' then Inl (V3Transition (WorkLimitExceeded MAX_SWAP_STEPS))
        else Inr steps')"

definition validate_parent_slot0 :: "slot0_word \<Rightarrow> unit result" where
  "validate_parent_slot0 s =
    rbind (sqrt_ratio_at_tick (- 887272)) (\<lambda>min_sqrt.
    rbind (sqrt_ratio_at_tick 887272) (\<lambda>max_sqrt.
    if s0_sqrt_price_x96 s < min_sqrt \<or> max_sqrt \<le> s0_sqrt_price_x96 s
    then Inl (contradiction ''parent sqrtPriceX96 is outside canonical TickMath bounds'')
    else rbind (sqrt_ratio_at_tick (s0_tick s)) (\<lambda>lower.
         rbind (sqrt_ratio_at_tick (s0_tick s + 1)) (\<lambda>upper.
         if s0_sqrt_price_x96 s < lower \<or> upper < s0_sqrt_price_x96 s
         then Inl (contradiction ''parent sqrtPriceX96 is inconsistent with parent tick'')
         else Inr ()))))"

definition observation_error :: "string \<Rightarrow> adapter_event_error" where
  "observation_error reason = V3Transition (ObservationError reason)"

definition advance_oracle ::
  "address \<Rightarrow> swap_storage_surface \<Rightarrow> slot0_word \<Rightarrow> u256 \<Rightarrow> adapter_event_context \<Rightarrow> state_view
    \<Rightarrow> oracle_advance result" where
  "advance_oracle addr surface s liquidity ctx state =
    (if s0_observation_cardinality s = 0
     then Inl (observation_error ''observation cardinality is zero'')
     else if s0_observation_cardinality s \<le> s0_observation_index s
     then Inl (observation_error ''observation index exceeds cardinality'')
     else if s0_observation_cardinality_next s < s0_observation_cardinality s
     then Inl (observation_error ''observation cardinalityNext is smaller than cardinality'')
     else
       let current_slot = observations_base_slot surface + ucast (s0_observation_index s)
       in rbind (required state addr current_slot) (\<lambda>raw.
          let current = observation_decode raw
          in if \<not> obs_initialized current
             then Inl (observation_error ''current observation is not initialized'')
             else rbind (event_timestamp ctx) (\<lambda>timestamp.
               let now = observation_transform current timestamp (s0_tick s) liquidity
               in if obs_timestamp current = timestamp
                  then Inr (s0_observation_index s, s0_observation_cardinality s, None, now)
                  else
                    let cardinality =
                          (if s0_observation_cardinality s < s0_observation_cardinality_next s
                              \<and> s0_observation_index s = s0_observation_cardinality s - 1
                           then s0_observation_cardinality_next s
                           else s0_observation_cardinality s);
                        next_index = (s0_observation_index s + 1) mod cardinality;
                        slot = observations_base_slot surface + ucast next_index
                    in Inr (next_index, cardinality, Some (slot, observation_encode now), now))))"

definition cross_tick_word :: "u256 \<Rightarrow> i64 \<Rightarrow> u256 \<Rightarrow> u32 \<Rightarrow> u256" where
  "cross_tick_word raw tick_cumulative seconds_per_liquidity_cumulative_x128 timestamp =
    (let old_tick_cumulative = signed_from_bits (raw AND WORD_56_MASK) 56;
         old_spl = drop_bit 56 raw AND WORD_160_MASK;
         old_seconds = (ucast (drop_bit 216 raw AND WORD_32_MASK) :: u32);
         new_tick_cumulative = wrapping_signed_sub tick_cumulative old_tick_cumulative 56;
         new_spl = (seconds_per_liquidity_cumulative_x128 - old_spl) AND WORD_160_MASK;
         new_seconds = timestamp - old_seconds
     in unsigned_bits new_tick_cumulative 56
        OR push_bit 56 new_spl
        OR push_bit 216 (ucast new_seconds)
        OR (raw AND push_bit 248 (ucast (- 1 :: u8))))"

section \<open>Fields of a word\<close>

definition field :: "nat \<Rightarrow> nat \<Rightarrow> u256 \<Rightarrow> u256" where
  "field off n w = take_bit n (drop_bit off w)"

lemma bit_field [bit_simps]: "bit (field off n w) i \<longleftrightarrow> i < n \<and> bit w (off + i)"
  by (auto simp: field_def bit_take_bit_iff bit_drop_bit_eq)

lemma field_or [simp]: "field off n (v OR w) = field off n v OR field off n w"
  by (rule bit_word_eqI) (auto simp: bit_simps)

lemma field_push_same: "off + n \<le> 256 \<Longrightarrow> field off n (push_bit off v) = take_bit n v"
  by (rule bit_word_eqI) (auto simp: bit_simps)

lemma field_push_below: "off + n \<le> k \<Longrightarrow> field off n (push_bit k v) = 0"
  by (rule bit_word_eqI) (auto simp: bit_simps)

lemma take_bit_self_bit: "take_bit m v = v \<Longrightarrow> bit v i \<Longrightarrow> i < m"
  by (metis bit_take_bit_iff)

lemma field_push_above:
  assumes "take_bit m v = v" "k + m \<le> off"
  shows "field off n (push_bit k v) = 0"
  using take_bit_self_bit [OF assms(1)] assms(2)
  by (intro bit_word_eqI) (auto simp: bit_simps dest!: take_bit_self_bit [OF assms(1)])

lemma field_low_above:
  assumes "take_bit m v = v" "m \<le> off"
  shows "field off n v = 0"
  using field_push_above [of m v 0 off n] assms by simp

lemma field_low: "take_bit n v = v \<Longrightarrow> field 0 n v = v"
  by (simp add: field_def)

lemma field_0_field: "field 0 n w = take_bit n w"
  by (simp add: field_def)

lemma take_bit_field [simp]: "take_bit n (field off n w) = field off n w"
  by (simp add: field_def)

lemma field_and_push_mask:
  "field off n (w AND push_bit off (mask n)) = field off n w"
  by (rule bit_word_eqI) (auto simp: bit_simps dest: bit_imp_le_length)

lemma field_and_push_mask_other:
  "off + n \<le> k \<or> k + m \<le> off \<Longrightarrow> field off n (w AND push_bit k (mask m)) = 0"
  by (rule bit_word_eqI) (auto simp: bit_simps)

lemma field_and_not_mask:
  "off + n \<le> k \<or> k + m \<le> off \<Longrightarrow> field off n (w AND NOT (push_bit k (mask m))) = field off n w"
  by (rule bit_word_eqI) (auto simp: bit_simps dest: bit_imp_le_length)

lemma drop_and_mask_field: "drop_bit off w AND mask n = field off n w"
  by (simp add: field_def take_bit_eq_mask)

lemma field_0_drop [simp]: "field 0 n (drop_bit off w) = field off n w"
  by (simp add: field_def)

lemma and_mask_field: "w AND mask n = field 0 n w"
  by (simp add: field_def take_bit_eq_mask)

lemma uint_field: "uint (field off n w) = uint w div 2 ^ off mod 2 ^ n"
  unfolding field_def unsigned_take_bit_eq unsigned_drop_bit_eq
    take_bit_int_eq_self [OF uint_ge_0 uint_lt_exp]
  by (simp only: take_bit_eq_mod drop_bit_eq_div)

lemma uint_field_less: "uint (field off n w) < 2 ^ n"
  by (simp add: uint_field)

lemma take_bit_of_small: "uint (v :: 'a::len word) < 2 ^ n \<Longrightarrow> take_bit n v = v"
  by (simp add: word_uint_eq_iff unsigned_take_bit_eq take_bit_int_eq_self_iff)

lemma uint_of_take_bit: "take_bit n (v :: 'a::len word) = v \<Longrightarrow> uint v < 2 ^ n"
  by (metis take_bit_int_less_exp unsigned_take_bit_eq)

lemma ucast_minus_1 [packed_simps]:
  "(ucast (- 1 :: u16) :: u256) = mask 16" "(ucast (- 1 :: u8) :: u256) = mask 8"
  "(ucast (- 1 :: u32) :: u256) = mask 32" "(ucast (- 1 :: u32) :: u64) = mask 32"
  by (simp_all add: unsigned_minus_1_eq_mask mask_eq_exp_minus_1)

lemma take_bit_ucast_self:
  fixes x :: "'a::len word"
  assumes "LENGTH('a) \<le> n"
  shows "take_bit n (ucast x :: u256) = ucast x"
  using assms by (intro bit_word_eqI) (auto simp: bit_simps dest: bit_imp_le_length)

lemma ucast_ucast_id_256:
  fixes x :: "'a::len word"
  assumes "LENGTH('a) \<le> 256"
  shows "ucast (ucast x :: u256) = x"
  using assms by (intro bit_word_eqI) (auto simp: bit_simps)

lemma nonzero_iff_bit: "(w :: 'a::len word) \<noteq> 0 \<longleftrightarrow> (\<exists>i. bit w i)"
  by (auto simp: bit_eq_iff intro: bit_imp_le_length)

lemma bit_via_field: "off \<le> i \<Longrightarrow> i < off + n \<Longrightarrow> bit w i \<longleftrightarrow> bit (field off n w) (i - off)"
  by (auto simp: bit_field)

lemma take_bit_unsigned_bits [simp]:
  "bits \<le> 64 \<Longrightarrow> take_bit bits (unsigned_bits v bits) = unsigned_bits v bits"
  by (rule take_bit_of_small) (simp add: uint_unsigned_bits)

section \<open>The oracle half of a tick\<close>

lemma cross_tick_word_fields:
  "uint (field 0 56 (cross_tick_word raw c spl t)) = (uint c - uint (field 0 56 raw)) mod 2 ^ 56"
  "uint (field 56 160 (cross_tick_word raw c spl t)) = (uint spl - uint (field 56 160 raw)) mod 2 ^ 160"
  "uint (field 216 32 (cross_tick_word raw c spl t)) = (uint t - uint (field 216 32 raw)) mod 2 ^ 32"
  "field 248 8 (cross_tick_word raw c spl t) = field 248 8 raw"
proof -
  define tc where "tc = unsigned_bits (wrapping_signed_sub c (signed_from_bits (field 0 56 raw) 56) 56) 56"
  define sp where "sp = (spl - field 56 160 raw) AND mask 160"
  define ts where "ts = t - (ucast (field 216 32 raw) :: u32)"
  have word: "cross_tick_word raw c spl t
      = tc OR push_bit 56 sp OR push_bit 216 (ucast ts) OR (raw AND push_bit 248 (mask 8))"
    by (simp add: cross_tick_word_def Let_def packed_simps drop_and_mask_field and_mask_field
        tc_def sp_def ts_def)
  have small: "take_bit 56 tc = tc" "take_bit 160 sp = sp" "take_bit 32 (ucast ts :: u256) = ucast ts"
    by (simp_all add: tc_def sp_def take_bit_ucast_self flip: take_bit_eq_mask)
  note fields = word field_push_same field_push_below field_push_above [OF small(2)]
    field_push_above [OF small(3)] field_low_above [OF small(1)] field_low [OF small(1)]
    field_and_push_mask field_and_push_mask_other small
  have "uint tc = take_bit 56 (sint (c - signed_from_bits (field 0 56 raw) 56))"
    by (simp add: tc_def wrapping_signed_sub_def uint_unsigned_bits sint_signed_unsigned take_bit_signed_take_bit)
  also have "\<dots> = take_bit 56 (uint (c - signed_from_bits (field 0 56 raw) 56))"
    by (simp add: sint_uint take_bit_signed_take_bit)
  also have "\<dots> = take_bit 56 (uint c - uint (signed_from_bits (field 0 56 raw) 56))"
    by (simp add: uint_word_ariths take_bit_eq_mod mod_mod_cancel)
  also have "\<dots> = take_bit 56 (uint c - take_bit 56 (uint (signed_from_bits (field 0 56 raw) 56)))"
    by (simp add: take_bit_eq_mod mod_diff_right_eq)
  also have "take_bit 56 (uint (signed_from_bits (field 0 56 raw) 56))
      = take_bit 56 (sint (signed_from_bits (field 0 56 raw) 56))"
    by (simp add: sint_uint take_bit_signed_take_bit)
  also have "\<dots> = uint (field 0 56 raw)"
    using uint_field_less [of 0 56 raw]
    by (simp add: sint_signed_from_bits take_bit_signed_take_bit take_bit_int_eq_self_iff)
  finally have "uint tc = (uint c - uint (field 0 56 raw)) mod 2 ^ 56" by (simp add: take_bit_eq_mod)
  then show "uint (field 0 56 (cross_tick_word raw c spl t)) = (uint c - uint (field 0 56 raw)) mod 2 ^ 56"
    by (simp add: fields)
  have "uint sp = (uint spl - uint (field 56 160 raw)) mod 2 ^ 160"
    by (simp add: sp_def uint_and_mask uint_word_ariths mod_mod_cancel)
  then show "uint (field 56 160 (cross_tick_word raw c spl t)) = (uint spl - uint (field 56 160 raw)) mod 2 ^ 160"
    by (simp add: fields)
  have "uint (ucast (field 216 32 raw) :: u32) = uint (field 216 32 raw)"
    using uint_field_less [of 216 32 raw] by (intro uint_ucast_down) simp
  then have "uint ts = (uint t - uint (field 216 32 raw)) mod 2 ^ 32"
    by (simp add: ts_def uint_word_ariths)
  moreover have "uint (ucast ts :: u256) = uint ts"
    by (intro uint_ucast_down) (rule order_less_trans [OF uint_lt_exp], simp)
  ultimately show "uint (field 216 32 (cross_tick_word raw c spl t)) = (uint t - uint (field 216 32 raw)) mod 2 ^ 32"
    by (simp add: fields)
  show "field 248 8 (cross_tick_word raw c spl t) = field 248 8 raw"
    by (simp add: fields)
qed

lemma tick_word_eqI:
  assumes "field 0 56 v = field 0 56 w" "field 56 160 v = field 56 160 w"
    "field 216 32 v = field 216 32 w" "field 248 8 v = field 248 8 w"
  shows "v = w"
proof (rule bit_word_eqI)
  fix i
  assume "i < LENGTH(256)"
  then consider "i < 56" | "56 \<le> i" "i < 216" | "216 \<le> i" "i < 248" | "248 \<le> i" "i < 256" by fastforce
  then show "bit v i = bit w i"
  proof cases
    case 1 then show ?thesis using assms(1) bit_via_field [of 0 i 56 v] bit_via_field [of 0 i 56 w] by simp
  next
    case 2 then show ?thesis using assms(2) bit_via_field [of 56 i 160 v] bit_via_field [of 56 i 160 w] by simp
  next
    case 3 then show ?thesis using assms(3) bit_via_field [of 216 i 32 v] bit_via_field [of 216 i 32 w] by simp
  next
    case 4 then show ?thesis using assms(4) bit_via_field [of 248 i 8 v] bit_via_field [of 248 i 8 w] by simp
  qed
qed

text \<open>Crossing a tick twice at the same accumulators restores its word.\<close>

lemma cross_tick_word_involution:
  "cross_tick_word (cross_tick_word raw c spl t) c spl t = raw"
proof (rule tick_word_eqI)
  have undo: "(a - (a - b) mod m) mod m = b" if "0 \<le> b" "b < m" for a b m :: int
    using that by (simp add: mod_diff_right_eq)
  show "field 0 56 (cross_tick_word (cross_tick_word raw c spl t) c spl t) = field 0 56 raw"
    using undo [of "uint (field 0 56 raw)" "2 ^ 56" "uint c"] uint_field_less [of 0 56 raw]
    by (simp only: word_uint_eq_iff cross_tick_word_fields uint_ge_0)
  show "field 56 160 (cross_tick_word (cross_tick_word raw c spl t) c spl t) = field 56 160 raw"
    using undo [of "uint (field 56 160 raw)" "2 ^ 160" "uint spl"] uint_field_less [of 56 160 raw]
    by (simp only: word_uint_eq_iff cross_tick_word_fields uint_ge_0)
  show "field 216 32 (cross_tick_word (cross_tick_word raw c spl t) c spl t) = field 216 32 raw"
    using undo [of "uint (field 216 32 raw)" "2 ^ 32" "uint t"] uint_field_less [of 216 32 raw]
    by (simp only: word_uint_eq_iff cross_tick_word_fields uint_ge_0)
qed (simp add: cross_tick_word_fields)

section \<open>Slot0\<close>

lemma uint_tick_bits: "uint (tick_bits t) = t mod 2 ^ 24"
proof -
  have m: "(0x00ffffff :: u32) = mask 24" by (simp add: mask_eq_exp_minus_1)
  have "uint (tick_bits t) = uint ((word_of_int t :: u32) AND mask 24)"
    unfolding tick_bits_def m by (rule uint_ucast_down) (rule order_less_trans [OF uint_lt_exp], simp)
  also have "\<dots> = t mod 2 ^ 24" by (simp add: uint_and_mask uint_word_of_int mod_mod_cancel)
  finally show ?thesis .
qed

lemma take_bit_tick_bits [simp]: "take_bit 24 (tick_bits t) = tick_bits t"
  by (rule take_bit_of_small) (simp add: uint_tick_bits)

lemma as_i32_signed_from_bits:
  "as_i32 (signed_from_bits w 24) = signed_take_bit 23 (uint w)"
proof -
  define v where "v = signed_from_bits w 24"
  have v: "sint v = signed_take_bit 23 (uint w)" by (simp add: v_def sint_signed_from_bits)
  have "as_i32 v = signed_take_bit 31 (take_bit 32 (uint v))"
    unfolding as_i32_def by (simp add: sint_uint unsigned_ucast_eq)
  also have "\<dots> = signed_take_bit 31 (sint v)"
    by (simp add: signed_take_bit_take_bit sint_uint signed_take_bit_signed_take_bit)
  also have "\<dots> = signed_take_bit 23 (uint w)"
    by (simp add: v signed_take_bit_signed_take_bit)
  finally show ?thesis by (simp add: v_def)
qed

lemma slot0_decode_fields:
  "s0_raw (slot0_decode raw) = raw"
  "s0_sqrt_price_x96 (slot0_decode raw) = field 0 160 raw"
  "s0_tick (slot0_decode raw) = signed_take_bit 23 (uint (field 160 24 raw))"
  "s0_observation_index (slot0_decode raw) = ucast (field 184 16 raw)"
  "s0_observation_cardinality (slot0_decode raw) = ucast (field 200 16 raw)"
  "s0_observation_cardinality_next (slot0_decode raw) = ucast (field 216 16 raw)"
  "s0_fee_protocol (slot0_decode raw) = ucast (field 232 8 raw)"
  by (simp_all add: slot0_decode_def packed_simps and_mask_field as_i32_signed_from_bits)

text \<open>A decoded tick is an \<open>int24\<close> and a decoded price a \<open>uint160\<close>.\<close>

lemma slot0_decode_bounds:
  "uint (s0_sqrt_price_x96 (slot0_decode raw)) < 2 ^ 160"
  "- (2 ^ 23) \<le> s0_tick (slot0_decode raw)" "s0_tick (slot0_decode raw) < 2 ^ 23"
  using uint_field_less [of 0 160 raw] signed_take_bit_int_greater_eq_minus_exp [of 23]
    signed_take_bit_int_less_exp [of 23]
  by (simp_all add: slot0_decode_fields)

lemma encode_final_fields:
  assumes "uint p < 2 ^ 160"
  shows "field 0 160 (encode_final s p t oi oc) = p"
    "field 160 24 (encode_final s p t oi oc) = tick_bits t"
    "field 184 16 (encode_final s p t oi oc) = ucast oi"
    "field 200 16 (encode_final s p t oi oc) = ucast oc"
    "off + n \<le> 256 \<Longrightarrow> 216 \<le> off \<Longrightarrow> field off n (encode_final s p t oi oc) = field off n (s0_raw s)"
proof -
  have p: "take_bit 160 p = p" using assms by (rule take_bit_of_small)
  have u: "take_bit 16 (ucast (x :: u16) :: u256) = ucast x" for x by (simp add: take_bit_ucast_self)
  note small = p u take_bit_tick_bits
  define m :: u256 where "m = mask 160 OR push_bit 160 (mask 24) OR push_bit 184 (mask 16) OR push_bit 200 (mask 16)"
  have m: "m = mask 216" unfolding m_def by (rule bit_word_eqI) (auto simp: bit_simps)
  have enc: "encode_final s p t oi oc = (s0_raw s AND NOT (mask 216)) OR p
      OR push_bit 160 (tick_bits t) OR push_bit 184 (ucast oi) OR push_bit 200 (ucast oc)"
    by (simp add: encode_final_def Let_def packed_simps m_def [symmetric] m)
  have low: "field off n (s0_raw s AND NOT (mask 216)) = 0" if "off + n \<le> 216" for off n
    using that by (intro bit_word_eqI) (auto simp: bit_simps)
  note fields = enc field_push_same field_push_below field_push_above [OF p] field_push_above [OF u]
    field_push_above [OF take_bit_tick_bits] field_low_above [OF p] field_low [OF p] small
  show "field 0 160 (encode_final s p t oi oc) = p" by (simp add: fields low)
  show "field 160 24 (encode_final s p t oi oc) = tick_bits t" by (simp add: fields low)
  show "field 184 16 (encode_final s p t oi oc) = ucast oi" by (simp add: fields low)
  show "field 200 16 (encode_final s p t oi oc) = ucast oc" by (simp add: fields low)
  show "field off n (encode_final s p t oi oc) = field off n (s0_raw s)"
    if "off + n \<le> 256" "216 \<le> off"
    using that field_and_not_mask [of off n 0 216 "s0_raw s"] by (simp add: fields)
qed

text \<open>
  Writing the final price, tick and oracle position and decoding again gives exactly those,
  and leaves the fields a swap does not own (the next cardinality, the protocol fee and the
  lock byte) as they were.
\<close>

lemma slot0_roundtrip:
  assumes "uint p < 2 ^ 160" "- (2 ^ 23) \<le> t" "t < 2 ^ 23"
  shows "slot0_decode (encode_final (slot0_decode raw) p t oi oc)
    = (slot0_decode raw)\<lparr>s0_raw := encode_final (slot0_decode raw) p t oi oc, s0_sqrt_price_x96 := p,
        s0_tick := t, s0_observation_index := oi, s0_observation_cardinality := oc\<rparr>"
    and "field 240 16 (encode_final (slot0_decode raw) p t oi oc) = field 240 16 raw"
proof -
  have "signed_take_bit 23 (uint (tick_bits t)) = signed_take_bit 23 (take_bit 24 t)"
    by (simp add: uint_tick_bits take_bit_eq_mod)
  also have "\<dots> = signed_take_bit 23 t" by (simp add: signed_take_bit_take_bit)
  also have "\<dots> = t" using assms by (simp add: signed_take_bit_int_eq_self_iff)
  finally have tick: "signed_take_bit 23 (uint (tick_bits t)) = t" .
  show "slot0_decode (encode_final (slot0_decode raw) p t oi oc)
    = (slot0_decode raw)\<lparr>s0_raw := encode_final (slot0_decode raw) p t oi oc, s0_sqrt_price_x96 := p,
        s0_tick := t, s0_observation_index := oi, s0_observation_cardinality := oc\<rparr>"
    by (rule slot0_word.equality)
      (simp_all add: slot0_decode_fields encode_final_fields [OF assms(1)] tick ucast_ucast_id_256)
  show "field 240 16 (encode_final (slot0_decode raw) p t oi oc) = field 240 16 raw"
    by (simp add: encode_final_fields(5) [OF assms(1)] slot0_decode_fields)
qed

lemma validate_parent_slot0_okD:
  assumes "validate_parent_slot0 s = Inr ()"
  shows "4295128739 \<le> s0_sqrt_price_x96 s"
    "s0_sqrt_price_x96 s < 0xfffd8963efd1fc6a506488495d951d5263988d26"
    "\<exists>lower. sqrt_ratio_at_tick (s0_tick s) = Inr lower \<and> lower \<le> s0_sqrt_price_x96 s"
    "\<exists>upper. sqrt_ratio_at_tick (s0_tick s + 1) = Inr upper \<and> s0_sqrt_price_x96 s \<le> upper"
  using assms
  by (auto simp: validate_parent_slot0_def sqrt_ratio_min sqrt_ratio_max not_less not_le split: if_splits)

section \<open>Observations\<close>

lemma observation_decode_fields:
  "obs_timestamp (observation_decode raw) = ucast (field 0 32 raw)"
  "obs_tick_cumulative (observation_decode raw) = signed_from_bits (field 32 56 raw) 56"
  "obs_seconds_per_liquidity_cumulative_x128 (observation_decode raw) = field 88 160 raw"
  "obs_initialized (observation_decode raw) \<longleftrightarrow> bit raw 248"
proof -
  have "drop_bit 248 raw AND 1 = field 248 1 raw"
    using drop_and_mask_field [of 248 raw 1] by simp
  moreover have "(ucast (field 248 1 raw) :: u8) \<noteq> 0 \<longleftrightarrow> bit raw 248"
  proof -
    have "bit (ucast (field 248 1 raw) :: u8) i \<longleftrightarrow> i = 0 \<and> bit raw 248" for i
      by (auto simp: bit_simps)
    then show ?thesis by (simp add: nonzero_iff_bit)
  qed
  ultimately show "obs_initialized (observation_decode raw) \<longleftrightarrow> bit raw 248"
    by (simp add: observation_decode_def)
qed (simp_all add: observation_decode_def packed_simps and_mask_field)

lemma observation_encode_fields:
  "field 0 32 (observation_encode obs) = ucast (obs_timestamp obs)"
  "field 32 56 (observation_encode obs) = unsigned_bits (obs_tick_cumulative obs) 56"
  "field 88 160 (observation_encode obs) = take_bit 160 (obs_seconds_per_liquidity_cumulative_x128 obs)"
  "field 248 8 (observation_encode obs) = (if obs_initialized obs then 1 else 0)"
proof -
  define sp where "sp = take_bit 160 (obs_seconds_per_liquidity_cumulative_x128 obs)"
  define init :: u256 where "init = (if obs_initialized obs then 1 else 0)"
  define ts :: u256 where "ts = ucast (obs_timestamp obs)"
  define tc where "tc = unsigned_bits (obs_tick_cumulative obs) 56"
  have enc: "observation_encode obs = ts OR push_bit 32 tc OR push_bit 88 sp OR push_bit 248 init"
    by (simp add: observation_encode_def packed_simps take_bit_eq_mask sp_def init_def ts_def tc_def)
  have small: "take_bit 32 ts = ts" "take_bit 56 tc = tc" "take_bit 160 sp = sp" "take_bit 8 init = init"
    by (simp_all add: ts_def tc_def sp_def init_def take_bit_ucast_self)
  note fields = enc field_push_same field_push_below field_push_above [OF small(2)]
    field_push_above [OF small(3)] field_low_above [OF small(1)] field_low [OF small(1)] small
  show "field 0 32 (observation_encode obs) = ucast (obs_timestamp obs)"
    by (simp add: fields) (simp add: ts_def)
  show "field 32 56 (observation_encode obs) = unsigned_bits (obs_tick_cumulative obs) 56"
    by (simp add: fields) (simp add: tc_def)
  show "field 88 160 (observation_encode obs) = take_bit 160 (obs_seconds_per_liquidity_cumulative_x128 obs)"
    by (simp add: fields) (simp add: sp_def)
  show "field 248 8 (observation_encode obs) = (if obs_initialized obs then 1 else 0)"
    by (simp add: fields) (simp add: init_def)
qed

definition wf_observation :: "observation \<Rightarrow> bool" where
  "wf_observation obs \<longleftrightarrow>
    - (2 ^ 55) \<le> sint (obs_tick_cumulative obs) \<and> sint (obs_tick_cumulative obs) < 2 ^ 55
    \<and> uint (obs_seconds_per_liquidity_cumulative_x128 obs) < 2 ^ 160"

lemma wf_observation_decode: "wf_observation (observation_decode raw)"
  using uint_field_less [of 88 160 raw] signed_take_bit_int_greater_eq_minus_exp [of 55 "uint (field 32 56 raw)"]
    signed_take_bit_int_less_exp [of 55 "uint (field 32 56 raw)"]
  by (simp add: wf_observation_def observation_decode_fields sint_signed_from_bits)

lemma wf_observation_transform: "wf_observation (observation_transform obs t tick l)"
  using uint_and_mask [where 'a = 256 and n = 160] signed_take_bit_int_greater_eq_minus_exp [of 55]
    signed_take_bit_int_less_exp [of 55]
  by (simp add: wf_observation_def observation_transform_def Let_def wrapping_signed_add_def
      sint_signed_unsigned packed_simps)

lemma observation_roundtrip:
  assumes "wf_observation obs"
  shows "observation_decode (observation_encode obs) = obs"
proof (rule observation.equality)
  let ?r = "observation_decode (observation_encode obs)"
  show "obs_timestamp ?r = obs_timestamp obs"
    by (simp add: observation_decode_fields observation_encode_fields ucast_ucast_id_256)
  show "obs_tick_cumulative ?r = obs_tick_cumulative obs"
    using assms by (simp add: observation_decode_fields observation_encode_fields wf_observation_def
        signed_unsigned_roundtrip)
  show "obs_seconds_per_liquidity_cumulative_x128 ?r = obs_seconds_per_liquidity_cumulative_x128 obs"
    using assms by (simp add: observation_decode_fields observation_encode_fields wf_observation_def
        take_bit_of_small)
  show "obs_initialized ?r = obs_initialized obs"
    using bit_via_field [of 248 248 8 "observation_encode obs"]
    by (simp add: observation_decode_fields observation_encode_fields)
qed simp

text \<open>The accumulators advance modulo their widths: \<open>int56\<close> and \<open>uint160\<close>.\<close>

lemma observation_transform_spec:
  fixes obs :: observation and t :: u32
  defines "delta \<equiv> (uint t - uint (obs_timestamp obs)) mod 2 ^ 32"
  shows "obs_timestamp (observation_transform obs t tick l) = t"
    and "sint (obs_tick_cumulative (observation_transform obs t tick l))
      = signed_take_bit 55 (sint (obs_tick_cumulative obs) + tick * delta)"
    and "uint (obs_seconds_per_liquidity_cumulative_x128 (observation_transform obs t tick l))
      = (uint (obs_seconds_per_liquidity_cumulative_x128 obs) + delta * 2 ^ 128 div max 1 (uint l)) mod 2 ^ 160"
    and "obs_initialized (observation_transform obs t tick l)"
proof -
  define d where "d = t - obs_timestamp obs"
  have d: "uint d = delta" by (simp add: d_def delta_def uint_word_ariths)
  show "obs_timestamp (observation_transform obs t tick l) = t"
    "obs_initialized (observation_transform obs t tick l)"
    by (simp_all add: observation_transform_def Let_def)
  define inc where "inc = (word_of_int tick :: i64) * ucast d"
  have ud: "uint (ucast d :: i64) = delta" "uint (ucast d :: u256) = delta"
    using uint_lt_exp [of d] by (simp_all add: d [symmetric] uint_ucast_down)
  have cong: "signed_take_bit 55 x = signed_take_bit 55 y" if "x mod 2 ^ 64 = y mod 2 ^ 64" for x y :: int
  proof -
    from that have "take_bit 64 x = take_bit 64 y" by (simp add: take_bit_eq_mod)
    then have "take_bit 56 (take_bit 64 x) = take_bit 56 (take_bit 64 y)" by (rule arg_cong)
    then show ?thesis by (simp add: signed_take_bit_eq_iff_take_bit_eq)
  qed
  have "sint (obs_tick_cumulative (observation_transform obs t tick l))
      = signed_take_bit 55 (sint (obs_tick_cumulative obs + inc))"
    by (simp add: observation_transform_def Let_def wrapping_signed_add_def sint_signed_unsigned
        inc_def d_def)
  also have "\<dots> = signed_take_bit 55 (sint (obs_tick_cumulative obs) + tick * delta)"
  proof (rule cong)
    have "sint (obs_tick_cumulative obs + inc) mod 2 ^ 64 = uint (obs_tick_cumulative obs + inc)"
      by (simp add: uint_sint take_bit_eq_mod)
    also have "\<dots> = (uint (obs_tick_cumulative obs) + uint inc) mod 2 ^ 64"
      by (simp add: uint_word_ariths)
    also have "uint inc = (tick mod 2 ^ 64 * delta) mod 2 ^ 64"
      by (simp add: inc_def uint_word_ariths ud uint_word_of_int)
    also have "uint (obs_tick_cumulative obs) = sint (obs_tick_cumulative obs) mod 2 ^ 64"
      by (simp add: uint_sint take_bit_eq_mod)
    finally show "sint (obs_tick_cumulative obs + inc) mod 2 ^ 64
        = (sint (obs_tick_cumulative obs) + tick * delta) mod 2 ^ 64"
      by (simp add: mod_simps)
  qed
  finally show "sint (obs_tick_cumulative (observation_transform obs t tick l))
      = signed_take_bit 55 (sint (obs_tick_cumulative obs) + tick * delta)" .
  define den where "den = (if l = 0 then 1 else l)"
  have den: "uint den = max 1 (uint l)" using uint_pos_iff [of l] by (auto simp: den_def max_def)
  have "0 \<le> delta" "delta < 2 ^ 32" by (simp_all add: delta_def)
  then have "uint (push_bit 128 (ucast d) :: u256) = delta * 2 ^ 128"
    by (simp add: push_bit_eq_mult uint_word_ariths ud)
  then have "uint (push_bit 128 (ucast d) div den :: u256) = delta * 2 ^ 128 div max 1 (uint l)"
    by (simp add: uint_div den)
  then show "uint (obs_seconds_per_liquidity_cumulative_x128 (observation_transform obs t tick l))
      = (uint (obs_seconds_per_liquidity_cumulative_x128 obs) + delta * 2 ^ 128 div max 1 (uint l)) mod 2 ^ 160"
    by (simp add: observation_transform_def Let_def packed_simps uint_and_mask uint_word_ariths
        mod_mod_cancel den_def [symmetric] d_def [symmetric])
qed

section \<open>Context, steps and the oracle\<close>

lemma validate_context_eq_Inr:
  "validate_context ctx = Inr () \<longleftrightarrow>
    ctx_chain_id ctx \<noteq> None \<and> ctx_block_number ctx \<noteq> None \<and> ctx_block_hash ctx \<noteq> None
    \<and> ctx_parent_hash ctx \<noteq> None \<and> ctx_transaction_hash ctx \<noteq> None
    \<and> ctx_transaction_index ctx \<noteq> None \<and> ctx_log_index ctx \<noteq> None
    \<and> (\<exists>t. ctx_block_timestamp ctx = Some t \<and> uint t < 2 ^ 32)"
proof -
  have "\<not> ucast (- 1 :: u32) < t \<longleftrightarrow> uint t < 2 ^ 32" for t :: u64
    unfolding not_less ucast_minus_1 word_le_mask_iff by simp
  then show ?thesis
    by (auto simp: validate_context_def split: if_splits)
qed

lemma validate_context_timestamp:
  assumes "validate_context ctx = Inr ()"
  obtains t where "ctx_block_timestamp ctx = Some t" "event_timestamp ctx = Inr (ucast t)"
    "uint (ucast t :: u32) = uint t"
  using assms by (auto simp: validate_context_eq_Inr event_timestamp_def uint_ucast_down)

lemma consume_step_eq_Inr:
  "consume_step steps = Inr steps' \<longleftrightarrow> uint steps < 4096 \<and> uint steps' = uint steps + 1"
proof (cases "uint steps + 1 < 2 ^ 32")
  case True
  then have "saturating_add steps 1 = steps + 1" by (simp add: saturating_add_def)
  with True show ?thesis
    by (auto simp: consume_step_def Let_def MAX_SWAP_STEPS_def word_less_def word_uint_eq_iff
        uint_add_no_wrap)
next
  case False
  then have "saturating_add steps 1 = (- 1 :: u32)" by (simp add: saturating_add_def)
  with False show ?thesis
    by (simp add: consume_step_def MAX_SWAP_STEPS_def)
qed

lemma fail_closed_advance_oracle [fail_closed_intros]:
  "fail_closed (\<lambda>s. advance_oracle addr surface s0 l ctx s)"
  unfolding advance_oracle_def Let_def by (intro fail_closed_intros)

text \<open>
  The oracle position stays inside the ring, the ring grows only at its end and only to the
  announced size, and the written word decodes to the observation used for crossings.
\<close>

lemma advance_oracle_okD:
  assumes "advance_oracle addr surface s l ctx state = Inr (i, c, w, now)"
  shows "i < c" "s0_observation_cardinality s \<le> c" "c \<le> s0_observation_cardinality_next s"
    "c \<noteq> s0_observation_cardinality s \<Longrightarrow> s0_observation_index s = s0_observation_cardinality s - 1"
    and "\<exists>raw ts. state addr (observations_base_slot surface + ucast (s0_observation_index s)) = Some raw
      \<and> event_timestamp ctx = Inr ts \<and> obs_initialized (observation_decode raw)
      \<and> now = observation_transform (observation_decode raw) ts (s0_tick s) l
      \<and> (if obs_timestamp (observation_decode raw) = ts
         then w = None \<and> i = s0_observation_index s \<and> c = s0_observation_cardinality s
         else w = Some (observations_base_slot surface + ucast i, observation_encode now)
           \<and> uint i = (uint (s0_observation_index s) + 1) mod uint c)"
proof -
  define card idx where "card = s0_observation_cardinality s" and "idx = s0_observation_index s"
  obtain raw ts where h: "card \<noteq> 0" "idx < card" "card \<le> s0_observation_cardinality_next s"
    "state addr (observations_base_slot surface + ucast idx) = Some raw"
    "event_timestamp ctx = Inr ts" "obs_initialized (observation_decode raw)"
    and now: "now = observation_transform (observation_decode raw) ts (s0_tick s) l"
    and res: "if obs_timestamp (observation_decode raw) = ts
       then w = None \<and> i = idx \<and> c = card
       else c = (if card < s0_observation_cardinality_next s \<and> idx = card - 1
                 then s0_observation_cardinality_next s else card)
         \<and> i = (idx + 1) mod c
         \<and> w = Some (observations_base_slot surface + ucast i, observation_encode now)"
    using assms
    by (auto simp: advance_oracle_def Let_def card_def idx_def not_le not_less split: if_splits)
  have cpos: "card \<le> c \<and> c \<le> s0_observation_cardinality_next s"
    using res h(3) by (auto split: if_splits)
  then have "c \<noteq> 0" using h(1) uint_pos_iff [of card] by (auto simp: word_le_def)
  have suc: "uint (idx + 1) = uint idx + 1"
    using h(2) uint_lt_exp [of card] by (intro trans [OF uint_add_no_wrap]) (simp_all add: word_less_def)
  have i: "uint i = (uint idx + 1) mod uint c" if "obs_timestamp (observation_decode raw) \<noteq> ts"
    using res that suc by (simp add: uint_mod split: if_splits)
  show "i < c"
  proof (cases "obs_timestamp (observation_decode raw) = ts")
    case True
    then show ?thesis using res h(2) by simp
  next
    case False
    then show ?thesis using i \<open>c \<noteq> 0\<close> uint_pos_iff [of c] by (simp add: word_less_def)
  qed
  show "s0_observation_cardinality s \<le> c" "c \<le> s0_observation_cardinality_next s"
    using cpos by (simp_all add: card_def)
  show "s0_observation_index s = s0_observation_cardinality s - 1" if "c \<noteq> s0_observation_cardinality s"
    using that res by (auto simp: card_def idx_def split: if_splits)
  show "\<exists>raw ts. state addr (observations_base_slot surface + ucast (s0_observation_index s)) = Some raw
      \<and> event_timestamp ctx = Inr ts \<and> obs_initialized (observation_decode raw)
      \<and> now = observation_transform (observation_decode raw) ts (s0_tick s) l
      \<and> (if obs_timestamp (observation_decode raw) = ts
         then w = None \<and> i = s0_observation_index s \<and> c = s0_observation_cardinality s
         else w = Some (observations_base_slot surface + ucast i, observation_encode now)
           \<and> uint i = (uint (s0_observation_index s) + 1) mod uint c)"
    using h now res i by (auto simp: idx_def card_def split: if_splits)
qed

section \<open>No aborts\<close>

lemma no_panic_validate_context [no_panic_intros, simp]: "no_panic (validate_context ctx)"
proof -
  have "no_panic (first_missing xs)" for xs by (induction xs rule: first_missing.induct) auto
  moreover have "ctx_block_timestamp ctx \<noteq> None" if "first_missing
      [(ctx_chain_id ctx \<noteq> None, ''chain_id''), (ctx_block_number ctx \<noteq> None, ''block_number''),
       (ctx_block_hash ctx \<noteq> None, ''block_hash''), (ctx_parent_hash ctx \<noteq> None, ''parent_hash''),
       (ctx_block_timestamp ctx \<noteq> None, ''block_timestamp''),
       (ctx_transaction_hash ctx \<noteq> None, ''transaction_hash''),
       (ctx_transaction_index ctx \<noteq> None, ''transaction_index''),
       (ctx_log_index ctx \<noteq> None, ''log_index'')] = Inr u" for u
    using that by (auto split: if_splits)
  ultimately show ?thesis
    unfolding validate_context_def by (intro no_panic_intros) (auto simp: no_panic_def)
qed

lemma no_panic_event_timestamp [no_panic_intros]:
  "validate_context ctx = Inr u \<Longrightarrow> no_panic (event_timestamp ctx)"
  by (metis validate_context_timestamp no_panic_Inr old.unit.exhaust)

lemma no_panic_consume_step [no_panic_intros, simp]: "no_panic (consume_step steps)"
  by (simp add: consume_step_def Let_def)

lemma no_panic_validate_parent_slot0 [no_panic_intros, simp]: "no_panic (validate_parent_slot0 s)"
  unfolding validate_parent_slot0_def by (intro no_panic_intros)

lemma no_panic_advance_oracle [no_panic_intros]:
  "validate_context ctx = Inr u \<Longrightarrow> no_panic (advance_oracle addr surface s l ctx state)"
  unfolding advance_oracle_def Let_def observation_error_def by (intro no_panic_intros)

end
