(* ===== verification/Tick_Bitmap.thy ===== *)
theory Tick_Bitmap
  imports Pool_Words
begin

text \<open>
  Walking the tick bitmap, from \<open>src/adapters/v3_transition.rs\<close>: the next step boundary of a
  price path (\<open>next_step_boundary\<close> and its Slipstream twin), the \<open>Tick.Info\<close> words of an
  initialized tick, and the change of active liquidity when a tick is crossed. The facts: the
  boundary is the nearest initialized tick of the word in the direction of travel (or the end
  of the word), and crossing changes liquidity exactly by the signed net amount.
\<close>

section \<open>Operations\<close>

text \<open>Rust's \<open>i32\<close> range, checked \<open>i32\<close> results, and Euclidean division, whose remainder is never negative.\<close>

definition i32_range :: "int \<Rightarrow> bool" where
  "i32_range v \<longleftrightarrow> - (2 ^ 31) \<le> v \<and> v < 2 ^ 31"

definition i32_checked :: "int \<Rightarrow> i32 option" where
  "i32_checked v = (if i32_range v then Some v else None)"

definition div_euclid :: "i32 \<Rightarrow> i32 \<Rightarrow> i32 result" where
  "div_euclid a b =
    (if b = 0 then Inl (Panicked ''attempt to divide by zero'')
     else expect (i32_checked (sgn b * (a div \<bar>b\<bar>))) ''attempt to divide with overflow'')"

record step_boundary =
  sb_tick :: i32
  sb_initialized :: bool

definition clamp_tick :: "i32 \<Rightarrow> i32" where
  "clamp_tick t = (if t < - 887272 then - 887272 else if 887272 < t then 887272 else t)"

text \<open>The bitmap word searched, the bit to start at and the compressed tick it stands for.\<close>

definition search_position :: "i32 \<Rightarrow> i32 \<Rightarrow> bool \<Rightarrow> (i16 \<times> nat \<times> i32) result" where
  "search_position spacing current_tick zero_for_one =
    rbind (div_euclid current_tick spacing) (\<lambda>compressed.
    if zero_for_one
    then Inr (word_of_int (compressed div 256), nat (compressed mod 256), compressed)
    else rbind (ok_or (i32_checked (compressed + 1)) (arithmetic ''compressed tick overflow'')) (\<lambda>search.
         Inr (word_of_int (search div 256), nat (search mod 256), search)))"

definition search_word :: "u256 \<Rightarrow> nat \<Rightarrow> i32 \<Rightarrow> bool \<Rightarrow> i32 \<times> bool" where
  "search_word bitmap bit_position search_compressed zero_for_one =
    (if zero_for_one
     then
       let mask' = (if bit_position = 255 then - 1 else push_bit (bit_position + 1) 1 - 1);
           masked = bitmap AND mask'
       in if masked = 0 then (search_compressed - int bit_position, False)
          else let most_significant_bit = bit_len masked - 1
               in (search_compressed - int (bit_position - most_significant_bit), True)
     else
       let lower_mask = (if bit_position = 0 then 0 else push_bit bit_position 1 - 1);
           masked = bitmap AND NOT lower_mask
       in if masked = 0 then (search_compressed + int (255 - bit_position), False)
          else let least_significant_bit = trailing_zeros masked
               in (search_compressed + int (least_significant_bit - bit_position), True))"

definition next_step_boundary ::
  "keccak \<Rightarrow> address \<Rightarrow> v3_storage_layout \<Rightarrow> i32 \<Rightarrow> bool \<Rightarrow> state_view \<Rightarrow> step_boundary result" where
  "next_step_boundary keccak256 addr layout current_tick zero_for_one state =
    (let spacing = tick_spacing layout
     in rbind (search_position spacing current_tick zero_for_one)
          (\<lambda>(word_position, bit_position, search_compressed).
        let bitmap_slot = v3_tick_bitmap_storage_key_with_base keccak256 word_position
                            (tick_bitmap_base_slot layout)
        in rbind (required state addr bitmap_slot) (\<lambda>bitmap.
           let (next_compressed, initialized) =
                 search_word bitmap bit_position search_compressed zero_for_one
           in rbind (expect (i32_checked next_compressed) ''arithmetic overflow'') (\<lambda>next_compressed.
              rbind (ok_or (i32_checked (next_compressed * spacing))
                       (arithmetic ''step-boundary tick overflow'')) (\<lambda>tick.
              Inr \<lparr>sb_tick = clamp_tick tick, sb_initialized = initialized\<rparr>)))))"

text \<open>
  The Slipstream transition carries its own copy of the walk; its code repeats the canonical
  one and so does this definition.
\<close>

definition next_slipstream_step_boundary ::
  "keccak \<Rightarrow> address \<Rightarrow> v3_storage_layout \<Rightarrow> i32 \<Rightarrow> bool \<Rightarrow> state_view \<Rightarrow> step_boundary result" where
  "next_slipstream_step_boundary keccak256 addr layout current_tick zero_for_one state =
    (let spacing = tick_spacing layout
     in rbind (search_position spacing current_tick zero_for_one)
          (\<lambda>(word_position, bit_position, search_compressed).
        let bitmap_slot = v3_tick_bitmap_storage_key_with_base keccak256 word_position
                            (tick_bitmap_base_slot layout)
        in rbind (required state addr bitmap_slot) (\<lambda>bitmap.
           let (next_compressed, initialized) =
                 search_word bitmap bit_position search_compressed zero_for_one
           in rbind (expect (i32_checked next_compressed) ''arithmetic overflow'') (\<lambda>next_compressed.
              rbind (ok_or (i32_checked (next_compressed * spacing))
                       (arithmetic ''step-boundary tick overflow'')) (\<lambda>tick.
              Inr \<lparr>sb_tick = clamp_tick tick, sb_initialized = initialized\<rparr>)))))"

text \<open>\<open>as i128\<close> on the 128-bit half of a word.\<close>

definition as_i128 :: "u256 \<Rightarrow> i128" where
  "as_i128 w = sint (ucast w :: u128)"

record initialized_tick =
  it_keys :: "u256 list"
  it_words :: "u256 list"
  it_liquidity_net :: i128

definition initialized_tick_error :: "i32 \<Rightarrow> string \<Rightarrow> adapter_event_error" where
  "initialized_tick_error tick reason = V3Transition (InitializedTickError tick reason)"

definition load_initialized_tick ::
  "keccak \<Rightarrow> address \<Rightarrow> v3_storage_layout \<Rightarrow> i32 \<Rightarrow> state_view \<Rightarrow> initialized_tick result" where
  "load_initialized_tick keccak256 addr layout tick state =
    (let keys = v3_tick_info_storage_keys_with_base keccak256 tick (ticks_base_slot layout)
     in rbind (rmap (required state addr) keys) (\<lambda>words.
        if drop_bit 248 (words ! 3) AND ucast (- 1 :: u8) \<noteq> 1
        then Inl (initialized_tick_error tick ''bitmap is set but Tick.Info.initialized is false'')
        else if words ! 0 AND WORD_128_MASK = 0
        then Inl (initialized_tick_error tick ''bitmap is set but Tick.Info.liquidityGross is zero'')
        else Inr \<lparr>it_keys = keys, it_words = words,
                  it_liquidity_net = as_i128 (drop_bit 128 (words ! 0) AND WORD_128_MASK)\<rparr>))"

record slipstream_initialized_tick =
  st_keys :: "u256 list"
  st_words :: "u256 list"
  st_liquidity_net :: i128
  st_staked_liquidity_net :: i128

definition load_slipstream_initialized_tick ::
  "keccak \<Rightarrow> address \<Rightarrow> v3_storage_layout \<Rightarrow> i32 \<Rightarrow> state_view \<Rightarrow> slipstream_initialized_tick result" where
  "load_slipstream_initialized_tick keccak256 addr layout tick state =
    (let keys = slipstream_tick_info_storage_keys_with_base keccak256 tick (ticks_base_slot layout)
     in rbind (rmap (required state addr) keys) (\<lambda>words.
        if drop_bit 248 (words ! 5) AND ucast (- 1 :: u8) \<noteq> 1
        then Inl (initialized_tick_error tick
               ''bitmap is set but Slipstream Tick.Info.initialized is false'')
        else if words ! 0 AND WORD_128_MASK = 0
        then Inl (initialized_tick_error tick
               ''bitmap is set but Slipstream Tick.Info.liquidityGross is zero'')
        else Inr \<lparr>st_keys = keys, st_words = words,
                  st_liquidity_net = as_i128 (drop_bit 128 (words ! 0) AND WORD_128_MASK),
                  st_staked_liquidity_net = as_i128 (words ! 1 AND WORD_128_MASK)\<rparr>))"

definition apply_liquidity_net :: "u256 \<Rightarrow> i128 \<Rightarrow> bool \<Rightarrow> u256 result" where
  "apply_liquidity_net liquidity liquidity_net zero_for_one =
    rbind (if zero_for_one
           then if liquidity_net = - (2 ^ 127) then Inl (arithmetic ''liquidity net cannot be negated'')
                else Inr (- liquidity_net)
           else Inr liquidity_net) (\<lambda>signed_delta.
    rbind (ok_or (if signed_delta < 0
                  then checked_sub liquidity (word_of_int \<bar>signed_delta\<bar>)
                  else checked_add liquidity (word_of_int signed_delta))
             (arithmetic ''active liquidity overflow/underflow'')) (\<lambda>r.
    if WORD_128_MASK < r then Inl (arithmetic ''active liquidity exceeds uint128'') else Inr r))"

section \<open>The nearest boundary\<close>

lemma next_slipstream_step_boundary_eq [simp]: "next_slipstream_step_boundary = next_step_boundary"
  by (intro ext) (simp add: next_slipstream_step_boundary_def next_step_boundary_def)

lemma bit_upto_mask:
  assumes "bp < 256"
  shows "bit (bitmap AND (if bp = 255 then - 1 else push_bit (bp + 1) 1 - 1) :: u256) i \<longleftrightarrow> bit bitmap i \<and> i \<le> bp"
proof (cases "bp = 255")
  case True
  then show ?thesis by (auto simp: bit_simps dest: bit_imp_le_length)
next
  case False
  then show ?thesis unfolding if_not_P [OF False] push_bit_one_minus_one
    by (auto simp: bit_simps dest: bit_imp_le_length)
qed

lemma bit_from_mask:
  assumes "bp < 256"
  shows "bit (bitmap AND NOT (if bp = 0 then 0 else push_bit bp 1 - 1) :: u256) i \<longleftrightarrow> bit bitmap i \<and> bp \<le> i"
proof (cases "bp = 0")
  case True
  then show ?thesis by (auto simp: bit_simps dest: bit_imp_le_length)
next
  case False
  then show ?thesis unfolding if_not_P [OF False] push_bit_one_minus_one
    by (auto simp: bit_simps dest: bit_imp_le_length)
qed

text \<open>
  Searching down finds the highest set bit at or below the position, searching up the lowest
  at or above it; without one, the search stops at the end of the word.
\<close>

lemma search_word_down:
  assumes "bp < 256" "search_word bitmap bp c True = (n, ini)"
  shows "\<exists>k \<le> bp. n = c - int (bp - k) \<and> (ini \<longrightarrow> bit bitmap k) \<and> (\<not> ini \<longrightarrow> k = 0 \<and> \<not> bit bitmap 0)
    \<and> (\<forall>j. k < j \<and> j \<le> bp \<longrightarrow> \<not> bit bitmap j)"
proof -
  define w where "w = bitmap AND (if bp = 255 then - 1 else push_bit (bp + 1) 1 - 1)"
  have b: "bit w i \<longleftrightarrow> bit bitmap i \<and> i \<le> bp" for i unfolding w_def using assms(1) by (rule bit_upto_mask)
  have res: "(n, ini) = (if w = 0 then (c - int bp, False) else (c - int (bp - (bit_len w - 1)), True))"
    using assms(2) unfolding search_word_def Let_def if_True if_False w_def [symmetric] by simp
  show ?thesis
  proof (cases "w = 0")
    case True
    then have "\<not> bit bitmap i" if "i \<le> bp" for i using b [of i] that by simp
    then show ?thesis using res True by (intro exI [of _ 0]) auto
  next
    case False
    then obtain m where m: "bit_len w = Suc m" "bit w m" "\<And>i. m < i \<Longrightarrow> \<not> bit w i"
      by (rule bit_len_nonzero) blast
    then show ?thesis using res False b by (intro exI [of _ m]) auto
  qed
qed

lemma search_word_up:
  assumes "bp < 256" "search_word bitmap bp c False = (n, ini)"
  shows "\<exists>k < 256. bp \<le> k \<and> n = c + int (k - bp) \<and> (ini \<longrightarrow> bit bitmap k)
    \<and> (\<not> ini \<longrightarrow> k = 255 \<and> \<not> bit bitmap 255) \<and> (\<forall>j. bp \<le> j \<and> j < k \<longrightarrow> \<not> bit bitmap j)"
proof -
  define w where "w = bitmap AND NOT (if bp = 0 then 0 else push_bit bp 1 - 1)"
  have b: "bit w i \<longleftrightarrow> bit bitmap i \<and> bp \<le> i" for i unfolding w_def using assms(1) by (rule bit_from_mask)
  have res: "(n, ini) = (if w = 0 then (c + int (255 - bp), False) else (c + int (trailing_zeros w - bp), True))"
    using assms(2) unfolding search_word_def Let_def if_True if_False w_def [symmetric] by simp
  show ?thesis
  proof (cases "w = 0")
    case True
    then have "\<not> bit bitmap i" if "bp \<le> i" for i using b [of i] that by simp
    then show ?thesis using res True assms(1) by (intro exI [of _ 255]) auto
  next
    case False
    note t = trailing_zeros_nonzero [OF False]
    have "trailing_zeros w < 256" using t bit_imp_le_length [of w "trailing_zeros w"] by simp
    then show ?thesis using t res False b by (intro exI [of _ "trailing_zeros w"]) auto
  qed
qed

lemma div_euclid_pos:
  assumes "0 < b" "i32_range a"
  shows "div_euclid a b = Inr (a div b)"
proof -
  have "- (2 ^ 31) \<le> a div b" using assms div_less_iff [of b a "- (2 ^ 31)"] mult_left_mono [of 1 b "2 ^ 31"]
    by (simp add: i32_range_def not_less [symmetric])
  moreover have "a div b < 2 ^ 31"
    using assms mult_left_mono [of 1 b "2 ^ 31"] by (subst div_less_iff) (simp_all add: i32_range_def)
  ultimately show ?thesis using assms by (simp add: div_euclid_def i32_checked_def i32_range_def)
qed

lemma div_euclid_okD: "0 < b \<Longrightarrow> div_euclid a b = Inr c \<Longrightarrow> c = a div b"
  by (auto simp: div_euclid_def i32_checked_def split: if_splits)

lemma word_offset:
  fixes c :: int
  assumes "k < 256"
  shows "(c div 256 * 256 + int k) div 256 = c div 256" "(c div 256 * 256 + int k) mod 256 = int k"
  using assms by (simp_all add: div_add1_eq)

lemma search_down_compressed:
  assumes "search_word bitmap (nat (c mod 256)) c True = (n, ini)"
  shows "n \<le> c" "n div 256 = c div 256" "ini \<Longrightarrow> bit bitmap (nat (n mod 256))"
    "\<not> ini \<Longrightarrow> n mod 256 = 0" "\<not> ini \<Longrightarrow> \<not> bit bitmap (nat (n mod 256))"
    "n < m \<Longrightarrow> m \<le> c \<Longrightarrow> \<not> bit bitmap (nat (m mod 256))"
proof -
  define bp where "bp = nat (c mod 256)"
  have bp: "bp < 256" "int bp = c mod 256" by (simp_all add: bp_def nat_less_iff)
  obtain k where k: "k \<le> bp" "n = c - int (bp - k)" "ini \<longrightarrow> bit bitmap k"
    "\<not> ini \<longrightarrow> k = 0 \<and> \<not> bit bitmap 0" "\<forall>j. k < j \<and> j \<le> bp \<longrightarrow> \<not> bit bitmap j"
    using search_word_down [OF bp(1) assms [folded bp_def]] by blast
  have c: "c = c div 256 * 256 + int bp" using bp(2) by simp
  then have n: "n = c div 256 * 256 + int k" using k(1,2) by linarith
  have nk: "n div 256 = c div 256" "n mod 256 = int k"
    unfolding n using k(1) bp(1) by (simp_all add: word_offset)
  show "n \<le> c" using k by simp
  show "n div 256 = c div 256" by (rule nk)
  show "ini \<Longrightarrow> bit bitmap (nat (n mod 256))" "\<not> ini \<Longrightarrow> n mod 256 = 0"
    "\<not> ini \<Longrightarrow> \<not> bit bitmap (nat (n mod 256))" using nk k by simp_all
  assume m: "n < m" "m \<le> c"
  define j where "j = nat (m - c div 256 * 256)"
  have j: "m = c div 256 * 256 + int j" "k < j" "j \<le> bp" using m n c by (simp_all add: j_def)
  then have "m mod 256 = int j" using word_offset(2) [of j c] bp(1) by simp
  then show "\<not> bit bitmap (nat (m mod 256))" using k(5) j by simp
qed

lemma search_up_compressed:
  assumes "search_word bitmap (nat (c mod 256)) c False = (n, ini)"
  shows "c \<le> n" "n div 256 = c div 256" "ini \<Longrightarrow> bit bitmap (nat (n mod 256))"
    "\<not> ini \<Longrightarrow> n mod 256 = 255" "\<not> ini \<Longrightarrow> \<not> bit bitmap (nat (n mod 256))"
    "c \<le> m \<Longrightarrow> m < n \<Longrightarrow> \<not> bit bitmap (nat (m mod 256))"
proof -
  define bp where "bp = nat (c mod 256)"
  have bp: "bp < 256" "int bp = c mod 256" by (simp_all add: bp_def nat_less_iff)
  obtain k where k: "k < 256" "bp \<le> k" "n = c + int (k - bp)" "ini \<longrightarrow> bit bitmap k"
    "\<not> ini \<longrightarrow> k = 255 \<and> \<not> bit bitmap 255" "\<forall>j. bp \<le> j \<and> j < k \<longrightarrow> \<not> bit bitmap j"
    using search_word_up [OF bp(1) assms [folded bp_def]] by blast
  have c: "c = c div 256 * 256 + int bp" using bp(2) by simp
  then have n: "n = c div 256 * 256 + int k" using k(2,3) by linarith
  have nk: "n div 256 = c div 256" "n mod 256 = int k"
    unfolding n using k(1) by (simp_all add: word_offset)
  show "c \<le> n" using k by simp
  show "n div 256 = c div 256" by (rule nk)
  show "ini \<Longrightarrow> bit bitmap (nat (n mod 256))" "\<not> ini \<Longrightarrow> n mod 256 = 255"
    "\<not> ini \<Longrightarrow> \<not> bit bitmap (nat (n mod 256))" using nk k by simp_all
  assume m: "c \<le> m" "m < n"
  define j where "j = nat (m - c div 256 * 256)"
  have j: "m = c div 256 * 256 + int j" "bp \<le> j" "j < k" using m n c by (simp_all add: j_def)
  then have "m mod 256 = int j" using word_offset(2) [of j c] k(1) by simp
  then show "\<not> bit bitmap (nat (m mod 256))" using k(6) j by simp
qed

lemma next_step_boundary_okD:
  assumes "next_step_boundary keccak256 addr layout t zfo state = Inr sb" "0 < tick_spacing layout"
  defines "c \<equiv> t div tick_spacing layout + (if zfo then 0 else 1)"
  shows "\<exists>bitmap n. state addr (v3_tick_bitmap_storage_key_with_base keccak256 (word_of_int (c div 256))
        (tick_bitmap_base_slot layout)) = Some bitmap
      \<and> search_word bitmap (nat (c mod 256)) c zfo = (n, sb_initialized sb)
      \<and> sb_tick sb = clamp_tick (n * tick_spacing layout)"
  using assms(1) div_euclid_okD [OF assms(2), of t]
  unfolding next_step_boundary_def search_position_def Let_def c_def
  by (cases zfo) (fastforce simp: i32_checked_def split: if_splits prod.splits)+

text \<open>The next boundary lies ahead of the current tick in the direction of travel.\<close>

lemma next_step_boundary_ahead:
  assumes "next_step_boundary keccak256 addr layout t zfo state = Inr sb" "0 < tick_spacing layout"
  shows "- 887272 \<le> sb_tick sb" "sb_tick sb \<le> 887272"
    "zfo \<Longrightarrow> - 887272 \<le> t \<Longrightarrow> sb_tick sb \<le> t" "\<not> zfo \<Longrightarrow> t < 887272 \<Longrightarrow> t < sb_tick sb"
proof -
  define sp c where "sp = tick_spacing layout" and "c = t div sp + (if zfo then 0 else 1)"
  obtain bitmap n where n: "search_word bitmap (nat (c mod 256)) c zfo = (n, sb_initialized sb)"
    "sb_tick sb = clamp_tick (n * sp)"
    using next_step_boundary_okD [OF assms] by (auto simp: sp_def c_def)
  show "- 887272 \<le> sb_tick sb" "sb_tick sb \<le> 887272" using n(2) by (simp_all add: clamp_tick_def)
  show "sb_tick sb \<le> t" if zfo "- 887272 \<le> t"
  proof -
    have "n \<le> t div sp" using search_down_compressed(1) [of bitmap c n] n(1) that by (simp add: c_def)
    then have "n * sp \<le> t" using assms(2) by (simp add: sp_def le_div_iff)
    then show ?thesis using n(2) that by (simp add: clamp_tick_def)
  qed
  show "t < sb_tick sb" if "\<not> zfo" "t < 887272"
  proof -
    have "t div sp < n" using search_up_compressed(1) [of bitmap c n] n(1) that by (simp add: c_def)
    then have "t < n * sp" using assms(2) by (simp add: sp_def div_less_iff)
    then show ?thesis using n(2) that by (simp add: clamp_tick_def)
  qed
qed

section \<open>Crossing changes liquidity by the net amount\<close>

lemma as_i128_range: "- (2 ^ 127) \<le> as_i128 w" "as_i128 w < 2 ^ 127"
  using sint_greater_eq [of "ucast w :: u128"] sint_less [of "ucast w :: u128"]
  by (simp_all add: as_i128_def)

lemma apply_liquidity_net_eq_Inr:
  assumes "- (2 ^ 127) \<le> net" "net < 2 ^ 127"
  shows "apply_liquidity_net l net zfo = Inr r \<longleftrightarrow>
    \<not> (zfo \<and> net = - (2 ^ 127)) \<and> uint r = uint l + (if zfo then - net else net) \<and> uint r < 2 ^ 128"
proof -
  define d where "d = (if zfo then - net else net)"
  have abs: "uint (word_of_int \<bar>d\<bar> :: u256) = \<bar>d\<bar>"
    using assms by (intro uint_word_of_int_id) (auto simp: d_def)
  have step: "(if d < 0 then checked_sub l (word_of_int \<bar>d\<bar>) else checked_add l (word_of_int d)) = Some r
      \<longleftrightarrow> uint r = uint l + d" for r
    using abs by (auto simp: checked_sub_eq_Some checked_add_eq_Some)
  show ?thesis
  proof (cases "zfo \<and> net = - (2 ^ 127)")
    case True
    then show ?thesis by (simp add: apply_liquidity_net_def)
  next
    case False
    then have run: "apply_liquidity_net l net zfo = rbind (ok_or (if d < 0 then checked_sub l (word_of_int \<bar>d\<bar>)
        else checked_add l (word_of_int d)) (arithmetic ''active liquidity overflow/underflow''))
        (\<lambda>r. if WORD_128_MASK < r then Inl (arithmetic ''active liquidity exceeds uint128'') else Inr r)"
      by (auto simp: apply_liquidity_net_def d_def)
    have "apply_liquidity_net l net zfo = Inr r \<longleftrightarrow> uint r = uint l + d \<and> \<not> WORD_128_MASK < r"
      unfolding run rbind_eq_Inr ok_or_eq_Inr step by auto
    then show ?thesis using False by (auto simp: d_def not_less le_WORD_128_MASK_iff)
  qed
qed

text \<open>Crossing a tick and crossing it back restores the active liquidity.\<close>

lemma apply_liquidity_net_inverse:
  assumes "- (2 ^ 127) < net" "net < 2 ^ 127" "uint l < 2 ^ 128" "apply_liquidity_net l net zfo = Inr r"
  shows "apply_liquidity_net r net (\<not> zfo) = Inr l"
  using assms by (auto simp: apply_liquidity_net_eq_Inr)

lemma load_initialized_tick_okD:
  assumes "load_initialized_tick keccak256 addr layout tick state = Inr it"
  shows "it_keys it = v3_tick_info_storage_keys_with_base keccak256 tick (ticks_base_slot layout)"
    "length (it_keys it) = 4" "length (it_words it) = 4"
    "i < 4 \<Longrightarrow> state addr (it_keys it ! i) = Some (it_words it ! i)"
    "- (2 ^ 127) \<le> it_liquidity_net it" "it_liquidity_net it < 2 ^ 127"
proof -
  define keys where "keys = v3_tick_info_storage_keys_with_base keccak256 tick (ticks_base_slot layout)"
  have len: "length keys = 4" by (simp add: keys_def v3_tick_info_storage_keys_with_base_def Let_def)
  obtain words where w: "rmap (required state addr) keys = Inr words" "it_keys it = keys" "it_words it = words"
    "it_liquidity_net it = as_i128 (drop_bit 128 (words ! 0) AND WORD_128_MASK)"
    using assms by (auto simp: load_initialized_tick_def keys_def [symmetric] Let_def split: if_splits)
  then show "it_keys it = v3_tick_info_storage_keys_with_base keccak256 tick (ticks_base_slot layout)"
    "length (it_keys it) = 4" "length (it_words it) = 4"
    using len rmap_eq_Inr_length [OF w(1)] by (simp_all add: keys_def)
  show "i < 4 \<Longrightarrow> state addr (it_keys it ! i) = Some (it_words it ! i)"
    using rmap_eq_Inr_nth [OF w(1), of i] len w(2,3) by simp
  show "- (2 ^ 127) \<le> it_liquidity_net it" "it_liquidity_net it < 2 ^ 127"
    unfolding w(4) by (rule as_i128_range)+
qed

section \<open>Partial views and aborts\<close>

lemma fail_closed_tick_reads [fail_closed_intros]:
  "fail_closed (\<lambda>s. next_step_boundary keccak256 addr layout t zfo s)"
  "fail_closed (\<lambda>s. load_initialized_tick keccak256 addr layout tick s)"
  "fail_closed (\<lambda>s. load_slipstream_initialized_tick keccak256 addr layout tick s)"
  unfolding next_step_boundary_def load_initialized_tick_def load_slipstream_initialized_tick_def
    Let_def case_prod_beta
  by (intro fail_closed_intros)+

lemma no_panic_next_step_boundary [no_panic_intros]:
  assumes "0 < tick_spacing layout" "- (2 ^ 24) \<le> t" "t < 2 ^ 24"
  shows "no_panic (next_step_boundary keccak256 addr layout t zfo state)"
proof -
  define sp where "sp = tick_spacing layout"
  have sp: "0 < sp" using assms by (simp add: sp_def)
  have "div_euclid t sp = Inr (t div sp)" using sp assms by (intro div_euclid_pos) (simp_all add: i32_range_def)
  moreover have q: "- (2 ^ 24) \<le> t div sp" "t div sp < 2 ^ 24"
    using assms sp mult_left_mono [of 1 sp "2 ^ 24"] by (simp_all add: le_div_iff div_less_iff)
  ultimately have pos: "search_position sp t zfo = Inr (word_of_int (c div 256), nat (c mod 256), c)"
    if "c = t div sp + (if zfo then 0 else 1)" for c
    using that by (auto simp: search_position_def i32_checked_def i32_range_def)
  have small: "i32_range n" if "search_word bitmap (nat (c mod 256)) c zfo = (n, ini)"
    "c = t div sp + (if zfo then 0 else 1)" for bitmap c n ini
  proof -
    have "n div 256 = c div 256"
      using that search_down_compressed(2) search_up_compressed(2) by (cases zfo) auto
    then have "\<bar>n - c\<bar> < 256" by (smt (verit) div_mult_mod_eq pos_mod_bound pos_mod_sign)
    then show ?thesis using that(2) q by (auto simp: i32_range_def split: if_splits)
  qed
  show ?thesis
    unfolding next_step_boundary_def Let_def sp_def [symmetric] pos [OF refl]
    by (auto intro!: no_panic_intros simp: i32_checked_def small split: prod.split)
qed

lemma no_panic_tick_loads [no_panic_intros, simp]:
  "no_panic (load_initialized_tick keccak256 addr layout tick state)"
  "no_panic (load_slipstream_initialized_tick keccak256 addr layout tick state)"
  unfolding load_initialized_tick_def load_slipstream_initialized_tick_def Let_def initialized_tick_error_def
  by (intro no_panic_intros)+

lemma no_panic_apply_liquidity_net [no_panic_intros, simp]: "no_panic (apply_liquidity_net l net zfo)"
  unfolding apply_liquidity_net_def by (intro no_panic_intros)

end
