(* ===== verification/Sqrt_Price.thy ===== *)
theory Sqrt_Price
  imports Fixed_Point
begin

text \<open>
  The price mathematics of \<open>src/adapters/v3_transition.rs\<close>: token amounts of a price segment,
  step fees, the price reached by an input or an output, and the largest input that does not
  pass a price (\<open>maximum_input_budget\<close>).
\<close>

section \<open>Operations\<close>

definition amount0_delta :: "u256 \<Rightarrow> u256 \<Rightarrow> u256 \<Rightarrow> bool \<Rightarrow> u256 result" where
  "amount0_delta lower upper liquidity round_up =
    (let numerator = ucast liquidity * ucast (upper - lower) * ucast Q96;
         denominator = ucast upper * ucast lower
     in div_512 numerator denominator round_up)"

definition amount1_delta :: "u256 \<Rightarrow> u256 \<Rightarrow> u256 \<Rightarrow> bool \<Rightarrow> u256 result" where
  "amount1_delta lower upper liquidity round_up =
    (let numerator = ucast liquidity * ucast (upper - lower)
     in div_512 numerator (ucast Q96) round_up)"

definition segment_amounts :: "u256 \<Rightarrow> u256 \<Rightarrow> u256 \<Rightarrow> bool \<Rightarrow> (u256 \<times> u256) result" where
  "segment_amounts sqrt_a sqrt_b liquidity zero_for_one =
    (if sqrt_a = 0 \<or> sqrt_b = 0 then Inl (contradiction ''segment has zero price'')
     else
       let (lower, upper) = (if sqrt_a < sqrt_b then (sqrt_a, sqrt_b) else (sqrt_b, sqrt_a))
       in if zero_for_one
          then rbind (amount0_delta lower upper liquidity True) (\<lambda>amount_in.
               rbind (amount1_delta lower upper liquidity False) (\<lambda>amount_out.
               Inr (amount_in, amount_out)))
          else rbind (amount1_delta lower upper liquidity True) (\<lambda>amount_in.
               rbind (amount0_delta lower upper liquidity False) (\<lambda>amount_out.
               Inr (amount_in, amount_out))))"

text \<open>\<open>FEE_DENOMINATOR - u64::from(fee)\<close>; an underflow of a primitive integer aborts.\<close>

definition fee_complement :: "u32 \<Rightarrow> u64 result" where
  "fee_complement fee = expect (checked_sub FEE_DENOMINATOR (ucast fee)) ''attempt to subtract with overflow''"

definition fee_for_full_step :: "u256 \<Rightarrow> u32 \<Rightarrow> u256 result" where
  "fee_for_full_step amount_in fee =
    rbind (fee_complement fee) (\<lambda>complement.
    mul_div_round_up amount_in (ucast fee) (ucast complement))"

definition next_sqrt_from_output :: "u256 \<Rightarrow> u256 \<Rightarrow> u256 \<Rightarrow> bool \<Rightarrow> u256 result" where
  "next_sqrt_from_output sqrt liquidity amount zero_for_one =
    (if sqrt = 0 \<or> liquidity = 0
     then Inl (arithmetic ''next price requires positive price and liquidity'')
     else if \<not> zero_for_one \<and> amount = 0 then Inr sqrt
     else rbind
       (if zero_for_one
        then rbind (mul_div_round_up amount Q96 liquidity) (\<lambda>quotient.
             ok_or (case checked_sub sqrt quotient of
                      None \<Rightarrow> None | Some price \<Rightarrow> if price = 0 then None else Some price)
               (arithmetic ''output exhausts virtual reserves''))
        else
          let numerator = push_bit 96 liquidity
          in rbind (ok_or (case checked_mul amount sqrt of
                             None \<Rightarrow> None
                           | Some product \<Rightarrow>
                               (case checked_sub numerator product of
                                  None \<Rightarrow> None
                                | Some d \<Rightarrow> if d = 0 then None else Some d))
                      (arithmetic ''output exhausts virtual reserves'')) (\<lambda>denominator.
             mul_div_round_up numerator sqrt denominator))
       (\<lambda>next. if SLOT0_SQRT_MASK < next
               then Inl (arithmetic ''next price exceeds uint160 bounds'') else Inr next))"

definition output_is_capped ::
  "u256 \<Rightarrow> u256 \<Rightarrow> u256 \<Rightarrow> u256 \<Rightarrow> u256 \<Rightarrow> u256 \<Rightarrow> bool \<Rightarrow> bool result" where
  "output_is_capped sqrt_start sqrt_end liquidity final_output derived_output actual_output zero_for_one =
    (if actual_output = derived_output then Inr False
     else rbind (ok_or (checked_sub derived_output final_output) (arithmetic ''output path underflow''))
       (\<lambda>preceding.
        let mismatch = Inl (final_mismatch ''signed output'' derived_output actual_output)
        in case checked_sub actual_output preceding of
             None \<Rightarrow> mismatch
           | Some remaining \<Rightarrow>
               if remaining \<noteq> 0 \<and> remaining < final_output
               then rbind (next_sqrt_from_output sqrt_start liquidity remaining zero_for_one)
                      (\<lambda>price. if price = sqrt_end then Inr True else mismatch)
               else mismatch))"

definition next_sqrt_from_input :: "u256 \<Rightarrow> u256 \<Rightarrow> u256 \<Rightarrow> bool \<Rightarrow> u256 result" where
  "next_sqrt_from_input sqrt liquidity amount zero_for_one =
    (if sqrt = 0 \<or> liquidity = 0
     then Inl (arithmetic ''next price requires positive price and liquidity'')
     else if zero_for_one \<and> amount = 0 then Inr sqrt
     else rbind
       (if zero_for_one
        then
          let numerator = push_bit 96 liquidity
          in case (case checked_mul amount sqrt of
                     None \<Rightarrow> None | Some product \<Rightarrow> checked_add numerator product) of
               Some denominator \<Rightarrow> mul_div_round_up numerator sqrt denominator
             | None \<Rightarrow>
                 rbind (ok_or (checked_add (numerator div sqrt) amount)
                          (arithmetic ''next-price denominator overflow'')) (\<lambda>denominator.
                 div_512 (ucast numerator) (ucast denominator) True)
        else rbind (mul_div amount Q96 liquidity) (\<lambda>quotient.
             ok_or (checked_add sqrt quotient) (arithmetic ''next-price addition overflow'')))
       (\<lambda>next. if next = 0 \<or> SLOT0_SQRT_MASK < next
               then Inl (arithmetic ''next price exceeds uint160 bounds'') else Inr next))"

definition valid_final_step_fee ::
  "u256 \<Rightarrow> u256 \<Rightarrow> u256 \<Rightarrow> u256 \<Rightarrow> u256 \<Rightarrow> u32 \<Rightarrow> bool \<Rightarrow> bool result" where
  "valid_final_step_fee sqrt_start sqrt_end liquidity amount_in fee_amount fee zero_for_one =
    rbind (fee_for_full_step amount_in fee) (\<lambda>minimum_fee.
    if fee_amount < minimum_fee then Inr False
    else if fee_amount = minimum_fee then Inr True
    else rbind (ok_or (checked_add amount_in fee_amount) (arithmetic ''final-step input overflow'')) (\<lambda>gross.
         rbind (fee_complement fee) (\<lambda>complement.
         rbind (mul_div gross (ucast complement) (ucast FEE_DENOMINATOR)) (\<lambda>budget.
         rbind (next_sqrt_from_input sqrt_start liquidity budget zero_for_one) (\<lambda>price.
         Inr (price = sqrt_end))))))"

definition maximum_input_budget :: "u256 \<Rightarrow> u256 \<Rightarrow> u256 \<Rightarrow> bool \<Rightarrow> u256 result" where
  "maximum_input_budget sqrt_start sqrt_end liquidity zero_for_one =
    (if liquidity = 0 then Inr 0
     else rbind
       (if zero_for_one
        then rbind (ok_or (case checked_sub sqrt_end 1 of
                             None \<Rightarrow> None | Some v \<Rightarrow> if v = 0 then None else Some v)
                      (arithmetic ''input budget price underflow'')) (\<lambda>past.
             rbind (amount0_delta past sqrt_start liquidity True) (\<lambda>exact.
             let numerator = push_bit 96 liquidity
             in if sqrt_start = 0 then Inl (Panicked ''division by zero'')
                else
                  let full_math_limit = (- 1 - numerator) div sqrt_start
                  in if exact \<le> full_math_limit then Inr exact
                     else rbind (div_512 (ucast numerator) (ucast past) True) (\<lambda>quotient.
                          ok_or (checked_sub quotient (numerator div sqrt_start))
                            (arithmetic ''input budget fallback underflow''))))
        else amount1_delta sqrt_start (sqrt_end + 1) liquidity True)
       (\<lambda>first_past. ok_or (checked_sub first_past 1) (arithmetic ''input budget underflow'')))"

section \<open>Exact values\<close>

lemma uint_Q96_512: "uint (ucast Q96 :: u512) = 2 ^ 96"
  by (subst uint_ucast_up) simp

lemma uint_shift_96:
  assumes "uint (l :: u256) < 2 ^ 128"
  shows "uint (push_bit 96 l) = uint l * 2 ^ 96"
proof -
  have "uint l * 2 ^ 96 < 2 ^ 256" using assms by simp
  then show ?thesis by (simp add: push_bit_eq_mult uint_word_ariths)
qed

lemma word_le_pos:
  assumes "lower \<le> upper" "lower \<noteq> 0"
  shows "0 < uint lower" "0 < uint upper"
  using assms uint_pos_iff [of lower] by (simp_all add: word_le_def)

lemma mult_less_pow:
  fixes a b :: int
  assumes "0 \<le> a" "a < 2 ^ m" "0 \<le> b" "b < 2 ^ n"
  shows "a * b < 2 ^ (m + n)"
proof -
  have "a * b \<le> a * 2 ^ n" using assms by (intro mult_left_mono) simp_all
  also have "\<dots> < 2 ^ m * 2 ^ n" using assms by simp
  finally show ?thesis by (simp add: power_add)
qed

lemma amount0_delta_eq_Inr:
  assumes "lower \<le> upper" "uint upper < 2 ^ 160" "uint l < 2 ^ 128"
  shows "amount0_delta lower upper l up = Inr v \<longleftrightarrow>
    upper \<noteq> 0 \<and> lower \<noteq> 0
    \<and> uint v = round_div up (uint l * (uint upper - uint lower) * 2 ^ 96) (uint upper * uint lower)"
proof -
  have d: "uint (upper - lower) = uint upper - uint lower" using assms(1) by (rule uint_sub_no_wrap)
  have "uint upper - uint lower < 2 ^ 160" using assms(2) uint_ge_0 [of lower] by linarith
  then have "uint l * (uint upper - uint lower) < 2 ^ (128 + 160)"
    using assms by (intro mult_less_pow) (simp_all add: word_le_def)
  then have "uint l * (uint upper - uint lower) * 2 ^ 96 < 2 ^ 512" by simp
  moreover have x: "uint (ucast l * ucast (upper - lower) :: u512) = uint l * (uint upper - uint lower)"
    by (simp only: uint_product_512 d)
  ultimately have n: "uint (ucast l * ucast (upper - lower) * ucast Q96 :: u512)
      = uint l * (uint upper - uint lower) * 2 ^ 96"
    by (subst uint_mult_no_wrap, unfold x uint_Q96_512) simp_all
  have p: "uint (ucast upper * ucast lower :: u512) = uint upper * uint lower"
    by (rule uint_product_512)
  have "(ucast upper * ucast lower :: u512) \<noteq> 0 \<longleftrightarrow> upper \<noteq> 0 \<and> lower \<noteq> 0"
    unfolding uint_pos_iff [symmetric] p by (auto simp: zero_less_mult_iff uint_pos_iff)
  then show ?thesis
    unfolding amount0_delta_def Let_def div_512_eq_Inr n p by simp
qed

lemma amount1_delta_eq_Inr:
  assumes "lower \<le> upper"
  shows "amount1_delta lower upper l up = Inr v \<longleftrightarrow>
    uint v = round_div up (uint l * (uint upper - uint lower)) (2 ^ 96)"
proof -
  have d: "uint (upper - lower) = uint upper - uint lower" using assms(1) by (rule uint_sub_no_wrap)
  have "(ucast Q96 :: u512) \<noteq> 0" unfolding word_uint_eq_iff uint_Q96_512 by simp
  then show ?thesis
    unfolding amount1_delta_def Let_def div_512_eq_Inr uint_product_512 uint_Q96_512 d by simp
qed

lemma round_div_mono_le:
  assumes "0 < d" "n \<le> k * d"
  shows "round_div up n d \<le> k"
proof -
  have "ceil_div n d \<le> k" using assms by (simp add: ceil_div_le_iff)
  then show ?thesis using div_le_ceil_div [of n d] by (cases up) simp_all
qed

text \<open>Inside the pool's ranges an amount always exists: no branch of the arithmetic fails.\<close>

lemma amount0_delta_total:
  assumes "lower \<le> upper" "uint upper < 2 ^ 160" "uint l < 2 ^ 128" "lower \<noteq> 0"
  shows "\<exists>v. amount0_delta lower upper l up = Inr v"
proof -
  define n d where "n = uint l * (uint upper - uint lower) * 2 ^ 96" and "d = uint upper * uint lower"
  have lo: "0 < uint lower" and hi: "0 < uint upper"
    using word_le_pos [OF assms(1,4)] by simp_all
  have "uint upper * 1 \<le> uint upper * uint lower" using lo hi by (intro mult_left_mono) simp_all
  then have "uint upper - uint lower \<le> uint upper * uint lower" using lo by linarith
  then have "uint l * 2 ^ 96 * (uint upper - uint lower) \<le> uint l * 2 ^ 96 * d"
    unfolding d_def by (intro mult_left_mono) simp_all
  then have "n \<le> uint l * 2 ^ 96 * d" by (simp only: n_def mult.assoc mult.commute [of "2 ^ 96"])
  then have le: "round_div up n d \<le> uint l * 2 ^ 96"
    using lo hi by (intro round_div_mono_le) (simp_all add: d_def)
  have "0 \<le> n" using assms(1) by (simp add: n_def word_le_def)
  then have ge: "0 \<le> round_div up n d" using lo hi by (intro round_div_nonneg) (simp_all add: d_def)
  have "uint (word_of_int (round_div up n d) :: u256) = round_div up n d"
    using le ge assms(3) by (intro uint_word_of_int_id) simp_all
  moreover have "upper \<noteq> 0" using hi by auto
  ultimately show ?thesis
    using assms by (subst amount0_delta_eq_Inr) (auto simp: n_def d_def)
qed

lemma amount1_delta_total:
  assumes "lower \<le> upper" "uint upper \<le> 2 ^ 160" "uint l < 2 ^ 128"
  shows "\<exists>v. amount1_delta lower upper l up = Inr v"
proof -
  define n where "n = uint l * (uint upper - uint lower)"
  have "uint upper - uint lower \<le> 2 ^ 160" using assms(2) uint_ge_0 [of lower] by linarith
  then have "n \<le> uint l * 2 ^ 160" unfolding n_def by (intro mult_left_mono) simp_all
  then have le: "round_div up n (2 ^ 96) \<le> uint l * 2 ^ 64"
    by (intro round_div_mono_le) simp_all
  have "0 \<le> n" using assms(1) by (simp add: n_def word_le_def)
  then have ge: "0 \<le> round_div up n (2 ^ 96)" by (intro round_div_nonneg) simp_all
  have "uint (word_of_int (round_div up n (2 ^ 96)) :: u256) = round_div up n (2 ^ 96)"
    using le ge assms(3) by (intro uint_word_of_int_id) simp_all
  then show ?thesis using assms by (subst amount1_delta_eq_Inr) (auto simp: n_def)
qed

text \<open>
  The pool contract divides twice, rounding each time the same way; one division of the full
  product by the product of the divisors gives the same amount.
\<close>

lemma round_div_round_div:
  assumes "0 < d" "0 < e"
  shows "round_div up (round_div up n d) e = round_div up n (d * e)"
  using assms by (cases up) (simp_all add: ceil_ceil_div zdiv_zmult2_eq)

lemma amount0_delta_two_stage:
  assumes "lower \<le> upper" "uint upper < 2 ^ 160" "uint l < 2 ^ 128" "lower \<noteq> 0"
    and "amount0_delta lower upper l up = Inr v"
  shows "uint v = round_div up (round_div up (uint l * 2 ^ 96 * (uint upper - uint lower)) (uint upper)) (uint lower)"
proof -
  have "0 < uint lower" "0 < uint upper"
    using word_le_pos [OF assms(1,4)] by simp_all
  then show ?thesis using assms
    by (simp add: round_div_round_div amount0_delta_eq_Inr mult.assoc mult.commute mult.left_commute)
qed

section \<open>The price an input reaches\<close>

lemma fee_complement_eq_Inr: "fee_complement fee = Inr c \<longleftrightarrow> uint c = 1000000 - uint fee"
proof -
  have "uint (ucast fee :: u64) = uint fee"
    by (intro uint_ucast_down) (rule order_less_trans [OF uint_lt_exp], simp)
  then show ?thesis by (simp add: fee_complement_def checked_sub_eq_Some FEE_DENOMINATOR_def)
qed

lemma next_sqrt_from_input_zfo:
  assumes "uint l < 2 ^ 128" "a \<noteq> 0" "next_sqrt_from_input s l a True = Inr p"
  defines "N \<equiv> uint l * 2 ^ 96"
  shows "0 < uint s" "0 < N"
    "uint p = (if uint a \<le> (2 ^ 256 - 1 - N) div uint s then ceil_div (N * uint s) (N + uint a * uint s)
               else ceil_div N (N div uint s + uint a))"
proof -
  have s: "s \<noteq> 0" "l \<noteq> 0" using assms(3) by (auto simp: next_sqrt_from_input_def split: if_splits)
  then show s0: "0 < uint s" and N0: "0 < N" by (simp_all add: uint_pos_iff N_def)
  have num: "uint (push_bit 96 l) = N" unfolding N_def using assms(1) by (rule uint_shift_96)
  have reg: "uint a \<le> (2 ^ 256 - 1 - N) div uint s \<longleftrightarrow> N + uint a * uint s < 2 ^ 256"
    using s0 by (subst le_div_iff) auto
  define den where "den = (case checked_mul a s of None \<Rightarrow> None | Some pr \<Rightarrow> checked_add (push_bit 96 l) pr)"
  have den: "den = (if N + uint a * uint s < 2 ^ 256 then Some (push_bit 96 l + a * s) else None)"
  proof (cases "uint a * uint s < 2 ^ 256")
    case True
    then show ?thesis by (simp add: den_def checked_mul_def checked_add_def num uint_mult_no_wrap)
  next
    case False
    then show ?thesis using N0 by (simp add: den_def checked_mul_def)
  qed
  show "uint p = (if uint a \<le> (2 ^ 256 - 1 - N) div uint s then ceil_div (N * uint s) (N + uint a * uint s)
               else ceil_div N (N div uint s + uint a))"
  proof (cases "N + uint a * uint s < 2 ^ 256")
    case True
    then have sum: "uint (push_bit 96 l + a * s) = N + uint a * uint s"
      using N0 by (simp add: uint_add_no_wrap uint_mult_no_wrap num)
    have "mul_div_round_up (push_bit 96 l) s (push_bit 96 l + a * s) = Inr p"
      using assms(2,3) s den True unfolding next_sqrt_from_input_def den_def [symmetric] Let_def
      by (auto split: if_splits)
    then show ?thesis using True unfolding reg by (simp add: mul_div_round_up_eq_Inr num sum)
  next
    case False
    then obtain d where "checked_add (push_bit 96 l div s) a = Some d"
      "div_512 (ucast (push_bit 96 l)) (ucast d) True = Inr p"
      using assms(2,3) s den unfolding next_sqrt_from_input_def den_def [symmetric] Let_def
      by (auto split: if_splits)
    then show ?thesis
      using False unfolding reg by (simp add: div_512_eq_Inr checked_add_eq_Some num uint_div)
  qed
qed

lemma next_sqrt_from_input_ozf:
  assumes "next_sqrt_from_input s l a False = Inr p"
  shows "0 < uint s" "0 < uint l" "uint p = uint s + uint a * 2 ^ 96 div uint l"
  using assms
  by (auto simp: next_sqrt_from_input_def mul_div_eq_Inr checked_add_eq_Some uint_pos_iff split: if_splits)

lemma next_sqrt_from_input_zero: "next_sqrt_from_input s l 0 True = Inr p \<Longrightarrow> p = s"
  by (auto simp: next_sqrt_from_input_def split: if_splits)

text \<open>An input moves the price in its own direction only.\<close>

lemma next_sqrt_from_input_direction:
  assumes "uint l < 2 ^ 128" "next_sqrt_from_input s l a zfo = Inr p"
  shows "if zfo then p \<le> s else s \<le> p"
proof (cases zfo)
  case False
  then show ?thesis
    using next_sqrt_from_input_ozf [of s l a p] assms by (simp add: word_le_def pos_imp_zdiv_nonneg_iff)
next
  case zfo: True
  show ?thesis
  proof (cases "a = 0")
    case True
    then show ?thesis using zfo assms next_sqrt_from_input_zero by auto
  next
    case False
    define N where "N = uint l * 2 ^ 96"
    note f = next_sqrt_from_input_zfo [OF assms(1) False, of s p, folded N_def] assms(2) zfo
    have s0: "0 < uint s" and N0: "0 < N" using f by simp_all
    have "1 \<le> uint a" using False uint_pos_iff [of a] by simp
    have "ceil_div (N * uint s) (N + uint a * uint s) \<le> uint s"
    proof (subst ceil_div_le_iff)
      show "0 < N + uint a * uint s" using s0 N0 by (simp add: add_pos_nonneg)
      have "uint s * N \<le> uint s * (N + uint a * uint s)" using s0 by (intro mult_left_mono) simp_all
      then show "N * uint s \<le> uint s * (N + uint a * uint s)" by (simp only: mult.commute)
    qed
    moreover have "ceil_div N (N div uint s + uint a) \<le> uint s"
    proof (subst ceil_div_le_iff)
      show "0 < N div uint s + uint a"
        using s0 N0 \<open>1 \<le> uint a\<close> by (simp add: add_nonneg_pos pos_imp_zdiv_nonneg_iff)
      have "N < (N div uint s + 1) * uint s" using s0 div_less_iff [of "uint s" N "N div uint s + 1"] by simp
      also have "\<dots> \<le> (N div uint s + uint a) * uint s" using \<open>1 \<le> uint a\<close> s0 by (intro mult_right_mono) simp_all
      finally show "N \<le> uint s * (N div uint s + uint a)" by (simp only: mult.commute less_imp_le)
    qed
    ultimately show ?thesis using f by (simp add: word_le_def split: if_splits)
  qed
qed

section \<open>The largest input that does not pass a price\<close>

lemma budget_regular:
  fixes N s e b :: int
  assumes "0 < N" "0 < s" "0 < e" "0 \<le> b"
  shows "e < ceil_div (N * s) (N + b * s) \<longleftrightarrow> b < ceil_div (N * (s - e)) (s * e)"
proof -
  have "0 < N + b * s" using assms by (simp add: add_pos_nonneg)
  then have "e < ceil_div (N * s) (N + b * s) \<longleftrightarrow> e * (N + b * s) < N * s"
    by (rule less_ceil_div_iff)
  also have "\<dots> \<longleftrightarrow> b * (s * e) < N * (s - e)" by (simp add: algebra_simps)
  also have "\<dots> \<longleftrightarrow> b < ceil_div (N * (s - e)) (s * e)"
    using assms by (subst less_ceil_div_iff) simp_all
  finally show ?thesis .
qed

lemma budget_fallback:
  fixes N q e b :: int
  assumes "0 < e" "0 < q + b"
  shows "e < ceil_div N (q + b) \<longleftrightarrow> b < ceil_div N e - q"
proof -
  have "e < ceil_div N (q + b) \<longleftrightarrow> (q + b) * e < N"
    using assms by (subst less_ceil_div_iff) (simp_all add: mult.commute)
  also have "\<dots> \<longleftrightarrow> q + b < ceil_div N e" using assms by (subst less_ceil_div_iff) simp_all
  finally show ?thesis by auto
qed

text \<open>The fallback's edge is the exact edge or the integer after it.\<close>

lemma budget_edges:
  fixes N s e :: int
  assumes "0 < s" "0 < e"
  defines "exact \<equiv> ceil_div (N * (s - e)) (s * e)" and "fallback \<equiv> ceil_div N e - N div s"
  shows "exact \<le> fallback" "fallback \<le> exact + 1"
proof -
  define C q where "C = ceil_div N e" and "q = N div s"
  have C: "N \<le> C * e" "(C - 1) * e < N"
    using assms(2) ceil_div_le_iff [of e N C] less_ceil_div_iff [of e "C - 1" N] by (simp_all add: C_def)
  have q: "q * s \<le> N" "N < (q + 1) * s"
    using assms(1) le_div_iff [of s q N] div_less_iff [of s N "q + 1"] by (simp_all add: q_def)
  have f: "fallback * (s * e) = C * e * s - q * s * e"
    by (simp add: fallback_def C_def [symmetric] q_def [symmetric] algebra_simps)
  have se: "0 < s * e" using assms by simp
  have "N * s \<le> C * e * s" "q * s * e \<le> N * e" using C(1) q(1) assms by (simp_all add: mult_right_mono)
  then have "N * (s - e) \<le> fallback * (s * e)" unfolding f right_diff_distrib by linarith
  then show "exact \<le> fallback" using se by (simp add: exact_def ceil_div_le_iff)
  have "C * e < N + e" "N - s < q * s" using C(2) q(2) by (simp_all add: algebra_simps)
  then have "C * e * s < (N + e) * s" "(N - s) * e < q * s * e"
    using assms(1,2) by (simp_all only: mult_strict_right_mono)
  then have "fallback * (s * e) < (N + e) * s - (N - s) * e" unfolding f by linarith
  then have "(fallback - 2) * (s * e) < N * (s - e)" by (simp add: algebra_simps)
  then have "fallback - 2 < exact" using se by (simp add: exact_def less_ceil_div_iff)
  then show "fallback \<le> exact + 1" by simp
qed

lemma uint_minus_1_minus:
  assumes "uint (n :: u256) = N"
  shows "uint (- 1 - n) = 2 ^ 256 - 1 - N"
proof -
  have "uint (- 1 - n) = uint (- 1 :: u256) - uint n" by (rule uint_sub_no_wrap) simp
  then show ?thesis using assms by (simp add: unsigned_minus_1_eq_mask mask_eq_exp_minus_1)
qed

lemma maximum_input_budget_zfo:
  assumes "l \<noteq> 0" "uint l < 2 ^ 128" "uint start < 2 ^ 160" "e \<le> start" "1 < uint e"
  defines "N \<equiv> uint l * 2 ^ 96" and "s \<equiv> uint start" and "p \<equiv> uint e - 1"
  defines "exact \<equiv> ceil_div (N * (s - p)) (s * p)"
  shows "\<exists>m. maximum_input_budget start e l True = Inr m
    \<and> uint m = (if exact \<le> (2 ^ 256 - 1 - N) div s then exact else ceil_div N p - N div s) - 1"
proof -
  define past where "past = e - 1"
  have past: "uint past = p" using assms(5) by (simp add: past_def p_def uint_sub_no_wrap word_le_def)
  have pos: "0 < p" "0 < s" "p < s" "0 < N"
    using assms(1,4,5) uint_pos_iff [of l] by (simp_all add: p_def s_def N_def word_le_def)
  have num: "uint (push_bit 96 l) = N" unfolding N_def using assms(2) by (rule uint_shift_96)
  have pst: "past \<le> start" "past \<noteq> 0" "start \<noteq> 0"
    using pos past by (auto simp: word_le_def s_def)
  obtain x where x: "amount0_delta past start l True = Inr x"
    using amount0_delta_total [OF pst(1) assms(3,2) pst(2)] by blast
  have ux: "uint x = exact"
  proof -
    have eq: "uint l * (s - p) * 2 ^ 96 = N * (s - p)" by (simp only: N_def mult.assoc mult.commute [of "2 ^ 96"])
    from x show ?thesis
      unfolding amount0_delta_eq_Inr [OF pst(1) assms(3,2)] past s_def [symmetric] eq exact_def by simp
  qed
  have x0: "0 < exact" unfolding exact_def using pos by (intro ceil_div_pos) simp_all
  define lim where "lim = (- 1 - push_bit 96 l) div start"
  have lim: "uint lim = (2 ^ 256 - 1 - N) div s"
    by (simp add: lim_def uint_div uint_minus_1_minus [OF num] s_def)
  have sub: "checked_sub e 1 = Some past" using assms(5) by (simp add: checked_sub_def past_def word_le_def)
  note run = maximum_input_budget_def sub x Let_def lim_def [symmetric]
  show ?thesis
  proof (cases "exact \<le> (2 ^ 256 - 1 - N) div s")
    case True
    then have "maximum_input_budget start e l True = ok_or (checked_sub x 1) (arithmetic ''input budget underflow'')"
      using assms(1) pst by (simp add: run word_le_def ux lim)
    moreover have "checked_sub x 1 = Some (x - 1)" "uint (x - 1) = exact - 1"
      using x0 ux by (simp_all add: checked_sub_def word_le_def uint_sub_no_wrap)
    ultimately show ?thesis using True by simp
  next
    case False
    define C where "C = ceil_div N p"
    have "C \<le> N" unfolding C_def using pos by (simp add: ceil_div_le_iff)
    then have "uint (word_of_int C :: u256) = C"
      using pos assms(2) round_div_nonneg [of p N True]
      by (intro uint_word_of_int_id) (simp_all add: C_def N_def)
    then obtain c where c: "div_512 (ucast (push_bit 96 l)) (ucast past) True = Inr c" "uint c = C"
      using pos past by (auto simp: div_512_eq_Inr num C_def word_uint_eq_iff [of "ucast past"])
    define f where "f = C - N div s"
    have ge: "exact \<le> f" using budget_edges(1) [of s p N] pos by (simp add: exact_def f_def C_def)
    have q: "uint (push_bit 96 l div start) = N div s" by (simp add: uint_div num s_def)
    define d where "d = c - push_bit 96 l div start"
    have d: "checked_sub c (push_bit 96 l div start) = Some d" "uint d = f"
      using ge x0 q c(2) by (simp_all add: checked_sub_def d_def word_le_def uint_sub_no_wrap f_def)
    have "maximum_input_budget start e l True = ok_or (checked_sub d 1) (arithmetic ''input budget underflow'')"
      using assms(1) pst False c(1) d(1) by (simp add: run word_le_def ux lim)
    moreover have "checked_sub d 1 = Some (d - 1)" "uint (d - 1) = f - 1"
      using x0 ge d(2) by (simp_all add: checked_sub_def word_le_def uint_sub_no_wrap)
    ultimately show ?thesis using False by (simp add: f_def C_def)
  qed
qed

lemma maximum_input_budget_ozf:
  assumes "l \<noteq> 0" "uint l < 2 ^ 128" "uint e < 2 ^ 160" "start \<le> e"
  shows "\<exists>m. maximum_input_budget start e l False = Inr m
    \<and> uint m = ceil_div (uint l * (uint e + 1 - uint start)) (2 ^ 96) - 1"
proof -
  have e: "uint (e + 1) = uint e + 1" using assms(3) by (intro trans [OF uint_add_no_wrap]) simp_all
  have le: "start \<le> e + 1" "uint (e + 1) \<le> 2 ^ 160" using assms e by (simp_all add: word_le_def)
  obtain x where x: "amount1_delta start (e + 1) l True = Inr x"
    using amount1_delta_total [OF le assms(2)] by blast
  then have ux: "uint x = ceil_div (uint l * (uint e + 1 - uint start)) (2 ^ 96)"
    by (simp add: amount1_delta_eq_Inr [OF le(1)] e)
  have "0 < uint x" unfolding ux
    using assms by (intro ceil_div_pos) (simp_all add: word_le_def uint_pos_iff)
  then have "checked_sub x 1 = Some (x - 1)" "uint (x - 1) = uint x - 1"
    by (simp_all add: checked_sub_def word_le_def uint_sub_no_wrap)
  then show ?thesis using assms(1) x ux by (simp add: maximum_input_budget_def)
qed

text \<open>
  The budget is exact: an input whose price the pool can compute stops at or before the
  endpoint if and only if it is at most the budget, the overflow fallback included.
\<close>

lemma maximum_input_budget_exact:
  assumes "uint l < 2 ^ 128" "uint start < 2 ^ 160" "uint e < 2 ^ 160"
    and "if zfo then e \<le> start \<and> 1 < uint e else start \<le> e"
    and next_: "next_sqrt_from_input start l b zfo = Inr p"
  shows "\<exists>m. maximum_input_budget start e l zfo = Inr m \<and> ((if zfo then e \<le> p else p \<le> e) \<longleftrightarrow> b \<le> m)"
proof (cases zfo)
  case False
  have l: "l \<noteq> 0" using next_ by (auto simp: next_sqrt_from_input_def split: if_splits)
  obtain m where m: "maximum_input_budget start e l False = Inr m"
    "uint m = ceil_div (uint l * (uint e + 1 - uint start)) (2 ^ 96) - 1"
    using maximum_input_budget_ozf [OF l assms(1,3)] assms(4) False by auto
  have p: "uint p = uint start + uint b * 2 ^ 96 div uint l" "0 < uint l"
    using next_sqrt_from_input_ozf [of start l b p] next_ False by simp_all
  have "p \<le> e \<longleftrightarrow> uint b * 2 ^ 96 div uint l < uint e + 1 - uint start" by (auto simp: word_le_def p(1))
  also have "\<dots> \<longleftrightarrow> uint b * 2 ^ 96 < uint l * (uint e + 1 - uint start)"
    using p(2) by (subst div_less_iff) (simp_all add: mult.commute)
  also have "\<dots> \<longleftrightarrow> uint b < uint m + 1" unfolding m(2) by (simp add: less_ceil_div_iff)
  also have "\<dots> \<longleftrightarrow> b \<le> m" by (auto simp: word_le_def)
  finally show ?thesis using m(1) False by simp
next
  case True
  define N s q where "N = uint l * 2 ^ 96" and "s = uint start" and "q = uint e - 1"
  define exact where "exact = ceil_div (N * (s - q)) (s * q)"
  define lim where "lim = (2 ^ 256 - 1 - N) div s"
  have l: "l \<noteq> 0" using next_ by (auto simp: next_sqrt_from_input_def split: if_splits)
  have pos: "0 < N" "0 < q" "0 < s" "q < s"
    using l assms(4) True uint_pos_iff [of l] by (simp_all add: N_def q_def s_def word_le_def)
  obtain m where m: "maximum_input_budget start e l True = Inr m"
    "uint m = (if exact \<le> lim then exact else ceil_div N q - N div s) - 1"
    using maximum_input_budget_zfo [OF l assms(1,2), of e] assms(4) True
    unfolding N_def s_def q_def exact_def lim_def by metis
  note edges = budget_edges [OF pos(3,2), of N, folded exact_def]
  have "e \<le> p \<longleftrightarrow> q < uint p" by (auto simp: word_le_def q_def)
  also have "\<dots> \<longleftrightarrow> uint b \<le> uint m"
  proof (cases "b = 0")
    case b0: True
    then have "p = start" using next_ True next_sqrt_from_input_zero by simp
    then show ?thesis using pos b0 by (simp add: s_def)
  next
    case False
    have p: "uint p = (if uint b \<le> lim then ceil_div (N * s) (N + uint b * s) else ceil_div N (N div s + uint b))"
      using next_sqrt_from_input_zfo(3) [OF assms(1) False] next_ True by (simp add: N_def s_def lim_def)
    have "0 \<le> N div s" using pos by (simp add: pos_imp_zdiv_nonneg_iff)
    moreover have "0 < uint b" using False by (simp add: uint_pos_iff)
    ultimately have "0 < N div s + uint b" by simp
    then have fb: "q < ceil_div N (N div s + uint b) \<longleftrightarrow> uint b < ceil_div N q - N div s"
      by (intro budget_fallback pos)
    have rg: "q < ceil_div (N * s) (N + uint b * s) \<longleftrightarrow> uint b < exact"
      unfolding exact_def by (intro budget_regular pos) simp
    show ?thesis unfolding p m(2) using fb rg edges by (auto split: if_splits)
  qed
  finally show ?thesis using m(1) True by (simp add: word_le_def)
qed

section \<open>Outputs and final-step fees\<close>

text \<open>
  The path's output is the event's output, or exceeds it inside the last step only, where the
  requested output rounds to the same final price.
\<close>

lemma output_is_capped_okD:
  assumes "output_is_capped start e l final derived actual zfo = Inr capped"
  shows "\<not> capped \<Longrightarrow> actual = derived"
    and "capped \<Longrightarrow> uint derived - uint final < uint actual \<and> uint actual < uint derived
      \<and> next_sqrt_from_output start l (actual - (derived - final)) zfo = Inr e"
proof -
  show "actual = derived" if "\<not> capped"
    using assms that by (auto simp: output_is_capped_def Let_def split: if_splits option.splits)
  assume capped
  with assms obtain pre rem where *: "checked_sub derived final = Some pre" "checked_sub actual pre = Some rem"
    "rem \<noteq> 0" "rem < final" "next_sqrt_from_output start l rem zfo = Inr e"
    by (auto simp: output_is_capped_def Let_def split: if_splits option.splits)
  then have "pre = derived - final" "rem = actual - pre" by (auto simp: checked_sub_def split: if_splits)
  then have "rem = actual - (derived - final)" by simp
  moreover have "0 < uint rem" using *(3) by (simp add: uint_pos_iff)
  ultimately show "uint derived - uint final < uint actual \<and> uint actual < uint derived
      \<and> next_sqrt_from_output start l (actual - (derived - final)) zfo = Inr e"
    using * by (simp add: checked_sub_eq_Some word_less_def)
qed

lemma fee_for_full_step_eq_Inr:
  "fee_for_full_step a fee = Inr v \<longleftrightarrow>
    uint fee < 1000000 \<and> uint v = ceil_div (uint a * uint fee) (1000000 - uint fee)"
proof -
  have f: "uint (ucast fee :: u256) = uint fee"
    by (intro uint_ucast_down) (rule order_less_trans [OF uint_lt_exp], simp)
  have c: "uint (ucast c :: u256) = uint c" for c :: u64
    by (intro uint_ucast_down) (rule order_less_trans [OF uint_lt_exp], simp)
  have "fee_for_full_step a fee = Inr v \<longleftrightarrow>
      (\<exists>c :: u64. uint c = 1000000 - uint fee \<and> uint c \<noteq> 0 \<and> uint v = ceil_div (uint a * uint fee) (uint c))"
    unfolding fee_for_full_step_def rbind_eq_Inr fee_complement_eq_Inr mul_div_round_up_eq_Inr
      word_uint_eq_iff [of "ucast _ :: u256"] c f by simp
  also have "\<dots> \<longleftrightarrow> uint fee < 1000000 \<and> uint v = ceil_div (uint a * uint fee) (1000000 - uint fee)"
  proof
    assume "\<exists>c :: u64. uint c = 1000000 - uint fee \<and> uint c \<noteq> 0 \<and> uint v = ceil_div (uint a * uint fee) (uint c)"
    then obtain c :: u64 where "uint c = 1000000 - uint fee" "uint c \<noteq> 0"
      "uint v = ceil_div (uint a * uint fee) (uint c)" by blast
    then show "uint fee < 1000000 \<and> uint v = ceil_div (uint a * uint fee) (1000000 - uint fee)"
      using uint_ge_0 [of c] by auto
  next
    assume h: "uint fee < 1000000 \<and> uint v = ceil_div (uint a * uint fee) (1000000 - uint fee)"
    then have "uint (word_of_int (1000000 - uint fee) :: u64) = 1000000 - uint fee"
      by (intro uint_word_of_int_id) (simp, rule order_le_less_trans [of _ 1000000], simp_all)
    with h show "\<exists>c :: u64. uint c = 1000000 - uint fee \<and> uint c \<noteq> 0
        \<and> uint v = ceil_div (uint a * uint fee) (uint c)" by (intro exI [of _ "word_of_int (1000000 - uint fee)"]) simp
  qed
  finally show ?thesis .
qed

lemma valid_final_step_fee_minimum:
  assumes "valid_final_step_fee start e l a fee_amount fee zfo = Inr True"
  shows "\<exists>m. fee_for_full_step a fee = Inr m \<and> m \<le> fee_amount"
  using assms by (auto simp: valid_final_step_fee_def not_less split: if_splits)

section \<open>No aborts\<close>

lemma no_panic_amounts [no_panic_intros, simp]:
  "no_panic (amount0_delta lower upper l up)" "no_panic (amount1_delta lower upper l up)"
  by (simp_all add: amount0_delta_def amount1_delta_def Let_def)

lemma no_panic_segment_amounts [no_panic_intros, simp]: "no_panic (segment_amounts a b l zfo)"
  by (auto simp: segment_amounts_def Let_def intro!: no_panic_intros)

lemma no_panic_fee_complement [no_panic_intros]: "uint fee \<le> 1000000 \<Longrightarrow> no_panic (fee_complement fee)"
  using uint_ge_0 [of fee]
  by (cases "fee_complement fee")
    (auto simp: fee_complement_def expect_def checked_sub_def word_le_def FEE_DENOMINATOR_def
      uint_ucast_down order_less_trans [OF uint_lt_exp])

lemma no_panic_fee_for_full_step [no_panic_intros]:
  "uint fee \<le> 1000000 \<Longrightarrow> no_panic (fee_for_full_step a fee)"
  unfolding fee_for_full_step_def by (intro no_panic_intros)

lemma no_panic_next_sqrt [no_panic_intros, simp]:
  "no_panic (next_sqrt_from_output s l a zfo)" "no_panic (next_sqrt_from_input s l a zfo)"
  unfolding next_sqrt_from_output_def next_sqrt_from_input_def Let_def
  by (intro no_panic_intros)+

lemma no_panic_output_is_capped [no_panic_intros, simp]:
  "no_panic (output_is_capped start e l final derived actual zfo)"
  unfolding output_is_capped_def Let_def by (intro no_panic_intros)

lemma no_panic_valid_final_step_fee [no_panic_intros]:
  "uint fee \<le> 1000000 \<Longrightarrow> no_panic (valid_final_step_fee start e l a f fee zfo)"
  unfolding valid_final_step_fee_def by (intro no_panic_intros)

lemma no_panic_maximum_input_budget [no_panic_intros, simp]:
  "no_panic (maximum_input_budget start e l zfo)"
proof -
  have "start \<noteq> 0" if "amount0_delta past start l True = Inr x" for past x
    using that by (auto simp: amount0_delta_def Let_def div_512_eq_Inr)
  then show ?thesis
    unfolding maximum_input_budget_def Let_def by (intro no_panic_intros) simp_all
qed

end
