(* ===== verification/Fee_Lanes.thy ===== *)
theory Fee_Lanes
  imports Pool_Words
begin

text \<open>
  The two 128-bit accumulators packed into one storage word: canonical protocol fees and
  Slipstream gauge fees keep token0 in the low half and token1 in the high half. The updates
  are inlined in the swap and flash transitions of \<open>src/adapters/v3_transition.rs\<close>; here they
  are named, and the contract of such an accumulator is a locale that both halves satisfy.
\<close>

definition add_token0 :: "u256 \<Rightarrow> u256 \<Rightarrow> u256" where
  "add_token0 word fee =
    (let token0 = ((word AND WORD_128_MASK) + (fee AND WORD_128_MASK)) AND WORD_128_MASK
     in (word AND push_bit 128 WORD_128_MASK) OR token0)"

definition add_token1 :: "u256 \<Rightarrow> u256 \<Rightarrow> u256" where
  "add_token1 word fee =
    (let token1 = ((drop_bit 128 word AND WORD_128_MASK) + (fee AND WORD_128_MASK)) AND WORD_128_MASK
     in (word AND WORD_128_MASK) OR push_bit 128 token1)"

definition lane0 :: "u256 \<Rightarrow> int" where
  "lane0 w = uint (field 0 128 w)"

definition lane1 :: "u256 \<Rightarrow> int" where
  "lane1 w = uint (field 128 128 w)"

text \<open>An accumulator that wraps at 128 bits and leaves its neighbour alone.\<close>

locale fee_accumulator =
  fixes own other :: "u256 \<Rightarrow> int" and accrue :: "u256 \<Rightarrow> u256 \<Rightarrow> u256"
  assumes own_accrue: "own (accrue w f) = (own w + uint f) mod 2 ^ 128"
    and other_accrue: "other (accrue w f) = other w"
    and own_range: "0 \<le> own w" "own w < 2 ^ 128"
begin

lemma own_foldl: "own (foldl accrue w fs) = (own w + (\<Sum>f\<leftarrow>fs. uint f)) mod 2 ^ 128"
proof (induction fs arbitrary: w)
  case Nil
  then show ?case using own_range by simp
next
  case (Cons f fs)
  have "own (foldl accrue w (f # fs)) = ((own w + uint f) mod 2 ^ 128 + (\<Sum>f\<leftarrow>fs. uint f)) mod 2 ^ 128"
    by (simp add: Cons.IH own_accrue)
  also have "\<dots> = (own w + uint f + (\<Sum>f\<leftarrow>fs. uint f)) mod 2 ^ 128" by (rule mod_add_left_eq)
  finally show ?case by (simp add: add.assoc)
qed

lemma other_foldl: "other (foldl accrue w fs) = other w"
  by (induction fs arbitrary: w) (simp_all add: other_accrue)

text \<open>Without overflow the accumulator grows by exactly the accrued amount.\<close>

lemma own_exact: "own w + uint f < 2 ^ 128 \<Longrightarrow> own (accrue w f) = own w + uint f"
  using own_range [of w] by (simp add: own_accrue)

lemma own_zero: "own (accrue w 0) = own w"
  using own_range [of w] by (simp add: own_accrue)

end

lemma uint_lane_sum: "uint ((a AND mask 128) + (b AND mask 128) AND mask 128 :: u256) = (uint a + uint b) mod 2 ^ 128"
proof -
  have "uint ((a AND mask 128) + (b AND mask 128) AND mask 128 :: u256)
      = (uint a mod 2 ^ 128 + uint b mod 2 ^ 128) mod 2 ^ 256 mod 2 ^ 128"
    by (simp only: uint_and_mask uint_word_ariths len_num1 len_bit0) simp
  also have "\<dots> = (uint a mod 2 ^ 128 + uint b mod 2 ^ 128) mod 2 ^ 128" by (simp add: mod_mod_cancel)
  finally show ?thesis by (simp add: mod_add_eq)
qed

interpretation token0: fee_accumulator lane0 lane1 add_token0
proof
  fix w f
  define t :: u256 where "t = ((w AND mask 128) + (f AND mask 128)) AND mask 128"
  have t: "take_bit 128 t = t" by (simp add: t_def flip: take_bit_eq_mask)
  have add: "add_token0 w f = (w AND push_bit 128 (mask 128)) OR t"
    by (simp add: add_token0_def packed_simps t_def)
  show "lane0 (add_token0 w f) = (lane0 w + uint f) mod 2 ^ 128"
  proof -
    have "lane0 (add_token0 w f) = uint t"
      by (simp add: lane0_def add field_and_push_mask_other field_low [OF t])
    also have "\<dots> = (uint w + uint f) mod 2 ^ 128" unfolding t_def by (rule uint_lane_sum)
    also have "\<dots> = (lane0 w + uint f) mod 2 ^ 128"
      by (simp add: lane0_def uint_field mod_add_left_eq)
    finally show ?thesis .
  qed
  show "lane1 (add_token0 w f) = lane1 w"
    by (simp add: lane1_def add field_and_push_mask field_low_above [OF t])
  show "0 \<le> lane0 w" "lane0 w < 2 ^ 128" using uint_field_less [of 0 128 w] by (simp_all add: lane0_def)
qed

interpretation token1: fee_accumulator lane1 lane0 add_token1
proof
  fix w f
  define t :: u256 where "t = ((drop_bit 128 w AND mask 128) + (f AND mask 128)) AND mask 128"
  have t: "take_bit 128 t = t" by (simp add: t_def flip: take_bit_eq_mask)
  have low: "field off 128 (w AND mask 128) = (if off = 0 then field 0 128 w else 0)" if "off \<in> {0, 128}" for off
    using that field_and_push_mask [of 0 128 w] field_and_push_mask_other [of 128 128 0 128 w] by auto
  have add: "add_token1 w f = (w AND mask 128) OR push_bit 128 t"
    by (simp add: add_token1_def packed_simps t_def)
  show "lane1 (add_token1 w f) = (lane1 w + uint f) mod 2 ^ 128"
  proof -
    have "lane1 (add_token1 w f) = uint t"
      by (simp add: lane1_def add low field_push_same t)
    also have "\<dots> = (uint (drop_bit 128 w) + uint f) mod 2 ^ 128" unfolding t_def by (rule uint_lane_sum)
    also have "\<dots> = (lane1 w + uint f) mod 2 ^ 128"
      using uint_field [of 0 128 "drop_bit 128 w"] by (simp add: lane1_def mod_add_left_eq)
    finally show ?thesis .
  qed
  show "lane0 (add_token1 w f) = lane0 w"
    by (simp add: lane0_def add low field_push_below)
  show "0 \<le> lane1 w" "lane1 w < 2 ^ 128" using uint_field_less [of 128 128 w] by (simp_all add: lane1_def)
qed

text \<open>The two halves determine the word.\<close>

lemma lanes_eqI:
  assumes "lane0 v = lane0 w" "lane1 v = lane1 w"
  shows "v = w"
proof (rule bit_word_eqI)
  have fields: "field 0 128 v = field 0 128 w" "field 128 128 v = field 128 128 w"
    using assms by (simp_all only: lane0_def lane1_def word_uint_eq_iff)
  fix i
  assume "i < LENGTH(256)"
  then consider "i < 128" | "128 \<le> i" "i < 256" by fastforce
  then show "bit v i = bit w i"
  proof cases
    case 1
    then show ?thesis using fields(1) bit_via_field [of 0 i 128 v] bit_via_field [of 0 i 128 w]
      by (simp add: lane0_def)
  next
    case 2
    then show ?thesis using fields(2) bit_via_field [of 128 i 128 v] bit_via_field [of 128 i 128 w]
      by (simp add: lane1_def)
  qed
qed

end
