(* ===== verification/V3_Swap.thy ===== *)
theory V3_Swap
  imports Tick_Bitmap Sqrt_Price Fee_Lanes
begin

text \<open>
  \<open>derive_uniswap_v3_swap\<close> of \<open>src/adapters/v3_transition.rs\<close>: from a decoded Swap event and the
  parent state, the complete batch of storage writes of a canonical Uniswap V3 swap, or the
  reason why the event and the parent state contradict each other.

  The function is split along its phases, in the order of the code: event checks, parent
  words, direction, oracle, the zero-distance boundary step, the price walk (a loop of at
  most 4096 steps), the checks of the walk's end, input and output totals, the fee-only step,
  the fee allocation loop and the update batch.
\<close>

section \<open>Events, segments and the walk\<close>

record decoded_swap =
  sw_amount0_negative :: bool
  sw_amount0 :: u256
  sw_amount1_negative :: bool
  sw_amount1 :: u256
  sw_sqrt_price_x96 :: u256
  sw_liquidity :: u256
  sw_tick :: i32

record segment =
  seg_sqrt_start :: u256
  seg_sqrt_end :: u256
  seg_liquidity :: u256
  seg_amount_in :: u256
  seg_amount_out :: u256
  seg_reached_boundary :: bool
  seg_crossed_tick :: "nat option"

text \<open>The mutable locals of the walk.\<close>

record walk =
  wk_ticks :: "initialized_tick list"
  wk_segments :: "segment list"
  wk_sqrt :: u256
  wk_tick :: i32
  wk_liquidity :: u256
  wk_steps :: u32

record swap_parent =
  sp_slot0 :: slot0_word
  sp_liquidity :: u256
  sp_fee_growth_0 :: u256
  sp_fee_growth_1 :: u256
  sp_protocol_fees :: u256

section \<open>Checks, parent words, direction and oracle\<close>

definition validate_swap_event :: "v3_storage_layout \<Rightarrow> u32 \<Rightarrow> decoded_swap \<Rightarrow> unit result" where
  "validate_swap_event layout fee swap =
    (if layout \<noteq> layout_uniswap (tick_spacing layout)
     then Inl (contradiction ''exact Uniswap V3 transition requires the canonical storage layout'')
     else if ucast FEE_DENOMINATOR \<le> fee then Inl (contradiction ''invalid Uniswap V3 fee'')
     else if tick_spacing layout \<le> 0
     then Inl (contradiction ''Uniswap V3 tick spacing must be positive'')
     else if SLOT0_SQRT_MASK < sw_sqrt_price_x96 swap \<or> WORD_128_MASK < sw_liquidity swap
     then Inl (MalformedLog ''V3 Swap final value exceeds its ABI width'')
     else Inr ())"

definition load_swap_parent :: "address \<Rightarrow> v3_storage_layout \<Rightarrow> state_view \<Rightarrow> swap_parent result" where
  "load_swap_parent addr layout state =
    rbind (required state addr (slot0_slot layout)) (\<lambda>slot0_raw.
    let slot0 = slot0_decode slot0_raw
    in if (ucast (drop_bit 240 (s0_raw slot0) AND ucast (- 1 :: u8)) :: u8) \<noteq> 1
       then Inl (contradiction ''parent slot0 is locked'')
       else rbind (validate_parent_slot0 slot0) (\<lambda>_.
            rbind (required state addr (liquidity_slot layout)) (\<lambda>start_liquidity.
            if WORD_128_MASK < start_liquidity
            then Inl (contradiction ''parent V3 liquidity exceeds uint128'')
            else rbind (required state addr (fee_growth_0_slot UNISWAP_V3_SURFACE)) (\<lambda>fee_growth_0.
                 rbind (required state addr (fee_growth_1_slot UNISWAP_V3_SURFACE)) (\<lambda>fee_growth_1.
                 rbind (required state addr (protocol_fees_slot UNISWAP_V3_SURFACE)) (\<lambda>protocol_fees.
                 Inr \<lparr>sp_slot0 = slot0, sp_liquidity = start_liquidity, sp_fee_growth_0 = fee_growth_0,
                      sp_fee_growth_1 = fee_growth_1, sp_protocol_fees = protocol_fees\<rparr>))))))"

definition swap_signs :: "decoded_swap \<Rightarrow> bool result" where
  "swap_signs swap =
    (case (sw_amount0_negative swap, sw_amount1_negative swap, sw_amount0 swap = 0, sw_amount1 swap = 0) of
       (False, True, False, False) \<Rightarrow> Inr True
     | (True, False, False, False) \<Rightarrow> Inr False
     | (False, False, False, True) \<Rightarrow> Inr True
     | (False, False, True, False) \<Rightarrow> Inr False
     | _ \<Rightarrow> Inl (contradiction ''swap must contain one positive input and one negative output''))"

definition unchanged_tiny_swap :: "decoded_swap \<Rightarrow> slot0_word \<Rightarrow> bool \<Rightarrow> bool" where
  "unchanged_tiny_swap swap slot0 zero_for_one \<longleftrightarrow>
    (if zero_for_one then sw_amount1 swap else sw_amount0 swap) = 0
    \<and> sw_sqrt_price_x96 swap = s0_sqrt_price_x96 slot0"

definition swap_direction :: "decoded_swap \<Rightarrow> slot0_word \<Rightarrow> bool result" where
  "swap_direction swap slot0 =
    rbind (swap_signs swap) (\<lambda>zero_for_one.
    if \<not> unchanged_tiny_swap swap slot0 zero_for_one
       \<and> (zero_for_one \<and> s0_sqrt_price_x96 slot0 \<le> sw_sqrt_price_x96 swap
          \<or> \<not> zero_for_one \<and> sw_sqrt_price_x96 swap \<le> s0_sqrt_price_x96 slot0)
    then Inl (contradiction ''swap direction contradicts its final price'')
    else rbind (validate_final_tick (sw_sqrt_price_x96 swap) (sw_tick swap) zero_for_one) (\<lambda>_.
         Inr zero_for_one))"

definition swap_oracle ::
  "address \<Rightarrow> swap_parent \<Rightarrow> decoded_swap \<Rightarrow> adapter_event_context \<Rightarrow> state_view \<Rightarrow> oracle_advance result" where
  "swap_oracle addr parent swap ctx state =
    (let slot0 = sp_slot0 parent
     in if s0_tick slot0 \<noteq> sw_tick swap
        then advance_oracle addr UNISWAP_V3_SURFACE slot0 (sp_liquidity parent) ctx state
        else rbind (event_timestamp ctx) (\<lambda>timestamp.
             Inr (s0_observation_index slot0, s0_observation_cardinality slot0, None,
                  \<lparr>obs_timestamp = timestamp, obs_tick_cumulative = 0,
                   obs_seconds_per_liquidity_cumulative_x128 = 0, obs_initialized = True\<rparr>)))"

section \<open>The price walk\<close>

definition walk_start :: "swap_parent \<Rightarrow> walk" where
  "walk_start parent = \<lparr>wk_ticks = [], wk_segments = [], wk_sqrt = s0_sqrt_price_x96 (sp_slot0 parent),
     wk_tick = s0_tick (sp_slot0 parent), wk_liquidity = sp_liquidity parent, wk_steps = 0\<rparr>"

text \<open>Load a crossed tick and remember its position in \<open>ticks\<close>.\<close>

definition cross_boundary ::
  "keccak \<Rightarrow> address \<Rightarrow> v3_storage_layout \<Rightarrow> state_view \<Rightarrow> i32 \<Rightarrow> bool \<Rightarrow> initialized_tick list
    \<Rightarrow> (initialized_tick list \<times> nat option) result" where
  "cross_boundary keccak256 addr layout state tick crosses ticks =
    (if crosses
     then rbind (load_initialized_tick keccak256 addr layout tick state) (\<lambda>initialized.
          Inr (ticks @ [initialized], Some (length ticks)))
     else Inr (ticks, None))"

definition crossed_liquidity ::
  "initialized_tick list \<Rightarrow> nat option \<Rightarrow> u256 \<Rightarrow> bool \<Rightarrow> u256 result" where
  "crossed_liquidity ticks crossed_tick liquidity zero_for_one =
    (case crossed_tick of
       None \<Rightarrow> Inr liquidity
     | Some index \<Rightarrow>
         if index < length ticks
         then apply_liquidity_net liquidity (it_liquidity_net (ticks ! index)) zero_for_one
         else Inl (Panicked ''index out of bounds''))"

definition zero_distance_step ::
  "keccak \<Rightarrow> address \<Rightarrow> v3_storage_layout \<Rightarrow> decoded_swap \<Rightarrow> bool \<Rightarrow> state_view \<Rightarrow> walk \<Rightarrow> walk result" where
  "zero_distance_step keccak256 addr layout swap zero_for_one state wk =
    (if zero_for_one \<and> wk_sqrt wk = sw_sqrt_price_x96 swap
     then rbind (next_step_boundary keccak256 addr layout (wk_tick wk) True state) (\<lambda>boundary.
          rbind (sqrt_ratio_at_tick (sb_tick boundary)) (\<lambda>boundary_sqrt.
          if boundary_sqrt = wk_sqrt wk
          then rbind (consume_step (wk_steps wk)) (\<lambda>steps.
               rbind (cross_boundary keccak256 addr layout state (sb_tick boundary)
                        (sb_initialized boundary) (wk_ticks wk)) (\<lambda>(ticks, crossed_tick).
               rbind (crossed_liquidity ticks crossed_tick (wk_liquidity wk) True) (\<lambda>liquidity.
               Inr (wk\<lparr>wk_ticks := ticks,
                       wk_segments := wk_segments wk @
                         [\<lparr>seg_sqrt_start = wk_sqrt wk, seg_sqrt_end = wk_sqrt wk,
                           seg_liquidity = wk_liquidity wk, seg_amount_in = 0, seg_amount_out = 0,
                           seg_reached_boundary = True, seg_crossed_tick = crossed_tick\<rparr>],
                       wk_tick := sb_tick boundary - 1, wk_liquidity := liquidity,
                       wk_steps := steps\<rparr>))))
          else Inr wk))
     else Inr wk)"

definition walk_step ::
  "keccak \<Rightarrow> address \<Rightarrow> v3_storage_layout \<Rightarrow> decoded_swap \<Rightarrow> bool \<Rightarrow> state_view \<Rightarrow> walk \<Rightarrow> walk result" where
  "walk_step keccak256 addr layout swap zero_for_one state wk =
    rbind (consume_step (wk_steps wk)) (\<lambda>steps.
    rbind (next_step_boundary keccak256 addr layout (wk_tick wk) zero_for_one state) (\<lambda>boundary.
    rbind (sqrt_ratio_at_tick (sb_tick boundary)) (\<lambda>boundary_sqrt.
    let target = (if zero_for_one then max boundary_sqrt (sw_sqrt_price_x96 swap)
                  else min boundary_sqrt (sw_sqrt_price_x96 swap));
        reached_boundary = (target = boundary_sqrt)
    in rbind (segment_amounts (wk_sqrt wk) target (wk_liquidity wk) zero_for_one)
         (\<lambda>(amount_in, amount_out).
       rbind (cross_boundary keccak256 addr layout state (sb_tick boundary)
                (reached_boundary \<and> sb_initialized boundary) (wk_ticks wk)) (\<lambda>(ticks, crossed_tick).
       rbind (if reached_boundary
              then crossed_liquidity ticks crossed_tick (wk_liquidity wk) zero_for_one
              else Inr (wk_liquidity wk)) (\<lambda>liquidity.
       Inr \<lparr>wk_ticks = ticks,
            wk_segments = wk_segments wk @
              [\<lparr>seg_sqrt_start = wk_sqrt wk, seg_sqrt_end = target, seg_liquidity = wk_liquidity wk,
                seg_amount_in = amount_in, seg_amount_out = amount_out,
                seg_reached_boundary = reached_boundary, seg_crossed_tick = crossed_tick\<rparr>],
            wk_sqrt = target,
            wk_tick = (if reached_boundary
                       then if zero_for_one then sb_tick boundary - 1 else sb_tick boundary
                       else sw_tick swap),
            wk_liquidity = liquidity, wk_steps = steps\<rparr>))))))"

lemma walk_step_steps:
  assumes "walk_step keccak256 addr layout swap zfo state wk = Inr wk'"
  shows "uint (wk_steps wk) < 4096" "uint (wk_steps wk') = uint (wk_steps wk) + 1"
  using assms by (auto simp: walk_step_def Let_def consume_step_eq_Inr)

function walk_loop ::
  "keccak \<Rightarrow> address \<Rightarrow> v3_storage_layout \<Rightarrow> decoded_swap \<Rightarrow> bool \<Rightarrow> state_view \<Rightarrow> walk \<Rightarrow> walk result" where
  "walk_loop keccak256 addr layout swap zero_for_one state wk =
    (if wk_sqrt wk = sw_sqrt_price_x96 swap then Inr wk
     else rbind (walk_step keccak256 addr layout swap zero_for_one state wk) (\<lambda>wk'.
          walk_loop keccak256 addr layout swap zero_for_one state wk'))"
  by pat_completeness auto

termination
  by (relation "measure (\<lambda>(_, _, _, _, _, _, wk). nat (4096 - uint (wk_steps wk)))")
    (auto dest: walk_step_steps)

declare walk_loop.simps [simp del]

definition still_segment :: "walk \<Rightarrow> segment" where
  "still_segment wk = \<lparr>seg_sqrt_start = wk_sqrt wk, seg_sqrt_end = wk_sqrt wk,
     seg_liquidity = wk_liquidity wk, seg_amount_in = 0, seg_amount_out = 0,
     seg_reached_boundary = False, seg_crossed_tick = None\<rparr>"

definition finish_walk :: "decoded_swap \<Rightarrow> bool \<Rightarrow> walk \<Rightarrow> walk result" where
  "finish_walk swap tiny wk =
    rbind (if wk_segments wk = []
           then if tiny then Inr (wk\<lparr>wk_segments := [still_segment wk]\<rparr>)
                else Inl (contradiction ''swap did not move the square-root price'')
           else Inr wk) (\<lambda>wk.
    if wk_liquidity wk \<noteq> sw_liquidity swap
    then Inl (final_mismatch ''liquidity'' (wk_liquidity wk) (sw_liquidity swap))
    else if wk_tick wk \<noteq> sw_tick swap
    then Inl (final_mismatch ''tick'' (tick_bits (wk_tick wk)) (tick_bits (sw_tick swap)))
    else Inr wk)"

section \<open>Totals and the fee-only step\<close>

definition swap_actual_input :: "decoded_swap \<Rightarrow> bool \<Rightarrow> u256" where
  "swap_actual_input swap zero_for_one = (if zero_for_one then sw_amount0 swap else sw_amount1 swap)"

definition swap_actual_output :: "decoded_swap \<Rightarrow> bool \<Rightarrow> u256" where
  "swap_actual_output swap zero_for_one = (if zero_for_one then sw_amount1 swap else sw_amount0 swap)"

definition full_step_fees :: "segment list \<Rightarrow> u32 \<Rightarrow> u256 result" where
  "full_step_fees segments fee =
    rbind (rmap (\<lambda>segment. fee_for_full_step (seg_amount_in segment) fee) segments) checked_sum"

text \<open>The fee the path leaves, and whether the last step's output was capped.\<close>

definition swap_totals :: "segment list \<Rightarrow> decoded_swap \<Rightarrow> bool \<Rightarrow> u32 \<Rightarrow> (u256 \<times> bool) result" where
  "swap_totals segments swap zero_for_one fee =
    (let actual_input = swap_actual_input swap zero_for_one;
         actual_output = swap_actual_output swap zero_for_one
     in rbind (checked_sum (map seg_amount_in segments)) (\<lambda>principal_input.
        rbind (checked_sum (map seg_amount_out segments)) (\<lambda>derived_output.
        rbind (expect (if segments = [] then None else Some (last segments)) ''validated nonempty path'')
          (\<lambda>last'.
        rbind (output_is_capped (seg_sqrt_start last') (seg_sqrt_end last') (seg_liquidity last')
                 (seg_amount_out last') derived_output actual_output zero_for_one) (\<lambda>capped_output.
        rbind (ok_or (checked_sub actual_input principal_input)
                 (final_mismatch ''signed input principal'' principal_input actual_input)) (\<lambda>total_fee.
        rbind (if capped_output
               then rbind (full_step_fees segments fee) (\<lambda>fees.
                    if total_fee \<noteq> fees
                    then Inl (contradiction ''capped output requires exact-output fee accounting'')
                    else Inr ())
               else Inr ()) (\<lambda>_.
        Inr (total_fee, capped_output))))))))"

definition fee_only_step ::
  "walk \<Rightarrow> u256 \<Rightarrow> bool \<Rightarrow> u32 \<Rightarrow> bool \<Rightarrow> segment list result" where
  "fee_only_step wk total_fee capped_output fee zero_for_one =
    (let segments = wk_segments wk
     in if \<not> capped_output \<and> segments \<noteq> [] \<and> seg_reached_boundary (last segments)
        then rbind (full_step_fees segments fee) (\<lambda>full_step_fees.
             case checked_sub total_fee full_step_fees of
               None \<Rightarrow> Inr segments
             | Some residual \<Rightarrow>
                 if residual \<noteq> 0
                 then rbind (valid_final_step_fee (wk_sqrt wk) (wk_sqrt wk) (wk_liquidity wk) 0 residual
                               fee zero_for_one) (\<lambda>valid.
                      Inr (if valid then segments @ [still_segment wk] else segments))
                 else Inr segments)
        else Inr segments)"

section \<open>Fee allocation\<close>

record fee_state =
  fs_remaining :: u256
  fs_fee_growth_0 :: u256
  fs_fee_growth_1 :: u256
  fs_protocol_fees :: u256
  fs_ticks :: "initialized_tick list"
  fs_updates :: "state_update list"

record fee_env =
  fe_address :: address
  fe_fee :: u32
  fe_zero_for_one :: bool
  fe_protocol_divisor :: u8
  fe_now :: observation
  fe_timestamp :: u32

definition segment_fee :: "fee_env \<Rightarrow> segment \<Rightarrow> bool \<Rightarrow> u256 \<Rightarrow> u256 result" where
  "segment_fee env segment is_partial_final remaining_fee =
    (if is_partial_final
     then rbind (valid_final_step_fee (seg_sqrt_start segment) (seg_sqrt_end segment)
                   (seg_liquidity segment) (seg_amount_in segment) remaining_fee (fe_fee env)
                   (fe_zero_for_one env)) (\<lambda>valid.
          if \<not> valid
          then Inl (contradiction ''final-step fee does not match exact-input or exact-output semantics'')
          else Inr remaining_fee)
     else fee_for_full_step (seg_amount_in segment) (fe_fee env))"

definition fee_split :: "fee_env \<Rightarrow> u256 \<Rightarrow> u256 \<Rightarrow> (u256 \<times> u256) result" where
  "fee_split env fee_amount liquidity =
    (let protocol_fee = (if fe_protocol_divisor env = 0 then 0
                         else fee_amount div ucast (fe_protocol_divisor env));
         lp_fee = fee_amount - protocol_fee
     in rbind (if liquidity = 0
               then if lp_fee \<noteq> 0
                    then Inl (contradiction ''a zero-liquidity step cannot accrue an LP fee'')
                    else Inr 0
               else mul_div lp_fee Q128 liquidity) (\<lambda>growth.
        Inr (protocol_fee, growth)))"

definition slot_writes :: "address \<Rightarrow> u256 list \<Rightarrow> u256 list \<Rightarrow> state_update list" where
  "slot_writes addr keys words = map (\<lambda>(slot, value). Slot addr slot value) (zip keys words)"

definition cross_tick :: "fee_env \<Rightarrow> u256 \<Rightarrow> u256 \<Rightarrow> initialized_tick \<Rightarrow> initialized_tick" where
  "cross_tick env fee_growth_0 fee_growth_1 it =
    (let w = it_words it
     in it\<lparr>it_words := w[1 := fee_growth_0 - w ! 1, 2 := fee_growth_1 - w ! 2,
             3 := cross_tick_word (w ! 3) (obs_tick_cumulative (fe_now env))
                    (obs_seconds_per_liquidity_cumulative_x128 (fe_now env)) (fe_timestamp env)]\<rparr>)"

definition fee_step :: "fee_env \<Rightarrow> segment \<Rightarrow> bool \<Rightarrow> fee_state \<Rightarrow> fee_state result" where
  "fee_step env segment is_last fs =
    rbind (segment_fee env segment (is_last \<and> \<not> seg_reached_boundary segment) (fs_remaining fs))
      (\<lambda>fee_amount.
    rbind (ok_or (checked_sub (fs_remaining fs) fee_amount)
             (contradiction ''fee allocation contradicts event input'')) (\<lambda>remaining_fee.
    rbind (fee_split env fee_amount (seg_liquidity segment)) (\<lambda>(protocol_fee, growth).
    let fee_growth_0 = (if fe_zero_for_one env then fs_fee_growth_0 fs + growth else fs_fee_growth_0 fs);
        fee_growth_1 = (if fe_zero_for_one env then fs_fee_growth_1 fs else fs_fee_growth_1 fs + growth);
        protocol_fees = (if fe_zero_for_one env then add_token0 (fs_protocol_fees fs) protocol_fee
                         else add_token1 (fs_protocol_fees fs) protocol_fee);
        fs' = fs\<lparr>fs_remaining := remaining_fee, fs_fee_growth_0 := fee_growth_0,
                 fs_fee_growth_1 := fee_growth_1, fs_protocol_fees := protocol_fees\<rparr>
    in case seg_crossed_tick segment of
         None \<Rightarrow> Inr fs'
       | Some i \<Rightarrow>
           if i < length (fs_ticks fs)
           then let it = cross_tick env fee_growth_0 fee_growth_1 (fs_ticks fs ! i)
                in Inr (fs'\<lparr>fs_ticks := (fs_ticks fs)[i := it],
                           fs_updates := fs_updates fs @ slot_writes (fe_address env) (it_keys it) (it_words it)\<rparr>)
           else Inl (Panicked ''index out of bounds''))))"

fun fee_loop :: "fee_env \<Rightarrow> segment list \<Rightarrow> fee_state \<Rightarrow> fee_state result" where
  "fee_loop env [] fs = Inr fs"
| "fee_loop env (segment # segments) fs =
    rbind (fee_step env segment (segments = []) fs) (\<lambda>fs'. fee_loop env segments fs')"

section \<open>The transition\<close>

definition swap_updates ::
  "address \<Rightarrow> v3_storage_layout \<Rightarrow> decoded_swap \<Rightarrow> slot0_word \<Rightarrow> oracle_advance \<Rightarrow> u256 \<Rightarrow> fee_state
    \<Rightarrow> state_update list" where
  "swap_updates addr layout swap slot0 adv liquidity fs =
    (case adv of (oracle_index, oracle_cardinality, oracle_write, _) \<Rightarrow>
       [Slot addr (slot0_slot layout)
          (encode_final slot0 (sw_sqrt_price_x96 swap) (sw_tick swap) oracle_index oracle_cardinality),
        Slot addr (fee_growth_0_slot UNISWAP_V3_SURFACE) (fs_fee_growth_0 fs),
        Slot addr (fee_growth_1_slot UNISWAP_V3_SURFACE) (fs_fee_growth_1 fs),
        Slot addr (protocol_fees_slot UNISWAP_V3_SURFACE) (fs_protocol_fees fs),
        Slot addr (liquidity_slot layout) liquidity]
       @ (case oracle_write of None \<Rightarrow> [] | Some (slot, value) \<Rightarrow> [Slot addr slot value])
       @ fs_updates fs)"

definition allocate_fees ::
  "address \<Rightarrow> swap_parent \<Rightarrow> u32 \<Rightarrow> bool \<Rightarrow> observation \<Rightarrow> u32 \<Rightarrow> initialized_tick list \<Rightarrow> segment list
    \<Rightarrow> u256 \<Rightarrow> fee_state result" where
  "allocate_fees addr parent fee zero_for_one oracle_now timestamp ticks segments total_fee =
    (let fee_protocol = s0_fee_protocol (sp_slot0 parent);
         env = \<lparr>fe_address = addr, fe_fee = fee, fe_zero_for_one = zero_for_one,
                fe_protocol_divisor = (if zero_for_one then fee_protocol AND 0x0f else drop_bit 4 fee_protocol),
                fe_now = oracle_now, fe_timestamp = timestamp\<rparr>
     in rbind (fee_loop env segments
            \<lparr>fs_remaining = total_fee, fs_fee_growth_0 = sp_fee_growth_0 parent,
             fs_fee_growth_1 = sp_fee_growth_1 parent, fs_protocol_fees = sp_protocol_fees parent,
             fs_ticks = ticks, fs_updates = []\<rparr>) (\<lambda>fs.
        if fs_remaining fs \<noteq> 0
        then Inl (contradiction ''fee allocation left an unexplained remainder'')
        else Inr fs))"

definition derive_uniswap_v3_swap ::
  "keccak \<Rightarrow> address \<Rightarrow> v3_storage_layout \<Rightarrow> u32 \<Rightarrow> decoded_swap \<Rightarrow> adapter_event_context \<Rightarrow> state_view
    \<Rightarrow> state_update list result" where
  "derive_uniswap_v3_swap keccak256 addr layout fee swap ctx state =
    rbind (validate_context ctx) (\<lambda>_.
    rbind (validate_swap_event layout fee swap) (\<lambda>_.
    rbind (load_swap_parent addr layout state) (\<lambda>parent.
    rbind (swap_direction swap (sp_slot0 parent)) (\<lambda>zero_for_one.
    rbind (swap_oracle addr parent swap ctx state) (\<lambda>adv.
    rbind (zero_distance_step keccak256 addr layout swap zero_for_one state (walk_start parent)) (\<lambda>wk.
    rbind (walk_loop keccak256 addr layout swap zero_for_one state wk) (\<lambda>wk.
    rbind (finish_walk swap (unchanged_tiny_swap swap (sp_slot0 parent) zero_for_one) wk) (\<lambda>wk.
    rbind (swap_totals (wk_segments wk) swap zero_for_one fee) (\<lambda>(total_fee, capped_output).
    rbind (fee_only_step wk total_fee capped_output fee zero_for_one) (\<lambda>segments.
    rbind (event_timestamp ctx) (\<lambda>timestamp.
    rbind (allocate_fees addr parent fee zero_for_one (snd (snd (snd adv))) timestamp (wk_ticks wk)
             segments total_fee) (\<lambda>fs.
    Inr (swap_updates addr layout swap (sp_slot0 parent) adv (wk_liquidity wk) fs)))))))))))))"

section \<open>Partial views\<close>

lemma fail_closed_cross_boundary [fail_closed_intros]:
  "fail_closed (\<lambda>s. cross_boundary keccak256 addr layout s tick crosses ticks)"
  unfolding cross_boundary_def by (intro fail_closed_intros)

lemma fail_closed_walk_steps [fail_closed_intros]:
  "fail_closed (\<lambda>s. zero_distance_step keccak256 addr layout swap zfo s wk)"
  "fail_closed (\<lambda>s. walk_step keccak256 addr layout swap zfo s wk)"
  unfolding zero_distance_step_def walk_step_def Let_def
  by (intro fail_closed_intros)+

lemma walk_loop_warm:
  "view_le s t \<Longrightarrow> walk_loop keccak256 addr layout swap zfo s wk = Inr r
    \<Longrightarrow> walk_loop keccak256 addr layout swap zfo t wk = Inr r"
proof (induction keccak256 addr layout swap zfo s wk rule: walk_loop.induct)
  case (1 keccak256 addr layout swap zfo s wk)
  show ?case
  proof (cases "wk_sqrt wk = sw_sqrt_price_x96 swap")
    case True
    then show ?thesis using 1 by (simp add: walk_loop.simps)
  next
    case False
    with "1.prems"(2) obtain wk' where step: "walk_step keccak256 addr layout swap zfo s wk = Inr wk'"
      and rest: "walk_loop keccak256 addr layout swap zfo s wk' = Inr r"
      by (subst (asm) walk_loop.simps) auto
    from fail_closed_walk_steps(2) "1.prems"(1) step
    have "walk_step keccak256 addr layout swap zfo t wk = Inr wk'" by (rule fail_closedD)
    moreover from "1.IH" [OF False step "1.prems"(1) rest]
    have "walk_loop keccak256 addr layout swap zfo t wk' = Inr r" .
    ultimately show ?thesis using False by (subst walk_loop.simps) simp
  qed
qed

lemma fail_closed_walk_loop [fail_closed_intros]:
  "fail_closed (\<lambda>s. walk_loop keccak256 addr layout swap zfo s wk)"
  by (rule fail_closedI) (rule walk_loop_warm)

lemma fail_closed_swap_parts [fail_closed_intros]:
  "fail_closed (\<lambda>s. load_swap_parent addr layout s)"
  "fail_closed (\<lambda>s. swap_oracle addr parent swap ctx s)"
  unfolding load_swap_parent_def swap_oracle_def Let_def by (intro fail_closed_intros)+

interpretation uniswap_swap: exact_transition "derive_uniswap_v3_swap keccak256 addr layout fee swap ctx"
  for keccak256 addr layout fee swap ctx
  unfolding derive_uniswap_v3_swap_def by unfold_locales (intro fail_closed_intros)

section \<open>What the event checks guarantee\<close>

lemma validate_swap_event_okD:
  assumes "validate_swap_event layout fee swap = Inr u"
  shows "layout = layout_uniswap (tick_spacing layout)" "uint fee < 1000000" "0 < tick_spacing layout"
    "uint (sw_sqrt_price_x96 swap) < 2 ^ 160" "uint (sw_liquidity swap) < 2 ^ 128"
  using assms
  by (auto simp: validate_swap_event_def FEE_DENOMINATOR_def word_le_def [of _ fee] not_less
      le_WORD_128_MASK_iff le_SLOT0_SQRT_MASK_iff split: if_splits)

lemma load_swap_parent_okD:
  assumes "load_swap_parent addr layout state = Inr parent"
  shows "\<exists>raw. state addr (slot0_slot layout) = Some raw \<and> sp_slot0 parent = slot0_decode raw
      \<and> field 240 8 raw = 1"
    "validate_parent_slot0 (sp_slot0 parent) = Inr ()"
    "state addr (liquidity_slot layout) = Some (sp_liquidity parent)" "uint (sp_liquidity parent) < 2 ^ 128"
    "state addr 1 = Some (sp_fee_growth_0 parent)" "state addr 2 = Some (sp_fee_growth_1 parent)"
    "state addr 3 = Some (sp_protocol_fees parent)"
proof -
  obtain raw where raw: "state addr (slot0_slot layout) = Some raw" "sp_slot0 parent = slot0_decode raw"
    "(ucast (field 240 8 raw) :: u8) = 1" "validate_parent_slot0 (sp_slot0 parent) = Inr ()"
    "state addr (liquidity_slot layout) = Some (sp_liquidity parent)" "sp_liquidity parent \<le> WORD_128_MASK"
    "state addr 1 = Some (sp_fee_growth_0 parent)" "state addr 2 = Some (sp_fee_growth_1 parent)"
    "state addr 3 = Some (sp_protocol_fees parent)"
    using assms
    by (auto simp: load_swap_parent_def Let_def UNISWAP_V3_SURFACE_def from_limbs_def not_less
        slot0_decode_fields ucast_minus_1 drop_and_mask_field split: if_splits)
  have "uint (ucast (field 240 8 raw) :: u8) = uint (field 240 8 raw)"
    using uint_field_less [of 240 8 raw] by (intro uint_ucast_down) simp
  then have "field 240 8 raw = 1" using raw(3) by (simp add: word_uint_eq_iff)
  then show "\<exists>raw. state addr (slot0_slot layout) = Some raw \<and> sp_slot0 parent = slot0_decode raw
      \<and> field 240 8 raw = 1" using raw by blast
  show "uint (sp_liquidity parent) < 2 ^ 128" using raw(6) by (simp only: le_WORD_128_MASK_iff)
qed (use assms in \<open>auto simp: load_swap_parent_def Let_def UNISWAP_V3_SURFACE_def from_limbs_def split: if_splits\<close>)

lemma swap_direction_okD:
  assumes "swap_direction swap slot0 = Inr zfo"
  shows "swap_signs swap = Inr zfo" "validate_final_tick (sw_sqrt_price_x96 swap) (sw_tick swap) zfo = Inr ()"
    "zfo \<Longrightarrow> sw_sqrt_price_x96 swap \<le> s0_sqrt_price_x96 slot0"
    "\<not> zfo \<Longrightarrow> s0_sqrt_price_x96 slot0 \<le> sw_sqrt_price_x96 swap"
  using assms
  by (auto simp: swap_direction_def unchanged_tiny_swap_def not_le split: if_splits)

section \<open>No aborts before the fee allocation\<close>

lemma no_panic_swap_checks [no_panic_intros, simp]:
  "no_panic (validate_swap_event layout fee swap)" "no_panic (load_swap_parent addr layout state)"
  "no_panic (swap_direction swap slot0)"
  unfolding validate_swap_event_def load_swap_parent_def swap_direction_def swap_signs_def Let_def
  by (intro no_panic_intros; auto split: bool.split prod.split)+

lemma no_panic_swap_oracle [no_panic_intros]:
  "validate_context ctx = Inr u \<Longrightarrow> no_panic (swap_oracle addr parent swap ctx state)"
  unfolding swap_oracle_def Let_def by (intro no_panic_intros)

lemma cross_boundary_crossed:
  "cross_boundary keccak256 addr layout state tick crosses ticks = Inr (ticks', c)
    \<Longrightarrow> no_panic (crossed_liquidity ticks' c l zfo)"
  by (auto simp: cross_boundary_def crossed_liquidity_def split: if_splits intro!: no_panic_intros)

lemma no_panic_cross_boundary [no_panic_intros, simp]:
  "no_panic (cross_boundary keccak256 addr layout state tick crosses ticks)"
  unfolding cross_boundary_def by (intro no_panic_intros)

end
