(* ===== verification/V3_Swap_Path.thy ===== *)
theory V3_Swap_Path
  imports V3_Swap
begin

text \<open>
  What the walk of a canonical swap computes: a contiguous path of price segments from the
  parent price to the event price, each with the amounts and the liquidity the pool has
  there, monotone in the direction of the swap, of at most 4097 segments, and free of aborts.
\<close>

section \<open>Paths\<close>

definition moves :: "bool \<Rightarrow> u256 \<Rightarrow> u256 \<Rightarrow> bool" where
  "moves zfo p q \<longleftrightarrow> (if zfo then q \<le> p else p \<le> q)"

text \<open>
  \<open>path zfo ticks p l segs p' l'\<close>: the segments lead from price \<open>p\<close> and liquidity \<open>l\<close> to \<open>p'\<close> and
  \<open>l'\<close>, each one starting where the last ended, with the amounts of its price interval, and
  with the liquidity changed by the net amount of the tick crossed at its end.
\<close>

fun path :: "bool \<Rightarrow> initialized_tick list \<Rightarrow> u256 \<Rightarrow> u256 \<Rightarrow> segment list \<Rightarrow> u256 \<Rightarrow> u256 \<Rightarrow> bool" where
  "path zfo ticks p l [] p' l' \<longleftrightarrow> p = p' \<and> l = l'"
| "path zfo ticks p l (s # segs) p' l' \<longleftrightarrow>
    seg_sqrt_start s = p \<and> seg_liquidity s = l \<and> moves zfo p (seg_sqrt_end s)
    \<and> segment_amounts p (seg_sqrt_end s) l zfo = Inr (seg_amount_in s, seg_amount_out s)
    \<and> (\<exists>l1. crossed_liquidity ticks (seg_crossed_tick s) l zfo = Inr l1
        \<and> path zfo ticks (seg_sqrt_end s) l1 segs p' l')"

lemma path_append:
  "path zfo ticks p l (xs @ ys) p' l' \<longleftrightarrow>
    (\<exists>q m. path zfo ticks p l xs q m \<and> path zfo ticks q m ys p' l')"
  by (induction xs arbitrary: p l) auto

lemma crossed_liquidity_more:
  "crossed_liquidity ticks c l zfo = Inr r \<Longrightarrow> crossed_liquidity (ticks @ extra) c l zfo = Inr r"
  by (auto simp: crossed_liquidity_def nth_append split: option.splits if_splits)

lemma path_more_ticks:
  "path zfo ticks p l segs p' l' \<Longrightarrow> path zfo (ticks @ extra) p l segs p' l'"
proof (induction segs arbitrary: p l)
  case (Cons s segs)
  then show ?case using crossed_liquidity_more by fastforce
qed simp

lemma segment_amounts_still:
  assumes "p \<noteq> 0" "uint p < 2 ^ 160" "uint l < 2 ^ 128"
  shows "segment_amounts p p l zfo = Inr (0, 0)"
proof -
  have "amount0_delta p p l up = Inr 0" for up
    using assms by (simp add: amount0_delta_eq_Inr)
  moreover have "amount1_delta p p l up = Inr 0" for up
    by (simp add: amount1_delta_eq_Inr)
  ultimately show ?thesis using assms(1) by (simp add: segment_amounts_def Let_def)
qed

section \<open>The walk's invariant\<close>

definition price_in_tick :: "u256 \<Rightarrow> i32 \<Rightarrow> bool" where
  "price_in_tick p t \<longleftrightarrow>
    (\<exists>lower upper. sqrt_ratio_at_tick t = Inr lower \<and> sqrt_ratio_at_tick (t + 1) = Inr upper
      \<and> lower \<le> p \<and> p \<le> upper)"

lemma price_in_tick_bounds:
  assumes "price_in_tick p t"
  shows "p \<noteq> 0" "uint p < 2 ^ 160" "- 887272 \<le> t" "t < 887272"
proof -
  obtain lo hi where *: "sqrt_ratio_at_tick t = Inr lo" "sqrt_ratio_at_tick (t + 1) = Inr hi" "lo \<le> p" "p \<le> hi"
    using assms by (auto simp: price_in_tick_def)
  show "p \<noteq> 0" using sqrt_ratio_at_tick_bounds(4) [OF *(1)] *(3) by auto
  show "uint p < 2 ^ 160" using sqrt_ratio_at_tick_bounds(3) [OF *(2)] *(4) by (simp add: word_le_def)
  show "- 887272 \<le> t" "t < 887272"
    using sqrt_ratio_at_tick_okD(1) [OF *(1)] sqrt_ratio_at_tick_okD(2) [OF *(2)] by simp_all
qed

lemma price_at_boundary:
  assumes "sqrt_ratio_at_tick t = Inr p"
  shows "- 887272 < t \<Longrightarrow> price_in_tick p (t - 1)" "t < 887272 \<Longrightarrow> price_in_tick p t"
proof -
  note b = sqrt_ratio_at_tick_okD(1,2) [OF assms]
  show "price_in_tick p (t - 1)" if t: "- 887272 < t"
  proof -
    obtain lo where lo: "sqrt_ratio_at_tick (t - 1) = Inr lo"
      using sqrt_ratio_at_tick_total [of "t - 1"] t b by force
    then show ?thesis using sqrt_ratio_at_tick_mono [OF lo assms] assms by (auto simp: price_in_tick_def)
  qed
  show "price_in_tick p t" if t: "t < 887272"
  proof -
    obtain hi where hi: "sqrt_ratio_at_tick (t + 1) = Inr hi"
      using sqrt_ratio_at_tick_total [of "t + 1"] t b by force
    then show ?thesis using sqrt_ratio_at_tick_mono [OF assms hi] assms by (auto simp: price_in_tick_def)
  qed
qed

definition loaded_ticks ::
  "keccak \<Rightarrow> address \<Rightarrow> v3_storage_layout \<Rightarrow> state_view \<Rightarrow> initialized_tick list \<Rightarrow> bool" where
  "loaded_ticks keccak256 addr layout state ticks \<longleftrightarrow>
    (\<forall>it \<in> set ticks. \<exists>t. load_initialized_tick keccak256 addr layout t state = Inr it)"

definition walk_inv ::
  "keccak \<Rightarrow> address \<Rightarrow> v3_storage_layout \<Rightarrow> state_view \<Rightarrow> decoded_swap \<Rightarrow> bool \<Rightarrow> u256 \<Rightarrow> u256 \<Rightarrow> walk \<Rightarrow> bool" where
  "walk_inv keccak256 addr layout state swap zfo p l wk \<longleftrightarrow>
    path zfo (wk_ticks wk) p l (wk_segments wk) (wk_sqrt wk) (wk_liquidity wk)
    \<and> price_in_tick (wk_sqrt wk) (wk_tick wk) \<and> moves zfo (wk_sqrt wk) (sw_sqrt_price_x96 swap)
    \<and> uint (wk_liquidity wk) < 2 ^ 128 \<and> int (length (wk_segments wk)) = uint (wk_steps wk)
    \<and> uint (wk_steps wk) \<le> 4096
    \<and> loaded_ticks keccak256 addr layout state (wk_ticks wk)"

lemma apply_liquidity_net_range: "apply_liquidity_net l net zfo = Inr r \<Longrightarrow> uint r < 2 ^ 128"
  by (auto simp: apply_liquidity_net_def not_less le_WORD_128_MASK_iff split: if_splits)

lemma crossed_liquidity_range:
  "crossed_liquidity ticks c l zfo = Inr r \<Longrightarrow> uint l < 2 ^ 128 \<Longrightarrow> uint r < 2 ^ 128"
  by (auto simp: crossed_liquidity_def dest: apply_liquidity_net_range split: option.splits if_splits)

lemma cross_boundary_okD:
  assumes "cross_boundary keccak256 addr layout state tick crosses ticks = Inr (ticks', c)"
  shows "\<exists>extra. ticks' = ticks @ extra" "\<not> crosses \<Longrightarrow> c = None"
    "loaded_ticks keccak256 addr layout state ticks \<Longrightarrow> loaded_ticks keccak256 addr layout state ticks'"
  using assms by (auto simp: cross_boundary_def loaded_ticks_def split: if_splits)

text \<open>
  One step keeps the invariant. The next boundary is on the far side of the current tick, so
  the target lies between the current price and the event price.
\<close>

lemma boundary_side:
  assumes "next_step_boundary keccak256 addr layout t zfo state = Inr sb" "0 < tick_spacing layout"
    "price_in_tick p t" "sqrt_ratio_at_tick (sb_tick sb) = Inr b"
  shows "moves zfo p b"
proof -
  obtain lo hi where *: "sqrt_ratio_at_tick t = Inr lo" "sqrt_ratio_at_tick (t + 1) = Inr hi" "lo \<le> p" "p \<le> hi"
    using assms(3) by (auto simp: price_in_tick_def)
  note t = price_in_tick_bounds(3,4) [OF assms(3)]
  note ahead = next_step_boundary_ahead [OF assms(1,2)]
  show ?thesis
  proof (cases zfo)
    case True
    then have "sb_tick sb \<le> t" using ahead(3) t by simp
    from sqrt_ratio_at_tick_mono [OF assms(4) *(1) this] *(3) True show ?thesis by (auto simp: moves_def)
  next
    case False
    then have "t + 1 \<le> sb_tick sb" using ahead(4) t by simp
    from sqrt_ratio_at_tick_mono [OF *(2) assms(4) this] *(4) False show ?thesis by (auto simp: moves_def)
  qed
qed

lemma walk_target:
  assumes "next_step_boundary keccak256 addr layout t zfo state = Inr sb" "0 < tick_spacing layout"
    "sqrt_ratio_at_tick (sb_tick sb) = Inr b" "price_in_tick p t" "moves zfo p q"
    "validate_final_tick q final_tick zfo = Inr ()" "target = (if zfo then max b q else min b q)"
  shows "moves zfo p target" "moves zfo target q"
    "price_in_tick target (if target = b then if zfo then sb_tick sb - 1 else sb_tick sb else final_tick)"
proof -
  have side: "moves zfo p b" using assms(1,2,4,3) by (rule boundary_side)
  show "moves zfo p target" "moves zfo target q"
    using side assms(5) by (auto simp: moves_def assms(7) max_def min_def split: if_splits)
  note final = validate_final_tick_okD [OF assms(6)]
  show "price_in_tick target (if target = b then if zfo then sb_tick sb - 1 else sb_tick sb else final_tick)"
  proof (cases "target = b")
    case False
    then have "target = q" by (auto simp: assms(7) max_def min_def split: if_splits)
    then show ?thesis using False final by (auto simp: price_in_tick_def)
  next
    case True
    note bb = sqrt_ratio_at_tick_okD(1,2) [OF assms(3)]
    have "sb_tick sb \<noteq> - 887272" if zfo
    proof
      assume "sb_tick sb = - 887272"
      then have "b = 4295128739" using assms(3) sqrt_ratio_min by simp
      then show False using True final(1) that by (auto simp: assms(7) max_def split: if_splits)
    qed
    moreover have "sb_tick sb \<noteq> 887272" if "\<not> zfo"
    proof
      assume "sb_tick sb = 887272"
      then have "b = 0xfffd8963efd1fc6a506488495d951d5263988d26" using assms(3) sqrt_ratio_max by simp
      then show False using True final(2) that by (auto simp: assms(7) min_def split: if_splits)
    qed
    ultimately show ?thesis using True price_at_boundary [OF assms(3)] bb by (cases zfo) auto
  qed
qed

lemma walk_step_inv:
  assumes step: "walk_step keccak256 addr layout swap zfo state wk = Inr wk'"
    and inv: "walk_inv keccak256 addr layout state swap zfo p l wk"
    and fin: "validate_final_tick (sw_sqrt_price_x96 swap) (sw_tick swap) zfo = Inr ()"
    and sp: "0 < tick_spacing layout"
  shows "walk_inv keccak256 addr layout state swap zfo p l wk'"
proof -
  define target where "target b = (if zfo then max b (sw_sqrt_price_x96 swap) else min b (sw_sqrt_price_x96 swap))" for b
  obtain steps sb b ai ao ticks c liq where s: "consume_step (wk_steps wk) = Inr steps"
    "next_step_boundary keccak256 addr layout (wk_tick wk) zfo state = Inr sb"
    "sqrt_ratio_at_tick (sb_tick sb) = Inr b"
    "segment_amounts (wk_sqrt wk) (target b) (wk_liquidity wk) zfo = Inr (ai, ao)"
    "cross_boundary keccak256 addr layout state (sb_tick sb) (target b = b \<and> sb_initialized sb) (wk_ticks wk) = Inr (ticks, c)"
    "(if target b = b then crossed_liquidity ticks c (wk_liquidity wk) zfo else Inr (wk_liquidity wk)) = Inr liq"
    and wk': "wk' = \<lparr>wk_ticks = ticks, wk_segments = wk_segments wk @
        [\<lparr>seg_sqrt_start = wk_sqrt wk, seg_sqrt_end = target b, seg_liquidity = wk_liquidity wk,
          seg_amount_in = ai, seg_amount_out = ao, seg_reached_boundary = (target b = b), seg_crossed_tick = c\<rparr>],
        wk_sqrt = target b,
        wk_tick = (if target b = b then if zfo then sb_tick sb - 1 else sb_tick sb else sw_tick swap),
        wk_liquidity = liq, wk_steps = steps\<rparr>"
    using step unfolding walk_step_def Let_def target_def [symmetric] by (auto simp: target_def)
  have inv': "path zfo (wk_ticks wk) p l (wk_segments wk) (wk_sqrt wk) (wk_liquidity wk)"
    "price_in_tick (wk_sqrt wk) (wk_tick wk)" "moves zfo (wk_sqrt wk) (sw_sqrt_price_x96 swap)"
    "uint (wk_liquidity wk) < 2 ^ 128" "int (length (wk_segments wk)) = uint (wk_steps wk)"
    "loaded_ticks keccak256 addr layout state (wk_ticks wk)"
    using inv by (simp_all add: walk_inv_def)
  note target = walk_target [OF s(2) sp s(3) inv'(2,3) fin target_def]
  have liq: "crossed_liquidity ticks c (wk_liquidity wk) zfo = Inr liq"
    using s(6) cross_boundary_okD(2) [OF s(5)] by (auto simp: crossed_liquidity_def split: if_splits)
  obtain extra where "ticks = wk_ticks wk @ extra" using cross_boundary_okD(1) [OF s(5)] by blast
  then have old: "path zfo ticks p l (wk_segments wk) (wk_sqrt wk) (wk_liquidity wk)"
    using path_more_ticks inv'(1) by blast
  have path': "path zfo ticks p l (wk_segments wk') (wk_sqrt wk') (wk_liquidity wk')"
    using old s(4) liq target(1) by (auto simp: wk' path_append)
  have tick: "price_in_tick (target b) (wk_tick wk')" using target(3) by (simp add: wk')
  have "uint liq < 2 ^ 128" using crossed_liquidity_range [OF liq inv'(4)] .
  moreover have "loaded_ticks keccak256 addr layout state ticks" using cross_boundary_okD(3) [OF s(5) inv'(6)] .
  moreover have "uint steps = uint (wk_steps wk) + 1" "uint steps \<le> 4096" using s(1) by (simp_all add: consume_step_eq_Inr)
  ultimately show ?thesis
    using path' tick target(2) inv'(5) by (simp add: walk_inv_def wk')
qed

lemma zero_distance_step_inv:
  assumes step: "zero_distance_step keccak256 addr layout swap zfo state wk = Inr wk'"
    and inv: "walk_inv keccak256 addr layout state swap zfo p l wk"
    and fin: "validate_final_tick (sw_sqrt_price_x96 swap) (sw_tick swap) zfo = Inr ()"
  shows "walk_inv keccak256 addr layout state swap zfo p l wk'"
proof (cases "wk' = wk")
  case True
  then show ?thesis using inv by simp
next
  case False
  define nxt where "nxt steps sb ticks c liq = wk\<lparr>wk_ticks := ticks, wk_segments := wk_segments wk @
      [\<lparr>seg_sqrt_start = wk_sqrt wk, seg_sqrt_end = wk_sqrt wk, seg_liquidity = wk_liquidity wk,
        seg_amount_in = 0, seg_amount_out = 0, seg_reached_boundary = True, seg_crossed_tick = c\<rparr>],
      wk_tick := sb_tick sb - 1, wk_liquidity := liq, wk_steps := steps\<rparr>" for steps and sb :: step_boundary and ticks c liq
  obtain steps sb ticks c liq where z: zfo "wk_sqrt wk = sw_sqrt_price_x96 swap"
    and s: "consume_step (wk_steps wk) = Inr steps"
    "sqrt_ratio_at_tick (sb_tick sb) = Inr (wk_sqrt wk)"
    "cross_boundary keccak256 addr layout state (sb_tick sb) (sb_initialized sb) (wk_ticks wk) = Inr (ticks, c)"
    "crossed_liquidity ticks c (wk_liquidity wk) True = Inr liq"
    and "wk' = nxt steps sb ticks c liq"
    using step False unfolding zero_distance_step_def nxt_def [symmetric] by (auto split: if_splits)
  note wk' = this(7) [unfolded nxt_def]
  have inv': "path zfo (wk_ticks wk) p l (wk_segments wk) (wk_sqrt wk) (wk_liquidity wk)"
    "price_in_tick (wk_sqrt wk) (wk_tick wk)"
    "uint (wk_liquidity wk) < 2 ^ 128" "int (length (wk_segments wk)) = uint (wk_steps wk)"
    "loaded_ticks keccak256 addr layout state (wk_ticks wk)"
    using inv by (simp_all add: walk_inv_def)
  obtain extra where "ticks = wk_ticks wk @ extra" using cross_boundary_okD(1) [OF s(3)] by blast
  then have old: "path zfo ticks p l (wk_segments wk) (wk_sqrt wk) (wk_liquidity wk)"
    using path_more_ticks inv'(1) by blast
  have still: "segment_amounts (wk_sqrt wk) (wk_sqrt wk) (wk_liquidity wk) zfo = Inr (0, 0)"
    using price_in_tick_bounds [OF inv'(2)] inv'(3) by (intro segment_amounts_still)
  have path': "path zfo ticks p l (wk_segments wk') (wk_sqrt wk') (wk_liquidity wk')"
    using old still s(4) z(1) by (auto simp: wk' path_append moves_def)
  have "sb_tick sb \<noteq> - 887272" using s(2) sqrt_ratio_min validate_final_tick_okD(1) [OF fin] z(2) by auto
  then have tick: "price_in_tick (wk_sqrt wk) (sb_tick sb - 1)"
    using price_at_boundary(1) [OF s(2)] sqrt_ratio_at_tick_okD(1) [OF s(2)] by simp
  have "uint liq < 2 ^ 128" using crossed_liquidity_range [OF s(4) inv'(3)] .
  moreover have "loaded_ticks keccak256 addr layout state ticks" using cross_boundary_okD(3) [OF s(3) inv'(5)] .
  moreover have "uint steps = uint (wk_steps wk) + 1" "uint steps \<le> 4096" using s(1) by (simp_all add: consume_step_eq_Inr)
  ultimately show ?thesis
    using path' tick inv'(4) z by (simp add: walk_inv_def wk' moves_def)
qed

lemma walk_loop_inv:
  assumes "walk_loop keccak256 addr layout swap zfo state wk = Inr wk'"
    and "walk_inv keccak256 addr layout state swap zfo p l wk"
    and "validate_final_tick (sw_sqrt_price_x96 swap) (sw_tick swap) zfo = Inr ()"
    and "0 < tick_spacing layout"
  shows "walk_inv keccak256 addr layout state swap zfo p l wk' \<and> wk_sqrt wk' = sw_sqrt_price_x96 swap"
  using assms
proof (induction keccak256 addr layout swap zfo state wk rule: walk_loop.induct)
  case (1 keccak256 addr layout swap zfo state wk)
  show ?case
  proof (cases "wk_sqrt wk = sw_sqrt_price_x96 swap")
    case True
    then show ?thesis using "1.prems" by (simp add: walk_loop.simps)
  next
    case False
    with "1.prems"(1) obtain w where step: "walk_step keccak256 addr layout swap zfo state wk = Inr w"
      and rest: "walk_loop keccak256 addr layout swap zfo state w = Inr wk'"
      by (subst (asm) walk_loop.simps) auto
    from step "1.prems"(2,3,4) have "walk_inv keccak256 addr layout state swap zfo p l w" by (rule walk_step_inv)
    from "1.IH" [OF False step rest this "1.prems"(3,4)] show ?thesis .
  qed
qed

lemma walk_start_inv:
  assumes "load_swap_parent addr layout state = Inr parent" "swap_direction swap (sp_slot0 parent) = Inr zfo"
  shows "walk_inv keccak256 addr layout state swap zfo (s0_sqrt_price_x96 (sp_slot0 parent)) (sp_liquidity parent)
    (walk_start parent)"
  using load_swap_parent_okD(2,4) [OF assms(1)] swap_direction_okD(3,4) [OF assms(2)]
    validate_parent_slot0_okD(3,4) [of "sp_slot0 parent"]
  by (auto simp: walk_inv_def walk_start_def price_in_tick_def moves_def loaded_ticks_def)

text \<open>The end of the walk: still a path, now at the event's price, tick and liquidity.\<close>

lemma finish_walk_okD:
  assumes fin: "finish_walk swap tiny wk = Inr wk'"
    and inv: "walk_inv keccak256 addr layout state swap zfo p l wk"
    and at: "wk_sqrt wk = sw_sqrt_price_x96 swap"
  shows "path zfo (wk_ticks wk') p l (wk_segments wk') (sw_sqrt_price_x96 swap) (sw_liquidity swap)"
    "wk_segments wk' \<noteq> []" "length (wk_segments wk') \<le> 4096" "wk_liquidity wk' = sw_liquidity swap"
    "wk_sqrt wk' = sw_sqrt_price_x96 swap" "loaded_ticks keccak256 addr layout state (wk_ticks wk')"
    "wk_tick wk' = sw_tick swap" "price_in_tick (sw_sqrt_price_x96 swap) (sw_tick swap)"
    "uint (sw_liquidity swap) < 2 ^ 128"
proof -
  have inv': "path zfo (wk_ticks wk) p l (wk_segments wk) (wk_sqrt wk) (wk_liquidity wk)"
    "price_in_tick (wk_sqrt wk) (wk_tick wk)" "uint (wk_liquidity wk) < 2 ^ 128"
    "int (length (wk_segments wk)) = uint (wk_steps wk)" "uint (wk_steps wk) \<le> 4096"
    "loaded_ticks keccak256 addr layout state (wk_ticks wk)"
    using inv by (simp_all add: walk_inv_def)
  have still: "segment_amounts (wk_sqrt wk) (wk_sqrt wk) (wk_liquidity wk) zfo = Inr (0, 0)"
    using price_in_tick_bounds [OF inv'(2)] inv'(3) by (intro segment_amounts_still)
  have wk': "wk' = wk \<and> wk_segments wk \<noteq> [] \<or> wk' = wk\<lparr>wk_segments := [still_segment wk]\<rparr> \<and> wk_segments wk = []"
    and eq: "wk_liquidity wk' = sw_liquidity swap" "wk_tick wk' = sw_tick swap"
    using fin by (auto simp: finish_walk_def split: if_splits)
  have same: "wk_ticks wk' = wk_ticks wk" "wk_sqrt wk' = wk_sqrt wk" "wk_liquidity wk' = wk_liquidity wk"
    "wk_tick wk' = wk_tick wk" using wk' by auto
  show "path zfo (wk_ticks wk') p l (wk_segments wk') (sw_sqrt_price_x96 swap) (sw_liquidity swap)"
  proof (cases "wk_segments wk = []")
    case True
    then have "p = wk_sqrt wk" "l = wk_liquidity wk" using inv'(1) by simp_all
    then show ?thesis using True wk' eq same at still
      by (auto simp: still_segment_def moves_def crossed_liquidity_def)
  next
    case False
    then show ?thesis using wk' eq at inv'(1) by auto
  qed
  show "length (wk_segments wk') \<le> 4096" "wk_segments wk' \<noteq> []" using wk' inv'(4,5) by auto
  show "wk_liquidity wk' = sw_liquidity swap" "wk_sqrt wk' = sw_sqrt_price_x96 swap" "wk_tick wk' = sw_tick swap"
    "loaded_ticks keccak256 addr layout state (wk_ticks wk')" "price_in_tick (sw_sqrt_price_x96 swap) (sw_tick swap)"
    "uint (sw_liquidity swap) < 2 ^ 128"
    using eq same at inv' by simp_all
qed

lemma fee_only_step_okD:
  assumes "fee_only_step wk total_fee capped fee zfo = Inr segs"
    and "path zfo ticks p l (wk_segments wk) (wk_sqrt wk) (wk_liquidity wk)"
    and "wk_sqrt wk \<noteq> 0" "uint (wk_sqrt wk) < 2 ^ 160" "uint (wk_liquidity wk) < 2 ^ 128"
  shows "path zfo ticks p l segs (wk_sqrt wk) (wk_liquidity wk)"
    "segs = wk_segments wk \<or> segs = wk_segments wk @ [still_segment wk]"
proof -
  show segs: "segs = wk_segments wk \<or> segs = wk_segments wk @ [still_segment wk]"
    using assms(1) by (auto simp: fee_only_step_def Let_def split: if_splits option.splits)
  have "path zfo ticks (wk_sqrt wk) (wk_liquidity wk) [still_segment wk] (wk_sqrt wk) (wk_liquidity wk)"
    using segment_amounts_still [OF assms(3-5), of zfo]
    by (simp add: still_segment_def moves_def crossed_liquidity_def)
  then show "path zfo ticks p l segs (wk_sqrt wk) (wk_liquidity wk)"
    using segs assms(2) by (auto simp: path_append)
qed

section \<open>No aborts in the walk\<close>

lemma walk_inv_tick: "walk_inv keccak256 addr layout state swap zfo p l wk \<Longrightarrow> price_in_tick (wk_sqrt wk) (wk_tick wk)"
  by (simp add: walk_inv_def)

lemma no_panic_walk_step [no_panic_intros]:
  assumes "price_in_tick (wk_sqrt wk) (wk_tick wk)" "0 < tick_spacing layout"
  shows "no_panic (walk_step keccak256 addr layout swap zfo state wk)"
    "no_panic (zero_distance_step keccak256 addr layout swap zfo state wk)"
  using price_in_tick_bounds(3,4) [OF assms(1)] assms(2)
  unfolding walk_step_def zero_distance_step_def Let_def
  by (intro no_panic_intros; auto intro: cross_boundary_crossed)+

lemma no_panic_walk_loop:
  assumes "walk_inv keccak256 addr layout state swap zfo p l wk"
    and "validate_final_tick (sw_sqrt_price_x96 swap) (sw_tick swap) zfo = Inr ()"
    and "0 < tick_spacing layout"
  shows "no_panic (walk_loop keccak256 addr layout swap zfo state wk)"
  using assms
proof (induction keccak256 addr layout swap zfo state wk rule: walk_loop.induct)
  case (1 keccak256 addr layout swap zfo state wk)
  show ?case
  proof (subst walk_loop.simps, intro no_panic_intros)
    show "price_in_tick (wk_sqrt wk) (wk_tick wk)" using "1.prems"(1) by (rule walk_inv_tick)
    show "0 < tick_spacing layout" by fact
  next
    fix w
    assume ne: "wk_sqrt wk \<noteq> sw_sqrt_price_x96 swap"
      and step: "walk_step keccak256 addr layout swap zfo state wk = Inr w"
    from step "1.prems" have "walk_inv keccak256 addr layout state swap zfo p l w" by (rule walk_step_inv)
    from "1.IH" [OF ne step this "1.prems"(2,3)]
    show "no_panic (walk_loop keccak256 addr layout swap zfo state w)" .
  qed
qed

end
