(* ===== verification/V3_Swap_Facts.thy ===== *)
theory V3_Swap_Facts
  imports V3_Swap_Path
begin

text \<open>
  The results of \<open>derive_uniswap_v3_swap\<close>: conservation of the event's input over principal and
  fees, the shape and content of the update batch, and the absence of aborts.
\<close>

section \<open>Fee allocation\<close>

definition protocol_share :: "fee_env \<Rightarrow> u256 \<Rightarrow> u256" where
  "protocol_share env fee =
    (if fe_protocol_divisor env = 0 then 0 else fee div ucast (fe_protocol_divisor env))"

text \<open>
  \<open>fees_allocated env segs fees rem\<close>: each segment gets its fee, charged from what remains, and
  nothing is left at the end.
\<close>

fun fees_allocated :: "fee_env \<Rightarrow> segment list \<Rightarrow> u256 list \<Rightarrow> u256 \<Rightarrow> bool" where
  "fees_allocated env [] [] rem \<longleftrightarrow> rem = 0"
| "fees_allocated env (s # segs) (f # fees) rem \<longleftrightarrow>
    segment_fee env s (segs = [] \<and> \<not> seg_reached_boundary s) rem = Inr f \<and> f \<le> rem
    \<and> fees_allocated env segs fees (rem - f)"
| "fees_allocated env _ _ rem \<longleftrightarrow> False"

lemma fees_allocated_sum:
  "fees_allocated env segs fees rem \<Longrightarrow> uint rem = (\<Sum>f\<leftarrow>fees. uint f) \<and> length fees = length segs"
proof (induction env segs fees rem rule: fees_allocated.induct)
  case (2 env s segs f fees rem)
  then have "uint (rem - f) = (\<Sum>f\<leftarrow>fees. uint f)" "length fees = length segs" "f \<le> rem" by simp_all
  then show ?case by (simp add: uint_sub_no_wrap)
qed simp_all

lemma fees_allocated_full:
  "fees_allocated env segs fees rem \<Longrightarrow> Suc i < length segs
    \<Longrightarrow> fee_for_full_step (seg_amount_in (segs ! i)) (fe_fee env) = Inr (fees ! i)"
proof (induction env segs fees rem arbitrary: i rule: fees_allocated.induct)
  case (2 env s segs f fees rem)
  then have "segs \<noteq> []" by auto
  with 2 show ?case by (cases i) (simp_all add: segment_fee_def)
qed simp_all

lemma fee_split_eq_Inr:
  assumes "fee_split env f l = Inr (pf, g)"
  shows "pf = protocol_share env f"
    "if l = 0 then g = 0 else uint g = uint (f - pf) * 2 ^ 128 div uint l"
  using assms
  by (auto simp: fee_split_def Let_def protocol_share_def mul_div_eq_Inr split: if_splits)

lemma exact_writes_slot_writes [simp]: "exact_writes_to addr (slot_writes addr keys words)"
  by (simp add: slot_writes_def)

definition accrue_fee :: "fee_env \<Rightarrow> u256 \<Rightarrow> u256 \<Rightarrow> u256" where
  "accrue_fee env = (if fe_zero_for_one env then add_token0 else add_token1)"

definition fee_growths :: "fee_env \<Rightarrow> segment list \<Rightarrow> u256 list \<Rightarrow> u256 list \<Rightarrow> bool" where
  "fee_growths env segs fees growths \<longleftrightarrow> length growths = length segs \<and> length fees = length segs \<and>
    (\<forall>i < length segs. fee_split env (fees ! i) (seg_liquidity (segs ! i))
      = Inr (protocol_share env (fees ! i), growths ! i))"

lemma protocol_share_uint:
  "uint (protocol_share env f)
    = (if fe_protocol_divisor env = 0 then 0 else uint f div uint (fe_protocol_divisor env))"
  by (simp add: protocol_share_def uint_div uint_up_ucast is_up)

lemma protocol_share_le: "protocol_share env f \<le> f"
  by (simp add: protocol_share_def word_le_nat_alt unat_div)

lemma fee_growths_nth:
  assumes "fee_growths env segs fees growths" "i < length segs"
  shows "if seg_liquidity (segs ! i) = 0
    then growths ! i = 0 \<and> uint (fees ! i) = uint (protocol_share env (fees ! i))
    else uint (growths ! i)
      = (uint (fees ! i) - uint (protocol_share env (fees ! i))) * 2 ^ 128 div uint (seg_liquidity (segs ! i))"
proof -
  from assms have s: "fee_split env (fees ! i) (seg_liquidity (segs ! i))
      = Inr (protocol_share env (fees ! i), growths ! i)" by (simp add: fee_growths_def)
  show ?thesis
  proof (cases "seg_liquidity (segs ! i) = 0")
    case True
    with s have "fees ! i - protocol_share env (fees ! i) = 0"
      by (auto simp: fee_split_def Let_def protocol_share_def split: if_splits)
    with True fee_split_eq_Inr(2) [OF s] show ?thesis by simp
  next
    case False
    with fee_split_eq_Inr(2) [OF s] show ?thesis
      by (simp add: uint_sub_no_wrap [OF protocol_share_le])
  qed
qed

lemma fee_growths_Cons:
  "fee_growths env (s # segs) (f # fees) (g # growths) \<longleftrightarrow>
    fee_split env f (seg_liquidity s) = Inr (protocol_share env f, g) \<and> fee_growths env segs fees growths"
  by (auto simp: fee_growths_def All_less_Suc2)

lemma fee_step_okD:
  assumes "fee_step env s is_last fs = Inr fs'"
  shows "\<exists>f g. segment_fee env s (is_last \<and> \<not> seg_reached_boundary s) (fs_remaining fs) = Inr f
      \<and> f \<le> fs_remaining fs \<and> fs_remaining fs' = fs_remaining fs - f
      \<and> fee_split env f (seg_liquidity s) = Inr (protocol_share env f, g)
      \<and> fs_protocol_fees fs' = accrue_fee env (fs_protocol_fees fs) (protocol_share env f)
      \<and> fs_fee_growth_0 fs' = (if fe_zero_for_one env then fs_fee_growth_0 fs + g else fs_fee_growth_0 fs)
      \<and> fs_fee_growth_1 fs' = (if fe_zero_for_one env then fs_fee_growth_1 fs else fs_fee_growth_1 fs + g)"
    "exact_writes_to (fe_address env) (fs_updates fs) \<Longrightarrow> exact_writes_to (fe_address env) (fs_updates fs')"
    "length (fs_ticks fs') = length (fs_ticks fs)"
proof -
  obtain f rem pf g where *: "segment_fee env s (is_last \<and> \<not> seg_reached_boundary s) (fs_remaining fs) = Inr f"
    "checked_sub (fs_remaining fs) f = Some rem" "fee_split env f (seg_liquidity s) = Inr (pf, g)"
    using assms by (auto simp: fee_step_def)
  have rem: "f \<le> fs_remaining fs" "rem = fs_remaining fs - f"
    using *(2) by (auto simp: checked_sub_def split: if_splits)
  have pf: "pf = protocol_share env f" using fee_split_eq_Inr(1) [OF *(3)] .
  have "fs_remaining fs' = rem \<and> fs_protocol_fees fs' = accrue_fee env (fs_protocol_fees fs) pf
      \<and> fs_fee_growth_0 fs' = (if fe_zero_for_one env then fs_fee_growth_0 fs + g else fs_fee_growth_0 fs)
      \<and> fs_fee_growth_1 fs' = (if fe_zero_for_one env then fs_fee_growth_1 fs else fs_fee_growth_1 fs + g)"
    using assms * by (auto simp: fee_step_def Let_def accrue_fee_def split: option.splits if_splits)
  then show "\<exists>f g. segment_fee env s (is_last \<and> \<not> seg_reached_boundary s) (fs_remaining fs) = Inr f
      \<and> f \<le> fs_remaining fs \<and> fs_remaining fs' = fs_remaining fs - f
      \<and> fee_split env f (seg_liquidity s) = Inr (protocol_share env f, g)
      \<and> fs_protocol_fees fs' = accrue_fee env (fs_protocol_fees fs) (protocol_share env f)
      \<and> fs_fee_growth_0 fs' = (if fe_zero_for_one env then fs_fee_growth_0 fs + g else fs_fee_growth_0 fs)
      \<and> fs_fee_growth_1 fs' = (if fe_zero_for_one env then fs_fee_growth_1 fs else fs_fee_growth_1 fs + g)"
    using * rem pf by blast
  show "exact_writes_to (fe_address env) (fs_updates fs) \<Longrightarrow> exact_writes_to (fe_address env) (fs_updates fs')"
    "length (fs_ticks fs') = length (fs_ticks fs)"
    using assms * by (auto simp: fee_step_def Let_def split: option.splits if_splits)
qed

lemma fee_loop_okD:
  assumes "fee_loop env segs fs = Inr fs'" "fs_remaining fs' = 0"
  shows "\<exists>fees growths. fees_allocated env segs fees (fs_remaining fs) \<and> fee_growths env segs fees growths
    \<and> fs_protocol_fees fs' = foldl (accrue_fee env) (fs_protocol_fees fs) (map (protocol_share env) fees)
    \<and> fs_fee_growth_0 fs' = (if fe_zero_for_one env then fs_fee_growth_0 fs + sum_list growths else fs_fee_growth_0 fs)
    \<and> fs_fee_growth_1 fs' = (if fe_zero_for_one env then fs_fee_growth_1 fs else fs_fee_growth_1 fs + sum_list growths)"
  using assms
proof (induction segs arbitrary: fs)
  case Nil
  then show ?case by (intro exI [of _ "[]"]) (simp add: fee_growths_def)
next
  case (Cons s segs)
  then obtain m where m: "fee_step env s (segs = []) fs = Inr m" "fee_loop env segs m = Inr fs'" by auto
  from fee_step_okD(1) [OF m(1)] obtain f g where
    f: "segment_fee env s (segs = [] \<and> \<not> seg_reached_boundary s) (fs_remaining fs) = Inr f"
    "f \<le> fs_remaining fs" "fs_remaining m = fs_remaining fs - f"
    "fee_split env f (seg_liquidity s) = Inr (protocol_share env f, g)"
    "fs_protocol_fees m = accrue_fee env (fs_protocol_fees fs) (protocol_share env f)"
    "fs_fee_growth_0 m = (if fe_zero_for_one env then fs_fee_growth_0 fs + g else fs_fee_growth_0 fs)"
    "fs_fee_growth_1 m = (if fe_zero_for_one env then fs_fee_growth_1 fs else fs_fee_growth_1 fs + g)" by blast
  from Cons.IH [OF m(2) Cons.prems(2)] obtain fees growths where
    ih: "fees_allocated env segs fees (fs_remaining m)" "fee_growths env segs fees growths"
    "fs_protocol_fees fs' = foldl (accrue_fee env) (fs_protocol_fees m) (map (protocol_share env) fees)"
    "fs_fee_growth_0 fs' = (if fe_zero_for_one env then fs_fee_growth_0 m + sum_list growths else fs_fee_growth_0 m)"
    "fs_fee_growth_1 fs' = (if fe_zero_for_one env then fs_fee_growth_1 m else fs_fee_growth_1 m + sum_list growths)"
    by blast
  show ?case
    using f ih by (intro exI [of _ "f # fees"] exI [of _ "g # growths"]) (simp add: fee_growths_Cons add.assoc)
qed

lemma fee_loop_writes:
  "fee_loop env segs fs = Inr fs' \<Longrightarrow> exact_writes_to (fe_address env) (fs_updates fs)
    \<Longrightarrow> exact_writes_to (fe_address env) (fs_updates fs')"
  by (induction segs arbitrary: fs) (auto dest: fee_step_okD(2))

section \<open>The transition's intermediate results\<close>

lemma derive_swap_okE:
  assumes "derive_uniswap_v3_swap keccak256 addr layout fee swap ctx state = Inr us"
  obtains parent zfo adv wk0 wk1 wk total_fee capped segs ts fs where
    "validate_context ctx = Inr ()" "validate_swap_event layout fee swap = Inr ()"
    "load_swap_parent addr layout state = Inr parent" "swap_direction swap (sp_slot0 parent) = Inr zfo"
    "swap_oracle addr parent swap ctx state = Inr adv"
    "zero_distance_step keccak256 addr layout swap zfo state (walk_start parent) = Inr wk0"
    "walk_loop keccak256 addr layout swap zfo state wk0 = Inr wk1"
    "finish_walk swap (unchanged_tiny_swap swap (sp_slot0 parent) zfo) wk1 = Inr wk"
    "swap_totals (wk_segments wk) swap zfo fee = Inr (total_fee, capped)"
    "fee_only_step wk total_fee capped fee zfo = Inr segs" "event_timestamp ctx = Inr ts"
    "allocate_fees addr parent fee zfo (snd (snd (snd adv))) ts (wk_ticks wk) segs total_fee = Inr fs"
    "us = swap_updates addr layout swap (sp_slot0 parent) adv (wk_liquidity wk) fs"
  using assms unfolding derive_uniswap_v3_swap_def by auto

lemma swap_totals_okD:
  assumes "swap_totals segs swap zfo fee = Inr (total_fee, capped)"
  shows "uint (swap_actual_input swap zfo) = (\<Sum>s\<leftarrow>segs. uint (seg_amount_in s)) + uint total_fee"
    "\<not> capped \<Longrightarrow> uint (swap_actual_output swap zfo) = (\<Sum>s\<leftarrow>segs. uint (seg_amount_out s))"
    "capped \<Longrightarrow> uint (swap_actual_output swap zfo) < (\<Sum>s\<leftarrow>segs. uint (seg_amount_out s))
      \<and> (\<Sum>s\<leftarrow>segs. uint (seg_amount_out s)) - uint (seg_amount_out (last segs)) < uint (swap_actual_output swap zfo)"
proof -
  obtain pin dout where t: "checked_sum (map seg_amount_in segs) = Inr pin"
    "checked_sum (map seg_amount_out segs) = Inr dout"
    "output_is_capped (seg_sqrt_start (last segs)) (seg_sqrt_end (last segs)) (seg_liquidity (last segs))
       (seg_amount_out (last segs)) dout (swap_actual_output swap zfo) zfo = Inr capped"
    "checked_sub (swap_actual_input swap zfo) pin = Some total_fee"
    using assms by (auto simp: swap_totals_def Let_def split: if_splits)
  show "uint (swap_actual_input swap zfo) = (\<Sum>s\<leftarrow>segs. uint (seg_amount_in s)) + uint total_fee"
    using t(1,4) by (simp add: checked_sum_eq_Inr checked_sub_eq_Some comp_def)
  show "uint (swap_actual_output swap zfo) = (\<Sum>s\<leftarrow>segs. uint (seg_amount_out s))" if "\<not> capped"
    using t(2) output_is_capped_okD(1) [OF t(3) that] by (simp add: checked_sum_eq_Inr comp_def)
  show "uint (swap_actual_output swap zfo) < (\<Sum>s\<leftarrow>segs. uint (seg_amount_out s))
      \<and> (\<Sum>s\<leftarrow>segs. uint (seg_amount_out s)) - uint (seg_amount_out (last segs)) < uint (swap_actual_output swap zfo)"
    if capped
    using t(2) output_is_capped_okD(2) [OF t(3) that] by (simp add: checked_sum_eq_Inr comp_def)
qed

lemma sum_still:
  "(\<Sum>s\<leftarrow>xs @ [still_segment wk]. uint (seg_amount_in s)) = (\<Sum>s\<leftarrow>xs. uint (seg_amount_in s))"
  "(\<Sum>s\<leftarrow>xs @ [still_segment wk]. uint (seg_amount_out s)) = (\<Sum>s\<leftarrow>xs. uint (seg_amount_out s))"
  by (simp_all add: still_segment_def)

lemma fee_only_step_capped: "fee_only_step wk total_fee True fee zfo = Inr segs \<Longrightarrow> segs = wk_segments wk"
  by (simp add: fee_only_step_def)

text \<open>
  Everything a successful derivation has established about the path: its segments, ticks and
  fees, and the conservation of input and output over them.
\<close>

definition swap_witness ::
  "keccak \<Rightarrow> address \<Rightarrow> v3_storage_layout \<Rightarrow> u32 \<Rightarrow> decoded_swap \<Rightarrow> state_view \<Rightarrow> swap_parent \<Rightarrow> bool
    \<Rightarrow> initialized_tick list \<Rightarrow> segment list \<Rightarrow> u256 list \<Rightarrow> bool" where
  "swap_witness keccak256 addr layout fee swap state parent zfo ticks segs fees \<longleftrightarrow>
    load_swap_parent addr layout state = Inr parent \<and> swap_signs swap = Inr zfo
    \<and> loaded_ticks keccak256 addr layout state ticks
    \<and> path zfo ticks (s0_sqrt_price_x96 (sp_slot0 parent)) (sp_liquidity parent) segs
        (sw_sqrt_price_x96 swap) (sw_liquidity swap)
    \<and> length segs \<le> 4097 \<and> length fees = length segs
    \<and> uint (swap_actual_input swap zfo) = (\<Sum>s\<leftarrow>segs. uint (seg_amount_in s)) + (\<Sum>f\<leftarrow>fees. uint f)
    \<and> uint (swap_actual_output swap zfo) \<le> (\<Sum>s\<leftarrow>segs. uint (seg_amount_out s))
    \<and> (\<Sum>s\<leftarrow>segs. uint (seg_amount_out s)) - uint (seg_amount_out (last segs)) \<le> uint (swap_actual_output swap zfo)"

lemma derive_swap_sound:
  assumes "derive_uniswap_v3_swap keccak256 addr layout fee swap ctx state = Inr us"
  shows "\<exists>parent zfo adv ticks segs fees env growths fs.
    swap_witness keccak256 addr layout fee swap state parent zfo ticks segs fees
    \<and> swap_oracle addr parent swap ctx state = Inr adv
    \<and> us = swap_updates addr layout swap (sp_slot0 parent) adv (sw_liquidity swap) fs
    \<and> exact_writes_to addr (fs_updates fs)
    \<and> fe_zero_for_one env = zfo \<and> fe_fee env = fee
    \<and> fe_protocol_divisor env = (if zfo then s0_fee_protocol (sp_slot0 parent) AND 0x0f
                                 else drop_bit 4 (s0_fee_protocol (sp_slot0 parent)))
    \<and> fee_growths env segs fees growths
    \<and> (\<forall>i. Suc i < length segs \<longrightarrow> fee_for_full_step (seg_amount_in (segs ! i)) fee = Inr (fees ! i))
    \<and> fs_protocol_fees fs = foldl (accrue_fee env) (sp_protocol_fees parent) (map (protocol_share env) fees)
    \<and> fs_fee_growth_0 fs = (if zfo then sp_fee_growth_0 parent + sum_list growths else sp_fee_growth_0 parent)
    \<and> fs_fee_growth_1 fs = (if zfo then sp_fee_growth_1 parent else sp_fee_growth_1 parent + sum_list growths)"
proof -
  from assms obtain parent zfo adv wk0 wk1 wk total_fee capped segs ts fs where d:
    "validate_context ctx = Inr ()" "validate_swap_event layout fee swap = Inr ()"
    "load_swap_parent addr layout state = Inr parent" "swap_direction swap (sp_slot0 parent) = Inr zfo"
    "swap_oracle addr parent swap ctx state = Inr adv"
    "zero_distance_step keccak256 addr layout swap zfo state (walk_start parent) = Inr wk0"
    "walk_loop keccak256 addr layout swap zfo state wk0 = Inr wk1"
    "finish_walk swap (unchanged_tiny_swap swap (sp_slot0 parent) zfo) wk1 = Inr wk"
    "swap_totals (wk_segments wk) swap zfo fee = Inr (total_fee, capped)"
    "fee_only_step wk total_fee capped fee zfo = Inr segs" "event_timestamp ctx = Inr ts"
    "allocate_fees addr parent fee zfo (snd (snd (snd adv))) ts (wk_ticks wk) segs total_fee = Inr fs"
    "us = swap_updates addr layout swap (sp_slot0 parent) adv (wk_liquidity wk) fs"
    by (rule derive_swap_okE)
  note sp = validate_swap_event_okD(3) [OF d(2)] and fin = swap_direction_okD(2) [OF d(4)]
  note inv0 = zero_distance_step_inv [OF d(6) walk_start_inv [OF d(3,4)] fin]
  from walk_loop_inv [OF d(7) inv0 fin sp]
  have inv1: "walk_inv keccak256 addr layout state swap zfo (s0_sqrt_price_x96 (sp_slot0 parent))
      (sp_liquidity parent) wk1" and at1: "wk_sqrt wk1 = sw_sqrt_price_x96 swap" by simp_all
  note w = finish_walk_okD [OF d(8) inv1 at1]
  have pw: "path zfo (wk_ticks wk) (s0_sqrt_price_x96 (sp_slot0 parent)) (sp_liquidity parent)
      (wk_segments wk) (wk_sqrt wk) (wk_liquidity wk)" using w(1,4,5) by simp
  have ends: "wk_sqrt wk \<noteq> 0" "uint (wk_sqrt wk) < 2 ^ 160" "uint (wk_liquidity wk) < 2 ^ 128"
    using price_in_tick_bounds(1,2) [OF w(8)] w(4,5,9) by simp_all
  note f = fee_only_step_okD [OF d(10) pw ends]
  note tot = swap_totals_okD [OF d(9)]
  define env where "env = \<lparr>fe_address = addr, fe_fee = fee, fe_zero_for_one = zfo,
      fe_protocol_divisor = (if zfo then s0_fee_protocol (sp_slot0 parent) AND 0x0f
                             else drop_bit 4 (s0_fee_protocol (sp_slot0 parent))),
      fe_now = snd (snd (snd adv)), fe_timestamp = ts\<rparr>"
  have env: "fe_address env = addr" "fe_fee env = fee" "fe_zero_for_one env = zfo"
    "fe_protocol_divisor env = (if zfo then s0_fee_protocol (sp_slot0 parent) AND 0x0f
       else drop_bit 4 (s0_fee_protocol (sp_slot0 parent)))"
    by (simp_all add: env_def)
  have loop: "fee_loop env segs \<lparr>fs_remaining = total_fee, fs_fee_growth_0 = sp_fee_growth_0 parent,
        fs_fee_growth_1 = sp_fee_growth_1 parent, fs_protocol_fees = sp_protocol_fees parent,
        fs_ticks = wk_ticks wk, fs_updates = []\<rparr> = Inr fs" "fs_remaining fs = 0"
    using d(12) unfolding allocate_fees_def Let_def env_def [symmetric] by (auto split: if_splits)
  from fee_loop_okD [OF loop] obtain fees growths where
    fees: "fees_allocated env segs fees total_fee" "fee_growths env segs fees growths"
    "fs_protocol_fees fs = foldl (accrue_fee env) (sp_protocol_fees parent) (map (protocol_share env) fees)"
    "fs_fee_growth_0 fs = (if zfo then sp_fee_growth_0 parent + sum_list growths else sp_fee_growth_0 parent)"
    "fs_fee_growth_1 fs = (if zfo then sp_fee_growth_1 parent else sp_fee_growth_1 parent + sum_list growths)"
    by (auto simp: env)
  have full: "fee_for_full_step (seg_amount_in (segs ! i)) fee = Inr (fees ! i)" if "Suc i < length segs" for i
    using fees_allocated_full [OF fees(1) that] env(2) by simp
  have witness: "swap_witness keccak256 addr layout fee swap state parent zfo (wk_ticks wk) segs fees"
    unfolding swap_witness_def
  proof (intro conjI)
    show "load_swap_parent addr layout state = Inr parent" "swap_signs swap = Inr zfo"
      using d(3) swap_direction_okD(1) [OF d(4)] by simp_all
    show "loaded_ticks keccak256 addr layout state (wk_ticks wk)" by (rule w(6))
    show "path zfo (wk_ticks wk) (s0_sqrt_price_x96 (sp_slot0 parent)) (sp_liquidity parent) segs
        (sw_sqrt_price_x96 swap) (sw_liquidity swap)" using f(1) w(4,5) by simp
    show "length segs \<le> 4097" using f(2) w(3) by auto
    show "length fees = length segs" using fees_allocated_sum [OF fees(1)] by simp
    show "uint (swap_actual_input swap zfo) = (\<Sum>s\<leftarrow>segs. uint (seg_amount_in s)) + (\<Sum>f\<leftarrow>fees. uint f)"
      using tot(1) f(2) fees_allocated_sum [OF fees(1)] sum_still(1) [of "wk_segments wk" wk] by auto
    have out: "(\<Sum>s\<leftarrow>segs. uint (seg_amount_out s)) = (\<Sum>s\<leftarrow>wk_segments wk. uint (seg_amount_out s))"
      using f(2) sum_still(2) [of "wk_segments wk" wk] by auto
    show "uint (swap_actual_output swap zfo) \<le> (\<Sum>s\<leftarrow>segs. uint (seg_amount_out s))"
      unfolding out using tot(2,3) by (cases capped) auto
    show "(\<Sum>s\<leftarrow>segs. uint (seg_amount_out s)) - uint (seg_amount_out (last segs)) \<le> uint (swap_actual_output swap zfo)"
    proof (cases capped)
      case True
      then have "segs = wk_segments wk" using d(10) fee_only_step_capped by simp
      then show ?thesis using tot(3) [OF True] by simp
    next
      case False
      then show ?thesis using tot(2) out by simp
    qed
  qed
  have writes: "exact_writes_to addr (fs_updates fs)"
    using fee_loop_writes [OF loop(1)] env(1) by simp
  show ?thesis
    by (rule exI [of _ parent], rule exI [of _ zfo], rule exI [of _ adv], rule exI [of _ "wk_ticks wk"],
        rule exI [of _ segs], rule exI [of _ fees], rule exI [of _ env], rule exI [of _ growths],
        rule exI [of _ fs])
      (intro conjI allI impI witness d(5) d(13) [unfolded w(4)] writes env full fees(2-5))
qed

section \<open>No aborts\<close>

definition crossed_in_range :: "segment list \<Rightarrow> nat \<Rightarrow> bool" where
  "crossed_in_range segs n \<longleftrightarrow> (\<forall>s \<in> set segs. \<forall>i. seg_crossed_tick s = Some i \<longrightarrow> i < n)"

lemma path_crossed_in_range: "path zfo ticks p l segs p' l' \<Longrightarrow> crossed_in_range segs (length ticks)"
proof (induction segs arbitrary: p l)
  case (Cons s segs)
  then obtain l1 where "crossed_liquidity ticks (seg_crossed_tick s) l zfo = Inr l1"
    "crossed_in_range segs (length ticks)" by auto
  then show ?case by (auto simp: crossed_in_range_def crossed_liquidity_def split: if_splits)
qed (simp add: crossed_in_range_def)

lemma no_panic_fee_step [no_panic_intros]:
  assumes "uint (fe_fee env) \<le> 1000000" "crossed_in_range (s # segs) (length (fs_ticks fs))"
  shows "no_panic (fee_step env s is_last fs)"
  using assms
  unfolding fee_step_def segment_fee_def fee_split_def Let_def crossed_in_range_def
  by (intro no_panic_intros) (auto split: option.split)

lemma no_panic_fee_loop:
  "uint (fe_fee env) \<le> 1000000 \<Longrightarrow> crossed_in_range segs (length (fs_ticks fs)) \<Longrightarrow> no_panic (fee_loop env segs fs)"
proof (induction segs arbitrary: fs)
  case (Cons s segs)
  have "crossed_in_range segs (length (fs_ticks fs))" using Cons.prems(2) by (simp add: crossed_in_range_def)
  then show ?case
    using Cons.IH Cons.prems fee_step_okD(3) [of env s "segs = []" fs]
    by (auto intro!: no_panic_intros no_panic_fee_step [OF Cons.prems])
qed simp

lemma no_panic_full_step_fees [no_panic_intros]:
  "uint fee \<le> 1000000 \<Longrightarrow> no_panic (full_step_fees segs fee)"
  unfolding full_step_fees_def by (intro no_panic_intros)

lemma no_panic_swap_totals [no_panic_intros]:
  "segs \<noteq> [] \<Longrightarrow> uint fee \<le> 1000000 \<Longrightarrow> no_panic (swap_totals segs swap zfo fee)"
  unfolding swap_totals_def Let_def by (auto intro!: no_panic_intros)

lemma no_panic_swap_ends [no_panic_intros]:
  "no_panic (finish_walk swap tiny wk)"
  "uint fee \<le> 1000000 \<Longrightarrow> no_panic (fee_only_step wk total_fee capped fee zfo)"
  unfolding finish_walk_def fee_only_step_def Let_def by (intro no_panic_intros; simp)+

lemma no_panic_allocate_fees:
  assumes "uint fee \<le> 1000000" "crossed_in_range segs (length ticks)"
  shows "no_panic (allocate_fees addr parent fee zfo now ts ticks segs total_fee)"
  unfolding allocate_fees_def Let_def using assms by (intro no_panic_intros no_panic_fee_loop) simp_all

lemma no_panic_derive_swap:
  "no_panic (derive_uniswap_v3_swap keccak256 addr layout fee swap ctx state)"
  unfolding derive_uniswap_v3_swap_def
proof (intro no_panic_rbind no_panic_prod no_panic_Inr no_panic_validate_context no_panic_swap_checks)
  fix u v parent zfo
  assume c: "validate_context ctx = Inr u" "validate_swap_event layout fee swap = Inr v"
    "load_swap_parent addr layout state = Inr parent" "swap_direction swap (sp_slot0 parent) = Inr zfo"
  note sp = validate_swap_event_okD(3) [OF c(2)] and fin = swap_direction_okD(2) [OF c(4)]
  have fee: "uint fee \<le> 1000000" using validate_swap_event_okD(2) [OF c(2)] by simp
  note start = walk_start_inv [OF c(3,4), of keccak256]
  show "no_panic (swap_oracle addr parent swap ctx state)" using c(1) by (rule no_panic_swap_oracle)
  show "no_panic (event_timestamp ctx)" using c(1) by (rule no_panic_event_timestamp)
  show "no_panic (zero_distance_step keccak256 addr layout swap zfo state (walk_start parent))"
    using walk_inv_tick [OF start] sp by (rule no_panic_walk_step(2))
  fix wk0
  assume z: "zero_distance_step keccak256 addr layout swap zfo state (walk_start parent) = Inr wk0"
  note inv0 = zero_distance_step_inv [OF z start fin]
  show "no_panic (walk_loop keccak256 addr layout swap zfo state wk0)"
    using inv0 fin sp by (rule no_panic_walk_loop)
  fix wk1 wk
  assume l: "walk_loop keccak256 addr layout swap zfo state wk0 = Inr wk1"
  show "no_panic (finish_walk swap (unchanged_tiny_swap swap (sp_slot0 parent) zfo) wk1)"
    by (rule no_panic_swap_ends)
  assume f: "finish_walk swap (unchanged_tiny_swap swap (sp_slot0 parent) zfo) wk1 = Inr wk"
  from walk_loop_inv [OF l inv0 fin sp]
  have inv1: "walk_inv keccak256 addr layout state swap zfo (s0_sqrt_price_x96 (sp_slot0 parent))
      (sp_liquidity parent) wk1" and at1: "wk_sqrt wk1 = sw_sqrt_price_x96 swap" by simp_all
  note w = finish_walk_okD [OF f inv1 at1]
  show "no_panic (swap_totals (wk_segments wk) swap zfo fee)" using w(2) fee by (rule no_panic_swap_totals)
  fix total_fee capped segs ts now
  show "no_panic (fee_only_step wk total_fee capped fee zfo)" using fee by (rule no_panic_swap_ends)
  assume s: "fee_only_step wk total_fee capped fee zfo = Inr segs"
  have "segs = wk_segments wk \<or> segs = wk_segments wk @ [still_segment wk]"
    using s by (auto simp: fee_only_step_def Let_def split: if_splits option.splits)
  then have "crossed_in_range segs (length (wk_ticks wk))"
    using path_crossed_in_range [OF w(1)] by (auto simp: crossed_in_range_def still_segment_def)
  then show "no_panic (allocate_fees addr parent fee zfo (snd (snd (snd now))) ts (wk_ticks wk) segs total_fee)"
    using fee by (intro no_panic_allocate_fees)
qed

section \<open>The update batch\<close>

lemma uniswap_layout_slots:
  "slot0_slot (layout_uniswap n) = 0" "liquidity_slot (layout_uniswap n) = 4"
  "fee_growth_0_slot UNISWAP_V3_SURFACE = 1" "fee_growth_1_slot UNISWAP_V3_SURFACE = 2"
  "protocol_fees_slot UNISWAP_V3_SURFACE = 3" "observations_base_slot UNISWAP_V3_SURFACE = 8"
  by (simp_all add: UNISWAP_V3_SURFACE_def from_limbs_def)

lemma derive_swap_layout:
  assumes "derive_uniswap_v3_swap keccak256 addr layout fee swap ctx state = Inr us"
  shows "layout = layout_uniswap (tick_spacing layout)" "0 < tick_spacing layout"
    "uint (sw_sqrt_price_x96 swap) < 2 ^ 160" "- 887272 \<le> sw_tick swap" "sw_tick swap < 887272"
proof -
  from assms obtain parent :: swap_parent and zfo where d: "validate_swap_event layout fee swap = Inr ()"
    "swap_direction swap (sp_slot0 parent) = Inr zfo" by (rule derive_swap_okE) blast
  then show "layout = layout_uniswap (tick_spacing layout)" "0 < tick_spacing layout"
    "uint (sw_sqrt_price_x96 swap) < 2 ^ 160" using validate_swap_event_okD by blast+
  note fin = validate_final_tick_okD [OF swap_direction_okD(2) [OF d(2)]]
  show "- 887272 \<le> sw_tick swap" using fin(3) sqrt_ratio_at_tick_okD(1) by blast
  show "sw_tick swap < 887272" by (rule fin(4))
qed

lemma derive_swap_batch:
  assumes "derive_uniswap_v3_swap keccak256 addr layout fee swap ctx state = Inr us"
  shows "\<exists>raw word growth0 growth1 protocol rest index cardinality now w.
    state addr 0 = Some raw
    \<and> us = [Slot addr 0 word, Slot addr 1 growth0, Slot addr 2 growth1, Slot addr 3 protocol,
            Slot addr 4 (sw_liquidity swap)] @ rest
    \<and> exact_writes_to addr us
    \<and> (\<exists>parent. load_swap_parent addr layout state = Inr parent
        \<and> swap_oracle addr parent swap ctx state = Inr (index, cardinality, w, now))
    \<and> slot0_decode word = (slot0_decode raw)\<lparr>s0_raw := word, s0_sqrt_price_x96 := sw_sqrt_price_x96 swap,
         s0_tick := sw_tick swap, s0_observation_index := index, s0_observation_cardinality := cardinality\<rparr>
    \<and> field 240 16 word = field 240 16 raw"
proof -
  from derive_swap_sound [OF assms] obtain parent zfo adv ticks segs fees fs where
    s: "swap_witness keccak256 addr layout fee swap state parent zfo ticks segs fees"
    "swap_oracle addr parent swap ctx state = Inr adv"
    "us = swap_updates addr layout swap (sp_slot0 parent) adv (sw_liquidity swap) fs"
    "exact_writes_to addr (fs_updates fs)" by blast
  obtain index cardinality w now where adv: "adv = (index, cardinality, w, now)" by (metis prod_cases4)
  note lay = derive_swap_layout [OF assms]
  have slots: "slot0_slot layout = 0" "liquidity_slot layout = 4"
    using lay(1) uniswap_layout_slots(1,2) by metis+
  from s(1) have load: "load_swap_parent addr layout state = Inr parent" by (simp add: swap_witness_def)
  from load_swap_parent_okD(1) [OF load] obtain raw where
    raw: "state addr 0 = Some raw" "sp_slot0 parent = slot0_decode raw" using slots by auto
  define word where "word = encode_final (sp_slot0 parent) (sw_sqrt_price_x96 swap) (sw_tick swap) index cardinality"
  define tail where "tail = (case w of None \<Rightarrow> [] | Some (slot, value) \<Rightarrow> [Slot addr slot value]) @ fs_updates fs"
  have us: "us = [Slot addr 0 word, Slot addr 1 (fs_fee_growth_0 fs), Slot addr 2 (fs_fee_growth_1 fs),
      Slot addr 3 (fs_protocol_fees fs), Slot addr 4 (sw_liquidity swap)] @ tail"
    unfolding s(3) by (simp add: swap_updates_def adv slots uniswap_layout_slots(3-) word_def tail_def)
  have writes: "exact_writes_to addr us"
    unfolding us using s(4) by (auto simp: tail_def split: option.splits)
  have tick: "- (2 ^ 23) \<le> sw_tick swap" "sw_tick swap < 2 ^ 23" using lay(4,5) by simp_all
  note rt = slot0_roundtrip [OF lay(3) tick, of raw index cardinality, folded raw(2), folded word_def]
  from load s(2) adv have "\<exists>parent. load_swap_parent addr layout state = Inr parent
      \<and> swap_oracle addr parent swap ctx state = Inr (index, cardinality, w, now)" by blast
  with raw(1) us writes rt [unfolded raw(2)] show ?thesis by metis
qed

text \<open>
  Fee growth and protocol fees move on the input side only: the growth of the other token and
  the other half of the protocol word stay as they were.
\<close>

lemma accrue_fee_lanes:
  "lane0 (foldl (accrue_fee env) w fs) = (if fe_zero_for_one env then (lane0 w + (\<Sum>f\<leftarrow>fs. uint f)) mod 2 ^ 128 else lane0 w)"
  "lane1 (foldl (accrue_fee env) w fs) = (if fe_zero_for_one env then lane1 w else (lane1 w + (\<Sum>f\<leftarrow>fs. uint f)) mod 2 ^ 128)"
  by (simp_all add: accrue_fee_def token0.own_foldl token0.other_foldl token1.own_foldl token1.other_foldl)

lemma derive_swap_fees:
  assumes "derive_uniswap_v3_swap keccak256 addr layout fee swap ctx state = Inr us"
  shows "\<exists>parent zfo ticks segs fees d share growths growth0 growth1 protocol.
    load_swap_parent addr layout state = Inr parent \<and> swap_signs swap = Inr zfo
    \<and> loaded_ticks keccak256 addr layout state ticks
    \<and> path zfo ticks (s0_sqrt_price_x96 (sp_slot0 parent)) (sp_liquidity parent) segs
        (sw_sqrt_price_x96 swap) (sw_liquidity swap)
    \<and> length fees = length segs \<and> length growths = length segs
    \<and> (\<forall>i. Suc i < length segs \<longrightarrow> fee_for_full_step (seg_amount_in (segs ! i)) fee = Inr (fees ! i))
    \<and> uint (swap_actual_input swap zfo) = (\<Sum>s\<leftarrow>segs. uint (seg_amount_in s)) + (\<Sum>f\<leftarrow>fees. uint f)
    \<and> d = (if zfo then s0_fee_protocol (sp_slot0 parent) AND 0x0f
           else drop_bit 4 (s0_fee_protocol (sp_slot0 parent)))
    \<and> share = (\<lambda>f :: u256. if d = 0 then 0 else uint f div uint d)
    \<and> (\<forall>i < length segs. if seg_liquidity (segs ! i) = 0
         then growths ! i = 0 \<and> uint (fees ! i) = share (fees ! i)
         else uint (growths ! i) = (uint (fees ! i) - share (fees ! i)) * 2 ^ 128 div uint (seg_liquidity (segs ! i)))
    \<and> us ! 1 = Slot addr 1 growth0 \<and> us ! 2 = Slot addr 2 growth1 \<and> us ! 3 = Slot addr 3 protocol
    \<and> growth0 = (if zfo then sp_fee_growth_0 parent + sum_list growths else sp_fee_growth_0 parent)
    \<and> growth1 = (if zfo then sp_fee_growth_1 parent else sp_fee_growth_1 parent + sum_list growths)
    \<and> lane0 protocol = (if zfo then (lane0 (sp_protocol_fees parent) + (\<Sum>f\<leftarrow>fees. share f)) mod 2 ^ 128
                        else lane0 (sp_protocol_fees parent))
    \<and> lane1 protocol = (if zfo then lane1 (sp_protocol_fees parent)
                        else (lane1 (sp_protocol_fees parent) + (\<Sum>f\<leftarrow>fees. share f)) mod 2 ^ 128)"
proof -
  from derive_swap_sound [OF assms] obtain parent zfo adv ticks segs fees env growths fs where
    s: "swap_witness keccak256 addr layout fee swap state parent zfo ticks segs fees"
    "us = swap_updates addr layout swap (sp_slot0 parent) adv (sw_liquidity swap) fs"
    "fe_zero_for_one env = zfo"
    "fe_protocol_divisor env = (if zfo then s0_fee_protocol (sp_slot0 parent) AND 0x0f
                                 else drop_bit 4 (s0_fee_protocol (sp_slot0 parent)))"
    "fee_growths env segs fees growths"
    "fs_protocol_fees fs = foldl (accrue_fee env) (sp_protocol_fees parent) (map (protocol_share env) fees)"
    "fs_fee_growth_0 fs = (if zfo then sp_fee_growth_0 parent + sum_list growths else sp_fee_growth_0 parent)"
    "fs_fee_growth_1 fs = (if zfo then sp_fee_growth_1 parent else sp_fee_growth_1 parent + sum_list growths)"
    and full: "\<forall>i. Suc i < length segs \<longrightarrow> fee_for_full_step (seg_amount_in (segs ! i)) fee = Inr (fees ! i)"
    by blast
  define d where "d = fe_protocol_divisor env"
  define share where "share = (\<lambda>f :: u256. if d = 0 then 0 else uint f div uint d)"
  have share: "uint (protocol_share env f) = share f" for f
    by (simp add: protocol_share_uint share_def d_def)
  have us: "us ! 1 = Slot addr 1 (fs_fee_growth_0 fs)" "us ! 2 = Slot addr 2 (fs_fee_growth_1 fs)"
    "us ! 3 = Slot addr 3 (fs_protocol_fees fs)"
    unfolding s(2) by (simp_all add: swap_updates_def uniswap_layout_slots(3-) split: prod.split)
  have lanes: "lane0 (fs_protocol_fees fs) = (if zfo then (lane0 (sp_protocol_fees parent)
        + (\<Sum>f\<leftarrow>fees. share f)) mod 2 ^ 128 else lane0 (sp_protocol_fees parent))"
    "lane1 (fs_protocol_fees fs) = (if zfo then lane1 (sp_protocol_fees parent)
        else (lane1 (sp_protocol_fees parent) + (\<Sum>f\<leftarrow>fees. share f)) mod 2 ^ 128)"
    unfolding s(6) accrue_fee_lanes s(3) by (simp_all add: comp_def share)
  have grow: "\<forall>i < length segs. if seg_liquidity (segs ! i) = 0
         then growths ! i = 0 \<and> uint (fees ! i) = share (fees ! i)
         else uint (growths ! i) = (uint (fees ! i) - share (fees ! i)) * 2 ^ 128 div uint (seg_liquidity (segs ! i))"
    using fee_growths_nth [OF s(5)] by (simp only: share) blast
  note w = s(1) [unfolded swap_witness_def]
  have len: "length growths = length segs" using s(5) by (simp add: fee_growths_def)
  show ?thesis
    by (rule exI [of _ parent], rule exI [of _ zfo], rule exI [of _ ticks], rule exI [of _ segs],
        rule exI [of _ fees], rule exI [of _ d], rule exI [of _ share], rule exI [of _ growths],
        rule exI [of _ "fs_fee_growth_0 fs"], rule exI [of _ "fs_fee_growth_1 fs"],
        rule exI [of _ "fs_protocol_fees fs"])
      (use w in \<open>intro conjI full us s(7,8) lanes grow len d_def [unfolded s(4)] share_def; blast\<close>)
qed

end
