(* ===== verification/Example_Pool.thy ===== *)
theory Example_Pool
  imports V3_Swap_Facts
begin

text \<open>
  A concrete canonical pool and a swap on it, evaluated step by step: spacing 10, fee 3000,
  liquidity 10^18, a parent price of 1 at tick 0, and an exact input of 10^14 of token1 that
  ends inside tick 1 and so advances the observation ring. The hash is a constant function:
  the swap reads a single bitmap word.
\<close>

section \<open>The pool, the event and its context\<close>

definition demo_pool :: address where "demo_pool = 0xAA"

definition demo_hash :: keccak where "demo_hash bytes = 1000"

definition demo_slot0 :: u256 where
  "demo_slot0 = 2 ^ 96 OR push_bit 200 1 OR push_bit 216 1 OR push_bit 232 0x44 OR push_bit 240 1"

definition demo_observation :: u256 where
  "demo_observation = 1000 OR push_bit 248 1"

definition demo_words :: "(u256 \<times> u256) list" where
  "demo_words = [(0, demo_slot0), (1, 5), (2, 7), (3, 9), (4, 1000000000000000000),
     (8, demo_observation), (1000, 0)]"

definition demo_view :: state_view where
  "demo_view a k = (if a = demo_pool then map_of demo_words k else None)"

definition demo_swap :: decoded_swap where
  "demo_swap = \<lparr>sw_amount0_negative = True, sw_amount0 = 99690060900928,
     sw_amount1_negative = False, sw_amount1 = 100000000000000,
     sw_sqrt_price_x96 = 79236061562067009748002026667, sw_liquidity = 1000000000000000000, sw_tick = 1\<rparr>"

definition demo_ctx :: adapter_event_context where
  "demo_ctx = with_transaction_hash (with_event_order (with_parent_hash
     (with_chain_id (for_block 100 0x11 2000) 1) 0x22) 3 4) 0x33"

section \<open>Evaluation\<close>

lemma sqrt_ratio_cert:
  assumes "- 887272 \<le> t" "t \<le> 887272" "sqrt_price_int t = uint r"
  shows "sqrt_ratio_at_tick t = Inr r"
  using sqrt_ratio_at_tick_eq [OF assms(1,2)] assms(3) by (auto simp: word_uint_eq_iff)

lemma demo_prices:
  "sqrt_ratio_at_tick 1 = Inr 79232123823359799118286999568"
  "sqrt_ratio_at_tick 2 = Inr 79236085330515764027303304732"
  "sqrt_ratio_at_tick 2550 = Inr 90001420032122347877720892311"
  by (rule sqrt_ratio_cert;
      simp add: sqrt_price_int_def tick_ratio_def MULTIPLIERS_def TICK_CONSTANTS_def round_div_def)+

lemmas word_eval = packed_simps ucast_minus_1 mask_eq_exp_minus_1 not_less

lemma demo_next_sqrt: "next_sqrt_from_input (2 ^ 96) (2 ^ 96) 1 False = Inr (2 ^ 96 + 1)"
proof -
  have "mul_div 1 Q96 (2 ^ 96) = Inr 1" by (simp add: mul_div_eq_Inr)
  then show ?thesis by (simp add: next_sqrt_from_input_def checked_add_def word_eval)
qed

lemma demo_context: "validate_context demo_ctx = Inr ()" "event_timestamp demo_ctx = Inr 2000"
  by (simp_all add: demo_ctx_def with_transaction_hash_def with_event_order_def with_parent_hash_def
      with_chain_id_def for_block_def validate_context_def event_timestamp_def word_eval)

lemma demo_event: "validate_swap_event (layout_uniswap 10) 3000 demo_swap = Inr ()"
  by (simp add: validate_swap_event_def demo_swap_def FEE_DENOMINATOR_def word_eval)

lemma demo_view_words:
  "demo_view demo_pool 0 = Some demo_slot0" "demo_view demo_pool 1 = Some 5"
  "demo_view demo_pool 2 = Some 7" "demo_view demo_pool 3 = Some 9"
  "demo_view demo_pool 4 = Some 1000000000000000000"
  "demo_view demo_pool 8 = Some demo_observation" "demo_view demo_pool 1000 = Some 0"
  by (simp_all add: demo_view_def demo_words_def)

definition demo_parent :: swap_parent where
  "demo_parent = \<lparr>sp_slot0 = \<lparr>s0_raw = demo_slot0, s0_sqrt_price_x96 = 2 ^ 96, s0_tick = 0,
       s0_observation_index = 0, s0_observation_cardinality = 1, s0_observation_cardinality_next = 1,
       s0_fee_protocol = 0x44\<rparr>,
     sp_liquidity = 1000000000000000000, sp_fee_growth_0 = 5, sp_fee_growth_1 = 7, sp_protocol_fees = 9\<rparr>"

lemma demo_slot0_decode: "slot0_decode demo_slot0 = sp_slot0 demo_parent"
  by (simp add: slot0_decode_def demo_slot0_def demo_parent_def as_i32_def signed_from_bits_def Let_def
      word_eval)

lemma demo_load: "load_swap_parent demo_pool (layout_uniswap 10) demo_view = Inr demo_parent"
  by (simp add: load_swap_parent_def Let_def demo_view_words demo_slot0_decode UNISWAP_V3_SURFACE_def
      from_limbs_def validate_parent_slot0_def sqrt_ratio_min sqrt_ratio_max sqrt_ratio_zero demo_prices
      word_eval)
     (simp add: demo_parent_def demo_slot0_def sqrt_ratio_zero demo_prices word_eval)

lemma demo_direction: "swap_direction demo_swap (sp_slot0 demo_parent) = Inr False"
  by (simp add: swap_direction_def swap_signs_def unchanged_tiny_swap_def demo_swap_def demo_parent_def
      validate_final_tick_def Let_def sqrt_ratio_min sqrt_ratio_max demo_prices)

definition demo_now :: observation where
  "demo_now = \<lparr>obs_timestamp = 2000, obs_tick_cumulative = 0,
     obs_seconds_per_liquidity_cumulative_x128 = 340282366920938463463374, obs_initialized = True\<rparr>"

lemma demo_observation_decode: "observation_decode demo_observation
    = \<lparr>obs_timestamp = 1000, obs_tick_cumulative = 0, obs_seconds_per_liquidity_cumulative_x128 = 0,
       obs_initialized = True\<rparr>"
  by (simp add: observation_decode_def demo_observation_def signed_from_bits_def Let_def word_eval)

lemma demo_transform: "observation_transform \<lparr>obs_timestamp = 1000, obs_tick_cumulative = 0,
    obs_seconds_per_liquidity_cumulative_x128 = 0, obs_initialized = True\<rparr> 2000 0 1000000000000000000 = demo_now"
  by (simp add: observation_transform_def demo_now_def Let_def wrapping_signed_add_def signed_from_bits_def
      unsigned_bits_def word_eval)

lemma demo_encode: "observation_encode demo_now = 452312848583266388373324265502478808609022575517998145922812786964535707600"
  by (simp add: observation_encode_def demo_now_def unsigned_bits_def word_eval)

lemma demo_oracle:
  "swap_oracle demo_pool demo_parent demo_swap demo_ctx demo_view = Inr (0, 1, Some (8, 452312848583266388373324265502478808609022575517998145922812786964535707600), demo_now)"
  by (simp add: swap_oracle_def advance_oracle_def Let_def demo_context UNISWAP_V3_SURFACE_def from_limbs_def)
     (simp add: demo_parent_def demo_swap_def demo_view_words demo_observation_decode demo_transform demo_encode
       demo_context Let_def)

definition demo_segment :: segment where
  "demo_segment = \<lparr>seg_sqrt_start = 2 ^ 96, seg_sqrt_end = 79236061562067009748002026667,
     seg_liquidity = 1000000000000000000, seg_amount_in = 99700000000000, seg_amount_out = 99690060900928,
     seg_reached_boundary = False, seg_crossed_tick = None\<rparr>"

definition demo_walk :: walk where
  "demo_walk = \<lparr>wk_ticks = [], wk_segments = [demo_segment], wk_sqrt = 79236061562067009748002026667,
     wk_tick = 1, wk_liquidity = 1000000000000000000, wk_steps = 1\<rparr>"

lemma demo_boundary: "next_step_boundary demo_hash demo_pool (layout_uniswap 10) 0 False demo_view
    = Inr \<lparr>sb_tick = 2550, sb_initialized = False\<rparr>"
  by (simp add: next_step_boundary_def search_position_def div_euclid_def i32_checked_def i32_range_def
      search_word_def Let_def v3_tick_bitmap_storage_key_with_base_def demo_hash_def demo_view_words clamp_tick_def)

lemma demo_amounts: "segment_amounts (2 ^ 96) 79236061562067009748002026667 1000000000000000000 False
    = Inr (99700000000000, 99690060900928)"
proof -
  have "amount1_delta (2 ^ 96) 79236061562067009748002026667 1000000000000000000 True = Inr 99700000000000"
    by (subst amount1_delta_eq_Inr) (simp_all add: round_div_def)
  moreover have "amount0_delta (2 ^ 96) 79236061562067009748002026667 1000000000000000000 False = Inr 99690060900928"
    by (subst amount0_delta_eq_Inr) (simp_all add: round_div_def)
  ultimately show ?thesis by (simp add: segment_amounts_def)
qed

lemma demo_walk_loop: "walk_loop demo_hash demo_pool (layout_uniswap 10) demo_swap False demo_view (walk_start demo_parent)
    = Inr demo_walk"
proof -
  have start: "walk_start demo_parent = \<lparr>wk_ticks = [], wk_segments = [], wk_sqrt = 2 ^ 96, wk_tick = 0,
      wk_liquidity = 1000000000000000000, wk_steps = 0\<rparr>"
    by (simp add: walk_start_def demo_parent_def)
  have price: "sw_sqrt_price_x96 demo_swap = 79236061562067009748002026667" "sw_tick demo_swap = 1"
    by (simp_all add: demo_swap_def)
  have "consume_step 0 = Inr 1" by (simp add: consume_step_eq_Inr)
  then have step: "walk_step demo_hash demo_pool (layout_uniswap 10) demo_swap False demo_view (walk_start demo_parent)
      = Inr demo_walk"
    using demo_amounts
    by (simp add: walk_step_def start price demo_boundary demo_prices cross_boundary_def min_def Let_def
        demo_walk_def demo_segment_def)
  show ?thesis
    by (subst walk_loop.simps) (simp add: step, simp add: start price walk_loop.simps demo_walk_def)
qed

lemma demo_full_fee: "fee_for_full_step 99700000000000 3000 = Inr 300000000000"
  by (simp add: fee_for_full_step_eq_Inr round_div_def)

lemma demo_totals: "swap_totals (wk_segments demo_walk) demo_swap False 3000 = Inr (300000000000, False)"
proof -
  have sums: "checked_sum [99700000000000] = Inr 99700000000000" "checked_sum [99690060900928] = Inr 99690060900928"
    by (simp_all add: checked_sum_eq_Inr)
  have "checked_sub 100000000000000 (99700000000000 :: u256) = Some 300000000000" by (simp add: checked_sub_eq_Some)
  then show ?thesis
    by (simp add: swap_totals_def Let_def demo_walk_def demo_segment_def demo_swap_def sums
        swap_actual_input_def swap_actual_output_def output_is_capped_def)
qed

definition demo_fees :: fee_state where
  "demo_fees = \<lparr>fs_remaining = 0, fs_fee_growth_0 = 5, fs_fee_growth_1 = 76563532557211154279259286672154, fs_protocol_fees = 25521177519070384759753095557382615859200000000009,
     fs_ticks = [], fs_updates = []\<rparr>"

lemma demo_allocate: "allocate_fees demo_pool demo_parent 3000 False demo_now 2000 [] [demo_segment] 300000000000
    = Inr demo_fees"
proof -
  have valid: "valid_final_step_fee (2 ^ 96) 79236061562067009748002026667 1000000000000000000 99700000000000
      300000000000 3000 False = Inr True"
    by (simp add: valid_final_step_fee_def demo_full_fee)
  have sub: "checked_sub 300000000000 (300000000000 :: u256) = Some 0" by (simp add: checked_sub_eq_Some)
  have growth: "mul_div 225000000000 Q128 1000000000000000000 = Inr 76563532557211154279259286672147"
    by (simp add: mul_div_eq_Inr)
  show ?thesis
    using valid sub growth
    by (simp add: allocate_fees_def Let_def demo_parent_def demo_segment_def fee_step_def segment_fee_def
        fee_split_def demo_fees_def add_token1_def word_eval)
qed

definition demo_updates :: "state_update list" where
  "demo_updates =
    [Slot demo_pool 0 2236165921674041273730308049072963223259851071401717125765581299591820459,
     Slot demo_pool 1 5,
     Slot demo_pool 2 76563532557211154279259286672154,
     Slot demo_pool 3 25521177519070384759753095557382615859200000000009,
     Slot demo_pool 4 1000000000000000000,
     Slot demo_pool 8 452312848583266388373324265502478808609022575517998145922812786964535707600]"

lemma demo_run: "derive_uniswap_v3_swap demo_hash demo_pool (layout_uniswap 10) 3000 demo_swap demo_ctx demo_view
    = Inr demo_updates"
proof -
  have finish: "finish_walk demo_swap (unchanged_tiny_swap demo_swap (sp_slot0 demo_parent) False) demo_walk = Inr demo_walk"
    by (simp add: finish_walk_def demo_walk_def demo_swap_def)
  have only: "fee_only_step demo_walk 300000000000 False 3000 False = Inr [demo_segment]"
    by (simp add: fee_only_step_def demo_walk_def demo_segment_def)
  have enc: "encode_final (sp_slot0 demo_parent) 79236061562067009748002026667 1 0 1 = 2236165921674041273730308049072963223259851071401717125765581299591820459"
    by (simp add: encode_final_def Let_def demo_parent_def demo_slot0_def tick_bits_def word_eval)
  have wk: "wk_ticks demo_walk = []" "wk_liquidity demo_walk = 1000000000000000000" by (simp_all add: demo_walk_def)
  show ?thesis
    by (simp add: derive_uniswap_v3_swap_def demo_context demo_event demo_load demo_direction demo_oracle
        zero_distance_step_def demo_walk_loop finish demo_totals only wk demo_allocate)
      (simp add: swap_updates_def demo_updates_def demo_swap_def enc demo_fees_def UNISWAP_V3_SURFACE_def from_limbs_def)
qed

end
