(* ===== verification/V3_Liquidity.thy ===== *)
theory V3_Liquidity
  imports Tick_Bitmap Fee_Lanes
begin

text \<open>
  \<open>derive_uniswap_v3_liquidity\<close> of \<open>src/adapters/v3_transition.rs\<close>: the boundary ticks, bitmap
  words, oracle entry and active liquidity that a canonical Mint or Burn changes. A boundary
  whose bitmap or tick words are not cached is reported as a list of cold slots instead of
  being guessed.
\<close>

section \<open>Events and tick updates\<close>

record decoded_liquidity =
  dl_tick_lower :: i32
  dl_tick_upper :: i32
  dl_amount :: u128
  dl_is_mint :: bool

record canonical_tick_update =
  ctu_keys :: "u256 list"
  ctu_words :: "u256 list"
  ctu_was_initialized :: bool
  ctu_is_initialized :: bool

text \<open>What the update of a boundary takes from the parent state and the event.\<close>

record liquidity_env =
  le_address :: address
  le_layout :: v3_storage_layout
  le_current_tick :: i32
  le_amount :: i128
  le_is_mint :: bool
  le_max_liquidity_per_tick :: u256
  le_fee_growth_0 :: u256
  le_fee_growth_1 :: u256
  le_now :: observation
  le_timestamp :: u32

text \<open>The four words of the tick: read when the bitmap bit is set, known to be zero when it is clear.\<close>

definition read_tick_words ::
  "liquidity_env \<Rightarrow> i32 \<Rightarrow> bool \<Rightarrow> u256 list \<Rightarrow> state_view \<Rightarrow> u256 list result" where
  "read_tick_words env tick bitmap_indicates_initialized keys state =
    (if bitmap_indicates_initialized then rmap (required state (le_address env)) keys
     else if (case state (le_address env) (keys ! 0) of
                None \<Rightarrow> False | Some word \<Rightarrow> word AND WORD_128_MASK \<noteq> 0)
     then Inl (initialized_tick_error tick ''bitmap bit is clear for a tick holding liquidity'')
     else Inr [0, 0, 0, 0])"

definition validate_tick_words :: "i32 \<Rightarrow> u256 list \<Rightarrow> unit result" where
  "validate_tick_words tick words =
    (let was_initialized = (words ! 0 AND WORD_128_MASK \<noteq> 0);
         initialized_flag = ((ucast (drop_bit 248 (words ! 3) AND ucast (- 1 :: u8)) :: u8) = 1)
     in if was_initialized \<noteq> initialized_flag
        then Inl (initialized_tick_error tick ''Tick.Info initialized flag disagrees with liquidityGross'')
        else if \<not> was_initialized \<and> list_ex (\<lambda>word. word \<noteq> 0) words
        then Inl (initialized_tick_error tick ''uninitialized Tick.Info contains nonzero state'')
        else Inr ())"

text \<open>Checked \<open>i128\<close> addition.\<close>

definition i128_checked_add :: "i128 \<Rightarrow> i128 \<Rightarrow> i128 option" where
  "i128_checked_add a b = (if - (2 ^ 127) \<le> a + b \<and> a + b < 2 ^ 127 then Some (a + b) else None)"

definition next_gross :: "liquidity_env \<Rightarrow> u256 \<Rightarrow> u256 result" where
  "next_gross env old_gross =
    (let amount_u256 = (word_of_int (le_amount env) :: u256)
     in rbind (if le_is_mint env
               then ok_or (checked_add old_gross amount_u256) (arithmetic ''tick liquidityGross overflow'')
               else ok_or (checked_sub old_gross amount_u256) (arithmetic ''tick liquidityGross underflow''))
          (\<lambda>new_gross.
        if le_max_liquidity_per_tick env < new_gross
        then Inl (arithmetic ''tick liquidityGross exceeds maxLiquidityPerTick'')
        else Inr new_gross))"

definition next_net :: "liquidity_env \<Rightarrow> bool \<Rightarrow> i128 \<Rightarrow> i128 result" where
  "next_net env upper old_net =
    (let delta = (if le_is_mint env then le_amount env else - le_amount env);
         net_delta = (if upper then - delta else delta)
     in ok_or (i128_checked_add old_net net_delta) (arithmetic ''tick liquidityNet overflow''))"

text \<open>
  The outside words of a tick that becomes initialized: all growth so far counts as below it
  when it is at or below the current tick.
\<close>

definition outside_words :: "liquidity_env \<Rightarrow> i32 \<Rightarrow> u256 list \<Rightarrow> u256 list" where
  "outside_words env tick words =
    (if tick \<le> le_current_tick env
     then words[1 := le_fee_growth_0 env, 2 := le_fee_growth_1 env,
            3 := unsigned_bits (obs_tick_cumulative (le_now env)) 56
                 OR push_bit 56 (obs_seconds_per_liquidity_cumulative_x128 (le_now env) AND WORD_160_MASK)
                 OR push_bit 216 (ucast (le_timestamp env))
                 OR push_bit 248 1]
     else words[3 := push_bit 248 1])"

definition update_canonical_liquidity_tick ::
  "keccak \<Rightarrow> liquidity_env \<Rightarrow> i32 \<Rightarrow> bool \<Rightarrow> bool \<Rightarrow> state_view \<Rightarrow> canonical_tick_update result" where
  "update_canonical_liquidity_tick keccak256 env tick upper bitmap_indicates_initialized state =
    (let keys = v3_tick_info_storage_keys_with_base keccak256 tick (ticks_base_slot (le_layout env))
     in rbind (read_tick_words env tick bitmap_indicates_initialized keys state) (\<lambda>words.
        rbind (validate_tick_words tick words) (\<lambda>_.
        let old_gross = words ! 0 AND WORD_128_MASK;
            old_net = as_i128 (drop_bit 128 (words ! 0) AND WORD_128_MASK);
            was_initialized = (old_gross \<noteq> 0)
        in rbind (next_gross env old_gross) (\<lambda>new_gross.
           rbind (next_net env upper old_net) (\<lambda>new_net.
           let is_initialized = (new_gross \<noteq> 0);
               words = (if \<not> was_initialized \<and> is_initialized then outside_words env tick words else words);
               words = words[0 := new_gross OR push_bit 128 (ucast (word_of_int new_net :: u128))];
               words = (if \<not> is_initialized then [0, 0, 0, 0] else words)
           in Inr \<lparr>ctu_keys = keys, ctu_words = words, ctu_was_initialized = was_initialized,
                   ctu_is_initialized = is_initialized\<rparr>)))))"

section \<open>Checks and parent words\<close>

definition validate_liquidity_event ::
  "v3_storage_layout \<Rightarrow> decoded_liquidity \<Rightarrow> unit result" where
  "validate_liquidity_event layout event =
    (if layout \<noteq> layout_uniswap (tick_spacing layout)
     then Inl (contradiction ''exact Uniswap V3 transition requires the canonical storage layout'')
     else if tick_spacing layout \<le> 0
     then Inl (contradiction ''Uniswap V3 tick spacing must be positive'')
     else if dl_tick_lower event < - 887272 \<or> 887272 < dl_tick_upper event
        \<or> dl_tick_upper event \<le> dl_tick_lower event
        \<or> dl_tick_lower event mod tick_spacing layout \<noteq> 0
        \<or> dl_tick_upper event mod tick_spacing layout \<noteq> 0
     then Inl (contradiction ''Uniswap V3 liquidity range is invalid or not spacing-aligned'')
     else Inr ())"

record liquidity_parent =
  lp_slot0 :: slot0_word
  lp_active_liquidity :: u256
  lp_max_liquidity_per_tick :: u256
  lp_advance :: oracle_advance
  lp_fee_growth_0 :: u256
  lp_fee_growth_1 :: u256
  lp_timestamp :: u32

definition load_liquidity_parent ::
  "address \<Rightarrow> v3_storage_layout \<Rightarrow> adapter_event_context \<Rightarrow> state_view \<Rightarrow> liquidity_parent result" where
  "load_liquidity_parent addr layout ctx state =
    rbind (required state addr (slot0_slot layout)) (\<lambda>slot0_raw.
    let slot0 = slot0_decode slot0_raw
    in if (ucast (drop_bit 240 (s0_raw slot0) AND ucast (- 1 :: u8)) :: u8) \<noteq> 1
       then Inl (contradiction ''parent slot0 is locked'')
       else rbind (validate_parent_slot0 slot0) (\<lambda>_.
            rbind (required state addr (liquidity_slot layout)) (\<lambda>active_liquidity.
            if WORD_128_MASK < active_liquidity
            then Inl (contradiction ''parent V3 liquidity exceeds uint128'')
            else rbind (ok_or (uniswap_v3_max_liquidity_per_tick (tick_spacing layout))
                     (contradiction ''no canonical maxLiquidityPerTick for this tick spacing'')) (\<lambda>max'.
                 rbind (advance_oracle addr UNISWAP_V3_SURFACE slot0 active_liquidity ctx state) (\<lambda>adv.
                 rbind (required state addr (fee_growth_0_slot UNISWAP_V3_SURFACE)) (\<lambda>fee_growth_0.
                 rbind (required state addr (fee_growth_1_slot UNISWAP_V3_SURFACE)) (\<lambda>fee_growth_1.
                 rbind (event_timestamp ctx) (\<lambda>timestamp.
                 Inr \<lparr>lp_slot0 = slot0, lp_active_liquidity = active_liquidity,
                      lp_max_liquidity_per_tick = max', lp_advance = adv, lp_fee_growth_0 = fee_growth_0,
                      lp_fee_growth_1 = fee_growth_1, lp_timestamp = timestamp\<rparr>))))))))"

section \<open>Boundaries and bitmap words\<close>

text \<open>
  A \<open>BTreeMap\<close> is an association list sorted by key. \<open>bt_entry\<close> is \<open>entry(k).or_insert(v)\<close>, and
  \<open>bt_set\<close> overwrites the value of a present key.
\<close>

definition bt_entry :: "u256 \<Rightarrow> 'a \<Rightarrow> (u256 \<times> 'a) list \<Rightarrow> (u256 \<times> 'a) list" where
  "bt_entry k v m = (if map_of m k \<noteq> None then m else insort_key fst (k, v) m)"

definition bt_set :: "u256 \<Rightarrow> 'a \<Rightarrow> (u256 \<times> 'a) list \<Rightarrow> (u256 \<times> 'a) list" where
  "bt_set k v m = map (\<lambda>(k', w). (k', if k' = k then v else w)) m"

type_synonym bitmap_values = "(u256 \<times> u256 option) list"

record boundary_position =
  bp_tick :: i32
  bp_upper :: bool
  bp_slot :: u256
  bp_mask :: u256
  bp_value :: "u256 option"

definition boundary_position ::
  "keccak \<Rightarrow> address \<Rightarrow> v3_storage_layout \<Rightarrow> state_view \<Rightarrow> i32 \<Rightarrow> bool \<Rightarrow> bitmap_values
    \<Rightarrow> (bitmap_values \<times> boundary_position) result" where
  "boundary_position keccak256 addr layout state tick upper values =
    rbind (v3_word_position tick (tick_spacing layout)) (\<lambda>word.
    let slot = v3_tick_bitmap_storage_key_with_base keccak256 word (tick_bitmap_base_slot layout);
        values' = bt_entry slot (state addr slot) values
    in rbind (expect (map_of values' slot) ''entry'') (\<lambda>value.
       rbind (div_euclid tick (tick_spacing layout)) (\<lambda>compressed.
       Inr (values', \<lparr>bp_tick = tick, bp_upper = upper, bp_slot = slot,
            bp_mask = push_bit (nat (compressed mod 256)) 1, bp_value = value\<rparr>))))"

definition boundary_positions ::
  "keccak \<Rightarrow> address \<Rightarrow> v3_storage_layout \<Rightarrow> decoded_liquidity \<Rightarrow> state_view
    \<Rightarrow> (bitmap_values \<times> boundary_position list) result" where
  "boundary_positions keccak256 addr layout event state =
    rbind (boundary_position keccak256 addr layout state (dl_tick_lower event) False []) (\<lambda>(values, lower).
    rbind (boundary_position keccak256 addr layout state (dl_tick_upper event) True values) (\<lambda>(values, upper).
    Inr (values, [lower, upper])))"

text \<open>A boundary is \<open>None\<close> when a word it needs is not cached; any other failure is final.\<close>

definition resolve_boundary ::
  "keccak \<Rightarrow> liquidity_env \<Rightarrow> state_view \<Rightarrow> boundary_position \<Rightarrow> canonical_tick_update option result" where
  "resolve_boundary keccak256 env state pos =
    (case bp_value pos of
       None \<Rightarrow> Inr None
     | Some bitmap \<Rightarrow>
         (case update_canonical_liquidity_tick keccak256 env (bp_tick pos) (bp_upper pos)
                 (bitmap AND bp_mask pos \<noteq> 0) state of
            Inr update \<Rightarrow> Inr (Some update)
          | Inl (MissingState _ _) \<Rightarrow> Inr None
          | Inl error \<Rightarrow> Inl error))"

definition boundary_writes ::
  "keccak \<Rightarrow> address \<Rightarrow> v3_storage_layout \<Rightarrow> (canonical_tick_update option \<times> boundary_position) list
    \<Rightarrow> state_update list \<times> u256 list" where
  "boundary_writes keccak256 addr layout boundaries =
    (concat (map (\<lambda>(boundary, pos). case boundary of
         Some update \<Rightarrow> map (\<lambda>(slot, value). Slot addr slot value) (zip (ctu_keys update) (ctu_words update))
       | None \<Rightarrow> []) boundaries),
     concat (map (\<lambda>(boundary, pos). case boundary of
         Some update \<Rightarrow> []
       | None \<Rightarrow> v3_tick_info_storage_keys_with_base keccak256 (bp_tick pos) (ticks_base_slot layout)
                 @ [bp_slot pos]) boundaries))"

definition flip_bitmap ::
  "canonical_tick_update option \<times> boundary_position \<Rightarrow> bitmap_values \<times> u256 list
    \<Rightarrow> (bitmap_values \<times> u256 list) result" where
  "flip_bitmap = (\<lambda>(boundary, pos) (values, changed).
    (case boundary of
       None \<Rightarrow> Inr (values, changed)
     | Some update \<Rightarrow>
         rbind (expect (map_of values (bp_slot pos)) ''seeded above'') (\<lambda>entry.
         rbind (expect entry ''a resolved boundary read its bitmap word'') (\<lambda>bitmap.
         let bitmap_is_set = (bitmap AND bp_mask pos \<noteq> 0)
         in if bitmap_is_set \<noteq> ctu_was_initialized update
            then Inl (initialized_tick_error (bp_tick pos)
                   ''bitmap disagrees with parent Tick.Info initialization'')
            else if ctu_was_initialized update \<noteq> ctu_is_initialized update
            then Inr (bt_set (bp_slot pos) (Some (bitmap XOR bp_mask pos)) values, bp_slot pos # changed)
            else Inr (values, changed)))))"

fun flip_bitmaps ::
  "(canonical_tick_update option \<times> boundary_position) list \<Rightarrow> bitmap_values \<times> u256 list
    \<Rightarrow> (bitmap_values \<times> u256 list) result" where
  "flip_bitmaps [] acc = Inr acc"
| "flip_bitmaps (b # bs) acc = rbind (flip_bitmap b acc) (flip_bitmaps bs)"

definition bitmap_writes :: "address \<Rightarrow> bitmap_values \<Rightarrow> u256 list \<Rightarrow> u256 list \<Rightarrow> state_update list" where
  "bitmap_writes addr values changed cold =
    concat (map (\<lambda>(slot, value). case value of None \<Rightarrow> [] | Some v \<Rightarrow> [Slot addr slot v])
      (filter (\<lambda>(slot, _). slot \<in> set changed \<and> slot \<notin> set cold) values))"

section \<open>Active liquidity and the transition\<close>

definition in_range_writes ::
  "address \<Rightarrow> v3_storage_layout \<Rightarrow> decoded_liquidity \<Rightarrow> liquidity_parent \<Rightarrow> state_update list result" where
  "in_range_writes addr layout event parent =
    (let slot0 = lp_slot0 parent
     in if dl_tick_lower event \<le> s0_tick slot0 \<and> s0_tick slot0 < dl_tick_upper event
        then rbind (if dl_is_mint event
                    then ok_or (checked_add (lp_active_liquidity parent) (ucast (dl_amount event)))
                           (arithmetic ''active liquidity overflow'')
                    else ok_or (checked_sub (lp_active_liquidity parent) (ucast (dl_amount event)))
                           (arithmetic ''active liquidity underflow'')) (\<lambda>next_liquidity.
             if WORD_128_MASK < next_liquidity then Inl (arithmetic ''active liquidity exceeds uint128'')
             else case lp_advance parent of (observation_index, observation_cardinality, oracle_write, _) \<Rightarrow>
                  Inr ((case oracle_write of
                          None \<Rightarrow> []
                        | Some (slot, value) \<Rightarrow>
                            [Slot addr slot value,
                             Slot addr (slot0_slot layout)
                               (encode_final slot0 (s0_sqrt_price_x96 slot0) (s0_tick slot0)
                                  observation_index observation_cardinality)])
                       @ [Slot addr (liquidity_slot layout) next_liquidity]))
        else Inr [])"

record canonical_liquidity_transition =
  clt_updates :: "state_update list"
  clt_cold_slots :: "u256 list"

definition liquidity_env_of ::
  "address \<Rightarrow> v3_storage_layout \<Rightarrow> decoded_liquidity \<Rightarrow> liquidity_parent \<Rightarrow> liquidity_env" where
  "liquidity_env_of addr layout event parent = \<lparr>
     le_address = addr, le_layout = layout, le_current_tick = s0_tick (lp_slot0 parent),
     le_amount = uint (dl_amount event), le_is_mint = dl_is_mint event,
     le_max_liquidity_per_tick = lp_max_liquidity_per_tick parent,
     le_fee_growth_0 = lp_fee_growth_0 parent, le_fee_growth_1 = lp_fee_growth_1 parent,
     le_now = snd (snd (snd (lp_advance parent))), le_timestamp = lp_timestamp parent\<rparr>"

definition derive_uniswap_v3_liquidity ::
  "keccak \<Rightarrow> address \<Rightarrow> v3_storage_layout \<Rightarrow> decoded_liquidity \<Rightarrow> adapter_event_context \<Rightarrow> state_view
    \<Rightarrow> canonical_liquidity_transition result" where
  "derive_uniswap_v3_liquidity keccak256 addr layout event ctx state =
    rbind (validate_context ctx) (\<lambda>_.
    rbind (validate_liquidity_event layout event) (\<lambda>_.
    if dl_amount event = 0
    then if dl_is_mint event then Inl (contradiction ''Uniswap V3 Mint liquidity must be positive'')
         else Inr \<lparr>clt_updates = [], clt_cold_slots = []\<rparr>
    else if 2 ^ 127 \<le> uint (dl_amount event) then Inl (arithmetic ''liquidity amount exceeds int128'')
    else
      rbind (load_liquidity_parent addr layout ctx state) (\<lambda>parent.
      let env = liquidity_env_of addr layout event parent
      in rbind (boundary_positions keccak256 addr layout event state) (\<lambda>(values, positions).
         rbind (rmap (resolve_boundary keccak256 env state) positions) (\<lambda>boundaries.
         let pairs = zip boundaries positions;
             (tick_writes, cold_slots) = boundary_writes keccak256 addr layout pairs
         in rbind (flip_bitmaps pairs (values, [])) (\<lambda>(values, changed).
            rbind (in_range_writes addr layout event parent) (\<lambda>range_writes.
            Inr \<lparr>clt_updates = tick_writes @ bitmap_writes addr values changed cold_slots @ range_writes,
                 clt_cold_slots = remdups_adj (sort cold_slots)\<rparr>)))))))"

end
