(* ===== verification/V3_Liquidity_Facts.thy ===== *)
theory V3_Liquidity_Facts
  imports V3_Liquidity
begin

text \<open>
  Facts about canonical Mint and Burn: the effect of a boundary update on the tick's words, its
  inverse, the bitmap bit of every boundary, the active liquidity, and the absence of aborts.
\<close>

section \<open>Tick words\<close>

definition tick_gross :: "u256 \<Rightarrow> int" where
  "tick_gross w = uint (field 0 128 w)"

definition tick_net :: "u256 \<Rightarrow> int" where
  "tick_net w = as_i128 (field 128 128 w)"

lemma tick_gross_eq_0: "w AND WORD_128_MASK = 0 \<longleftrightarrow> tick_gross w = 0"
  unfolding WORD_128_MASK_eq and_mask_field tick_gross_def by (simp add: uint_0_iff)

lemma pack_tick_word:
  assumes "uint g < 2 ^ 128" "- (2 ^ 127) \<le> n" "n < 2 ^ 127"
  defines "w \<equiv> g OR push_bit 128 (ucast (word_of_int n :: u128))"
  shows "field 0 128 w = g" "tick_gross w = uint g" "tick_net w = n"
proof -
  have g: "take_bit 128 g = g" using assms(1) by (rule take_bit_of_small)
  define h :: u256 where "h = ucast (word_of_int n :: u128)"
  have h: "take_bit 128 h = h" unfolding h_def by (rule take_bit_ucast_self) simp
  show f: "field 0 128 w = g"
    unfolding w_def h_def [symmetric] by (simp add: field_low [OF g] field_push_below)
  then show "tick_gross w = uint g" by (simp add: tick_gross_def)
  have "field 128 128 w = h"
    unfolding w_def h_def [symmetric] by (simp add: field_low_above [OF g] field_push_same h)
  then have "tick_net w = sint (ucast h :: u128)" by (simp add: tick_net_def as_i128_def)
  also have "ucast h = (word_of_int n :: u128)" unfolding h_def by (rule ucast_ucast_id_256) simp
  also have "sint (word_of_int n :: u128) = n"
    using assms by (simp add: sint_sbintrunc' signed_take_bit_int_eq_self_iff)
  finally show "tick_net w = n" .
qed

lemma unpack_tick_word: "w = field 0 128 w OR push_bit 128 (ucast (word_of_int (tick_net w) :: u128))"
proof -
  have "(word_of_int (tick_net w) :: u128) = ucast (field 128 128 w)" by (simp add: tick_net_def as_i128_def)
  moreover have "ucast (ucast (field 128 128 w) :: u128) = field 128 128 w"
    using uint_field_less [of 128 128 w] by (intro word_uint_eqI) (simp add: uint_ucast_down order_less_trans)
  ultimately have "field 0 128 w OR push_bit 128 (ucast (word_of_int (tick_net w) :: u128))
      = field 0 128 w OR push_bit 128 (field 128 128 w)" by simp
  also have "\<dots> = w" by (rule bit_word_eqI) (auto simp: bit_simps)
  finally show ?thesis by simp
qed

lemma max_liquidity_per_tick_range:
  assumes "uniswap_v3_max_liquidity_per_tick sp = Some m"
  shows "uint m < 2 ^ 128"
proof -
  obtain d :: u256 where "m = ucast (- 1 :: u128) div d"
    using assms by (auto simp: uniswap_v3_max_liquidity_per_tick_def Let_def split: if_splits)
  then have "uint m = uint (ucast (- 1 :: u128) :: u256) div uint d" by (simp add: uint_div)
  also have "uint (ucast (- 1 :: u128) :: u256) = 2 ^ 128 - 1"
    by (simp add: unsigned_minus_1_eq_mask mask_eq_exp_minus_1)
  also have "(2 ^ 128 - 1) div uint d \<le> 2 ^ 128 - 1"
    using uint_pos_iff [of d] zdiv_mono2 [of "2 ^ 128 - 1" 1 "uint d"] by (cases "d = 0") simp_all
  finally show ?thesis by simp
qed

section \<open>One boundary\<close>

lemma read_tick_words_length:
  assumes "read_tick_words env t b keys s = Inr words" "length keys = 4"
  shows "length words = 4"
  using assms rmap_eq_Inr_length by (fastforce simp: read_tick_words_def split: if_splits)

lemma validate_tick_words_okD:
  assumes "validate_tick_words t words = Inr u" "length words = 4"
  shows "tick_gross (words ! 0) \<noteq> 0 \<longleftrightarrow> field 248 8 (words ! 3) = 1"
    "tick_gross (words ! 0) = 0 \<Longrightarrow> words = [0, 0, 0, 0]"
proof -
  have "uint (ucast (field 248 8 w) :: u8) = uint (field 248 8 w)" for w
    using uint_field_less [of 248 8 w] by (intro uint_ucast_down) simp
  then have flag: "(ucast (drop_bit 248 w AND ucast (- 1 :: u8)) :: u8) = 1 \<longleftrightarrow> field 248 8 w = 1" for w
    unfolding ucast_minus_1 drop_and_mask_field by (simp add: word_uint_eq_iff)
  have v: "(tick_gross (words ! 0) \<noteq> 0) = (field 248 8 (words ! 3) = 1)"
    "tick_gross (words ! 0) = 0 \<Longrightarrow> \<not> list_ex (\<lambda>w. w \<noteq> 0) words"
    using assms(1) unfolding validate_tick_words_def Let_def flag tick_gross_eq_0 by (auto split: if_splits)
  show "tick_gross (words ! 0) \<noteq> 0 \<longleftrightarrow> field 248 8 (words ! 3) = 1" by (rule v)
  assume "tick_gross (words ! 0) = 0"
  then have "\<forall>w \<in> set words. w = 0" using v(2) by (auto simp: list_ex_iff)
  then show "words = [0, 0, 0, 0]"
    using assms(2) by (auto simp: list_eq_iff_nth_eq less_Suc_eq numeral_nat all_set_conv_all_nth)
qed

definition signed_amount :: "liquidity_env \<Rightarrow> int" where
  "signed_amount env = (if le_is_mint env then le_amount env else - le_amount env)"

lemma next_gross_eq_Inr:
  assumes "0 \<le> le_amount env" "le_amount env < 2 ^ 127"
  shows "next_gross env g = Inr r \<longleftrightarrow>
    uint r = uint g + signed_amount env \<and> uint r \<le> uint (le_max_liquidity_per_tick env)"
proof -
  have a: "uint (word_of_int (le_amount env) :: u256) = le_amount env"
    using assms by (intro uint_word_of_int_id) simp_all
  show ?thesis
    by (auto simp: next_gross_def Let_def rbind_eq_Inr checked_add_eq_Some checked_sub_eq_Some a
        signed_amount_def word_le_def not_less)
qed

lemma next_net_eq_Inr:
  "next_net env upper n = Inr r \<longleftrightarrow>
    r = n + (if upper then - signed_amount env else signed_amount env) \<and> - (2 ^ 127) \<le> r \<and> r < 2 ^ 127"
  by (auto simp: next_net_def Let_def i128_checked_add_def signed_amount_def)

lemma length_outside_words [simp]: "length (outside_words env t words) = length words"
  by (simp add: outside_words_def)

text \<open>What an update makes of the words it read.\<close>

definition next_tick_words :: "liquidity_env \<Rightarrow> i32 \<Rightarrow> bool \<Rightarrow> u256 list \<Rightarrow> u256 \<Rightarrow> u256 list" where
  "next_tick_words env t upper words g =
    (if g = 0 then [0, 0, 0, 0]
     else (if tick_gross (words ! 0) = 0 then outside_words env t words else words)
       [0 := g OR push_bit 128 (ucast (word_of_int (tick_net (words ! 0)
          + (if upper then - signed_amount env else signed_amount env)) :: u128))])"

lemma update_tick_eq_Inr:
  assumes "0 \<le> le_amount env" "le_amount env < 2 ^ 127"
  shows "update_canonical_liquidity_tick keccak256 env t upper b s = Inr u \<longleftrightarrow>
    (\<exists>words g. read_tick_words env t b (v3_tick_info_storage_keys_with_base keccak256 t (ticks_base_slot (le_layout env))) s = Inr words
      \<and> validate_tick_words t words = Inr ()
      \<and> uint g = tick_gross (words ! 0) + signed_amount env \<and> uint g \<le> uint (le_max_liquidity_per_tick env)
      \<and> - (2 ^ 127) \<le> tick_net (words ! 0) + (if upper then - signed_amount env else signed_amount env)
      \<and> tick_net (words ! 0) + (if upper then - signed_amount env else signed_amount env) < 2 ^ 127
      \<and> u = \<lparr>ctu_keys = v3_tick_info_storage_keys_with_base keccak256 t (ticks_base_slot (le_layout env)),
             ctu_words = next_tick_words env t upper words g,
             ctu_was_initialized = (tick_gross (words ! 0) \<noteq> 0), ctu_is_initialized = (g \<noteq> 0)\<rparr>)"
proof -
  have nz: "field 0 128 w = 0 \<longleftrightarrow> tick_gross w = 0" for w by (simp add: tick_gross_def uint_0_iff)
  have net: "as_i128 (field 128 128 w) = tick_net w" for w by (simp add: tick_net_def)
  have gr: "uint (field 0 128 w) = tick_gross w" for w by (simp add: tick_gross_def)
  define keys where "keys = v3_tick_info_storage_keys_with_base keccak256 t (ticks_base_slot (le_layout env))"
  note unfolds = update_canonical_liquidity_tick_def Let_def keys_def [symmetric] WORD_128_MASK_eq
    and_mask_field field_0_drop net
  show ?thesis
  proof (cases "read_tick_words env t b keys s")
    case (Inl e)
    then show ?thesis unfolding unfolds by simp
  next
    case words: (Inr words)
    show ?thesis
    proof (cases "validate_tick_words t words")
      case (Inl e)
      then show ?thesis unfolding unfolds words by simp
    next
      case (Inr v)
      define F where "F g = \<lparr>ctu_keys = keys, ctu_words = next_tick_words env t upper words g,
          ctu_was_initialized = (tick_gross (words ! 0) \<noteq> 0), ctu_is_initialized = (g \<noteq> 0)\<rparr>" for g
      have run: "update_canonical_liquidity_tick keccak256 env t upper b s = Inr (F g)"
        if "next_gross env (field 0 128 (words ! 0)) = Inr g" "next_net env upper (tick_net (words ! 0)) = Inr n" for g n
      proof -
        have n: "n = tick_net (words ! 0) + (if upper then - signed_amount env else signed_amount env)"
          using that(2) by (simp only: next_net_eq_Inr)
        show ?thesis
          unfolding unfolds words Inr rbind_simps that F_def next_tick_words_def nz n [symmetric] by simp
      qed
      have "update_canonical_liquidity_tick keccak256 env t upper b s = Inr u \<longleftrightarrow>
          (\<exists>g n. next_gross env (field 0 128 (words ! 0)) = Inr g \<and> next_net env upper (tick_net (words ! 0)) = Inr n
            \<and> u = F g)"
      proof (cases "next_gross env (field 0 128 (words ! 0))"; cases "next_net env upper (tick_net (words ! 0))")
        fix g n
        assume "next_gross env (field 0 128 (words ! 0)) = Inr g" "next_net env upper (tick_net (words ! 0)) = Inr n"
        then show ?thesis using run by auto
      qed (unfold unfolds words Inr rbind_simps, simp_all)
      then show ?thesis
        unfolding next_gross_eq_Inr [OF assms] next_net_eq_Inr gr keys_def [symmetric] words F_def
        using Inr by auto
    qed
  qed
qed

lemma signed_amount_mint: "le_is_mint env \<Longrightarrow> signed_amount env = le_amount env"
  and signed_amount_burn: "\<not> le_is_mint env \<Longrightarrow> signed_amount env = - le_amount env"
  by (simp_all add: signed_amount_def)

lemma keys_length [simp]: "length (v3_tick_info_storage_keys_with_base keccak256 t b) = 4"
  by (simp add: v3_tick_info_storage_keys_with_base_def Let_def)

text \<open>
  The words after an update: gross and net liquidity moved by the event's amount, the outside
  words seeded only on first initialization, everything cleared when the tick empties.
\<close>

lemma next_tick_words_facts:
  assumes "length words = 4" "g \<noteq> 0" "uint g < 2 ^ 128"
    and "- (2 ^ 127) \<le> tick_net (words ! 0) + d" "tick_net (words ! 0) + d < 2 ^ 127"
    and "d = (if upper then - signed_amount env else signed_amount env)"
  shows "length (next_tick_words env t upper words g) = 4"
    "tick_gross (next_tick_words env t upper words g ! 0) = uint g"
    "field 0 128 (next_tick_words env t upper words g ! 0) = g"
    "tick_net (next_tick_words env t upper words g ! 0) = tick_net (words ! 0) + d"
    "tick_gross (words ! 0) \<noteq> 0 \<Longrightarrow> tl (next_tick_words env t upper words g) = tl words"
    "tick_gross (words ! 0) = 0 \<Longrightarrow> tl (next_tick_words env t upper words g) = tl (outside_words env t words)"
proof -
  have tl0: "tl (xs[0 := y]) = tl xs" for xs :: "u256 list" and y by (cases xs) simp_all
  show "length (next_tick_words env t upper words g) = 4"
    using assms by (simp add: next_tick_words_def)
  show "tl (next_tick_words env t upper words g) = tl words" if "tick_gross (words ! 0) \<noteq> 0"
    using assms(2) that by (simp add: next_tick_words_def tl0)
  show "tl (next_tick_words env t upper words g) = tl (outside_words env t words)" if "tick_gross (words ! 0) = 0"
    using assms(2) that by (simp add: next_tick_words_def tl0)
  have "next_tick_words env t upper words g ! 0 = g OR push_bit 128 (ucast (word_of_int (tick_net (words ! 0) + d) :: u128))"
    using assms(1,2) unfolding next_tick_words_def assms(6) by simp
  note w = this pack_tick_word [OF assms(3-5)]
  show "field 0 128 (next_tick_words env t upper words g ! 0) = g"
    "tick_gross (next_tick_words env t upper words g ! 0) = uint g"
    "tick_net (next_tick_words env t upper words g ! 0) = tick_net (words ! 0) + d"
    unfolding w(1) by (rule w)+
qed

lemma outside_words_flag:
  assumes "length words = 4"
  shows "field 248 8 (outside_words env t words ! 3) = 1"
proof -
  define tc sp ts flag :: u256 where "tc = unsigned_bits (obs_tick_cumulative (le_now env)) 56"
    and "sp = take_bit 160 (obs_seconds_per_liquidity_cumulative_x128 (le_now env))"
    and "ts = ucast (le_timestamp env)" and "flag = push_bit 248 1"
  have one: "field 248 8 flag = 1" unfolding flag_def by (subst field_push_same) simp_all
  have small: "take_bit 56 tc = tc" "take_bit 160 sp = sp" "take_bit 32 ts = ts"
    by (simp_all add: tc_def sp_def ts_def take_bit_ucast_self)
  have "field 248 8 (tc OR push_bit 56 sp OR push_bit 216 ts OR flag) = 1"
    by (simp add: field_low_above [OF small(1)] field_push_above [OF small(2)] field_push_above [OF small(3)] one)
  moreover have "outside_words env t words ! 3
      = (if t \<le> le_current_tick env then tc OR push_bit 56 sp OR push_bit 216 ts OR flag else flag)"
    using assms unfolding outside_words_def WORD_160_MASK_eq tc_def sp_def ts_def take_bit_eq_mask flag_def [symmetric]
    by simp
  ultimately show ?thesis using one by simp
qed

lemma read_tick_words_set:
  assumes "length keys = 4" "length words = 4" "\<And>i. i < 4 \<Longrightarrow> s (le_address env) (keys ! i) = Some (words ! i)"
  shows "read_tick_words env t True keys s = Inr words"
  using assms by (simp add: read_tick_words_def rmap_eq_Inr_iff list_all2_conv_all_nth)

lemma field_eq_iff_uint: "uint g = uint (field 0 128 w) \<Longrightarrow> g = field 0 128 w"
  by (simp add: word_uint_eq_iff)

text \<open>Minting and burning the same amount at a boundary restores the words the mint found.\<close>

lemma mint_burn_restores:
  assumes amt: "0 < le_amount env" "le_amount env < 2 ^ 127" and max: "uint (le_max_liquidity_per_tick env) < 2 ^ 128"
    and mint: "le_is_mint env" "update_canonical_liquidity_tick keccak256 env t upper b s = Inr u"
    and burn: "\<not> le_is_mint env'" "le_amount env' = le_amount env" "le_layout env' = le_layout env"
      "le_max_liquidity_per_tick env' = le_max_liquidity_per_tick env"
    and after: "\<And>i. i < 4 \<Longrightarrow> s' (le_address env') (ctu_keys u ! i) = Some (ctu_words u ! i)"
  shows "\<exists>u' words. read_tick_words env t b (ctu_keys u) s = Inr words
    \<and> update_canonical_liquidity_tick keccak256 env' t upper True s' = Inr u'
    \<and> ctu_keys u' = ctu_keys u \<and> ctu_words u' = words
    \<and> ctu_was_initialized u' \<and> ctu_is_initialized u' = ctu_was_initialized u"
proof -
  define keys where "keys = v3_tick_info_storage_keys_with_base keccak256 t (ticks_base_slot (le_layout env))"
  define a where "a = le_amount env"
  define d where "d = (if upper then - a else a)"
  have sa: "signed_amount env = a" "signed_amount env' = - a"
    using mint(1) burn(1,2) by (simp_all add: signed_amount_def a_def)
  obtain words g where w: "read_tick_words env t b keys s = Inr words" "validate_tick_words t words = Inr ()"
    "uint g = tick_gross (words ! 0) + a" "uint g \<le> uint (le_max_liquidity_per_tick env)"
    "- (2 ^ 127) \<le> tick_net (words ! 0) + d" "tick_net (words ! 0) + d < 2 ^ 127"
    and u: "u = \<lparr>ctu_keys = keys, ctu_words = next_tick_words env t upper words g,
      ctu_was_initialized = (tick_gross (words ! 0) \<noteq> 0), ctu_is_initialized = (g \<noteq> 0)\<rparr>"
    using mint(2) amt unfolding update_tick_eq_Inr [OF less_imp_le [OF amt(1)] amt(2)] keys_def [symmetric] sa d_def
    by (auto split: if_splits)
  have len: "length keys = 4" by (simp add: keys_def)
  have wl: "length words = 4" using read_tick_words_length [OF w(1) len] .
  have "0 \<le> tick_gross (words ! 0)" by (simp add: tick_gross_def)
  then have g0: "g \<noteq> 0" using w(3) amt(1) by (auto simp: a_def)
  have g: "uint g < 2 ^ 128" using w(4) max by simp
  define new where "new = next_tick_words env t upper words g"
  have dd: "d = (if upper then - signed_amount env else signed_amount env)" by (simp add: d_def sa)
  note n = next_tick_words_facts [OF wl g0 g w(5,6) dd, of t, folded new_def]
  have val: "validate_tick_words t new = Inr ()"
  proof -
    have "new ! 3 = tl new ! 2" using n(1) by (cases new) simp_all
    moreover have "(outside_words env t words) ! 3 = tl (outside_words env t words) ! 2" "words ! 3 = tl words ! 2"
      using wl by (simp_all add: nth_tl)
    ultimately have "field 248 8 (new ! 3) = 1"
      using n(5,6) validate_tick_words_okD(1) [OF w(2) wl] outside_words_flag [OF wl, of env t] by metis
    moreover from this have "(ucast (drop_bit 248 (new ! 3) AND ucast (- 1 :: u8)) :: u8) = 1"
      unfolding ucast_minus_1 drop_and_mask_field by simp
    moreover have "new ! 0 AND WORD_128_MASK \<noteq> 0"
      unfolding tick_gross_eq_0 n(2) using g0 by (simp add: uint_0_iff)
    ultimately show ?thesis by (simp add: validate_tick_words_def Let_def)
  qed
  have rd: "read_tick_words env' t True keys s' = Inr new"
    using after len n(1) unfolding u new_def by (intro read_tick_words_set) simp_all
  define h where "h = field 0 128 (words ! 0)"
  have h: "uint h = tick_gross (new ! 0) + - a" unfolding n(2) w(3) by (simp add: h_def tick_gross_def)
  have "uint h \<le> uint (le_max_liquidity_per_tick env')"
    using w(3,4) burn(4) amt(1) by (simp add: h_def tick_gross_def a_def)
  moreover have net: "tick_net (new ! 0) + (if upper then - (- a) else - a) = tick_net (words ! 0)"
    unfolding n(4) by (simp add: d_def)
  moreover have "- (2 ^ 127) \<le> tick_net (words ! 0)" "tick_net (words ! 0) < 2 ^ 127"
    unfolding tick_net_def by (rule as_i128_range)+
  moreover define u' where "u' = \<lparr>ctu_keys = keys, ctu_words = next_tick_words env' t upper new h,
      ctu_was_initialized = (tick_gross (new ! 0) \<noteq> 0), ctu_is_initialized = (h \<noteq> 0)\<rparr>"
  ultimately have upd: "update_canonical_liquidity_tick keccak256 env' t upper True s' = Inr u'"
    using rd val h amt unfolding update_tick_eq_Inr [of env', unfolded burn(2), OF less_imp_le [OF amt(1)] amt(2)]
      burn(3) keys_def [symmetric] sa u'_def by (intro exI [of _ new] exI [of _ h]) simp
  have words: "next_tick_words env' t upper new h = words"
  proof (cases "tick_gross (words ! 0) = 0")
    case True
    then have "h = 0" by (simp add: h_def tick_gross_def uint_0_iff)
    then show ?thesis using validate_tick_words_okD(2) [OF w(2) wl True] by (simp add: next_tick_words_def)
  next
    case False
    then have h0: "h \<noteq> 0" by (auto simp: h_def tick_gross_def)
    have "tick_gross (new ! 0) \<noteq> 0" unfolding n(2) using g0 by (simp add: uint_0_iff)
    then have "next_tick_words env' t upper new h
        = new[0 := h OR push_bit 128 (ucast (word_of_int (tick_net (words ! 0)) :: u128))]"
      using h0 unfolding next_tick_words_def sa net by simp
    also have "\<dots> = new[0 := words ! 0]" unfolding h_def unpack_tick_word [symmetric] ..
    also have "\<dots> = words" using n(1,5) False wl by (cases new; cases words) simp_all
    finally show ?thesis .
  qed
  have "ctu_was_initialized u'" "ctu_is_initialized u' = ctu_was_initialized u"
    using g0 by (simp_all add: u'_def u n(3) h_def tick_gross_def uint_0_iff)
  then show ?thesis using w(1) upd words by (auto simp: u u'_def)
qed

lemma tick_update_effect:
  assumes "0 \<le> le_amount env" "le_amount env < 2 ^ 127" "uint (le_max_liquidity_per_tick env) < 2 ^ 128"
    and "update_canonical_liquidity_tick keccak256 env t upper b s = Inr u"
  shows "\<exists>words. read_tick_words env t b (ctu_keys u) s = Inr words \<and> length (ctu_words u) = 4
    \<and> tick_gross (ctu_words u ! 0) = tick_gross (words ! 0) + signed_amount env
    \<and> tick_gross (ctu_words u ! 0) \<le> uint (le_max_liquidity_per_tick env)
    \<and> (ctu_was_initialized u \<longleftrightarrow> tick_gross (words ! 0) \<noteq> 0)
    \<and> (ctu_is_initialized u \<longleftrightarrow> tick_gross (ctu_words u ! 0) \<noteq> 0)
    \<and> (if ctu_is_initialized u
       then tick_net (ctu_words u ! 0) = tick_net (words ! 0) + (if upper then - signed_amount env else signed_amount env)
         \<and> tl (ctu_words u) = tl (if ctu_was_initialized u then words else outside_words env t words)
       else ctu_words u = [0, 0, 0, 0])"
proof -
  define d where "d = (if upper then - signed_amount env else signed_amount env)"
  obtain words g where w: "read_tick_words env t b (ctu_keys u) s = Inr words"
    "uint g = tick_gross (words ! 0) + signed_amount env" "uint g \<le> uint (le_max_liquidity_per_tick env)"
    "- (2 ^ 127) \<le> tick_net (words ! 0) + d" "tick_net (words ! 0) + d < 2 ^ 127"
    and len: "length (ctu_keys u) = 4"
    and u: "ctu_words u = next_tick_words env t upper words g"
      "ctu_was_initialized u \<longleftrightarrow> tick_gross (words ! 0) \<noteq> 0" "ctu_is_initialized u \<longleftrightarrow> g \<noteq> 0"
    using assms(4) unfolding update_tick_eq_Inr [OF assms(1,2)] d_def by auto
  have wl: "length words = 4" using read_tick_words_length [OF w(1) len] .
  show ?thesis
  proof (cases "g = 0")
    case True
    have "tick_gross 0 = 0" using tick_gross_eq_0 [of 0] by simp
    then show ?thesis
      using True w u by (intro exI [of _ words]) (simp add: next_tick_words_def)
  next
    case False
    have g: "uint g < 2 ^ 128" using w(3) assms(3) by simp
    note n = next_tick_words_facts [OF wl False g w(4,5) d_def, of t, folded u(1)]
    show ?thesis
      using False w n u(2,3) by (intro exI [of _ words]) (auto simp: d_def uint_0_iff)
  qed
qed

section \<open>Bitmap words\<close>

lemma map_of_bt_set:
  "map_of (bt_set k v m) = (if map_of m k = None then map_of m else (map_of m)(k \<mapsto> v))"
  by (induction m) (auto simp: bt_set_def fun_eq_iff)

lemma set_insort_fst: "set (insort_key fst x m) = insert x (set m)"
  by (simp add: set_insort_key)

lemma distinct_fst_insort: "distinct (map fst m) \<Longrightarrow> k \<notin> fst ` set m \<Longrightarrow> distinct (map fst (insort_key fst (k, v) m))"
  by (induction m) (auto simp: set_insort_key)

definition bitmap_cache :: "address \<Rightarrow> state_view \<Rightarrow> bitmap_values \<Rightarrow> bool" where
  "bitmap_cache addr state vals \<longleftrightarrow> distinct (map fst vals) \<and> (\<forall>(k, v) \<in> set vals. v = state addr k)"

lemma bitmap_cache_entry:
  assumes "bitmap_cache addr state vals"
  shows "bitmap_cache addr state (bt_entry k (state addr k) vals)"
    "map_of (bt_entry k (state addr k) vals) k = Some (state addr k)"
    "fst ` set (bt_entry k (state addr k) vals) = insert k (fst ` set vals)"
proof -
  show fs: "fst ` set (bt_entry k (state addr k) vals) = insert k (fst ` set vals)"
    using map_of_eq_None_iff [of vals k] by (auto simp: bt_entry_def set_insort_key)
  show c: "bitmap_cache addr state (bt_entry k (state addr k) vals)"
    using assms distinct_fst_insort [of vals k "state addr k"]
    by (auto simp: bt_entry_def bitmap_cache_def set_insort_key map_of_eq_None_iff)
  have "k \<in> fst ` set (bt_entry k (state addr k) vals)" using fs by simp
  then obtain v where kv: "(k, v) \<in> set (bt_entry k (state addr k) vals)" by auto
  with c have "map_of (bt_entry k (state addr k) vals) k = Some v" "v = state addr k"
    by (auto simp: bitmap_cache_def)
  then show "map_of (bt_entry k (state addr k) vals) k = Some (state addr k)" by simp
qed

definition boundary_bit :: "v3_storage_layout \<Rightarrow> i32 \<Rightarrow> nat" where
  "boundary_bit layout tick = nat (tick div tick_spacing layout mod 256)"

definition boundary_slot :: "keccak \<Rightarrow> v3_storage_layout \<Rightarrow> i32 \<Rightarrow> u256" where
  "boundary_slot keccak256 layout tick =
    v3_tick_bitmap_storage_key_with_base keccak256 (word_of_int (tick div tick_spacing layout div 256))
      (tick_bitmap_base_slot layout)"

lemma boundary_position_okD:
  assumes "boundary_position keccak256 addr layout state tick upper vals = Inr (vals', pos)"
    "0 < tick_spacing layout" "bitmap_cache addr state vals"
  shows "bitmap_cache addr state vals'" "bp_tick pos = tick" "bp_upper pos = upper"
    "bp_slot pos = boundary_slot keccak256 layout tick" "bp_mask pos = push_bit (boundary_bit layout tick) 1"
    "bp_value pos = state addr (bp_slot pos)" "fst ` set vals' = insert (bp_slot pos) (fst ` set vals)"
proof -
  define slot where "slot = boundary_slot keccak256 layout tick"
  note e = bitmap_cache_entry [OF assms(3), of slot]
  have p: "vals' = bt_entry slot (state addr slot) vals"
    "pos = \<lparr>bp_tick = tick, bp_upper = upper, bp_slot = slot, bp_mask = push_bit (boundary_bit layout tick) 1,
      bp_value = state addr slot\<rparr>"
    using assms(1,2) e(2) div_euclid_okD [OF assms(2), of tick]
    by (auto simp: boundary_position_def v3_word_position_def Let_def slot_def boundary_slot_def boundary_bit_def)
  show "bitmap_cache addr state vals'" "bp_tick pos = tick" "bp_upper pos = upper"
    "bp_slot pos = boundary_slot keccak256 layout tick" "bp_mask pos = push_bit (boundary_bit layout tick) 1"
    "bp_value pos = state addr (bp_slot pos)" "fst ` set vals' = insert (bp_slot pos) (fst ` set vals)"
    unfolding p using e by (simp_all add: slot_def)
qed

lemma and_push_one: "(w :: u256) AND push_bit k 1 \<noteq> 0 \<longleftrightarrow> bit w k"
  by (simp add: push_bit_of_1 and_exp_eq_0_iff_not_bit)

lemma flip_bitmap_okD:
  assumes "flip_bitmap (Some u, pos) (vals, changed) = Inr (vals', changed')" "bp_mask pos = push_bit k 1" "k < 256"
  shows "\<exists>b b'. map_of vals (bp_slot pos) = Some (Some b)
    \<and> map_of vals' = (map_of vals)(bp_slot pos \<mapsto> Some b') \<and> map fst vals' = map fst vals
    \<and> (bit b' k \<longleftrightarrow> ctu_is_initialized u) \<and> (\<forall>j. j \<noteq> k \<longrightarrow> bit b' j = bit b j)
    \<and> changed' = (if b' = b then changed else bp_slot pos # changed)"
proof -
  have m: "x AND bp_mask pos = 0 \<longleftrightarrow> \<not> bit x k" for x using and_push_one [of x k] unfolding assms(2) by blast
  obtain b where b: "map_of vals (bp_slot pos) = Some (Some b)" "bit b k \<longleftrightarrow> ctu_was_initialized u"
    and r: "if ctu_was_initialized u \<noteq> ctu_is_initialized u
      then vals' = bt_set (bp_slot pos) (Some (b XOR bp_mask pos)) vals \<and> changed' = bp_slot pos # changed
      else vals' = vals \<and> changed' = changed"
    using assms(1) by (auto simp: flip_bitmap_def Let_def m split: if_splits)
  have flip: "bit (b XOR bp_mask pos) j \<longleftrightarrow> (if j = k then \<not> bit b k else bit b j)" for j
    unfolding assms(2) using assms(3) by (auto simp: bit_simps dest: bit_imp_le_length)
  show ?thesis
  proof (cases "ctu_was_initialized u = ctu_is_initialized u")
    case True
    then show ?thesis using b r by (intro exI [of _ b] exI [of _ b]) (auto simp: map_upd_triv)
  next
    case False
    have ne: "b XOR bp_mask pos \<noteq> b" using flip [of k] by metis
    have keys: "map fst (bt_set x y m) = map fst m" for x m and y :: "u256 option" by (induction m) (auto simp: bt_set_def)
    show ?thesis using b r False flip ne keys
      by (intro exI [of _ b] exI [of _ "b XOR bp_mask pos"]) (auto simp: map_of_bt_set)
  qed
qed

lemma validate_liquidity_event_okD:
  assumes "validate_liquidity_event layout event = Inr u"
  shows "layout = layout_uniswap (tick_spacing layout)" "0 < tick_spacing layout"
    "- 887272 \<le> dl_tick_lower event" "dl_tick_upper event \<le> 887272" "dl_tick_lower event < dl_tick_upper event"
    "dl_tick_lower event mod tick_spacing layout = 0" "dl_tick_upper event mod tick_spacing layout = 0"
  using assms by (auto simp: validate_liquidity_event_def split: if_splits)

lemma word_position_range:
  fixes t sp :: int
  assumes "- 887272 \<le> t" "t \<le> 887272" "0 < sp"
  shows "- (2 ^ 15) \<le> t div sp div 256" "t div sp div 256 < 2 ^ 15"
proof -
  have "- 887272 \<le> t div sp" "t div sp \<le> 887272"
    using assms mult_left_mono [of 1 sp 887272] div_less_iff [of sp t 887273]
    by (simp_all add: le_div_iff) 
  then show "- (2 ^ 15) \<le> t div sp div 256" "t div sp div 256 < 2 ^ 15" by simp_all
qed

text \<open>The two boundaries of a range never name the same bit of the same bitmap word.\<close>

lemma aligned_ticks_distinct:
  assumes "0 < tick_spacing layout" "- 887272 \<le> lo" "hi \<le> 887272" "lo < hi"
    and "lo mod tick_spacing layout = 0" "hi mod tick_spacing layout = 0"
    and "(word_of_int (lo div tick_spacing layout div 256) :: i16) = word_of_int (hi div tick_spacing layout div 256)"
  shows "boundary_bit layout lo \<noteq> boundary_bit layout hi"
proof
  define sp where "sp = tick_spacing layout"
  note e = assms(1-6) [folded sp_def]
  have r: "- (2 ^ 15) \<le> lo div sp div 256" "lo div sp div 256 < 2 ^ 15"
    "- (2 ^ 15) \<le> hi div sp div 256" "hi div sp div 256 < 2 ^ 15"
    using word_position_range [of lo sp] word_position_range [of hi sp] e by simp_all
  have "sint (word_of_int (lo div sp div 256) :: i16) = sint (word_of_int (hi div sp div 256) :: i16)"
    using assms(7) by (simp add: sp_def)
  moreover have "signed_take_bit 15 x = x" if "- (2 ^ 15) \<le> x" "x < 2 ^ 15" for x :: int
    using that by (simp add: signed_take_bit_int_eq_self_iff)
  from this [OF r(1,2)] this [OF r(3,4)] have "signed_take_bit 15 (lo div sp div 256) = lo div sp div 256"
    "signed_take_bit 15 (hi div sp div 256) = hi div sp div 256" .
  ultimately have "lo div sp div 256 = hi div sp div 256" by (simp add: sint_sbintrunc')
  moreover assume "boundary_bit layout lo = boundary_bit layout hi"
  then have "lo div sp mod 256 = hi div sp mod 256" by (simp add: boundary_bit_def sp_def eq_nat_nat_iff)
  ultimately have "lo div sp = hi div sp" by (metis div_mult_mod_eq)
  then have "lo = hi" using e(5,6) by (metis div_mult_mod_eq)
  then show False using e(4) by simp
qed

lemma boundaries_distinct:
  assumes "validate_liquidity_event layout event = Inr u"
    and "(word_of_int (dl_tick_lower event div tick_spacing layout div 256) :: i16)
      = word_of_int (dl_tick_upper event div tick_spacing layout div 256)"
  shows "boundary_bit layout (dl_tick_lower event) \<noteq> boundary_bit layout (dl_tick_upper event)"
  using validate_liquidity_event_okD(2-7) [OF assms(1)] assms(2) by (rule aligned_ticks_distinct)

lemma written_bitmap_writes:
  "distinct (map fst vals) \<Longrightarrow> written (bitmap_writes addr vals changed cold) addr k =
    (if k \<in> set changed \<and> k \<notin> set cold then (case map_of vals k of Some (Some v) \<Rightarrow> Some v | _ \<Rightarrow> None) else None)"
proof (induction vals)
  case Nil
  then show ?case by (simp add: bitmap_writes_def)
next
  case (Cons x vals)
  obtain k' v where x: "x = (k', v)" by (cases x)
  have none: "map_of vals k' = None" using Cons.prems x by (auto simp: map_of_eq_None_iff)
  have "bitmap_writes addr (x # vals) changed cold =
      (if k' \<in> set changed \<and> k' \<notin> set cold then (case v of None \<Rightarrow> [] | Some w \<Rightarrow> [Slot addr k' w]) else [])
      @ bitmap_writes addr vals changed cold"
    by (simp add: bitmap_writes_def x)
  then show ?case
    using Cons none by (cases v) (auto simp: x written_append split: option.splits)
qed

lemma exact_bitmap_writes [simp]: "exact_writes_to addr (bitmap_writes addr vals changed cold)"
  unfolding bitmap_writes_def exact_writes_to_concat by (auto split: option.splits)

lemma flip_two:
  assumes "flip_bitmaps [(Some u1, p1), (Some u2, p2)] (vals, []) = Inr (vals', changed)"
    and "bitmap_cache addr state vals" "bp_mask p1 = push_bit k1 1" "bp_mask p2 = push_bit k2 1" "k1 < 256" "k2 < 256"
    and "bp_slot p1 = bp_slot p2 \<Longrightarrow> k1 \<noteq> k2"
  shows "\<exists>v. overlay (bitmap_writes addr vals' changed []) state addr (bp_slot p1) = Some v
      \<and> (bit v k1 \<longleftrightarrow> ctu_is_initialized u1)"
    "\<exists>v. overlay (bitmap_writes addr vals' changed []) state addr (bp_slot p2) = Some v
      \<and> (bit v k2 \<longleftrightarrow> ctu_is_initialized u2)"
proof -
  obtain m c where f: "flip_bitmap (Some u1, p1) (vals, []) = Inr (m, c)"
    "flip_bitmap (Some u2, p2) (m, c) = Inr (vals', changed)" using assms(1) by auto
  from flip_bitmap_okD [OF f(1) assms(3,5)] obtain b b' where
    1: "map_of vals (bp_slot p1) = Some (Some b)" "map_of m = (map_of vals)(bp_slot p1 \<mapsto> Some b')"
    "map fst m = map fst vals" "bit b' k1 \<longleftrightarrow> ctu_is_initialized u1"
    "c = (if b' = b then [] else [bp_slot p1])" by auto
  from flip_bitmap_okD [OF f(2) assms(4,6)] obtain d d' where
    2: "map_of m (bp_slot p2) = Some (Some d)" "map_of vals' = (map_of m)(bp_slot p2 \<mapsto> Some d')"
    "map fst vals' = map fst m" "bit d' k2 \<longleftrightarrow> ctu_is_initialized u2" "\<forall>j. j \<noteq> k2 \<longrightarrow> bit d' j = bit d j"
    "changed = (if d' = d then c else bp_slot p2 # c)" by auto
  have dist: "distinct (map fst vals')" using assms(2) 1(3) 2(3) by (simp add: bitmap_cache_def)
  have st: "state addr k = v" if "map_of vals k = Some v" for k v
    using assms(2) that by (auto simp: bitmap_cache_def dest!: map_of_SomeD)
  note ov = overlay_def written_bitmap_writes [OF dist]
  show "\<exists>v. overlay (bitmap_writes addr vals' changed []) state addr (bp_slot p1) = Some v
      \<and> (bit v k1 \<longleftrightarrow> ctu_is_initialized u1)"
  proof (cases "bp_slot p1 = bp_slot p2")
    case True
    then have "d = b'" "k1 \<noteq> k2" using 1(2) 2(1) assms(7) by auto
    then have "bit d' k1 \<longleftrightarrow> ctu_is_initialized u1" using 1(4) 2(5) by auto
    moreover have "overlay (bitmap_writes addr vals' changed []) state addr (bp_slot p1) = Some d'"
      using True 1 2 \<open>d = b'\<close> st [OF 1(1)] by (auto simp: ov)
    ultimately show ?thesis by blast
  next
    case False
    then have "overlay (bitmap_writes addr vals' changed []) state addr (bp_slot p1) = Some b'"
      using 1 2 st [OF 1(1)] by (auto simp: ov)
    then show ?thesis using 1(4) by blast
  qed
  have "overlay (bitmap_writes addr vals' changed []) state addr (bp_slot p2) = Some d'"
  proof (cases "bp_slot p1 = bp_slot p2")
    case True
    then show ?thesis using 1 2 st [OF 1(1)] by (auto simp: ov split: if_splits)
  next
    case False
    then have "map_of vals (bp_slot p2) = Some (Some d)" using 1(2) 2(1) by simp
    then show ?thesis using False 1 2 st by (auto simp: ov split: if_splits)
  qed
  then show "\<exists>v. overlay (bitmap_writes addr vals' changed []) state addr (bp_slot p2) = Some v
      \<and> (bit v k2 \<longleftrightarrow> ctu_is_initialized u2)" using 2(4) by blast
qed

section \<open>The transition\<close>

lemma derive_liquidity_okE:
  assumes "derive_uniswap_v3_liquidity keccak256 addr layout event ctx state = Inr tr" "dl_amount event \<noteq> 0"
  obtains parent vals p1 p2 b1 b2 vals' changed range where
    "validate_context ctx = Inr ()" "validate_liquidity_event layout event = Inr ()" "uint (dl_amount event) < 2 ^ 127"
    "load_liquidity_parent addr layout ctx state = Inr parent"
    "boundary_positions keccak256 addr layout event state = Inr (vals, [p1, p2])"
    "resolve_boundary keccak256 (liquidity_env_of addr layout event parent) state p1 = Inr b1"
    "resolve_boundary keccak256 (liquidity_env_of addr layout event parent) state p2 = Inr b2"
    "flip_bitmaps [(b1, p1), (b2, p2)] (vals, []) = Inr (vals', changed)"
    "in_range_writes addr layout event parent = Inr range"
    "clt_updates tr = fst (boundary_writes keccak256 addr layout [(b1, p1), (b2, p2)])
       @ bitmap_writes addr vals' changed (snd (boundary_writes keccak256 addr layout [(b1, p1), (b2, p2)])) @ range"
    "clt_cold_slots tr = remdups_adj (sort (snd (boundary_writes keccak256 addr layout [(b1, p1), (b2, p2)])))"
proof -
  from assms obtain parent vals ps bs vals' changed range where d:
    "validate_context ctx = Inr ()" "validate_liquidity_event layout event = Inr ()" "uint (dl_amount event) < 2 ^ 127"
    "load_liquidity_parent addr layout ctx state = Inr parent"
    "boundary_positions keccak256 addr layout event state = Inr (vals, ps)"
    "rmap (resolve_boundary keccak256 (liquidity_env_of addr layout event parent) state) ps = Inr bs"
    "flip_bitmaps (zip bs ps) (vals, []) = Inr (vals', changed)"
    "in_range_writes addr layout event parent = Inr range"
    "clt_updates tr = fst (boundary_writes keccak256 addr layout (zip bs ps))
       @ bitmap_writes addr vals' changed (snd (boundary_writes keccak256 addr layout (zip bs ps))) @ range"
    "clt_cold_slots tr = remdups_adj (sort (snd (boundary_writes keccak256 addr layout (zip bs ps))))"
    unfolding derive_uniswap_v3_liquidity_def Let_def
    by (auto simp: not_le case_prod_beta split: if_splits)
  from d(5) obtain p1 p2 where ps: "ps = [p1, p2]" by (auto simp: boundary_positions_def)
  from d(6) obtain b1 b2 where bs: "bs = [b1, b2]"
    "resolve_boundary keccak256 (liquidity_env_of addr layout event parent) state p1 = Inr b1"
    "resolve_boundary keccak256 (liquidity_env_of addr layout event parent) state p2 = Inr b2"
    unfolding ps by auto
  show thesis using that d ps bs by simp
qed

lemma boundary_positions_okD:
  assumes "boundary_positions keccak256 addr layout event state = Inr (vals, [p1, p2])" "0 < tick_spacing layout"
  shows "bitmap_cache addr state vals"
    "bp_tick p1 = dl_tick_lower event" "\<not> bp_upper p1" "bp_slot p1 = boundary_slot keccak256 layout (dl_tick_lower event)"
    "bp_mask p1 = push_bit (boundary_bit layout (dl_tick_lower event)) 1" "bp_value p1 = state addr (bp_slot p1)"
    "bp_tick p2 = dl_tick_upper event" "bp_upper p2" "bp_slot p2 = boundary_slot keccak256 layout (dl_tick_upper event)"
    "bp_mask p2 = push_bit (boundary_bit layout (dl_tick_upper event)) 1" "bp_value p2 = state addr (bp_slot p2)"
    "fst ` set vals = {bp_slot p1, bp_slot p2}"
proof -
  obtain m where m: "boundary_position keccak256 addr layout state (dl_tick_lower event) False [] = Inr (m, p1)"
    "boundary_position keccak256 addr layout state (dl_tick_upper event) True m = Inr (vals, p2)"
    using assms(1) by (auto simp: boundary_positions_def)
  have c0: "bitmap_cache addr state []" by (simp add: bitmap_cache_def)
  note 1 = boundary_position_okD [OF m(1) assms(2) c0]
  note 2 = boundary_position_okD [OF m(2) assms(2) 1(1)]
  show "bitmap_cache addr state vals"
    "bp_tick p1 = dl_tick_lower event" "\<not> bp_upper p1" "bp_slot p1 = boundary_slot keccak256 layout (dl_tick_lower event)"
    "bp_mask p1 = push_bit (boundary_bit layout (dl_tick_lower event)) 1" "bp_value p1 = state addr (bp_slot p1)"
    "bp_tick p2 = dl_tick_upper event" "bp_upper p2" "bp_slot p2 = boundary_slot keccak256 layout (dl_tick_upper event)"
    "bp_mask p2 = push_bit (boundary_bit layout (dl_tick_upper event)) 1" "bp_value p2 = state addr (bp_slot p2)"
    "fst ` set vals = {bp_slot p1, bp_slot p2}"
    using 1 2 by auto
qed

lemma resolve_boundary_SomeD:
  assumes "resolve_boundary keccak256 env state pos = Inr (Some u)"
  shows "\<exists>bitmap. bp_value pos = Some bitmap
    \<and> update_canonical_liquidity_tick keccak256 env (bp_tick pos) (bp_upper pos) (bitmap AND bp_mask pos \<noteq> 0) state = Inr u"
  using assms by (auto simp: resolve_boundary_def split: option.splits sum.splits adapter_event_error.splits)

lemma boundary_bit_less: "boundary_bit layout t < 256"
  by (simp add: boundary_bit_def nat_less_iff)

definition tick_slot_writes :: "address \<Rightarrow> canonical_tick_update \<Rightarrow> state_update list" where
  "tick_slot_writes addr u = map (\<lambda>(slot, value). Slot addr slot value) (zip (ctu_keys u) (ctu_words u))"

lemma tick_info_keys_distinct:
  "distinct (v3_tick_info_storage_keys_with_base keccak256 t base)"
  "length (v3_tick_info_storage_keys_with_base keccak256 t base) = 4"
  by (simp_all add: v3_tick_info_storage_keys_with_base_def Let_def)

lemma written_zip:
  assumes "distinct ks" "length ks = length vs" "i < length ks"
  shows "written (map (\<lambda>(k, v). Slot addr k v) (zip ks vs)) addr (ks ! i) = Some (vs ! i)"
  using assms
proof (induction ks arbitrary: vs i)
  case (Cons k ks)
  then obtain v vs' where vs: "vs = v # vs'" by (cases vs) auto
  have none: "written (map (\<lambda>(k, v). Slot addr k v) (zip ks vs')) addr k = None" if "k \<notin> set ks" for k
    using that by (induction ks vs' rule: list_induct2') (auto split: option.splits)
  show ?case
  proof (cases i)
    case 0
    then show ?thesis using Cons.prems none [of k] by (simp add: vs)
  next
    case (Suc j)
    then show ?thesis using Cons.IH [of vs' j] Cons.prems by (simp add: vs)
  qed
qed simp

text \<open>Once the writes of a boundary are in the view, its tick words are read back.\<close>

lemma tick_writes_visible:
  assumes "update_canonical_liquidity_tick keccak256 env t upper b s = Inr u" "i < 4" "length (ctu_words u) = 4"
  shows "overlay (tick_slot_writes addr u) s addr (ctu_keys u ! i) = Some (ctu_words u ! i)"
proof -
  have "ctu_keys u = v3_tick_info_storage_keys_with_base keccak256 t (ticks_base_slot (le_layout env))"
    using assms(1) by (auto simp: update_canonical_liquidity_tick_def Let_def)
  then show ?thesis
    using written_zip [of "ctu_keys u" "ctu_words u" i addr] assms(2,3)
    by (simp add: overlay_def tick_slot_writes_def tick_info_keys_distinct)
qed

text \<open>
  An exact transition resolves both boundaries, writes their tick words, and leaves the bitmap
  bit of each set exactly when the tick holds liquidity.
\<close>

lemma derive_liquidity_exact:
  assumes run: "derive_uniswap_v3_liquidity keccak256 addr layout event ctx state = Inr tr"
    and amount: "dl_amount event \<noteq> 0" and exact: "clt_cold_slots tr = []"
    and hash: "word_of_int (dl_tick_lower event div tick_spacing layout div 256)
        \<noteq> (word_of_int (dl_tick_upper event div tick_spacing layout div 256) :: i16)
      \<Longrightarrow> boundary_slot keccak256 layout (dl_tick_lower event) \<noteq> boundary_slot keccak256 layout (dl_tick_upper event)"
  shows "\<exists>parent bm1 bm2 u1 u2 bitmaps range.
    load_liquidity_parent addr layout ctx state = Inr parent
    \<and> update_canonical_liquidity_tick keccak256 (liquidity_env_of addr layout event parent) (dl_tick_lower event) False bm1 state = Inr u1
    \<and> update_canonical_liquidity_tick keccak256 (liquidity_env_of addr layout event parent) (dl_tick_upper event) True bm2 state = Inr u2
    \<and> in_range_writes addr layout event parent = Inr range
    \<and> clt_updates tr = tick_slot_writes addr u1 @ tick_slot_writes addr u2 @ bitmaps @ range
    \<and> exact_writes_to addr bitmaps
    \<and> (\<exists>v. overlay bitmaps state addr (boundary_slot keccak256 layout (dl_tick_lower event)) = Some v
        \<and> (bit v (boundary_bit layout (dl_tick_lower event)) \<longleftrightarrow> ctu_is_initialized u1))
    \<and> (\<exists>v. overlay bitmaps state addr (boundary_slot keccak256 layout (dl_tick_upper event)) = Some v
        \<and> (bit v (boundary_bit layout (dl_tick_upper event)) \<longleftrightarrow> ctu_is_initialized u2))"
proof -
  from run amount obtain parent vals p1 p2 b1 b2 vals' changed range where d:
    "validate_liquidity_event layout event = Inr ()" "load_liquidity_parent addr layout ctx state = Inr parent"
    "boundary_positions keccak256 addr layout event state = Inr (vals, [p1, p2])"
    "resolve_boundary keccak256 (liquidity_env_of addr layout event parent) state p1 = Inr b1"
    "resolve_boundary keccak256 (liquidity_env_of addr layout event parent) state p2 = Inr b2"
    "flip_bitmaps [(b1, p1), (b2, p2)] (vals, []) = Inr (vals', changed)"
    "in_range_writes addr layout event parent = Inr range"
    "clt_updates tr = fst (boundary_writes keccak256 addr layout [(b1, p1), (b2, p2)])
       @ bitmap_writes addr vals' changed (snd (boundary_writes keccak256 addr layout [(b1, p1), (b2, p2)])) @ range"
    "clt_cold_slots tr = remdups_adj (sort (snd (boundary_writes keccak256 addr layout [(b1, p1), (b2, p2)])))"
    by (rule derive_liquidity_okE)
  have "set (snd (boundary_writes keccak256 addr layout [(b1, p1), (b2, p2)])) = set (clt_cold_slots tr)"
    unfolding d(9) by simp
  then have "snd (boundary_writes keccak256 addr layout [(b1, p1), (b2, p2)]) = []" using exact by simp
  then obtain u1 u2 where b: "b1 = Some u1" "b2 = Some u2"
    by (cases b1; cases b2) (auto simp: boundary_writes_def)
  note sp = validate_liquidity_event_okD(2) [OF d(1)]
  note p = boundary_positions_okD [OF d(3) sp]
  have flags: "bp_upper p1 = False" "bp_upper p2 = True" using p(3,8) by simp_all
  obtain bm1 where u1: "update_canonical_liquidity_tick keccak256 (liquidity_env_of addr layout event parent) (dl_tick_lower event) False bm1 state = Inr u1"
    using resolve_boundary_SomeD [OF d(4) [unfolded b(1)], unfolded p(2) flags] by blast
  obtain bm2 where u2: "update_canonical_liquidity_tick keccak256 (liquidity_env_of addr layout event parent) (dl_tick_upper event) True bm2 state = Inr u2"
    using resolve_boundary_SomeD [OF d(5) [unfolded b(2)], unfolded p(7) flags] by blast
  note u = u1 u2
  have ne: "boundary_bit layout (dl_tick_lower event) \<noteq> boundary_bit layout (dl_tick_upper event)"
    if "bp_slot p1 = bp_slot p2"
    using boundaries_distinct [OF d(1)] hash that p(4,9) by metis
  note f = flip_two [OF d(6) [unfolded b] p(1) p(5) p(10) boundary_bit_less boundary_bit_less ne, unfolded p(4,9)]
  have upd: "clt_updates tr = tick_slot_writes addr u1 @ tick_slot_writes addr u2 @ bitmap_writes addr vals' changed [] @ range"
    unfolding d(8) by (simp add: boundary_writes_def b tick_slot_writes_def)
  show ?thesis
    by (rule exI [of _ parent], rule exI [of _ bm1], rule exI [of _ bm2], rule exI [of _ u1], rule exI [of _ u2],
        rule exI [of _ "bitmap_writes addr vals' changed []"], rule exI [of _ range])
      (intro conjI d(2) u d(7) upd exact_bitmap_writes f)
qed

text \<open>Active liquidity changes exactly when the current tick lies in the range.\<close>

lemma in_range_writes_okD:
  assumes "in_range_writes addr layout event parent = Inr ws"
  shows "if dl_tick_lower event \<le> s0_tick (lp_slot0 parent) \<and> s0_tick (lp_slot0 parent) < dl_tick_upper event
    then \<exists>l. last ws = Slot addr (liquidity_slot layout) l \<and> ws \<noteq> [] \<and> uint l < 2 ^ 128
      \<and> uint l = uint (lp_active_liquidity parent)
          + (if dl_is_mint event then uint (dl_amount event) else - uint (dl_amount event))
    else ws = []"
proof -
  have a: "uint (ucast (dl_amount event) :: u256) = uint (dl_amount event)"
    by (intro uint_ucast_down) (rule order_less_trans [OF uint_lt_exp], simp)
  show ?thesis
    using assms
    by (auto simp: in_range_writes_def Let_def checked_add_eq_Some checked_sub_eq_Some a not_less
        le_WORD_128_MASK_iff split: if_splits prod.splits)
qed

section \<open>Cold slots and aborts\<close>

text \<open>A bitmap word shared with an unresolved boundary is never written.\<close>

lemma bitmap_writes_avoid_cold:
  "Slot a k v \<in> set (bitmap_writes addr vals changed cold) \<Longrightarrow> a = addr \<and> k \<in> set changed \<and> k \<notin> set cold"
  by (auto simp: bitmap_writes_def split: option.splits)

lemma no_panic_read_tick_words [no_panic_intros]: "no_panic (read_tick_words env t b keys s)"
  unfolding read_tick_words_def initialized_tick_error_def by (intro no_panic_intros)

lemma no_panic_update_tick [no_panic_intros]:
  "no_panic (update_canonical_liquidity_tick keccak256 env t upper b s)"
  unfolding update_canonical_liquidity_tick_def Let_def validate_tick_words_def next_gross_def next_net_def
    initialized_tick_error_def
  by (intro no_panic_intros)

lemma no_panic_resolve_boundary [no_panic_intros]: "no_panic (resolve_boundary keccak256 env state pos)"
  using no_panic_update_tick [of keccak256 env "bp_tick pos" "bp_upper pos" _ state]
  by (auto simp: resolve_boundary_def no_panic_def split: option.splits sum.splits adapter_event_error.splits)

lemma no_panic_load_liquidity_parent:
  "validate_context ctx = Inr u \<Longrightarrow> no_panic (load_liquidity_parent addr layout ctx state)"
  unfolding load_liquidity_parent_def Let_def by (intro no_panic_intros)

lemma no_panic_boundary_positions:
  assumes "validate_liquidity_event layout event = Inr u"
  shows "no_panic (boundary_positions keccak256 addr layout event state)"
proof -
  note e = validate_liquidity_event_okD [OF assms]
  have np: "no_panic (boundary_position keccak256 addr layout state t upper vals)"
    if "- 887272 \<le> t" "t \<le> 887272" "bitmap_cache addr state vals" for t upper vals
  proof -
    have "div_euclid t (tick_spacing layout) = Inr (t div tick_spacing layout)"
      using that e(2) by (intro div_euclid_pos) (simp_all add: i32_range_def)
    then show ?thesis
      using e(2) bitmap_cache_entry(2) [OF that(3)]
      by (simp add: boundary_position_def v3_word_position_def Let_def)
  qed
  have c: "bitmap_cache addr state []" by (simp add: bitmap_cache_def)
  show ?thesis
    unfolding boundary_positions_def
    using e(3-5) c boundary_position_okD(1) [OF _ e(2) c]
    by (auto intro!: no_panic_intros np)
qed

lemma no_panic_flip_bitmaps:
  "\<forall>(b, pos) \<in> set pairs. b \<noteq> None \<longrightarrow> (\<exists>v. map_of vals (bp_slot pos) = Some (Some v))
    \<Longrightarrow> no_panic (flip_bitmaps pairs (vals, changed))"
proof (induction pairs arbitrary: vals changed)
  case (Cons x pairs)
  obtain b pos where x: "x = (b, pos)" by (cases x)
  show ?case
  proof (cases b)
    case None
    then show ?thesis using Cons by (simp add: x flip_bitmap_def)
  next
    case (Some u)
    then obtain v where v: "map_of vals (bp_slot pos) = Some (Some v)" using Cons.prems x by auto
    show ?thesis
    proof (simp add: x Some, intro no_panic_intros)
      show "no_panic (flip_bitmap (Some u, pos) (vals, changed))"
        by (simp add: flip_bitmap_def v Let_def initialized_tick_error_def)
      fix r
      assume r: "flip_bitmap (Some u, pos) (vals, changed) = Inr r"
      obtain vals' changed' where rr: "r = (vals', changed')" by (cases r)
      have "vals' = vals \<or> vals' = bt_set (bp_slot pos) (Some (v XOR bp_mask pos)) vals"
        using r v by (auto simp: flip_bitmap_def rr Let_def split: if_splits)
      then have keep: "\<exists>w. map_of vals' k = Some (Some w)" if "\<exists>w. map_of vals k = Some (Some w)" for k
        using that by (auto simp: map_of_bt_set)
      show "no_panic (flip_bitmaps pairs r)"
        unfolding rr using Cons.prems keep by (intro Cons.IH) fastforce
    qed
  qed
qed simp

lemma resolved_boundary_seeded:
  assumes "resolve_boundary keccak256 env state pos = Inr b" "b \<noteq> None" "bp_value pos = state addr (bp_slot pos)"
    "map_of vals (bp_slot pos) = Some (state addr (bp_slot pos))"
  shows "\<exists>v. map_of vals (bp_slot pos) = Some (Some v)"
proof -
  obtain u where "b = Some u" using assms(2) by blast
  with resolve_boundary_SomeD assms(1) have "\<exists>v. bp_value pos = Some v" by blast
  then show ?thesis unfolding assms(3,4) by simp
qed

lemma no_panic_derive_liquidity: "no_panic (derive_uniswap_v3_liquidity keccak256 addr layout event ctx state)"
  unfolding derive_uniswap_v3_liquidity_def Let_def
proof (intro no_panic_rbind no_panic_prod no_panic_if no_panic_Inr no_panic_errors no_panic_validate_context)
  show "no_panic (validate_liquidity_event layout event)"
    unfolding validate_liquidity_event_def by (intro no_panic_intros)
  fix u v parent r vals ps bs
  assume c: "validate_context ctx = Inr u" "validate_liquidity_event layout event = Inr v"
  show "no_panic (load_liquidity_parent addr layout ctx state)" using c(1) by (rule no_panic_load_liquidity_parent)
  show "no_panic (boundary_positions keccak256 addr layout event state)" using c(2) by (rule no_panic_boundary_positions)
  show "no_panic (rmap (resolve_boundary keccak256 (liquidity_env_of addr layout event parent) state) ps)"
    by (intro no_panic_intros)
  assume p: "boundary_positions keccak256 addr layout event state = Inr r" "r = (vals, ps)"
    and b: "rmap (resolve_boundary keccak256 (liquidity_env_of addr layout event parent) state) ps = Inr bs"
  obtain p1 p2 where ps: "ps = [p1, p2]" using p by (auto simp: boundary_positions_def)
  note q = boundary_positions_okD [OF p(1) [unfolded p(2) ps] validate_liquidity_event_okD(2) [OF c(2)]]
  have entry: "map_of vals k = Some (state addr k)" if "k \<in> {bp_slot p1, bp_slot p2}" for k
  proof -
    have "k \<in> fst ` set vals" unfolding q(12) by (rule that)
    then obtain w where w: "(k, w) \<in> set vals" by force
    then show ?thesis using q(1) by (auto simp: bitmap_cache_def)
  qed
  note seeded = resolved_boundary_seeded [where state = state and addr = addr and vals = vals]
  obtain b1 b2 where bs: "bs = [b1, b2]"
    "resolve_boundary keccak256 (liquidity_env_of addr layout event parent) state p1 = Inr b1"
    "resolve_boundary keccak256 (liquidity_env_of addr layout event parent) state p2 = Inr b2"
    using b unfolding ps rmap.simps by (blast elim!: rbind_eq_InrE)
  have s1: "b1 \<noteq> None \<longrightarrow> (\<exists>v. map_of vals (bp_slot p1) = Some (Some v))"
    using seeded [OF bs(2) _ q(6)] entry [of "bp_slot p1"] by simp
  have s2: "b2 \<noteq> None \<longrightarrow> (\<exists>v. map_of vals (bp_slot p2) = Some (Some v))"
    using seeded [OF bs(3) _ q(11)] entry [of "bp_slot p2"] by simp
  have "\<forall>(x, pos) \<in> set (zip bs ps). x \<noteq> None \<longrightarrow> (\<exists>v. map_of vals (bp_slot pos) = Some (Some v))"
    unfolding ps bs(1) using s1 s2 by simp
  then show "no_panic (flip_bitmaps (zip bs ps) (vals, []))" by (rule no_panic_flip_bitmaps)
  show "no_panic (in_range_writes addr layout event parent)"
    unfolding in_range_writes_def Let_def by (intro no_panic_intros)
qed

end
