(* ===== verification/Example_Mint.thy ===== *)
theory Example_Mint
  imports Example_Pool V3_Liquidity_Facts
begin

text \<open>
  A concrete Mint on the pool of \<open>Example_Pool\<close>: liquidity 1000 on the ticks -10 to 20, which
  contain the current tick 0. Both ticks are new, and they live in two different bitmap words.
  The hash is computed from the low byte of the key and the base slot.
\<close>

definition mint_hash :: keccak where
  "mint_hash bytes = ucast (bytes ! 31) * 256 + ucast (bytes ! 63)"

definition mint_words :: "(u256 \<times> u256) list" where
  "mint_words = [(0, demo_slot0), (1, 5), (2, 7), (3, 9), (4, 1000000000000000000),
     (8, demo_observation), (6, 0), (65286, 0)]"

definition mint_view :: state_view where
  "mint_view a k = (if a = demo_pool then map_of mint_words k else None)"

definition mint_event :: decoded_liquidity where
  "mint_event = \<lparr>dl_tick_lower = - 10, dl_tick_upper = 20, dl_amount = 1000, dl_is_mint = True\<rparr>"

definition mint_parent :: liquidity_parent where
  "mint_parent = \<lparr>lp_slot0 = sp_slot0 demo_parent, lp_active_liquidity = 1000000000000000000,
     lp_max_liquidity_per_tick = 1917569901783203986719870431555990,
     lp_advance = (0, 1, Some (8, 452312848583266388373324265502478808609022575517998145922812786964535707600), demo_now),
     lp_fee_growth_0 = 5, lp_fee_growth_1 = 7, lp_timestamp = 2000\<rparr>"

lemma mint_view_words:
  "mint_view demo_pool 0 = Some demo_slot0" "mint_view demo_pool 1 = Some 5"
  "mint_view demo_pool 2 = Some 7" "mint_view demo_pool 4 = Some 1000000000000000000"
  "mint_view demo_pool 8 = Some demo_observation" "mint_view demo_pool 6 = Some 0"
  "mint_view demo_pool 65286 = Some 0"
  "mint_view demo_pool 62981 = None" "mint_view demo_pool 5125 = None"
  by (simp_all add: mint_view_def mint_words_def)

lemma mint_keys:
  "v3_tick_bitmap_storage_key_with_base mint_hash (- 1) 6 = 65286"
  "v3_tick_bitmap_storage_key_with_base mint_hash 0 6 = 6"
  "v3_tick_info_storage_keys_with_base mint_hash (- 10) 5 = [62981, 62982, 62983, 62984]"
  "v3_tick_info_storage_keys_with_base mint_hash 20 5 = [5125, 5126, 5127, 5128]"
  by (simp_all add: v3_tick_bitmap_storage_key_with_base_def v3_tick_info_storage_keys_with_base_def
      v3_tick_info_storage_base_def mint_hash_def i256_from_i16_def i256_from_i24_def to_be_bytes32_def
      nth_append Let_def nth_Cons' unsigned_minus_1_eq_mask mask_eq_exp_minus_1)

lemma mint_event_valid: "validate_liquidity_event (layout_uniswap 10) mint_event = Inr ()"
  by (simp add: validate_liquidity_event_def mint_event_def)

lemma mint_max: "uniswap_v3_max_liquidity_per_tick 10 = Some 1917569901783203986719870431555990"
  by (simp add: uniswap_v3_max_liquidity_per_tick_def trunc_div_def Let_def unsigned_minus_1_eq_mask mask_eq_exp_minus_1)

lemma mint_advance: "advance_oracle demo_pool UNISWAP_V3_SURFACE (sp_slot0 demo_parent) 1000000000000000000 demo_ctx mint_view
    = Inr (lp_advance mint_parent)"
  by (simp add: advance_oracle_def Let_def demo_context UNISWAP_V3_SURFACE_def from_limbs_def demo_parent_def
      mint_view_words demo_observation_decode demo_transform demo_encode mint_parent_def)

lemma mint_load: "load_liquidity_parent demo_pool (layout_uniswap 10) demo_ctx mint_view = Inr mint_parent"
proof -
  have slot0: "validate_parent_slot0 (sp_slot0 demo_parent) = Inr ()"
    by (simp add: validate_parent_slot0_def demo_parent_def sqrt_ratio_min sqrt_ratio_max sqrt_ratio_zero demo_prices word_eval)
  have surface: "fee_growth_0_slot UNISWAP_V3_SURFACE = 1" "fee_growth_1_slot UNISWAP_V3_SURFACE = 2"
    by (simp_all add: UNISWAP_V3_SURFACE_def from_limbs_def)
  have lock: "(ucast (drop_bit 240 (s0_raw (sp_slot0 demo_parent)) AND ucast (- 1 :: u8)) :: u8) = 1"
    by (simp add: demo_parent_def demo_slot0_def word_eval)
  show ?thesis
    by (simp add: load_liquidity_parent_def Let_def mint_view_words demo_slot0_decode slot0 mint_advance mint_max demo_context
        surface lock le_WORD_128_MASK_iff not_less)
      (simp add: mint_parent_def)
qed

definition mint_lower :: canonical_tick_update where
  "mint_lower = \<lparr>ctu_keys = [62981, 62982, 62983, 62984],
     ctu_words = [340282366920938463463374607431768211456000 + 1000, 5, 7, unsigned_bits 0 56 OR push_bit 56 340282366920938463463374
        OR push_bit 216 2000 OR push_bit 248 1],
     ctu_was_initialized = False, ctu_is_initialized = True\<rparr>"

definition mint_upper :: canonical_tick_update where
  "mint_upper = \<lparr>ctu_keys = [5125, 5126, 5127, 5128],
     ctu_words = [1000 OR push_bit 128 (2 ^ 128 - 1000), 0, 0, push_bit 248 1],
     ctu_was_initialized = False, ctu_is_initialized = True\<rparr>"

definition mint_env :: liquidity_env where
  "mint_env = liquidity_env_of demo_pool (layout_uniswap 10) mint_event mint_parent"

lemma mint_ticks:
  "update_canonical_liquidity_tick mint_hash mint_env (- 10) False False mint_view = Inr mint_lower"
  "update_canonical_liquidity_tick mint_hash mint_env 20 True False mint_view = Inr mint_upper"
  by (simp_all add: update_canonical_liquidity_tick_def mint_env_def liquidity_env_of_def mint_event_def mint_keys
      read_tick_words_def mint_view_words validate_tick_words_def next_gross_def next_net_def i128_checked_add_def
      Let_def checked_add_def mint_parent_def demo_parent_def outside_words_def mint_lower_def mint_upper_def demo_now_def
      as_i128_def word_eval)

lemma mint_positions:
  "boundary_positions mint_hash demo_pool (layout_uniswap 10) mint_event mint_view =
    Inr ([(6, Some 0), (65286, Some 0)],
      [\<lparr>bp_tick = - 10, bp_upper = False, bp_slot = 65286, bp_mask = push_bit 255 1, bp_value = Some 0\<rparr>,
       \<lparr>bp_tick = 20, bp_upper = True, bp_slot = 6, bp_mask = push_bit 2 1, bp_value = Some 0\<rparr>])"
  by (simp add: boundary_positions_def boundary_position_def v3_word_position_def mint_event_def Let_def mint_keys
      mint_view_words bt_entry_def div_euclid_def i32_checked_def i32_range_def)

definition mint_transition :: canonical_liquidity_transition where
  "mint_transition = \<lparr>clt_updates = tick_slot_writes demo_pool mint_lower @ tick_slot_writes demo_pool mint_upper
     @ [Slot demo_pool 6 4, Slot demo_pool 65286 (2 ^ 255),
        Slot demo_pool 8 452312848583266388373324265502478808609022575517998145922812786964535707600,
        Slot demo_pool 0 demo_slot0, Slot demo_pool 4 1000000000000001000],
     clt_cold_slots = []\<rparr>"

definition mint_range :: "state_update list" where
  "mint_range = [Slot demo_pool 8 452312848583266388373324265502478808609022575517998145922812786964535707600,
     Slot demo_pool 0 demo_slot0, Slot demo_pool 4 1000000000000001000]"

lemma mint_in_range: "in_range_writes demo_pool (layout_uniswap 10) mint_event mint_parent = Inr mint_range"
proof -
  have enc: "encode_final (sp_slot0 demo_parent) (2 ^ 96) 0 0 1 = demo_slot0"
    by (simp add: encode_final_def Let_def demo_parent_def demo_slot0_def tick_bits_def word_eval)
  have fields: "s0_sqrt_price_x96 (sp_slot0 demo_parent) = 2 ^ 96" "s0_tick (sp_slot0 demo_parent) = 0"
    by (simp_all add: demo_parent_def)
  show ?thesis
    using enc
    by (simp add: in_range_writes_def Let_def mint_event_def mint_parent_def fields checked_add_def
        le_WORD_128_MASK_iff not_less mint_range_def)
qed

lemma mint_run: "derive_uniswap_v3_liquidity mint_hash demo_pool (layout_uniswap 10) mint_event demo_ctx mint_view
    = Inr mint_transition"
proof -
  have amount: "dl_amount mint_event = 1000" by (simp add: mint_event_def)
  have flips: "ctu_was_initialized mint_lower = False" "ctu_is_initialized mint_lower"
    "ctu_was_initialized mint_upper = False" "ctu_is_initialized mint_upper"
    by (simp_all add: mint_lower_def mint_upper_def)
  show ?thesis
    by (simp add: derive_uniswap_v3_liquidity_def demo_context mint_event_valid amount mint_load mint_positions
        mint_env_def [symmetric] resolve_boundary_def mint_ticks boundary_writes_def flip_bitmap_def flips mint_in_range
        bt_set_def bitmap_writes_def)
      (simp add: mint_transition_def tick_slot_writes_def mint_range_def)
qed

end
