(* ===== verification/V3_Accounting.thy ===== *)
theory V3_Accounting
  imports V3_Swap
begin

text \<open>
  The accounting transitions of \<open>src/adapters/v3_transition.rs\<close> for a canonical Uniswap V3 pool:
  \<open>Flash\<close>, \<open>SetFeeProtocol\<close>, \<open>CollectProtocol\<close> and \<open>IncreaseObservationCardinalityNext\<close>, and the
  storage words of a position.
\<close>

section \<open>Events\<close>

record decoded_flash =
  fl_amount0 :: u256
  fl_amount1 :: u256
  fl_paid0 :: u256
  fl_paid1 :: u256

record decoded_fee_protocol =
  fp_old0 :: u8
  fp_old1 :: u8
  fp_new0 :: u8
  fp_new1 :: u8

record decoded_collect_protocol =
  cp_amount0 :: u256
  cp_amount1 :: u256

record decoded_observation_growth =
  og_old :: u16
  og_new :: u16

definition validate_canonical_accounting :: "v3_storage_layout \<Rightarrow> adapter_event_context \<Rightarrow> unit result" where
  "validate_canonical_accounting layout ctx =
    rbind (validate_context ctx) (\<lambda>_.
    if layout \<noteq> layout_uniswap (tick_spacing layout)
    then Inl (contradiction ''exact Uniswap V3 transition requires the canonical storage layout'')
    else if tick_spacing layout \<le> 0
    then Inl (contradiction ''Uniswap V3 tick spacing must be positive'')
    else Inr ())"

section \<open>Flash\<close>

text \<open>The words a flash changes: the two fee growths and the packed protocol fees.\<close>

record flash_state =
  fls_fee_growth_0 :: u256
  fls_fee_growth_1 :: u256
  fls_protocol_fees :: u256

definition flash_protocol_fees :: "bool \<Rightarrow> u256 \<Rightarrow> u256 \<Rightarrow> u256" where
  "flash_protocol_fees is_token0 protocol_fees truncated =
    (if truncated = 0 then protocol_fees
     else if is_token0
     then let token0 = ((protocol_fees AND WORD_128_MASK) + truncated) AND WORD_128_MASK
          in (protocol_fees AND push_bit 128 WORD_128_MASK) OR token0
     else let token1 = ((drop_bit 128 protocol_fees AND WORD_128_MASK) + truncated) AND WORD_128_MASK
          in (protocol_fees AND WORD_128_MASK) OR push_bit 128 token1)"

definition flash_token :: "u256 \<Rightarrow> u256 \<times> u8 \<times> bool \<Rightarrow> flash_state \<Rightarrow> flash_state result" where
  "flash_token liquidity = (\<lambda>(paid, protocol_share, is_token0) fls.
    if paid = 0 then Inr fls
    else
      let protocol_fee = (if protocol_share = 0 then 0 else paid div ucast protocol_share);
          truncated = protocol_fee AND WORD_128_MASK;
          fls = fls\<lparr>fls_protocol_fees := flash_protocol_fees is_token0 (fls_protocol_fees fls) truncated\<rparr>
      in rbind (ok_or (checked_sub paid protocol_fee)
                 (arithmetic ''flash protocol fee exceeds the amount paid'')) (\<lambda>lp_share.
         rbind (mul_div lp_share Q128 liquidity) (\<lambda>growth.
         Inr (if is_token0 then fls\<lparr>fls_fee_growth_0 := fls_fee_growth_0 fls + growth\<rparr>
              else fls\<lparr>fls_fee_growth_1 := fls_fee_growth_1 fls + growth\<rparr>))))"

definition flash_quoted_fees :: "u32 \<Rightarrow> decoded_flash \<Rightarrow> unit result" where
  "flash_quoted_fees fee flash =
    (let denominator = ucast FEE_DENOMINATOR
     in rbind (mul_div_round_up (fl_amount0 flash) (ucast fee) denominator) (\<lambda>quoted_fee_0.
        rbind (mul_div_round_up (fl_amount1 flash) (ucast fee) denominator) (\<lambda>quoted_fee_1.
        if fl_paid0 flash < quoted_fee_0 then Inl (final_mismatch ''flash paid0'' (fl_paid0 flash) quoted_fee_0)
        else if fl_paid1 flash < quoted_fee_1 then Inl (final_mismatch ''flash paid1'' (fl_paid1 flash) quoted_fee_1)
        else Inr ())))"

definition derive_uniswap_v3_flash ::
  "address \<Rightarrow> v3_storage_layout \<Rightarrow> u32 \<Rightarrow> decoded_flash \<Rightarrow> adapter_event_context \<Rightarrow> state_view
    \<Rightarrow> state_update list result" where
  "derive_uniswap_v3_flash addr layout fee flash ctx state =
    rbind (validate_canonical_accounting layout ctx) (\<lambda>_.
    if ucast FEE_DENOMINATOR \<le> fee then Inl (contradiction ''invalid Uniswap V3 fee'')
    else
      rbind (required state addr (slot0_slot layout)) (\<lambda>slot0_raw.
      rbind (required state addr (liquidity_slot layout)) (\<lambda>liquidity.
      if liquidity = 0 then Inl (contradiction ''flash requires nonzero active liquidity'')
      else if WORD_128_MASK < liquidity then Inl (contradiction ''parent V3 liquidity exceeds uint128'')
      else
        rbind (required state addr (fee_growth_0_slot UNISWAP_V3_SURFACE)) (\<lambda>fee_growth_0.
        rbind (required state addr (fee_growth_1_slot UNISWAP_V3_SURFACE)) (\<lambda>fee_growth_1.
        rbind (required state addr (protocol_fees_slot UNISWAP_V3_SURFACE)) (\<lambda>protocol_fees.
        rbind (flash_quoted_fees fee flash) (\<lambda>_.
        rbind (flash_token liquidity (fl_paid0 flash, s0_fee_protocol (slot0_decode slot0_raw) mod 16, True)
                \<lparr>fls_fee_growth_0 = fee_growth_0, fls_fee_growth_1 = fee_growth_1,
                 fls_protocol_fees = protocol_fees\<rparr>) (\<lambda>fls.
        rbind (flash_token liquidity (fl_paid1 flash, drop_bit 4 (s0_fee_protocol (slot0_decode slot0_raw)), False) fls) (\<lambda>fls.
        Inr [Slot addr (fee_growth_0_slot UNISWAP_V3_SURFACE) (fls_fee_growth_0 fls),
             Slot addr (fee_growth_1_slot UNISWAP_V3_SURFACE) (fls_fee_growth_1 fls),
             Slot addr (protocol_fees_slot UNISWAP_V3_SURFACE) (fls_protocol_fees fls)])))))))))"

section \<open>Protocol fee settings and collection\<close>

definition canonical_denominator :: "u8 \<Rightarrow> bool" where
  "canonical_denominator v \<longleftrightarrow> v = 0 \<or> (4 \<le> v \<and> v \<le> 10)"

definition derive_uniswap_v3_set_fee_protocol ::
  "address \<Rightarrow> v3_storage_layout \<Rightarrow> decoded_fee_protocol \<Rightarrow> adapter_event_context \<Rightarrow> state_view
    \<Rightarrow> state_update list result" where
  "derive_uniswap_v3_set_fee_protocol addr layout event ctx state =
    rbind (validate_canonical_accounting layout ctx) (\<lambda>_.
    if \<not> canonical_denominator (fp_new0 event) \<or> \<not> canonical_denominator (fp_new1 event)
    then Inl (contradiction ''fee protocol denominator outside the canonical range'')
    else
      rbind (required state addr (slot0_slot layout)) (\<lambda>slot0_raw.
      let current = (ucast (drop_bit 232 slot0_raw AND ucast (- 1 :: u8)) :: u8);
          expected = fp_old0 event OR push_bit 4 (fp_old1 event)
      in if current \<noteq> expected
         then Inl (final_mismatch ''slot0 feeProtocol'' (ucast current) (ucast expected))
         else let packed = fp_new0 event OR push_bit 4 (fp_new1 event);
                  mask' = push_bit 232 (ucast (- 1 :: u8))
              in Inr [Slot addr (slot0_slot layout)
                        ((slot0_raw AND NOT mask') OR push_bit 232 (ucast packed))]))"

definition derive_uniswap_v3_collect_protocol ::
  "address \<Rightarrow> v3_storage_layout \<Rightarrow> decoded_collect_protocol \<Rightarrow> adapter_event_context \<Rightarrow> state_view
    \<Rightarrow> state_update list result" where
  "derive_uniswap_v3_collect_protocol addr layout event ctx state =
    rbind (validate_canonical_accounting layout ctx) (\<lambda>_.
    if WORD_128_MASK < cp_amount0 event \<or> WORD_128_MASK < cp_amount1 event
    then Inl (MalformedLog ''CollectProtocol amount exceeds its ABI width'')
    else
      rbind (required state addr (protocol_fees_slot UNISWAP_V3_SURFACE)) (\<lambda>protocol_fees.
      rbind (ok_or (checked_sub (protocol_fees AND WORD_128_MASK) (cp_amount0 event))
              (arithmetic ''collected protocol fee exceeds the accrued token0 balance'')) (\<lambda>token0.
      rbind (ok_or (checked_sub (drop_bit 128 protocol_fees AND WORD_128_MASK) (cp_amount1 event))
              (arithmetic ''collected protocol fee exceeds the accrued token1 balance'')) (\<lambda>token1.
      Inr [Slot addr (protocol_fees_slot UNISWAP_V3_SURFACE) (token0 OR push_bit 128 token1)]))))"

section \<open>Observation growth\<close>

definition derive_uniswap_v3_observation_growth ::
  "address \<Rightarrow> v3_storage_layout \<Rightarrow> decoded_observation_growth \<Rightarrow> adapter_event_context \<Rightarrow> state_view
    \<Rightarrow> state_update list result" where
  "derive_uniswap_v3_observation_growth addr layout event ctx state =
    rbind (validate_canonical_accounting layout ctx) (\<lambda>_.
    if og_new event \<le> og_old event
    then Inl (contradiction ''observation cardinality growth must increase the reservation'')
    else
      rbind (required state addr (slot0_slot layout)) (\<lambda>slot0_raw.
      let slot0 = slot0_decode slot0_raw
      in if s0_observation_cardinality slot0 = 0
         then Inl (observation_error ''observation cardinality is zero'')
         else if s0_observation_cardinality_next slot0 \<noteq> og_old event
         then Inl (final_mismatch ''slot0 observationCardinalityNext''
                (ucast (s0_observation_cardinality_next slot0)) (ucast (og_old event)))
         else let mask' = push_bit 216 (ucast (- 1 :: u16))
              in Inr (map (\<lambda>index. Slot addr (observations_base_slot UNISWAP_V3_SURFACE + word_of_nat index) 1)
                        [unat (og_old event) ..< unat (og_new event)]
                      @ [Slot addr (slot0_slot layout)
                           ((slot0_raw AND NOT mask') OR push_bit 216 (ucast (og_new event)))])))"

section \<open>Position words\<close>

definition UNISWAP_V3_POSITIONS_SLOT :: u8 where "UNISWAP_V3_POSITIONS_SLOT = 7"

text \<open>Big-endian bytes of an address, and of an \<open>i32\<close> tick without its first byte.\<close>

definition address_bytes :: "address \<Rightarrow> u8 list" where
  "address_bytes a = map (\<lambda>i. ucast (drop_bit (8 * (19 - i)) a)) [0..<20]"

definition tick_tail_bytes :: "i32 \<Rightarrow> u8 list" where
  "tick_tail_bytes t = map (\<lambda>i. ucast (drop_bit (8 * (2 - i)) (word_of_int t :: u32))) [0..<3]"

definition uniswap_v3_position_slots :: "keccak \<Rightarrow> address \<Rightarrow> i32 \<Rightarrow> i32 \<Rightarrow> u256 list" where
  "uniswap_v3_position_slots keccak256 owner tick_lower tick_upper =
    (let key = keccak256 (address_bytes owner @ tick_tail_bytes tick_lower @ tick_tail_bytes tick_upper);
         base = keccak256 (to_be_bytes32 key @ replicate 31 0 @ [UNISWAP_V3_POSITIONS_SLOT])
     in [base, base + 1, base + 2, base + 3])"

section \<open>Aborts and partial views\<close>

lemma no_panic_validate_accounting [no_panic_intros]: "no_panic (validate_canonical_accounting layout ctx)"
  unfolding validate_canonical_accounting_def by (intro no_panic_intros)

lemma no_panic_flash_token [no_panic_intros]: "no_panic (flash_token liquidity t fls)"
proof (cases t)
  case (fields paid share is_token0)
  show ?thesis unfolding fields flash_token_def prod.case Let_def by (intro no_panic_intros)
qed

lemma no_panic_flash [no_panic_intros]: "no_panic (derive_uniswap_v3_flash addr layout fee flash ctx state)"
  unfolding derive_uniswap_v3_flash_def flash_quoted_fees_def Let_def
  by (intro no_panic_intros)

lemma no_panic_accounting:
  "no_panic (derive_uniswap_v3_set_fee_protocol addr layout ev1 ctx state)"
  "no_panic (derive_uniswap_v3_collect_protocol addr layout ev2 ctx state)"
  "no_panic (derive_uniswap_v3_observation_growth addr layout ev3 ctx state)"
  unfolding derive_uniswap_v3_set_fee_protocol_def derive_uniswap_v3_collect_protocol_def
    derive_uniswap_v3_observation_growth_def Let_def observation_error_def
  by (intro no_panic_intros; simp)+

interpretation uniswap_flash: exact_transition "derive_uniswap_v3_flash addr layout fee flash ctx"
  for addr layout fee flash ctx
  unfolding derive_uniswap_v3_flash_def by unfold_locales (intro fail_closed_intros)

interpretation uniswap_set_fee_protocol: exact_transition "derive_uniswap_v3_set_fee_protocol addr layout event ctx"
  for addr layout event ctx
  unfolding derive_uniswap_v3_set_fee_protocol_def by unfold_locales (intro fail_closed_intros)

interpretation uniswap_collect_protocol: exact_transition "derive_uniswap_v3_collect_protocol addr layout event ctx"
  for addr layout event ctx
  unfolding derive_uniswap_v3_collect_protocol_def by unfold_locales (intro fail_closed_intros)

interpretation uniswap_observation_growth: exact_transition "derive_uniswap_v3_observation_growth addr layout event ctx"
  for addr layout event ctx
  unfolding derive_uniswap_v3_observation_growth_def by unfold_locales (intro fail_closed_intros)

section \<open>What the transitions write\<close>

lemma validate_canonical_accounting_okD:
  assumes "validate_canonical_accounting layout ctx = Inr u"
  shows "validate_context ctx = Inr ()" "layout = layout_uniswap (tick_spacing layout)" "0 < tick_spacing layout"
  using assms by (auto simp: validate_canonical_accounting_def split: if_splits)

lemma surface_slots [simp]:
  "fee_growth_0_slot UNISWAP_V3_SURFACE = 1" "fee_growth_1_slot UNISWAP_V3_SURFACE = 2"
  "protocol_fees_slot UNISWAP_V3_SURFACE = 3" "observations_base_slot UNISWAP_V3_SURFACE = 8"
  by (simp_all add: UNISWAP_V3_SURFACE_def from_limbs_def)

text \<open>The guarded, truncating addition of a flash is the lane addition of a swap.\<close>

lemma flash_protocol_fees_eq:
  "flash_protocol_fees True w (f AND WORD_128_MASK) = add_token0 w f"
  "flash_protocol_fees False w (f AND WORD_128_MASK) = add_token1 w f"
proof -
  have z: "lane0 (add_token0 w f) = lane0 w" "lane1 (add_token1 w f) = lane1 w" if "f AND WORD_128_MASK = 0"
  proof -
    have "f AND mask 128 = 0" using that by (simp add: packed_simps)
    then have "uint f mod 2 ^ 128 = 0" using uint_and_mask [of f 128] by simp
    then show "lane0 (add_token0 w f) = lane0 w" "lane1 (add_token1 w f) = lane1 w"
      using token0.own_range [of w] token1.own_range [of w]
      by (simp_all add: token0.own_accrue token1.own_accrue mod_add_right_eq [of "_" "uint f", symmetric])
  qed
  show "flash_protocol_fees True w (f AND WORD_128_MASK) = add_token0 w f"
  proof (cases "f AND WORD_128_MASK = 0")
    case True
    then have "add_token0 w f = w" using z(1) by (intro lanes_eqI) (simp_all add: token0.other_accrue)
    with True show ?thesis by (simp add: flash_protocol_fees_def)
  qed (simp add: flash_protocol_fees_def add_token0_def)
  show "flash_protocol_fees False w (f AND WORD_128_MASK) = add_token1 w f"
  proof (cases "f AND WORD_128_MASK = 0")
    case True
    then have "add_token1 w f = w" using z(2) by (intro lanes_eqI) (simp_all add: token1.other_accrue)
    with True show ?thesis by (simp add: flash_protocol_fees_def)
  qed (simp add: flash_protocol_fees_def add_token1_def)
qed

text \<open>
  The protocol's share of a payment and the growth the rest adds per unit of liquidity. A payment
  of zero has neither.
\<close>

definition flash_share :: "u256 \<Rightarrow> u8 \<Rightarrow> int" where
  "flash_share paid divisor = (if divisor = 0 then 0 else uint paid div uint divisor)"

definition flash_growth :: "u256 \<Rightarrow> u256 \<Rightarrow> u8 \<Rightarrow> int" where
  "flash_growth liquidity paid divisor = (uint paid - flash_share paid divisor) * 2 ^ 128 div uint liquidity"

lemma flash_token_okD:
  assumes "flash_token liquidity (paid, divisor, is_token0) fls = Inr fls'"
  shows "\<exists>g f. uint g = (if paid = 0 then 0 else flash_growth liquidity paid divisor) \<and> uint f = flash_share paid divisor
    \<and> fls' = (if is_token0
        then \<lparr>fls_fee_growth_0 = fls_fee_growth_0 fls + g, fls_fee_growth_1 = fls_fee_growth_1 fls,
              fls_protocol_fees = add_token0 (fls_protocol_fees fls) f\<rparr>
        else \<lparr>fls_fee_growth_0 = fls_fee_growth_0 fls, fls_fee_growth_1 = fls_fee_growth_1 fls + g,
              fls_protocol_fees = add_token1 (fls_protocol_fees fls) f\<rparr>)"
proof (cases "paid = 0")
  case True
  have "add_token0 w 0 = w" "add_token1 w 0 = w" for w
    by (auto intro!: lanes_eqI simp: token0.own_zero token1.own_zero token0.other_accrue token1.other_accrue)
  with True assms show ?thesis
    by (intro exI [of _ 0]) (auto simp: flash_token_def flash_share_def)
next
  case False
  define f where "f = (if divisor = 0 then 0 else paid div ucast divisor)"
  have u: "uint (ucast divisor :: u256) = uint divisor"
    by (intro uint_ucast_down) (rule order_less_trans [OF uint_lt_exp], simp)
  have f: "uint f = flash_share paid divisor"
    by (simp add: f_def flash_share_def uint_div u)
  have le: "f \<le> paid"
    using uint_pos_iff [of divisor] zdiv_mono2 [of "uint paid" 1 "uint divisor"]
    by (simp add: word_le_def f flash_share_def int_one_le_iff_zero_less)
  obtain g where g: "mul_div (paid - f) Q128 liquidity = Inr g"
    "fls' = (let fls = fls\<lparr>fls_protocol_fees := flash_protocol_fees is_token0 (fls_protocol_fees fls) (f AND WORD_128_MASK)\<rparr>
       in if is_token0 then fls\<lparr>fls_fee_growth_0 := fls_fee_growth_0 fls + g\<rparr>
          else fls\<lparr>fls_fee_growth_1 := fls_fee_growth_1 fls + g\<rparr>)"
    using assms False le unfolding flash_token_def prod.case Let_def f_def [symmetric]
    by (auto simp: checked_sub_def)
  have "uint g = flash_growth liquidity paid divisor"
    using g(1) by (simp add: mul_div_eq_Inr flash_growth_def uint_sub_no_wrap [OF le] f)
  with g(2) f False show ?thesis
    by (intro exI [of _ g] exI [of _ f]) (cases fls; simp add: Let_def flash_protocol_fees_eq)
qed

lemma flash_quoted_fees_okD:
  assumes "flash_quoted_fees fee flash = Inr u"
  shows "ceil_div (uint (fl_amount0 flash) * uint fee) 1000000 \<le> uint (fl_paid0 flash)"
    "ceil_div (uint (fl_amount1 flash) * uint fee) 1000000 \<le> uint (fl_paid1 flash)"
proof -
  have u: "uint (ucast fee :: u256) = uint fee"
    by (intro uint_ucast_down) (rule order_less_trans [OF uint_lt_exp], simp)
  show "ceil_div (uint (fl_amount0 flash) * uint fee) 1000000 \<le> uint (fl_paid0 flash)"
    "ceil_div (uint (fl_amount1 flash) * uint fee) 1000000 \<le> uint (fl_paid1 flash)"
    using assms
    by (auto simp: flash_quoted_fees_def Let_def mul_div_round_up_eq_Inr FEE_DENOMINATOR_def u word_less_def not_less
        split: if_splits)
qed

lemma derive_flash_okD:
  assumes "derive_uniswap_v3_flash addr layout fee flash ctx state = Inr us"
  shows "\<exists>raw liquidity g0 g1 pf h0 h1 pf'.
    state addr 0 = Some raw \<and> state addr 4 = Some liquidity \<and> 0 < uint liquidity \<and> uint liquidity < 2 ^ 128
    \<and> state addr 1 = Some g0 \<and> state addr 2 = Some g1 \<and> state addr 3 = Some pf
    \<and> us = [Slot addr 1 h0, Slot addr 2 h1, Slot addr 3 pf']
    \<and> ceil_div (uint (fl_amount0 flash) * uint fee) 1000000 \<le> uint (fl_paid0 flash)
    \<and> ceil_div (uint (fl_amount1 flash) * uint fee) 1000000 \<le> uint (fl_paid1 flash)
    \<and> uint h0 = (uint g0 + flash_growth liquidity (fl_paid0 flash) (s0_fee_protocol (slot0_decode raw) mod 16)) mod 2 ^ 256
    \<and> uint h1 = (uint g1 + flash_growth liquidity (fl_paid1 flash) (drop_bit 4 (s0_fee_protocol (slot0_decode raw)))) mod 2 ^ 256
    \<and> lane0 pf' = (lane0 pf + flash_share (fl_paid0 flash) (s0_fee_protocol (slot0_decode raw) mod 16)) mod 2 ^ 128
    \<and> lane1 pf' = (lane1 pf + flash_share (fl_paid1 flash) (drop_bit 4 (s0_fee_protocol (slot0_decode raw)))) mod 2 ^ 128"
proof -
  obtain raw liquidity g0 g1 pf fls fls' where d:
    "validate_canonical_accounting layout ctx = Inr ()" "state addr (slot0_slot layout) = Some raw"
    "state addr (liquidity_slot layout) = Some liquidity" "liquidity \<noteq> 0" "\<not> WORD_128_MASK < liquidity"
    "state addr 1 = Some g0" "state addr 2 = Some g1" "state addr 3 = Some pf" "flash_quoted_fees fee flash = Inr ()"
    "flash_token liquidity (fl_paid0 flash, s0_fee_protocol (slot0_decode raw) mod 16, True)
       \<lparr>fls_fee_growth_0 = g0, fls_fee_growth_1 = g1, fls_protocol_fees = pf\<rparr> = Inr fls"
    "flash_token liquidity (fl_paid1 flash, drop_bit 4 (s0_fee_protocol (slot0_decode raw)), False) fls = Inr fls'"
    "us = [Slot addr 1 (fls_fee_growth_0 fls'), Slot addr 2 (fls_fee_growth_1 fls'), Slot addr 3 (fls_protocol_fees fls')]"
    using assms unfolding derive_uniswap_v3_flash_def
    by (fastforce split: if_splits)
  have "slot0_slot layout = 0" "liquidity_slot layout = 4"
    by (subst validate_canonical_accounting_okD(2) [OF d(1)], simp)+
  note slots = d(2,3) [unfolded this]
  have z: "flash_growth liquidity 0 q = 0" for q by (simp add: flash_growth_def flash_share_def)
  from flash_token_okD [OF d(10)] obtain a f where 0:
    "uint a = flash_growth liquidity (fl_paid0 flash) (s0_fee_protocol (slot0_decode raw) mod 16)"
    "uint f = flash_share (fl_paid0 flash) (s0_fee_protocol (slot0_decode raw) mod 16)"
    "fls = \<lparr>fls_fee_growth_0 = g0 + a, fls_fee_growth_1 = g1, fls_protocol_fees = add_token0 pf f\<rparr>"
    by (auto simp: z)
  from flash_token_okD [OF d(11)] obtain b h where 1:
    "uint b = flash_growth liquidity (fl_paid1 flash) (drop_bit 4 (s0_fee_protocol (slot0_decode raw)))"
    "uint h = flash_share (fl_paid1 flash) (drop_bit 4 (s0_fee_protocol (slot0_decode raw)))"
    "fls' = \<lparr>fls_fee_growth_0 = g0 + a, fls_fee_growth_1 = g1 + b, fls_protocol_fees = add_token1 (add_token0 pf f) h\<rparr>"
    by (auto simp: z 0(3))
  have l: "0 < uint liquidity" "uint liquidity < 2 ^ 128"
    using d(4,5) by (simp_all add: uint_pos_iff not_less le_WORD_128_MASK_iff)
  show ?thesis
    by (rule exI [of _ raw], rule exI [of _ liquidity], rule exI [of _ g0], rule exI [of _ g1], rule exI [of _ pf],
        rule exI [of _ "g0 + a"], rule exI [of _ "g1 + b"], rule exI [of _ "add_token1 (add_token0 pf f) h"])
      (intro conjI slots l d(6-8) flash_quoted_fees_okD [OF d(9)];
       simp add: d(12) 1(3) uint_word_ariths 0(1,2) 1(1,2) token0.own_accrue token1.own_accrue token0.other_accrue
         token1.other_accrue)
qed

text \<open>Replacing one field of a word.\<close>

lemma replace_field:
  assumes "take_bit m v = v" "k + m \<le> 256"
  shows "field k m ((w AND NOT (push_bit k (mask m))) OR push_bit k v) = v"
    "off + n \<le> k \<or> k + m \<le> off
      \<Longrightarrow> field off n ((w AND NOT (push_bit k (mask m))) OR push_bit k v) = field off n w"
proof -
  have "field k m (w AND NOT (push_bit k (mask m))) = 0"
    by (rule bit_word_eqI) (auto simp: bit_simps dest: bit_imp_le_length)
  then show "field k m ((w AND NOT (push_bit k (mask m))) OR push_bit k v) = v"
    using assms by (simp add: field_push_same)
  assume "off + n \<le> k \<or> k + m \<le> off"
  then show "field off n ((w AND NOT (push_bit k (mask m))) OR push_bit k v) = field off n w"
    using field_push_above [OF assms(1)] by (auto simp: field_and_not_mask field_push_below)
qed

lemma nibbles:
  fixes a b :: u8
  assumes "canonical_denominator a" "canonical_denominator b"
  shows "(a OR push_bit 4 b) AND 0x0f = a" "drop_bit 4 (a OR push_bit 4 b) = b" "(a OR push_bit 4 b) mod 16 = a"
proof -
  have small: "take_bit 4 v = v" if "canonical_denominator v" for v
    using that by (intro take_bit_of_small) (auto simp: canonical_denominator_def word_le_def)
  have m: "(0x0f :: u8) = mask 4" by (simp add: mask_eq_exp_minus_1)
  note bits = take_bit_self_bit [OF small [OF assms(1)]] take_bit_self_bit [OF small [OF assms(2)]]
  show "(a OR push_bit 4 b) AND 0x0f = a"
    unfolding m by (rule bit_word_eqI) (auto simp: bit_simps dest: bits)
  show "drop_bit 4 (a OR push_bit 4 b) = b"
    by (rule bit_word_eqI) (auto simp: bit_simps dest: bits)
  have "(a OR push_bit 4 b) mod 16 = take_bit 4 (a OR push_bit 4 b)"
    by (simp add: take_bit_eq_mod)
  also have "\<dots> = a" by (rule bit_word_eqI) (auto simp: bit_simps dest: bits)
  finally show "(a OR push_bit 4 b) mod 16 = a" .
qed

lemma derive_set_fee_protocol_okD:
  assumes "derive_uniswap_v3_set_fee_protocol addr layout event ctx state = Inr us"
  shows "\<exists>raw word. state addr 0 = Some raw \<and> us = [Slot addr 0 word]
    \<and> s0_fee_protocol (slot0_decode raw) = fp_old0 event OR push_bit 4 (fp_old1 event)
    \<and> slot0_decode word = (slot0_decode raw)\<lparr>s0_raw := word, s0_fee_protocol := fp_new0 event OR push_bit 4 (fp_new1 event)\<rparr>
    \<and> field 240 16 word = field 240 16 raw
    \<and> s0_fee_protocol (slot0_decode word) AND 0x0f = fp_new0 event \<and> drop_bit 4 (s0_fee_protocol (slot0_decode word)) = fp_new1 event"
proof -
  define packed where "packed = fp_new0 event OR push_bit 4 (fp_new1 event)"
  obtain raw where d: "validate_canonical_accounting layout ctx = Inr ()"
    "canonical_denominator (fp_new0 event)" "canonical_denominator (fp_new1 event)"
    "state addr (slot0_slot layout) = Some raw"
    "ucast (field 232 8 raw) = fp_old0 event OR push_bit 4 (fp_old1 event)"
    "us = [Slot addr (slot0_slot layout) ((raw AND NOT (push_bit 232 (mask 8))) OR push_bit 232 (ucast packed))]"
    using assms unfolding derive_uniswap_v3_set_fee_protocol_def
    by (auto simp: Let_def ucast_minus_1 drop_and_mask_field packed_def split: if_splits)
  have slot: "slot0_slot layout = 0" by (subst validate_canonical_accounting_okD(2) [OF d(1)]) simp
  define word where "word = (raw AND NOT (push_bit 232 (mask 8))) OR push_bit 232 (ucast packed)"
  have small: "take_bit 8 (ucast packed :: u256) = ucast packed" by (simp add: take_bit_ucast_self)
  have f: "field 232 8 word = ucast packed" unfolding word_def by (rule replace_field(1) [OF small]) simp
  have r: "field off n word = field off n raw" if "off + n \<le> 232 \<or> 240 \<le> off" for off n
    unfolding word_def using that by (intro replace_field(2) [OF small]) simp_all
  have dec: "slot0_decode word = (slot0_decode raw)\<lparr>s0_raw := word, s0_fee_protocol := packed\<rparr>"
    by (rule slot0_word.equality) (simp_all add: slot0_decode_fields r f ucast_ucast_id_256)
  have high: "field 240 16 word = field 240 16 raw" by (simp add: r)
  have fp: "s0_fee_protocol (slot0_decode word) = packed" by (simp add: dec)
  have old: "s0_fee_protocol (slot0_decode raw) = fp_old0 event OR push_bit 4 (fp_old1 event)"
    by (simp add: slot0_decode_fields d(5))
  note halves = nibbles [OF d(2,3), folded packed_def, folded fp]
  show ?thesis
    by (rule exI [of _ raw], rule exI [of _ word])
      (intro conjI d(4) [unfolded slot] dec [unfolded packed_def] high old halves d(6) [unfolded slot, folded word_def])
qed

lemma derive_collect_protocol_okD:
  assumes "derive_uniswap_v3_collect_protocol addr layout event ctx state = Inr us"
  shows "\<exists>pf pf'. state addr 3 = Some pf \<and> us = [Slot addr 3 pf']
    \<and> lane0 pf' = lane0 pf - uint (cp_amount0 event) \<and> lane1 pf' = lane1 pf - uint (cp_amount1 event)"
proof -
  obtain pf t0 t1 where d: "state addr 3 = Some pf" "us = [Slot addr 3 (t0 OR push_bit 128 t1)]"
    "uint t0 = uint (field 0 128 pf) - uint (cp_amount0 event)" "uint t1 = uint (field 128 128 pf) - uint (cp_amount1 event)"
    using assms unfolding derive_uniswap_v3_collect_protocol_def
    by (auto simp: WORD_128_MASK_eq and_mask_field checked_sub_eq_Some split: if_splits)
  have t: "take_bit 128 t0 = t0" "take_bit 128 t1 = t1"
  proof -
    have "uint t0 < 2 ^ 128" using d(3) uint_field_less [of 0 128 pf] uint_ge_0 [of "cp_amount0 event"] by linarith
    then show "take_bit 128 t0 = t0" by (rule take_bit_of_small)
    have "uint t1 < 2 ^ 128" using d(4) uint_field_less [of 128 128 pf] uint_ge_0 [of "cp_amount1 event"] by linarith
    then show "take_bit 128 t1 = t1" by (rule take_bit_of_small)
  qed
  have "lane0 (t0 OR push_bit 128 t1) = uint t0" "lane1 (t0 OR push_bit 128 t1) = uint t1"
    by (simp_all add: lane0_def lane1_def field_low [OF t(1)] field_push_below field_low_above [OF t(1)] field_push_same t)
  with d show ?thesis by (auto simp: lane0_def lane1_def)
qed

lemma collect_protocol_rejects:
  assumes "validate_canonical_accounting layout ctx = Inr ()" "uint (cp_amount0 event) < 2 ^ 128" "uint (cp_amount1 event) < 2 ^ 128"
    and "state addr 3 = Some pf" "lane0 pf < uint (cp_amount0 event) \<or> lane1 pf < uint (cp_amount1 event)"
  shows "\<exists>reason. derive_uniswap_v3_collect_protocol addr layout event ctx state = Inl (arithmetic reason)"
proof -
  have "checked_sub (field 0 128 pf) (cp_amount0 event) = None \<longleftrightarrow> lane0 pf < uint (cp_amount0 event)"
    "checked_sub (field 128 128 pf) (cp_amount1 event) = None \<longleftrightarrow> lane1 pf < uint (cp_amount1 event)"
    by (simp_all add: checked_sub_def lane0_def lane1_def word_le_def not_le)
  moreover have "pf AND WORD_128_MASK = field 0 128 pf" "drop_bit 128 pf AND WORD_128_MASK = field 128 128 pf"
    by (simp_all add: WORD_128_MASK_eq and_mask_field)
  moreover have "\<not> WORD_128_MASK < cp_amount0 event" "\<not> WORD_128_MASK < cp_amount1 event"
    using assms(2,3) by (simp_all only: not_less le_WORD_128_MASK_iff)
  ultimately show ?thesis using assms
    unfolding derive_uniswap_v3_collect_protocol_def
    by (cases "checked_sub (field 0 128 pf) (cp_amount0 event)"; cases "checked_sub (field 128 128 pf) (cp_amount1 event)")
      auto
qed

lemma derive_observation_growth_okD:
  assumes "derive_uniswap_v3_observation_growth addr layout event ctx state = Inr us"
  shows "\<exists>raw word. state addr 0 = Some raw \<and> og_old event < og_new event
    \<and> us = map (\<lambda>index. Slot addr (8 + word_of_nat index) 1) [unat (og_old event) ..< unat (og_new event)] @ [Slot addr 0 word]
    \<and> s0_observation_cardinality_next (slot0_decode raw) = og_old event
    \<and> slot0_decode word = (slot0_decode raw)\<lparr>s0_raw := word, s0_observation_cardinality_next := og_new event\<rparr>
    \<and> field 240 16 word = field 240 16 raw"
proof -
  obtain raw where d: "validate_canonical_accounting layout ctx = Inr ()" "og_old event < og_new event"
    "state addr (slot0_slot layout) = Some raw" "s0_observation_cardinality_next (slot0_decode raw) = og_old event"
    "us = map (\<lambda>index. Slot addr (8 + word_of_nat index) 1) [unat (og_old event) ..< unat (og_new event)]
      @ [Slot addr (slot0_slot layout) ((raw AND NOT (push_bit 216 (mask 16))) OR push_bit 216 (ucast (og_new event)))]"
    using assms unfolding derive_uniswap_v3_observation_growth_def
    by (auto simp: Let_def ucast_minus_1 split: if_splits)
  have slot: "slot0_slot layout = 0" by (subst validate_canonical_accounting_okD(2) [OF d(1)]) simp
  define word where "word = (raw AND NOT (push_bit 216 (mask 16))) OR push_bit 216 (ucast (og_new event))"
  have small: "take_bit 16 (ucast (og_new event) :: u256) = ucast (og_new event)" by (simp add: take_bit_ucast_self)
  have f: "field 216 16 word = ucast (og_new event)" unfolding word_def by (rule replace_field(1) [OF small]) simp
  have r: "field off n word = field off n raw" if "off + n \<le> 216 \<or> 232 \<le> off" for off n
    unfolding word_def using that by (intro replace_field(2) [OF small]) simp_all
  have dec: "slot0_decode word = (slot0_decode raw)\<lparr>s0_raw := word, s0_observation_cardinality_next := og_new event\<rparr>"
    by (rule slot0_word.equality) (simp_all add: slot0_decode_fields r f ucast_ucast_id_256)
  have high: "field 240 16 word = field 240 16 raw" by (simp add: r)
  show ?thesis
    by (rule exI [of _ raw], rule exI [of _ word])
      (intro conjI d(3) [unfolded slot] d(2) d(5) [unfolded slot, folded word_def] d(4) dec high)
qed

text \<open>A reserved observation word is one that the oracle refuses to read as a current observation.\<close>

lemma reserved_observation: "\<not> obs_initialized (observation_decode 1)" "obs_timestamp (observation_decode 1) = 1"
  by (simp_all add: observation_decode_def signed_from_bits_def Let_def packed_simps mask_eq_exp_minus_1)

end
