(* ===== verification/Example_Accounting.thy ===== *)
theory Example_Accounting
  imports V3_Accounting Example_Pool
begin

text \<open>
  A flash, a change of the protocol fee, a collection and an observation growth on the pool of
  \<open>Example_Pool\<close>, evaluated.
\<close>

definition demo_flash :: decoded_flash where
  "demo_flash = \<lparr>fl_amount0 = 1000000, fl_amount1 = 0, fl_paid0 = 3000, fl_paid1 = 0\<rparr>"

definition demo_fee_protocol :: decoded_fee_protocol where
  "demo_fee_protocol = \<lparr>fp_old0 = 4, fp_old1 = 4, fp_new0 = 5, fp_new1 = 6\<rparr>"

definition demo_collect :: decoded_collect_protocol where
  "demo_collect = \<lparr>cp_amount0 = 8, cp_amount1 = 0\<rparr>"

definition demo_growth :: decoded_observation_growth where
  "demo_growth = \<lparr>og_old = 1, og_new = 3\<rparr>"

lemma demo_accounting: "validate_canonical_accounting (layout_uniswap 10) demo_ctx = Inr ()"
  by (simp add: validate_canonical_accounting_def demo_context)

lemma demo_flash_run: "derive_uniswap_v3_flash demo_pool (layout_uniswap 10) 3000 demo_flash demo_ctx demo_view
    = Inr [Slot demo_pool 1 765635325572111542792597, Slot demo_pool 2 7, Slot demo_pool 3 759]"
proof -
  have quoted: "mul_div_round_up 1000000 3000 1000000 = Inr 3000" "mul_div_round_up 0 3000 1000000 = Inr 0"
    by (simp_all add: mul_div_round_up_eq_Inr round_div_def)
  have growth: "mul_div 2250 Q128 1000000000000000000 = Inr 765635325572111542792592"
    by (simp add: mul_div_eq_Inr)
  have sub: "checked_sub 3000 (750 :: u256) = Some 2250" by (simp add: checked_sub_eq_Some)
  have slot0: "s0_fee_protocol (sp_slot0 demo_parent) = 0x44" by (simp add: demo_parent_def)
  show ?thesis
    using quoted growth
    by (simp add: derive_uniswap_v3_flash_def demo_accounting demo_view_words demo_slot0_decode slot0 FEE_DENOMINATOR_def
        flash_quoted_fees_def flash_token_def flash_protocol_fees_def demo_flash_def Let_def sub word_eval)
qed

lemma demo_fee_protocol_run:
  "derive_uniswap_v3_set_fee_protocol demo_pool (layout_uniswap 10) demo_fee_protocol demo_ctx demo_view
    = Inr [Slot demo_pool 0 2463923551118129878715653531026467732287819463790608118000252788586577920]"
  by (simp add: derive_uniswap_v3_set_fee_protocol_def demo_accounting demo_view_words demo_fee_protocol_def
      canonical_denominator_def Let_def demo_slot0_def word_eval)

lemma demo_collect_run: "derive_uniswap_v3_collect_protocol demo_pool (layout_uniswap 10) demo_collect demo_ctx demo_view
    = Inr [Slot demo_pool 3 1]"
  by (simp add: derive_uniswap_v3_collect_protocol_def demo_accounting demo_view_words demo_collect_def checked_sub_def word_eval)

lemma demo_growth_run: "derive_uniswap_v3_observation_growth demo_pool (layout_uniswap 10) demo_growth demo_ctx demo_view
    = Inr [Slot demo_pool 9 1, Slot demo_pool 10 1,
           Slot demo_pool 0 2236166132298624610844679983407381259697797505499176162778111997823156224]"
proof -
  have slot0: "s0_observation_cardinality (sp_slot0 demo_parent) = 1"
    "s0_observation_cardinality_next (sp_slot0 demo_parent) = 1" by (simp_all add: demo_parent_def)
  have u: "unat (1 :: u16) = 1" "unat (3 :: u16) = 3" by simp_all
  have upt: "[1..<3] = [1, 2 :: nat]" by (simp add: upt_conv_Cons)
  have slots: "map (\<lambda>index. Slot demo_pool (8 + word_of_nat index) 1) [unat (1 :: u16) ..< unat (3 :: u16)]
      = [Slot demo_pool 9 1, Slot demo_pool 10 1]"
    unfolding u upt by simp
  have word: "(demo_slot0 AND NOT (push_bit 216 (ucast (- 1 :: u16)))) OR push_bit 216 (ucast (3 :: u16))
      = 2236166132298624610844679983407381259697797505499176162778111997823156224"
    by (simp add: demo_slot0_def word_eval)
  have lt: "\<not> (3 :: u16) \<le> 1" by (simp add: word_le_def)
  show ?thesis
    unfolding derive_uniswap_v3_observation_growth_def demo_growth_def decoded_observation_growth.simps Let_def surface_slots
    using slots word lt by (simp add: demo_accounting demo_view_words demo_slot0_decode slot0)
qed

end
