(* ===== verification/Slipstream_Fee.thy ===== *)
theory Slipstream_Fee
  imports V3_Swap
begin

text \<open>
  The fee side of the Slipstream transitions of \<open>src/adapters/v3_transition.rs\<close>: the reviewed
  deployments and the validation of event-scoped fee evidence, the split of a fee between the
  gauge and the unstaked liquidity, the reward accumulator, and the inference of the effective
  swap fee from the amounts of the event by two binary searches.
\<close>

section \<open>Segments and reviewed deployments\<close>

record slipstream_segment = segment +
  seg_staked_liquidity :: u256

record reviewed_slipstream_runtime =
  rt_chain_id :: u64
  rt_pool :: address
  rt_factory :: address
  rt_proxy_runtime_code_hash :: b256
  rt_implementation :: address
  rt_implementation_runtime_code_hash :: b256

definition SLIPSTREAM_FACTORY_SLOT :: u256 where "SLIPSTREAM_FACTORY_SLOT = 0"
definition SLIPSTREAM_REWARD_GROWTH_SLOT :: u256 where "SLIPSTREAM_REWARD_GROWTH_SLOT = 9"
definition SLIPSTREAM_GAUGE_FEES_SLOT :: u256 where "SLIPSTREAM_GAUGE_FEES_SLOT = 10"
definition SLIPSTREAM_REWARD_RATE_SLOT :: u256 where "SLIPSTREAM_REWARD_RATE_SLOT = 11"
definition SLIPSTREAM_REWARD_RESERVE_SLOT :: u256 where "SLIPSTREAM_REWARD_RESERVE_SLOT = 12"
definition SLIPSTREAM_ROLLOVER_SLOT :: u256 where "SLIPSTREAM_ROLLOVER_SLOT = 14"
definition SLIPSTREAM_STAKED_LAST_SPACING_SLOT :: u256 where "SLIPSTREAM_STAKED_LAST_SPACING_SLOT = 15"

fun reviewed_runtime :: "slipstream_runtime_family \<Rightarrow> reviewed_slipstream_runtime" where
  "reviewed_runtime AerodromeBaseBifi = \<lparr>rt_chain_id = 8453,
     rt_pool = 0xb378137c90444bbcecd44a1f766851fbf53d2a9e,
     rt_factory = 0x5e7bb104d84c7cb9b682aac2f3d509f5f406809a,
     rt_proxy_runtime_code_hash = 0xacd6710f7037ad095b1e4d5f8ee5b2681069cb4dd316e77e4e0cb8f85716a2a1,
     rt_implementation = 0xec8e5342b19977b4ef8892e02d8daecfa1315831,
     rt_implementation_runtime_code_hash = 0x772fb5c610b40a122036f544e5b9b5bce6becb19db9524331289d1aaed2d5888\<rparr>"
| "reviewed_runtime VelodromeOptimismBifi = \<lparr>rt_chain_id = 10,
     rt_pool = 0x173cdc71e29d5cffa6d090ad99f555a24b8831f9,
     rt_factory = 0xcc0bddb707055e04e497ab22a59c2af4391cd12f,
     rt_proxy_runtime_code_hash = 0x063ca35333cb7f2463f087d40ff9485475550abf4858a2f63c387d4d102b0f4f,
     rt_implementation = 0xc28ad28853a547556780bebf7847628501a3bcbb,
     rt_implementation_runtime_code_hash = 0x36c3da904ca0b58544254cd0d978fe4801c32dc1f9e3b3e644487ef541299794\<rparr>"

definition validate_reviewed_slipstream_event ::
  "address \<Rightarrow> v3_storage_layout \<Rightarrow> adapter_event_context \<Rightarrow> unit result" where
  "validate_reviewed_slipstream_event addr layout ctx =
    rbind (validate_context ctx) (\<lambda>_.
    if layout \<noteq> layout_slipstream (tick_spacing layout)
    then Inl (contradiction ''exact Slipstream event transition requires the deployed core storage layout'')
    else if tick_spacing layout \<le> 0
    then Inl (contradiction ''Slipstream tick spacing must be positive'')
    else rbind
      (if ctx_chain_id ctx = Some 8453 then Inr (reviewed_runtime AerodromeBaseBifi)
       else if ctx_chain_id ctx = Some 10 then Inr (reviewed_runtime VelodromeOptimismBifi)
       else Inl (contradiction ''unreviewed Slipstream chain identity'')) (\<lambda>reviewed.
    if addr \<noteq> rt_pool reviewed then Inl (contradiction ''unreviewed Slipstream pool identity'')
    else if tick_spacing layout \<noteq> 200
    then Inl (contradiction ''reviewed Slipstream pool tick spacing does not match registration'')
    else Inr ()))"

definition fee_evidence_error :: "string \<Rightarrow> adapter_event_error" where
  "fee_evidence_error reason = V3Transition (SlipstreamFeeEvidence reason)"

definition validate_slipstream_evidence ::
  "address \<Rightarrow> adapter_event_context \<Rightarrow> state_view \<Rightarrow> slipstream_swap_fee_evidence result" where
  "validate_slipstream_evidence addr ctx state =
    rbind (ok_or (ctx_slipstream_fee_evidence ctx) (V3Transition MissingSlipstreamFeeEvidence)) (\<lambda>evidence.
    let reviewed = reviewed_runtime (fee_runtime_family evidence)
    in if evidence_validate evidence \<noteq> Inr ()
       then Inl (fee_evidence_error ''evidence constructor validation failed'')
       else if fee_chain_id evidence \<noteq> rt_chain_id reviewed \<or> ctx_chain_id ctx \<noteq> Some (fee_chain_id evidence)
       then Inl (fee_evidence_error ''chain identity mismatch'')
       else if addr \<noteq> rt_pool reviewed \<or> fee_pool evidence \<noteq> addr
       then Inl (fee_evidence_error ''pool identity mismatch'')
       else if fee_factory evidence \<noteq> rt_factory reviewed
       then Inl (fee_evidence_error ''factory identity mismatch'')
       else if fee_proxy_runtime_code_hash evidence \<noteq> rt_proxy_runtime_code_hash reviewed
            \<or> fee_implementation evidence \<noteq> rt_implementation reviewed
            \<or> fee_implementation_runtime_code_hash evidence \<noteq> rt_implementation_runtime_code_hash reviewed
       then Inl (fee_evidence_error ''runtime identity mismatch'')
       else if ctx_block_number ctx \<noteq> Some (fee_block_number evidence)
            \<or> ctx_block_hash ctx \<noteq> Some (fee_block_hash evidence)
            \<or> ctx_parent_hash ctx \<noteq> Some (fee_parent_hash evidence)
            \<or> ctx_block_timestamp ctx \<noteq> Some (fee_block_timestamp evidence)
            \<or> ctx_transaction_hash ctx \<noteq> Some (fee_transaction_hash evidence)
            \<or> ctx_transaction_index ctx \<noteq> Some (fee_transaction_index evidence)
            \<or> ctx_log_index ctx \<noteq> Some (fee_log_index evidence)
       then Inl (fee_evidence_error ''event lineage mismatch'')
       else if 100000 < fee_effective_swap_fee evidence
            \<or> ucast FEE_DENOMINATOR < fee_effective_unstaked_fee evidence
       then Inl (fee_evidence_error ''effective fee is outside deployed bounds'')
       else rbind (required state addr SLIPSTREAM_FACTORY_SLOT) (\<lambda>factory_word.
            if decode_address_slot factory_word \<noteq> fee_factory evidence
            then Inl (fee_evidence_error ''parent factory storage mismatch'')
            else Inr evidence))"

section \<open>Splitting a fee, and rewards\<close>

definition validate_slipstream_liquidity :: "u256 \<Rightarrow> u256 \<Rightarrow> unit result" where
  "validate_slipstream_liquidity liquidity staked_liquidity =
    (if liquidity < staked_liquidity then Inl (contradiction ''staked liquidity exceeds active liquidity'')
     else Inr ())"

definition slipstream_fee_growth :: "u256 \<Rightarrow> u256 \<Rightarrow> u256 \<Rightarrow> u32 \<Rightarrow> (u256 \<times> u256) result" where
  "slipstream_fee_growth fee_amount liquidity staked_liquidity unstaked_fee =
    rbind (validate_slipstream_liquidity liquidity staked_liquidity) (\<lambda>_.
    if liquidity = 0 then Inr (0, 0)
    else if liquidity = staked_liquidity then Inr (0, fee_amount)
    else rbind (if staked_liquidity = 0 then Inr 0
                else mul_div_round_up fee_amount staked_liquidity liquidity) (\<lambda>base_gauge_fee.
         let unstaked_before_levy = fee_amount - base_gauge_fee
         in rbind (mul_div_round_up unstaked_before_levy (ucast unstaked_fee) (ucast FEE_DENOMINATOR)) (\<lambda>levy.
            let unstaked_fee_amount = unstaked_before_levy - levy
            in rbind (mul_div unstaked_fee_amount Q128 (liquidity - staked_liquidity)) (\<lambda>growth.
               Inr (growth, base_gauge_fee + levy)))))"

record slipstream_reward_update =
  ru_reward_growth :: u256
  ru_last_updated :: u32
  ru_reward_reserve :: "u256 option"
  ru_rollover :: "u256 option"

definition update_slipstream_rewards ::
  "address \<Rightarrow> u256 \<Rightarrow> u256 \<Rightarrow> u32 \<Rightarrow> u32 \<Rightarrow> state_view \<Rightarrow> slipstream_reward_update result" where
  "update_slipstream_rewards addr reward_growth staked_liquidity last_updated timestamp state =
    (let delta = timestamp - last_updated
     in if delta = 0
        then Inr \<lparr>ru_reward_growth = reward_growth, ru_last_updated = last_updated,
                  ru_reward_reserve = None, ru_rollover = None\<rparr>
        else rbind (required state addr SLIPSTREAM_REWARD_RESERVE_SLOT) (\<lambda>reserve.
          if reserve = 0
          then Inr \<lparr>ru_reward_growth = reward_growth, ru_last_updated = timestamp,
                    ru_reward_reserve = None, ru_rollover = None\<rparr>
          else rbind (required state addr SLIPSTREAM_REWARD_RATE_SLOT) (\<lambda>rate.
            let reward = min (rate * ucast delta) reserve;
                remaining_reserve = reserve - reward
            in if staked_liquidity = 0
               then rbind (required state addr SLIPSTREAM_ROLLOVER_SLOT) (\<lambda>rollover.
                    Inr \<lparr>ru_reward_growth = reward_growth, ru_last_updated = timestamp,
                         ru_reward_reserve = Some remaining_reserve, ru_rollover = Some (rollover + reward)\<rparr>)
               else rbind (mul_div reward Q128 staked_liquidity) (\<lambda>growth.
                    Inr \<lparr>ru_reward_growth = reward_growth + growth, ru_last_updated = timestamp,
                         ru_reward_reserve = Some remaining_reserve, ru_rollover = None\<rparr>))))"

section \<open>Fee inference\<close>

definition maximum_partial_fee :: "u256 \<Rightarrow> u256 \<Rightarrow> u32 \<Rightarrow> u256 result" where
  "maximum_partial_fee amount_in maximum_budget fee =
    rbind (fee_complement fee) (\<lambda>denominator.
    rbind (ok_or (checked_add maximum_budget 1) (arithmetic ''partial-fee input overflow'')) (\<lambda>next_after_fee.
    rbind (mul_div_round_up next_after_fee (ucast FEE_DENOMINATOR) (ucast denominator)) (\<lambda>first_invalid_total.
    ok_or (map_option (\<lambda>total. saturating_sub total amount_in) (checked_sub first_invalid_total 1))
      (arithmetic ''partial-fee maximum underflow''))))"

definition slipstream_fee_interval ::
  "slipstream_segment list \<Rightarrow> u32 \<Rightarrow> u256 \<Rightarrow> bool \<Rightarrow> (u256 \<times> u256) result" where
  "slipstream_fee_interval segments fee maximum_final_budget capped_output =
    (if segments = [] then Inl (contradiction ''fee inference requires at least one swap step'')
     else let last' = last segments; preceding = butlast segments
     in rbind (rbind (rmap (\<lambda>segment. fee_for_full_step (seg_amount_in segment) fee) preceding) checked_sum)
          (\<lambda>preceding_fee.
        rbind (fee_for_full_step (seg_amount_in last') fee) (\<lambda>last_minimum.
        rbind (ok_or (checked_add preceding_fee last_minimum) (arithmetic ''fee inference minimum overflow''))
          (\<lambda>minimum.
        rbind (if capped_output then Inr last_minimum
               else if seg_reached_boundary last'
               then rbind (maximum_partial_fee 0 maximum_final_budget fee) (\<lambda>partial.
                    ok_or (checked_add last_minimum partial) (arithmetic ''fee inference boundary maximum overflow''))
               else rbind (maximum_partial_fee (seg_amount_in last') maximum_final_budget fee) (\<lambda>partial.
                    Inr (max partial last_minimum))) (\<lambda>last_maximum.
        rbind (ok_or (checked_add preceding_fee last_maximum) (arithmetic ''fee inference maximum overflow''))
          (\<lambda>maximum.
        Inr (minimum, maximum)))))))"

text \<open>The two search loops, over the probe that a loop makes of a fee.\<close>

definition div_ceil2 :: "u32 \<Rightarrow> u32" where
  "div_ceil2 w = w div 2 + (if w mod 2 \<noteq> 0 then 1 else 0)"

lemma unat_less_32: "unat (w :: u32) < 2 ^ 32"
  using unsigned_less [of w, where 'a = nat] by simp

lemma middle_first:
  fixes low high :: u32
  assumes "low < high"
  shows "unat (low + (high - low) div 2) = unat low + (unat high - unat low) div 2"
proof -
  have "unat (high - low) = unat high - unat low" using assms by (simp add: unat_sub)
  then show ?thesis
    using assms unat_less_32 [of high] by (simp add: unat_word_ariths unat_div word_less_nat_alt)
qed

lemma middle_last:
  fixes low high :: u32
  assumes "low < high"
  shows "unat (low + div_ceil2 (high - low)) = unat low + (unat high - unat low + 1) div 2"
proof -
  have d: "unat (high - low) = unat high - unat low" using assms by (simp add: unat_sub)
  have m: "(high - low) mod 2 \<noteq> 0 \<longleftrightarrow> (unat high - unat low) mod 2 = 1"
    using d by (simp add: unat_eq_zero [symmetric] unat_mod del: unat_eq_zero)
  have "unat (div_ceil2 (high - low)) = (unat high - unat low + 1) div 2"
    unfolding div_ceil2_def m using unat_less_32 [of high]
    by (auto simp: unat_word_ariths unat_div d) presburger+
  then show ?thesis
    using assms unat_less_32 [of high] by (simp add: unat_word_ariths word_less_nat_alt)
qed

lemma unat_step:
  fixes w high :: u32
  shows "w < high \<Longrightarrow> unat (w + 1) = unat w + 1" "low < w \<Longrightarrow> unat (w - 1) = unat w - 1"
  using unat_less_32 [of high] by (simp_all add: unat_word_ariths word_less_nat_alt unat_sub word_le_nat_alt)

function first_fee_loop :: "(u32 \<Rightarrow> bool result) \<Rightarrow> u32 \<Rightarrow> u32 \<Rightarrow> u32 result" where
  "first_fee_loop reaches low high =
    (if low < high
     then let middle = low + (high - low) div 2
          in rbind (reaches middle) (\<lambda>r.
             if r then first_fee_loop reaches low middle else first_fee_loop reaches (middle + 1) high)
     else Inr low)"
  by pat_completeness auto

lemma middle_first_less:
  fixes low high :: u32
  assumes "low < high"
  shows "low \<le> low + (high - low) div 2" "low + (high - low) div 2 < high"
  using assms by (simp_all add: word_less_nat_alt word_le_nat_alt middle_first)

lemma middle_last_less:
  fixes low high :: u32
  assumes "low < high"
  shows "low < low + div_ceil2 (high - low)" "low + div_ceil2 (high - low) \<le> high"
  using assms by (simp_all add: word_less_nat_alt word_le_nat_alt middle_last)

lemma search_measures:
  fixes low high :: u32
  assumes "low < high"
  shows "unat (low + (high - low) div 2) - unat low < unat high - unat low"
    "unat high - unat (low + (high - low) div 2 + 1) < unat high - unat low"
    "unat high - unat (low + div_ceil2 (high - low)) < unat high - unat low"
    "unat (low + div_ceil2 (high - low) - 1) - unat low < unat high - unat low"
proof -
  define m n where "m = low + (high - low) div 2" and "n = low + div_ceil2 (high - low)"
  note l = middle_first_less [OF assms, folded m_def] middle_last_less [OF assms, folded n_def]
  have "unat low \<le> unat m" "unat m < unat high" "unat low < unat n" "unat n \<le> unat high"
    using l by (simp_all add: word_less_nat_alt word_le_nat_alt)
  then show "unat m - unat low < unat high - unat low" "unat high - unat (m + 1) < unat high - unat low"
    "unat high - unat n < unat high - unat low" "unat (n - 1) - unat low < unat high - unat low"
    using unat_step(1) [OF l(2)] unat_step(2) [OF l(3)] by simp_all
qed

termination first_fee_loop
  by (relation "measure (\<lambda>(_, low, high). unat high - unat low)") (auto intro: search_measures)

function last_fee_loop :: "(u32 \<Rightarrow> bool result) \<Rightarrow> u32 \<Rightarrow> u32 \<Rightarrow> u32 result" where
  "last_fee_loop admits low high =
    (if low < high
     then let middle = low + div_ceil2 (high - low)
          in rbind (admits middle) (\<lambda>r.
             if r then last_fee_loop admits middle high else last_fee_loop admits low (middle - 1))
     else Inr low)"
  by pat_completeness auto

termination last_fee_loop
  by (relation "measure (\<lambda>(_, low, high). unat high - unat low)") (auto intro: search_measures)

declare first_fee_loop.simps [simp del] last_fee_loop.simps [simp del]

definition binary_first_fee ::
  "slipstream_segment list \<Rightarrow> u256 \<Rightarrow> u256 \<Rightarrow> bool \<Rightarrow> u32 option result" where
  "binary_first_fee segments total_fee maximum_final_budget capped_output =
    (let reaches = (\<lambda>fee. rbind (slipstream_fee_interval segments fee maximum_final_budget capped_output)
                      (\<lambda>(_, maximum). Inr (total_fee \<le> maximum)))
     in rbind (first_fee_loop reaches 0 100000) (\<lambda>low.
        rbind (reaches low) (\<lambda>r. Inr (if r then Some low else None))))"

definition binary_last_fee ::
  "slipstream_segment list \<Rightarrow> u256 \<Rightarrow> u256 \<Rightarrow> bool \<Rightarrow> u32 option result" where
  "binary_last_fee segments total_fee maximum_final_budget capped_output =
    (let admits = (\<lambda>fee. rbind (slipstream_fee_interval segments fee maximum_final_budget capped_output)
                      (\<lambda>(minimum, _). Inr (minimum \<le> total_fee)))
     in rbind (last_fee_loop admits 0 100000) (\<lambda>low.
        rbind (admits low) (\<lambda>r. Inr (if r then Some low else None))))"

definition infer_slipstream_fee ::
  "slipstream_segment list \<Rightarrow> u256 \<Rightarrow> u256 \<Rightarrow> bool \<Rightarrow> u32 result" where
  "infer_slipstream_fee segments total_fee maximum_final_budget capped_output =
    rbind (binary_first_fee segments total_fee maximum_final_budget capped_output) (\<lambda>first.
    rbind (binary_last_fee segments total_fee maximum_final_budget capped_output) (\<lambda>final.
    case (first, final) of
      (Some first, Some final) \<Rightarrow>
        if final < first then Inl (V3Transition SlipstreamFeeInferenceNoMatch)
        else if first \<noteq> final then Inl (V3Transition (SlipstreamFeeInferenceAmbiguous first final))
        else rbind (slipstream_fee_interval segments first maximum_final_budget capped_output) (\<lambda>(minimum, maximum).
             if total_fee < minimum \<or> maximum < total_fee
             then Inl (V3Transition SlipstreamFeeInferenceNoMatch) else Inr first)
    | _ \<Rightarrow> Inl (V3Transition SlipstreamFeeInferenceNoMatch)))"

section \<open>Binary search on a monotone probe\<close>

text \<open>
  A probe of fees that stays true once it is true, as the maximum of the fee interval does when
  it reaches the event's fee. The dual probe, which stays true downwards, is its mirror image.
\<close>

locale rising_probe =
  fixes probe :: "u32 \<Rightarrow> bool result"
  assumes rising: "probe f = Inr True \<Longrightarrow> f \<le> g \<Longrightarrow> probe g = Inr b \<Longrightarrow> b"
begin

lemma first_fee_loop_okD:
  assumes "first_fee_loop probe low high = Inr r" "low \<le> high"
  shows "low \<le> r \<and> r \<le> high \<and> (r < high \<longrightarrow> probe r = Inr True) \<and> (\<forall>f. low \<le> f \<and> f < r \<longrightarrow> probe f \<noteq> Inr True)"
  using assms
proof (induction "unat high - unat low" arbitrary: low high rule: less_induct)
  case less
  show ?case
  proof (cases "low < high")
    case False
    then show ?thesis using less.prems by (auto simp: first_fee_loop.simps)
  next
    case True
    define m where "m = low + (high - low) div 2"
    note l = middle_first_less [OF True, folded m_def] and ms = search_measures(1,2) [OF True, folded m_def]
    obtain b where b: "probe m = Inr b"
      "(if b then first_fee_loop probe low m else first_fee_loop probe (m + 1) high) = Inr r"
      using less.prems(1) True unfolding first_fee_loop.simps [of probe low high] Let_def m_def [symmetric] by auto
    show ?thesis
    proof (cases b)
      case b: True
      with \<open>probe m = Inr b\<close> have pm: "probe m = Inr True" by simp
      from less.hyps [OF ms(1)] b \<open>(if b then _ else _) = Inr r\<close> l(1)
      have "low \<le> r \<and> r \<le> m \<and> (r < m \<longrightarrow> probe r = Inr True) \<and> (\<forall>f. low \<le> f \<and> f < r \<longrightarrow> probe f \<noteq> Inr True)" by simp
      with pm l(2) show ?thesis by (cases "r = m") auto
    next
      case b: False
      have up: "m + 1 \<le> high" "low \<le> m + 1" "f < m + 1 \<longleftrightarrow> f \<le> m" for f
        using unat_step(1) [OF l(2)] l by (auto simp: word_less_nat_alt word_le_nat_alt)
      from less.hyps [OF ms(2)] b \<open>(if b then _ else _) = Inr r\<close> up(1)
      have ih: "m + 1 \<le> r \<and> r \<le> high \<and> (r < high \<longrightarrow> probe r = Inr True) \<and> (\<forall>f. m + 1 \<le> f \<and> f < r \<longrightarrow> probe f \<noteq> Inr True)" by simp
      have "probe f \<noteq> Inr True" if "f \<le> m" for f
        using rising [OF _ that] \<open>probe m = Inr b\<close> b by blast
      with ih up show ?thesis by (meson not_less order_trans)
    qed
  qed
qed

end

locale falling_probe =
  fixes probe :: "u32 \<Rightarrow> bool result"
  assumes falling: "probe f = Inr True \<Longrightarrow> g \<le> f \<Longrightarrow> probe g = Inr b \<Longrightarrow> b"
begin

lemma last_fee_loop_okD:
  assumes "last_fee_loop probe low high = Inr r" "low \<le> high"
  shows "low \<le> r \<and> r \<le> high \<and> (low < r \<longrightarrow> probe r = Inr True) \<and> (\<forall>f. r < f \<and> f \<le> high \<longrightarrow> probe f \<noteq> Inr True)"
  using assms
proof (induction "unat high - unat low" arbitrary: low high rule: less_induct)
  case less
  show ?case
  proof (cases "low < high")
    case False
    then show ?thesis using less.prems by (auto simp: last_fee_loop.simps)
  next
    case True
    define m where "m = low + div_ceil2 (high - low)"
    note l = middle_last_less [OF True, folded m_def] and ms = search_measures(3,4) [OF True, folded m_def]
    obtain b where b: "probe m = Inr b"
      "(if b then last_fee_loop probe m high else last_fee_loop probe low (m - 1)) = Inr r"
      using less.prems(1) True unfolding last_fee_loop.simps [of probe low high] Let_def m_def [symmetric] by auto
    show ?thesis
    proof (cases b)
      case b: True
      with \<open>probe m = Inr b\<close> have pm: "probe m = Inr True" by simp
      from less.hyps [OF ms(1)] b \<open>(if b then _ else _) = Inr r\<close> l(2)
      have "m \<le> r \<and> r \<le> high \<and> (m < r \<longrightarrow> probe r = Inr True) \<and> (\<forall>f. r < f \<and> f \<le> high \<longrightarrow> probe f \<noteq> Inr True)" by simp
      with pm l(1) show ?thesis by (cases "r = m") auto
    next
      case b: False
      have down: "m - 1 \<le> high" "low \<le> m - 1" "f \<le> m - 1 \<longleftrightarrow> f < m" for f
        using unat_step(2) [OF l(1)] l by (auto simp: word_less_nat_alt word_le_nat_alt)
      from less.hyps [OF ms(2)] b \<open>(if b then _ else _) = Inr r\<close> down(2)
      have ih: "low \<le> r \<and> r \<le> m - 1 \<and> (low < r \<longrightarrow> probe r = Inr True) \<and> (\<forall>f. r < f \<and> f \<le> m - 1 \<longrightarrow> probe f \<noteq> Inr True)" by simp
      have "probe f \<noteq> Inr True" if "m \<le> f" for f
        using falling [OF _ that] \<open>probe m = Inr b\<close> b by blast
      with ih down show ?thesis by (meson not_less order_trans)
    qed
  qed
qed

end

section \<open>The fee interval in integers\<close>

definition full_fee :: "int \<Rightarrow> int \<Rightarrow> int" where
  "full_fee a f = ceil_div (a * f) (1000000 - f)"

definition partial_fee :: "int \<Rightarrow> int \<Rightarrow> int \<Rightarrow> int" where
  "partial_fee a b f = max 0 (ceil_div ((b + 1) * 1000000) (1000000 - f) - 1 - a)"

definition minimum_fee :: "slipstream_segment list \<Rightarrow> int \<Rightarrow> int" where
  "minimum_fee segs f = (\<Sum>s\<leftarrow>segs. full_fee (uint (seg_amount_in s)) f)"

definition maximum_fee :: "slipstream_segment list \<Rightarrow> int \<Rightarrow> bool \<Rightarrow> int \<Rightarrow> int" where
  "maximum_fee segs b capped f =
    (let a = uint (seg_amount_in (last segs))
     in minimum_fee (butlast segs) f +
        (if capped then full_fee a f
         else if seg_reached_boundary (last segs) then full_fee a f + partial_fee 0 b f
         else max (partial_fee a b f) (full_fee a f)))"

lemma full_fee_mono:
  assumes "0 \<le> a" "0 \<le> f" "f \<le> g" "g < 1000000"
  shows "full_fee a f \<le> full_fee a g"
proof -
  have "a * g \<le> full_fee a g * (1000000 - g)"
    unfolding full_fee_def using assms by (subst ceil_div_le_iff [symmetric]) simp_all
  moreover have "0 \<le> full_fee a g" unfolding full_fee_def using assms by (intro round_div_nonneg) simp_all
  then have "full_fee a g * (1000000 - g) \<le> full_fee a g * (1000000 - f)" using assms by (intro mult_left_mono) simp_all
  moreover have "a * f \<le> a * g" using assms by (intro mult_left_mono)
  ultimately have "a * f \<le> full_fee a g * (1000000 - f)" by linarith
  then show ?thesis unfolding full_fee_def [of a f] using assms by (simp add: ceil_div_le_iff)
qed

lemma partial_fee_mono:
  assumes "0 \<le> b" "f \<le> g" "g < 1000000"
  shows "partial_fee a b f \<le> partial_fee a b g"
proof -
  have "ceil_div ((b + 1) * 1000000) (1000000 - f) \<le> ceil_div ((b + 1) * 1000000) (1000000 - g)"
    using assms by (intro ceil_div_antimono) simp_all
  then show ?thesis by (auto simp: partial_fee_def)
qed

lemma minimum_fee_mono:
  assumes "0 \<le> f" "f \<le> g" "g < 1000000"
  shows "minimum_fee segs f \<le> minimum_fee segs g"
  unfolding minimum_fee_def using assms by (intro sum_list_mono full_fee_mono) simp_all

lemma maximum_fee_mono:
  assumes "0 \<le> b" "0 \<le> f" "f \<le> g" "g < 1000000"
  shows "maximum_fee segs b capped f \<le> maximum_fee segs b capped g"
  using minimum_fee_mono [OF assms(2-4), of "butlast segs"] full_fee_mono [OF _ assms(2-4), of "uint (seg_amount_in (last segs))"]
    partial_fee_mono [OF assms(1,3,4), of 0] partial_fee_mono [OF assms(1,3,4), of "uint (seg_amount_in (last segs))"]
  by (auto simp: maximum_fee_def Let_def max_def)

lemma full_fee_bounds:
  assumes "0 \<le> a" "0 \<le> f" "f \<le> 500000"
  shows "0 \<le> full_fee a f" "full_fee a f \<le> a"
proof -
  show "0 \<le> full_fee a f" unfolding full_fee_def using assms by (intro round_div_nonneg) simp_all
  have "a * f \<le> a * (1000000 - f)" using assms by (intro mult_left_mono) simp_all
  then show "full_fee a f \<le> a" unfolding full_fee_def using assms by (simp add: ceil_div_le_iff)
qed

lemma partial_total_bound:
  assumes "0 \<le> b" "f \<le> 500000"
  shows "0 < ceil_div ((b + 1) * 1000000) (1000000 - f)" "ceil_div ((b + 1) * 1000000) (1000000 - f) \<le> 2 * (b + 1)"
proof -
  show "0 < ceil_div ((b + 1) * 1000000) (1000000 - f)" using assms by (intro ceil_div_pos mult_pos_pos) simp_all
  have "(b + 1) * 1000000 \<le> (b + 1) * (2 * (1000000 - f))" using assms by (intro mult_left_mono) simp_all
  then show "ceil_div ((b + 1) * 1000000) (1000000 - f) \<le> 2 * (b + 1)"
    using assms by (subst ceil_div_le_iff) (simp_all add: algebra_simps)
qed

lemma uint_ucast_64 [simp]: "uint (ucast (c :: u64) :: u256) = uint c"
  by (intro uint_ucast_down) (rule order_less_trans [OF uint_lt_exp], simp)

lemma maximum_partial_fee_okD:
  assumes "maximum_partial_fee a b fee = Inr v"
  shows "uint v = partial_fee (uint a) (uint b) (uint fee)"
proof -
  obtain c :: u64 and n t m :: u256 where *: "uint c = 1000000 - uint fee" "uint n = uint b + 1"
    "uint t = ceil_div (uint n * 1000000) (uint c)" "uint m = uint t - 1" "v = saturating_sub m a"
    using assms
    by (auto simp: maximum_partial_fee_def fee_complement_eq_Inr checked_add_eq_Some checked_sub_eq_Some
        mul_div_round_up_eq_Inr FEE_DENOMINATOR_def)
  then show ?thesis by (simp add: uint_saturating_sub partial_fee_def)
qed

lemma maximum_partial_fee_total:
  assumes "uint fee \<le> 500000" "2 * (uint b + 1) < 2 ^ 256"
  shows "\<exists>v. maximum_partial_fee a b fee = Inr v"
proof -
  define c :: u64 where "c = word_of_int (1000000 - uint fee)"
  have c: "uint c = 1000000 - uint fee"
    unfolding c_def using assms(1) by (intro uint_word_of_int_id) (simp, rule order_le_less_trans [of _ 1000000], simp_all)
  define n :: u256 where "n = word_of_int (uint b + 1)"
  have n: "uint n = uint b + 1" unfolding n_def using assms(2) by (intro uint_word_of_int_id) simp_all
  define q where "q = ceil_div ((uint b + 1) * 1000000) (1000000 - uint fee)"
  note qb = partial_total_bound [OF uint_ge_0 assms(1), of b, folded q_def]
  define t m :: u256 where "t = word_of_int q" and "m = word_of_int (q - 1)"
  have "uint t = q" unfolding t_def by (rule uint_word_of_int_id) (use qb assms(2) in simp_all)
  moreover have "uint m = q - 1" unfolding m_def by (rule uint_word_of_int_id) (use qb assms(2) in simp_all)
  ultimately have t: "uint t = q" "uint m = q - 1" by blast+
  have "c \<noteq> 0" using c assms(1) by auto
  then have "fee_complement fee = Inr c" "checked_add b 1 = Some n" "checked_sub t 1 = Some m"
    "mul_div_round_up n (ucast FEE_DENOMINATOR) (ucast c) = Inr t"
    using c n t
    by (simp_all add: fee_complement_eq_Inr checked_add_eq_Some checked_sub_eq_Some mul_div_round_up_eq_Inr
        FEE_DENOMINATOR_def q_def word_uint_eq_iff [of "ucast _ :: u256"] word_uint_eq_iff [of c])
  then show ?thesis by (simp add: maximum_partial_fee_def)
qed

lemma fee_sum_okD:
  assumes "rmap (\<lambda>s. fee_for_full_step (seg_amount_in s) fee) segs = Inr fees" "checked_sum fees = Inr v"
  shows "uint v = minimum_fee segs (uint fee)"
proof -
  have "(\<Sum>x\<leftarrow>fees. uint x) = minimum_fee segs (uint fee)"
    using assms(1) by (induction segs arbitrary: fees) (auto simp: minimum_fee_def fee_for_full_step_eq_Inr full_fee_def)
  then show ?thesis using assms(2) by (simp add: checked_sum_eq_Inr)
qed

lemma slipstream_fee_interval_okD:
  assumes "slipstream_fee_interval segs fee b capped = Inr (mn, mx)"
  shows "segs \<noteq> []" "uint fee < 1000000" "uint mn = minimum_fee segs (uint fee)"
    "uint mx = maximum_fee segs (uint b) capped (uint fee)"
proof -
  obtain fees p l x where *: "segs \<noteq> []"
    "rmap (\<lambda>s. fee_for_full_step (seg_amount_in s) fee) (butlast segs) = Inr fees" "checked_sum fees = Inr p"
    "fee_for_full_step (seg_amount_in (last segs)) fee = Inr l" "uint mn = uint p + uint l"
    "(if capped then Inr l
      else if seg_reached_boundary (last segs)
      then rbind (maximum_partial_fee 0 b fee) (\<lambda>partial.
        ok_or (checked_add l partial) (arithmetic ''fee inference boundary maximum overflow''))
      else rbind (maximum_partial_fee (seg_amount_in (last segs)) b fee) (\<lambda>partial. Inr (max partial l))) = Inr x"
    "uint mx = uint p + uint x"
    using assms by (auto simp: slipstream_fee_interval_def Let_def checked_add_eq_Some split: if_splits)
  note p = fee_sum_okD [OF *(2,3)]
  have l: "uint fee < 1000000" "uint l = full_fee (uint (seg_amount_in (last segs))) (uint fee)"
    using *(4) by (simp_all add: fee_for_full_step_eq_Inr full_fee_def)
  have split: "minimum_fee segs f = minimum_fee (butlast segs) f + full_fee (uint (seg_amount_in (last segs))) f" for f
    using *(1) by (cases segs rule: rev_cases) (simp_all add: minimum_fee_def)
  have "uint x = (if capped then full_fee (uint (seg_amount_in (last segs))) (uint fee)
      else if seg_reached_boundary (last segs)
      then full_fee (uint (seg_amount_in (last segs))) (uint fee) + partial_fee 0 (uint b) (uint fee)
      else max (partial_fee (uint (seg_amount_in (last segs))) (uint b) (uint fee)) (full_fee (uint (seg_amount_in (last segs))) (uint fee)))"
    using *(6) l(2)
    by (auto simp: checked_add_eq_Some max_def word_le_def dest!: maximum_partial_fee_okD split: if_splits)
  then show "segs \<noteq> []" "uint fee < 1000000" "uint mn = minimum_fee segs (uint fee)"
    "uint mx = maximum_fee segs (uint b) capped (uint fee)"
    using * p l by (simp_all add: split maximum_fee_def Let_def)
qed

lemma minimum_fee_bounds:
  assumes "0 \<le> f" "f \<le> 500000"
  shows "0 \<le> minimum_fee segs f" "minimum_fee segs f \<le> (\<Sum>s\<leftarrow>segs. uint (seg_amount_in s))"
proof -
  show "0 \<le> minimum_fee segs f"
    unfolding minimum_fee_def using full_fee_bounds(1) [OF _ assms] by (intro sum_list_nonneg) auto
  show "minimum_fee segs f \<le> (\<Sum>s\<leftarrow>segs. uint (seg_amount_in s))"
    unfolding minimum_fee_def using full_fee_bounds(2) [OF _ assms] by (intro sum_list_mono) simp
qed

lemma fee_for_full_step_total:
  assumes "uint fee \<le> 500000"
  shows "\<exists>v. fee_for_full_step a fee = Inr v \<and> uint v = full_fee (uint a) (uint fee)"
proof -
  define v :: u256 where "v = word_of_int (full_fee (uint a) (uint fee))"
  have "uint v = full_fee (uint a) (uint fee)"
    unfolding v_def using full_fee_bounds [OF _ _ assms, of "uint a"] uint_lt_exp [of a]
    by (intro uint_word_of_int_id) simp_all
  with assms show ?thesis by (intro exI [of _ v]) (simp add: fee_for_full_step_eq_Inr full_fee_def)
qed

lemma fee_sum_total:
  fixes segs :: "slipstream_segment list"
  assumes "uint fee \<le> 500000" "(\<Sum>s\<leftarrow>segs. uint (seg_amount_in s)) < 2 ^ 256"
  shows "\<exists>fees v. rmap (\<lambda>s. fee_for_full_step (seg_amount_in s) fee) segs = Inr fees \<and> checked_sum fees = Inr v"
proof -
  have "\<exists>fees. rmap (\<lambda>s. fee_for_full_step (seg_amount_in s) fee) segs = Inr fees
    \<and> (\<Sum>x\<leftarrow>fees. uint x) = minimum_fee segs (uint fee)"
  proof (induction segs)
    case (Cons s segs)
    with fee_for_full_step_total [OF assms(1), of "seg_amount_in s"] show ?case by (fastforce simp: minimum_fee_def)
  qed (simp add: minimum_fee_def)
  then obtain fees where f: "rmap (\<lambda>s. fee_for_full_step (seg_amount_in s) fee) segs = Inr fees"
    "(\<Sum>x\<leftarrow>fees. uint x) = minimum_fee segs (uint fee)" by blast
  have "uint (word_of_int (minimum_fee segs (uint fee)) :: u256) = minimum_fee segs (uint fee)"
    using minimum_fee_bounds [OF uint_ge_0 assms(1), of segs] assms(2) by (intro uint_word_of_int_id) simp_all
  with f show ?thesis by (auto simp: checked_sum_eq_Inr)
qed

lemma checked_add_total: "uint (a :: u256) + uint b < 2 ^ 256 \<Longrightarrow> \<exists>c. checked_add a b = Some c"
  by (simp add: checked_add_def)

text \<open>The interval is defined for every fee of the search range once the amounts are far from \<open>2 ^ 256\<close>.\<close>

lemma int_bounds:
  fixes q x y z s a m :: int
  shows "s + a + 2 * (x + 1) < m \<Longrightarrow> 0 \<le> a \<Longrightarrow> 0 \<le> x \<Longrightarrow> s < m"
    "q \<le> 2 * (x + 1) \<Longrightarrow> 0 \<le> y \<Longrightarrow> 0 \<le> x \<Longrightarrow> max 0 (q - 1 - y) \<le> 2 * (x + 1)"
  by (arith, arith)

lemma slipstream_fee_interval_total:
  assumes "segs \<noteq> []" "uint fee \<le> 500000" "(\<Sum>s\<leftarrow>segs. uint (seg_amount_in s)) + 2 * (uint b + 1) < 2 ^ 256"
  shows "\<exists>iv. slipstream_fee_interval segs fee b capped = Inr iv"
proof -
  obtain xs z where segs: "segs = xs @ [z]" using assms(1) by (cases segs rule: rev_cases) auto
  define S A where "S = (\<Sum>s\<leftarrow>xs. uint (seg_amount_in s))" and "A = uint (seg_amount_in z)"
  have sum: "S + A + 2 * (uint b + 1) < 2 ^ 256" using assms(3) by (simp add: segs S_def A_def)
  have pos: "0 \<le> S" "0 \<le> A" by (auto simp: S_def A_def intro!: sum_list_nonneg)
  have Sb: "S < 2 ^ 256" using int_bounds(1) [OF sum pos(2) uint_ge_0] .
  obtain fees p where p: "rmap (\<lambda>s. fee_for_full_step (seg_amount_in s) fee) xs = Inr fees" "checked_sum fees = Inr p"
    using fee_sum_total [OF assms(2), of xs] Sb unfolding S_def [symmetric] by blast
  have pv: "uint p \<le> S"
    using fee_sum_okD [OF p] minimum_fee_bounds(2) [OF uint_ge_0 assms(2), of xs] by (simp add: S_def)
  obtain l where l: "fee_for_full_step (seg_amount_in z) fee = Inr l" "uint l \<le> A"
    using fee_for_full_step_total [OF assms(2), of "seg_amount_in z"] full_fee_bounds(2) [OF uint_ge_0 uint_ge_0 assms(2), of "seg_amount_in z"]
    by (auto simp: A_def)
  have b2: "2 * (uint b + 1) < 2 ^ 256" using sum pos by linarith
  have part: "\<exists>m. maximum_partial_fee a b fee = Inr m \<and> uint m \<le> 2 * (uint b + 1)" for a
  proof -
    obtain m where m: "maximum_partial_fee a b fee = Inr m"
      using maximum_partial_fee_total [OF assms(2) b2] by blast
    have "partial_fee (uint a) (uint b) (uint fee) \<le> 2 * (uint b + 1)"
      unfolding partial_fee_def
      by (rule int_bounds(2) [OF partial_total_bound(2) [OF uint_ge_0 assms(2)] uint_ge_0 uint_ge_0])
    with m maximum_partial_fee_okD [OF m] show ?thesis by simp
  qed
  obtain m0 where m0: "maximum_partial_fee 0 b fee = Inr m0" "uint m0 \<le> 2 * (uint b + 1)" using part by blast
  obtain m1 where m1: "maximum_partial_fee (seg_amount_in z) b fee = Inr m1" "uint m1 \<le> 2 * (uint b + 1)" using part by blast
  have "uint l + uint m0 < 2 ^ 256" using m0(2) l(2) sum pos by linarith
  then obtain lm where lm: "checked_add l m0 = Some lm" using checked_add_total by blast
  then have "uint lm = uint l + uint m0" by (simp add: checked_add_eq_Some)
  then have "uint p + uint lm < 2 ^ 256" using m0(2) l(2) pv sum by linarith
  then obtain x where x: "checked_add p lm = Some x" using checked_add_total by blast
  have "uint p + uint l < 2 ^ 256" using l(2) pv sum uint_ge_0 [of b] unfolding distrib_left by linarith
  moreover have "uint p + uint m1 < 2 ^ 256" using m1(2) pv sum pos unfolding distrib_left by linarith
  ultimately obtain y w where yw: "checked_add p (max m1 l) = Some y" "checked_add p l = Some w"
    using checked_add_total by (metis max_def)
  show ?thesis
    using p l(1) m0(1) m1(1) lm x yw by (simp add: slipstream_fee_interval_def segs Let_def)
qed

section \<open>The inference decides\<close>

definition consistent_fee :: "slipstream_segment list \<Rightarrow> u256 \<Rightarrow> u256 \<Rightarrow> bool \<Rightarrow> u32 \<Rightarrow> bool" where
  "consistent_fee segs total_fee b capped f \<longleftrightarrow> f \<le> 100000 \<and>
    (\<exists>mn mx. slipstream_fee_interval segs f b capped = Inr (mn, mx) \<and> mn \<le> total_fee \<and> total_fee \<le> mx)"

interpretation reaches: rising_probe
  "\<lambda>fee. rbind (slipstream_fee_interval segs fee b capped) (\<lambda>(_, maximum). Inr (total_fee \<le> maximum))"
  for segs b capped total_fee
proof
  fix f g c
  assume f: "rbind (slipstream_fee_interval segs f b capped) (\<lambda>(_, maximum). Inr (total_fee \<le> maximum)) = Inr True"
    and le: "f \<le> g"
    and g: "rbind (slipstream_fee_interval segs g b capped) (\<lambda>(_, maximum). Inr (total_fee \<le> maximum)) = Inr c"
  obtain mn mx mn' mx' where iv: "slipstream_fee_interval segs f b capped = Inr (mn, mx)" "total_fee \<le> mx"
    "slipstream_fee_interval segs g b capped = Inr (mn', mx')" "c = (total_fee \<le> mx')"
    using f g by auto
  have "uint mx \<le> uint mx'"
    using slipstream_fee_interval_okD [OF iv(1)] slipstream_fee_interval_okD [OF iv(3)] le
    by (simp add: maximum_fee_mono word_le_def)
  with iv show c by (simp add: word_le_def)
qed

interpretation admits: falling_probe
  "\<lambda>fee. rbind (slipstream_fee_interval segs fee b capped) (\<lambda>(minimum, _). Inr (minimum \<le> total_fee))"
  for segs b capped total_fee
proof
  fix f g c
  assume f: "rbind (slipstream_fee_interval segs f b capped) (\<lambda>(minimum, _). Inr (minimum \<le> total_fee)) = Inr True"
    and le: "g \<le> f"
    and g: "rbind (slipstream_fee_interval segs g b capped) (\<lambda>(minimum, _). Inr (minimum \<le> total_fee)) = Inr c"
  obtain mn mx mn' mx' where iv: "slipstream_fee_interval segs f b capped = Inr (mn, mx)" "mn \<le> total_fee"
    "slipstream_fee_interval segs g b capped = Inr (mn', mx')" "c = (mn' \<le> total_fee)"
    using f g by auto
  have "uint mn' \<le> uint mn"
    using slipstream_fee_interval_okD [OF iv(1)] slipstream_fee_interval_okD [OF iv(3)] le
    by (simp add: minimum_fee_mono word_le_def)
  with iv show c by (simp add: word_le_def)
qed

lemma search_loops_total:
  assumes "\<And>f. low \<le> f \<Longrightarrow> f \<le> high \<Longrightarrow> \<exists>b. probe f = Inr b"
  shows "\<exists>r. first_fee_loop probe low high = Inr r" "\<exists>r. last_fee_loop probe low high = Inr r"
proof -
  show "\<exists>r. first_fee_loop probe low high = Inr r"
    using assms
  proof (induction "unat high - unat low" arbitrary: low high rule: less_induct)
    case less
    define m where "m = low + (high - low) div 2"
    show ?case
    proof (cases "low < high")
      case True
      note l = middle_first_less [OF True, folded m_def] and ms = search_measures(1,2) [OF True, folded m_def]
      have up: "low \<le> m + 1" using unat_step(1) [OF l(2)] l by (auto simp: word_less_nat_alt word_le_nat_alt)
      obtain b where b: "probe m = Inr b" using less.prems [of m] l by (meson less_imp_le)
      have "\<exists>r. first_fee_loop probe low m = Inr r" using l less.prems by (intro less.hyps [OF ms(1)]) auto
      moreover have "\<exists>r. first_fee_loop probe (m + 1) high = Inr r"
        using up less.prems by (intro less.hyps [OF ms(2)]) (auto intro: order_trans)
      ultimately show ?thesis using b True by (simp add: first_fee_loop.simps [of _ low high] Let_def m_def [symmetric])
    qed (simp add: first_fee_loop.simps)
  qed
  show "\<exists>r. last_fee_loop probe low high = Inr r"
    using assms
  proof (induction "unat high - unat low" arbitrary: low high rule: less_induct)
    case less
    define m where "m = low + div_ceil2 (high - low)"
    show ?case
    proof (cases "low < high")
      case True
      note l = middle_last_less [OF True, folded m_def] and ms = search_measures(3,4) [OF True, folded m_def]
      have down: "m - 1 \<le> high" using unat_step(2) [OF l(1)] l by (auto simp: word_less_nat_alt word_le_nat_alt)
      obtain b where b: "probe m = Inr b" using less.prems [of m] l by (meson less_imp_le)
      have "\<exists>r. last_fee_loop probe m high = Inr r" using l less.prems by (intro less.hyps [OF ms(1)]) auto
      moreover have "\<exists>r. last_fee_loop probe low (m - 1) = Inr r"
        using down less.prems by (intro less.hyps [OF ms(2)]) (auto intro: order_trans)
      ultimately show ?thesis using b True by (simp add: last_fee_loop.simps [of _ low high] Let_def m_def [symmetric])
    qed (simp add: last_fee_loop.simps)
  qed
qed

lemma consistent_fee_probes:
  "consistent_fee segs total_fee b capped f \<longleftrightarrow> f \<le> 100000
    \<and> rbind (slipstream_fee_interval segs f b capped) (\<lambda>(_, maximum). Inr (total_fee \<le> maximum)) = Inr True
    \<and> rbind (slipstream_fee_interval segs f b capped) (\<lambda>(minimum, _). Inr (minimum \<le> total_fee)) = Inr True"
  by (auto simp: consistent_fee_def)

lemma binary_first_fee_okD:
  assumes "binary_first_fee segs total_fee b capped = Inr r" "consistent_fee segs total_fee b capped f"
  shows "\<exists>a. r = Some a \<and> a \<le> f"
proof -
  let ?probe = "(\<lambda>fee. rbind (slipstream_fee_interval segs fee b capped) (\<lambda>(_, maximum). Inr (total_fee \<le> maximum)))"
  obtain a ra where a: "first_fee_loop ?probe 0 100000 = Inr a" "?probe a = Inr ra" "r = (if ra then Some a else None)"
    using assms(1) by (auto simp: binary_first_fee_def Let_def)
  note loop = reaches.first_fee_loop_okD [OF a(1)]
  have f: "f \<le> 100000" "?probe f = Inr True" using assms(2) by (auto simp: consistent_fee_probes)
  then have af: "a \<le> f" using loop by (auto simp: not_less [symmetric])
  then have "a = f \<or> a < 100000" using f(1) loop by auto
  then have ra using f(2) a(2) loop by auto
  with a af show ?thesis by simp
qed

lemma binary_last_fee_okD:
  assumes "binary_last_fee segs total_fee b capped = Inr r" "consistent_fee segs total_fee b capped f"
  shows "\<exists>z. r = Some z \<and> f \<le> z"
proof -
  let ?probe = "(\<lambda>fee. rbind (slipstream_fee_interval segs fee b capped) (\<lambda>(minimum, _). Inr (minimum \<le> total_fee)))"
  obtain z rz where z: "last_fee_loop ?probe 0 100000 = Inr z" "?probe z = Inr rz" "r = (if rz then Some z else None)"
    using assms(1) by (auto simp: binary_last_fee_def Let_def)
  note loop = admits.last_fee_loop_okD [OF z(1)]
  have f: "f \<le> 100000" "?probe f = Inr True" using assms(2) by (auto simp: consistent_fee_probes)
  then have fz: "f \<le> z" using loop by (auto simp: not_less [symmetric])
  then have "z = f \<or> 0 < z" by (cases "z = 0") (simp_all add: word_neq_0_conv)
  then have rz using f(2) z(2) loop by auto
  with z fz show ?thesis by simp
qed

lemma binary_fee_Some:
  assumes "binary_first_fee segs total_fee b capped = Inr (Some a)" "binary_last_fee segs total_fee b capped = Inr (Some z)"
    "slipstream_fee_interval segs f b capped = Inr iv" "a \<le> f" "f \<le> z"
  shows "consistent_fee segs total_fee b capped f"
proof -
  let ?reaches = "\<lambda>fee. rbind (slipstream_fee_interval segs fee b capped) (\<lambda>(_, maximum). Inr (total_fee \<le> maximum))"
  let ?admits = "\<lambda>fee. rbind (slipstream_fee_interval segs fee b capped) (\<lambda>(minimum, _). Inr (minimum \<le> total_fee))"
  have a: "?reaches a = Inr True" using assms(1) by (auto simp: binary_first_fee_def Let_def split: if_splits)
  have z: "?admits z = Inr True" "last_fee_loop ?admits 0 100000 = Inr z"
    using assms(2) by (auto simp: binary_last_fee_def Let_def split: if_splits)
  obtain mn mx where iv: "iv = (mn, mx)" by (cases iv)
  have "f \<le> 100000" using admits.last_fee_loop_okD [OF z(2)] assms(5) by auto
  moreover have "total_fee \<le> mx" using reaches.rising [OF a assms(4)] assms(3) iv by simp
  moreover have "mn \<le> total_fee" using admits.falling [OF z(1) assms(5)] assms(3) iv by simp
  ultimately show ?thesis using assms(3) iv by (simp add: consistent_fee_def)
qed

lemma infer_slipstream_fee_okD:
  assumes "infer_slipstream_fee segs total_fee b capped = Inr f"
  shows "{g. consistent_fee segs total_fee b capped g} = {f}"
proof -
  obtain mn mx where *: "binary_first_fee segs total_fee b capped = Inr (Some f)"
    "binary_last_fee segs total_fee b capped = Inr (Some f)" "slipstream_fee_interval segs f b capped = Inr (mn, mx)"
    using assms by (auto simp: infer_slipstream_fee_def split: option.splits if_splits prod.splits)
  have "consistent_fee segs total_fee b capped f" using binary_fee_Some [OF *] by simp
  then show ?thesis using binary_first_fee_okD [OF *(1)] binary_last_fee_okD [OF *(2)] by fastforce
qed

text \<open>With every interval defined, the outcome is decided by the set of consistent fees alone.\<close>

lemma infer_slipstream_fee_decides:
  assumes "\<And>f. f \<le> 100000 \<Longrightarrow> \<exists>iv. slipstream_fee_interval segs f b capped = Inr iv"
  shows "(case infer_slipstream_fee segs total_fee b capped of
      Inr f \<Rightarrow> {g. consistent_fee segs total_fee b capped g} = {f}
    | Inl (V3Transition SlipstreamFeeInferenceNoMatch) \<Rightarrow> {g. consistent_fee segs total_fee b capped g} = {}
    | Inl (V3Transition (SlipstreamFeeInferenceAmbiguous x y)) \<Rightarrow> x < y \<and> {g. consistent_fee segs total_fee b capped g} = {x..y}
    | Inl _ \<Rightarrow> False)"
proof -
  let ?reaches = "\<lambda>fee. rbind (slipstream_fee_interval segs fee b capped) (\<lambda>(_, maximum). Inr (total_fee \<le> maximum))"
  let ?admits = "\<lambda>fee. rbind (slipstream_fee_interval segs fee b capped) (\<lambda>(minimum, _). Inr (minimum \<le> total_fee))"
  have probes: "\<exists>r. ?reaches f = Inr r" "\<exists>r. ?admits f = Inr r" if "f \<le> 100000" for f
    using assms [OF that] by auto
  obtain l h where loops: "first_fee_loop ?reaches 0 100000 = Inr l" "last_fee_loop ?admits 0 100000 = Inr h"
    using search_loops_total(1) [of 0 100000 ?reaches] search_loops_total(2) [of 0 100000 ?admits] probes by blast
  have lh: "l \<le> 100000" "h \<le> 100000"
    using reaches.first_fee_loop_okD [OF loops(1)] admits.last_fee_loop_okD [OF loops(2)] by auto
  obtain x y where fl: "binary_first_fee segs total_fee b capped = Inr x" "binary_last_fee segs total_fee b capped = Inr y"
    using probes(1) [OF lh(1)] probes(2) [OF lh(2)] loops by (auto simp: binary_first_fee_def binary_last_fee_def Let_def)
  have y: "a \<le> 100000" if "y = Some a" for a
    using fl(2) loops(2) lh(2) that by (auto simp: binary_last_fee_def Let_def split: if_splits)
  let ?C = "{g. consistent_fee segs total_fee b capped g}"
  have C: "?C = (case (x, y) of (Some a, Some z) \<Rightarrow> {a..z} | _ \<Rightarrow> {})"
  proof (cases "\<exists>a z. x = Some a \<and> y = Some z")
    case True
    then obtain a z where az: "x = Some a" "y = Some z" by blast
    have "consistent_fee segs total_fee b capped f" if "a \<le> f" "f \<le> z" for f
      using binary_fee_Some [OF fl [unfolded az] _ that] assms [of f] y [OF az(2)] that by (meson order_trans)
    moreover have "a \<le> f \<and> f \<le> z" if "consistent_fee segs total_fee b capped f" for f
      using binary_first_fee_okD [OF fl(1) that] binary_last_fee_okD [OF fl(2) that] az by simp
    ultimately have "?C = {a..z}" unfolding atLeastAtMost_def atLeast_def atMost_def by blast
    with az show ?thesis by simp
  next
    case False
    moreover have "\<exists>a z. x = Some a \<and> y = Some z" if "consistent_fee segs total_fee b capped f" for f
      using binary_first_fee_okD [OF fl(1) that] binary_last_fee_okD [OF fl(2) that] by blast
    ultimately have "?C = {}" by blast
    with False show ?thesis by (auto split: option.splits)
  qed
  show ?thesis
  proof (cases "\<exists>a. x = Some a \<and> y = Some a")
    case True
    then obtain a where az: "x = Some a" "y = Some a" by blast
    with C have "consistent_fee segs total_fee b capped a" by auto
    then have "infer_slipstream_fee segs total_fee b capped = Inr a"
      by (auto simp: infer_slipstream_fee_def fl az consistent_fee_def)
    with C az show ?thesis by simp
  next
    case False
    with C show ?thesis by (auto simp: infer_slipstream_fee_def fl split: option.splits)
  qed
qed

text \<open>Away from the ends of the word range, consistency is a statement about integers.\<close>

lemma consistent_fee_int:
  assumes "segs \<noteq> []" "(\<Sum>s\<leftarrow>segs. uint (seg_amount_in s)) + 2 * (uint b + 1) < 2 ^ 256"
  shows "consistent_fee segs total_fee b capped f \<longleftrightarrow> uint f \<le> 100000
    \<and> minimum_fee segs (uint f) \<le> uint total_fee \<and> uint total_fee \<le> maximum_fee segs (uint b) capped (uint f)"
proof (cases "uint f \<le> 100000")
  case True
  then obtain mn mx where iv: "slipstream_fee_interval segs f b capped = Inr (mn, mx)"
    using slipstream_fee_interval_total [OF assms(1) _ assms(2), of f capped] by auto
  show ?thesis using True slipstream_fee_interval_okD(3,4) [OF iv] iv by (simp add: consistent_fee_def word_le_def)
next
  case False
  then show ?thesis by (simp add: consistent_fee_def word_le_def)
qed

lemma infer_slipstream_fee_iff:
  assumes "segs \<noteq> []" "(\<Sum>s\<leftarrow>segs. uint (seg_amount_in s)) + 2 * (uint b + 1) < 2 ^ 256"
  shows "infer_slipstream_fee segs total_fee b capped = Inr f \<longleftrightarrow> {g. consistent_fee segs total_fee b capped g} = {f}"
proof
  assume C: "{g. consistent_fee segs total_fee b capped g} = {f}"
  have "\<exists>iv. slipstream_fee_interval segs g b capped = Inr iv" if "g \<le> 100000" for g
    using slipstream_fee_interval_total [OF assms(1) _ assms(2)] that by (simp add: word_le_def)
  from infer_slipstream_fee_decides [OF this, of total_fee, unfolded C]
  show "infer_slipstream_fee segs total_fee b capped = Inr f"
    by (auto split: sum.splits adapter_event_error.splits v3_transition_error.splits)
      (metis atLeastAtMost_singleton_iff order_less_irrefl)
qed (rule infer_slipstream_fee_okD)

text \<open>One consistent fee with inconsistent neighbours is the only one.\<close>

lemma consistent_fee_alone:
  assumes "segs \<noteq> []" "(\<Sum>s\<leftarrow>segs. uint (seg_amount_in s)) + 2 * (uint b + 1) < 2 ^ 256"
    and "consistent_fee segs total_fee b capped f"
    and "maximum_fee segs (uint b) capped (uint f - 1) < uint total_fee"
    and "uint total_fee < minimum_fee segs (uint f + 1)"
  shows "infer_slipstream_fee segs total_fee b capped = Inr f"
proof -
  have f: "uint f \<le> 100000" using assms(3) by (simp add: consistent_fee_def word_le_def)
  have "g = f" if g: "consistent_fee segs total_fee b capped g" for g
  proof -
    have c: "uint g \<le> 100000" "minimum_fee segs (uint g) \<le> uint total_fee"
      "uint total_fee \<le> maximum_fee segs (uint b) capped (uint g)"
      using g by (simp_all add: consistent_fee_int [OF assms(1,2)])
    have "\<not> uint g \<le> uint f - 1"
      using maximum_fee_mono [of "uint b" "uint g" "uint f - 1" segs capped] c(3) assms(4) f by auto
    moreover have "\<not> uint f + 1 \<le> uint g"
      using minimum_fee_mono [of "uint f + 1" "uint g" segs] c(1,2) assms(5) uint_ge_0 [of f] by auto
    ultimately show ?thesis by (simp add: word_uint_eq_iff)
  qed
  then show ?thesis using assms(3) by (subst infer_slipstream_fee_iff [OF assms(1,2)]) blast
qed

section \<open>Where a fee goes\<close>

lemma uint_ucast_32 [simp]: "uint (ucast (c :: u32) :: u256) = uint c"
  by (intro uint_ucast_down) (rule order_less_trans [OF uint_lt_exp], simp)

lemma ceil_div_share:
  assumes "0 \<le> n" "0 \<le> a" "a \<le> b" "0 < b"
  shows "ceil_div (n * a) b \<le> n"
  using assms by (subst ceil_div_le_iff) (simp_all add: mult_left_mono)

definition gauge_share :: "int \<Rightarrow> int \<Rightarrow> int \<Rightarrow> int \<Rightarrow> int" where
  "gauge_share fee l staked unstaked_fee =
    (let base = ceil_div (fee * staked) l in base + ceil_div ((fee - base) * unstaked_fee) 1000000)"

lemma slipstream_fee_growth_okD:
  assumes "slipstream_fee_growth fee l staked uf = Inr (growth, gauge)" "l \<noteq> 0" "uint uf \<le> 1000000"
  shows "staked \<le> l" "uint gauge = gauge_share (uint fee) (uint l) (uint staked) (uint uf)" "uint gauge \<le> uint fee"
    "if l = staked then growth = 0 \<and> gauge = fee
     else uint growth = (uint fee - uint gauge) * 2 ^ 128 div (uint l - uint staked)"
proof -
  have l: "0 < uint l" using assms(2) by (simp add: word_neq_0_conv word_less_def)
  show st: "staked \<le> l"
    using assms(1) by (auto simp: slipstream_fee_growth_def validate_slipstream_liquidity_def split: if_splits)
  then have sl: "uint staked \<le> uint l" by (simp add: word_le_def)
  have "uint gauge = gauge_share (uint fee) (uint l) (uint staked) (uint uf) \<and> uint gauge \<le> uint fee
    \<and> (if l = staked then growth = 0 \<and> gauge = fee
       else uint growth = (uint fee - uint gauge) * 2 ^ 128 div (uint l - uint staked))"
  proof (cases "l = staked")
    case True
    then have "growth = 0" "gauge = fee"
      using assms(1,2) by (auto simp: slipstream_fee_growth_def validate_slipstream_liquidity_def)
    moreover have "ceil_div (uint fee * uint l) (uint l) = uint fee"
      using l by (simp add: round_div_def)
    ultimately show ?thesis using True by (simp add: gauge_share_def)
  next
    case False
    obtain base levy where b: "(if staked = 0 then Inr 0 else mul_div_round_up fee staked l) = Inr base"
      "mul_div_round_up (fee - base) (ucast uf) (ucast FEE_DENOMINATOR) = Inr levy"
      "mul_div (fee - base - levy) Q128 (l - staked) = Inr growth" "gauge = base + levy"
      using assms(1,2) False by (auto simp: slipstream_fee_growth_def Let_def)
    have base: "uint base = ceil_div (uint fee * uint staked) (uint l)"
      using b(1) l by (auto simp: mul_div_round_up_eq_Inr split: if_splits)
    have "uint base \<le> uint fee" unfolding base using sl l by (intro ceil_div_share) simp_all
    then have u: "uint (fee - base) = uint fee - uint base" by (simp add: uint_sub_no_wrap word_le_def)
    have levy: "uint levy = ceil_div ((uint fee - uint base) * uint uf) 1000000"
      using b(2) by (simp add: mul_div_round_up_eq_Inr FEE_DENOMINATOR_def u)
    have lb: "uint levy \<le> uint fee - uint base"
      unfolding levy using assms(3) \<open>uint base \<le> uint fee\<close> by (intro ceil_div_share) simp_all
    then have r: "uint (fee - base - levy) = uint fee - uint base - uint levy"
      using u by (simp add: uint_sub_no_wrap word_le_def)
    have "uint base + uint levy < 2 ^ 256" using lb uint_lt_exp [of fee] by (simp add: algebra_simps)
    then have g: "uint gauge = uint base + uint levy" using b(4) by (simp add: uint_add_no_wrap)
    have d: "uint (l - staked) = uint l - uint staked" using st by (simp add: uint_sub_no_wrap)
    have rest: "uint fee - uint base - uint levy = uint fee - uint gauge" using g by simp
    have "uint growth = (uint fee - uint gauge) * 2 ^ 128 div (uint l - uint staked)"
      using b(3) unfolding mul_div_eq_Inr uint_Q128 r d rest by blast
    then show ?thesis using False g base levy lb by (simp add: gauge_share_def Let_def)
  qed
  then show "uint gauge = gauge_share (uint fee) (uint l) (uint staked) (uint uf)" "uint gauge \<le> uint fee"
    "if l = staked then growth = 0 \<and> gauge = fee
     else uint growth = (uint fee - uint gauge) * 2 ^ 128 div (uint l - uint staked)" by blast+
qed

section \<open>Rewards\<close>

lemma update_slipstream_rewards_time:
  "update_slipstream_rewards addr growth staked last_updated ts state = Inr ru \<Longrightarrow> ru_last_updated ru = ts"
  by (auto simp: update_slipstream_rewards_def Let_def split: if_splits)

lemma update_slipstream_rewards_exact:
  assumes "update_slipstream_rewards addr growth staked last_updated ts state = Inr ru"
  shows "ru_last_updated ru = ts
    \<and> (if ts = last_updated
       then ru_reward_growth ru = growth \<and> ru_reward_reserve ru = None \<and> ru_rollover ru = None
       else \<exists>reserve. state addr SLIPSTREAM_REWARD_RESERVE_SLOT = Some reserve
         \<and> (if reserve = 0
            then ru_reward_growth ru = growth \<and> ru_reward_reserve ru = None \<and> ru_rollover ru = None
            else \<exists>rate reward remaining. state addr SLIPSTREAM_REWARD_RATE_SLOT = Some rate
              \<and> reward = min (rate * ucast (ts - last_updated)) reserve
              \<and> ru_reward_reserve ru = Some remaining \<and> uint reward + uint remaining = uint reserve
              \<and> (if staked = 0
                 then ru_reward_growth ru = growth
                   \<and> (\<exists>rollover. state addr SLIPSTREAM_ROLLOVER_SLOT = Some rollover \<and> ru_rollover ru = Some (rollover + reward))
                 else ru_rollover ru = None
                   \<and> (\<exists>g. uint g = uint reward * 2 ^ 128 div uint staked \<and> ru_reward_growth ru = growth + g))))"
proof (cases "ts = last_updated")
  case True
  then show ?thesis using assms by (auto simp: update_slipstream_rewards_def)
next
  case False
  with assms obtain reserve where r: "state addr SLIPSTREAM_REWARD_RESERVE_SLOT = Some reserve"
    by (auto simp: update_slipstream_rewards_def Let_def)
  have split: "uint (min r v) + uint (v - min r v) = uint v" for r v :: u256
    by (simp add: uint_sub_no_wrap min_def)
  show ?thesis
  proof (cases "reserve = 0")
    case True
    then show ?thesis using assms False r by (auto simp: update_slipstream_rewards_def Let_def)
  next
    case nonzero: False
    with assms False r obtain rate where rate: "state addr SLIPSTREAM_REWARD_RATE_SLOT = Some rate"
      by (auto simp: update_slipstream_rewards_def Let_def)
    define reward where "reward = min (rate * ucast (ts - last_updated)) reserve"
    have "ru_last_updated ru = ts \<and> ru_reward_reserve ru = Some (reserve - reward)
      \<and> (if staked = 0
         then ru_reward_growth ru = growth
           \<and> (\<exists>rollover. state addr SLIPSTREAM_ROLLOVER_SLOT = Some rollover \<and> ru_rollover ru = Some (rollover + reward))
         else ru_rollover ru = None
           \<and> (\<exists>g. uint g = uint reward * 2 ^ 128 div uint staked \<and> ru_reward_growth ru = growth + g))"
      using assms False r nonzero rate
      by (auto simp: update_slipstream_rewards_def Let_def mul_div_eq_Inr reward_def [symmetric] split: if_splits)
    moreover have "uint reward + uint (reserve - reward) = uint reserve" unfolding reward_def by (rule split)
    ultimately show ?thesis using False r nonzero rate reward_def by auto
  qed
qed

section \<open>Evidence\<close>

text \<open>Accepted evidence names the very pool, block, transaction and log it is used for.\<close>

lemma validate_slipstream_evidence_okD:
  assumes "validate_slipstream_evidence addr ctx state = Inr ev"
  shows "ctx_slipstream_fee_evidence ctx = Some ev" "evidence_validate ev = Inr ()" "fee_pool ev = addr"
    "matches_context (evidence_identity ev) ctx"
    "addr = rt_pool (reviewed_runtime (fee_runtime_family ev))"
    "fee_factory ev = rt_factory (reviewed_runtime (fee_runtime_family ev))"
    "\<exists>w. state addr 0 = Some w \<and> decode_address_slot w = fee_factory ev"
    "uint (fee_effective_swap_fee ev) \<le> 100000" "uint (fee_effective_unstaked_fee ev) \<le> 1000000"
proof -
  show "uint (fee_effective_swap_fee ev) \<le> 100000" "uint (fee_effective_unstaked_fee ev) \<le> 1000000"
    using assms
    by (auto simp: validate_slipstream_evidence_def Let_def FEE_DENOMINATOR_def not_less word_le_def split: if_splits)
qed (use assms in \<open>auto simp: validate_slipstream_evidence_def Let_def evidence_identity_def matches_context_def
      SLIPSTREAM_FACTORY_SLOT_def split: if_splits\<close>)

lemma validate_reviewed_slipstream_event_okD:
  assumes "validate_reviewed_slipstream_event addr layout ctx = Inr u"
  shows "validate_context ctx = Inr ()" "layout = layout_slipstream 200" "tick_spacing layout = 200"
    "\<exists>family. addr = rt_pool (reviewed_runtime family) \<and> ctx_chain_id ctx = Some (rt_chain_id (reviewed_runtime family))"
proof -
  show "validate_context ctx = Inr ()" "tick_spacing layout = 200" "layout = layout_slipstream 200"
    using assms by (auto simp: validate_reviewed_slipstream_event_def split: if_splits)
  have "addr = rt_pool (reviewed_runtime AerodromeBaseBifi) \<and> ctx_chain_id ctx = Some 8453
      \<or> addr = rt_pool (reviewed_runtime VelodromeOptimismBifi) \<and> ctx_chain_id ctx = Some 10"
    using assms by (auto simp: validate_reviewed_slipstream_event_def split: if_splits)
  then show "\<exists>family. addr = rt_pool (reviewed_runtime family) \<and> ctx_chain_id ctx = Some (rt_chain_id (reviewed_runtime family))"
    by (elim disjE) (rule exI [of _ AerodromeBaseBifi], simp, rule exI [of _ VelodromeOptimismBifi], simp)
qed

section \<open>Partial views and aborts\<close>

lemma fail_closed_slipstream_fee [fail_closed_intros]:
  "fail_closed (\<lambda>s. validate_slipstream_evidence addr ctx s)"
  "fail_closed (\<lambda>s. update_slipstream_rewards addr growth staked last_updated ts s)"
  unfolding validate_slipstream_evidence_def update_slipstream_rewards_def Let_def
  by (intro fail_closed_intros)+

lemma no_panic_slipstream_checks [no_panic_intros, simp]:
  "no_panic (validate_reviewed_slipstream_event addr layout ctx)"
  "no_panic (validate_slipstream_evidence addr ctx state)"
  "no_panic (validate_slipstream_liquidity l s)"
  "no_panic (slipstream_fee_growth f l s u)"
  "no_panic (update_slipstream_rewards addr growth staked last_updated ts state)"
  unfolding validate_reviewed_slipstream_event_def validate_slipstream_evidence_def slipstream_fee_growth_def
    validate_slipstream_liquidity_def update_slipstream_rewards_def Let_def fee_evidence_error_def
  by (intro no_panic_intros; simp)+

lemma no_panic_slipstream_fee_interval [no_panic_intros]:
  "uint fee \<le> 1000000 \<Longrightarrow> no_panic (slipstream_fee_interval segs fee b capped)"
  unfolding slipstream_fee_interval_def maximum_partial_fee_def Let_def
  by (intro no_panic_intros) simp_all

lemma no_panic_search_loops:
  assumes "\<And>f. f \<le> high \<Longrightarrow> no_panic (probe f)"
  shows "no_panic (first_fee_loop probe low high)" "no_panic (last_fee_loop probe low high)"
  using assms
proof -
  show "no_panic (first_fee_loop probe low high)"
    using assms
  proof (induction "unat high - unat low" arbitrary: low high rule: less_induct)
    case less
    show ?case
    proof (cases "low < high")
      case True
      define m where "m = low + (high - low) div 2"
      note l = middle_first_less [OF True, folded m_def] and ms = search_measures(1,2) [OF True, folded m_def]
      have "no_panic (first_fee_loop probe low m)" using l less.prems by (intro less.hyps [OF ms(1)]) auto
      moreover have "no_panic (first_fee_loop probe (m + 1) high)" using less.prems by (intro less.hyps [OF ms(2)])
      moreover have "no_panic (probe m)" using less.prems l(2) by simp
      ultimately show ?thesis
        unfolding first_fee_loop.simps [of probe low high] Let_def m_def [symmetric] by (auto intro!: no_panic_intros)
    qed (simp add: first_fee_loop.simps)
  qed
  show "no_panic (last_fee_loop probe low high)"
    using assms
  proof (induction "unat high - unat low" arbitrary: low high rule: less_induct)
    case less
    show ?case
    proof (cases "low < high")
      case True
      define m where "m = low + div_ceil2 (high - low)"
      note l = middle_last_less [OF True, folded m_def] and ms = search_measures(3,4) [OF True, folded m_def]
      have "m - 1 \<le> high" using unat_step(2) [OF l(1)] l by (auto simp: word_less_nat_alt word_le_nat_alt)
      then have "no_panic (last_fee_loop probe low (m - 1))"
        using less.prems by (intro less.hyps [OF ms(2)]) (auto intro: order_trans)
      moreover have "no_panic (last_fee_loop probe m high)" using less.prems by (intro less.hyps [OF ms(1)])
      moreover have "no_panic (probe m)" using less.prems l(2) by simp
      ultimately show ?thesis
        unfolding last_fee_loop.simps [of probe low high] Let_def m_def [symmetric] by (auto intro!: no_panic_intros)
    qed (simp add: last_fee_loop.simps)
  qed
qed

lemma no_panic_binary_searches [no_panic_intros, simp]:
  "no_panic (binary_first_fee segs total_fee b capped)" "no_panic (binary_last_fee segs total_fee b capped)"
proof -
  have iv: "no_panic (slipstream_fee_interval segs f b capped)" if "f \<le> 100000" for f
    using that by (intro no_panic_intros) (simp add: word_le_def)
  have reach: "no_panic (rbind (slipstream_fee_interval segs f b capped) (\<lambda>(_, maximum). Inr (total_fee \<le> maximum)))"
    and admit: "no_panic (rbind (slipstream_fee_interval segs f b capped) (\<lambda>(minimum, _). Inr (minimum \<le> total_fee)))"
    if "f \<le> 100000" for f using iv [OF that] by (auto intro!: no_panic_intros)
  show "no_panic (binary_first_fee segs total_fee b capped)"
    unfolding binary_first_fee_def Let_def
  proof (intro no_panic_rbind no_panic_Inr no_panic_search_loops(1) reach)
    fix r
    assume "first_fee_loop (\<lambda>fee. rbind (slipstream_fee_interval segs fee b capped) (\<lambda>(_, maximum). Inr (total_fee \<le> maximum))) 0 100000 = Inr r"
    from reaches.first_fee_loop_okD [OF this] have "r \<le> 100000" by simp
    then show "no_panic (slipstream_fee_interval segs r b capped)" by (rule iv)
  qed (auto simp: iv split: prod.split)
  show "no_panic (binary_last_fee segs total_fee b capped)"
    unfolding binary_last_fee_def Let_def
  proof (intro no_panic_rbind no_panic_Inr no_panic_search_loops(2) admit)
    fix r
    assume "last_fee_loop (\<lambda>fee. rbind (slipstream_fee_interval segs fee b capped) (\<lambda>(minimum, _). Inr (minimum \<le> total_fee))) 0 100000 = Inr r"
    from admits.last_fee_loop_okD [OF this] have "r \<le> 100000" by simp
    then show "no_panic (slipstream_fee_interval segs r b capped)" by (rule iv)
  qed (auto simp: iv split: prod.split)
qed

lemma infer_slipstream_fee_range:
  "infer_slipstream_fee segs total_fee b capped = Inr f \<Longrightarrow> uint f \<le> 100000"
  using infer_slipstream_fee_okD [of segs total_fee b capped f] by (auto simp: consistent_fee_def word_le_def)

lemma no_panic_infer_slipstream_fee [no_panic_intros, simp]:
  "no_panic (infer_slipstream_fee segs total_fee b capped)"
  unfolding infer_slipstream_fee_def
proof (intro no_panic_rbind no_panic_binary_searches)
  fix x y
  assume "binary_first_fee segs total_fee b capped = Inr x" "binary_last_fee segs total_fee b capped = Inr y"
  then have "no_panic (slipstream_fee_interval segs f b capped)" if "x = Some f" for f
    using that reaches.first_fee_loop_okD [of segs b capped total_fee 0 100000 f]
    by (intro no_panic_intros) (auto simp: binary_first_fee_def Let_def word_le_def split: if_splits)
  then show "no_panic (case (x, y) of
      (Some first, Some final) \<Rightarrow>
        if final < first then Inl (V3Transition SlipstreamFeeInferenceNoMatch)
        else if first \<noteq> final then Inl (V3Transition (SlipstreamFeeInferenceAmbiguous first final))
        else rbind (slipstream_fee_interval segs first b capped) (\<lambda>(minimum, maximum).
             if total_fee < minimum \<or> maximum < total_fee
             then Inl (V3Transition SlipstreamFeeInferenceNoMatch) else Inr first)
    | _ \<Rightarrow> Inl (V3Transition SlipstreamFeeInferenceNoMatch))"
    by (auto intro!: no_panic_rbind split: option.split)
qed

end
