(* ===== verification/Slipstream_Swap.thy ===== *)
theory Slipstream_Swap
  imports Slipstream_Fee V3_Swap_Path
begin

text \<open>
  \<open>derive_slipstream_swap\<close> and \<open>infer_slipstream_swap_fee\<close> of \<open>src/adapters/v3_transition.rs\<close>: the
  transition of a swap in a reviewed Slipstream pool, where part of the active liquidity is
  staked in a gauge and the effective fee is dynamic. Without fee evidence the batch holds the
  words later quotes depend on; with it, also fee growth, gauge fees, rewards and ticks.

  The phases are those of the code: event and evidence checks, parent words, direction, oracle,
  the zero-distance step, the walk, its end, totals and fee inference, the fee-only step, the
  fee of each step, the accounting loop and the update batch.
\<close>

unbundle bit_operations_syntax

section \<open>Evidence and parent words\<close>

definition slipstream_evidence ::
  "address \<Rightarrow> adapter_event_context \<Rightarrow> state_view \<Rightarrow> slipstream_swap_fee_evidence option result" where
  "slipstream_evidence addr ctx state =
    (case ctx_slipstream_fee_evidence ctx of
       None \<Rightarrow> Inr None
     | Some _ \<Rightarrow> rbind (validate_slipstream_evidence addr ctx state) (\<lambda>evidence. Inr (Some evidence)))"

definition slipstream_unstaked_fee :: "slipstream_swap_fee_evidence option \<Rightarrow> u32" where
  "slipstream_unstaked_fee evidence = (case evidence of None \<Rightarrow> 0 | Some ev \<Rightarrow> fee_effective_unstaked_fee ev)"

record slipstream_parent =
  slp_slot0 :: slot0_word
  slp_liquidity_word :: u256
  slp_liquidity :: u256
  slp_staked_word :: u256
  slp_staked :: u256
  slp_last_updated :: u32
  slp_fee_growth_0 :: u256
  slp_fee_growth_1 :: u256
  slp_reward_growth :: u256
  slp_gauge_fees :: u256

definition evidence_word :: "bool \<Rightarrow> state_view \<Rightarrow> address \<Rightarrow> u256 \<Rightarrow> u256 result" where
  "evidence_word has_evidence state addr slot = (if has_evidence then required state addr slot else Inr 0)"

definition load_slipstream_parent ::
  "address \<Rightarrow> v3_storage_layout \<Rightarrow> bool \<Rightarrow> state_view \<Rightarrow> slipstream_parent result" where
  "load_slipstream_parent addr layout has_evidence state =
    rbind (required state addr (slot0_slot layout)) (\<lambda>slot0_raw.
    let slot0 = slot0_decode slot0_raw
    in if (ucast (drop_bit 232 (s0_raw slot0) AND ucast (- 1 :: u8)) :: u8) \<noteq> 1
       then Inl (contradiction ''parent Slipstream slot0 is locked'')
       else rbind (validate_parent_slot0 slot0) (\<lambda>_.
            rbind (required state addr (liquidity_slot layout)) (\<lambda>liquidity_word.
            let start_liquidity = liquidity_word AND WORD_128_MASK
            in rbind (required state addr SLIPSTREAM_STAKED_LAST_SPACING_SLOT) (\<lambda>staked_word.
            let start_staked_liquidity = staked_word AND WORD_128_MASK
            in if start_liquidity < start_staked_liquidity
               then Inl (contradiction ''parent staked liquidity exceeds active liquidity'')
               else if as_i32 (signed_from_bits (drop_bit 160 staked_word AND SLOT0_TICK_MASK) 24) \<noteq> tick_spacing layout
               then Inl (fee_evidence_error ''registration tick spacing does not match pool storage'')
               else rbind (evidence_word has_evidence state addr (fee_growth_0_slot SLIPSTREAM_SURFACE)) (\<lambda>fee_growth_0.
                    rbind (evidence_word has_evidence state addr (fee_growth_1_slot SLIPSTREAM_SURFACE)) (\<lambda>fee_growth_1.
                    rbind (evidence_word has_evidence state addr SLIPSTREAM_REWARD_GROWTH_SLOT) (\<lambda>reward_growth.
                    rbind (evidence_word has_evidence state addr SLIPSTREAM_GAUGE_FEES_SLOT) (\<lambda>gauge_fees.
                    Inr \<lparr>slp_slot0 = slot0, slp_liquidity_word = liquidity_word, slp_liquidity = start_liquidity,
                         slp_staked_word = staked_word, slp_staked = start_staked_liquidity,
                         slp_last_updated = ucast (drop_bit 128 staked_word AND WORD_32_MASK),
                         slp_fee_growth_0 = fee_growth_0, slp_fee_growth_1 = fee_growth_1,
                         slp_reward_growth = reward_growth, slp_gauge_fees = gauge_fees\<rparr>))))))))"

definition slipstream_oracle ::
  "address \<Rightarrow> slipstream_parent \<Rightarrow> decoded_swap \<Rightarrow> adapter_event_context \<Rightarrow> state_view \<Rightarrow> oracle_advance result" where
  "slipstream_oracle addr parent swap ctx state =
    (let slot0 = slp_slot0 parent
     in if s0_tick slot0 \<noteq> sw_tick swap
        then advance_oracle addr SLIPSTREAM_SURFACE slot0 (slp_liquidity parent) ctx state
        else rbind (event_timestamp ctx) (\<lambda>timestamp.
             Inr (s0_observation_index slot0, s0_observation_cardinality slot0, None,
                  \<lparr>obs_timestamp = timestamp, obs_tick_cumulative = 0,
                   obs_seconds_per_liquidity_cumulative_x128 = 0, obs_initialized = True\<rparr>)))"

section \<open>The walk\<close>

record slipstream_walk =
  slw_ticks :: "slipstream_initialized_tick list"
  slw_segments :: "slipstream_segment list"
  slw_sqrt :: u256
  slw_tick :: i32
  slw_liquidity :: u256
  slw_staked :: u256
  slw_steps :: u32

definition slipstream_walk_start :: "slipstream_parent \<Rightarrow> slipstream_walk" where
  "slipstream_walk_start parent = \<lparr>slw_ticks = [], slw_segments = [],
     slw_sqrt = s0_sqrt_price_x96 (slp_slot0 parent), slw_tick = s0_tick (slp_slot0 parent),
     slw_liquidity = slp_liquidity parent, slw_staked = slp_staked parent, slw_steps = 0\<rparr>"

definition slipstream_cross_boundary ::
  "keccak \<Rightarrow> address \<Rightarrow> v3_storage_layout \<Rightarrow> state_view \<Rightarrow> i32 \<Rightarrow> bool \<Rightarrow> slipstream_initialized_tick list
    \<Rightarrow> (slipstream_initialized_tick list \<times> nat option) result" where
  "slipstream_cross_boundary keccak256 addr layout state tick crosses ticks =
    (if crosses
     then rbind (load_slipstream_initialized_tick keccak256 addr layout tick state) (\<lambda>initialized.
          Inr (ticks @ [initialized], Some (length ticks)))
     else Inr (ticks, None))"

text \<open>Active and staked liquidity after a crossing.\<close>

definition slipstream_crossed ::
  "slipstream_initialized_tick list \<Rightarrow> nat option \<Rightarrow> u256 \<Rightarrow> u256 \<Rightarrow> bool \<Rightarrow> (u256 \<times> u256) result" where
  "slipstream_crossed ticks crossed_tick liquidity staked zero_for_one =
    (case crossed_tick of
       None \<Rightarrow> Inr (liquidity, staked)
     | Some index \<Rightarrow>
         if index < length ticks
         then rbind (apply_liquidity_net liquidity (st_liquidity_net (ticks ! index)) zero_for_one) (\<lambda>liquidity.
              rbind (apply_liquidity_net staked (st_staked_liquidity_net (ticks ! index)) zero_for_one) (\<lambda>staked.
              rbind (validate_slipstream_liquidity liquidity staked) (\<lambda>_.
              Inr (liquidity, staked))))
         else Inl (Panicked ''index out of bounds''))"

definition slipstream_zero_distance_step ::
  "keccak \<Rightarrow> address \<Rightarrow> v3_storage_layout \<Rightarrow> decoded_swap \<Rightarrow> bool \<Rightarrow> state_view \<Rightarrow> slipstream_walk
    \<Rightarrow> slipstream_walk result" where
  "slipstream_zero_distance_step keccak256 addr layout swap zero_for_one state wk =
    (if zero_for_one \<and> slw_sqrt wk = sw_sqrt_price_x96 swap
     then rbind (next_slipstream_step_boundary keccak256 addr layout (slw_tick wk) True state) (\<lambda>boundary.
          rbind (sqrt_ratio_at_tick (sb_tick boundary)) (\<lambda>boundary_sqrt.
          if boundary_sqrt = slw_sqrt wk
          then rbind (consume_step (slw_steps wk)) (\<lambda>steps.
               rbind (slipstream_cross_boundary keccak256 addr layout state (sb_tick boundary)
                        (sb_initialized boundary) (slw_ticks wk)) (\<lambda>(ticks, crossed_tick).
               rbind (slipstream_crossed ticks crossed_tick (slw_liquidity wk) (slw_staked wk) True)
                 (\<lambda>(liquidity, staked).
               Inr (wk\<lparr>slw_ticks := ticks,
                       slw_segments := slw_segments wk @
                         [\<lparr>seg_sqrt_start = slw_sqrt wk, seg_sqrt_end = slw_sqrt wk,
                           seg_liquidity = slw_liquidity wk, seg_amount_in = 0, seg_amount_out = 0,
                           seg_reached_boundary = True, seg_crossed_tick = crossed_tick,
                           seg_staked_liquidity = slw_staked wk\<rparr>],
                       slw_tick := sb_tick boundary - 1, slw_liquidity := liquidity, slw_staked := staked,
                       slw_steps := steps\<rparr>))))
          else Inr wk))
     else Inr wk)"

definition slipstream_walk_step ::
  "keccak \<Rightarrow> address \<Rightarrow> v3_storage_layout \<Rightarrow> decoded_swap \<Rightarrow> bool \<Rightarrow> state_view \<Rightarrow> slipstream_walk
    \<Rightarrow> slipstream_walk result" where
  "slipstream_walk_step keccak256 addr layout swap zero_for_one state wk =
    rbind (consume_step (slw_steps wk)) (\<lambda>steps.
    rbind (next_slipstream_step_boundary keccak256 addr layout (slw_tick wk) zero_for_one state) (\<lambda>boundary.
    rbind (sqrt_ratio_at_tick (sb_tick boundary)) (\<lambda>boundary_sqrt.
    let target = (if zero_for_one then max boundary_sqrt (sw_sqrt_price_x96 swap)
                  else min boundary_sqrt (sw_sqrt_price_x96 swap));
        reached_boundary = (target = boundary_sqrt)
    in rbind (segment_amounts (slw_sqrt wk) target (slw_liquidity wk) zero_for_one)
         (\<lambda>(amount_in, amount_out).
       rbind (slipstream_cross_boundary keccak256 addr layout state (sb_tick boundary)
                (reached_boundary \<and> sb_initialized boundary) (slw_ticks wk)) (\<lambda>(ticks, crossed_tick).
       rbind (if reached_boundary
              then slipstream_crossed ticks crossed_tick (slw_liquidity wk) (slw_staked wk) zero_for_one
              else Inr (slw_liquidity wk, slw_staked wk)) (\<lambda>(liquidity, staked).
       Inr \<lparr>slw_ticks = ticks,
            slw_segments = slw_segments wk @
              [\<lparr>seg_sqrt_start = slw_sqrt wk, seg_sqrt_end = target, seg_liquidity = slw_liquidity wk,
                seg_amount_in = amount_in, seg_amount_out = amount_out,
                seg_reached_boundary = reached_boundary, seg_crossed_tick = crossed_tick,
                seg_staked_liquidity = slw_staked wk\<rparr>],
            slw_sqrt = target,
            slw_tick = (if reached_boundary
                        then if zero_for_one then sb_tick boundary - 1 else sb_tick boundary
                        else sw_tick swap),
            slw_liquidity = liquidity, slw_staked = staked, slw_steps = steps\<rparr>))))))"

lemma slipstream_walk_step_steps:
  assumes "slipstream_walk_step keccak256 addr layout swap zfo state wk = Inr wk'"
  shows "uint (slw_steps wk) < 4096" "uint (slw_steps wk') = uint (slw_steps wk) + 1"
  using assms by (auto simp: slipstream_walk_step_def Let_def consume_step_eq_Inr)

function slipstream_walk_loop ::
  "keccak \<Rightarrow> address \<Rightarrow> v3_storage_layout \<Rightarrow> decoded_swap \<Rightarrow> bool \<Rightarrow> state_view \<Rightarrow> slipstream_walk
    \<Rightarrow> slipstream_walk result" where
  "slipstream_walk_loop keccak256 addr layout swap zero_for_one state wk =
    (if slw_sqrt wk = sw_sqrt_price_x96 swap then Inr wk
     else rbind (slipstream_walk_step keccak256 addr layout swap zero_for_one state wk) (\<lambda>wk'.
          slipstream_walk_loop keccak256 addr layout swap zero_for_one state wk'))"
  by pat_completeness auto

termination
  by (relation "measure (\<lambda>(_, _, _, _, _, _, wk). nat (4096 - uint (slw_steps wk)))")
    (auto dest: slipstream_walk_step_steps)

declare slipstream_walk_loop.simps [simp del]

definition slipstream_still_segment :: "slipstream_walk \<Rightarrow> slipstream_segment" where
  "slipstream_still_segment wk = \<lparr>seg_sqrt_start = slw_sqrt wk, seg_sqrt_end = slw_sqrt wk,
     seg_liquidity = slw_liquidity wk, seg_amount_in = 0, seg_amount_out = 0,
     seg_reached_boundary = False, seg_crossed_tick = None, seg_staked_liquidity = slw_staked wk\<rparr>"

definition declared_unused :: "slipstream_swap_fee_evidence option \<Rightarrow> bool" where
  "declared_unused evidence =
    (case evidence of None \<Rightarrow> False | Some ev \<Rightarrow> prf_kind (fee_unstaked_fee_proof ev) = UnusedAllLiquidityStaked)"

definition slipstream_finish_walk ::
  "slipstream_swap_fee_evidence option \<Rightarrow> decoded_swap \<Rightarrow> bool \<Rightarrow> slipstream_walk \<Rightarrow> slipstream_walk result" where
  "slipstream_finish_walk evidence swap tiny wk =
    rbind (if slw_segments wk = []
           then if tiny then Inr (wk\<lparr>slw_segments := [slipstream_still_segment wk]\<rparr>)
                else Inl (contradiction ''swap did not move the square-root price'')
           else Inr wk) (\<lambda>wk.
    if slw_liquidity wk \<noteq> sw_liquidity swap
    then Inl (final_mismatch ''liquidity'' (slw_liquidity wk) (sw_liquidity swap))
    else if slw_tick wk \<noteq> sw_tick swap
    then Inl (final_mismatch ''tick'' (tick_bits (slw_tick wk)) (tick_bits (sw_tick swap)))
    else if declared_unused evidence
            \<and> list_ex (\<lambda>segment. seg_liquidity segment \<noteq> seg_staked_liquidity segment) (slw_segments wk)
    then Inl (fee_evidence_error ''unstaked fee was declared unused for mixed-liquidity swap step'')
    else Inr wk)"

section \<open>Totals, fee inference and the fee of each step\<close>

definition slipstream_final_budget :: "slipstream_walk \<Rightarrow> bool \<Rightarrow> bool \<Rightarrow> slipstream_segment \<Rightarrow> u256 result" where
  "slipstream_final_budget wk capped_output zero_for_one last' =
    (if capped_output then Inr 0
     else if seg_reached_boundary last'
     then maximum_input_budget (slw_sqrt wk) (slw_sqrt wk) (slw_liquidity wk) zero_for_one
     else maximum_input_budget (seg_sqrt_start last') (seg_sqrt_end last') (seg_liquidity last') zero_for_one)"

text \<open>The total fee, whether the output was capped, and the one fee that explains them.\<close>

definition slipstream_totals :: "slipstream_walk \<Rightarrow> decoded_swap \<Rightarrow> bool \<Rightarrow> (u256 \<times> bool \<times> u32) result" where
  "slipstream_totals wk swap zero_for_one =
    (let segments = slw_segments wk;
         actual_input = swap_actual_input swap zero_for_one;
         actual_output = swap_actual_output swap zero_for_one
     in rbind (checked_sum (map seg_amount_in segments)) (\<lambda>principal_input.
        rbind (checked_sum (map seg_amount_out segments)) (\<lambda>derived_output.
        rbind (expect (if segments = [] then None else Some (last segments)) ''validated nonempty path'')
          (\<lambda>last'.
        rbind (output_is_capped (seg_sqrt_start last') (seg_sqrt_end last') (seg_liquidity last')
                 (seg_amount_out last') derived_output actual_output zero_for_one) (\<lambda>capped_output.
        rbind (ok_or (checked_sub actual_input principal_input)
                 (final_mismatch ''signed input principal'' principal_input actual_input)) (\<lambda>total_fee.
        rbind (slipstream_final_budget wk capped_output zero_for_one last') (\<lambda>maximum_final_budget.
        rbind (infer_slipstream_fee segments total_fee maximum_final_budget capped_output) (\<lambda>fee.
        Inr (total_fee, capped_output, fee)))))))))"

definition slipstream_fee_only_step ::
  "slipstream_walk \<Rightarrow> u256 \<Rightarrow> bool \<Rightarrow> u32 \<Rightarrow> bool \<Rightarrow> slipstream_segment list result" where
  "slipstream_fee_only_step wk total_fee capped_output fee zero_for_one =
    (let segments = slw_segments wk
     in if \<not> capped_output \<and> segments \<noteq> [] \<and> seg_reached_boundary (last segments)
        then rbind (rbind (rmap (\<lambda>segment. fee_for_full_step (seg_amount_in segment) fee) segments) checked_sum)
             (\<lambda>full_step_fees.
             case checked_sub total_fee full_step_fees of
               None \<Rightarrow> Inr segments
             | Some residual \<Rightarrow>
                 if residual \<noteq> 0
                 then rbind (valid_final_step_fee (slw_sqrt wk) (slw_sqrt wk) (slw_liquidity wk) 0 residual
                               fee zero_for_one) (\<lambda>valid.
                      Inr (if valid then segments @ [slipstream_still_segment wk] else segments))
                 else Inr segments)
        else Inr segments)"

definition slipstream_step_fee ::
  "u32 \<Rightarrow> bool \<Rightarrow> bool \<Rightarrow> slipstream_segment \<Rightarrow> bool \<Rightarrow> u256 \<Rightarrow> u256 result" where
  "slipstream_step_fee fee capped_output zero_for_one segment is_partial_final remaining_fee =
    (if is_partial_final
     then rbind (if capped_output
                 then rbind (fee_for_full_step (seg_amount_in segment) fee) (\<lambda>full. Inr (remaining_fee \<noteq> full))
                 else Inr False) (\<lambda>capped_mismatch.
          rbind (if capped_mismatch then Inr True
                 else rbind (valid_final_step_fee (seg_sqrt_start segment) (seg_sqrt_end segment)
                        (seg_liquidity segment) (seg_amount_in segment) remaining_fee fee zero_for_one)
                        (\<lambda>valid. Inr (\<not> valid))) (\<lambda>mismatch.
          if mismatch
          then Inl (contradiction ''final-step fee does not match exact-input or exact-output semantics'')
          else Inr remaining_fee))
     else fee_for_full_step (seg_amount_in segment) fee)"

fun slipstream_step_fees ::
  "u32 \<Rightarrow> bool \<Rightarrow> bool \<Rightarrow> slipstream_segment list \<Rightarrow> u256 \<Rightarrow> (u256 list \<times> u256) result" where
  "slipstream_step_fees fee capped_output zero_for_one [] remaining_fee = Inr ([], remaining_fee)"
| "slipstream_step_fees fee capped_output zero_for_one (segment # segments) remaining_fee =
    rbind (slipstream_step_fee fee capped_output zero_for_one segment
             (segments = [] \<and> \<not> seg_reached_boundary segment) remaining_fee) (\<lambda>fee_amount.
    rbind (ok_or (checked_sub remaining_fee fee_amount)
             (contradiction ''fee allocation contradicts event input'')) (\<lambda>remaining_fee.
    rbind (slipstream_step_fees fee capped_output zero_for_one segments remaining_fee)
      (\<lambda>(step_fees, remaining_fee).
    Inr (fee_amount # step_fees, remaining_fee))))"

definition slipstream_allocate ::
  "u32 \<Rightarrow> bool \<Rightarrow> bool \<Rightarrow> slipstream_segment list \<Rightarrow> u256 \<Rightarrow> u256 list result" where
  "slipstream_allocate fee capped_output zero_for_one segments total_fee =
    rbind (slipstream_step_fees fee capped_output zero_for_one segments total_fee)
      (\<lambda>(step_fees, remaining_fee).
    if remaining_fee \<noteq> 0
    then Inl (contradiction ''fee allocation left an unexplained remainder'')
    else Inr step_fees)"

section \<open>Accounting with evidence\<close>

record slipstream_fee_state =
  slf_fee_growth_0 :: u256
  slf_fee_growth_1 :: u256
  slf_gauge_fee :: u256
  slf_reward_growth :: u256
  slf_last_updated :: u32
  slf_rewards_updated :: bool
  slf_reward_reserve :: "u256 option"
  slf_rollover :: "u256 option"
  slf_ticks :: "slipstream_initialized_tick list"
  slf_updates :: "state_update list"

record slipstream_fee_env =
  sle_address :: address
  sle_zero_for_one :: bool
  sle_unstaked_fee :: u32
  sle_now :: observation
  sle_timestamp :: u32
  sle_state :: state_view

definition slipstream_accrue ::
  "slipstream_fee_env \<Rightarrow> slipstream_segment \<Rightarrow> u256 \<Rightarrow> slipstream_fee_state \<Rightarrow> slipstream_fee_state result" where
  "slipstream_accrue env segment fee_amount fs =
    (if seg_liquidity segment \<noteq> 0
     then rbind (slipstream_fee_growth fee_amount (seg_liquidity segment) (seg_staked_liquidity segment)
                   (sle_unstaked_fee env)) (\<lambda>(growth, step_gauge_fee).
          Inr (fs\<lparr>slf_fee_growth_0 := (if sle_zero_for_one env then slf_fee_growth_0 fs + growth else slf_fee_growth_0 fs),
                  slf_fee_growth_1 := (if sle_zero_for_one env then slf_fee_growth_1 fs else slf_fee_growth_1 fs + growth),
                  slf_gauge_fee := (slf_gauge_fee fs + (step_gauge_fee AND WORD_128_MASK)) AND WORD_128_MASK\<rparr>))
     else Inr fs)"

definition slipstream_settle_rewards ::
  "slipstream_fee_env \<Rightarrow> slipstream_segment \<Rightarrow> slipstream_fee_state \<Rightarrow> slipstream_fee_state result" where
  "slipstream_settle_rewards env segment fs =
    (if \<not> slf_rewards_updated fs
     then rbind (update_slipstream_rewards (sle_address env) (slf_reward_growth fs) (seg_staked_liquidity segment)
                   (slf_last_updated fs) (sle_timestamp env) (sle_state env)) (\<lambda>ru.
          Inr (fs\<lparr>slf_reward_growth := ru_reward_growth ru, slf_last_updated := ru_last_updated ru,
                  slf_reward_reserve := ru_reward_reserve ru, slf_rollover := ru_rollover ru,
                  slf_rewards_updated := True\<rparr>))
     else Inr fs)"

definition slipstream_cross_tick ::
  "slipstream_fee_env \<Rightarrow> slipstream_fee_state \<Rightarrow> slipstream_initialized_tick \<Rightarrow> slipstream_initialized_tick" where
  "slipstream_cross_tick env fs it =
    (let w = st_words it
     in it\<lparr>st_words := w[2 := slf_fee_growth_0 fs - w ! 2, 3 := slf_fee_growth_1 fs - w ! 3,
             4 := slf_reward_growth fs - w ! 4,
             5 := cross_tick_word (w ! 5) (obs_tick_cumulative (sle_now env))
                    (obs_seconds_per_liquidity_cumulative_x128 (sle_now env)) (sle_timestamp env)]\<rparr>)"

definition slipstream_fee_step ::
  "slipstream_fee_env \<Rightarrow> slipstream_segment \<Rightarrow> u256 \<Rightarrow> slipstream_fee_state \<Rightarrow> slipstream_fee_state result" where
  "slipstream_fee_step env segment fee_amount fs =
    rbind (slipstream_accrue env segment fee_amount fs) (\<lambda>fs.
    case seg_crossed_tick segment of
      None \<Rightarrow> Inr fs
    | Some i \<Rightarrow>
        rbind (slipstream_settle_rewards env segment fs) (\<lambda>fs.
        if i < length (slf_ticks fs)
        then let it = slipstream_cross_tick env fs (slf_ticks fs ! i)
             in Inr (fs\<lparr>slf_ticks := (slf_ticks fs)[i := it],
                       slf_updates := slf_updates fs
                         @ slot_writes (sle_address env) (drop 2 (st_keys it)) (drop 2 (st_words it))\<rparr>)
        else Inl (Panicked ''index out of bounds'')))"

fun slipstream_fee_loop ::
  "slipstream_fee_env \<Rightarrow> (slipstream_segment \<times> u256) list \<Rightarrow> slipstream_fee_state \<Rightarrow> slipstream_fee_state result" where
  "slipstream_fee_loop env [] fs = Inr fs"
| "slipstream_fee_loop env ((segment, fee_amount) # steps) fs =
    rbind (slipstream_fee_step env segment fee_amount fs) (\<lambda>fs'. slipstream_fee_loop env steps fs')"

definition slipstream_gauge_word :: "bool \<Rightarrow> u256 \<Rightarrow> u256 \<Rightarrow> u256" where
  "slipstream_gauge_word zero_for_one gauge_fees gauge_fee =
    (if zero_for_one
     then let token0 = ((gauge_fees AND WORD_128_MASK) + gauge_fee) AND WORD_128_MASK
          in (gauge_fees AND push_bit 128 WORD_128_MASK) OR token0
     else let token1 = ((drop_bit 128 gauge_fees AND WORD_128_MASK) + gauge_fee) AND WORD_128_MASK
          in (gauge_fees AND WORD_128_MASK) OR push_bit 128 token1)"

section \<open>The transition\<close>

definition slipstream_quote_updates ::
  "address \<Rightarrow> v3_storage_layout \<Rightarrow> decoded_swap \<Rightarrow> slipstream_parent \<Rightarrow> oracle_advance \<Rightarrow> slipstream_walk
    \<Rightarrow> state_update list" where
  "slipstream_quote_updates addr layout swap parent adv wk =
    (case adv of (oracle_index, oracle_cardinality, oracle_write, _) \<Rightarrow>
       [Slot addr (slot0_slot layout)
          (encode_final (slp_slot0 parent) (sw_sqrt_price_x96 swap) (sw_tick swap) oracle_index oracle_cardinality),
        Slot addr SLIPSTREAM_STAKED_LAST_SPACING_SLOT
          ((slp_staked_word parent AND NOT WORD_128_MASK) OR slw_staked wk),
        Slot addr (liquidity_slot layout)
          ((slp_liquidity_word parent AND push_bit 128 WORD_128_MASK) OR slw_liquidity wk)]
       @ (case oracle_write of None \<Rightarrow> [] | Some (slot, value) \<Rightarrow> [Slot addr slot value]))"

definition slipstream_full_updates ::
  "address \<Rightarrow> v3_storage_layout \<Rightarrow> decoded_swap \<Rightarrow> slipstream_parent \<Rightarrow> bool \<Rightarrow> oracle_advance \<Rightarrow> slipstream_walk
    \<Rightarrow> slipstream_fee_state \<Rightarrow> state_update list" where
  "slipstream_full_updates addr layout swap parent zero_for_one adv wk fs =
    (case adv of (oracle_index, oracle_cardinality, oracle_write, _) \<Rightarrow>
       [Slot addr (slot0_slot layout)
          (encode_final (slp_slot0 parent) (sw_sqrt_price_x96 swap) (sw_tick swap) oracle_index oracle_cardinality),
        Slot addr
          (if zero_for_one then fee_growth_0_slot SLIPSTREAM_SURFACE else fee_growth_1_slot SLIPSTREAM_SURFACE)
          (if zero_for_one then slf_fee_growth_0 fs else slf_fee_growth_1 fs),
        Slot addr SLIPSTREAM_GAUGE_FEES_SLOT
          (slipstream_gauge_word zero_for_one (slp_gauge_fees parent) (slf_gauge_fee fs)),
        Slot addr SLIPSTREAM_STAKED_LAST_SPACING_SLOT
          ((slp_staked_word parent AND NOT (WORD_128_MASK OR push_bit 128 WORD_32_MASK)) OR slw_staked wk
             OR push_bit 128 (ucast (slf_last_updated fs))),
        Slot addr (liquidity_slot layout)
          ((slp_liquidity_word parent AND push_bit 128 WORD_128_MASK) OR slw_liquidity wk)]
       @ (if slf_rewards_updated fs then [Slot addr SLIPSTREAM_REWARD_GROWTH_SLOT (slf_reward_growth fs)] else [])
       @ (case slf_reward_reserve fs of None \<Rightarrow> [] | Some v \<Rightarrow> [Slot addr SLIPSTREAM_REWARD_RESERVE_SLOT v])
       @ (case slf_rollover fs of None \<Rightarrow> [] | Some v \<Rightarrow> [Slot addr SLIPSTREAM_ROLLOVER_SLOT v])
       @ (case oracle_write of None \<Rightarrow> [] | Some (slot, value) \<Rightarrow> [Slot addr slot value])
       @ slf_updates fs)"

text \<open>The accounting of a swap with evidence: the loop's initial state and its run.\<close>

definition slipstream_account ::
  "address \<Rightarrow> slipstream_parent \<Rightarrow> bool \<Rightarrow> u32 \<Rightarrow> observation \<Rightarrow> u32 \<Rightarrow> state_view \<Rightarrow> slipstream_walk
    \<Rightarrow> (slipstream_segment \<times> u256) list \<Rightarrow> slipstream_fee_state result" where
  "slipstream_account addr parent zero_for_one unstaked_fee oracle_now timestamp state wk steps =
    slipstream_fee_loop
      \<lparr>sle_address = addr, sle_zero_for_one = zero_for_one, sle_unstaked_fee = unstaked_fee,
       sle_now = oracle_now, sle_timestamp = timestamp, sle_state = state\<rparr> steps
      \<lparr>slf_fee_growth_0 = slp_fee_growth_0 parent, slf_fee_growth_1 = slp_fee_growth_1 parent, slf_gauge_fee = 0,
       slf_reward_growth = slp_reward_growth parent, slf_last_updated = slp_last_updated parent,
       slf_rewards_updated = False, slf_reward_reserve = None, slf_rollover = None,
       slf_ticks = slw_ticks wk, slf_updates = []\<rparr>"

definition derive_slipstream_swap_inner ::
  "keccak \<Rightarrow> address \<Rightarrow> v3_storage_layout \<Rightarrow> decoded_swap \<Rightarrow> adapter_event_context \<Rightarrow> state_view
    \<Rightarrow> (state_update list \<times> u32) result" where
  "derive_slipstream_swap_inner keccak256 addr layout swap ctx state =
    rbind (validate_reviewed_slipstream_event addr layout ctx) (\<lambda>_.
    rbind (slipstream_evidence addr ctx state) (\<lambda>evidence.
    if SLOT0_SQRT_MASK < sw_sqrt_price_x96 swap \<or> WORD_128_MASK < sw_liquidity swap
    then Inl (MalformedLog ''Slipstream Swap final value exceeds its ABI width'')
    else
    rbind (load_slipstream_parent addr layout (evidence \<noteq> None) state) (\<lambda>parent.
    rbind (swap_direction swap (slp_slot0 parent)) (\<lambda>zero_for_one.
    rbind (slipstream_oracle addr parent swap ctx state) (\<lambda>adv.
    rbind (slipstream_zero_distance_step keccak256 addr layout swap zero_for_one state
             (slipstream_walk_start parent)) (\<lambda>wk.
    rbind (slipstream_walk_loop keccak256 addr layout swap zero_for_one state wk) (\<lambda>wk.
    rbind (slipstream_finish_walk evidence swap (unchanged_tiny_swap swap (slp_slot0 parent) zero_for_one) wk) (\<lambda>wk.
    rbind (slipstream_totals wk swap zero_for_one) (\<lambda>(total_fee, capped_output, fee).
    rbind (slipstream_fee_only_step wk total_fee capped_output fee zero_for_one) (\<lambda>segments.
    rbind (slipstream_allocate fee capped_output zero_for_one segments total_fee) (\<lambda>step_fees.
    if evidence = None then Inr (slipstream_quote_updates addr layout swap parent adv wk, fee)
    else
    rbind (event_timestamp ctx) (\<lambda>timestamp.
    rbind (slipstream_account addr parent zero_for_one (slipstream_unstaked_fee evidence)
             (snd (snd (snd adv))) timestamp state wk (zip segments step_fees)) (\<lambda>fs.
    Inr (slipstream_full_updates addr layout swap parent zero_for_one adv wk fs, fee))))))))))))))"

definition derive_slipstream_swap ::
  "keccak \<Rightarrow> address \<Rightarrow> v3_storage_layout \<Rightarrow> decoded_swap \<Rightarrow> adapter_event_context \<Rightarrow> state_view
    \<Rightarrow> state_update list result" where
  "derive_slipstream_swap keccak256 addr layout swap ctx state =
    (let claimed_fee = map_option fee_effective_swap_fee (ctx_slipstream_fee_evidence ctx)
     in rbind (derive_slipstream_swap_inner keccak256 addr layout swap ctx state) (\<lambda>(updates, inferred_fee).
        if claimed_fee \<noteq> None \<and> claimed_fee \<noteq> Some inferred_fee
        then Inl (fee_evidence_error ''effective swap fee does not match unique event-derived fee'')
        else Inr updates))"

definition infer_slipstream_swap_fee ::
  "keccak \<Rightarrow> address \<Rightarrow> v3_storage_layout \<Rightarrow> decoded_swap \<Rightarrow> adapter_event_context \<Rightarrow> state_view \<Rightarrow> u32 result" where
  "infer_slipstream_swap_fee keccak256 addr layout swap ctx state =
    rbind (derive_slipstream_swap_inner keccak256 addr layout swap ctx state) (\<lambda>(_, fee). Inr fee)"

section \<open>Partial views\<close>

lemma fail_closed_case_triple [fail_closed_intros]:
  "(\<And>x y z. fail_closed (\<lambda>s. f s x y z)) \<Longrightarrow> fail_closed (\<lambda>s. case p of (x, y, z) \<Rightarrow> f s x y z)"
  by (cases p) auto

lemma fail_closed_slipstream_steps [fail_closed_intros]:
  "fail_closed (\<lambda>s. slipstream_evidence addr ctx s)"
  "fail_closed (\<lambda>s. evidence_word e s addr slot)"
  "fail_closed (\<lambda>s. slipstream_oracle addr parent swap ctx s)"
  "fail_closed (\<lambda>s. slipstream_cross_boundary keccak256 addr layout s tick crosses ticks)"
  unfolding slipstream_evidence_def evidence_word_def slipstream_oracle_def slipstream_cross_boundary_def Let_def
  by (intro fail_closed_intros)+

lemma fail_closed_slipstream_walk_steps [fail_closed_intros]:
  "fail_closed (\<lambda>s. slipstream_zero_distance_step keccak256 addr layout swap zfo s wk)"
  "fail_closed (\<lambda>s. slipstream_walk_step keccak256 addr layout swap zfo s wk)"
  "fail_closed (\<lambda>s. load_slipstream_parent addr layout e s)"
  unfolding slipstream_zero_distance_step_def slipstream_walk_step_def load_slipstream_parent_def Let_def
    next_slipstream_step_boundary_eq
  by (intro fail_closed_intros)+

lemma slipstream_walk_loop_warm:
  "view_le s t \<Longrightarrow> slipstream_walk_loop keccak256 addr layout swap zfo s wk = Inr r
    \<Longrightarrow> slipstream_walk_loop keccak256 addr layout swap zfo t wk = Inr r"
proof (induction keccak256 addr layout swap zfo s wk rule: slipstream_walk_loop.induct)
  case (1 keccak256 addr layout swap zfo s wk)
  show ?case
  proof (cases "slw_sqrt wk = sw_sqrt_price_x96 swap")
    case True
    then show ?thesis using 1 by (simp add: slipstream_walk_loop.simps)
  next
    case False
    with "1.prems"(2) obtain wk' where step: "slipstream_walk_step keccak256 addr layout swap zfo s wk = Inr wk'"
      and rest: "slipstream_walk_loop keccak256 addr layout swap zfo s wk' = Inr r"
      by (subst (asm) slipstream_walk_loop.simps) auto
    from fail_closed_slipstream_walk_steps(2) "1.prems"(1) step
    have "slipstream_walk_step keccak256 addr layout swap zfo t wk = Inr wk'" by (rule fail_closedD)
    moreover from "1.IH" [OF False step "1.prems"(1) rest]
    have "slipstream_walk_loop keccak256 addr layout swap zfo t wk' = Inr r" .
    ultimately show ?thesis using False by (subst slipstream_walk_loop.simps) simp
  qed
qed

lemma fail_closed_slipstream_walk_loop [fail_closed_intros]:
  "fail_closed (\<lambda>s. slipstream_walk_loop keccak256 addr layout swap zfo s wk)"
  by (rule fail_closedI) (rule slipstream_walk_loop_warm)

lemma stateless_accounting:
  "slipstream_accrue (env\<lparr>sle_state := s\<rparr>) = slipstream_accrue env"
  "slipstream_cross_tick (env\<lparr>sle_state := s\<rparr>) = slipstream_cross_tick env"
  "sle_address (env\<lparr>sle_state := s\<rparr>) = sle_address env"
  by (intro ext, simp add: slipstream_accrue_def, intro ext, simp add: slipstream_cross_tick_def, simp)

lemma fail_closed_slipstream_settle_rewards [fail_closed_intros]:
  "fail_closed (\<lambda>s. slipstream_settle_rewards (env\<lparr>sle_state := s\<rparr>) segment fs)"
  by (simp add: slipstream_settle_rewards_def fail_closed_intros)

lemma fail_closed_slipstream_fee_loop:
  "fail_closed (\<lambda>s. slipstream_fee_loop (env\<lparr>sle_state := s\<rparr>) steps fs)"
proof (induction steps arbitrary: fs)
  case (Cons step steps)
  have "fail_closed (\<lambda>s. slipstream_fee_step (env\<lparr>sle_state := s\<rparr>) segment fee_amount fs)" for segment fee_amount fs
    unfolding slipstream_fee_step_def stateless_accounting Let_def by (intro fail_closed_intros)
  then show ?case using Cons by (cases step) (auto intro!: fail_closed_intros)
qed simp

lemma fail_closed_slipstream_account [fail_closed_intros]:
  "fail_closed (\<lambda>s. slipstream_account addr parent zfo uf now ts s wk steps)"
  using fail_closed_slipstream_fee_loop [of "\<lparr>sle_address = addr, sle_zero_for_one = zfo, sle_unstaked_fee = uf,
       sle_now = now, sle_timestamp = ts, sle_state = undefined\<rparr>"]
  unfolding slipstream_account_def by simp

lemma fail_closed_slipstream_inner [fail_closed_intros]:
  "fail_closed (\<lambda>s. derive_slipstream_swap_inner keccak256 addr layout swap ctx s)"
  unfolding derive_slipstream_swap_inner_def by (intro fail_closed_intros)

interpretation slipstream_swap: exact_transition "derive_slipstream_swap keccak256 addr layout swap ctx"
  for keccak256 addr layout swap ctx
  unfolding derive_slipstream_swap_def Let_def by unfold_locales (intro fail_closed_intros)

interpretation slipstream_inference: exact_transition "infer_slipstream_swap_fee keccak256 addr layout swap ctx"
  for keccak256 addr layout swap ctx
  unfolding infer_slipstream_swap_fee_def by unfold_locales (intro fail_closed_intros)

end
