(* ===== verification/Slipstream_Facts.thy ===== *)
theory Slipstream_Facts
  imports Slipstream_Swap V3_Swap_Facts
begin

text \<open>
  What a derived Slipstream transition guarantees: a contiguous path on which the staked
  liquidity never exceeds the active one, an effective fee that is the only one explaining the
  event, conservation of the input over principal and step fees, the fields of the packed
  words, and no aborts.
\<close>

section \<open>Parent words\<close>

lemma load_slipstream_parent_okD:
  assumes "load_slipstream_parent addr layout e state = Inr parent"
  shows "\<exists>raw. state addr (slot0_slot layout) = Some raw \<and> slp_slot0 parent = slot0_decode raw \<and> field 232 8 raw = 1"
    "validate_parent_slot0 (slp_slot0 parent) = Inr ()"
    "state addr (liquidity_slot layout) = Some (slp_liquidity_word parent)"
    "slp_liquidity parent = field 0 128 (slp_liquidity_word parent)"
    "state addr 15 = Some (slp_staked_word parent)" "slp_staked parent = field 0 128 (slp_staked_word parent)"
    "slp_staked parent \<le> slp_liquidity parent" "uint (slp_liquidity parent) < 2 ^ 128"
    "slp_last_updated parent = ucast (field 128 32 (slp_staked_word parent))"
    "e \<Longrightarrow> state addr SLIPSTREAM_GAUGE_FEES_SLOT = Some (slp_gauge_fees parent)
       \<and> state addr SLIPSTREAM_REWARD_GROWTH_SLOT = Some (slp_reward_growth parent)
       \<and> state addr (fee_growth_0_slot SLIPSTREAM_SURFACE) = Some (slp_fee_growth_0 parent)
       \<and> state addr (fee_growth_1_slot SLIPSTREAM_SURFACE) = Some (slp_fee_growth_1 parent)"
proof -
  obtain raw where raw: "state addr (slot0_slot layout) = Some raw" "slp_slot0 parent = slot0_decode raw"
    "(ucast (field 232 8 raw) :: u8) = 1"
    using assms
    by (auto simp: load_slipstream_parent_def Let_def slot0_decode_fields ucast_minus_1 drop_and_mask_field split: if_splits)
  have "uint (ucast (field 232 8 raw) :: u8) = uint (field 232 8 raw)"
    using uint_field_less [of 232 8 raw] by (intro uint_ucast_down) simp
  then have "field 232 8 raw = 1" using raw(3) by (simp add: word_uint_eq_iff)
  then show "\<exists>raw. state addr (slot0_slot layout) = Some raw \<and> slp_slot0 parent = slot0_decode raw \<and> field 232 8 raw = 1"
    using raw by blast
  show l: "slp_liquidity parent = field 0 128 (slp_liquidity_word parent)"
    using assms by (auto simp: load_slipstream_parent_def Let_def packed_simps and_mask_field split: if_splits)
  show "uint (slp_liquidity parent) < 2 ^ 128" unfolding l by (rule uint_field_less)
  show "e \<Longrightarrow> state addr SLIPSTREAM_GAUGE_FEES_SLOT = Some (slp_gauge_fees parent)
       \<and> state addr SLIPSTREAM_REWARD_GROWTH_SLOT = Some (slp_reward_growth parent)
       \<and> state addr (fee_growth_0_slot SLIPSTREAM_SURFACE) = Some (slp_fee_growth_0 parent)
       \<and> state addr (fee_growth_1_slot SLIPSTREAM_SURFACE) = Some (slp_fee_growth_1 parent)"
    using assms by (auto simp: load_slipstream_parent_def Let_def evidence_word_def split: if_splits)
qed (use assms in \<open>auto simp: load_slipstream_parent_def Let_def packed_simps and_mask_field drop_and_mask_field not_less
      SLIPSTREAM_STAKED_LAST_SPACING_SLOT_def split: if_splits\<close>)

section \<open>Paths with staked liquidity\<close>

fun slip_path ::
  "bool \<Rightarrow> slipstream_initialized_tick list \<Rightarrow> u256 \<Rightarrow> u256 \<Rightarrow> u256 \<Rightarrow> slipstream_segment list
    \<Rightarrow> u256 \<Rightarrow> u256 \<Rightarrow> u256 \<Rightarrow> bool" where
  "slip_path zfo ticks p l st [] p' l' st' \<longleftrightarrow> p = p' \<and> l = l' \<and> st = st' \<and> st \<le> l"
| "slip_path zfo ticks p l st (s # segs) p' l' st' \<longleftrightarrow>
    seg_sqrt_start s = p \<and> seg_liquidity s = l \<and> seg_staked_liquidity s = st \<and> st \<le> l
    \<and> moves zfo p (seg_sqrt_end s)
    \<and> segment_amounts p (seg_sqrt_end s) l zfo = Inr (seg_amount_in s, seg_amount_out s)
    \<and> (\<exists>l1 st1. slipstream_crossed ticks (seg_crossed_tick s) l st zfo = Inr (l1, st1)
        \<and> slip_path zfo ticks (seg_sqrt_end s) l1 st1 segs p' l' st')"

lemma slip_path_append:
  "slip_path zfo ticks p l st (xs @ ys) p' l' st' \<longleftrightarrow>
    (\<exists>q m n. slip_path zfo ticks p l st xs q m n \<and> slip_path zfo ticks q m n ys p' l' st')"
proof (induction xs arbitrary: p l st)
  case Nil
  show ?case by (cases ys) auto
next
  case (Cons s xs)
  show ?case unfolding append_Cons slip_path.simps Cons.IH by blast
qed

lemma slipstream_crossed_more:
  "slipstream_crossed ticks c l st zfo = Inr r \<Longrightarrow> slipstream_crossed (ticks @ extra) c l st zfo = Inr r"
  by (auto simp: slipstream_crossed_def nth_append split: option.splits if_splits)

lemma slip_path_more_ticks:
  "slip_path zfo ticks p l st segs p' l' st' \<Longrightarrow> slip_path zfo (ticks @ extra) p l st segs p' l' st'"
proof (induction segs arbitrary: p l st)
  case (Cons s segs)
  then show ?case using slipstream_crossed_more by fastforce
qed simp

lemma slip_path_staked:
  "slip_path zfo ticks p l st segs p' l' st' \<Longrightarrow> s \<in> set segs \<Longrightarrow> seg_staked_liquidity s \<le> seg_liquidity s"
  by (induction segs arbitrary: p l st) auto

lemma slip_path_end: "slip_path zfo ticks p l st segs p' l' st' \<Longrightarrow> st' \<le> l'"
  by (induction segs arbitrary: p l st) auto

lemma slipstream_crossed_okD:
  assumes "slipstream_crossed ticks c l st zfo = Inr (l1, st1)" "st \<le> l" "uint l < 2 ^ 128"
  shows "st1 \<le> l1" "uint l1 < 2 ^ 128"
  using assms
  by (auto simp: slipstream_crossed_def validate_slipstream_liquidity_def not_less
      dest: apply_liquidity_net_range split: option.splits if_splits)

lemma slipstream_cross_boundary_okD:
  assumes "slipstream_cross_boundary keccak256 addr layout state tick crosses ticks = Inr (ticks', c)"
  shows "\<exists>extra. ticks' = ticks @ extra" "\<not> crosses \<Longrightarrow> c = None"
  using assms by (auto simp: slipstream_cross_boundary_def split: if_splits)

definition slip_inv :: "decoded_swap \<Rightarrow> bool \<Rightarrow> u256 \<Rightarrow> u256 \<Rightarrow> u256 \<Rightarrow> slipstream_walk \<Rightarrow> bool" where
  "slip_inv swap zfo p l st wk \<longleftrightarrow>
    slip_path zfo (slw_ticks wk) p l st (slw_segments wk) (slw_sqrt wk) (slw_liquidity wk) (slw_staked wk)
    \<and> price_in_tick (slw_sqrt wk) (slw_tick wk) \<and> moves zfo (slw_sqrt wk) (sw_sqrt_price_x96 swap)
    \<and> uint (slw_liquidity wk) < 2 ^ 128 \<and> int (length (slw_segments wk)) = uint (slw_steps wk)
    \<and> uint (slw_steps wk) \<le> 4096"

lemma slipstream_walk_step_inv:
  assumes step: "slipstream_walk_step keccak256 addr layout swap zfo state wk = Inr wk'"
    and inv: "slip_inv swap zfo p l st wk"
    and fin: "validate_final_tick (sw_sqrt_price_x96 swap) (sw_tick swap) zfo = Inr ()"
    and sp: "0 < tick_spacing layout"
  shows "slip_inv swap zfo p l st wk'"
proof -
  define target where "target b = (if zfo then max b (sw_sqrt_price_x96 swap) else min b (sw_sqrt_price_x96 swap))" for b
  obtain steps sb b ai ao ticks c liq stk where s: "consume_step (slw_steps wk) = Inr steps"
    "next_step_boundary keccak256 addr layout (slw_tick wk) zfo state = Inr sb"
    "sqrt_ratio_at_tick (sb_tick sb) = Inr b"
    "segment_amounts (slw_sqrt wk) (target b) (slw_liquidity wk) zfo = Inr (ai, ao)"
    "slipstream_cross_boundary keccak256 addr layout state (sb_tick sb) (target b = b \<and> sb_initialized sb) (slw_ticks wk) = Inr (ticks, c)"
    "(if target b = b then slipstream_crossed ticks c (slw_liquidity wk) (slw_staked wk) zfo
      else Inr (slw_liquidity wk, slw_staked wk)) = Inr (liq, stk)"
    and wk': "wk' = \<lparr>slw_ticks = ticks, slw_segments = slw_segments wk @
        [\<lparr>seg_sqrt_start = slw_sqrt wk, seg_sqrt_end = target b, seg_liquidity = slw_liquidity wk,
          seg_amount_in = ai, seg_amount_out = ao, seg_reached_boundary = (target b = b), seg_crossed_tick = c,
          seg_staked_liquidity = slw_staked wk\<rparr>],
        slw_sqrt = target b,
        slw_tick = (if target b = b then if zfo then sb_tick sb - 1 else sb_tick sb else sw_tick swap),
        slw_liquidity = liq, slw_staked = stk, slw_steps = steps\<rparr>"
    using step unfolding slipstream_walk_step_def Let_def target_def [symmetric] by (auto simp: target_def)
  have inv': "slip_path zfo (slw_ticks wk) p l st (slw_segments wk) (slw_sqrt wk) (slw_liquidity wk) (slw_staked wk)"
    "price_in_tick (slw_sqrt wk) (slw_tick wk)" "moves zfo (slw_sqrt wk) (sw_sqrt_price_x96 swap)"
    "uint (slw_liquidity wk) < 2 ^ 128" "int (length (slw_segments wk)) = uint (slw_steps wk)"
    using inv by (simp_all add: slip_inv_def)
  note target = walk_target [OF s(2) sp s(3) inv'(2,3) fin target_def]
  note staked = slip_path_end [OF inv'(1)]
  have liq: "slipstream_crossed ticks c (slw_liquidity wk) (slw_staked wk) zfo = Inr (liq, stk)"
    using s(6) slipstream_cross_boundary_okD(2) [OF s(5)] by (auto simp: slipstream_crossed_def split: if_splits)
  obtain extra where "ticks = slw_ticks wk @ extra" using slipstream_cross_boundary_okD(1) [OF s(5)] by blast
  then have old: "slip_path zfo ticks p l st (slw_segments wk) (slw_sqrt wk) (slw_liquidity wk) (slw_staked wk)"
    using slip_path_more_ticks inv'(1) by blast
  note new = slipstream_crossed_okD [OF liq staked inv'(4)]
  have path': "slip_path zfo ticks p l st (slw_segments wk') (slw_sqrt wk') (slw_liquidity wk') (slw_staked wk')"
    using old s(4) liq target(1) staked new(1) by (auto simp: wk' slip_path_append)
  have tick: "price_in_tick (target b) (slw_tick wk')" using target(3) by (simp add: wk')
  have "uint steps = uint (slw_steps wk) + 1" "uint steps \<le> 4096" using s(1) by (simp_all add: consume_step_eq_Inr)
  then show ?thesis using path' tick target(2) inv'(5) new(2) by (simp add: slip_inv_def wk')
qed

lemma slipstream_zero_distance_step_inv:
  assumes step: "slipstream_zero_distance_step keccak256 addr layout swap zfo state wk = Inr wk'"
    and inv: "slip_inv swap zfo p l st wk"
    and fin: "validate_final_tick (sw_sqrt_price_x96 swap) (sw_tick swap) zfo = Inr ()"
  shows "slip_inv swap zfo p l st wk'"
proof (cases "wk' = wk")
  case True
  then show ?thesis using inv by simp
next
  case False
  define nxt where "nxt steps sb ticks c liq stk = wk\<lparr>slw_ticks := ticks, slw_segments := slw_segments wk @
      [\<lparr>seg_sqrt_start = slw_sqrt wk, seg_sqrt_end = slw_sqrt wk, seg_liquidity = slw_liquidity wk,
        seg_amount_in = 0, seg_amount_out = 0, seg_reached_boundary = True, seg_crossed_tick = c,
        seg_staked_liquidity = slw_staked wk\<rparr>],
      slw_tick := sb_tick sb - 1, slw_liquidity := liq, slw_staked := stk, slw_steps := steps\<rparr>"
    for steps and sb :: step_boundary and ticks c liq stk
  obtain steps sb ticks c liq stk where z: zfo "slw_sqrt wk = sw_sqrt_price_x96 swap"
    and s: "consume_step (slw_steps wk) = Inr steps"
    "sqrt_ratio_at_tick (sb_tick sb) = Inr (slw_sqrt wk)"
    "slipstream_cross_boundary keccak256 addr layout state (sb_tick sb) (sb_initialized sb) (slw_ticks wk) = Inr (ticks, c)"
    "slipstream_crossed ticks c (slw_liquidity wk) (slw_staked wk) True = Inr (liq, stk)"
    and "wk' = nxt steps sb ticks c liq stk"
    using step False unfolding slipstream_zero_distance_step_def nxt_def [symmetric] by (auto split: if_splits)
  note wk' = this(7) [unfolded nxt_def]
  have inv': "slip_path zfo (slw_ticks wk) p l st (slw_segments wk) (slw_sqrt wk) (slw_liquidity wk) (slw_staked wk)"
    "price_in_tick (slw_sqrt wk) (slw_tick wk)"
    "uint (slw_liquidity wk) < 2 ^ 128" "int (length (slw_segments wk)) = uint (slw_steps wk)"
    using inv by (simp_all add: slip_inv_def)
  obtain extra where "ticks = slw_ticks wk @ extra" using slipstream_cross_boundary_okD(1) [OF s(3)] by blast
  then have old: "slip_path zfo ticks p l st (slw_segments wk) (slw_sqrt wk) (slw_liquidity wk) (slw_staked wk)"
    using slip_path_more_ticks inv'(1) by blast
  have still: "segment_amounts (slw_sqrt wk) (slw_sqrt wk) (slw_liquidity wk) zfo = Inr (0, 0)"
    using price_in_tick_bounds [OF inv'(2)] inv'(3) by (intro segment_amounts_still)
  note staked = slip_path_end [OF inv'(1)]
  note new = slipstream_crossed_okD [OF s(4) staked inv'(3)]
  have path': "slip_path zfo ticks p l st (slw_segments wk') (slw_sqrt wk') (slw_liquidity wk') (slw_staked wk')"
    using old still s(4) z(1) staked new(1) by (auto simp: wk' slip_path_append moves_def)
  have "sb_tick sb \<noteq> - 887272" using s(2) sqrt_ratio_min validate_final_tick_okD(1) [OF fin] z(2) by auto
  then have tick: "price_in_tick (slw_sqrt wk) (sb_tick sb - 1)"
    using price_at_boundary(1) [OF s(2)] sqrt_ratio_at_tick_okD(1) [OF s(2)] by simp
  have "uint steps = uint (slw_steps wk) + 1" "uint steps \<le> 4096" using s(1) by (simp_all add: consume_step_eq_Inr)
  then show ?thesis using path' tick inv'(4) z new(2) by (simp add: slip_inv_def wk' moves_def)
qed

lemma slipstream_walk_loop_inv:
  assumes "slipstream_walk_loop keccak256 addr layout swap zfo state wk = Inr wk'"
    and "slip_inv swap zfo p l st wk"
    and "validate_final_tick (sw_sqrt_price_x96 swap) (sw_tick swap) zfo = Inr ()"
    and "0 < tick_spacing layout"
  shows "slip_inv swap zfo p l st wk' \<and> slw_sqrt wk' = sw_sqrt_price_x96 swap"
  using assms
proof (induction keccak256 addr layout swap zfo state wk rule: slipstream_walk_loop.induct)
  case (1 keccak256 addr layout swap zfo state wk)
  show ?case
  proof (cases "slw_sqrt wk = sw_sqrt_price_x96 swap")
    case True
    then show ?thesis using "1.prems" by (simp add: slipstream_walk_loop.simps)
  next
    case False
    with "1.prems"(1) obtain w where step: "slipstream_walk_step keccak256 addr layout swap zfo state wk = Inr w"
      and rest: "slipstream_walk_loop keccak256 addr layout swap zfo state w = Inr wk'"
      by (subst (asm) slipstream_walk_loop.simps) auto
    from step "1.prems"(2,3,4) have "slip_inv swap zfo p l st w" by (rule slipstream_walk_step_inv)
    from "1.IH" [OF False step rest this "1.prems"(3,4)] show ?thesis .
  qed
qed

lemma slipstream_walk_start_inv:
  assumes "load_slipstream_parent addr layout e state = Inr parent" "swap_direction swap (slp_slot0 parent) = Inr zfo"
  shows "slip_inv swap zfo (s0_sqrt_price_x96 (slp_slot0 parent)) (slp_liquidity parent) (slp_staked parent)
    (slipstream_walk_start parent)"
  using load_slipstream_parent_okD(2,7,8) [OF assms(1)] swap_direction_okD(3,4) [OF assms(2)]
    validate_parent_slot0_okD(3,4) [of "slp_slot0 parent"]
  by (auto simp: slip_inv_def slipstream_walk_start_def price_in_tick_def moves_def)

lemma slipstream_finish_walk_okD:
  assumes fin: "slipstream_finish_walk ev swap tiny wk = Inr wk'"
    and inv: "slip_inv swap zfo p l st wk"
    and at: "slw_sqrt wk = sw_sqrt_price_x96 swap"
  shows "slip_path zfo (slw_ticks wk') p l st (slw_segments wk') (slw_sqrt wk') (slw_liquidity wk') (slw_staked wk')"
    "slw_segments wk' \<noteq> []" "length (slw_segments wk') \<le> 4096" "slw_liquidity wk' = sw_liquidity swap"
    "slw_sqrt wk' = sw_sqrt_price_x96 swap" "slw_tick wk' = sw_tick swap"
    "price_in_tick (sw_sqrt_price_x96 swap) (sw_tick swap)" "uint (sw_liquidity swap) < 2 ^ 128"
    "declared_unused ev \<Longrightarrow> s \<in> set (slw_segments wk') \<Longrightarrow> seg_staked_liquidity s = seg_liquidity s"
proof -
  have inv': "slip_path zfo (slw_ticks wk) p l st (slw_segments wk) (slw_sqrt wk) (slw_liquidity wk) (slw_staked wk)"
    "price_in_tick (slw_sqrt wk) (slw_tick wk)" "uint (slw_liquidity wk) < 2 ^ 128"
    "int (length (slw_segments wk)) = uint (slw_steps wk)" "uint (slw_steps wk) \<le> 4096"
    using inv by (simp_all add: slip_inv_def)
  have still: "segment_amounts (slw_sqrt wk) (slw_sqrt wk) (slw_liquidity wk) zfo = Inr (0, 0)"
    using price_in_tick_bounds [OF inv'(2)] inv'(3) by (intro segment_amounts_still)
  have wk': "wk' = wk \<and> slw_segments wk \<noteq> [] \<or> wk' = wk\<lparr>slw_segments := [slipstream_still_segment wk]\<rparr> \<and> slw_segments wk = []"
    and eq: "slw_liquidity wk' = sw_liquidity swap" "slw_tick wk' = sw_tick swap"
    using fin by (auto simp: slipstream_finish_walk_def split: if_splits)
  have same: "slw_ticks wk' = slw_ticks wk" "slw_sqrt wk' = slw_sqrt wk" "slw_liquidity wk' = slw_liquidity wk"
    "slw_tick wk' = slw_tick wk" "slw_staked wk' = slw_staked wk" using wk' by auto
  show "slip_path zfo (slw_ticks wk') p l st (slw_segments wk') (slw_sqrt wk') (slw_liquidity wk') (slw_staked wk')"
  proof (cases "slw_segments wk = []")
    case True
    then show ?thesis using inv'(1) wk' same still
      by (auto simp: slipstream_still_segment_def moves_def slipstream_crossed_def)
  next
    case False
    then show ?thesis using wk' inv'(1) by auto
  qed
  show "length (slw_segments wk') \<le> 4096" "slw_segments wk' \<noteq> []" using wk' inv'(4,5) by auto
  show "slw_liquidity wk' = sw_liquidity swap" "slw_sqrt wk' = sw_sqrt_price_x96 swap" "slw_tick wk' = sw_tick swap"
    "price_in_tick (sw_sqrt_price_x96 swap) (sw_tick swap)" "uint (sw_liquidity swap) < 2 ^ 128"
    using eq same at inv' by simp_all
  show "declared_unused ev \<Longrightarrow> s \<in> set (slw_segments wk') \<Longrightarrow> seg_staked_liquidity s = seg_liquidity s"
    using fin by (auto simp: slipstream_finish_walk_def list_ex_iff split: if_splits)
qed

text \<open>Every crossed tick is read from the parent state.\<close>

definition loaded_slip_ticks ::
  "keccak \<Rightarrow> address \<Rightarrow> v3_storage_layout \<Rightarrow> state_view \<Rightarrow> slipstream_initialized_tick list \<Rightarrow> bool" where
  "loaded_slip_ticks keccak256 addr layout state ticks \<longleftrightarrow>
    (\<forall>it \<in> set ticks. \<exists>t. load_slipstream_initialized_tick keccak256 addr layout t state = Inr it)"

lemma slipstream_cross_boundary_loaded:
  assumes "slipstream_cross_boundary keccak256 addr layout state tick crosses ticks = Inr (ticks', c)"
    "loaded_slip_ticks keccak256 addr layout state ticks"
  shows "loaded_slip_ticks keccak256 addr layout state ticks'"
  using assms by (auto simp: slipstream_cross_boundary_def loaded_slip_ticks_def split: if_splits)

lemma slipstream_walk_step_loaded:
  assumes "slipstream_walk_step keccak256 addr layout swap zfo state wk = Inr wk'"
    "loaded_slip_ticks keccak256 addr layout state (slw_ticks wk)"
  shows "loaded_slip_ticks keccak256 addr layout state (slw_ticks wk')"
  using assms(1) slipstream_cross_boundary_loaded [OF _ assms(2)]
  unfolding slipstream_walk_step_def Let_def by auto

lemma slipstream_zero_distance_step_loaded:
  assumes "slipstream_zero_distance_step keccak256 addr layout swap zfo state wk = Inr wk'"
    "loaded_slip_ticks keccak256 addr layout state (slw_ticks wk)"
  shows "loaded_slip_ticks keccak256 addr layout state (slw_ticks wk')"
  using assms slipstream_cross_boundary_loaded [OF _ assms(2)]
  unfolding slipstream_zero_distance_step_def by (auto split: if_splits)

lemma slipstream_walk_loop_loaded:
  "slipstream_walk_loop keccak256 addr layout swap zfo state wk = Inr wk'
    \<Longrightarrow> loaded_slip_ticks keccak256 addr layout state (slw_ticks wk)
    \<Longrightarrow> loaded_slip_ticks keccak256 addr layout state (slw_ticks wk')"
proof (induction keccak256 addr layout swap zfo state wk rule: slipstream_walk_loop.induct)
  case (1 keccak256 addr layout swap zfo state wk)
  show ?case
  proof (cases "slw_sqrt wk = sw_sqrt_price_x96 swap")
    case True
    then show ?thesis using "1.prems" by (simp add: slipstream_walk_loop.simps)
  next
    case False
    with "1.prems"(1) obtain w where step: "slipstream_walk_step keccak256 addr layout swap zfo state wk = Inr w"
      and rest: "slipstream_walk_loop keccak256 addr layout swap zfo state w = Inr wk'"
      by (subst (asm) slipstream_walk_loop.simps) auto
    from "1.IH" [OF False step rest slipstream_walk_step_loaded [OF step "1.prems"(2)]] show ?thesis .
  qed
qed

lemma slipstream_walk_loaded:
  assumes "slipstream_zero_distance_step keccak256 addr layout swap zfo state (slipstream_walk_start parent) = Inr wk0"
    "slipstream_walk_loop keccak256 addr layout swap zfo state wk0 = Inr wk1"
    "slipstream_finish_walk ev swap tiny wk1 = Inr wk"
  shows "loaded_slip_ticks keccak256 addr layout state (slw_ticks wk)"
proof -
  have "loaded_slip_ticks keccak256 addr layout state (slw_ticks (slipstream_walk_start parent))"
    by (simp add: slipstream_walk_start_def loaded_slip_ticks_def)
  from slipstream_walk_loop_loaded [OF assms(2) slipstream_zero_distance_step_loaded [OF assms(1) this]]
  have "loaded_slip_ticks keccak256 addr layout state (slw_ticks wk1)" .
  moreover have "slw_ticks wk = slw_ticks wk1" using assms(3) by (auto simp: slipstream_finish_walk_def split: if_splits)
  ultimately show ?thesis by simp
qed

section \<open>Totals and step fees\<close>

lemma slipstream_totals_okD:
  assumes "slipstream_totals wk swap zfo = Inr (total_fee, capped, fee)"
  shows "uint (swap_actual_input swap zfo) = (\<Sum>s\<leftarrow>slw_segments wk. uint (seg_amount_in s)) + uint total_fee"
    "uint (swap_actual_output swap zfo) \<le> (\<Sum>s\<leftarrow>slw_segments wk. uint (seg_amount_out s))"
    "\<not> capped \<Longrightarrow> uint (swap_actual_output swap zfo) = (\<Sum>s\<leftarrow>slw_segments wk. uint (seg_amount_out s))"
    "\<exists>b. slipstream_final_budget wk capped zfo (last (slw_segments wk)) = Inr b
      \<and> {f. consistent_fee (slw_segments wk) total_fee b capped f} = {fee}"
    "uint fee \<le> 100000"
    "capped \<Longrightarrow> (\<Sum>s\<leftarrow>slw_segments wk. uint (seg_amount_out s)) - uint (seg_amount_out (last (slw_segments wk)))
      < uint (swap_actual_output swap zfo)"
proof -
  obtain pin dout b where t: "checked_sum (map seg_amount_in (slw_segments wk)) = Inr pin"
    "checked_sum (map seg_amount_out (slw_segments wk)) = Inr dout"
    "output_is_capped (seg_sqrt_start (last (slw_segments wk))) (seg_sqrt_end (last (slw_segments wk)))
       (seg_liquidity (last (slw_segments wk))) (seg_amount_out (last (slw_segments wk))) dout
       (swap_actual_output swap zfo) zfo = Inr capped"
    "checked_sub (swap_actual_input swap zfo) pin = Some total_fee"
    "slipstream_final_budget wk capped zfo (last (slw_segments wk)) = Inr b"
    "infer_slipstream_fee (slw_segments wk) total_fee b capped = Inr fee"
    using assms by (auto simp: slipstream_totals_def Let_def split: if_splits)
  show "uint (swap_actual_input swap zfo) = (\<Sum>s\<leftarrow>slw_segments wk. uint (seg_amount_in s)) + uint total_fee"
    using t(1,4) by (simp add: checked_sum_eq_Inr checked_sub_eq_Some comp_def)
  show out: "uint (swap_actual_output swap zfo) = (\<Sum>s\<leftarrow>slw_segments wk. uint (seg_amount_out s))" if "\<not> capped"
    using t(2) output_is_capped_okD(1) [OF t(3) that] by (simp add: checked_sum_eq_Inr comp_def)
  show "uint (swap_actual_output swap zfo) \<le> (\<Sum>s\<leftarrow>slw_segments wk. uint (seg_amount_out s))"
  proof (cases capped)
    case True
    then show ?thesis using t(2) output_is_capped_okD(2) [OF t(3) True] by (simp add: checked_sum_eq_Inr comp_def)
  qed (use out in simp)
  show "\<exists>b. slipstream_final_budget wk capped zfo (last (slw_segments wk)) = Inr b
      \<and> {f. consistent_fee (slw_segments wk) total_fee b capped f} = {fee}"
    using t(5) infer_slipstream_fee_okD [OF t(6)] by blast
  show "uint fee \<le> 100000" using t(6) by (rule infer_slipstream_fee_range)
  show "capped \<Longrightarrow> (\<Sum>s\<leftarrow>slw_segments wk. uint (seg_amount_out s)) - uint (seg_amount_out (last (slw_segments wk)))
      < uint (swap_actual_output swap zfo)"
    using t(2) output_is_capped_okD(2) [OF t(3)] by (simp add: checked_sum_eq_Inr comp_def)
qed

lemma slipstream_fee_only_step_okD:
  assumes "slipstream_fee_only_step wk total_fee capped fee zfo = Inr segs"
  shows "segs = slw_segments wk \<or> segs = slw_segments wk @ [slipstream_still_segment wk]"
  using assms by (auto simp: slipstream_fee_only_step_def Let_def split: if_splits option.splits)

lemma slipstream_fee_only_step_capped:
  "slipstream_fee_only_step wk total_fee True fee zfo = Inr segs \<Longrightarrow> segs = slw_segments wk"
  by (simp add: slipstream_fee_only_step_def)

lemma slip_path_still:
  assumes "slip_path zfo ticks p l st xs (slw_sqrt wk) (slw_liquidity wk) (slw_staked wk)"
    "slw_sqrt wk \<noteq> 0" "uint (slw_sqrt wk) < 2 ^ 160" "uint (slw_liquidity wk) < 2 ^ 128"
  shows "slip_path zfo ticks p l st (xs @ [slipstream_still_segment wk]) (slw_sqrt wk) (slw_liquidity wk) (slw_staked wk)"
  using assms(1) segment_amounts_still [OF assms(2-4), of zfo] slip_path_end [OF assms(1)]
  by (auto simp: slip_path_append slipstream_still_segment_def moves_def slipstream_crossed_def)

lemma slipstream_step_fees_okD:
  "slipstream_step_fees fee capped zfo segs total_fee = Inr (fees, rem)
    \<Longrightarrow> uint total_fee = (\<Sum>f\<leftarrow>fees. uint f) + uint rem \<and> length fees = length segs
      \<and> (\<forall>i. Suc i < length segs \<or> i < length segs \<and> seg_reached_boundary (segs ! i)
          \<longrightarrow> fee_for_full_step (seg_amount_in (segs ! i)) fee = Inr (fees ! i))"
proof (induction segs arbitrary: total_fee fees)
  case (Cons s segs)
  then obtain f r fs where *: "slipstream_step_fee fee capped zfo s (segs = [] \<and> \<not> seg_reached_boundary s) total_fee = Inr f"
    "checked_sub total_fee f = Some r" "slipstream_step_fees fee capped zfo segs r = Inr (fs, rem)" "fees = f # fs"
    by auto
  have r: "uint total_fee = uint f + uint r" using *(2) by (simp add: checked_sub_eq_Some)
  note ih = Cons.IH [OF *(3)]
  have "fee_for_full_step (seg_amount_in ((s # segs) ! i)) fee = Inr (fees ! i)"
    if "Suc i < length (s # segs) \<or> i < length (s # segs) \<and> seg_reached_boundary ((s # segs) ! i)" for i
  proof (cases i)
    case 0
    then show ?thesis using that *(1,4) by (auto simp: slipstream_step_fee_def)
  next
    case (Suc j)
    then show ?thesis using that ih *(4) by auto
  qed
  then show ?case using r ih *(4) by simp
qed simp

lemma slipstream_allocate_okD:
  assumes "slipstream_allocate fee capped zfo segs total_fee = Inr fees"
  shows "uint total_fee = (\<Sum>f\<leftarrow>fees. uint f)" "length fees = length segs"
    "Suc i < length segs \<Longrightarrow> fee_for_full_step (seg_amount_in (segs ! i)) fee = Inr (fees ! i)"
  using assms slipstream_step_fees_okD [of fee capped zfo segs total_fee fees 0]
  by (auto simp: slipstream_allocate_def split: if_splits)

section \<open>Accounting\<close>

definition step_split :: "u32 \<Rightarrow> slipstream_segment \<times> u256 \<Rightarrow> (u256 \<times> u256) result" where
  "step_split unstaked_fee = (\<lambda>(segment, fee).
    if seg_liquidity segment = 0 then Inr (0, 0)
    else slipstream_fee_growth fee (seg_liquidity segment) (seg_staked_liquidity segment) unstaked_fee)"

lemma slipstream_accrue_okD:
  assumes "slipstream_accrue env s f fs = Inr fs'"
  shows "\<exists>growth gauge. step_split (sle_unstaked_fee env) (s, f) = Inr (growth, gauge)
    \<and> slf_fee_growth_0 fs' = (if sle_zero_for_one env then slf_fee_growth_0 fs + growth else slf_fee_growth_0 fs)
    \<and> slf_fee_growth_1 fs' = (if sle_zero_for_one env then slf_fee_growth_1 fs else slf_fee_growth_1 fs + growth)
    \<and> (uint (slf_gauge_fee fs) < 2 ^ 128 \<longrightarrow>
        uint (slf_gauge_fee fs') = (uint (slf_gauge_fee fs) + uint gauge) mod 2 ^ 128)"
    "slf_updates fs' = slf_updates fs" "slf_ticks fs' = slf_ticks fs"
proof -
  have lane: "uint ((a + (g AND WORD_128_MASK)) AND WORD_128_MASK) = (uint a + uint g) mod 2 ^ 128"
    if "uint a < 2 ^ 128" for a g :: u256
  proof -
    have g: "uint (g AND WORD_128_MASK) = uint g mod 2 ^ 128" by (simp add: packed_simps and_mask_field uint_field)
    then have "uint (g AND WORD_128_MASK) < 2 ^ 128" by simp
    then have "uint (a + (g AND WORD_128_MASK)) = uint a + uint (g AND WORD_128_MASK)"
      using that by (intro uint_add_no_wrap) (simp add: algebra_simps)
    then show ?thesis unfolding WORD_128_MASK_eq and_mask_field [of "a + _"]
      by (simp add: uint_field g [unfolded WORD_128_MASK_eq] mod_add_right_eq)
  qed
  show "\<exists>growth gauge. step_split (sle_unstaked_fee env) (s, f) = Inr (growth, gauge)
    \<and> slf_fee_growth_0 fs' = (if sle_zero_for_one env then slf_fee_growth_0 fs + growth else slf_fee_growth_0 fs)
    \<and> slf_fee_growth_1 fs' = (if sle_zero_for_one env then slf_fee_growth_1 fs else slf_fee_growth_1 fs + growth)
    \<and> (uint (slf_gauge_fee fs) < 2 ^ 128 \<longrightarrow>
        uint (slf_gauge_fee fs') = (uint (slf_gauge_fee fs) + uint gauge) mod 2 ^ 128)"
    using assms by (auto simp: slipstream_accrue_def step_split_def lane split: if_splits)
  show "slf_updates fs' = slf_updates fs" "slf_ticks fs' = slf_ticks fs"
    using assms by (auto simp: slipstream_accrue_def split: if_splits)
qed

lemma slipstream_settle_rewards_okD:
  assumes "slipstream_settle_rewards env s fs = Inr fs'"
  shows "slf_fee_growth_0 fs' = slf_fee_growth_0 fs" "slf_fee_growth_1 fs' = slf_fee_growth_1 fs"
    "slf_gauge_fee fs' = slf_gauge_fee fs" "slf_updates fs' = slf_updates fs" "slf_ticks fs' = slf_ticks fs"
  using assms by (auto simp: slipstream_settle_rewards_def split: if_splits)

lemma slipstream_fee_step_okD:
  assumes "slipstream_fee_step env s f fs = Inr fs'"
  shows "\<exists>m. slipstream_accrue env s f fs = Inr m \<and> slf_fee_growth_0 fs' = slf_fee_growth_0 m
      \<and> slf_fee_growth_1 fs' = slf_fee_growth_1 m \<and> slf_gauge_fee fs' = slf_gauge_fee m"
    "exact_writes_to (sle_address env) (slf_updates fs) \<Longrightarrow> exact_writes_to (sle_address env) (slf_updates fs')"
    "length (slf_ticks fs') = length (slf_ticks fs)"
proof -
  obtain m where m: "slipstream_accrue env s f fs = Inr m" using assms by (auto simp: slipstream_fee_step_def)
  define cross where "cross n i it = n\<lparr>slf_ticks := (slf_ticks n)[i := it],
      slf_updates := slf_updates n @ slot_writes (sle_address env) (drop 2 (st_keys it)) (drop 2 (st_words it))\<rparr>"
    for n :: slipstream_fee_state and i and it :: slipstream_initialized_tick
  have r: "fs' = m \<or> (\<exists>i n it. slipstream_settle_rewards env s m = Inr n \<and> fs' = cross n i it)"
    using assms m unfolding slipstream_fee_step_def Let_def cross_def [symmetric]
    by (auto split: option.splits if_splits) blast
  note a = slipstream_accrue_okD(2,3) [OF m]
  show "\<exists>m. slipstream_accrue env s f fs = Inr m \<and> slf_fee_growth_0 fs' = slf_fee_growth_0 m
      \<and> slf_fee_growth_1 fs' = slf_fee_growth_1 m \<and> slf_gauge_fee fs' = slf_gauge_fee m"
    using m r by (auto simp: cross_def dest: slipstream_settle_rewards_okD(1,2,3))
  show "exact_writes_to (sle_address env) (slf_updates fs) \<Longrightarrow> exact_writes_to (sle_address env) (slf_updates fs')"
    "length (slf_ticks fs') = length (slf_ticks fs)"
    using a r by (auto simp: cross_def dest: slipstream_settle_rewards_okD(4,5))
qed

lemma slipstream_fee_loop_okD:
  "slipstream_fee_loop env steps fs = Inr fs' \<Longrightarrow> uint (slf_gauge_fee fs) < 2 ^ 128
    \<Longrightarrow> \<exists>splits. rmap (step_split (sle_unstaked_fee env)) steps = Inr splits
      \<and> slf_fee_growth_0 fs' = (if sle_zero_for_one env then slf_fee_growth_0 fs + sum_list (map fst splits) else slf_fee_growth_0 fs)
      \<and> slf_fee_growth_1 fs' = (if sle_zero_for_one env then slf_fee_growth_1 fs else slf_fee_growth_1 fs + sum_list (map fst splits))
      \<and> uint (slf_gauge_fee fs') = (uint (slf_gauge_fee fs) + (\<Sum>(_, gauge)\<leftarrow>splits. uint gauge)) mod 2 ^ 128"
proof (induction steps arbitrary: fs)
  case (Cons step steps)
  obtain s f where step: "step = (s, f)" by (cases step)
  from Cons.prems(1) obtain n where n: "slipstream_fee_step env s f fs = Inr n" "slipstream_fee_loop env steps n = Inr fs'"
    by (auto simp: step)
  from slipstream_fee_step_okD(1) [OF n(1)] obtain m where m: "slipstream_accrue env s f fs = Inr m"
    "slf_fee_growth_0 n = slf_fee_growth_0 m" "slf_fee_growth_1 n = slf_fee_growth_1 m" "slf_gauge_fee n = slf_gauge_fee m" by blast
  from slipstream_accrue_okD(1) [OF m(1)] Cons.prems(2) obtain growth gauge where
    g: "step_split (sle_unstaked_fee env) (s, f) = Inr (growth, gauge)"
    "slf_fee_growth_0 m = (if sle_zero_for_one env then slf_fee_growth_0 fs + growth else slf_fee_growth_0 fs)"
    "slf_fee_growth_1 m = (if sle_zero_for_one env then slf_fee_growth_1 fs else slf_fee_growth_1 fs + growth)"
    "uint (slf_gauge_fee m) = (uint (slf_gauge_fee fs) + uint gauge) mod 2 ^ 128" by blast
  have "uint (slf_gauge_fee n) < 2 ^ 128" using g(4) m(4) by simp
  from Cons.IH [OF n(2) this] obtain splits where
    ih: "rmap (step_split (sle_unstaked_fee env)) steps = Inr splits"
    "slf_fee_growth_0 fs' = (if sle_zero_for_one env then slf_fee_growth_0 n + sum_list (map fst splits) else slf_fee_growth_0 n)"
    "slf_fee_growth_1 fs' = (if sle_zero_for_one env then slf_fee_growth_1 n else slf_fee_growth_1 n + sum_list (map fst splits))"
    "uint (slf_gauge_fee fs') = (uint (slf_gauge_fee n) + (\<Sum>(_, gauge)\<leftarrow>splits. uint gauge)) mod 2 ^ 128" by blast
  have "uint (slf_gauge_fee fs') = (uint (slf_gauge_fee fs) + (\<Sum>(_, gauge)\<leftarrow>(growth, gauge) # splits. uint gauge)) mod 2 ^ 128"
    unfolding ih(4) m(4) g(4) by (simp add: mod_simps add.assoc)
  then show ?case
    using g ih m by (intro exI [of _ "(growth, gauge) # splits"]) (auto simp: step add.assoc)
qed simp

lemma slipstream_fee_loop_writes:
  "slipstream_fee_loop env steps fs = Inr fs' \<Longrightarrow> exact_writes_to (sle_address env) (slf_updates fs)
    \<Longrightarrow> exact_writes_to (sle_address env) (slf_updates fs')"
proof (induction steps arbitrary: fs)
  case (Cons step steps)
  then show ?case by (cases step) (auto dest: slipstream_fee_step_okD(2))
qed simp

text \<open>Rewards are settled at the first crossing; the tick writes go to the words of crossed ticks.\<close>

lemma slipstream_fee_step_settles:
  assumes "slipstream_fee_step env s f fs = Inr fs'"
  shows "slf_rewards_updated fs' \<longleftrightarrow> slf_rewards_updated fs \<or> seg_crossed_tick s \<noteq> None"
    "slf_last_updated fs' = (if slf_rewards_updated fs \<or> seg_crossed_tick s = None then slf_last_updated fs
      else sle_timestamp env)"
    "map st_keys (slf_ticks fs') = map st_keys (slf_ticks fs)"
    "\<forall>u \<in> set (slf_updates fs'). u \<in> set (slf_updates fs)
      \<or> (\<exists>ks k v. ks \<in> set (map st_keys (slf_ticks fs)) \<and> k \<in> set ks \<and> u = Slot (sle_address env) k v)"
proof -
  obtain m where m: "slipstream_accrue env s f fs = Inr m" using assms by (auto simp: slipstream_fee_step_def)
  have acc: "slf_rewards_updated m = slf_rewards_updated fs" "slf_last_updated m = slf_last_updated fs"
    "slf_ticks m = slf_ticks fs" "slf_updates m = slf_updates fs"
    using m by (auto simp: slipstream_accrue_def split: if_splits)
  have "(slf_rewards_updated fs' \<longleftrightarrow> slf_rewards_updated fs \<or> seg_crossed_tick s \<noteq> None)
    \<and> slf_last_updated fs' = (if slf_rewards_updated fs \<or> seg_crossed_tick s = None then slf_last_updated fs
      else sle_timestamp env)
    \<and> map st_keys (slf_ticks fs') = map st_keys (slf_ticks fs)
    \<and> (\<forall>u \<in> set (slf_updates fs'). u \<in> set (slf_updates fs)
      \<or> (\<exists>ks k v. ks \<in> set (map st_keys (slf_ticks fs)) \<and> k \<in> set ks \<and> u = Slot (sle_address env) k v))"
  proof (cases "seg_crossed_tick s")
    case None
    then have "fs' = m" using assms m by (simp add: slipstream_fee_step_def)
    then show ?thesis using acc None by simp
  next
    case (Some i)
    obtain n where n: "slipstream_settle_rewards env s m = Inr n" "i < length (slf_ticks n)"
      and fs': "fs' = n\<lparr>slf_ticks := (slf_ticks n)[i := slipstream_cross_tick env n (slf_ticks n ! i)],
        slf_updates := slf_updates n @ slot_writes (sle_address env) (drop 2 (st_keys (slipstream_cross_tick env n (slf_ticks n ! i))))
          (drop 2 (st_words (slipstream_cross_tick env n (slf_ticks n ! i))))\<rparr>"
      using assms m Some by (auto simp: slipstream_fee_step_def Let_def split: if_splits)
    have set: "slf_rewards_updated n" "slf_last_updated n = (if slf_rewards_updated m then slf_last_updated m else sle_timestamp env)"
      "slf_ticks n = slf_ticks m" "slf_updates n = slf_updates m"
      using n(1) by (auto simp: slipstream_settle_rewards_def update_slipstream_rewards_time split: if_splits)
    define it where "it = slipstream_cross_tick env n (slf_ticks n ! i)"
    have keys: "st_keys (slipstream_cross_tick env n t) = st_keys t" for t by (simp add: slipstream_cross_tick_def Let_def)
    have ks: "map st_keys (slf_ticks fs') = map st_keys (slf_ticks fs)"
      using n(2) by (simp add: fs' map_update keys set acc list_update_same_conv)
    have new: "\<exists>ks k v. ks \<in> set (map st_keys (slf_ticks fs)) \<and> k \<in> set ks \<and> u = Slot (sle_address env) k v"
      if "u \<in> set (slot_writes (sle_address env) (drop 2 (st_keys it)) (drop 2 (st_words it)))" for u
    proof -
      from that obtain k v where u: "u = Slot (sle_address env) k v" "k \<in> set (drop 2 (st_keys it))"
        by (auto simp: slot_writes_def dest: set_zip_leftD)
      have "st_keys it \<in> set (map st_keys (slf_ticks fs))" using n(2) by (simp add: it_def keys set acc)
      with u show ?thesis using in_set_dropD by fast
    qed
    have "\<forall>u \<in> set (slf_updates fs'). u \<in> set (slf_updates fs)
      \<or> (\<exists>ks k v. ks \<in> set (map st_keys (slf_ticks fs)) \<and> k \<in> set ks \<and> u = Slot (sle_address env) k v)"
      using new unfolding fs' it_def [symmetric] by (auto simp: set acc)
    moreover have "slf_rewards_updated fs'" "slf_last_updated fs' = (if slf_rewards_updated fs then slf_last_updated fs else sle_timestamp env)"
      using set(1,2) acc by (simp_all add: fs')
    ultimately show ?thesis using ks Some by simp
  qed
  then show "slf_rewards_updated fs' \<longleftrightarrow> slf_rewards_updated fs \<or> seg_crossed_tick s \<noteq> None"
    "slf_last_updated fs' = (if slf_rewards_updated fs \<or> seg_crossed_tick s = None then slf_last_updated fs
      else sle_timestamp env)"
    "map st_keys (slf_ticks fs') = map st_keys (slf_ticks fs)"
    "\<forall>u \<in> set (slf_updates fs'). u \<in> set (slf_updates fs)
      \<or> (\<exists>ks k v. ks \<in> set (map st_keys (slf_ticks fs)) \<and> k \<in> set ks \<and> u = Slot (sle_address env) k v)"
    by blast+
qed

lemma slipstream_fee_loop_settles:
  "slipstream_fee_loop env steps fs = Inr fs' \<Longrightarrow>
    (slf_rewards_updated fs' \<longleftrightarrow> slf_rewards_updated fs \<or> (\<exists>(s, f) \<in> set steps. seg_crossed_tick s \<noteq> None))
    \<and> slf_last_updated fs' = (if slf_rewards_updated fs \<or> (\<forall>(s, f) \<in> set steps. seg_crossed_tick s = None)
        then slf_last_updated fs else sle_timestamp env)
    \<and> (\<forall>u \<in> set (slf_updates fs'). u \<in> set (slf_updates fs)
      \<or> (\<exists>ks k v. ks \<in> set (map st_keys (slf_ticks fs)) \<and> k \<in> set ks \<and> u = Slot (sle_address env) k v))"
proof (induction steps arbitrary: fs)
  case (Cons step steps)
  obtain s f where step: "step = (s, f)" by (cases step)
  from Cons.prems obtain n where n: "slipstream_fee_step env s f fs = Inr n" "slipstream_fee_loop env steps n = Inr fs'"
    by (auto simp: step)
  note one = slipstream_fee_step_settles [OF n(1)]
  note ih = Cons.IH [OF n(2), unfolded one(3)]
  have "\<forall>u \<in> set (slf_updates fs'). u \<in> set (slf_updates fs)
      \<or> (\<exists>ks k v. ks \<in> set (map st_keys (slf_ticks fs)) \<and> k \<in> set ks \<and> u = Slot (sle_address env) k v)"
    using ih one(4) by blast
  moreover have "slf_rewards_updated fs' \<longleftrightarrow> slf_rewards_updated fs \<or> (\<exists>(s, f) \<in> set (step # steps). seg_crossed_tick s \<noteq> None)"
    using ih one(1) by (auto simp: step)
  moreover have "slf_last_updated fs' = (if slf_rewards_updated fs \<or> (\<forall>(s, f) \<in> set (step # steps). seg_crossed_tick s = None)
        then slf_last_updated fs else sle_timestamp env)"
    using ih one(1,2) by (cases "seg_crossed_tick s") (auto simp: step)
  ultimately show ?case by blast
qed simp

section \<open>The transition\<close>

lemma derive_slipstream_okE:
  assumes "derive_slipstream_swap_inner keccak256 addr layout swap ctx state = Inr (us, fee)"
  obtains ev parent zfo adv wk0 wk1 wk total_fee capped segs fees where
    "validate_reviewed_slipstream_event addr layout ctx = Inr ()" "slipstream_evidence addr ctx state = Inr ev"
    "uint (sw_sqrt_price_x96 swap) < 2 ^ 160"
    "load_slipstream_parent addr layout (ev \<noteq> None) state = Inr parent" "swap_direction swap (slp_slot0 parent) = Inr zfo"
    "slipstream_oracle addr parent swap ctx state = Inr adv"
    "slipstream_zero_distance_step keccak256 addr layout swap zfo state (slipstream_walk_start parent) = Inr wk0"
    "slipstream_walk_loop keccak256 addr layout swap zfo state wk0 = Inr wk1"
    "slipstream_finish_walk ev swap (unchanged_tiny_swap swap (slp_slot0 parent) zfo) wk1 = Inr wk"
    "slipstream_totals wk swap zfo = Inr (total_fee, capped, fee)"
    "slipstream_fee_only_step wk total_fee capped fee zfo = Inr segs"
    "slipstream_allocate fee capped zfo segs total_fee = Inr fees"
    "if ev = None then us = slipstream_quote_updates addr layout swap parent adv wk
     else \<exists>ts fs. event_timestamp ctx = Inr ts
       \<and> slipstream_account addr parent zfo (slipstream_unstaked_fee ev) (snd (snd (snd adv))) ts state wk (zip segs fees) = Inr fs
       \<and> us = slipstream_full_updates addr layout swap parent zfo adv wk fs"
proof -
  have w: "sw_sqrt_price_x96 swap \<le> SLOT0_SQRT_MASK \<longleftrightarrow> uint (sw_sqrt_price_x96 swap) < 2 ^ 160"
    by (rule le_SLOT0_SQRT_MASK_iff)
  show thesis
    using assms that unfolding derive_slipstream_swap_inner_def
    by (auto simp: not_less w split: if_splits)
qed

text \<open>
  What a successful derivation has established about the walk of the swap. \<open>fees\<close> are the fees of
  the steps and \<open>st'\<close> is the staked liquidity that the swap ends with.
\<close>

definition slipstream_witness ::
  "keccak \<Rightarrow> address \<Rightarrow> v3_storage_layout \<Rightarrow> decoded_swap \<Rightarrow> adapter_event_context \<Rightarrow> state_view \<Rightarrow> u32
    \<Rightarrow> slipstream_parent \<Rightarrow> bool \<Rightarrow> slipstream_initialized_tick list \<Rightarrow> slipstream_segment list \<Rightarrow> u256 list
    \<Rightarrow> u256 \<Rightarrow> bool" where
  "slipstream_witness keccak256 addr layout swap ctx state fee parent zfo ticks segs fees st' \<longleftrightarrow>
    load_slipstream_parent addr layout (ctx_slipstream_fee_evidence ctx \<noteq> None) state = Inr parent
    \<and> swap_signs swap = Inr zfo \<and> loaded_slip_ticks keccak256 addr layout state ticks
    \<and> slip_path zfo ticks (s0_sqrt_price_x96 (slp_slot0 parent)) (slp_liquidity parent) (slp_staked parent) segs
        (sw_sqrt_price_x96 swap) (sw_liquidity swap) st'
    \<and> length segs \<le> 4097 \<and> length fees = length segs
    \<and> uint (swap_actual_input swap zfo) = (\<Sum>s\<leftarrow>segs. uint (seg_amount_in s)) + (\<Sum>f\<leftarrow>fees. uint f)
    \<and> uint (swap_actual_output swap zfo) \<le> (\<Sum>s\<leftarrow>segs. uint (seg_amount_out s))
    \<and> (\<Sum>s\<leftarrow>segs. uint (seg_amount_out s)) - uint (seg_amount_out (last segs)) \<le> uint (swap_actual_output swap zfo)
    \<and> (\<forall>i. Suc i < length segs \<longrightarrow> fee_for_full_step (seg_amount_in (segs ! i)) fee = Inr (fees ! i))"

lemma slipstream_evidence_ctx:
  "slipstream_evidence addr ctx state = Inr ev \<Longrightarrow> ev = ctx_slipstream_fee_evidence ctx"
  using validate_slipstream_evidence_okD(1) [of addr ctx state]
  by (auto simp: slipstream_evidence_def split: option.splits)

lemma derive_slipstream_sound:
  assumes "derive_slipstream_swap_inner keccak256 addr layout swap ctx state = Inr (us, fee)"
  shows "\<exists>parent zfo adv wk segs fees.
    slipstream_witness keccak256 addr layout swap ctx state fee parent zfo (slw_ticks wk) segs fees (slw_staked wk)
    \<and> slipstream_oracle addr parent swap ctx state = Inr adv \<and> layout = layout_slipstream 200
    \<and> uint (sw_sqrt_price_x96 swap) < 2 ^ 160 \<and> price_in_tick (sw_sqrt_price_x96 swap) (sw_tick swap)
    \<and> uint (sw_liquidity swap) < 2 ^ 128 \<and> slw_liquidity wk = sw_liquidity swap \<and> slw_staked wk \<le> sw_liquidity swap
    \<and> uint fee \<le> 100000
    \<and> (if ctx_slipstream_fee_evidence ctx = None then us = slipstream_quote_updates addr layout swap parent adv wk
       else \<exists>ts fs. event_timestamp ctx = Inr ts
         \<and> slipstream_account addr parent zfo (slipstream_unstaked_fee (ctx_slipstream_fee_evidence ctx))
             (snd (snd (snd adv))) ts state wk (zip segs fees) = Inr fs
         \<and> us = slipstream_full_updates addr layout swap parent zfo adv wk fs)"
proof -
  from assms obtain ev parent zfo adv wk0 wk1 wk total_fee capped segs fees where d:
    "validate_reviewed_slipstream_event addr layout ctx = Inr ()" "slipstream_evidence addr ctx state = Inr ev"
    "uint (sw_sqrt_price_x96 swap) < 2 ^ 160"
    "load_slipstream_parent addr layout (ev \<noteq> None) state = Inr parent" "swap_direction swap (slp_slot0 parent) = Inr zfo"
    "slipstream_oracle addr parent swap ctx state = Inr adv"
    "slipstream_zero_distance_step keccak256 addr layout swap zfo state (slipstream_walk_start parent) = Inr wk0"
    "slipstream_walk_loop keccak256 addr layout swap zfo state wk0 = Inr wk1"
    "slipstream_finish_walk ev swap (unchanged_tiny_swap swap (slp_slot0 parent) zfo) wk1 = Inr wk"
    "slipstream_totals wk swap zfo = Inr (total_fee, capped, fee)"
    "slipstream_fee_only_step wk total_fee capped fee zfo = Inr segs"
    "slipstream_allocate fee capped zfo segs total_fee = Inr fees"
    "if ev = None then us = slipstream_quote_updates addr layout swap parent adv wk
     else \<exists>ts fs. event_timestamp ctx = Inr ts
       \<and> slipstream_account addr parent zfo (slipstream_unstaked_fee ev) (snd (snd (snd adv))) ts state wk (zip segs fees) = Inr fs
       \<and> us = slipstream_full_updates addr layout swap parent zfo adv wk fs"
    by (rule derive_slipstream_okE)
  note ev = slipstream_evidence_ctx [OF d(2)]
  note layout = validate_reviewed_slipstream_event_okD(2,3) [OF d(1)]
  note fin = swap_direction_okD(2) [OF d(5)]
  have sp: "0 < tick_spacing layout" using layout(2) by simp
  note inv0 = slipstream_zero_distance_step_inv [OF d(7) slipstream_walk_start_inv [OF d(4,5)] fin]
  from slipstream_walk_loop_inv [OF d(8) inv0 fin sp]
  have inv1: "slip_inv swap zfo (s0_sqrt_price_x96 (slp_slot0 parent)) (slp_liquidity parent) (slp_staked parent) wk1"
    and at1: "slw_sqrt wk1 = sw_sqrt_price_x96 swap" by simp_all
  note w = slipstream_finish_walk_okD [OF d(9) inv1 at1]
  have ends: "slw_sqrt wk \<noteq> 0" "uint (slw_sqrt wk) < 2 ^ 160" "uint (slw_liquidity wk) < 2 ^ 128"
    using price_in_tick_bounds(1,2) [OF w(7)] w(4,5,8) by simp_all
  note segs = slipstream_fee_only_step_okD [OF d(11)]
  note tot = slipstream_totals_okD [OF d(10)] and fees = slipstream_allocate_okD [OF d(12)]
  have path: "slip_path zfo (slw_ticks wk) (s0_sqrt_price_x96 (slp_slot0 parent)) (slp_liquidity parent) (slp_staked parent)
      segs (slw_sqrt wk) (slw_liquidity wk) (slw_staked wk)"
    using segs w(1) slip_path_still [OF w(1) ends] by auto
  have sums: "(\<Sum>s\<leftarrow>segs. uint (seg_amount_in s)) = (\<Sum>s\<leftarrow>slw_segments wk. uint (seg_amount_in s))"
    "(\<Sum>s\<leftarrow>segs. uint (seg_amount_out s)) = (\<Sum>s\<leftarrow>slw_segments wk. uint (seg_amount_out s))"
    "length segs \<le> 4097"
    using segs w(3) by (auto simp: slipstream_still_segment_def)
  have low: "(\<Sum>s\<leftarrow>segs. uint (seg_amount_out s)) - uint (seg_amount_out (last segs)) \<le> uint (swap_actual_output swap zfo)"
  proof (cases capped)
    case True
    then have "segs = slw_segments wk" using d(11) slipstream_fee_only_step_capped by simp
    then show ?thesis using tot(6) [OF True] by simp
  qed (use tot(3) sums(2) in simp)
  have witness: "slipstream_witness keccak256 addr layout swap ctx state fee parent zfo (slw_ticks wk) segs fees (slw_staked wk)"
    unfolding slipstream_witness_def
  proof (intro conjI allI impI low)
    show "slip_path zfo (slw_ticks wk) (s0_sqrt_price_x96 (slp_slot0 parent)) (slp_liquidity parent) (slp_staked parent) segs
        (sw_sqrt_price_x96 swap) (sw_liquidity swap) (slw_staked wk)" using path w(4,5) by simp
    show "loaded_slip_ticks keccak256 addr layout state (slw_ticks wk)" using d(7-9) by (rule slipstream_walk_loaded)
  qed (use d(4) ev swap_direction_okD(1) [OF d(5)] sums tot(1,2) fees in simp_all)
  have staked: "slw_staked wk \<le> sw_liquidity swap" using slip_path_end [OF path] w(4) by simp
  show ?thesis
    by (rule exI [of _ parent], rule exI [of _ zfo], rule exI [of _ adv], rule exI [of _ wk],
        rule exI [of _ segs], rule exI [of _ fees])
      (intro conjI witness d(6) layout(1) d(3) w(7,8,4) staked tot(5) d(13) [unfolded ev])
qed

lemma derive_slipstream_swap_okD:
  assumes "derive_slipstream_swap keccak256 addr layout swap ctx state = Inr us"
  shows "\<exists>fee. derive_slipstream_swap_inner keccak256 addr layout swap ctx state = Inr (us, fee)
    \<and> (\<forall>ev. ctx_slipstream_fee_evidence ctx = Some ev \<longrightarrow> fee_effective_swap_fee ev = fee)"
  using assms by (auto simp: derive_slipstream_swap_def Let_def split: if_splits)

section \<open>Packed words\<close>

lemma liquidity_word_fields:
  assumes "uint l < 2 ^ 128"
  shows "field 0 128 ((w AND push_bit 128 WORD_128_MASK) OR l) = l"
    "field 128 128 ((w AND push_bit 128 WORD_128_MASK) OR l) = field 128 128 w"
proof -
  have l: "take_bit 128 l = l" using assms by (rule take_bit_of_small)
  show "field 0 128 ((w AND push_bit 128 WORD_128_MASK) OR l) = l"
    using l by (simp add: WORD_128_MASK_eq field_and_push_mask_other field_low)
  show "field 128 128 ((w AND push_bit 128 WORD_128_MASK) OR l) = field 128 128 w"
    using l by (simp add: WORD_128_MASK_eq field_and_push_mask field_low_above)
qed

lemma staked_word_fields:
  assumes "uint st < 2 ^ 128"
  shows "field 0 128 ((w AND NOT WORD_128_MASK) OR st) = st"
    "128 \<le> off \<Longrightarrow> field off n ((w AND NOT WORD_128_MASK) OR st) = field off n w"
    "field 0 128 ((w AND NOT (WORD_128_MASK OR push_bit 128 WORD_32_MASK)) OR st OR push_bit 128 (ucast (u :: u32))) = st"
    "field 128 32 ((w AND NOT (WORD_128_MASK OR push_bit 128 WORD_32_MASK)) OR st OR push_bit 128 (ucast u)) = ucast u"
    "160 \<le> off \<Longrightarrow>
      field off n ((w AND NOT (WORD_128_MASK OR push_bit 128 WORD_32_MASK)) OR st OR push_bit 128 (ucast u)) = field off n w"
proof -
  have st: "take_bit 128 st = st" using assms by (rule take_bit_of_small)
  have u: "take_bit 32 (ucast u :: u256) = ucast u" by (rule take_bit_ucast_self) simp
  have cleared: "field 0 128 (w AND NOT (mask 128)) = 0"
    "field 0 128 (w AND NOT (mask 128) AND NOT (push_bit 128 (mask 32))) = 0"
    "field 128 32 (w AND NOT (mask 128) AND NOT (push_bit 128 (mask 32))) = 0"
    by (rule bit_word_eqI, auto simp: bit_simps)+
  have kept: "128 \<le> off \<Longrightarrow> field off n (w AND NOT (mask 128)) = field off n w"
    "160 \<le> off \<Longrightarrow> field off n (w AND NOT (mask 128) AND NOT (push_bit 128 (mask 32))) = field off n w" for off n
    by (rule bit_word_eqI, auto simp: bit_simps dest: bit_imp_le_length)+
  show "field 0 128 ((w AND NOT WORD_128_MASK) OR st) = st"
    using st by (simp add: packed_simps cleared field_low)
  show "128 \<le> off \<Longrightarrow> field off n ((w AND NOT WORD_128_MASK) OR st) = field off n w"
    using field_low_above [OF st] by (simp add: packed_simps kept)
  show "field 0 128 ((w AND NOT (WORD_128_MASK OR push_bit 128 WORD_32_MASK)) OR st OR push_bit 128 (ucast u)) = st"
    using st by (simp add: packed_simps cleared field_low field_push_below)
  show "field 128 32 ((w AND NOT (WORD_128_MASK OR push_bit 128 WORD_32_MASK)) OR st OR push_bit 128 (ucast u)) = ucast u"
    using field_low_above [OF st] u by (simp add: packed_simps cleared field_push_same)
  show "160 \<le> off \<Longrightarrow>
      field off n ((w AND NOT (WORD_128_MASK OR push_bit 128 WORD_32_MASK)) OR st OR push_bit 128 (ucast u)) = field off n w"
    using field_low_above [OF st] field_push_above [OF u] by (simp add: packed_simps kept)
qed

lemma gauge_word_lanes:
  "lane0 (slipstream_gauge_word True w g) = (lane0 w + uint g) mod 2 ^ 128"
  "lane1 (slipstream_gauge_word True w g) = lane1 w"
  "lane0 (slipstream_gauge_word False w g) = lane0 w"
  "lane1 (slipstream_gauge_word False w g) = (lane1 w + uint g) mod 2 ^ 128"
proof -
  have sum: "uint (field 0 128 (field k 128 w + g)) = (uint (field k 128 w) + uint g) mod 2 ^ 128" for k
    by (simp add: uint_field uint_word_ariths mod_mod_cancel)
  have t: "take_bit 128 (field k 128 v) = field k 128 v" for k v by simp
  show "lane0 (slipstream_gauge_word True w g) = (lane0 w + uint g) mod 2 ^ 128"
    "lane1 (slipstream_gauge_word True w g) = lane1 w"
    by (simp_all add: slipstream_gauge_word_def Let_def lane0_def lane1_def packed_simps and_mask_field
        field_and_push_mask_other field_and_push_mask field_low [OF t] field_low_above [OF t] sum)
  show "lane0 (slipstream_gauge_word False w g) = lane0 w"
    "lane1 (slipstream_gauge_word False w g) = (lane1 w + uint g) mod 2 ^ 128"
    by (simp_all add: slipstream_gauge_word_def Let_def lane0_def lane1_def packed_simps and_mask_field drop_and_mask_field
        field_push_below field_push_same field_low [OF t] field_low_above [OF t] sum)
qed

section \<open>No aborts\<close>

lemma no_panic_slipstream_steps [no_panic_intros]:
  assumes "price_in_tick (slw_sqrt wk) (slw_tick wk)" "0 < tick_spacing layout"
  shows "no_panic (slipstream_walk_step keccak256 addr layout swap zfo state wk)"
    "no_panic (slipstream_zero_distance_step keccak256 addr layout swap zfo state wk)"
proof -
  have cross: "no_panic (slipstream_cross_boundary keccak256 addr layout state t c ticks)" for t c ticks
    unfolding slipstream_cross_boundary_def by (intro no_panic_intros)
  have crossed: "no_panic (slipstream_crossed ticks' i l st z)"
    if "slipstream_cross_boundary keccak256 addr layout state t c ticks = Inr (ticks', i)" for t c ticks ticks' i l st z
    using that by (auto simp: slipstream_cross_boundary_def slipstream_crossed_def split: if_splits intro!: no_panic_intros)
  show "no_panic (slipstream_walk_step keccak256 addr layout swap zfo state wk)"
    "no_panic (slipstream_zero_distance_step keccak256 addr layout swap zfo state wk)"
    using price_in_tick_bounds(3,4) [OF assms(1)] assms(2)
    unfolding slipstream_walk_step_def slipstream_zero_distance_step_def Let_def next_slipstream_step_boundary_eq
    by (intro no_panic_intros cross; auto intro: crossed)+
qed

lemma no_panic_slipstream_walk_loop:
  assumes "slip_inv swap zfo p l st wk"
    and "validate_final_tick (sw_sqrt_price_x96 swap) (sw_tick swap) zfo = Inr ()"
    and "0 < tick_spacing layout"
  shows "no_panic (slipstream_walk_loop keccak256 addr layout swap zfo state wk)"
  using assms
proof (induction keccak256 addr layout swap zfo state wk rule: slipstream_walk_loop.induct)
  case (1 keccak256 addr layout swap zfo state wk)
  show ?case
  proof (subst slipstream_walk_loop.simps, intro no_panic_intros)
    show "price_in_tick (slw_sqrt wk) (slw_tick wk)" using "1.prems"(1) by (simp add: slip_inv_def)
    show "0 < tick_spacing layout" by fact
  next
    fix w
    assume ne: "slw_sqrt wk \<noteq> sw_sqrt_price_x96 swap"
      and step: "slipstream_walk_step keccak256 addr layout swap zfo state wk = Inr w"
    from step "1.prems" have "slip_inv swap zfo p l st w" by (rule slipstream_walk_step_inv)
    from "1.IH" [OF ne step this "1.prems"(2,3)]
    show "no_panic (slipstream_walk_loop keccak256 addr layout swap zfo state w)" .
  qed
qed

definition slip_crossed_in_range :: "slipstream_segment list \<Rightarrow> nat \<Rightarrow> bool" where
  "slip_crossed_in_range segs n \<longleftrightarrow> (\<forall>s \<in> set segs. \<forall>i. seg_crossed_tick s = Some i \<longrightarrow> i < n)"

lemma slip_path_crossed_in_range:
  "slip_path zfo ticks p l st segs p' l' st' \<Longrightarrow> slip_crossed_in_range segs (length ticks)"
proof (induction segs arbitrary: p l st)
  case (Cons s segs)
  then obtain l1 st1 where "slipstream_crossed ticks (seg_crossed_tick s) l st zfo = Inr (l1, st1)"
    "slip_crossed_in_range segs (length ticks)" by auto
  then show ?case by (auto simp: slip_crossed_in_range_def slipstream_crossed_def split: if_splits)
qed (simp add: slip_crossed_in_range_def)

lemma no_panic_slipstream_fee_loop:
  "(\<And>s f i. (s, f) \<in> set steps \<Longrightarrow> seg_crossed_tick s = Some i \<Longrightarrow> i < length (slf_ticks fs))
    \<Longrightarrow> no_panic (slipstream_fee_loop env steps fs)"
proof (induction steps arbitrary: fs)
  case (Cons step steps)
  obtain s f where step: "step = (s, f)" by (cases step)
  have accrue: "no_panic (slipstream_accrue env s f fs)" "no_panic (slipstream_settle_rewards env s fs)" for fs
    unfolding slipstream_accrue_def slipstream_settle_rewards_def by (intro no_panic_intros; simp)+
  have "no_panic (slipstream_fee_step env s f fs)"
    unfolding slipstream_fee_step_def Let_def
    using Cons.prems [of s f] accrue slipstream_accrue_okD(3) slipstream_settle_rewards_okD(5)
    by (auto intro!: no_panic_rbind split: option.split simp: step)
  moreover have "no_panic (slipstream_fee_loop env steps n)" if "slipstream_fee_step env s f fs = Inr n" for n
    using Cons.prems slipstream_fee_step_okD(3) [OF that] by (intro Cons.IH) auto
  ultimately show ?case by (auto simp: step intro!: no_panic_rbind)
qed simp

lemma no_panic_slipstream_ends [no_panic_intros]:
  "no_panic (slipstream_finish_walk ev swap tiny wk)"
  "slw_segments wk \<noteq> [] \<Longrightarrow> no_panic (slipstream_totals wk swap zfo)"
  "uint fee \<le> 1000000 \<Longrightarrow> no_panic (slipstream_fee_only_step wk total_fee capped fee zfo)"
  unfolding slipstream_finish_walk_def slipstream_totals_def slipstream_fee_only_step_def slipstream_final_budget_def
    Let_def fee_evidence_error_def
  by (intro no_panic_intros; simp)+

lemma no_panic_slipstream_allocate [no_panic_intros]:
  assumes "uint fee \<le> 1000000"
  shows "no_panic (slipstream_allocate fee capped zfo segs total_fee)"
proof -
  have "no_panic (slipstream_step_fee fee capped zfo s b rem)" for s b rem
    unfolding slipstream_step_fee_def using assms by (intro no_panic_intros; simp)
  then have "no_panic (slipstream_step_fees fee capped zfo segs rem)" for rem
    by (induction segs arbitrary: rem) (auto intro!: no_panic_intros)
  then show ?thesis unfolding slipstream_allocate_def by (intro no_panic_intros)
qed

lemma no_panic_slipstream_start [no_panic_intros]:
  "no_panic (slipstream_evidence addr ctx state)" "no_panic (load_slipstream_parent addr layout e state)"
  "validate_context ctx = Inr u \<Longrightarrow> no_panic (slipstream_oracle addr parent swap ctx state)"
  unfolding slipstream_evidence_def load_slipstream_parent_def slipstream_oracle_def evidence_word_def Let_def
    fee_evidence_error_def
  by (intro no_panic_intros; simp)+

lemma no_panic_derive_slipstream:
  "no_panic (derive_slipstream_swap_inner keccak256 addr layout swap ctx state)"
  unfolding derive_slipstream_swap_inner_def
proof (intro no_panic_rbind no_panic_prod no_panic_Inr no_panic_if no_panic_slipstream_checks(1) no_panic_slipstream_start(1,2)
    no_panic_swap_checks(3) no_panic_errors)
  fix u and ev :: "slipstream_swap_fee_evidence option" and parent zfo
  assume c: "validate_reviewed_slipstream_event addr layout ctx = Inr u"
    "load_slipstream_parent addr layout (ev \<noteq> None) state = Inr parent" "swap_direction swap (slp_slot0 parent) = Inr zfo"
  have sp: "0 < tick_spacing layout" using validate_reviewed_slipstream_event_okD(3) [OF c(1)] by simp
  note ctx = validate_reviewed_slipstream_event_okD(1) [OF c(1)] and fin = swap_direction_okD(2) [OF c(3)]
  note start = slipstream_walk_start_inv [OF c(2,3)]
  show "no_panic (slipstream_oracle addr parent swap ctx state)" using ctx by (rule no_panic_slipstream_start)
  show "no_panic (event_timestamp ctx)" using ctx by (rule no_panic_event_timestamp)
  show "no_panic (slipstream_zero_distance_step keccak256 addr layout swap zfo state (slipstream_walk_start parent))"
    using start sp by (intro no_panic_slipstream_steps) (simp_all add: slip_inv_def)
  fix wk0
  assume z: "slipstream_zero_distance_step keccak256 addr layout swap zfo state (slipstream_walk_start parent) = Inr wk0"
  note inv0 = slipstream_zero_distance_step_inv [OF z start fin]
  show "no_panic (slipstream_walk_loop keccak256 addr layout swap zfo state wk0)"
    using inv0 fin sp by (rule no_panic_slipstream_walk_loop)
  fix wk1 wk
  assume l: "slipstream_walk_loop keccak256 addr layout swap zfo state wk0 = Inr wk1"
  show "no_panic (slipstream_finish_walk ev swap (unchanged_tiny_swap swap (slp_slot0 parent) zfo) wk1)"
    by (rule no_panic_slipstream_ends)
  assume f: "slipstream_finish_walk ev swap (unchanged_tiny_swap swap (slp_slot0 parent) zfo) wk1 = Inr wk"
  from slipstream_walk_loop_inv [OF l inv0 fin sp]
  have inv1: "slip_inv swap zfo (s0_sqrt_price_x96 (slp_slot0 parent)) (slp_liquidity parent) (slp_staked parent) wk1"
    and at1: "slw_sqrt wk1 = sw_sqrt_price_x96 swap" by simp_all
  note w = slipstream_finish_walk_okD [OF f inv1 at1]
  show "no_panic (slipstream_totals wk swap zfo)" using w(2) by (rule no_panic_slipstream_ends)
  fix tot total_fee cf capped fee segs fees ts adv
  assume t: "slipstream_totals wk swap zfo = Inr tot" "tot = (total_fee, cf)" "cf = (capped, fee)"
  have fee: "uint fee \<le> 1000000" using slipstream_totals_okD(5) [of wk swap zfo total_fee capped fee] t by simp
  show "no_panic (slipstream_fee_only_step wk total_fee capped fee zfo)" using fee by (rule no_panic_slipstream_ends)
  assume s: "slipstream_fee_only_step wk total_fee capped fee zfo = Inr segs"
  show "no_panic (slipstream_allocate fee capped zfo segs total_fee)" using fee by (rule no_panic_slipstream_allocate)
  have "slip_crossed_in_range segs (length (slw_ticks wk))"
    using slipstream_fee_only_step_okD [OF s] slip_path_crossed_in_range [OF w(1)]
    by (auto simp: slip_crossed_in_range_def slipstream_still_segment_def)
  then show "no_panic (slipstream_account addr parent zfo (slipstream_unstaked_fee ev) (snd (snd (snd adv))) ts state wk (zip segs fees))"
    unfolding slipstream_account_def slip_crossed_in_range_def
    by (intro no_panic_slipstream_fee_loop) (auto dest: set_zip_leftD)
qed

section \<open>The update batch\<close>

text \<open>
  The words a later quote depends on are the same with and without evidence: the new price,
  tick and observation position, the active liquidity and the staked liquidity, with every
  other field of their words kept.
\<close>

lemma slipstream_slots:
  "slot0_slot (layout_slipstream n) = 6" "liquidity_slot (layout_slipstream n) = 16"
  "fee_growth_0_slot SLIPSTREAM_SURFACE = 7" "fee_growth_1_slot SLIPSTREAM_SURFACE = 8"
  "SLIPSTREAM_STAKED_LAST_SPACING_SLOT = 15" "SLIPSTREAM_GAUGE_FEES_SLOT = 10" "SLIPSTREAM_REWARD_GROWTH_SLOT = 9"
  "SLIPSTREAM_REWARD_RESERVE_SLOT = 12" "SLIPSTREAM_ROLLOVER_SLOT = 14" "SLIPSTREAM_REWARD_RATE_SLOT = 11"
  by (simp_all add: SLIPSTREAM_SURFACE_def from_limbs_def SLIPSTREAM_STAKED_LAST_SPACING_SLOT_def
      SLIPSTREAM_GAUGE_FEES_SLOT_def SLIPSTREAM_REWARD_GROWTH_SLOT_def SLIPSTREAM_REWARD_RESERVE_SLOT_def
      SLIPSTREAM_ROLLOVER_SLOT_def SLIPSTREAM_REWARD_RATE_SLOT_def)

text \<open>The timestamp in the staked word moves to the event's exactly when evidence settles a crossing.\<close>

lemma slipstream_account_settles:
  assumes "slipstream_account addr parent zfo uf now ts state wk (zip segs fees) = Inr fs" "length fees = length segs"
  shows "slf_last_updated fs = (if \<exists>s \<in> set segs. seg_crossed_tick s \<noteq> None then ts else slp_last_updated parent)"
    "slf_rewards_updated fs \<longleftrightarrow> (\<exists>s \<in> set segs. seg_crossed_tick s \<noteq> None)"
    "\<forall>u \<in> set (slf_updates fs). \<exists>it k v. it \<in> set (slw_ticks wk) \<and> k \<in> set (st_keys it) \<and> u = Slot addr k v"
proof -
  have crossed: "(\<exists>(s, f) \<in> set (zip segs fees). seg_crossed_tick s \<noteq> None) \<longleftrightarrow> (\<exists>s \<in> set segs. seg_crossed_tick s \<noteq> None)"
  proof -
    have "set segs = fst ` set (zip segs fees)" using assms(2) by (metis list.set_map map_fst_zip)
    then show ?thesis by force
  qed
  note run = slipstream_fee_loop_settles [OF assms(1) [unfolded slipstream_account_def]]
  show "slf_last_updated fs = (if \<exists>s \<in> set segs. seg_crossed_tick s \<noteq> None then ts else slp_last_updated parent)"
    "slf_rewards_updated fs \<longleftrightarrow> (\<exists>s \<in> set segs. seg_crossed_tick s \<noteq> None)"
    using run unfolding crossed [symmetric] by (auto split: prod.splits)
  show "\<forall>u \<in> set (slf_updates fs). \<exists>it k v. it \<in> set (slw_ticks wk) \<and> k \<in> set (st_keys it) \<and> u = Slot addr k v"
    using run by fastforce
qed

lemma ucast_field_32: "(ucast (ucast (field 128 32 w) :: u32) :: u256) = field 128 32 w"
proof -
  have "uint (ucast (field 128 32 w) :: u32) = uint (field 128 32 w)"
    using uint_field_less [of 128 32 w] by (intro uint_ucast_down) simp
  then show ?thesis by (simp add: word_uint_eq_iff uint_up_ucast is_up)
qed

lemma derive_slipstream_batch:
  assumes w: "slipstream_witness keccak256 addr layout swap ctx state fee parent zfo (slw_ticks wk) segs fees (slw_staked wk)"
    and layout: "layout = layout_slipstream 200"
    and swap: "uint (sw_sqrt_price_x96 swap) < 2 ^ 160" "price_in_tick (sw_sqrt_price_x96 swap) (sw_tick swap)"
      "uint (sw_liquidity swap) < 2 ^ 128" "slw_liquidity wk = sw_liquidity swap" "slw_staked wk \<le> sw_liquidity swap"
    and us: "if ctx_slipstream_fee_evidence ctx = None
      then us = slipstream_quote_updates addr layout swap parent (index, cardinality, ow, now) wk
      else \<exists>ts fs. event_timestamp ctx = Inr ts
        \<and> slipstream_account addr parent zfo (slipstream_unstaked_fee (ctx_slipstream_fee_evidence ctx))
            now ts state wk (zip segs fees) = Inr fs
        \<and> us = slipstream_full_updates addr layout swap parent zfo (index, cardinality, ow, now) wk fs"
  shows "\<exists>raw lw sw word lword sword.
    state addr 6 = Some raw \<and> state addr 16 = Some lw \<and> state addr 15 = Some sw
    \<and> {Slot addr 6 word, Slot addr 15 sword, Slot addr 16 lword} \<subseteq> set us \<and> exact_writes_to addr us
    \<and> slot0_decode word = (slot0_decode raw)\<lparr>s0_raw := word, s0_sqrt_price_x96 := sw_sqrt_price_x96 swap,
         s0_tick := sw_tick swap, s0_observation_index := index, s0_observation_cardinality := cardinality\<rparr>
    \<and> field 0 128 lword = sw_liquidity swap \<and> field 128 128 lword = field 128 128 lw
    \<and> field 0 128 sword = slw_staked wk \<and> field 160 96 sword = field 160 96 sw
    \<and> (if ctx_slipstream_fee_evidence ctx \<noteq> None \<and> (\<exists>s \<in> set segs. seg_crossed_tick s \<noteq> None)
       then \<exists>ts. event_timestamp ctx = Inr ts \<and> field 128 32 sword = ucast ts
       else field 128 32 sword = field 128 32 sw)"
proof -
  have st: "uint (slw_staked wk) < 2 ^ 128" using swap(3,5) by (simp add: word_le_def)
  have load: "load_slipstream_parent addr layout (ctx_slipstream_fee_evidence ctx \<noteq> None) state = Inr parent"
    and len: "length fees = length segs" using w by (simp_all add: slipstream_witness_def)
  obtain raw where raw: "state addr 6 = Some raw" "slp_slot0 parent = slot0_decode raw"
    using load_slipstream_parent_okD(1) [OF load] layout by (auto simp: slipstream_slots)
  have words: "state addr 16 = Some (slp_liquidity_word parent)" "state addr 15 = Some (slp_staked_word parent)"
    using load_slipstream_parent_okD(3,5) [OF load] layout by (simp_all add: slipstream_slots)
  define word where "word = encode_final (slp_slot0 parent) (sw_sqrt_price_x96 swap) (sw_tick swap) index cardinality"
  define lword where "lword = (slp_liquidity_word parent AND push_bit 128 WORD_128_MASK) OR slw_liquidity wk"
  have tick: "- 887272 \<le> sw_tick swap" "sw_tick swap < 887272" using price_in_tick_bounds(3,4) [OF swap(2)] .
  have dec: "slot0_decode word = (slot0_decode raw)\<lparr>s0_raw := word, s0_sqrt_price_x96 := sw_sqrt_price_x96 swap,
         s0_tick := sw_tick swap, s0_observation_index := index, s0_observation_cardinality := cardinality\<rparr>"
    unfolding word_def raw(2) using swap(1) tick by (intro slot0_roundtrip) simp_all
  have lf: "field 0 128 lword = sw_liquidity swap" "field 128 128 lword = field 128 128 (slp_liquidity_word parent)"
    unfolding lword_def swap(4) using swap(3) by (rule liquidity_word_fields)+
  have "\<exists>sword. {Slot addr 6 word, Slot addr 15 sword, Slot addr 16 lword} \<subseteq> set us \<and> exact_writes_to addr us
    \<and> field 0 128 sword = slw_staked wk \<and> field 160 96 sword = field 160 96 (slp_staked_word parent)
    \<and> (if ctx_slipstream_fee_evidence ctx \<noteq> None \<and> (\<exists>s \<in> set segs. seg_crossed_tick s \<noteq> None)
       then \<exists>ts. event_timestamp ctx = Inr ts \<and> field 128 32 sword = ucast ts
       else field 128 32 sword = field 128 32 (slp_staked_word parent))"
  proof (cases "ctx_slipstream_fee_evidence ctx = None")
    case True
    then have us: "us = slipstream_quote_updates addr layout swap parent (index, cardinality, ow, now) wk" using us by simp
    show ?thesis
      by (rule exI [of _ "(slp_staked_word parent AND NOT WORD_128_MASK) OR slw_staked wk"])
        (auto simp: us slipstream_quote_updates_def layout slipstream_slots word_def lword_def True
          staked_word_fields(1,2) [OF st] simp del: field_or split: option.splits prod.splits)
  next
    case False
    then obtain ts fs where ts: "event_timestamp ctx = Inr ts" and
      fs: "slipstream_account addr parent zfo (slipstream_unstaked_fee (ctx_slipstream_fee_evidence ctx)) now ts state wk (zip segs fees) = Inr fs"
      and us: "us = slipstream_full_updates addr layout swap parent zfo (index, cardinality, ow, now) wk fs" using us by auto
    have tw: "exact_writes_to addr (slf_updates fs)"
      using slipstream_fee_loop_writes [OF fs [unfolded slipstream_account_def]] by simp
    define sword where "sword = (slp_staked_word parent AND NOT (WORD_128_MASK OR push_bit 128 WORD_32_MASK))
        OR slw_staked wk OR push_bit 128 (ucast (slf_last_updated fs))"
    have sf: "field 0 128 sword = slw_staked wk" "field 160 96 sword = field 160 96 (slp_staked_word parent)"
      "field 128 32 sword = ucast (slf_last_updated fs)"
      unfolding sword_def by (rule staked_word_fields(3) [OF st], rule staked_word_fields(5) [OF st], simp,
        rule staked_word_fields(4) [OF st])
    have time: "if \<exists>s \<in> set segs. seg_crossed_tick s \<noteq> None then field 128 32 sword = ucast ts
        else field 128 32 sword = field 128 32 (slp_staked_word parent)"
      unfolding sf(3) slipstream_account_settles(1) [OF fs len]
      by (simp add: load_slipstream_parent_okD(9) [OF load] ucast_field_32)
    have mem: "{Slot addr 6 word, Slot addr 15 sword, Slot addr 16 lword} \<subseteq> set us" "exact_writes_to addr us"
      unfolding us slipstream_full_updates_def layout sword_def [symmetric]
      using tw by (auto simp: slipstream_slots word_def lword_def split: option.splits prod.splits)
    show ?thesis using mem sf(1,2) time ts False by (intro exI [of _ sword]) simp
  qed
  then obtain sword where sword: "{Slot addr 6 word, Slot addr 15 sword, Slot addr 16 lword} \<subseteq> set us" "exact_writes_to addr us"
    "field 0 128 sword = slw_staked wk" "field 160 96 sword = field 160 96 (slp_staked_word parent)"
    "if ctx_slipstream_fee_evidence ctx \<noteq> None \<and> (\<exists>s \<in> set segs. seg_crossed_tick s \<noteq> None)
       then \<exists>ts. event_timestamp ctx = Inr ts \<and> field 128 32 sword = ucast ts
       else field 128 32 sword = field 128 32 (slp_staked_word parent)" by (elim exE conjE) (rule that; assumption)
  show ?thesis
    by (rule exI [of _ raw], rule exI [of _ "slp_liquidity_word parent"], rule exI [of _ "slp_staked_word parent"],
        rule exI [of _ word], rule exI [of _ lword], rule exI [of _ sword])
      (intro conjI raw(1) words dec lf sword)
qed

section \<open>Evidence only adds\<close>

lemma without_evidence:
  "validate_reviewed_slipstream_event addr layout (ctx\<lparr>ctx_slipstream_fee_evidence := e\<rparr>)
    = validate_reviewed_slipstream_event addr layout ctx"
  "slipstream_oracle addr parent swap (ctx\<lparr>ctx_slipstream_fee_evidence := e\<rparr>) state
    = slipstream_oracle addr parent swap ctx state"
proof -
  have ts: "event_timestamp (ctx\<lparr>ctx_slipstream_fee_evidence := e\<rparr>) = event_timestamp ctx"
    by (simp add: event_timestamp_def)
  show "slipstream_oracle addr parent swap (ctx\<lparr>ctx_slipstream_fee_evidence := e\<rparr>) state
    = slipstream_oracle addr parent swap ctx state"
    unfolding slipstream_oracle_def advance_oracle_def ts ..
qed (simp add: validate_reviewed_slipstream_event_def validate_context_def)

lemma load_without_evidence:
  assumes "load_slipstream_parent addr layout e state = Inr parent"
  shows "load_slipstream_parent addr layout False state = Inr (parent\<lparr>slp_fee_growth_0 := 0, slp_fee_growth_1 := 0,
    slp_reward_growth := 0, slp_gauge_fees := 0\<rparr>)"
  using assms by (auto simp: load_slipstream_parent_def Let_def evidence_word_def split: if_splits)

lemma finish_without_evidence:
  "slipstream_finish_walk ev swap tiny wk = Inr wk' \<Longrightarrow> slipstream_finish_walk None swap tiny wk = Inr wk'"
  by (auto simp: slipstream_finish_walk_def declared_unused_def split: if_splits)

lemma derive_slipstream_evidence_adds:
  assumes "derive_slipstream_swap_inner keccak256 addr layout swap ctx state = Inr (us, fee)"
  shows "\<exists>us' word w15 lword observed.
    derive_slipstream_swap_inner keccak256 addr layout swap (ctx\<lparr>ctx_slipstream_fee_evidence := None\<rparr>) state = Inr (us', fee)
    \<and> us' = [Slot addr 6 word, Slot addr 15 w15, Slot addr 16 lword] @ observed \<and> length observed \<le> 1
    \<and> (if ctx_slipstream_fee_evidence ctx = None then us = us'
       else \<exists>zfo growth gauge w15' rewards ticks. swap_signs swap = Inr zfo
         \<and> us = [Slot addr 6 word, Slot addr (if zfo then 7 else 8) growth, Slot addr 10 gauge, Slot addr 15 w15',
                 Slot addr 16 lword] @ rewards @ observed @ ticks
         \<and> field 0 128 w15 = field 0 128 w15' \<and> field 160 96 w15 = field 160 96 w15'
         \<and> (\<forall>u \<in> set rewards. \<exists>k v. k \<in> {9, 12, 14} \<and> u = Slot addr k v)
         \<and> (\<forall>u \<in> set ticks. \<exists>t it k v. load_slipstream_initialized_tick keccak256 addr layout t state = Inr it
             \<and> k \<in> set (st_keys it) \<and> u = Slot addr k v))"
proof -
  from assms obtain ev parent zfo adv wk0 wk1 wk total_fee capped segs fees where d:
    "validate_reviewed_slipstream_event addr layout ctx = Inr ()" "slipstream_evidence addr ctx state = Inr ev"
    "uint (sw_sqrt_price_x96 swap) < 2 ^ 160"
    "load_slipstream_parent addr layout (ev \<noteq> None) state = Inr parent" "swap_direction swap (slp_slot0 parent) = Inr zfo"
    "slipstream_oracle addr parent swap ctx state = Inr adv"
    "slipstream_zero_distance_step keccak256 addr layout swap zfo state (slipstream_walk_start parent) = Inr wk0"
    "slipstream_walk_loop keccak256 addr layout swap zfo state wk0 = Inr wk1"
    "slipstream_finish_walk ev swap (unchanged_tiny_swap swap (slp_slot0 parent) zfo) wk1 = Inr wk"
    "slipstream_totals wk swap zfo = Inr (total_fee, capped, fee)"
    "slipstream_fee_only_step wk total_fee capped fee zfo = Inr segs"
    "slipstream_allocate fee capped zfo segs total_fee = Inr fees"
    and us: "if ev = None then us = slipstream_quote_updates addr layout swap parent adv wk
     else \<exists>ts fs. event_timestamp ctx = Inr ts
       \<and> slipstream_account addr parent zfo (slipstream_unstaked_fee ev) (snd (snd (snd adv))) ts state wk (zip segs fees) = Inr fs
       \<and> us = slipstream_full_updates addr layout swap parent zfo adv wk fs"
    by (rule derive_slipstream_okE)
  define bare where "bare = parent\<lparr>slp_fee_growth_0 := 0, slp_fee_growth_1 := 0, slp_reward_growth := 0, slp_gauge_fees := 0\<rparr>"
  have bare: "load_slipstream_parent addr layout False state = Inr bare"
    unfolding bare_def using d(4) by (rule load_without_evidence)
  have same: "slp_slot0 bare = slp_slot0 parent" "slp_staked_word bare = slp_staked_word parent"
    "slp_liquidity_word bare = slp_liquidity_word parent" "slipstream_walk_start bare = slipstream_walk_start parent"
    "slipstream_oracle addr bare swap ctx state = slipstream_oracle addr parent swap ctx state"
    by (simp_all add: bare_def slipstream_walk_start_def slipstream_oracle_def Let_def)
  have width: "\<not> (SLOT0_SQRT_MASK < sw_sqrt_price_x96 swap \<or> WORD_128_MASK < sw_liquidity swap)"
    using assms unfolding derive_slipstream_swap_inner_def by (auto split: if_splits)
  have inner: "derive_slipstream_swap_inner keccak256 addr layout swap (ctx\<lparr>ctx_slipstream_fee_evidence := None\<rparr>) state
      = Inr (slipstream_quote_updates addr layout swap parent adv wk, fee)"
    using width d(5,6,7,8,10,11,12) finish_without_evidence [OF d(9)]
    by (simp add: derive_slipstream_swap_inner_def without_evidence d(1) slipstream_evidence_def bare same
        slipstream_quote_updates_def)
  note layout = validate_reviewed_slipstream_event_okD(2,3) [OF d(1)]
  note ev = slipstream_evidence_ctx [OF d(2)]
  obtain index cardinality ow now where adv: "adv = (index, cardinality, ow, now)" by (metis prod_cases4)
  define word where "word = encode_final (slp_slot0 parent) (sw_sqrt_price_x96 swap) (sw_tick swap) index cardinality"
  define lword where "lword = (slp_liquidity_word parent AND push_bit 128 WORD_128_MASK) OR slw_liquidity wk"
  define w15 where "w15 = (slp_staked_word parent AND NOT WORD_128_MASK) OR slw_staked wk"
  define observed where "observed = (case ow of None \<Rightarrow> [] | Some (slot, value) \<Rightarrow> [Slot addr slot value])"
  have quote: "slipstream_quote_updates addr layout swap parent adv wk = [Slot addr 6 word, Slot addr 15 w15, Slot addr 16 lword] @ observed"
    by (simp add: slipstream_quote_updates_def adv layout slipstream_slots word_def lword_def w15_def observed_def)
  have observed: "length observed \<le> 1" by (simp add: observed_def split: option.split)
  have full: "\<exists>zfo growth gauge w15' rewards ticks. swap_signs swap = Inr zfo
      \<and> us = [Slot addr 6 word, Slot addr (if zfo then 7 else 8) growth, Slot addr 10 gauge, Slot addr 15 w15',
              Slot addr 16 lword] @ rewards @ observed @ ticks
      \<and> field 0 128 w15 = field 0 128 w15' \<and> field 160 96 w15 = field 160 96 w15'
      \<and> (\<forall>u \<in> set rewards. \<exists>k v. k \<in> {9, 12, 14} \<and> u = Slot addr k v)
      \<and> (\<forall>u \<in> set ticks. \<exists>t it k v. load_slipstream_initialized_tick keccak256 addr layout t state = Inr it
          \<and> k \<in> set (st_keys it) \<and> u = Slot addr k v)"
    if "ev \<noteq> None"
  proof -
    from that us obtain ts fs where
      fs: "slipstream_account addr parent zfo (slipstream_unstaked_fee ev) (snd (snd (snd adv))) ts state wk (zip segs fees) = Inr fs"
      and us: "us = slipstream_full_updates addr layout swap parent zfo adv wk fs" by auto
    have sp: "0 < tick_spacing layout" using layout(2) by simp
    note fin = swap_direction_okD(2) [OF d(5)]
    have inv1: "slip_inv swap zfo (s0_sqrt_price_x96 (slp_slot0 parent)) (slp_liquidity parent) (slp_staked parent) wk1"
      and at1: "slw_sqrt wk1 = sw_sqrt_price_x96 swap"
      using slipstream_walk_loop_inv [OF d(8) slipstream_zero_distance_step_inv [OF d(7) slipstream_walk_start_inv [OF d(4,5)] fin] fin sp]
      by simp_all
    note w = slipstream_finish_walk_okD [OF d(9) inv1 at1]
    have st: "uint (slw_staked wk) < 2 ^ 128" using slip_path_end [OF w(1)] w(4,8) by (simp add: word_le_def)
    define w15' where "w15' = (slp_staked_word parent AND NOT (WORD_128_MASK OR push_bit 128 WORD_32_MASK)) OR slw_staked wk
        OR push_bit 128 (ucast (slf_last_updated fs))"
    define rewards where "rewards = (if slf_rewards_updated fs then [Slot addr 9 (slf_reward_growth fs)] else [])
       @ (case slf_reward_reserve fs of None \<Rightarrow> [] | Some v \<Rightarrow> [Slot addr 12 v])
       @ (case slf_rollover fs of None \<Rightarrow> [] | Some v \<Rightarrow> [Slot addr 14 v])"
    have f: "field 0 128 w15 = field 0 128 w15'" "field 160 96 w15 = field 160 96 w15'"
      using staked_word_fields(2,5) [OF st, of 160] unfolding w15_def w15'_def staked_word_fields(1,3) [OF st] by (simp_all del: field_or)
    have batch: "us = [Slot addr 6 word, Slot addr (if zfo then 7 else 8) (if zfo then slf_fee_growth_0 fs else slf_fee_growth_1 fs),
        Slot addr 10 (slipstream_gauge_word zfo (slp_gauge_fees parent) (slf_gauge_fee fs)), Slot addr 15 w15',
        Slot addr 16 lword] @ rewards @ observed @ slf_updates fs"
      unfolding us slipstream_full_updates_def adv rewards_def observed_def w15'_def word_def lword_def
      by (simp add: layout slipstream_slots split: option.split)
    have rw: "\<forall>u \<in> set rewards. \<exists>k v. k \<in> {9, 12, 14} \<and> u = Slot addr k v"
      unfolding rewards_def by (auto split: option.splits if_splits)
    have "\<forall>u \<in> set (slf_updates fs). \<exists>t it k v. load_slipstream_initialized_tick keccak256 addr layout t state = Inr it
        \<and> k \<in> set (st_keys it) \<and> u = Slot addr k v"
      using slipstream_account_settles(3) [OF fs slipstream_allocate_okD(2) [OF d(12)]]
        slipstream_walk_loaded [OF d(7,8,9)] unfolding loaded_slip_ticks_def by blast
    with swap_direction_okD(1) [OF d(5)] batch f rw show ?thesis by blast
  qed
  have same_us: "us = slipstream_quote_updates addr layout swap parent adv wk" if "ev = None" using us that by simp
  show ?thesis
    by (rule exI [of _ "slipstream_quote_updates addr layout swap parent adv wk"], rule exI [of _ word],
        rule exI [of _ w15], rule exI [of _ lword], rule exI [of _ observed])
      (use inner quote observed full same_us ev in \<open>intro conjI; cases "ev = None"; simp\<close>)
qed

section \<open>Fees of a swap with evidence\<close>

lemma slipstream_account_okD:
  assumes "slipstream_account addr parent zfo uf now ts state wk steps = Inr fs"
  shows "\<exists>splits. rmap (step_split uf) steps = Inr splits
    \<and> slf_fee_growth_0 fs = (if zfo then slp_fee_growth_0 parent + sum_list (map fst splits) else slp_fee_growth_0 parent)
    \<and> slf_fee_growth_1 fs = (if zfo then slp_fee_growth_1 parent else slp_fee_growth_1 parent + sum_list (map fst splits))
    \<and> uint (slf_gauge_fee fs) = (\<Sum>(_, gauge)\<leftarrow>splits. uint gauge) mod 2 ^ 128"
  using slipstream_fee_loop_okD [OF assms [unfolded slipstream_account_def]] by (cases zfo) simp_all

lemma gauge_word_sum:
  assumes "uint g = s mod 2 ^ 128"
  shows "lane0 (slipstream_gauge_word zfo w g) = (if zfo then (lane0 w + s) mod 2 ^ 128 else lane0 w)"
    "lane1 (slipstream_gauge_word zfo w g) = (if zfo then lane1 w else (lane1 w + s) mod 2 ^ 128)"
  by (cases zfo, simp_all only: gauge_word_lanes assms if_True if_False mod_add_right_eq)+

text \<open>What a fee is split into, in integers.\<close>

lemma step_split_spec:
  assumes "step_split uf (s, f) = Inr (growth, gauge)" "uint uf \<le> 1000000"
  shows "let fee = uint f; l = uint (seg_liquidity s); staked = uint (seg_staked_liquidity s);
        base = ceil_div (fee * staked) l; levy = ceil_div ((fee - base) * uint uf) 1000000
    in if l = 0 then growth = 0 \<and> gauge = 0
       else uint gauge = base + levy
         \<and> (if l = staked then growth = 0 else uint growth = (fee - (base + levy)) * 2 ^ 128 div (l - staked))"
proof (cases "seg_liquidity s = 0")
  case True
  then show ?thesis using assms(1) by (simp add: step_split_def Let_def)
next
  case False
  with assms(1) have "slipstream_fee_growth f (seg_liquidity s) (seg_staked_liquidity s) uf = Inr (growth, gauge)"
    by (simp add: step_split_def)
  note split = slipstream_fee_growth_okD(2,4) [OF this False assms(2)]
  have "uint (seg_liquidity s) \<noteq> 0" using False by (simp add: uint_0_iff)
  moreover have "uint (seg_liquidity s) = uint (seg_staked_liquidity s) \<longleftrightarrow> seg_liquidity s = seg_staked_liquidity s"
    by (simp add: word_uint_eq_iff)
  ultimately show ?thesis using split unfolding gauge_share_def Let_def by (simp split: if_splits)
qed

lemma derive_slipstream_gauge:
  assumes "derive_slipstream_swap_inner keccak256 addr layout swap ctx state = Inr (us, fee)"
    and "ctx_slipstream_fee_evidence ctx = Some ev"
  shows "\<exists>parent zfo ticks segs fees st' growths gauges growth gauge.
    load_slipstream_parent addr layout True state = Inr parent \<and> swap_signs swap = Inr zfo
    \<and> loaded_slip_ticks keccak256 addr layout state ticks
    \<and> slip_path zfo ticks (s0_sqrt_price_x96 (slp_slot0 parent)) (slp_liquidity parent) (slp_staked parent) segs
        (sw_sqrt_price_x96 swap) (sw_liquidity swap) st'
    \<and> length fees = length segs \<and> length growths = length segs \<and> length gauges = length segs
    \<and> (\<forall>i. Suc i < length segs \<longrightarrow> fee_for_full_step (seg_amount_in (segs ! i)) fee = Inr (fees ! i))
    \<and> uint (swap_actual_input swap zfo) = (\<Sum>s\<leftarrow>segs. uint (seg_amount_in s)) + (\<Sum>f\<leftarrow>fees. uint f)
    \<and> (\<forall>i < length segs. let f = uint (fees ! i); l = uint (seg_liquidity (segs ! i)); staked = uint (seg_staked_liquidity (segs ! i));
             base = ceil_div (f * staked) l; levy = ceil_div ((f - base) * uint (fee_effective_unstaked_fee ev)) 1000000
         in if l = 0 then growths ! i = 0 \<and> gauges ! i = 0
            else uint (gauges ! i) = base + levy
              \<and> (if l = staked then growths ! i = 0 else uint (growths ! i) = (f - (base + levy)) * 2 ^ 128 div (l - staked)))
    \<and> {Slot addr (if zfo then 7 else 8) growth, Slot addr 10 gauge} \<subseteq> set us
    \<and> growth = (if zfo then slp_fee_growth_0 parent else slp_fee_growth_1 parent) + sum_list growths
    \<and> lane0 gauge = (if zfo then (lane0 (slp_gauge_fees parent) + (\<Sum>g\<leftarrow>gauges. uint (g :: u256))) mod 2 ^ 128
                     else lane0 (slp_gauge_fees parent))
    \<and> lane1 gauge = (if zfo then lane1 (slp_gauge_fees parent)
                     else (lane1 (slp_gauge_fees parent) + (\<Sum>g\<leftarrow>gauges. uint g)) mod 2 ^ 128)"
proof -
  from derive_slipstream_sound [OF assms(1)] obtain parent zfo adv wk segs fees ts fs where
    w: "slipstream_witness keccak256 addr layout swap ctx state fee parent zfo (slw_ticks wk) segs fees (slw_staked wk)"
    and acc: "slipstream_account addr parent zfo (fee_effective_unstaked_fee ev) (snd (snd (snd adv))) ts state wk
      (zip segs fees) = Inr fs" and us: "us = slipstream_full_updates addr layout swap parent zfo adv wk fs"
    unfolding assms(2) slipstream_unstaked_fee_def option.case if_not_P [OF option.discI [OF refl]] by blast
  have uf: "uint (fee_effective_unstaked_fee ev) \<le> 1000000"
  proof -
    obtain e where "slipstream_evidence addr ctx state = Inr e" using assms(1) by (rule derive_slipstream_okE)
    with assms(2) obtain x where x: "validate_slipstream_evidence addr ctx state = Inr x"
      by (auto simp: slipstream_evidence_def)
    with validate_slipstream_evidence_okD(1) [OF x] validate_slipstream_evidence_okD(9) [OF x] assms(2) show ?thesis by simp
  qed
  from slipstream_account_okD [OF acc] obtain splits where
    s: "rmap (step_split (fee_effective_unstaked_fee ev)) (zip segs fees) = Inr splits"
    "slf_fee_growth_0 fs = (if zfo then slp_fee_growth_0 parent + sum_list (map fst splits) else slp_fee_growth_0 parent)"
    "slf_fee_growth_1 fs = (if zfo then slp_fee_growth_1 parent else slp_fee_growth_1 parent + sum_list (map fst splits))"
    "uint (slf_gauge_fee fs) = (\<Sum>(_, gauge)\<leftarrow>splits. uint gauge) mod 2 ^ 128" by blast
  have wit: "load_slipstream_parent addr layout True state = Inr parent" "swap_signs swap = Inr zfo"
    "loaded_slip_ticks keccak256 addr layout state (slw_ticks wk)"
    "slip_path zfo (slw_ticks wk) (s0_sqrt_price_x96 (slp_slot0 parent)) (slp_liquidity parent) (slp_staked parent) segs
        (sw_sqrt_price_x96 swap) (sw_liquidity swap) (slw_staked wk)"
    "\<forall>i. Suc i < length segs \<longrightarrow> fee_for_full_step (seg_amount_in (segs ! i)) fee = Inr (fees ! i)"
    "uint (swap_actual_input swap zfo) = (\<Sum>s\<leftarrow>segs. uint (seg_amount_in s)) + (\<Sum>f\<leftarrow>fees. uint f)"
    and len: "length fees = length segs"
    using w unfolding slipstream_witness_def assms(2) by simp_all
  then have ls: "length splits = length segs" using rmap_eq_Inr_length [OF s(1)] by simp
  define growths gauges where "growths = map fst splits" and "gauges = map snd splits"
  have sum: "(\<Sum>(_, gauge)\<leftarrow>splits. uint gauge) = (\<Sum>g\<leftarrow>gauges. uint g)"
    unfolding gauges_def by (induction splits) auto
  have each: "\<forall>i < length segs. let f = uint (fees ! i); l = uint (seg_liquidity (segs ! i)); staked = uint (seg_staked_liquidity (segs ! i));
             base = ceil_div (f * staked) l; levy = ceil_div ((f - base) * uint (fee_effective_unstaked_fee ev)) 1000000
         in if l = 0 then growths ! i = 0 \<and> gauges ! i = 0
            else uint (gauges ! i) = base + levy
              \<and> (if l = staked then growths ! i = 0 else uint (growths ! i) = (f - (base + levy)) * 2 ^ 128 div (l - staked))"
  proof (intro allI impI)
    fix i assume i: "i < length segs"
    then have "step_split (fee_effective_unstaked_fee ev) (segs ! i, fees ! i) = Inr (growths ! i, gauges ! i)"
      using rmap_eq_Inr_nth [OF s(1), of i] len ls by (simp add: growths_def gauges_def)
    from step_split_spec [OF this uf]
    show "let f = uint (fees ! i); l = uint (seg_liquidity (segs ! i)); staked = uint (seg_staked_liquidity (segs ! i));
             base = ceil_div (f * staked) l; levy = ceil_div ((f - base) * uint (fee_effective_unstaked_fee ev)) 1000000
         in if l = 0 then growths ! i = 0 \<and> gauges ! i = 0
            else uint (gauges ! i) = base + levy
              \<and> (if l = staked then growths ! i = 0 else uint (growths ! i) = (f - (base + levy)) * 2 ^ 128 div (l - staked))" .
  qed
  define growth where "growth = (if zfo then slf_fee_growth_0 fs else slf_fee_growth_1 fs)"
  define gauge where "gauge = slipstream_gauge_word zfo (slp_gauge_fees parent) (slf_gauge_fee fs)"
  obtain index cardinality ow now where adv: "adv = (index, cardinality, ow, now)" by (metis prod_cases4)
  have mem: "{Slot addr (if zfo then 7 else 8) growth, Slot addr 10 gauge} \<subseteq> set us"
    unfolding us slipstream_full_updates_def adv growth_def gauge_def by (simp add: slipstream_slots)
  have growth: "growth = (if zfo then slp_fee_growth_0 parent else slp_fee_growth_1 parent) + sum_list growths"
    by (simp add: growth_def s(2,3) growths_def)
  note lanes = gauge_word_sum [OF s(4) [unfolded sum], of zfo "slp_gauge_fees parent", folded gauge_def]
  have lengths: "length growths = length segs" "length gauges = length segs" by (simp_all add: growths_def gauges_def ls)
  show ?thesis
    by (rule exI [of _ parent], rule exI [of _ zfo], rule exI [of _ "slw_ticks wk"], rule exI [of _ segs],
        rule exI [of _ fees], rule exI [of _ "slw_staked wk"], rule exI [of _ growths], rule exI [of _ gauges],
        rule exI [of _ growth], rule exI [of _ gauge])
      (intro conjI wit len lengths each mem growth lanes)
qed

end
