(* ===== verification/Example_Slipstream.thy ===== *)
theory Example_Slipstream
  imports Slipstream_Facts Example_Pool
begin

text \<open>
  A concrete Slipstream pool, the reviewed deployment on Base, and a swap on it with fee
  evidence: spacing 200, liquidity 10^18 of which 4 * 10^17 is staked, an effective fee of 3000
  and a levy of 10 percent on unstaked liquidity. The price moves as in the canonical example,
  so that the fee of 3 * 10^11 can only come from the fee 3000.
\<close>

section \<open>The pool, the evidence and the event\<close>

definition slip_pool :: address where "slip_pool = 0xb378137c90444bbcecd44a1f766851fbf53d2a9e"

definition slip_layout :: v3_storage_layout where "slip_layout = layout_slipstream 200"

definition slip_slot0 :: u256 where
  "slip_slot0 = 2 ^ 96 OR push_bit 200 1 OR push_bit 216 1 OR push_bit 232 1"

definition slip_words :: "(u256 \<times> u256) list" where
  "slip_words = [(0, 0x5e7bb104d84c7cb9b682aac2f3d509f5f406809a), (6, slip_slot0), (7, 11), (8, 12), (9, 13),
     (10, 2041694201525630780780247644590609268741),
     (15, 292300327976604134022144661738318915078838825779200),
     (16, 2381976568446569244244622252022377480192), (20, demo_observation), (1000, 0)]"

definition slip_view :: state_view where
  "slip_view a k = (if a = slip_pool then map_of slip_words k else None)"

definition slip_identity :: slipstream_snapshot_identity where
  "slip_identity = \<lparr>snap_chain_id = 8453, snap_block_number = 100, snap_block_hash = 0x11, snap_parent_hash = 0x22,
     snap_block_timestamp = 2000, snap_transaction_hash = 0x33, snap_transaction_index = 3, snap_log_index = 4\<rparr>"

definition slip_evidence :: slipstream_swap_fee_evidence where
  "slip_evidence = \<lparr>fee_runtime_family = AerodromeBaseBifi, fee_chain_id = 8453, fee_pool = slip_pool,
     fee_factory = 0x5e7bb104d84c7cb9b682aac2f3d509f5f406809a,
     fee_proxy_runtime_code_hash = 0xacd6710f7037ad095b1e4d5f8ee5b2681069cb4dd316e77e4e0cb8f85716a2a1,
     fee_implementation = 0xec8e5342b19977b4ef8892e02d8daecfa1315831,
     fee_implementation_runtime_code_hash = 0x772fb5c610b40a122036f544e5b9b5bce6becb19db9524331289d1aaed2d5888,
     fee_effective_swap_fee = 3000, fee_effective_unstaked_fee = 100000,
     fee_unstaked_fee_proof = \<lparr>prf_runtime_family = AerodromeBaseBifi, prf_kind = ReviewedRuntimeEvaluation,
       prf_gauge_alive = Some True, prf_effective_fee = Some 100000, prf_snapshot_identity = Some slip_identity\<rparr>,
     fee_block_number = 100, fee_block_hash = 0x11, fee_parent_hash = 0x22, fee_block_timestamp = 2000,
     fee_transaction_hash = 0x33, fee_transaction_index = 3, fee_log_index = 4\<rparr>"

definition slip_ctx :: adapter_event_context where
  "slip_ctx = with_slipstream_fee_evidence (with_chain_id demo_ctx 8453) slip_evidence"

section \<open>Evaluation\<close>

lemma slip_ctx_eq:
  "slip_ctx = demo_ctx\<lparr>ctx_chain_id := Some 8453, ctx_slipstream_fee_evidence := Some slip_evidence\<rparr>"
  by (simp add: slip_ctx_def with_slipstream_fee_evidence_def with_chain_id_def)

lemma slip_context: "validate_context slip_ctx = Inr ()" "event_timestamp slip_ctx = Inr 2000"
  by (simp_all add: slip_ctx_eq demo_ctx_def with_transaction_hash_def with_event_order_def with_parent_hash_def
      with_chain_id_def for_block_def validate_context_def event_timestamp_def word_eval)

lemma slip_event: "validate_reviewed_slipstream_event slip_pool slip_layout slip_ctx = Inr ()"
  by (simp add: validate_reviewed_slipstream_event_def slip_context slip_layout_def)
     (simp add: slip_ctx_eq slip_pool_def)

lemma slip_view_words:
  "slip_view slip_pool 0 = Some 0x5e7bb104d84c7cb9b682aac2f3d509f5f406809a"
  "slip_view slip_pool 6 = Some slip_slot0" "slip_view slip_pool 7 = Some 11" "slip_view slip_pool 8 = Some 12"
  "slip_view slip_pool 9 = Some 13" "slip_view slip_pool 10 = Some 2041694201525630780780247644590609268741"
  "slip_view slip_pool 15 = Some 292300327976604134022144661738318915078838825779200"
  "slip_view slip_pool 16 = Some 2381976568446569244244622252022377480192"
  "slip_view slip_pool 20 = Some demo_observation" "slip_view slip_pool 1000 = Some 0"
  by (simp_all add: slip_view_def slip_words_def)

lemma slip_evidence_identity: "evidence_identity slip_evidence = slip_identity"
  by (simp add: evidence_identity_def slip_evidence_def slip_identity_def)

lemma slip_evidence_valid: "evidence_validate slip_evidence = Inr ()"
  by (simp add: evidence_validate_def slip_evidence_identity) (simp add: slip_evidence_def slip_pool_def)

lemma slip_evidence_ok: "slipstream_evidence slip_pool slip_ctx slip_view = Inr (Some slip_evidence)"
proof -
  have "validate_slipstream_evidence slip_pool slip_ctx slip_view = Inr slip_evidence"
    by (simp add: validate_slipstream_evidence_def Let_def slip_ctx_eq slip_evidence_valid SLIPSTREAM_FACTORY_SLOT_def
        slip_view_words FEE_DENOMINATOR_def)
      (simp add: slip_evidence_def slip_pool_def demo_ctx_def with_transaction_hash_def with_event_order_def
        with_parent_hash_def with_chain_id_def for_block_def decode_address_slot_def)
  then show ?thesis by (simp add: slipstream_evidence_def slip_ctx_eq)
qed

definition slip_parent :: slipstream_parent where
  "slip_parent = \<lparr>slp_slot0 = \<lparr>s0_raw = slip_slot0, s0_sqrt_price_x96 = 2 ^ 96, s0_tick = 0,
       s0_observation_index = 0, s0_observation_cardinality = 1, s0_observation_cardinality_next = 1,
       s0_fee_protocol = 1\<rparr>,
     slp_liquidity_word = 2381976568446569244244622252022377480192, slp_liquidity = 1000000000000000000,
     slp_staked_word = 292300327976604134022144661738318915078838825779200, slp_staked = 400000000000000000,
     slp_last_updated = 1500, slp_fee_growth_0 = 11, slp_fee_growth_1 = 12, slp_reward_growth = 13,
     slp_gauge_fees = 2041694201525630780780247644590609268741\<rparr>"

lemma slip_slot0_decode: "slot0_decode slip_slot0 = slp_slot0 slip_parent"
  by (simp add: slot0_decode_def slip_slot0_def slip_parent_def as_i32_def signed_from_bits_def Let_def word_eval)

lemma slip_load: "load_slipstream_parent slip_pool slip_layout True slip_view = Inr slip_parent"
proof -
  have slot0: "validate_parent_slot0 (slp_slot0 slip_parent) = Inr ()"
    by (simp add: validate_parent_slot0_def slip_parent_def sqrt_ratio_min sqrt_ratio_max sqrt_ratio_zero demo_prices)
  have "(ucast (drop_bit 232 (s0_raw (slp_slot0 slip_parent)) AND ucast (- 1 :: u8)) :: u8) = 1"
    by (simp add: slip_parent_def slip_slot0_def word_eval)
  then show ?thesis
    by (simp add: load_slipstream_parent_def Let_def slip_layout_def slip_view_words slip_slot0_decode slot0 evidence_word_def
        slipstream_slots)
      (simp add: slip_parent_def as_i32_def signed_from_bits_def Let_def word_eval)
qed

lemma slip_direction: "swap_direction demo_swap (slp_slot0 slip_parent) = Inr False"
  by (simp add: swap_direction_def swap_signs_def unchanged_tiny_swap_def demo_swap_def slip_parent_def
      validate_final_tick_def Let_def sqrt_ratio_min sqrt_ratio_max demo_prices)

lemma slip_oracle:
  "slipstream_oracle slip_pool slip_parent demo_swap slip_ctx slip_view
    = Inr (0, 1, Some (20, 452312848583266388373324265502478808609022575517998145922812786964535707600), demo_now)"
  by (simp add: slipstream_oracle_def advance_oracle_def Let_def slip_context SLIPSTREAM_SURFACE_def from_limbs_def)
     (simp add: slip_parent_def demo_swap_def slip_view_words demo_observation_decode demo_transform demo_encode
       slip_context Let_def)

definition slip_segment :: slipstream_segment where
  "slip_segment = \<lparr>seg_sqrt_start = 2 ^ 96, seg_sqrt_end = 79236061562067009748002026667,
     seg_liquidity = 1000000000000000000, seg_amount_in = 99700000000000, seg_amount_out = 99690060900928,
     seg_reached_boundary = False, seg_crossed_tick = None, seg_staked_liquidity = 400000000000000000\<rparr>"

definition slip_walk :: slipstream_walk where
  "slip_walk = \<lparr>slw_ticks = [], slw_segments = [slip_segment], slw_sqrt = 79236061562067009748002026667,
     slw_tick = 1, slw_liquidity = 1000000000000000000, slw_staked = 400000000000000000, slw_steps = 1\<rparr>"

lemma slip_boundary: "next_step_boundary demo_hash slip_pool slip_layout 0 False slip_view
    = Inr \<lparr>sb_tick = 51000, sb_initialized = False\<rparr>"
  by (simp add: next_step_boundary_def search_position_def div_euclid_def i32_checked_def i32_range_def slip_layout_def
      search_word_def Let_def v3_tick_bitmap_storage_key_with_base_def demo_hash_def slip_view_words clamp_tick_def)

lemma slip_boundary_price: "sqrt_ratio_at_tick 51000 = Inr 1014553944579331884220389454663"
  by (rule sqrt_ratio_cert;
      simp add: sqrt_price_int_def tick_ratio_def MULTIPLIERS_def TICK_CONSTANTS_def round_div_def)

lemma slip_walk_loop: "slipstream_walk_loop demo_hash slip_pool slip_layout demo_swap False slip_view
    (slipstream_walk_start slip_parent) = Inr slip_walk"
proof -
  have start: "slipstream_walk_start slip_parent = \<lparr>slw_ticks = [], slw_segments = [], slw_sqrt = 2 ^ 96, slw_tick = 0,
      slw_liquidity = 1000000000000000000, slw_staked = 400000000000000000, slw_steps = 0\<rparr>"
    by (simp add: slipstream_walk_start_def slip_parent_def)
  have price: "sw_sqrt_price_x96 demo_swap = 79236061562067009748002026667" "sw_tick demo_swap = 1"
    by (simp_all add: demo_swap_def)
  have "consume_step 0 = Inr 1" by (simp add: consume_step_eq_Inr)
  then have step: "slipstream_walk_step demo_hash slip_pool slip_layout demo_swap False slip_view
      (slipstream_walk_start slip_parent) = Inr slip_walk"
    using demo_amounts
    by (simp add: slipstream_walk_step_def start price slip_boundary slip_boundary_price slipstream_cross_boundary_def
        min_def Let_def slip_walk_def slip_segment_def)
  show ?thesis
    by (subst slipstream_walk_loop.simps) (simp add: step, simp add: start price slipstream_walk_loop.simps slip_walk_def)
qed

lemma slip_budget: "slipstream_final_budget slip_walk False False slip_segment = Inr 99700000000000"
proof -
  have "amount1_delta (2 ^ 96) 79236061562067009748002026668 1000000000000000000 True = Inr 99700000000001"
    by (subst amount1_delta_eq_Inr) (simp_all add: round_div_def)
  moreover have "checked_sub 99700000000001 (1 :: u256) = Some 99700000000000" by (simp add: checked_sub_eq_Some)
  ultimately show ?thesis by (simp add: slipstream_final_budget_def slip_segment_def maximum_input_budget_def)
qed

lemma slip_infer: "infer_slipstream_fee [slip_segment] 300000000000 99700000000000 False = Inr 3000"
proof (rule consistent_fee_alone)
  show small: "(\<Sum>s\<leftarrow>[slip_segment]. uint (seg_amount_in s)) + 2 * (uint (99700000000000 :: u256) + 1) < 2 ^ 256"
    by (simp add: slip_segment_def)
  show "consistent_fee [slip_segment] 300000000000 99700000000000 False 3000"
    by (subst consistent_fee_int [OF _ small])
      (simp_all add: minimum_fee_def maximum_fee_def full_fee_def partial_fee_def slip_segment_def round_div_def)
qed (simp_all add: minimum_fee_def maximum_fee_def full_fee_def partial_fee_def slip_segment_def round_div_def)

lemma slip_totals: "slipstream_totals slip_walk demo_swap False = Inr (300000000000, False, 3000)"
proof -
  have sums: "checked_sum [99700000000000] = Inr 99700000000000" "checked_sum [99690060900928] = Inr 99690060900928"
    by (simp_all add: checked_sum_eq_Inr)
  have sub: "checked_sub 100000000000000 (99700000000000 :: u256) = Some 300000000000" by (simp add: checked_sub_eq_Some)
  have segs: "slw_segments slip_walk = [slip_segment]" "seg_amount_in slip_segment = 99700000000000"
    "seg_amount_out slip_segment = 99690060900928" by (simp_all add: slip_walk_def slip_segment_def)
  show ?thesis
    by (simp add: slipstream_totals_def Let_def segs sums slip_budget slip_infer sub demo_swap_def
        swap_actual_input_def swap_actual_output_def output_is_capped_def)
qed

lemma slip_allocate: "slipstream_allocate 3000 False False [slip_segment] 300000000000 = Inr [300000000000]"
proof -
  have valid: "valid_final_step_fee (2 ^ 96) 79236061562067009748002026667 1000000000000000000 99700000000000
      300000000000 3000 False = Inr True"
    by (simp add: valid_final_step_fee_def demo_full_fee)
  have sub: "checked_sub 300000000000 (300000000000 :: u256) = Some 0" by (simp add: checked_sub_eq_Some)
  show ?thesis
    using valid by (simp add: slipstream_allocate_def slipstream_step_fee_def slip_segment_def sub)
qed

definition slip_fees :: slipstream_fee_state where
  "slip_fees = \<lparr>slf_fee_growth_0 = 11, slf_fee_growth_1 = 91876239068653385135111144006589, slf_gauge_fee = 138000000000,
     slf_reward_growth = 13, slf_last_updated = 1500, slf_rewards_updated = False, slf_reward_reserve = None,
     slf_rollover = None, slf_ticks = [], slf_updates = []\<rparr>"

lemma slip_growth: "slipstream_fee_growth 300000000000 1000000000000000000 400000000000000000 100000
    = Inr (91876239068653385135111144006577, 138000000000)"
proof -
  have "mul_div_round_up 300000000000 400000000000000000 1000000000000000000 = Inr 120000000000"
    "mul_div_round_up 180000000000 100000 1000000 = Inr 18000000000"
    by (simp_all add: mul_div_round_up_eq_Inr round_div_def)
  moreover have "mul_div 162000000000 Q128 600000000000000000 = Inr 91876239068653385135111144006577"
    by (simp add: mul_div_eq_Inr)
  ultimately show ?thesis
    by (simp add: slipstream_fee_growth_def validate_slipstream_liquidity_def FEE_DENOMINATOR_def Let_def)
qed

lemma slip_account: "slipstream_account slip_pool slip_parent False 100000 demo_now 2000 slip_view slip_walk
    (zip [slip_segment] [300000000000]) = Inr slip_fees"
  by (simp add: slipstream_account_def slipstream_fee_step_def slipstream_accrue_def)
     (simp add: slip_segment_def slip_growth slip_parent_def slip_walk_def slip_fees_def word_eval)

definition slip_updates :: "state_update list" where
  "slip_updates =
    [Slot slip_pool 6 6901851660689170388881905557484002118142873390682268448085975304647851,
     Slot slip_pool 8 91876239068653385135111144006589,
     Slot slip_pool 10 46958966637131202159471326606364260825518609268741,
     Slot slip_pool 15 292300327976604134022144661738318915078838825779200,
     Slot slip_pool 16 2381976568446569244244622252022377480192,
     Slot slip_pool 20 452312848583266388373324265502478808609022575517998145922812786964535707600]"

lemma slip_inner: "derive_slipstream_swap_inner demo_hash slip_pool slip_layout demo_swap slip_ctx slip_view
    = Inr (slip_updates, 3000)"
proof -
  have width: "\<not> (SLOT0_SQRT_MASK < sw_sqrt_price_x96 demo_swap \<or> WORD_128_MASK < sw_liquidity demo_swap)"
    by (simp add: demo_swap_def word_eval)
  have finish: "slipstream_finish_walk (Some slip_evidence) demo_swap
      (unchanged_tiny_swap demo_swap (slp_slot0 slip_parent) False) slip_walk = Inr slip_walk"
    by (simp add: slipstream_finish_walk_def slip_walk_def demo_swap_def declared_unused_def slip_evidence_def)
  have only: "slipstream_fee_only_step slip_walk 300000000000 False 3000 False = Inr [slip_segment]"
    by (simp add: slipstream_fee_only_step_def slip_walk_def slip_segment_def)
  have uf: "slipstream_unstaked_fee (Some slip_evidence) = 100000"
    by (simp add: slipstream_unstaked_fee_def slip_evidence_def)
  have enc: "encode_final (slp_slot0 slip_parent) 79236061562067009748002026667 1 0 1
      = 6901851660689170388881905557484002118142873390682268448085975304647851"
    by (simp add: encode_final_def Let_def slip_parent_def slip_slot0_def tick_bits_def word_eval)
  have "slipstream_full_updates slip_pool slip_layout demo_swap slip_parent False
      (0, 1, Some (20, 452312848583266388373324265502478808609022575517998145922812786964535707600), demo_now)
      slip_walk slip_fees = slip_updates"
    by (simp add: slipstream_full_updates_def slip_layout_def slipstream_slots demo_swap_def enc slip_updates_def)
      (simp add: slip_parent_def slip_walk_def slip_fees_def slipstream_gauge_word_def Let_def word_eval)
  then show ?thesis
    using width
    by (simp add: derive_slipstream_swap_inner_def slip_event slip_evidence_ok slip_load slip_direction slip_oracle
        slipstream_zero_distance_step_def slip_walk_loop finish slip_totals only slip_allocate slip_context uf
        slip_account [simplified])
qed

lemma slip_run: "derive_slipstream_swap demo_hash slip_pool slip_layout demo_swap slip_ctx slip_view = Inr slip_updates"
  by (simp add: derive_slipstream_swap_def slip_inner Let_def) (simp add: slip_ctx_eq slip_evidence_def)

end
