(* ===== verification/Slipstream_Liquidity.thy ===== *)
theory Slipstream_Liquidity
  imports Slipstream_Fee V3_Liquidity_Facts
begin

text \<open>
  \<open>derive_slipstream_liquidity\<close> of \<open>src/adapters/v3_transition.rs\<close>: the six words of each boundary
  tick, the bitmap words, the oracle entry and the active liquidity that a Mint or Burn changes
  in a reviewed Slipstream pool. Unlike the canonical transition it needs every word cached.
\<close>

unbundle bit_operations_syntax

section \<open>Tick updates\<close>

record liquidity_tick_update =
  ltu_tick :: i32
  ltu_keys :: "u256 list"
  ltu_words :: "u256 list"
  ltu_was_initialized :: bool
  ltu_is_initialized :: bool

text \<open>The arguments of a tick update: those of the canonical one, and the reward growth of a new tick.\<close>

record slipstream_tick_env =
  ste_base :: liquidity_env
  ste_initial_reward_growth :: u256

definition validate_slipstream_tick_words :: "i32 \<Rightarrow> u256 list \<Rightarrow> unit result" where
  "validate_slipstream_tick_words tick words =
    (let was_initialized = (words ! 0 AND WORD_128_MASK \<noteq> 0);
         initialized_flag = ((ucast (drop_bit 248 (words ! 5) AND ucast (- 1 :: u8)) :: u8) = 1)
     in if was_initialized \<noteq> initialized_flag
        then Inl (initialized_tick_error tick ''Tick.Info initialized flag disagrees with liquidityGross'')
        else if \<not> was_initialized \<and> list_ex (\<lambda>word. word \<noteq> 0) words
        then Inl (initialized_tick_error tick ''uninitialized Tick.Info contains nonzero state'')
        else Inr ())"

definition slipstream_outside_words :: "slipstream_tick_env \<Rightarrow> i32 \<Rightarrow> u256 list \<Rightarrow> u256 list" where
  "slipstream_outside_words env tick words =
    (let b = ste_base env
     in if tick \<le> le_current_tick b
        then words[2 := le_fee_growth_0 b, 3 := le_fee_growth_1 b, 4 := ste_initial_reward_growth env,
               5 := unsigned_bits (obs_tick_cumulative (le_now b)) 56
                    OR push_bit 56 (obs_seconds_per_liquidity_cumulative_x128 (le_now b) AND WORD_160_MASK)
                    OR push_bit 216 (ucast (le_timestamp b))
                    OR push_bit 248 1]
        else words[5 := push_bit 248 1])"

definition update_slipstream_liquidity_tick ::
  "keccak \<Rightarrow> slipstream_tick_env \<Rightarrow> i32 \<Rightarrow> bool \<Rightarrow> state_view \<Rightarrow> liquidity_tick_update result" where
  "update_slipstream_liquidity_tick keccak256 env tick upper state =
    (let b = ste_base env;
         keys = slipstream_tick_info_storage_keys_with_base keccak256 tick (ticks_base_slot (le_layout b))
     in rbind (rmap (required state (le_address b)) keys) (\<lambda>words.
        let old_gross = words ! 0 AND WORD_128_MASK;
            old_net = as_i128 (drop_bit 128 (words ! 0) AND WORD_128_MASK);
            was_initialized = (old_gross \<noteq> 0)
        in rbind (validate_slipstream_tick_words tick words) (\<lambda>_.
           rbind (next_gross b old_gross) (\<lambda>new_gross.
           rbind (next_net b upper old_net) (\<lambda>new_net.
           let is_initialized = (new_gross \<noteq> 0);
               words = (if \<not> was_initialized \<and> is_initialized then slipstream_outside_words env tick words else words);
               words = words[0 := new_gross OR push_bit 128 (ucast (word_of_int new_net :: u128))];
               words = (if \<not> is_initialized then [0, 0, 0, 0, 0, 0] else words)
           in Inr \<lparr>ltu_tick = tick, ltu_keys = keys, ltu_words = words, ltu_was_initialized = was_initialized,
                   ltu_is_initialized = is_initialized\<rparr>)))))"

section \<open>Checks and parent words\<close>

definition validate_slipstream_range :: "v3_storage_layout \<Rightarrow> decoded_liquidity \<Rightarrow> unit result" where
  "validate_slipstream_range layout event =
    (if dl_tick_lower event < - 887272 \<or> 887272 < dl_tick_upper event
        \<or> dl_tick_upper event \<le> dl_tick_lower event
        \<or> dl_tick_lower event mod tick_spacing layout \<noteq> 0
        \<or> dl_tick_upper event mod tick_spacing layout \<noteq> 0
     then Inl (contradiction ''Slipstream liquidity range is invalid or not spacing-aligned'')
     else Inr ())"

record slipstream_liquidity_parent =
  sll_parent :: liquidity_parent
  sll_initial_reward_growth :: u256

definition load_slipstream_liquidity_parent ::
  "address \<Rightarrow> v3_storage_layout \<Rightarrow> adapter_event_context \<Rightarrow> state_view \<Rightarrow> slipstream_liquidity_parent result" where
  "load_slipstream_liquidity_parent addr layout ctx state =
    rbind (required state addr (slot0_slot layout)) (\<lambda>slot0_raw.
    let slot0 = slot0_decode slot0_raw
    in if (ucast (drop_bit 232 (s0_raw slot0) AND ucast (- 1 :: u8)) :: u8) \<noteq> 1
       then Inl (contradiction ''parent Slipstream slot0 is locked'')
       else rbind (validate_parent_slot0 slot0) (\<lambda>_.
            rbind (required state addr (liquidity_slot layout)) (\<lambda>liquidity_word.
            let active_liquidity = liquidity_word AND WORD_128_MASK;
                max_liquidity_per_tick = drop_bit 128 liquidity_word AND WORD_128_MASK
            in rbind (advance_oracle addr SLIPSTREAM_SURFACE slot0 active_liquidity ctx state) (\<lambda>adv.
               rbind (required state addr (fee_growth_0_slot SLIPSTREAM_SURFACE)) (\<lambda>fee_growth_0.
               rbind (required state addr (fee_growth_1_slot SLIPSTREAM_SURFACE)) (\<lambda>fee_growth_1.
               rbind (if ctx_chain_id ctx = Some 10 then required state addr SLIPSTREAM_REWARD_GROWTH_SLOT else Inr 0)
                 (\<lambda>initial_reward_growth.
               rbind (event_timestamp ctx) (\<lambda>timestamp.
               Inr \<lparr>sll_parent = \<lparr>lp_slot0 = slot0, lp_active_liquidity = active_liquidity,
                      lp_max_liquidity_per_tick = max_liquidity_per_tick, lp_advance = adv,
                      lp_fee_growth_0 = fee_growth_0, lp_fee_growth_1 = fee_growth_1, lp_timestamp = timestamp\<rparr>,
                    sll_initial_reward_growth = initial_reward_growth\<rparr>))))))))"

section \<open>Bitmap words\<close>

definition slipstream_flip ::
  "keccak \<Rightarrow> address \<Rightarrow> v3_storage_layout \<Rightarrow> state_view \<Rightarrow> liquidity_tick_update \<Rightarrow> (u256 \<times> u256) list \<times> u256 list
    \<Rightarrow> ((u256 \<times> u256) list \<times> u256 list) result" where
  "slipstream_flip keccak256 addr layout state tick = (\<lambda>(bitmap_values, changed_bitmaps).
    rbind (div_euclid (ltu_tick tick) (tick_spacing layout)) (\<lambda>compressed.
    rbind (div_euclid compressed 256) (\<lambda>word.
    let mask' = push_bit (nat (compressed mod 256)) 1;
        slot = v3_tick_bitmap_storage_key_with_base keccak256 (word_of_int word) (tick_bitmap_base_slot layout)
    in rbind (required state addr slot) (\<lambda>parent_word.
       let values' = bt_entry slot parent_word bitmap_values
       in rbind (expect (map_of values' slot) ''entry'') (\<lambda>value.
          if (value AND mask' \<noteq> 0) \<noteq> ltu_was_initialized tick
          then Inl (initialized_tick_error (ltu_tick tick) ''bitmap disagrees with parent Tick.Info initialization'')
          else if ltu_was_initialized tick \<noteq> ltu_is_initialized tick
          then Inr (bt_set slot (value XOR mask') values', slot # changed_bitmaps)
          else Inr (values', changed_bitmaps))))))"

definition slipstream_bitmap_writes :: "address \<Rightarrow> (u256 \<times> u256) list \<Rightarrow> u256 list \<Rightarrow> state_update list" where
  "slipstream_bitmap_writes addr bitmap_values changed_bitmaps =
    map (\<lambda>(slot, value). Slot addr slot value) (filter (\<lambda>(slot, _). slot \<in> set changed_bitmaps) bitmap_values)"

section \<open>The transition\<close>

definition slipstream_in_range_writes ::
  "address \<Rightarrow> v3_storage_layout \<Rightarrow> decoded_liquidity \<Rightarrow> liquidity_parent \<Rightarrow> state_update list result" where
  "slipstream_in_range_writes addr layout event parent =
    (let slot0 = lp_slot0 parent
     in if dl_tick_lower event \<le> s0_tick slot0 \<and> s0_tick slot0 < dl_tick_upper event
        then rbind (if dl_is_mint event
                    then ok_or (checked_add (lp_active_liquidity parent) (ucast (dl_amount event)))
                           (arithmetic ''active liquidity overflow'')
                    else ok_or (checked_sub (lp_active_liquidity parent) (ucast (dl_amount event)))
                           (arithmetic ''active liquidity underflow'')) (\<lambda>next_liquidity.
             if WORD_128_MASK < next_liquidity then Inl (arithmetic ''active liquidity exceeds uint128'')
             else case lp_advance parent of (observation_index, observation_cardinality, oracle_write, _) \<Rightarrow>
                  Inr ((case oracle_write of
                          None \<Rightarrow> []
                        | Some (slot, value) \<Rightarrow>
                            [Slot addr slot value,
                             Slot addr (slot0_slot layout)
                               (encode_final slot0 (s0_sqrt_price_x96 slot0) (s0_tick slot0)
                                  observation_index observation_cardinality)])
                       @ [Slot addr (liquidity_slot layout)
                            (next_liquidity OR push_bit 128 (lp_max_liquidity_per_tick parent))]))
        else Inr [])"

definition slipstream_tick_env_of ::
  "address \<Rightarrow> v3_storage_layout \<Rightarrow> decoded_liquidity \<Rightarrow> slipstream_liquidity_parent \<Rightarrow> slipstream_tick_env" where
  "slipstream_tick_env_of addr layout event parent = \<lparr>
     ste_base = liquidity_env_of addr layout event (sll_parent parent),
     ste_initial_reward_growth = sll_initial_reward_growth parent\<rparr>"

definition liquidity_tick_writes :: "address \<Rightarrow> liquidity_tick_update \<Rightarrow> state_update list" where
  "liquidity_tick_writes addr u = map (\<lambda>(slot, value). Slot addr slot value) (zip (ltu_keys u) (ltu_words u))"

definition derive_slipstream_liquidity ::
  "keccak \<Rightarrow> address \<Rightarrow> v3_storage_layout \<Rightarrow> decoded_liquidity \<Rightarrow> adapter_event_context \<Rightarrow> state_view
    \<Rightarrow> state_update list result" where
  "derive_slipstream_liquidity keccak256 addr layout event ctx state =
    rbind (validate_reviewed_slipstream_event addr layout ctx) (\<lambda>_.
    rbind (validate_slipstream_range layout event) (\<lambda>_.
    if dl_amount event = 0
    then if dl_is_mint event then Inl (contradiction ''Slipstream Mint liquidity must be positive'')
         else Inr []
    else if 2 ^ 127 \<le> uint (dl_amount event) then Inl (arithmetic ''liquidity amount exceeds int128'')
    else
      rbind (load_slipstream_liquidity_parent addr layout ctx state) (\<lambda>parent.
      let env = slipstream_tick_env_of addr layout event parent
      in rbind (update_slipstream_liquidity_tick keccak256 env (dl_tick_lower event) False state) (\<lambda>lower.
         rbind (update_slipstream_liquidity_tick keccak256 env (dl_tick_upper event) True state) (\<lambda>upper.
         rbind (slipstream_flip keccak256 addr layout state lower ([], [])) (\<lambda>acc.
         rbind (slipstream_flip keccak256 addr layout state upper acc) (\<lambda>(bitmap_values, changed_bitmaps).
         rbind (slipstream_in_range_writes addr layout event (sll_parent parent)) (\<lambda>range_writes.
         Inr (liquidity_tick_writes addr lower @ liquidity_tick_writes addr upper
              @ slipstream_bitmap_writes addr bitmap_values changed_bitmaps @ range_writes)))))))))"

section \<open>Partial views and aborts\<close>

interpretation slipstream_liquidity: exact_transition "derive_slipstream_liquidity keccak256 addr layout event ctx"
  for keccak256 addr layout event ctx
proof
  have "fail_closed (\<lambda>s. update_slipstream_liquidity_tick keccak256 env t upper s)" for env t upper
    unfolding update_slipstream_liquidity_tick_def Let_def by (intro fail_closed_intros)
  moreover have "fail_closed (\<lambda>s. slipstream_flip keccak256 addr layout s u acc)" for u acc
    unfolding slipstream_flip_def Let_def by (cases acc) (simp, intro fail_closed_intros)
  moreover have "fail_closed (\<lambda>s. load_slipstream_liquidity_parent addr layout ctx s)"
    unfolding load_slipstream_liquidity_parent_def Let_def by (intro fail_closed_intros)
  ultimately show "fail_closed (derive_slipstream_liquidity keccak256 addr layout event ctx)"
    unfolding derive_slipstream_liquidity_def Let_def by (intro fail_closed_intros)
qed

section \<open>One boundary\<close>

lemma length_slipstream_outside_words [simp]: "length (slipstream_outside_words env t words) = length words"
  by (simp add: slipstream_outside_words_def Let_def)

lemma slipstream_keys_length [simp]: "length (slipstream_tick_info_storage_keys_with_base keccak256 t b) = 6"
  by (simp add: slipstream_tick_info_storage_keys_with_base_def Let_def)

lemma tl_update_0: "tl (xs[0 := x]) = tl xs"
  by (cases xs) simp_all

lemma slipstream_tick_effect:
  assumes "0 \<le> le_amount (ste_base env)" "le_amount (ste_base env) < 2 ^ 127"
    "uint (le_max_liquidity_per_tick (ste_base env)) < 2 ^ 128"
    and "update_slipstream_liquidity_tick keccak256 env t upper s = Inr u"
  shows "\<exists>words. rmap (required s (le_address (ste_base env))) (ltu_keys u) = Inr words
    \<and> ltu_tick u = t \<and> length words = 6 \<and> length (ltu_words u) = 6
    \<and> tick_gross (ltu_words u ! 0) = tick_gross (words ! 0) + signed_amount (ste_base env)
    \<and> tick_gross (ltu_words u ! 0) \<le> uint (le_max_liquidity_per_tick (ste_base env))
    \<and> (ltu_was_initialized u \<longleftrightarrow> tick_gross (words ! 0) \<noteq> 0)
    \<and> (ltu_is_initialized u \<longleftrightarrow> tick_gross (ltu_words u ! 0) \<noteq> 0)
    \<and> (if ltu_is_initialized u
       then tick_net (ltu_words u ! 0) = tick_net (words ! 0)
           + (if upper then - signed_amount (ste_base env) else signed_amount (ste_base env))
         \<and> tl (ltu_words u) = tl (if ltu_was_initialized u then words else slipstream_outside_words env t words)
       else ltu_words u = [0, 0, 0, 0, 0, 0])"
proof -
  define b where "b = ste_base env"
  define keys where "keys = slipstream_tick_info_storage_keys_with_base keccak256 t (ticks_base_slot (le_layout b))"
  obtain words g n where d: "rmap (required s (le_address b)) keys = Inr words"
    "next_gross b (field 0 128 (words ! 0)) = Inr g" "next_net b upper (tick_net (words ! 0)) = Inr n"
    and u: "u = \<lparr>ltu_tick = t, ltu_keys = keys,
      ltu_words = (if g = 0 then [0, 0, 0, 0, 0, 0]
        else (if field 0 128 (words ! 0) = 0 then slipstream_outside_words env t words else words)
          [0 := g OR push_bit 128 (ucast (word_of_int n :: u128))]),
      ltu_was_initialized = (field 0 128 (words ! 0) \<noteq> 0), ltu_is_initialized = (g \<noteq> 0)\<rparr>"
    using assms(4) unfolding update_slipstream_liquidity_tick_def Let_def b_def [symmetric] keys_def [symmetric]
      WORD_128_MASK_eq and_mask_field field_0_drop tick_net_def [symmetric]
    by (auto split: if_splits)
  have len: "length words = 6" using rmap_eq_Inr_length [OF d(1)] by (simp add: keys_def)
  have g: "uint g = tick_gross (words ! 0) + signed_amount b" "uint g \<le> uint (le_max_liquidity_per_tick b)"
    using d(2) next_gross_eq_Inr [of b] assms(1,2) by (simp_all add: b_def tick_gross_def)
  have n: "n = tick_net (words ! 0) + (if upper then - signed_amount b else signed_amount b)" "- (2 ^ 127) \<le> n" "n < 2 ^ 127"
    using d(3) by (simp_all add: next_net_eq_Inr)
  have "uint g < 2 ^ 128" using g(2) assms(3) by (simp add: b_def)
  note pack = pack_tick_word(2,3) [OF this n(2,3)]
  have "tick_gross (0 :: u256) = 0" by (simp add: tick_gross_def field_def)
  then show ?thesis
    unfolding b_def [symmetric] using d(1) g n(1) pack len
    by (intro exI [of _ words]) (auto simp: u tl_update_0 tick_gross_def uint_0_iff)
qed

section \<open>Bitmap words\<close>

lemma map_of_insort_fst: "k \<notin> fst ` set m \<Longrightarrow> map_of (insort_key fst (k, v) m) = (map_of m)(k \<mapsto> v)"
  by (induction m) (auto simp: fun_upd_twist)

lemma slipstream_flip_okD:
  assumes "slipstream_flip keccak256 addr layout state u (vals, changed) = Inr (vals', changed')" "0 < tick_spacing layout"
    "distinct (map fst vals)"
  defines "slot \<equiv> boundary_slot keccak256 layout (ltu_tick u)" and "k \<equiv> boundary_bit layout (ltu_tick u)"
  shows "\<exists>w b b'. state addr slot = Some w \<and> b = (case map_of vals slot of None \<Rightarrow> w | Some v \<Rightarrow> v)
    \<and> map_of vals' = (map_of vals)(slot \<mapsto> b') \<and> distinct (map fst vals')
    \<and> (bit b' k \<longleftrightarrow> ltu_is_initialized u) \<and> (\<forall>j. j \<noteq> k \<longrightarrow> bit b' j = bit b j)
    \<and> changed' = (if b' = b then changed else slot # changed)"
proof -
  have k: "k < 256" unfolding k_def by (rule boundary_bit_less)
  define mk where "mk = push_bit k (1 :: u256)"
  have m: "x AND mk = 0 \<longleftrightarrow> \<not> bit x k" for x :: u256 using and_push_one [of x k] unfolding mk_def by blast
  have entry: "map_of (bt_entry slot w vals) = (map_of vals)(slot \<mapsto> case map_of vals slot of None \<Rightarrow> w | Some v \<Rightarrow> v)"
    "distinct (map fst (bt_entry slot w vals))" for w
  proof -
    show "distinct (map fst (bt_entry slot w vals))"
      using assms(3) distinct_fst_insort [of vals slot w] by (auto simp: bt_entry_def map_of_eq_None_iff)
    show "map_of (bt_entry slot w vals) = (map_of vals)(slot \<mapsto> case map_of vals slot of None \<Rightarrow> w | Some v \<Rightarrow> v)"
    proof (cases "map_of vals slot")
      case None
      then have "map_of (insort_key fst (slot, w) vals) = (map_of vals)(slot \<mapsto> w)"
        by (intro map_of_insort_fst) (simp add: map_of_eq_None_iff)
      then show ?thesis using None by (auto simp: bt_entry_def)
    next
      case (Some v)
      then show ?thesis by (auto simp: bt_entry_def map_upd_triv)
    qed
  qed
  obtain c wd where "div_euclid (ltu_tick u) (tick_spacing layout) = Inr c" "div_euclid c 256 = Inr wd"
    using assms(1) by (auto simp: slipstream_flip_def)
  moreover from this have "c = ltu_tick u div tick_spacing layout" "wd = ltu_tick u div tick_spacing layout div 256"
    using div_euclid_okD [OF assms(2)] div_euclid_okD [of 256] by auto
  ultimately have eq: "slipstream_flip keccak256 addr layout state u (vals, changed) = rbind (required state addr slot) (\<lambda>w.
      rbind (expect (map_of (bt_entry slot w vals) slot) ''entry'') (\<lambda>value.
      if (value AND mk \<noteq> 0) \<noteq> ltu_was_initialized u
      then Inl (initialized_tick_error (ltu_tick u) ''bitmap disagrees with parent Tick.Info initialization'')
      else if ltu_was_initialized u \<noteq> ltu_is_initialized u
      then Inr (bt_set slot (value XOR mk) (bt_entry slot w vals), slot # changed)
      else Inr (bt_entry slot w vals, changed)))"
    unfolding slipstream_flip_def prod.case mk_def k_def slot_def boundary_slot_def boundary_bit_def Let_def by (simp only: rbind_simps)
  obtain w where w: "state addr slot = Some w"
    and r: "(let b = (case map_of vals slot of None \<Rightarrow> w | Some v \<Rightarrow> v) in
      (bit b k \<longleftrightarrow> ltu_was_initialized u) \<and>
      (if ltu_was_initialized u \<noteq> ltu_is_initialized u
       then vals' = bt_set slot (b XOR mk) (bt_entry slot w vals) \<and> changed' = slot # changed
       else vals' = bt_entry slot w vals \<and> changed' = changed))"
    using assms(1) unfolding eq by (auto simp: Let_def m entry split: if_splits)
  define b where "b = (case map_of vals slot of None \<Rightarrow> w | Some v \<Rightarrow> v)"
  have flip: "bit (b XOR mk) j \<longleftrightarrow> (if j = k then \<not> bit b k else bit b j)" for j
    unfolding mk_def using k by (auto simp: bit_simps dest: bit_imp_le_length)
  have keys: "map fst (bt_set x y m) = map fst m" for x and y :: u256 and m by (induction m) (auto simp: bt_set_def)
  show ?thesis
  proof (cases "ltu_was_initialized u = ltu_is_initialized u")
    case True
    then show ?thesis using r w entry by (intro exI [of _ w] exI [of _ b] exI [of _ b]) (auto simp: b_def Let_def)
  next
    case False
    have ne: "b XOR mk \<noteq> b" using flip [of k] by metis
    show ?thesis using r w False flip ne entry keys
      by (intro exI [of _ w] exI [of _ b] exI [of _ "b XOR mk"]) (auto simp: Let_def b_def [symmetric] map_of_bt_set)
  qed
qed

lemma slipstream_flip_two:
  assumes "slipstream_flip keccak256 addr layout state u1 ([], []) = Inr acc"
    "slipstream_flip keccak256 addr layout state u2 acc = Inr (vals, changed)" "0 < tick_spacing layout"
    and "boundary_slot keccak256 layout (ltu_tick u1) = boundary_slot keccak256 layout (ltu_tick u2)
      \<Longrightarrow> boundary_bit layout (ltu_tick u1) \<noteq> boundary_bit layout (ltu_tick u2)"
  defines "view \<equiv> overlay (slipstream_bitmap_writes addr vals changed) state addr"
  shows "\<exists>v. view (boundary_slot keccak256 layout (ltu_tick u1)) = Some v
      \<and> (bit v (boundary_bit layout (ltu_tick u1)) \<longleftrightarrow> ltu_is_initialized u1)"
    "\<exists>v. view (boundary_slot keccak256 layout (ltu_tick u2)) = Some v
      \<and> (bit v (boundary_bit layout (ltu_tick u2)) \<longleftrightarrow> ltu_is_initialized u2)"
proof -
  define s1 s2 k1 k2 where "s1 = boundary_slot keccak256 layout (ltu_tick u1)"
    and "s2 = boundary_slot keccak256 layout (ltu_tick u2)"
    and "k1 = boundary_bit layout (ltu_tick u1)" and "k2 = boundary_bit layout (ltu_tick u2)"
  note folds = s1_def [symmetric] s2_def [symmetric] k1_def [symmetric] k2_def [symmetric]
  obtain m c where acc: "acc = (m, c)" by (cases acc)
  from slipstream_flip_okD [OF assms(1) [unfolded acc] assms(3)] obtain w1 b1 where
    1: "state addr s1 = Some w1" "map_of m = [s1 \<mapsto> b1]" "distinct (map fst m)" "bit b1 k1 \<longleftrightarrow> ltu_is_initialized u1"
    "c = (if b1 = w1 then [] else [s1])"
    unfolding folds by auto
  from slipstream_flip_okD [OF assms(2) [unfolded acc] assms(3) 1(3), unfolded folds] obtain w2 d b2 where
    raw: "state addr s2 = Some w2" "d = (case map_of m s2 of None \<Rightarrow> w2 | Some v \<Rightarrow> v)"
    "map_of vals = (map_of m)(s2 \<mapsto> b2)" "distinct (map fst vals)" "bit b2 k2 \<longleftrightarrow> ltu_is_initialized u2"
    "\<forall>j. j \<noteq> k2 \<longrightarrow> bit b2 j = bit d j" "changed = (if b2 = d then c else s2 # c)"
    by blast
  have "d = (if s2 = s1 then b1 else w2)" "map_of vals = [s1 \<mapsto> b1, s2 \<mapsto> b2]"
    using raw(2,3) by (simp_all add: 1(2))
  note 2 = raw(1) this raw(4-7)
  have written: "written (slipstream_bitmap_writes addr vs ch) addr k = (if k \<in> set ch then map_of vs k else None)"
    if "distinct (map fst vs)" for vs ch k
    using that
  proof (induction vs)
    case (Cons x vs)
    obtain k' v where x: "x = (k', v)" by (cases x)
    have "map_of vs k' = None" using Cons.prems x by (auto simp: map_of_eq_None_iff)
    then show ?case using Cons by (auto simp: slipstream_bitmap_writes_def x split: option.splits)
  qed (simp add: slipstream_bitmap_writes_def)
  have view: "view k = (if k \<in> set changed \<and> map_of vals k \<noteq> None then map_of vals k else state addr k)" for k
    unfolding view_def overlay_def written [OF 2(4)] by (auto split: option.splits)
  have ne: "s1 = s2 \<Longrightarrow> k1 \<noteq> k2" using assms(4) unfolding folds by blast
  have "\<exists>v. view s1 = Some v \<and> (bit v k1 \<longleftrightarrow> ltu_is_initialized u1)"
  proof (cases "s1 = s2")
    case True
    then have "bit b2 k1 \<longleftrightarrow> ltu_is_initialized u1" using 1(4) 2(2,6) ne by auto
    moreover have "view s1 = Some b2" unfolding view using True 1 2 by auto
    ultimately show ?thesis by blast
  next
    case False
    then have "view s1 = Some b1" unfolding view using 1 2 by auto
    then show ?thesis using 1(4) by blast
  qed
  moreover have "view s2 = Some b2" unfolding view using 1 2 by (auto split: if_splits)
  ultimately show "\<exists>v. view (boundary_slot keccak256 layout (ltu_tick u1)) = Some v
      \<and> (bit v (boundary_bit layout (ltu_tick u1)) \<longleftrightarrow> ltu_is_initialized u1)"
    "\<exists>v. view (boundary_slot keccak256 layout (ltu_tick u2)) = Some v
      \<and> (bit v (boundary_bit layout (ltu_tick u2)) \<longleftrightarrow> ltu_is_initialized u2)"
    using 2(5) unfolding folds by blast+
qed

section \<open>The transition\<close>

lemma slipstream_in_range_okD:
  assumes "slipstream_in_range_writes addr layout event parent = Inr ws" "uint (lp_max_liquidity_per_tick parent) < 2 ^ 128"
  shows "if dl_tick_lower event \<le> s0_tick (lp_slot0 parent) \<and> s0_tick (lp_slot0 parent) < dl_tick_upper event
    then \<exists>w. last ws = Slot addr (liquidity_slot layout) w \<and> ws \<noteq> []
      \<and> uint (field 0 128 w) = uint (lp_active_liquidity parent)
          + (if dl_is_mint event then uint (dl_amount event) else - uint (dl_amount event))
      \<and> field 128 128 w = lp_max_liquidity_per_tick parent
    else ws = []"
proof (cases "dl_tick_lower event \<le> s0_tick (lp_slot0 parent) \<and> s0_tick (lp_slot0 parent) < dl_tick_upper event")
  case True
  have amount: "uint (ucast (dl_amount event) :: u256) = uint (dl_amount event)"
    by (intro uint_ucast_down) (rule order_less_trans [OF uint_lt_exp], simp)
  obtain l where l: "uint l = uint (lp_active_liquidity parent)
      + (if dl_is_mint event then uint (dl_amount event) else - uint (dl_amount event))" "l \<le> WORD_128_MASK"
    "last ws = Slot addr (liquidity_slot layout) (l OR push_bit 128 (lp_max_liquidity_per_tick parent))" "ws \<noteq> []"
    using assms(1) True
    by (auto simp: slipstream_in_range_writes_def Let_def checked_add_eq_Some checked_sub_eq_Some amount not_less
        split: if_splits prod.splits)
  have t: "take_bit 128 l = l" "take_bit 128 (lp_max_liquidity_per_tick parent) = lp_max_liquidity_per_tick parent"
    using l(2) assms(2) unfolding le_WORD_128_MASK_iff by (simp_all add: take_bit_of_small)
  have "field 0 128 (l OR push_bit 128 (lp_max_liquidity_per_tick parent)) = l"
    "field 128 128 (l OR push_bit 128 (lp_max_liquidity_per_tick parent)) = lp_max_liquidity_per_tick parent"
    using t by (simp_all add: field_low field_push_below field_low_above [OF t(1)] field_push_same)
  with l True show ?thesis by auto
next
  case False
  then show ?thesis using assms(1) by (simp add: slipstream_in_range_writes_def Let_def split: if_splits)
qed

lemma validate_slipstream_range_okD:
  assumes "validate_slipstream_range layout event = Inr u"
  shows "- 887272 \<le> dl_tick_lower event" "dl_tick_upper event \<le> 887272" "dl_tick_lower event < dl_tick_upper event"
    "dl_tick_lower event mod tick_spacing layout = 0" "dl_tick_upper event mod tick_spacing layout = 0"
  using assms by (auto simp: validate_slipstream_range_def split: if_splits)

lemma load_slipstream_liquidity_parent_okD:
  assumes "load_slipstream_liquidity_parent addr layout ctx state = Inr parent"
  shows "\<exists>w. state addr (liquidity_slot layout) = Some w
    \<and> lp_active_liquidity (sll_parent parent) = field 0 128 w
    \<and> lp_max_liquidity_per_tick (sll_parent parent) = field 128 128 w"
  using assms
  by (auto simp: load_slipstream_liquidity_parent_def Let_def WORD_128_MASK_eq and_mask_field drop_and_mask_field
      split: if_splits)

lemma slipstream_tick_update_tick:
  "update_slipstream_liquidity_tick keccak256 env t upper s = Inr u \<Longrightarrow> ltu_tick u = t"
  by (auto simp: update_slipstream_liquidity_tick_def Let_def)

lemma exact_slipstream_bitmap_writes: "exact_writes_to addr (slipstream_bitmap_writes addr vals changed)"
  by (auto simp: exact_writes_to_def slipstream_bitmap_writes_def list_all_iff)

text \<open>
  A derived Mint or Burn writes the six words of each boundary, leaves the bitmap bit of each set
  exactly when its tick holds liquidity, and moves the active liquidity by the event's amount,
  keeping the cap beside it, exactly when the current tick lies in the range.
\<close>

lemma slipstream_liquidity_batch:
  assumes run: "derive_slipstream_liquidity keccak256 addr layout event ctx state = Inr batch"
    and amount: "dl_amount event \<noteq> 0"
    and hash: "word_of_int (dl_tick_lower event div tick_spacing layout div 256)
        \<noteq> (word_of_int (dl_tick_upper event div tick_spacing layout div 256) :: i16)
      \<Longrightarrow> boundary_slot keccak256 layout (dl_tick_lower event) \<noteq> boundary_slot keccak256 layout (dl_tick_upper event)"
  shows "\<exists>parent u1 u2 bitmaps range.
    load_slipstream_liquidity_parent addr layout ctx state = Inr parent
    \<and> update_slipstream_liquidity_tick keccak256 (slipstream_tick_env_of addr layout event parent) (dl_tick_lower event) False state = Inr u1
    \<and> update_slipstream_liquidity_tick keccak256 (slipstream_tick_env_of addr layout event parent) (dl_tick_upper event) True state = Inr u2
    \<and> slipstream_in_range_writes addr layout event (sll_parent parent) = Inr range
    \<and> batch = liquidity_tick_writes addr u1 @ liquidity_tick_writes addr u2 @ bitmaps @ range
    \<and> exact_writes_to addr bitmaps
    \<and> (\<exists>v. overlay bitmaps state addr (boundary_slot keccak256 layout (dl_tick_lower event)) = Some v
        \<and> (bit v (boundary_bit layout (dl_tick_lower event)) \<longleftrightarrow> ltu_is_initialized u1))
    \<and> (\<exists>v. overlay bitmaps state addr (boundary_slot keccak256 layout (dl_tick_upper event)) = Some v
        \<and> (bit v (boundary_bit layout (dl_tick_upper event)) \<longleftrightarrow> ltu_is_initialized u2))"
proof -
  define upd where "upd parent = update_slipstream_liquidity_tick keccak256 (slipstream_tick_env_of addr layout event parent)" for parent
  obtain x y parent u1 u2 acc vals changed range where d:
    "validate_reviewed_slipstream_event addr layout ctx = Inr x" "validate_slipstream_range layout event = Inr y"
    "load_slipstream_liquidity_parent addr layout ctx state = Inr parent"
    "upd parent (dl_tick_lower event) False state = Inr u1" "upd parent (dl_tick_upper event) True state = Inr u2"
    "slipstream_flip keccak256 addr layout state u1 ([], []) = Inr acc"
    "slipstream_flip keccak256 addr layout state u2 acc = Inr (vals, changed)"
    "slipstream_in_range_writes addr layout event (sll_parent parent) = Inr range"
    and b: "batch = liquidity_tick_writes addr u1 @ liquidity_tick_writes addr u2
      @ slipstream_bitmap_writes addr vals changed @ range"
    using run amount unfolding derive_slipstream_liquidity_def Let_def upd_def by (auto split: if_splits)
  note t = slipstream_tick_update_tick [OF d(4) [unfolded upd_def]] slipstream_tick_update_tick [OF d(5) [unfolded upd_def]]
  have sp: "0 < tick_spacing layout" using validate_reviewed_slipstream_event_okD(3) [OF d(1)] by simp
  have ne: "boundary_bit layout (ltu_tick u1) \<noteq> boundary_bit layout (ltu_tick u2)"
    if "boundary_slot keccak256 layout (ltu_tick u1) = boundary_slot keccak256 layout (ltu_tick u2)"
    using that hash aligned_ticks_distinct [OF sp validate_slipstream_range_okD [OF d(2)]] unfolding t by metis
  note f = slipstream_flip_two [OF d(6,7) sp ne, unfolded t]
  show ?thesis
    by (rule exI [of _ parent], rule exI [of _ u1], rule exI [of _ u2],
        rule exI [of _ "slipstream_bitmap_writes addr vals changed"], rule exI [of _ range])
      (intro conjI d(3) d(4,5) [unfolded upd_def] d(8) b exact_slipstream_bitmap_writes f)
qed

section \<open>Aborts\<close>

lemma no_panic_slipstream_flip:
  assumes "0 < tick_spacing layout" "i32_range (ltu_tick u)"
  shows "no_panic (slipstream_flip keccak256 addr layout state u acc)"
proof -
  obtain vals changed where acc: "acc = (vals, changed)" by (cases acc)
  define c where "c = ltu_tick u div tick_spacing layout"
  have c: "div_euclid (ltu_tick u) (tick_spacing layout) = Inr c" unfolding c_def using assms by (rule div_euclid_pos)
  then have "i32_range c" by (auto simp: div_euclid_def i32_checked_def c_def split: if_splits)
  then have w: "div_euclid c 256 = Inr (c div 256)" by (intro div_euclid_pos) simp_all
  have entry: "\<exists>v. map_of (bt_entry k x m) k = Some v" for k and x :: u256 and m
    by (cases "map_of m k") (auto simp: bt_entry_def map_of_insort_fst map_of_eq_None_iff)
  have e: "no_panic (expect (map_of (bt_entry k x m) k) msg)" for k and x :: u256 and m msg
    using entry [of k x m] by auto
  show ?thesis
    unfolding acc slipstream_flip_def prod.case c w rbind_simps Let_def initialized_tick_error_def
    by (intro no_panic_intros e)
qed

lemma no_panic_derive_slipstream_liquidity:
  "no_panic (derive_slipstream_liquidity keccak256 addr layout event ctx state)"
  unfolding derive_slipstream_liquidity_def Let_def
proof (intro no_panic_rbind no_panic_prod no_panic_Inr no_panic_if no_panic_errors no_panic_slipstream_checks(1))
  fix x y parent u1 u2 acc
  assume c: "validate_reviewed_slipstream_event addr layout ctx = Inr x" "validate_slipstream_range layout event = Inr y"
  note ctx = validate_reviewed_slipstream_event_okD(1) [OF c(1)]
  have sp: "0 < tick_spacing layout" using validate_reviewed_slipstream_event_okD(3) [OF c(1)] by simp
  note r = validate_slipstream_range_okD [OF c(2)]
  show "no_panic (load_slipstream_liquidity_parent addr layout ctx state)"
    unfolding load_slipstream_liquidity_parent_def Let_def using ctx by (intro no_panic_intros)
  show tick: "no_panic (update_slipstream_liquidity_tick keccak256 env t upper state)" for env t upper
    unfolding update_slipstream_liquidity_tick_def Let_def validate_slipstream_tick_words_def next_gross_def next_net_def
      initialized_tick_error_def
    by (intro no_panic_intros)
  show "no_panic (update_slipstream_liquidity_tick keccak256 env t upper state)" for env t upper by (rule tick)
  assume u: "update_slipstream_liquidity_tick keccak256 (slipstream_tick_env_of addr layout event parent) (dl_tick_lower event) False state = Inr u1"
  show "no_panic (slipstream_flip keccak256 addr layout state u1 ([], []))"
    using r sp slipstream_tick_update_tick [OF u] by (intro no_panic_slipstream_flip) (simp_all add: i32_range_def)
  assume u': "update_slipstream_liquidity_tick keccak256 (slipstream_tick_env_of addr layout event parent) (dl_tick_upper event) True state = Inr u2"
  show "no_panic (slipstream_flip keccak256 addr layout state u2 acc)"
    using r sp slipstream_tick_update_tick [OF u'] by (intro no_panic_slipstream_flip) (simp_all add: i32_range_def)
  show "no_panic (slipstream_in_range_writes addr layout event (sll_parent parent))"
    unfolding slipstream_in_range_writes_def Let_def by (intro no_panic_intros)
qed (simp add: validate_slipstream_range_def)

section \<open>The whole transition\<close>

text \<open>
  A boundary tick moved by the event: in the words of that very tick, its gross by the signed amount and its net by the
  same at the lower and the opposite at the upper tick; a tick at or below the current one starts with the global growths.
\<close>

definition boundary_moved ::
  "keccak \<Rightarrow> address \<Rightarrow> v3_storage_layout \<Rightarrow> decoded_liquidity \<Rightarrow> slipstream_liquidity_parent \<Rightarrow> state_view \<Rightarrow> bool
    \<Rightarrow> liquidity_tick_update \<Rightarrow> bool" where
  "boundary_moved keccak256 addr layout event parent state upper u \<longleftrightarrow>
    (let t = (if upper then dl_tick_upper event else dl_tick_lower event);
         d = (if dl_is_mint event then uint (dl_amount event) else - uint (dl_amount event));
         below = (t \<le> s0_tick (lp_slot0 (sll_parent parent)))
     in ltu_keys u = slipstream_tick_info_storage_keys_with_base keccak256 t (ticks_base_slot layout)
      \<and> (\<exists>words. rmap (required state addr) (ltu_keys u) = Inr words \<and> length words = 6 \<and> length (ltu_words u) = 6
        \<and> tick_gross (ltu_words u ! 0) = tick_gross (words ! 0) + d
        \<and> (ltu_is_initialized u \<longleftrightarrow> tick_gross (ltu_words u ! 0) \<noteq> 0)
        \<and> (if ltu_is_initialized u
           then tick_net (ltu_words u ! 0) = tick_net (words ! 0) + (if upper then - d else d)
             \<and> (if tick_gross (words ! 0) \<noteq> 0 then tl (ltu_words u) = tl words
                else ltu_words u ! 1 = words ! 1
                  \<and> ltu_words u ! 2 = (if below then lp_fee_growth_0 (sll_parent parent) else words ! 2)
                  \<and> ltu_words u ! 3 = (if below then lp_fee_growth_1 (sll_parent parent) else words ! 3)
                  \<and> ltu_words u ! 4 = (if below then sll_initial_reward_growth parent else words ! 4))
           else ltu_words u = [0, 0, 0, 0, 0, 0])))"

lemma nth_Suc_of_tl: "tl xs = tl ys \<Longrightarrow> Suc i < length xs \<Longrightarrow> Suc i < length ys \<Longrightarrow> xs ! Suc i = ys ! Suc i"
  by (metis Suc_lessE length_tl less_diff_conv nth_tl One_nat_def add.commute plus_1_eq_Suc)

lemma slipstream_update_keys:
  "update_slipstream_liquidity_tick keccak256 env t upper s = Inr u
    \<Longrightarrow> ltu_keys u = slipstream_tick_info_storage_keys_with_base keccak256 t (ticks_base_slot (le_layout (ste_base env)))"
  by (auto simp: update_slipstream_liquidity_tick_def Let_def)

lemma slipstream_boundary_moved:
  assumes "update_slipstream_liquidity_tick keccak256 (slipstream_tick_env_of addr layout event parent)
      (if upper then dl_tick_upper event else dl_tick_lower event) upper s = Inr u"
    and "uint (dl_amount event) < 2 ^ 127" "load_slipstream_liquidity_parent addr layout ctx state = Inr parent"
  shows "boundary_moved keccak256 addr layout event parent s upper u"
proof -
  define t where "t = (if upper then dl_tick_upper event else dl_tick_lower event)"
  define env where "env = ste_base (slipstream_tick_env_of addr layout event parent)"
  have e: "le_address env = addr" "le_amount env = uint (dl_amount event)" "le_is_mint env = dl_is_mint event"
    "uint (le_max_liquidity_per_tick env) < 2 ^ 128"
    using load_slipstream_liquidity_parent_okD [OF assms(3)] uint_field_less [of 128 128]
    by (auto simp: env_def slipstream_tick_env_of_def liquidity_env_of_def)
  have amount: "0 \<le> le_amount env" "le_amount env < 2 ^ 127" using e(2) assms(2) by simp_all
  define d where "d = (if dl_is_mint event then uint (dl_amount event) else - uint (dl_amount event))"
  have sa: "signed_amount env = d" by (simp add: signed_amount_def e d_def)
  note eff = slipstream_tick_effect [OF amount [unfolded env_def] e(4) [unfolded env_def] assms(1) [folded t_def], folded env_def, unfolded sa e(1)]
  have keys: "ltu_keys u = slipstream_tick_info_storage_keys_with_base keccak256 t (ticks_base_slot layout)"
    using slipstream_update_keys [OF assms(1)] by (simp add: t_def slipstream_tick_env_of_def liquidity_env_of_def)
  from eff obtain words where w: "rmap (required s addr) (ltu_keys u) = Inr words" "length words = 6" "length (ltu_words u) = 6"
    "tick_gross (ltu_words u ! 0) = tick_gross (words ! 0) + d"
    "ltu_was_initialized u \<longleftrightarrow> tick_gross (words ! 0) \<noteq> 0" "ltu_is_initialized u \<longleftrightarrow> tick_gross (ltu_words u ! 0) \<noteq> 0"
    and i: "if ltu_is_initialized u
       then tick_net (ltu_words u ! 0) = tick_net (words ! 0) + (if upper then - d else d)
         \<and> tl (ltu_words u) = tl (if ltu_was_initialized u then words
             else slipstream_outside_words (slipstream_tick_env_of addr layout event parent) t words)
       else ltu_words u = [0, 0, 0, 0, 0, 0]" by blast
  define below where "below = (t \<le> s0_tick (lp_slot0 (sll_parent parent)))"
  define outside where "outside = slipstream_outside_words (slipstream_tick_env_of addr layout event parent) t words"
  have outside: "length outside = 6" "outside ! Suc 0 = words ! 1"
    "outside ! Suc 1 = (if below then lp_fee_growth_0 (sll_parent parent) else words ! 2)"
    "outside ! Suc 2 = (if below then lp_fee_growth_1 (sll_parent parent) else words ! 3)"
    "outside ! Suc 3 = (if below then sll_initial_reward_growth parent else words ! 4)"
    using w(2) by (simp_all add: outside_def slipstream_outside_words_def Let_def slipstream_tick_env_of_def liquidity_env_of_def
        below_def eval_nat_numeral)
  have first: "ltu_words u ! 1 = words ! 1
      \<and> ltu_words u ! 2 = (if below then lp_fee_growth_0 (sll_parent parent) else words ! 2)
      \<and> ltu_words u ! 3 = (if below then lp_fee_growth_1 (sll_parent parent) else words ! 3)
      \<and> ltu_words u ! 4 = (if below then sll_initial_reward_growth parent else words ! 4)"
    if "tl (ltu_words u) = tl outside"
    using nth_Suc_of_tl [OF that, of 0] nth_Suc_of_tl [OF that, of 1] nth_Suc_of_tl [OF that, of 2]
      nth_Suc_of_tl [OF that, of 3] outside w(3) by (simp add: eval_nat_numeral)
  have i': "if ltu_is_initialized u
       then tick_net (ltu_words u ! 0) = tick_net (words ! 0) + (if upper then - d else d)
         \<and> (if tick_gross (words ! 0) \<noteq> 0 then tl (ltu_words u) = tl words
            else ltu_words u ! 1 = words ! 1
              \<and> ltu_words u ! 2 = (if below then lp_fee_growth_0 (sll_parent parent) else words ! 2)
              \<and> ltu_words u ! 3 = (if below then lp_fee_growth_1 (sll_parent parent) else words ! 3)
              \<and> ltu_words u ! 4 = (if below then sll_initial_reward_growth parent else words ! 4))
       else ltu_words u = [0, 0, 0, 0, 0, 0]"
  proof (cases "ltu_is_initialized u")
    case True
    note i = i [unfolded if_P [OF True] outside_def [symmetric]]
    show ?thesis using i first w(5) unfolding if_P [OF True] by (cases "tick_gross (words ! 0) = 0") simp_all
  next
    case False
    then show ?thesis using i by simp
  qed
  have "\<exists>words. rmap (required s addr) (ltu_keys u) = Inr words \<and> length words = 6 \<and> length (ltu_words u) = 6
        \<and> tick_gross (ltu_words u ! 0) = tick_gross (words ! 0) + d
        \<and> (ltu_is_initialized u \<longleftrightarrow> tick_gross (ltu_words u ! 0) \<noteq> 0)
        \<and> (if ltu_is_initialized u
           then tick_net (ltu_words u ! 0) = tick_net (words ! 0) + (if upper then - d else d)
             \<and> (if tick_gross (words ! 0) \<noteq> 0 then tl (ltu_words u) = tl words
                else ltu_words u ! 1 = words ! 1
                  \<and> ltu_words u ! 2 = (if below then lp_fee_growth_0 (sll_parent parent) else words ! 2)
                  \<and> ltu_words u ! 3 = (if below then lp_fee_growth_1 (sll_parent parent) else words ! 3)
                  \<and> ltu_words u ! 4 = (if below then sll_initial_reward_growth parent else words ! 4))
           else ltu_words u = [0, 0, 0, 0, 0, 0])"
    by (rule exI [of _ words], intro conjI) (rule w(1-4,6) i')+
  with keys show ?thesis unfolding boundary_moved_def Let_def t_def [symmetric] d_def [symmetric] below_def [symmetric] by blast
qed

lemma slipstream_liquidity_amount:
  assumes "derive_slipstream_liquidity keccak256 addr layout event ctx state = Inr batch" "dl_amount event \<noteq> 0"
  shows "uint (dl_amount event) < 2 ^ 127"
  using assms by (auto simp: derive_slipstream_liquidity_def split: if_splits)

end
