(* ===== verification/Example_Slipstream_Mint.thy ===== *)
theory Example_Slipstream_Mint
  imports Example_Slipstream Example_Mint Slipstream_Liquidity
begin

text \<open>
  A concrete Mint on the Slipstream pool of \<open>Example_Slipstream\<close>: liquidity 5, under the cap of 7,
  on the ticks -200 to 400 around the current tick 0. Both ticks are new, with all their words
  cached as zero, and live in two different bitmap words.
\<close>

definition slip_mint_event :: decoded_liquidity where
  "slip_mint_event = \<lparr>dl_tick_lower = - 200, dl_tick_upper = 400, dl_amount = 5, dl_is_mint = True\<rparr>"

definition slip_mint_words :: "(u256 \<times> u256) list" where
  "slip_mint_words = [(14353, 0), (14354, 0), (14355, 0), (14356, 0), (14357, 0), (14358, 0),
     (36881, 0), (36882, 0), (36883, 0), (36884, 0), (36885, 0), (36886, 0), (65298, 0), (18, 0)]"

definition slip_mint_view :: state_view where
  "slip_mint_view a k = (if a = slip_pool then map_of (slip_mint_words @ slip_words) k else None)"

lemma slip_mint_view_words:
  "slip_mint_view slip_pool 6 = Some slip_slot0" "slip_mint_view slip_pool 7 = Some 11"
  "slip_mint_view slip_pool 8 = Some 12" "slip_mint_view slip_pool 9 = Some 13"
  "slip_mint_view slip_pool 16 = Some 2381976568446569244244622252022377480192"
  "slip_mint_view slip_pool 20 = Some demo_observation"
  "k \<in> fst ` set slip_mint_words \<Longrightarrow> slip_mint_view slip_pool k = Some 0"
  by (auto simp: slip_mint_view_def slip_words_def slip_mint_words_def)

lemma slip_mint_keys:
  "v3_tick_bitmap_storage_key_with_base mint_hash (- 1) 18 = 65298"
  "v3_tick_bitmap_storage_key_with_base mint_hash 0 18 = 18"
  "slipstream_tick_info_storage_keys_with_base mint_hash (- 200) 17 = [14353, 14354, 14355, 14356, 14357, 14358]"
  "slipstream_tick_info_storage_keys_with_base mint_hash 400 17 = [36881, 36882, 36883, 36884, 36885, 36886]"
  by (simp_all add: v3_tick_bitmap_storage_key_with_base_def slipstream_tick_info_storage_keys_with_base_def
      v3_tick_info_storage_base_def mint_hash_def i256_from_i16_def i256_from_i24_def to_be_bytes32_def
      nth_append Let_def nth_Cons' unsigned_minus_1_eq_mask mask_eq_exp_minus_1)

definition slip_mint_parent :: slipstream_liquidity_parent where
  "slip_mint_parent = \<lparr>sll_parent = \<lparr>lp_slot0 = slp_slot0 slip_parent, lp_active_liquidity = 1000000000000000000,
     lp_max_liquidity_per_tick = 7,
     lp_advance = (0, 1, Some (20, 452312848583266388373324265502478808609022575517998145922812786964535707600), demo_now),
     lp_fee_growth_0 = 11, lp_fee_growth_1 = 12, lp_timestamp = 2000\<rparr>, sll_initial_reward_growth = 0\<rparr>"

lemma slip_mint_advance: "advance_oracle slip_pool SLIPSTREAM_SURFACE (slp_slot0 slip_parent) 1000000000000000000 slip_ctx slip_mint_view
    = Inr (lp_advance (sll_parent slip_mint_parent))"
  by (simp add: advance_oracle_def Let_def slip_context SLIPSTREAM_SURFACE_def from_limbs_def)
     (simp add: slip_parent_def slip_mint_view_words demo_observation_decode demo_transform demo_encode slip_mint_parent_def
       slip_context)

lemma slip_mint_load: "load_slipstream_liquidity_parent slip_pool slip_layout slip_ctx slip_mint_view = Inr slip_mint_parent"
proof -
  have slot0: "validate_parent_slot0 (slp_slot0 slip_parent) = Inr ()"
    by (simp add: validate_parent_slot0_def slip_parent_def sqrt_ratio_min sqrt_ratio_max sqrt_ratio_zero demo_prices)
  have lock: "(ucast (drop_bit 232 (s0_raw (slp_slot0 slip_parent)) AND ucast (- 1 :: u8)) :: u8) = 1"
    by (simp add: slip_parent_def slip_slot0_def word_eval)
  have halves: "(2381976568446569244244622252022377480192 :: u256) AND WORD_128_MASK = 1000000000000000000"
    "(7 :: u256) AND WORD_128_MASK = 7"
    by (simp_all add: word_eval)
  have "ctx_chain_id slip_ctx = Some 8453" by (simp add: slip_ctx_eq)
  then show ?thesis
    by (simp add: load_slipstream_liquidity_parent_def Let_def slip_layout_def slipstream_slots slip_mint_view_words
        slip_slot0_decode slot0 lock halves slip_mint_advance slip_context)
      (simp add: slip_mint_parent_def)
qed

definition slip_mint_lower :: liquidity_tick_update where
  "slip_mint_lower = \<lparr>ltu_tick = - 200, ltu_keys = [14353, 14354, 14355, 14356, 14357, 14358],
     ltu_words = [5 + 5 * 2 ^ 128, 0, 11, 12, 0, unsigned_bits 0 56 OR push_bit 56 340282366920938463463374
        OR push_bit 216 2000 OR push_bit 248 1],
     ltu_was_initialized = False, ltu_is_initialized = True\<rparr>"

definition slip_mint_upper :: liquidity_tick_update where
  "slip_mint_upper = \<lparr>ltu_tick = 400, ltu_keys = [36881, 36882, 36883, 36884, 36885, 36886],
     ltu_words = [5 OR push_bit 128 (2 ^ 128 - 5), 0, 0, 0, 0, push_bit 248 1],
     ltu_was_initialized = False, ltu_is_initialized = True\<rparr>"

definition slip_mint_env :: slipstream_tick_env where
  "slip_mint_env = slipstream_tick_env_of slip_pool slip_layout slip_mint_event slip_mint_parent"

lemma slip_mint_base:
  "ste_base slip_mint_env = \<lparr>le_address = slip_pool, le_layout = layout_slipstream 200, le_current_tick = 0, le_amount = 5,
     le_is_mint = True, le_max_liquidity_per_tick = 7, le_fee_growth_0 = 11, le_fee_growth_1 = 12, le_now = demo_now,
     le_timestamp = 2000\<rparr>" "ste_initial_reward_growth slip_mint_env = 0"
  by (simp_all add: slip_mint_env_def slipstream_tick_env_of_def liquidity_env_of_def slip_mint_event_def slip_mint_parent_def
      slip_layout_def slip_parent_def)

lemma slip_mint_ticks:
  "update_slipstream_liquidity_tick mint_hash slip_mint_env (- 200) False slip_mint_view = Inr slip_mint_lower"
  "update_slipstream_liquidity_tick mint_hash slip_mint_env 400 True slip_mint_view = Inr slip_mint_upper"
  by (simp_all add: update_slipstream_liquidity_tick_def slip_mint_base slip_mint_keys slip_mint_view_words
      slip_mint_words_def validate_slipstream_tick_words_def next_gross_def next_net_def i128_checked_add_def
      Let_def checked_add_def slipstream_outside_words_def slip_mint_lower_def slip_mint_upper_def demo_now_def
      as_i128_def word_eval)

definition slip_mint_range :: "state_update list" where
  "slip_mint_range = [Slot slip_pool 20 452312848583266388373324265502478808609022575517998145922812786964535707600,
     Slot slip_pool 6 slip_slot0, Slot slip_pool 16 2381976568446569244244622252022377480197]"

lemma slip_mint_in_range:
  "slipstream_in_range_writes slip_pool slip_layout slip_mint_event (sll_parent slip_mint_parent) = Inr slip_mint_range"
proof -
  have enc: "encode_final (slp_slot0 slip_parent) (2 ^ 96) 0 0 1 = slip_slot0"
    by (simp add: encode_final_def Let_def slip_parent_def slip_slot0_def tick_bits_def word_eval)
  have fields: "s0_sqrt_price_x96 (slp_slot0 slip_parent) = 2 ^ 96" "s0_tick (slp_slot0 slip_parent) = 0"
    by (simp_all add: slip_parent_def)
  have word: "(1000000000000000005 :: u256) OR push_bit 128 7 = 2381976568446569244244622252022377480197"
    by (simp add: word_eval)
  show ?thesis
    using enc word
    by (simp add: slipstream_in_range_writes_def Let_def slip_mint_event_def slip_mint_parent_def fields checked_add_def
        le_WORD_128_MASK_iff not_less slip_mint_range_def slip_layout_def slipstream_slots)
qed

definition slip_mint_batch :: "state_update list" where
  "slip_mint_batch = liquidity_tick_writes slip_pool slip_mint_lower @ liquidity_tick_writes slip_pool slip_mint_upper
     @ [Slot slip_pool 18 4, Slot slip_pool 65298 (2 ^ 255)] @ slip_mint_range"

lemma slip_mint_run: "derive_slipstream_liquidity mint_hash slip_pool slip_layout slip_mint_event slip_ctx slip_mint_view
    = Inr slip_mint_batch"
proof -
  have range: "validate_slipstream_range slip_layout slip_mint_event = Inr ()"
    by (simp add: validate_slipstream_range_def slip_mint_event_def slip_layout_def)
  have ev: "dl_amount slip_mint_event = 5" "dl_tick_lower slip_mint_event = - 200" "dl_tick_upper slip_mint_event = 400"
    by (simp_all add: slip_mint_event_def)
  have bases: "tick_spacing slip_layout = 200" "tick_bitmap_base_slot slip_layout = 18"
    by (simp_all add: slip_layout_def)
  have cached: "slip_mint_view slip_pool 65298 = Some 0" "slip_mint_view slip_pool 18 = Some 0"
    by (simp_all add: slip_mint_view_words slip_mint_words_def)
  have flip1: "slipstream_flip mint_hash slip_pool slip_layout slip_mint_view slip_mint_lower ([], [])
      = Inr ([(65298, 2 ^ 255)], [65298])"
    by (simp add: slipstream_flip_def bases slip_mint_lower_def slip_mint_keys cached bt_entry_def bt_set_def div_euclid_def
        i32_checked_def i32_range_def Let_def)
  have flip2: "slipstream_flip mint_hash slip_pool slip_layout slip_mint_view slip_mint_upper ([(65298, 2 ^ 255)], [65298])
      = Inr ([(18, 4), (65298, 2 ^ 255)], [18, 65298])"
    by (simp add: slipstream_flip_def bases slip_mint_upper_def slip_mint_keys cached bt_entry_def bt_set_def div_euclid_def
        i32_checked_def i32_range_def Let_def)
  show ?thesis
    by (simp add: derive_slipstream_liquidity_def slip_event range ev slip_mint_load slip_mint_env_def [symmetric] slip_mint_ticks
        flip1 flip2 [simplified] slip_mint_in_range)
      (simp add: slip_mint_batch_def slipstream_bitmap_writes_def)
qed

end
