(* ===== verification/Pool_Types.thy ===== *)
theory Pool_Types
  imports Storage
begin

text \<open>
  Pool identities and registrations of \<open>src/adapters/types.rs\<close>, with the events and repairs an
  adapter reports, the routing predicate of \<open>registry.rs\<close> and the layout resolution of
  \<open>storage.rs\<close>. The variants behind the \<open>experimental-protocols\<close> feature are left out, as in
  \<open>Event_Types\<close>; the payload of custom metadata is opaque to the crate and is not represented.
\<close>

section \<open>Pool keys\<close>

datatype custom_pool_key =
    CustomAddress string address
  | CustomBytes32 string b256
  | CustomComposite string address b256

fun custom_protocol :: "custom_pool_key \<Rightarrow> protocol_id" where
  "custom_protocol (CustomAddress p _) = CustomProtocol p"
| "custom_protocol (CustomBytes32 p _) = CustomProtocol p"
| "custom_protocol (CustomComposite p _ _) = CustomProtocol p"

fun custom_address :: "custom_pool_key \<Rightarrow> address option" where
  "custom_address (CustomAddress _ a) = Some a"
| "custom_address (CustomComposite _ a _) = Some a"
| "custom_address (CustomBytes32 _ _) = None"

fun custom_bytes32 :: "custom_pool_key \<Rightarrow> b256 option" where
  "custom_bytes32 (CustomBytes32 _ i) = Some i"
| "custom_bytes32 (CustomComposite _ _ i) = Some i"
| "custom_bytes32 (CustomAddress _ _) = None"

datatype pool_key =
    UniswapV2Key address
  | UniswapV3Key address
  | PancakeV3Key address
  | SlipstreamKey address
  | SolidlyV2Key address
  | BalancerV2Key b256
  | CurveKey address
  | CustomKey custom_pool_key

fun key_protocol :: "pool_key \<Rightarrow> protocol_id" where
  "key_protocol (UniswapV2Key _) = UniswapV2"
| "key_protocol (UniswapV3Key _) = UniswapV3"
| "key_protocol (PancakeV3Key _) = PancakeV3"
| "key_protocol (SlipstreamKey _) = Slipstream"
| "key_protocol (SolidlyV2Key _) = SolidlyV2"
| "key_protocol (BalancerV2Key _) = BalancerV2"
| "key_protocol (CurveKey _) = Curve"
| "key_protocol (CustomKey k) = custom_protocol k"

fun key_address :: "pool_key \<Rightarrow> address option" where
  "key_address (UniswapV2Key a) = Some a"
| "key_address (UniswapV3Key a) = Some a"
| "key_address (PancakeV3Key a) = Some a"
| "key_address (SlipstreamKey a) = Some a"
| "key_address (SolidlyV2Key a) = Some a"
| "key_address (CurveKey a) = Some a"
| "key_address (CustomKey k) = custom_address k"
| "key_address (BalancerV2Key _) = None"

fun key_bytes32 :: "pool_key \<Rightarrow> b256 option" where
  "key_bytes32 (BalancerV2Key i) = Some i"
| "key_bytes32 (CustomKey k) = custom_bytes32 k"
| "key_bytes32 _ = None"

section \<open>Event sources\<close>

text \<open>A log of the chain, as the adapters see it.\<close>

record log =
  log_address :: address
  log_topics :: "b256 list"
  log_data :: "u8 list"

datatype event_route = Direct | IndexedAddress nat | IndexedBytes32 nat | AdapterDefined

record event_source =
  src_emitter :: address
  src_topics :: "b256 list"
  src_route :: event_route
  src_indexed_topics :: "b256 list list"

definition nth_opt :: "'a list \<Rightarrow> nat \<Rightarrow> 'a option" where
  "nth_opt xs i = (if i < length xs then Some (xs ! i) else None)"

definition matches_indexed_topics :: "event_source \<Rightarrow> b256 list \<Rightarrow> bool" where
  "matches_indexed_topics source topics =
    list_all (\<lambda>(index, expected). expected = []
        \<or> (case nth_opt topics (index + 1) of None \<Rightarrow> False | Some topic \<Rightarrow> topic \<in> set expected))
      (enumerate 0 (src_indexed_topics source))"

definition source_direct :: "address \<Rightarrow> b256 list \<Rightarrow> event_source" where
  "source_direct emitter topics = \<lparr>src_emitter = emitter, src_topics = topics, src_route = Direct,
     src_indexed_topics = [[], [], []]\<rparr>"

definition source_indexed_address :: "address \<Rightarrow> b256 list \<Rightarrow> nat \<Rightarrow> event_source" where
  "source_indexed_address emitter topics i = \<lparr>src_emitter = emitter, src_topics = topics,
     src_route = IndexedAddress i, src_indexed_topics = [[], [], []]\<rparr>"

definition source_indexed_bytes32 :: "address \<Rightarrow> b256 list \<Rightarrow> nat \<Rightarrow> event_source" where
  "source_indexed_bytes32 emitter topics i = \<lparr>src_emitter = emitter, src_topics = topics,
     src_route = IndexedBytes32 i, src_indexed_topics = [[], [], []]\<rparr>"

definition source_adapter_defined :: "address \<Rightarrow> b256 list \<Rightarrow> event_source" where
  "source_adapter_defined emitter topics = \<lparr>src_emitter = emitter, src_topics = topics,
     src_route = AdapterDefined, src_indexed_topics = [[], [], []]\<rparr>"

definition topic_address :: "b256 \<Rightarrow> address" where
  "topic_address topic = ucast topic"

definition event_source_matches :: "event_source \<Rightarrow> pool_key \<Rightarrow> log \<Rightarrow> bool" where
  "event_source_matches source key log \<longleftrightarrow>
    (if src_emitter source \<noteq> log_address log \<or> \<not> matches_indexed_topics source (log_topics log) then False
     else if src_topics source \<noteq> []
        \<and> \<not> (case nth_opt (log_topics log) 0 of None \<Rightarrow> False | Some topic0 \<Rightarrow> topic0 \<in> set (src_topics source)) then False
     else case src_route source of
         Direct \<Rightarrow> True
       | IndexedAddress topic_index \<Rightarrow>
           (case nth_opt (log_topics log) topic_index of None \<Rightarrow> False
            | Some topic \<Rightarrow> key_address key = Some (topic_address topic))
       | IndexedBytes32 topic_index \<Rightarrow>
           (case nth_opt (log_topics log) topic_index of None \<Rightarrow> False
            | Some topic \<Rightarrow> key_bytes32 key = Some topic)
       | AdapterDefined \<Rightarrow> False)"

section \<open>Metadata and registrations\<close>

record uniswap_v2_metadata =
  v2_token0 :: "address option"
  v2_token1 :: "address option"
  v2_fee_bps :: "u32 option"

record v3_metadata =
  v3_token0 :: "address option"
  v3_token1 :: "address option"
  v3_fee :: "u32 option"
  v3_tick_spacing :: "i32 option"
  v3_factory :: "address option"
  v3_quoter :: "address option"
  v3_storage_layout_override :: "v3_storage_layout option"
  v3_warm_word_radius :: "i16 option"
  v3_warmed_slots :: "u256 list"

record solidly_v2_metadata =
  sol_token0 :: "address option"
  sol_token1 :: "address option"
  sol_stable :: "bool option"
  sol_storage_layout :: "solidly_storage_layout option"

record balancer_token_balance =
  bal_token :: address
  bal_slot :: u256
  bal_high_field :: bool

record balancer_v2_metadata =
  bal_vault :: "address option"
  bal_pool_address :: "address option"
  bal_tokens :: "address list"
  bal_balance_slots :: "u256 list"
  bal_token_cash :: "balancer_token_balance list"

datatype curve_variant = StableSwap | CryptoSwap | CryptoSwapNG

record curve_metadata =
  crv_coins :: "address list"
  crv_discovered_slots :: "u256 list"
  crv_variant :: curve_variant
  crv_code_seed :: "u8 list option"

datatype protocol_metadata =
    UnknownMetadata
  | UniswapV2Meta uniswap_v2_metadata
  | UniswapV3Meta v3_metadata
  | PancakeV3Meta v3_metadata
  | SlipstreamMeta v3_metadata
  | BalancerV2Meta balancer_v2_metadata
  | SolidlyV2Meta solidly_v2_metadata
  | CurveMeta curve_metadata
  | CustomMeta

fun metadata_protocol_id :: "protocol_metadata \<Rightarrow> protocol_id option" where
  "metadata_protocol_id (UniswapV2Meta _) = Some UniswapV2"
| "metadata_protocol_id (UniswapV3Meta _) = Some UniswapV3"
| "metadata_protocol_id (PancakeV3Meta _) = Some PancakeV3"
| "metadata_protocol_id (SlipstreamMeta _) = Some Slipstream"
| "metadata_protocol_id (SolidlyV2Meta _) = Some SolidlyV2"
| "metadata_protocol_id (BalancerV2Meta _) = Some BalancerV2"
| "metadata_protocol_id (CurveMeta _) = Some Curve"
| "metadata_protocol_id UnknownMetadata = None"
| "metadata_protocol_id CustomMeta = None"

definition pair_tokens :: "address option \<Rightarrow> address option \<Rightarrow> address list option" where
  "pair_tokens token0 token1 =
    (case token0 of None \<Rightarrow> None | Some t0 \<Rightarrow> (case token1 of None \<Rightarrow> None | Some t1 \<Rightarrow> Some [t0, t1]))"

definition many_tokens :: "address list \<Rightarrow> address list option" where
  "many_tokens tokens = (if tokens = [] then None else Some tokens)"

fun metadata_tokens :: "protocol_metadata \<Rightarrow> address list option" where
  "metadata_tokens (UniswapV2Meta m) = pair_tokens (v2_token0 m) (v2_token1 m)"
| "metadata_tokens (UniswapV3Meta m) = pair_tokens (v3_token0 m) (v3_token1 m)"
| "metadata_tokens (PancakeV3Meta m) = pair_tokens (v3_token0 m) (v3_token1 m)"
| "metadata_tokens (SlipstreamMeta m) = pair_tokens (v3_token0 m) (v3_token1 m)"
| "metadata_tokens (SolidlyV2Meta m) = pair_tokens (sol_token0 m) (sol_token1 m)"
| "metadata_tokens (BalancerV2Meta m) = many_tokens (bal_tokens m)"
| "metadata_tokens (CurveMeta m) = many_tokens (crv_coins m)"
| "metadata_tokens UnknownMetadata = None"
| "metadata_tokens CustomMeta = None"

record sim_config =
  sim_v3_quoter :: address
  sim_v2_router :: address
  sim_from :: address

definition quote_target :: "v3_metadata \<Rightarrow> sim_config \<Rightarrow> address" where
  "quote_target m config = (case v3_quoter m of Some q \<Rightarrow> q | None \<Rightarrow> sim_v3_quoter config)"

fun quote_code_targets :: "protocol_metadata \<Rightarrow> sim_config \<Rightarrow> address list" where
  "quote_code_targets (UniswapV2Meta _) config = [sim_v2_router config]"
| "quote_code_targets (UniswapV3Meta m) config = [quote_target m config]"
| "quote_code_targets (PancakeV3Meta m) config = [quote_target m config]"
| "quote_code_targets (SlipstreamMeta m) config = [quote_target m config]"
| "quote_code_targets (BalancerV2Meta m) config = (case bal_vault m of None \<Rightarrow> [] | Some v \<Rightarrow> [v])"
| "quote_code_targets _ config = []"

datatype pool_status = Pending | Cold | Ready | Degraded | Disabled | StatusUnsupported

record pool_registration =
  reg_key :: pool_key
  reg_state_addresses :: "address list"
  reg_event_sources :: "event_source list"
  reg_metadata :: protocol_metadata
  reg_status :: pool_status

definition registration_new :: "pool_key \<Rightarrow> pool_registration" where
  "registration_new key = \<lparr>reg_key = key, reg_state_addresses = [], reg_event_sources = [],
     reg_metadata = UnknownMetadata, reg_status = Pending\<rparr>"

definition reg_protocol :: "pool_registration \<Rightarrow> protocol_id" where
  "reg_protocol pool = key_protocol (reg_key pool)"

record protocol_mismatch =
  mm_key :: pool_key
  mm_key_protocol :: protocol_id
  mm_metadata_protocol :: protocol_id

definition check_protocol_agreement :: "pool_registration \<Rightarrow> protocol_mismatch + unit" where
  "check_protocol_agreement pool =
    (case metadata_protocol_id (reg_metadata pool) of
       Some metadata_protocol \<Rightarrow>
         if metadata_protocol \<noteq> key_protocol (reg_key pool)
         then Inl \<lparr>mm_key = reg_key pool, mm_key_protocol = key_protocol (reg_key pool),
                   mm_metadata_protocol = metadata_protocol\<rparr>
         else Inr ()
     | None \<Rightarrow> Inr ())"

definition with_metadata :: "pool_registration \<Rightarrow> protocol_metadata \<Rightarrow> pool_registration" where
  "with_metadata pool m = pool\<lparr>reg_metadata := m\<rparr>"

definition try_with_metadata :: "pool_registration \<Rightarrow> protocol_metadata \<Rightarrow> protocol_mismatch + pool_registration" where
  "try_with_metadata pool m =
    (let pool' = pool\<lparr>reg_metadata := m\<rparr>
     in case check_protocol_agreement pool' of Inl e \<Rightarrow> Inl e | Inr _ \<Rightarrow> Inr pool')"

definition with_status :: "pool_registration \<Rightarrow> pool_status \<Rightarrow> pool_registration" where
  "with_status pool s = pool\<lparr>reg_status := s\<rparr>"

definition with_event_source :: "pool_registration \<Rightarrow> event_source \<Rightarrow> pool_registration" where
  "with_event_source pool s = pool\<lparr>reg_event_sources := reg_event_sources pool @ [s]\<rparr>"

definition with_state_address :: "pool_registration \<Rightarrow> address \<Rightarrow> pool_registration" where
  "with_state_address pool a = pool\<lparr>reg_state_addresses := reg_state_addresses pool @ [a]\<rparr>"

section \<open>Layout resolution\<close>

definition layout_from_metadata :: "v3_metadata \<Rightarrow> protocol_id \<Rightarrow> v3_storage_layout option" where
  "layout_from_metadata m protocol =
    (case (case v3_storage_layout_override m of
             Some layout \<Rightarrow> Some layout
           | None \<Rightarrow> (case v3_tick_spacing m of
                 None \<Rightarrow> None
               | Some spacing \<Rightarrow> (case protocol of
                     UniswapV3 \<Rightarrow> Some (layout_uniswap spacing)
                   | PancakeV3 \<Rightarrow> Some (layout_pancake spacing)
                   | Slipstream \<Rightarrow> Some (layout_slipstream spacing)
                   | _ \<Rightarrow> None)))
     of None \<Rightarrow> None
      | Some layout \<Rightarrow> if 0 < tick_spacing layout then Some layout else None)"

fun layout_for :: "pool_registration \<Rightarrow> v3_storage_layout option" where
  "layout_for pool =
    (case reg_metadata pool of
       UniswapV3Meta m \<Rightarrow> layout_from_metadata m UniswapV3
     | PancakeV3Meta m \<Rightarrow> layout_from_metadata m PancakeV3
     | SlipstreamMeta m \<Rightarrow> layout_from_metadata m Slipstream
     | _ \<Rightarrow> None)"

section \<open>Adapter events and repairs\<close>

datatype cold_start_policy = Strict | Eager | Lazy | HotSlotsOnly

datatype repair_action =
    NoRepair
  | VerifySlots "(address \<times> u256) list"
  | PurgeStorage address
  | PurgeSlots address "u256 list"
  | ColdStartRepair pool_key cold_start_policy
  | V3TickRange pool_key i32 i32
  | V3Incremental pool_key
  | V3Full pool_key

datatype update_quality = Exact | ExactIfApplied | RequiresRepair | ConservativeInvalidation | Ignored

datatype adapter_event_kind = Swap | LiquidityAdded | LiquidityRemoved | Sync | Deposit | Withdraw | UnknownEvent

record adapter_event =
  ae_pool :: pool_key
  ae_emitter :: address
  ae_topic0 :: b256
  ae_kind :: adapter_event_kind
  ae_updates :: "state_update list"
  ae_quality :: update_quality
  ae_repair :: repair_action

record adapter_event_result =
  aer_event :: "adapter_event option"
  aer_error :: "adapter_event_error option"

definition result_event :: "adapter_event \<Rightarrow> adapter_event_result" where
  "result_event e = \<lparr>aer_event = Some e, aer_error = None\<rparr>"

definition result_ignored :: adapter_event_result where
  "result_ignored = \<lparr>aer_event = None, aer_error = None\<rparr>"

definition result_error :: "adapter_event_error \<Rightarrow> adapter_event_result" where
  "result_error err = \<lparr>aer_event = None, aer_error = Some err\<rparr>"

definition result_event_with_error :: "adapter_event \<Rightarrow> adapter_event_error \<Rightarrow> adapter_event_result" where
  "result_event_with_error e err = \<lparr>aer_event = Some e, aer_error = Some err\<rparr>"

section \<open>Facts\<close>

lemma check_protocol_agreement_Inr:
  "check_protocol_agreement pool = Inr u \<longleftrightarrow>
    (\<forall>p. metadata_protocol_id (reg_metadata pool) = Some p \<longrightarrow> p = reg_protocol pool)"
  by (auto simp: check_protocol_agreement_def reg_protocol_def split: option.splits if_splits)

lemma check_protocol_agreement_Inl:
  "check_protocol_agreement pool = Inl e \<longleftrightarrow>
    (\<exists>p. metadata_protocol_id (reg_metadata pool) = Some p \<and> p \<noteq> reg_protocol pool
      \<and> e = \<lparr>mm_key = reg_key pool, mm_key_protocol = reg_protocol pool, mm_metadata_protocol = p\<rparr>)"
  by (auto simp: check_protocol_agreement_def reg_protocol_def split: option.splits if_splits)

text \<open>A resolved layout has a positive spacing, and exists only for the concentrated-liquidity families.\<close>

lemma layout_for_SomeD:
  assumes "layout_for pool = Some layout"
  shows "0 < tick_spacing layout"
    "\<exists>p \<in> {UniswapV3, PancakeV3, Slipstream}. metadata_protocol_id (reg_metadata pool) = Some p"
proof -
  have "layout_from_metadata m p = Some layout \<Longrightarrow> 0 < tick_spacing layout" for m p
    by (auto simp: layout_from_metadata_def split: option.splits if_splits)
  with assms show "0 < tick_spacing layout" by (auto split: protocol_metadata.splits)
  show "\<exists>p \<in> {UniswapV3, PancakeV3, Slipstream}. metadata_protocol_id (reg_metadata pool) = Some p"
    using assms by (auto split: protocol_metadata.splits)
qed

end
