(* ===== verification/Registry.thy ===== *)
theory Registry
  imports Pool_Types
begin

text \<open>
  \<open>src/adapters/registry.rs\<close>: the registry of adapters and tracked pools, with its mutations, the
  routing of logs to pools and the subscription filter.

  A \<open>HashMap\<close> is a partial function. Where the code iterates over one, the order is unspecified:
  it is a list argument that \<open>iterates\<close> relates to the map, and the properties hold for every
  such order. An adapter is the record of the trait methods that the registry calls, with an identity
  for \<open>Arc::ptr_eq\<close>; its \<open>route_log\<close> sees the pools of the registry. The access lists of the cache crate
  are a type parameter.
\<close>

section \<open>State\<close>

record amm_adapter =
  ad_identity :: nat
  ad_protocols :: "protocol_id list"
  ad_event_sources :: "pool_registration \<Rightarrow> event_source list"
  ad_route_log :: "log \<Rightarrow> (pool_key \<rightharpoonup> pool_registration) \<Rightarrow> pool_key option"

record quote_warmup =
  qw_pool :: pool_key
  qw_token_in :: address
  qw_token_out :: address
  qw_amount_in :: u256

record quote_read_set_limits =
  max_accounts :: nat
  max_code_hashes :: nat
  max_slots :: nat
  max_block_hashes :: nat

record 'acc adapter_registry =
  adapters :: "protocol_id \<rightharpoonup> amm_adapter"
  pools :: "pool_key \<rightharpoonup> pool_registration"
  code_seeding :: bool
  registry_sim_config :: sim_config
  quote_read_sets :: "quote_warmup \<rightharpoonup> 'acc"
  read_set_limits :: quote_read_set_limits
  quote_readiness_required :: bool

datatype registry_error =
    DuplicatePool pool_key
  | DuplicateAdapter protocol_id
  | AdapterInUse protocol_id pool_key
  | ProtocolMismatchError protocol_mismatch

text \<open>An order in which a hash map may be iterated, and its values in that order.\<close>

definition iterates :: "'k list \<Rightarrow> ('k \<rightharpoonup> 'v) \<Rightarrow> bool" where
  "iterates ks m \<longleftrightarrow> distinct ks \<and> set ks = dom m"

definition values_in :: "'k list \<Rightarrow> ('k \<rightharpoonup> 'v) \<Rightarrow> 'v list" where
  "values_in ks m = List.map_filter m ks"

section \<open>Construction\<close>

definition sim_config_default :: sim_config where
  "sim_config_default = \<lparr>sim_v3_quoter = 0x61fFE014bA17989E743c5F6cB21bF9697530B21e,
     sim_v2_router = 0x7a250d5630B4cF539739dF2C5dAcb4c659F2488D, sim_from = 0\<rparr>"

definition quote_read_set_limits_default :: quote_read_set_limits where
  "quote_read_set_limits_default = \<lparr>max_accounts = 4096, max_code_hashes = 4096, max_slots = 131072,
     max_block_hashes = 256\<rparr>"

definition registry_new :: "'acc adapter_registry" where
  "registry_new = \<lparr>adapters = Map.empty, pools = Map.empty, code_seeding = True,
     registry_sim_config = sim_config_default, quote_read_sets = Map.empty,
     read_set_limits = quote_read_set_limits_default, quote_readiness_required = False\<rparr>"

definition with_code_seeding :: "'acc adapter_registry \<Rightarrow> bool \<Rightarrow> 'acc adapter_registry" where
  "with_code_seeding r enabled = r\<lparr>code_seeding := enabled\<rparr>"

definition with_sim_config :: "'acc adapter_registry \<Rightarrow> sim_config \<Rightarrow> 'acc adapter_registry" where
  "with_sim_config r config =
    (let r = (if registry_sim_config r \<noteq> config then r\<lparr>quote_read_sets := Map.empty\<rparr> else r)
     in r\<lparr>registry_sim_config := config\<rparr>)"

definition with_quote_read_set_limits :: "'acc adapter_registry \<Rightarrow> quote_read_set_limits \<Rightarrow> 'acc adapter_registry" where
  "with_quote_read_set_limits r limits = r\<lparr>read_set_limits := limits\<rparr>"

definition with_quote_readiness_required :: "'acc adapter_registry \<Rightarrow> bool \<Rightarrow> 'acc adapter_registry" where
  "with_quote_readiness_required r needed = r\<lparr>quote_readiness_required := needed\<rparr>"

definition has_quote_read_sets :: "'acc adapter_registry \<Rightarrow> bool" where
  "has_quote_read_sets r \<longleftrightarrow> dom (quote_read_sets r) \<noteq> {}"

section \<open>Pools\<close>

definition register_pool ::
  "'acc adapter_registry \<Rightarrow> pool_registration \<Rightarrow> registry_error + 'acc adapter_registry" where
  "register_pool r registration =
    (if pools r (reg_key registration) \<noteq> None then Inl (DuplicatePool (reg_key registration))
     else case check_protocol_agreement registration of
         Inl mismatch \<Rightarrow> Inl (ProtocolMismatchError mismatch)
       | Inr _ \<Rightarrow> Inr (r\<lparr>pools := (pools r)(reg_key registration \<mapsto> registration)\<rparr>))"

definition retain_other_pools :: "pool_key \<Rightarrow> (quote_warmup \<rightharpoonup> 'acc) \<Rightarrow> (quote_warmup \<rightharpoonup> 'acc)" where
  "retain_other_pools key m = (\<lambda>warmup. if qw_pool warmup \<noteq> key then m warmup else None)"

definition unregister_pool ::
  "'acc adapter_registry \<Rightarrow> pool_key \<Rightarrow> pool_registration option \<times> 'acc adapter_registry" where
  "unregister_pool r key =
    (pools r key, r\<lparr>quote_read_sets := retain_other_pools key (quote_read_sets r), pools := (pools r)(key := None)\<rparr>)"

text \<open>\<open>pool_mut\<close> hands out a mutable borrow: \<open>f\<close> is what the caller does to the registration with it.\<close>

definition pool_mut ::
  "'acc adapter_registry \<Rightarrow> pool_key \<Rightarrow> (pool_registration \<Rightarrow> pool_registration) \<Rightarrow> 'acc adapter_registry" where
  "pool_mut r key f =
    r\<lparr>quote_read_sets := retain_other_pools key (quote_read_sets r),
      pools := (case pools r key of None \<Rightarrow> pools r | Some p \<Rightarrow> (pools r)(key \<mapsto> f p))\<rparr>"

definition update_pool_status ::
  "'acc adapter_registry \<Rightarrow> pool_key \<Rightarrow> pool_status \<Rightarrow> pool_registration option \<times> 'acc adapter_registry" where
  "update_pool_status r key status =
    (case pools r key of
       None \<Rightarrow> (None, r)
     | Some registration \<Rightarrow>
         let registration = registration\<lparr>reg_status := status\<rparr>
         in (Some registration, r\<lparr>pools := (pools r)(key \<mapsto> registration)\<rparr>))"

section \<open>Adapters\<close>

fun first_taken :: "('k \<rightharpoonup> 'v) \<Rightarrow> 'k list \<Rightarrow> 'k option" where
  "first_taken m [] = None"
| "first_taken m (k # ks) = (if m k \<noteq> None then Some k else first_taken m ks)"

definition register_adapter ::
  "'acc adapter_registry \<Rightarrow> amm_adapter \<Rightarrow> registry_error + 'acc adapter_registry" where
  "register_adapter r adapter =
    (case first_taken (adapters r) (ad_protocols adapter) of
       Some protocol \<Rightarrow> Inl (DuplicateAdapter protocol)
     | None \<Rightarrow> Inr (r\<lparr>adapters := fold (\<lambda>protocol m. m(protocol \<mapsto> adapter)) (ad_protocols adapter) (adapters r)\<rparr>))"

definition unregister_adapter_prevalidated ::
  "'acc adapter_registry \<Rightarrow> protocol_id \<Rightarrow> amm_adapter option \<times> 'acc adapter_registry" where
  "unregister_adapter_prevalidated r protocol =
    (case adapters r protocol of
       None \<Rightarrow> (None, r)
     | Some adapter \<Rightarrow>
         (Some adapter, r\<lparr>adapters := fold (\<lambda>i m. m(i := None)) (ad_protocols adapter) (adapters r)\<rparr>))"

definition unregister_adapter ::
  "pool_key list \<Rightarrow> 'acc adapter_registry \<Rightarrow> protocol_id
    \<Rightarrow> registry_error + (amm_adapter option \<times> 'acc adapter_registry)" where
  "unregister_adapter order r protocol =
    (case adapters r protocol of
       None \<Rightarrow> Inr (None, r)
     | Some adapter \<Rightarrow>
         (case find (\<lambda>pool. key_protocol (reg_key pool) \<in> set (ad_protocols adapter)) (values_in order (pools r)) of
            Some pool \<Rightarrow> Inl (AdapterInUse (key_protocol (reg_key pool)) (reg_key pool))
          | None \<Rightarrow> Inr (unregister_adapter_prevalidated r protocol)))"

section \<open>Routing\<close>

definition route_log_generic :: "pool_key list \<Rightarrow> 'acc adapter_registry \<Rightarrow> log \<Rightarrow> pool_registration option" where
  "route_log_generic order r log =
    find (\<lambda>registration. list_ex (\<lambda>source. event_source_matches source (reg_key registration) log)
        (reg_event_sources registration)) (values_in order (pools r))"

text \<open>The fallback over the adapters, each consulted at its first occurrence only.\<close>

fun route_log_adapters :: "'acc adapter_registry \<Rightarrow> log \<Rightarrow> amm_adapter list \<Rightarrow> amm_adapter list \<Rightarrow> pool_registration option" where
  "route_log_adapters r log earlier [] = None"
| "route_log_adapters r log earlier (adapter # rest) =
    (if list_ex (\<lambda>e. ad_identity e = ad_identity adapter) earlier
     then route_log_adapters r log (earlier @ [adapter]) rest
     else case ad_route_log adapter log (pools r) of
         Some key \<Rightarrow> (case pools r key of
             Some pool \<Rightarrow> Some pool
           | None \<Rightarrow> route_log_adapters r log (earlier @ [adapter]) rest)
       | None \<Rightarrow> route_log_adapters r log (earlier @ [adapter]) rest)"

definition route_log ::
  "pool_key list \<Rightarrow> protocol_id list \<Rightarrow> 'acc adapter_registry \<Rightarrow> log \<Rightarrow> pool_registration option" where
  "route_log order adapter_order r log =
    (case route_log_generic order r log of
       Some pool \<Rightarrow> Some pool
     | None \<Rightarrow> route_log_adapters r log [] (values_in adapter_order (adapters r)))"

section \<open>Subscriptions\<close>

definition event_sources_for :: "'acc adapter_registry \<Rightarrow> pool_registration \<Rightarrow> event_source list" where
  "event_sources_for r pool =
    (case adapters r (reg_protocol pool) of
       None \<Rightarrow> reg_event_sources pool
     | Some adapter \<Rightarrow>
         fold (\<lambda>source sources. if source \<in> set sources then sources else sources @ [source])
           (ad_event_sources adapter pool) (reg_event_sources pool))"

definition subscription_spec :: "pool_key list \<Rightarrow> 'acc adapter_registry \<Rightarrow> event_source list" where
  "subscription_spec order r = concat (map (event_sources_for r) (values_in order (pools r)))"

definition subscription_topics :: "pool_key list \<Rightarrow> 'acc adapter_registry \<Rightarrow> b256 list" where
  "subscription_topics order r = remdups_adj (sort (concat (map src_topics (subscription_spec order r))))"

section \<open>Deferred work\<close>

datatype deferred_work =
    DeferVerifySlots "(address \<times> u256) list"
  | DeferRepair repair_action
  | DeferColdStart pool_key cold_start_policy
  | DeferCustom string

text \<open>\<open>verify_slots\<close> of the cache is code of another crate: a function from the cache to its changes.\<close>

fun run_deferred ::
  "('cache \<Rightarrow> (address \<times> u256) list \<Rightarrow> 'err + (slot_change list \<times> 'cache)) \<Rightarrow> deferred_work list \<Rightarrow> 'cache
    \<Rightarrow> slot_change list \<times> deferred_work list \<Rightarrow> 'err + ((slot_change list \<times> deferred_work list) \<times> 'cache)" where
  "run_deferred verify_slots [] cache outcome = Inr (outcome, cache)"
| "run_deferred verify_slots (work # deferred) cache (verified, unhandled) =
    (case (case work of DeferVerifySlots slots \<Rightarrow> Some slots | DeferRepair (VerifySlots slots) \<Rightarrow> Some slots | _ \<Rightarrow> None) of
       Some slots \<Rightarrow> (case verify_slots cache slots of
           Inl e \<Rightarrow> Inl e
         | Inr (changes, cache') \<Rightarrow> run_deferred verify_slots deferred cache' (verified @ changes, unhandled))
     | None \<Rightarrow> run_deferred verify_slots deferred cache (verified, unhandled @ [work]))"

section \<open>A keyed store\<close>

text \<open>
  The contract of a fallible keyed store, and what follows for its clients: no key is stored
  twice, and removing an entry undoes its addition.
\<close>

locale keyed_store =
  fixes entry :: "'s \<Rightarrow> 'k \<Rightarrow> 'v option" and key_of :: "'v \<Rightarrow> 'k"
    and add :: "'s \<Rightarrow> 'v \<Rightarrow> 'e + 's" and del :: "'s \<Rightarrow> 'k \<Rightarrow> 's"
  assumes add_fresh: "add s v = Inr s' \<Longrightarrow> entry s (key_of v) = None"
    and add_entry: "add s v = Inr s' \<Longrightarrow> entry s' k = (if k = key_of v then Some v else entry s k)"
    and del_entry: "entry (del s k) k' = (if k' = k then None else entry s k')"
begin

lemma second_add_fails:
  assumes "add s v = Inr s'" "key_of v' = key_of v"
  shows "\<exists>e. add s' v' = Inl e"
proof (cases "add s' v'")
  case (Inr s'')
  from add_fresh [OF this] add_entry [OF assms(1), of "key_of v"] assms(2) show ?thesis by simp
qed simp

lemma del_undoes_add: "add s v = Inr s' \<Longrightarrow> entry (del s' (key_of v)) = entry s"
  by (rule ext) (auto simp: del_entry add_entry add_fresh)

end

interpretation pool_store: keyed_store pools reg_key register_pool "\<lambda>r key. snd (unregister_pool r key)"
  by unfold_locales (auto simp: register_pool_def unregister_pool_def split: if_splits sum.splits)

section \<open>Iteration orders\<close>

lemma set_values_in: "iterates ks m \<Longrightarrow> set (values_in ks m) = ran m"
  by (force simp: iterates_def values_in_def ran_def List.map_filter_def dom_def)

lemma find_values_in_Some:
  "find P (values_in ks m) = Some v \<Longrightarrow> v \<in> ran m \<and> P v"
proof -
  assume f: "find P (values_in ks m) = Some v"
  then have "v \<in> set (values_in ks m) \<and> P v" by (auto simp: find_Some_iff)
  then show ?thesis by (auto simp: values_in_def List.map_filter_def ran_def)
qed

lemma find_values_in_None:
  "iterates ks m \<Longrightarrow> find P (values_in ks m) = None \<longleftrightarrow> (\<forall>v \<in> ran m. \<not> P v)"
  by (auto simp: find_None_iff set_values_in)

section \<open>The invariant\<close>

text \<open>
  Every pool is stored under its own key and names one venue; every adapter is stored under all the
  protocols it serves.
\<close>

definition pools_ok :: "'acc adapter_registry \<Rightarrow> bool" where
  "pools_ok r \<longleftrightarrow> (\<forall>k p. pools r k = Some p \<longrightarrow> reg_key p = k \<and> check_protocol_agreement p = Inr ())"

definition adapters_ok :: "'acc adapter_registry \<Rightarrow> bool" where
  "adapters_ok r \<longleftrightarrow> (\<forall>q a. adapters r q = Some a \<longrightarrow>
    q \<in> set (ad_protocols a) \<and> (\<forall>q' \<in> set (ad_protocols a). adapters r q' = Some a))"

definition registry_ok :: "'acc adapter_registry \<Rightarrow> bool" where
  "registry_ok r \<longleftrightarrow> pools_ok r \<and> adapters_ok r"

lemma adapters_ok_cong: "adapters r' = adapters r \<Longrightarrow> adapters_ok r' \<longleftrightarrow> adapters_ok r"
  by (simp only: adapters_ok_def)

lemma adapters_ok_empty: "adapters r = Map.empty \<Longrightarrow> adapters_ok r"
  by (simp add: adapters_ok_def)

lemma fold_insert_map: "fold (\<lambda>k m. m(k \<mapsto> v)) ks m = (\<lambda>k. if k \<in> set ks then Some v else m k)"
  by (induction ks arbitrary: m) auto

lemma fold_remove_map: "fold (\<lambda>k m. m(k := None)) ks m = (\<lambda>k. if k \<in> set ks then None else m k)"
  by (induction ks arbitrary: m) auto

lemma first_taken_None: "first_taken m ks = None \<longleftrightarrow> (\<forall>k \<in> set ks. m k = None)"
  by (induction ks) auto

lemma first_taken_Some: "first_taken m ks = Some k \<Longrightarrow> k \<in> set ks \<and> m k \<noteq> None"
  by (induction ks) (auto split: if_splits)

lemma register_adapter_ok:
  assumes "adapters_ok r" "register_adapter r a = Inr r'"
  shows "adapters_ok r'" "pools r' = pools r"
    "adapters r' q = (if q \<in> set (ad_protocols a) then Some a else adapters r q)"
proof -
  have free: "\<forall>q \<in> set (ad_protocols a). adapters r q = None"
    and r': "r' = r\<lparr>adapters := \<lambda>q. if q \<in> set (ad_protocols a) then Some a else adapters r q\<rparr>"
    using assms(2) by (auto simp: register_adapter_def first_taken_None fold_insert_map split: option.splits)
  from r' show "pools r' = pools r" "adapters r' q = (if q \<in> set (ad_protocols a) then Some a else adapters r q)"
    by simp_all
  show "adapters_ok r'"
    unfolding adapters_ok_def
  proof (intro allI impI)
    fix q b
    assume b: "adapters r' q = Some b"
    show "q \<in> set (ad_protocols b) \<and> (\<forall>q' \<in> set (ad_protocols b). adapters r' q' = Some b)"
    proof (cases "q \<in> set (ad_protocols a)")
      case True
      then show ?thesis using b by (simp add: r')
    next
      case False
      then have "adapters r q = Some b" using b by (simp add: r')
      then have q: "q \<in> set (ad_protocols b)" "\<forall>q' \<in> set (ad_protocols b). adapters r q' = Some b"
        using assms(1) unfolding adapters_ok_def by blast+
      have "adapters r' q' = Some b" if "q' \<in> set (ad_protocols b)" for q'
        using q(2) free that by (auto simp: r')
      with q(1) show ?thesis by blast
    qed
  qed
qed

lemma unregister_prevalidated_ok:
  assumes "adapters_ok r" "unregister_adapter_prevalidated r q = (a, r')"
  shows "adapters_ok r'" "pools r' = pools r" "a = adapters r q" "adapters r' q = None"
    "adapters r' p = (case a of None \<Rightarrow> adapters r p
       | Some b \<Rightarrow> if p \<in> set (ad_protocols b) then None else adapters r p)"
proof -
  have "adapters_ok r' \<and> pools r' = pools r \<and> a = adapters r q \<and> adapters r' q = None
    \<and> adapters r' p = (case a of None \<Rightarrow> adapters r p
       | Some b \<Rightarrow> if p \<in> set (ad_protocols b) then None else adapters r p)"
  proof (cases "adapters r q")
    case None
    then show ?thesis using assms by (simp add: unregister_adapter_prevalidated_def)
  next
    case (Some b)
    then have r': "a = Some b" "r' = r\<lparr>adapters := \<lambda>q. if q \<in> set (ad_protocols b) then None else adapters r q\<rparr>"
      using assms(2) by (auto simp: unregister_adapter_prevalidated_def fold_remove_map)
    have b: "q \<in> set (ad_protocols b)" "\<forall>q' \<in> set (ad_protocols b). adapters r q' = Some b"
      using assms(1) Some unfolding adapters_ok_def by blast+
    have "adapters_ok r'"
      unfolding adapters_ok_def
    proof (intro allI impI)
      fix p c
      assume "adapters r' p = Some c"
      then have p: "p \<notin> set (ad_protocols b)" "adapters r p = Some c" by (simp_all add: r' split: if_splits)
      then have c: "p \<in> set (ad_protocols c)" "\<forall>q' \<in> set (ad_protocols c). adapters r q' = Some c"
        using assms(1) unfolding adapters_ok_def by blast+
      have "adapters r' q' = Some c" if "q' \<in> set (ad_protocols c)" for q'
        using c b(2) p(1) that by (auto simp: r')
      with c(1) show "p \<in> set (ad_protocols c) \<and> (\<forall>q' \<in> set (ad_protocols c). adapters r' q' = Some c)" by blast
    qed
    then show ?thesis using r' b(1) Some by simp
  qed
  then show "adapters_ok r'" "pools r' = pools r" "a = adapters r q" "adapters r' q = None"
    "adapters r' p = (case a of None \<Rightarrow> adapters r p
       | Some b \<Rightarrow> if p \<in> set (ad_protocols b) then None else adapters r p)"
    by blast+
qed

lemma unregister_adapter_Inr:
  assumes "iterates order (pools r)"
  shows "unregister_adapter order r q = Inr (a, r') \<longleftrightarrow>
    unregister_adapter_prevalidated r q = (a, r')
    \<and> (\<forall>b p. adapters r q = Some b \<longrightarrow> p \<in> ran (pools r) \<longrightarrow> reg_protocol p \<notin> set (ad_protocols b))"
proof (cases "adapters r q")
  case None
  then show ?thesis by (auto simp: unregister_adapter_def unregister_adapter_prevalidated_def)
next
  case (Some b)
  let ?served = "\<lambda>pool. key_protocol (reg_key pool) \<in> set (ad_protocols b)"
  note n = find_values_in_None [OF assms, of ?served]
  show ?thesis
  proof (cases "find ?served (values_in order (pools r))")
    case None
    then show ?thesis using n Some by (simp add: unregister_adapter_def reg_protocol_def)
  next
    case (Some p)
    note find_values_in_Some [OF Some]
    then show ?thesis using Some \<open>adapters r q = Some b\<close> by (auto simp: unregister_adapter_def reg_protocol_def)
  qed
qed

text \<open>Removing an adapter never strands a pool: a pool that had an adapter keeps it.\<close>

lemma unregister_adapter_keeps:
  assumes "adapters_ok r" "iterates order (pools r)" "unregister_adapter order r q = Inr (a, r')" "p \<in> ran (pools r')"
  shows "adapters r' (reg_protocol p) = adapters r (reg_protocol p)"
proof -
  have u: "unregister_adapter_prevalidated r q = (a, r')"
    and n: "\<forall>b p. adapters r q = Some b \<longrightarrow> p \<in> ran (pools r) \<longrightarrow> reg_protocol p \<notin> set (ad_protocols b)"
    using assms(3) by (simp_all add: unregister_adapter_Inr [OF assms(2)])
  note f = unregister_prevalidated_ok [OF assms(1) u]
  show ?thesis using f(5) [of "reg_protocol p"] n assms(4) unfolding f(2,3) by (auto split: option.splits)
qed

section \<open>Mutation sequences\<close>

text \<open>
  One mutation of a registry, with the keys whose pool was edited through \<open>pool_mut\<close> since its registration. Such an
  edit is any function of the registration: the code checks nothing about it.
\<close>

inductive registry_step :: "'acc adapter_registry \<times> pool_key set \<Rightarrow> 'acc adapter_registry \<times> pool_key set \<Rightarrow> bool" where
  step_register: "register_pool r p = Inr r' \<Longrightarrow> registry_step (r, E) (r', E - {reg_key p})"
| step_unregister: "unregister_pool r k = (p, r') \<Longrightarrow> registry_step (r, E) (r', E - {k})"
| step_status: "update_pool_status r k s = (p, r') \<Longrightarrow> registry_step (r, E) (r', E)"
| step_edit: "registry_step (r, E) (pool_mut r k f, insert k E)"
| step_adapter: "register_adapter r a = Inr r' \<Longrightarrow> registry_step (r, E) (r', E)"
| step_drop_adapter: "iterates order (pools r) \<Longrightarrow> unregister_adapter order r q = Inr (b, r') \<Longrightarrow> registry_step (r, E) (r', E)"
| step_seeding: "registry_step (r, E) (with_code_seeding r b, E)"
| step_config: "registry_step (r, E) (with_sim_config r c, E)"
| step_limits: "registry_step (r, E) (with_quote_read_set_limits r l, E)"
| step_readiness: "registry_step (r, E) (with_quote_readiness_required r b, E)"

inductive_cases registry_stepE: "registry_step s s'"

definition pools_ok_except :: "pool_key set \<Rightarrow> 'acc adapter_registry \<Rightarrow> bool" where
  "pools_ok_except E r \<longleftrightarrow>
    (\<forall>k p. k \<notin> E \<longrightarrow> pools r k = Some p \<longrightarrow> reg_key p = k \<and> check_protocol_agreement p = Inr ())"

lemma pools_ok_except_empty: "pools_ok_except {} r \<longleftrightarrow> pools_ok r"
  by (simp add: pools_ok_except_def pools_ok_def)

lemma pools_ok_except_cong: "pools r' = pools r \<Longrightarrow> pools_ok_except E r' \<longleftrightarrow> pools_ok_except E r"
  by (simp add: pools_ok_except_def)

lemma pools_ok_except_update:
  assumes "pools_ok_except E r" "\<And>k. k \<notin> E' \<Longrightarrow> k \<noteq> x \<Longrightarrow> k \<notin> E" "\<And>k. k \<noteq> x \<Longrightarrow> pools r' k = pools r k"
    and "\<And>p. x \<notin> E' \<Longrightarrow> pools r' x = Some p \<Longrightarrow> reg_key p = x \<and> check_protocol_agreement p = Inr ()"
  shows "pools_ok_except E' r'"
  unfolding pools_ok_except_def
proof (intro allI impI)
  fix k p assume "k \<notin> E'" "pools r' k = Some p"
  then show "reg_key p = k \<and> check_protocol_agreement p = Inr ()"
    using assms(1)[unfolded pools_ok_except_def] assms(2-4) by (cases "k = x") auto
qed

lemma registry_new_ok: "registry_ok registry_new"
  by (simp add: registry_ok_def pools_ok_def registry_new_def adapters_ok_empty)

lemma registry_step_ok:
  assumes "registry_step s s'" "pools_ok_except (snd s) (fst s)" "adapters_ok (fst s)"
  shows "pools_ok_except (snd s') (fst s') \<and> adapters_ok (fst s')"
  using assms
proof cases
  case (step_register r p r' E)
  have r': "r' = r\<lparr>pools := (pools r)(reg_key p \<mapsto> p)\<rparr>" "check_protocol_agreement p = Inr ()"
    using step_register(3) by (simp_all add: register_pool_def split: if_splits sum.splits)
  have "pools_ok_except (E - {reg_key p}) r'"
    by (rule pools_ok_except_update [where x = "reg_key p", OF assms(2)]) (auto simp: step_register r')
  then show ?thesis using assms(3) adapters_ok_cong [of r' r] r' by (simp add: step_register)
next
  case (step_unregister r k p r' E)
  have r': "pools r' = (pools r)(k := None)" "adapters r' = adapters r" using step_unregister(3) by (auto simp: unregister_pool_def)
  have "pools_ok_except (E - {k}) r'"
    by (rule pools_ok_except_update [where x = k, OF assms(2)]) (auto simp: step_unregister(1) r')
  then show ?thesis using assms(3) adapters_ok_cong [of r' r] r' by (simp add: step_unregister)
next
  case (step_status r k st p r' E)
  have agree: "check_protocol_agreement (q\<lparr>reg_status := st\<rparr>) = check_protocol_agreement q" for q
    by (simp add: check_protocol_agreement_def split: option.splits)
  consider "r' = r" | q where "pools r k = Some q" "r' = r\<lparr>pools := (pools r)(k \<mapsto> q\<lparr>reg_status := st\<rparr>)\<rparr>"
    using step_status(3) by (auto simp: update_pool_status_def Let_def split: option.splits)
  then show ?thesis
  proof cases
    case 1
    then show ?thesis using assms(2,3) by (simp add: step_status)
  next
    case 2
    have "pools_ok_except E r'"
      by (rule pools_ok_except_update [where x = k, OF assms(2)])
        (use assms(2) 2 agree in \<open>auto simp: step_status(1) pools_ok_except_def\<close>)
    then show ?thesis using assms(3) adapters_ok_cong [of r' r] 2 by (simp add: step_status)
  qed
next
  case (step_edit r E k f)
  have "pools_ok_except (insert k E) (pool_mut r k f)"
    by (rule pools_ok_except_update [where x = k, OF assms(2)]) (auto simp: step_edit pool_mut_def split: option.splits)
  moreover have "adapters (pool_mut r k f) = adapters r" by (simp add: pool_mut_def split: option.splits)
  ultimately show ?thesis using assms(3) adapters_ok_cong [of "pool_mut r k f" r] by (simp add: step_edit)
next
  case (step_adapter r a r' E)
  then show ?thesis using assms(2,3) register_adapter_ok [of r a r'] pools_ok_except_cong [of r' r E] by simp
next
  case (step_drop_adapter order r q b r' E)
  then have "unregister_adapter_prevalidated r q = (b, r')" by (simp add: unregister_adapter_Inr)
  then show ?thesis using unregister_prevalidated_ok [of r q b r'] assms(2,3) pools_ok_except_cong [of r' r E]
    by (simp add: step_drop_adapter)
qed (simp_all add: with_code_seeding_def with_sim_config_def pools_ok_except_def
    with_quote_read_set_limits_def with_quote_readiness_required_def Let_def cong: adapters_ok_cong)

lemma register_pool_ok:
  assumes "register_pool r p = Inr r'" "registry_ok r"
  shows "registry_ok r'"
  using registry_step_ok [OF step_register [OF assms(1), of "{}"]] assms(2)
  by (simp add: registry_ok_def pools_ok_except_empty)

text \<open>
  An edit through \<open>pool_mut\<close> is not checked: a caller may leave a registration whose metadata names another
  venue than its key, which \<open>register_pool\<close> would have refused.
\<close>

lemma pool_mut_unchecked:
  assumes "registry_ok r" "pools r k = Some p" "key_protocol k \<noteq> UniswapV2"
  shows "\<not> registry_ok (pool_mut r k (\<lambda>p. with_metadata p (UniswapV2Meta m)))"
proof -
  have "reg_key p = k" using assms(1,2) by (simp add: registry_ok_def pools_ok_def)
  then show ?thesis using assms(2,3)
    by (auto simp: registry_ok_def pools_ok_def pool_mut_def with_metadata_def check_protocol_agreement_def)
qed

lemma registry_reachable_ok:
  assumes "registry_step\<^sup>*\<^sup>* (registry_new, {}) s"
  shows "pools_ok_except (snd s) (fst s) \<and> adapters_ok (fst s)"
  using assms
proof (induction rule: rtranclp_induct)
  case base
  then show ?case using registry_new_ok by (simp add: registry_ok_def pools_ok_except_empty)
next
  case (step y z)
  then show ?case using registry_step_ok by blast
qed

section \<open>Routing\<close>

abbreviation pool_matches :: "log \<Rightarrow> pool_registration \<Rightarrow> bool" where
  "pool_matches log p \<equiv> (\<exists>s \<in> set (reg_event_sources p). event_source_matches s (reg_key p) log)"

lemma route_log_generic_Some:
  "route_log_generic order r log = Some p \<Longrightarrow> p \<in> ran (pools r) \<and> pool_matches log p"
  by (auto simp: route_log_generic_def list_ex_iff dest!: find_values_in_Some)

lemma route_log_generic_None:
  "iterates order (pools r) \<Longrightarrow> route_log_generic order r log = None \<longleftrightarrow> (\<forall>p \<in> ran (pools r). \<not> pool_matches log p)"
  by (simp add: route_log_generic_def find_values_in_None list_ex_iff)

lemma route_log_adapters_Some: "route_log_adapters r log earlier as = Some p \<Longrightarrow> p \<in> ran (pools r)"
  by (induction r log earlier as rule: route_log_adapters.induct) (auto simp: ran_def split: if_splits option.splits)

lemma route_log_Some: "route_log order adapter_order r log = Some p \<Longrightarrow> p \<in> ran (pools r)"
  by (auto simp: route_log_def dest: route_log_generic_Some route_log_adapters_Some split: option.splits)

text \<open>A matching pool that is the only one is found in every iteration order.\<close>

lemma route_log_generic_unique:
  assumes "iterates order (pools r)" "p \<in> ran (pools r)" "pool_matches log p"
    and "\<And>q. q \<in> ran (pools r) \<Longrightarrow> pool_matches log q \<Longrightarrow> q = p"
  shows "route_log_generic order r log = Some p"
proof (cases "route_log_generic order r log")
  case None
  then show ?thesis using route_log_generic_None [OF assms(1)] assms(2,3) by blast
next
  case (Some q)
  then show ?thesis using route_log_generic_Some assms(4) by blast
qed

section \<open>Subscriptions\<close>

lemma set_fold_union:
  "set (fold (\<lambda>s ss. if s \<in> set ss then ss else ss @ [s]) xs ys) = set ys \<union> set xs"
  by (induction xs arbitrary: ys) auto

lemma distinct_fold_union:
  "distinct ys \<Longrightarrow> distinct (fold (\<lambda>s ss. if s \<in> set ss then ss else ss @ [s]) xs ys)"
  by (induction xs arbitrary: ys) auto

lemma set_event_sources_for:
  "set (event_sources_for r p) = set (reg_event_sources p)
    \<union> (case adapters r (reg_protocol p) of None \<Rightarrow> {} | Some a \<Rightarrow> set (ad_event_sources a p))"
  by (simp add: event_sources_for_def set_fold_union split: option.splits)

lemma set_subscription_topics:
  assumes "iterates order (pools r)"
  shows "set (subscription_topics order r) = (\<Union>p \<in> ran (pools r). \<Union>s \<in> set (event_sources_for r p). set (src_topics s))"
  by (simp add: subscription_topics_def subscription_spec_def set_values_in [OF assms])

lemma sorted_remdups_adj_strict:
  "sorted xs \<Longrightarrow> sorted_wrt (<) (remdups_adj xs)" for xs :: "'a :: linorder list"
  by (induction xs rule: remdups_adj.induct) (auto simp: less_le)

lemma subscription_topics_sorted: "sorted_wrt (<) (subscription_topics order r)"
  by (simp add: subscription_topics_def sorted_remdups_adj_strict)

text \<open>Every log that a stored source with a topic list routes carries a subscribed topic.\<close>

lemma routed_topic_subscribed:
  assumes "iterates order (pools r)" "p \<in> ran (pools r)" "s \<in> set (event_sources_for r p)" "src_topics s \<noteq> []"
    "event_source_matches s (reg_key p) log"
  shows "log_topics log \<noteq> [] \<and> hd (log_topics log) \<in> set (subscription_topics order r)"
proof -
  have "log_topics log \<noteq> [] \<and> hd (log_topics log) \<in> set (src_topics s)"
    using assms(4,5) by (auto simp: event_source_matches_def nth_opt_def hd_conv_nth split: if_splits)
  then show ?thesis using assms(2,3) unfolding set_subscription_topics [OF assms(1)] by blast
qed

end
