(* ===== verification/Slipstream_Staking.thy ===== *)
theory Slipstream_Staking
  imports Slipstream_Fee Registry V3_Liquidity_Facts
begin

text \<open>
  \<open>src/adapters/slipstream_staking.rs\<close>: the staking transition of the reviewed pool on Optimism,
  which the pool itself does not log. \<open>staking_derive\<close> is \<open>derive\<close>, the words a stake or withdrawal
  changes; \<open>staking_decode\<close> is \<open>decode\<close>, which binds the evidence to the delivered log and turns a
  failure into a purge. The signatures of the gauge and NFT events come from the ABI crate and are
  parameters.
\<close>

unbundle bit_operations_syntax

section \<open>Identities\<close>

definition POOL :: address where "POOL = 0x173cdc71e29d5cffa6d090ad99f555a24b8831f9"

definition GAUGE :: address where "GAUGE = 0x41160e66fcaa10cbb148ace60bc2a22d609ec519"

definition NFT :: address where "NFT = 0x416b433906b1b72fa758e166e239c43d68dc6f29"

definition IMPLEMENTATION :: address where "IMPLEMENTATION = 0x7155b84a704f0657975827c65ff6fe42e3a962bb"

definition supports_pool :: "address \<Rightarrow> bool" where
  "supports_pool pool \<longleftrightarrow> pool = POOL"

definition code_targets :: "address \<Rightarrow> address list" where
  "code_targets pool = (if pool = POOL then [GAUGE, IMPLEMENTATION, NFT] else [])"

definition MASK :: u256 where "MASK = from_limbs (- 1) (- 1) 0 0"

definition staking_failure :: "string \<Rightarrow> adapter_event_error" where
  "staking_failure reason = V3Transition (SlipstreamStakingEvidence reason)"

definition event_key_context :: "adapter_event_context \<Rightarrow> event_key option" where
  "event_key_context ctx =
    (case (ctx_chain_id ctx, ctx_block_number ctx, ctx_block_hash ctx, ctx_parent_hash ctx, ctx_block_timestamp ctx,
           ctx_transaction_hash ctx, ctx_transaction_index ctx, ctx_log_index ctx) of
       (Some c, Some n, Some h, Some p, Some t, Some tx, Some i, Some l) \<Rightarrow>
         Some \<lparr>evk_transaction = \<lparr>txk_chain = c, txk_number = n, txk_hash = h, txk_parent = p,
            txk_timestamp = t, txk_transaction = tx, txk_index = i\<rparr>, evk_log = l\<rparr>
     | _ \<Rightarrow> None)"

section \<open>The transition\<close>

text \<open>\<open>((raw_tick << 8) as i32) >> 8\<close>: the 24-bit tick of slot0, sign-extended.\<close>

definition staking_tick :: "u256 \<Rightarrow> i32" where
  "staking_tick slot0 =
    drop_bit 8 (sint (push_bit 8 (ucast (drop_bit 160 slot0 AND 0xFFFFFF) :: u32)))"

definition neg_i128 :: "i128 \<Rightarrow> i128 result" where
  "neg_i128 d = (if d = - (2 ^ 127) then Inl (Panicked ''attempt to negate with overflow'') else Inr (- d))"

definition validate_staking_range :: "v3_storage_layout \<Rightarrow> slipstream_staking_evidence \<Rightarrow> unit result" where
  "validate_staking_range layout evidence =
    (if stk_lower evidence < - 887272 \<or> 887272 < stk_upper evidence \<or> stk_upper evidence \<le> stk_lower evidence
        \<or> stk_lower evidence mod tick_spacing layout \<noteq> 0 \<or> stk_upper evidence mod tick_spacing layout \<noteq> 0
     then Inl (staking_failure ''invalid staking tick range'') else Inr ())"

definition validate_staking_parent :: "u256 \<Rightarrow> u256 \<Rightarrow> u256 \<Rightarrow> unit result" where
  "validate_staking_parent slot0 word active =
    (if active < word AND MASK
     then Inl (staking_failure ''parent staked liquidity exceeds active liquidity'')
     else if drop_bit 160 word AND 0xFFFFFF \<noteq> 200 \<or> drop_bit 232 slot0 AND 255 \<noteq> 1
        \<or> \<not> (- 887272 \<le> staking_tick slot0 \<and> staking_tick slot0 \<le> 887272)
     then Inl (staking_failure ''invalid parent staking geometry'')
     else Inr ())"

definition staking_range_write :: "slipstream_staking_evidence \<Rightarrow> i32 \<Rightarrow> u256 \<Rightarrow> u256 \<Rightarrow> state_update list result" where
  "staking_range_write evidence tick word active =
    (if stk_lower evidence \<le> tick \<and> tick < stk_upper evidence
     then rbind (ok_or
            (Option.bind
              (if 0 < stk_delta evidence
               then checked_add (word AND MASK) (ucast (word_of_int (stk_delta evidence) :: u128))
               else checked_sub (word AND MASK) (ucast (word_of_int \<bar>stk_delta evidence\<bar> :: u128)))
              (\<lambda>value. if value \<le> MASK \<and> value \<le> active then Some value else None))
            (staking_failure ''staking delta exceeds active liquidity'')) (\<lambda>next.
          Inr [Slot POOL 15 ((word AND NOT MASK) OR next)])
     else Inr [])"

definition staking_tick_write :: "keccak \<Rightarrow> v3_storage_layout \<Rightarrow> state_view \<Rightarrow> i32 \<times> i128 \<Rightarrow> state_update list result" where
  "staking_tick_write keccak256 layout state = (\<lambda>(tick, delta).
    let keys = slipstream_tick_info_storage_keys_with_base keccak256 tick (ticks_base_slot layout)
    in rbind (required state POOL (keys ! 5)) (\<lambda>flags.
       let flag = drop_bit 248 flags AND 255
       in if 1 < flag then Inl (staking_failure ''invalid staking tick initialization flag'')
          else if flag \<noteq> 1 then Inr []
          else rbind (required state POOL (keys ! 1)) (\<lambda>word.
               let net = as_i128 (word AND MASK)
               in rbind (ok_or (i128_checked_add net delta) (staking_failure ''staking tick delta overflows int128'')) (\<lambda>next.
                  rbind (required state POOL (keys ! 0)) (\<lambda>gross.
                  if gross AND MASK < ucast (word_of_int \<bar>next\<bar> :: u128)
                  then Inl (staking_failure ''staked tick net exceeds gross liquidity'')
                  else Inr [Slot POOL (keys ! 1) ((word AND NOT MASK) OR ucast (word_of_int next :: u128))])))))"

definition staking_derive ::
  "keccak \<Rightarrow> pool_registration \<Rightarrow> adapter_event_context \<Rightarrow> slipstream_staking_evidence \<Rightarrow> state_view
    \<Rightarrow> state_update list result" where
  "staking_derive keccak256 pool ctx evidence state =
    (if Some (stk_key evidence) \<noteq> event_key_context ctx then Inl (staking_failure ''staking event identity mismatch'')
     else rbind (ok_or (layout_for pool) (staking_failure ''missing staking layout'')) (\<lambda>layout.
          rbind (validate_reviewed_slipstream_event POOL layout ctx) (\<lambda>_.
          rbind (validate_staking_range layout evidence) (\<lambda>_.
          if stk_delta evidence = 0 then Inr []
          else
            rbind (required state POOL (slot0_slot layout)) (\<lambda>slot0.
            rbind (required state POOL 15) (\<lambda>word.
            rbind (required state POOL (liquidity_slot layout)) (\<lambda>liquidity.
            let active = liquidity AND MASK
            in rbind (validate_staking_parent slot0 word active) (\<lambda>_.
               rbind (staking_range_write evidence (staking_tick slot0) word active) (\<lambda>range_writes.
               rbind (neg_i128 (stk_delta evidence)) (\<lambda>upper_delta.
               rbind (rmap (staking_tick_write keccak256 layout state)
                   [(stk_lower evidence, stk_delta evidence), (stk_upper evidence, upper_delta)]) (\<lambda>tick_writes.
               Inr (range_writes @ concat tick_writes))))))))))))"

section \<open>Decoding\<close>

text \<open>The signature hashes of the three events, and the hash of a log's canonical encoding.\<close>

record staking_topics =
  sig_deposit :: b256
  sig_withdraw :: b256
  sig_transfer :: b256

definition log_address_bytes :: "address \<Rightarrow> u8 list" where
  "log_address_bytes a = map (\<lambda>i. ucast (drop_bit (8 * (19 - i)) a)) [0..<20]"

definition fingerprint :: "keccak \<Rightarrow> log \<Rightarrow> b256" where
  "fingerprint keccak256 log =
    keccak256 (log_address_bytes (log_address log) @ [of_nat (length (log_topics log))]
      @ concat (map to_be_bytes32 (log_topics log)) @ log_data log)"

definition staking_decode ::
  "keccak \<Rightarrow> staking_topics \<Rightarrow> pool_registration \<Rightarrow> log \<Rightarrow> adapter_event_context \<Rightarrow> state_view
    \<Rightarrow> adapter_event_result option" where
  "staking_decode keccak256 sigs pool log ctx state =
    (if reg_protocol pool \<noteq> Slipstream \<or> key_address (reg_key pool) \<noteq> Some POOL \<or> log_address log \<notin> {GAUGE, NFT}
     then None
     else case nth_opt (log_topics log) 0 of None \<Rightarrow> None
     | Some topic \<Rightarrow>
         let withdrawal_transfer = (log_address log = NFT \<and> topic = sig_transfer sigs
               \<and> (case nth_opt (log_topics log) 1 of None \<Rightarrow> False | Some value \<Rightarrow> topic_address value = GAUGE));
             deposit = (log_address log = GAUGE \<and> topic = sig_deposit sigs);
             withdrawal = (log_address log = GAUGE \<and> topic = sig_withdraw sigs)
         in if \<not> deposit \<and> \<not> withdrawal \<and> \<not> withdrawal_transfer then Some result_ignored
            else let kind = (if deposit then Deposit else Withdraw);
                     r = rbind (ok_or (ctx_slipstream_staking_evidence ctx)
                           (staking_failure ''missing transaction-local staking evidence'')) (\<lambda>evidence.
                         if stk_payload evidence \<noteq> fingerprint keccak256 log
                         then Inl (staking_failure ''staking evidence payload mismatch'')
                         else staking_derive keccak256 pool ctx evidence state)
                 in Some (case r of
                      Inr updates \<Rightarrow> result_event \<lparr>ae_pool = reg_key pool, ae_emitter = log_address log, ae_topic0 = topic,
                        ae_kind = kind, ae_updates = updates, ae_quality = Exact, ae_repair = NoRepair\<rparr>
                    | Inl err \<Rightarrow> result_event_with_error \<lparr>ae_pool = reg_key pool, ae_emitter = log_address log,
                        ae_topic0 = topic, ae_kind = kind, ae_updates = [Purge POOL AllStorage],
                        ae_quality = RequiresRepair, ae_repair = PurgeStorage POOL\<rparr> err))"

section \<open>Sources and routing\<close>

definition staking_sources :: "staking_topics \<Rightarrow> pool_registration \<Rightarrow> b256 list \<Rightarrow> event_source list option" where
  "staking_sources sigs pool topics =
    (if reg_key pool \<noteq> SlipstreamKey POOL then None
     else Some [source_direct POOL topics,
       source_adapter_defined GAUGE [sig_deposit sigs, sig_withdraw sigs],
       (source_adapter_defined NFT [sig_transfer sigs])\<lparr>src_indexed_topics := [[ucast GAUGE], [], []]\<rparr>])"

definition staking_route :: "log \<Rightarrow> (pool_key \<rightharpoonup> pool_registration) \<Rightarrow> pool_key option" where
  "staking_route log tracked =
    (case tracked (SlipstreamKey POOL) of
       None \<Rightarrow> None
     | Some _ \<Rightarrow> if log_address log \<in> {GAUGE, NFT} then Some (SlipstreamKey POOL) else None)"

section \<open>Words\<close>

lemma MASK_eq: "MASK = mask 128"
  unfolding WORD_128_MASK_eq [symmetric] by (simp add: MASK_def WORD_128_MASK_def)

text \<open>Replacing the low half of a word keeps its high half.\<close>

lemma replace_low:
  assumes "uint v < 2 ^ 128"
  shows "field 0 128 ((w AND NOT MASK) OR v) = v" "field 128 128 ((w AND NOT MASK) OR v) = field 128 128 w"
proof -
  have v: "take_bit 128 v = v" using assms by (rule take_bit_of_small)
  note b = take_bit_self_bit [OF v]
  show "field 0 128 ((w AND NOT MASK) OR v) = v" "field 128 128 ((w AND NOT MASK) OR v) = field 128 128 w"
    unfolding MASK_eq by (rule bit_word_eqI, auto simp: field_def bit_simps dest: b)+
qed

definition staked_net :: "u256 \<Rightarrow> int" where
  "staked_net w = as_i128 (field 0 128 w)"

lemma uint_ucast_u128 [simp]: "uint (ucast (x :: u128) :: u256) = uint x"
  using uint_lt_exp [of x] by (intro uint_ucast_down) (simp add: order_less_trans)

lemma uint_abs_u128: "\<bar>d\<bar> \<le> 2 ^ 127 \<Longrightarrow> uint (word_of_int \<bar>d\<bar> :: u128) = \<bar>d\<bar>"
  by (intro uint_word_of_int_id) simp_all

lemma as_i128_word: "- (2 ^ 127) \<le> n \<Longrightarrow> n < 2 ^ 127 \<Longrightarrow> as_i128 (ucast (word_of_int n :: u128)) = n"
  by (simp add: as_i128_def ucast_ucast_id_256 sint_sbintrunc' signed_take_bit_int_eq_self_iff)

section \<open>The writes of a stake\<close>

lemma staking_range_okD:
  assumes "staking_range_write ev tick word active = Inr ws" "- (2 ^ 127) \<le> stk_delta ev" "stk_delta ev < 2 ^ 127"
  shows "if stk_lower ev \<le> tick \<and> tick < stk_upper ev
    then \<exists>w'. ws = [Slot POOL 15 w'] \<and> uint (field 0 128 w') = uint (field 0 128 word) + stk_delta ev
      \<and> field 0 128 w' \<le> active \<and> field 128 128 w' = field 128 128 word
    else ws = []"
proof (cases "stk_lower ev \<le> tick \<and> tick < stk_upper ev")
  case True
  let ?d = "stk_delta ev"
  have pos: "uint (word_of_int ?d :: u128) = ?d" if "0 < ?d" using uint_abs_u128 [of ?d] assms(2,3) that by simp
  have ab: "uint (word_of_int \<bar>?d\<bar> :: u128) = \<bar>?d\<bar>" using assms(2,3) by (intro uint_abs_u128) (simp add: abs_le_iff)
  obtain v where v: "(if 0 < ?d then checked_add (field 0 128 word) (ucast (word_of_int ?d :: u128))
        else checked_sub (field 0 128 word) (ucast (word_of_int \<bar>?d\<bar> :: u128))) = Some v"
    "v \<le> WORD_128_MASK" "v \<le> active" "ws = [Slot POOL 15 ((word AND NOT MASK) OR v)]"
    using assms(1) True unfolding staking_range_write_def WORD_128_MASK_eq MASK_eq and_mask_field
    by (auto simp: bind_eq_Some_conv split: if_splits)
  have "uint v = uint (field 0 128 word) + ?d"
    using v(1) pos ab by (auto simp: checked_add_eq_Some checked_sub_eq_Some split: if_splits)
  moreover note replace_low [OF v(2) [unfolded le_WORD_128_MASK_iff], of word]
  ultimately show ?thesis using v(3,4) True by auto
qed (use assms(1) in \<open>auto simp: staking_range_write_def\<close>)

lemma staking_tick_okD:
  assumes "staking_tick_write keccak256 layout s (t, d) = Inr ws"
  defines "keys \<equiv> slipstream_tick_info_storage_keys_with_base keccak256 t (ticks_base_slot layout)"
  shows "\<exists>flags. s POOL (keys ! 5) = Some flags \<and> field 248 8 flags \<le> 1
    \<and> (if field 248 8 flags = 1
       then \<exists>w g w'. s POOL (keys ! 1) = Some w \<and> s POOL (keys ! 0) = Some g \<and> ws = [Slot POOL (keys ! 1) w']
         \<and> staked_net w' = staked_net w + d \<and> \<bar>staked_net w'\<bar> \<le> tick_gross g
         \<and> field 128 128 w' = field 128 128 w
       else ws = [])"
proof -
  have ff: "drop_bit 248 w AND (255 :: u256) = field 248 8 w" for w
    using drop_and_mask_field [of 248 w 8] by (simp add: mask_eq_exp_minus_1)
  have low: "w AND MASK = field 0 128 w" for w by (simp add: MASK_eq and_mask_field)
  define body where "body = rbind (required s POOL (keys ! 1)) (\<lambda>word.
        rbind (ok_or (i128_checked_add (staked_net word) d) (staking_failure ''staking tick delta overflows int128'')) (\<lambda>next.
        rbind (required s POOL (keys ! 0)) (\<lambda>gross.
        if field 0 128 gross < ucast (word_of_int \<bar>next\<bar> :: u128)
        then Inl (staking_failure ''staked tick net exceeds gross liquidity'')
        else Inr [Slot POOL (keys ! 1) ((word AND NOT MASK) OR ucast (word_of_int next :: u128))])))"
  have "rbind (required s POOL (keys ! 5)) (\<lambda>flags.
      if 1 < field 248 8 flags then Inl (staking_failure ''invalid staking tick initialization flag'')
      else if field 248 8 flags \<noteq> 1 then Inr [] else body) = Inr ws"
    using assms(1) unfolding staking_tick_write_def prod.case Let_def keys_def [symmetric] ff low staked_net_def [symmetric] body_def .
  then obtain flags where f: "s POOL (keys ! 5) = Some flags"
    and c: "(if 1 < field 248 8 flags then Inl (staking_failure ''invalid staking tick initialization flag'')
      else if field 248 8 flags \<noteq> 1 then Inr [] else body) = Inr ws"
    by (elim rbind_eq_InrE) (simp only: required_eq_Inr)
  have "\<not> 1 < field 248 8 flags" using c by (metis Inl_Inr_False)
  note f = f this
  have r: "field 248 8 flags \<noteq> 1 \<Longrightarrow> ws = []" "field 248 8 flags = 1 \<Longrightarrow> body = Inr ws"
    using c f(2) by simp_all
  show ?thesis
  proof (cases "field 248 8 flags = 1")
    case False
    then show ?thesis using f r(1) by (auto simp: not_less)
  next
    case True
    from r(2) [OF this, unfolded body_def] obtain w g n where w: "s POOL (keys ! 1) = Some w" "s POOL (keys ! 0) = Some g"
      "i128_checked_add (staked_net w) d = Some n" "\<not> field 0 128 g < ucast (word_of_int \<bar>n\<bar> :: u128)"
      "ws = [Slot POOL (keys ! 1) ((w AND NOT MASK) OR ucast (word_of_int n :: u128))]"
      by (auto split: if_splits)
    have n: "n = staked_net w + d" "- (2 ^ 127) \<le> n" "n < 2 ^ 127"
      using w(3) by (auto simp: i128_checked_add_def split: if_splits)
    define w' where "w' = (w AND NOT MASK) OR ucast (word_of_int n :: u128)"
    have lt: "uint (ucast (word_of_int n :: u128) :: u256) < 2 ^ 128" using uint_lt_exp [of "word_of_int n :: u128"] by simp
    note low = replace_low [OF lt, of w, folded w'_def]
    have net: "staked_net w' = n" using as_i128_word [OF n(2,3)] by (simp add: staked_net_def low(1))
    have "\<bar>n\<bar> \<le> tick_gross g"
      using w(4) uint_abs_u128 [of n] n(2,3) by (simp add: word_less_def not_less tick_gross_def abs_le_iff)
    then show ?thesis using f w(1,2,5) True net low(2) n(1) unfolding w'_def [symmetric]
      by (intro exI [of _ flags]) (auto simp: not_less)
  qed
qed

text \<open>The words that one boundary of a stake changes, given the signed amount for that boundary.\<close>

definition stake_boundary :: "keccak \<Rightarrow> v3_storage_layout \<Rightarrow> state_view \<Rightarrow> i32 \<Rightarrow> int \<Rightarrow> state_update list \<Rightarrow> bool" where
  "stake_boundary keccak256 layout s t d ws \<longleftrightarrow>
    (let keys = slipstream_tick_info_storage_keys_with_base keccak256 t (ticks_base_slot layout)
     in \<exists>flags. s POOL (keys ! 5) = Some flags \<and> field 248 8 flags \<le> 1
       \<and> (if field 248 8 flags = 1
          then \<exists>w g w'. s POOL (keys ! 1) = Some w \<and> s POOL (keys ! 0) = Some g \<and> ws = [Slot POOL (keys ! 1) w']
            \<and> staked_net w' = staked_net w + d \<and> \<bar>staked_net w'\<bar> \<le> tick_gross g
            \<and> field 128 128 w' = field 128 128 w
          else ws = []))"

lemma staking_derive_okE:
  assumes "staking_derive keccak256 pool ctx ev s = Inr us" "stk_delta ev \<noteq> 0"
  obtains layout slot0 word liquidity range lo up where "layout_for pool = Some layout"
    "event_key_context ctx = Some (stk_key ev)" "validate_reviewed_slipstream_event POOL layout ctx = Inr ()"
    "validate_staking_range layout ev = Inr ()"
    "s POOL (slot0_slot layout) = Some slot0" "s POOL 15 = Some word" "s POOL (liquidity_slot layout) = Some liquidity"
    "validate_staking_parent slot0 word (liquidity AND MASK) = Inr ()"
    "staking_range_write ev (staking_tick slot0) word (liquidity AND MASK) = Inr range"
    "staking_tick_write keccak256 layout s (stk_lower ev, stk_delta ev) = Inr lo"
    "staking_tick_write keccak256 layout s (stk_upper ev, - stk_delta ev) = Inr up"
    "us = range @ lo @ up" "stk_delta ev \<noteq> - (2 ^ 127)"
proof -
  have key: "event_key_context ctx = Some (stk_key ev)"
    using assms(1) by (cases "Some (stk_key ev) = event_key_context ctx") (simp_all add: staking_derive_def del: layout_for.simps)
  have "\<not> Some (stk_key ev) \<noteq> event_key_context ctx" using key by simp
  note run = assms(1) [unfolded staking_derive_def Let_def if_not_P [OF this] if_not_P [OF assms(2)]]
  from run obtain layout x y slot0 word liquidity z range up_d writes where
    e: "ok_or (layout_for pool) (staking_failure ''missing staking layout'') = Inr layout"
    "validate_reviewed_slipstream_event POOL layout ctx = Inr x" "validate_staking_range layout ev = Inr y"
    "required s POOL (slot0_slot layout) = Inr slot0" "required s POOL 15 = Inr word"
    "required s POOL (liquidity_slot layout) = Inr liquidity"
    "validate_staking_parent slot0 word (liquidity AND MASK) = Inr z"
    "staking_range_write ev (staking_tick slot0) word (liquidity AND MASK) = Inr range"
    "neg_i128 (stk_delta ev) = Inr up_d"
    "rmap (staking_tick_write keccak256 layout s) [(stk_lower ev, stk_delta ev), (stk_upper ev, up_d)] = Inr writes"
    "Inr (range @ concat writes) = (Inr us :: state_update list result)"
    by (elim rbind_eq_InrE)
  have d: "layout_for pool = Some layout"
    "validate_reviewed_slipstream_event POOL layout ctx = Inr ()" "validate_staking_range layout ev = Inr ()"
    "s POOL (slot0_slot layout) = Some slot0" "s POOL 15 = Some word" "s POOL (liquidity_slot layout) = Some liquidity"
    "validate_staking_parent slot0 word (liquidity AND MASK) = Inr ()"
    "staking_range_write ev (staking_tick slot0) word (liquidity AND MASK) = Inr range" "neg_i128 (stk_delta ev) = Inr up_d"
    "rmap (staking_tick_write keccak256 layout s) [(stk_lower ev, stk_delta ev), (stk_upper ev, up_d)] = Inr writes"
    "us = range @ concat writes"
    using e by (simp_all del: rmap.simps layout_for.simps)
  have n: "up_d = - stk_delta ev" "stk_delta ev \<noteq> - (2 ^ 127)" using d(9) by (auto simp: neg_i128_def split: if_splits)
  obtain lo up where "writes = [lo, up]" "staking_tick_write keccak256 layout s (stk_lower ev, stk_delta ev) = Inr lo"
    "staking_tick_write keccak256 layout s (stk_upper ev, - stk_delta ev) = Inr up"
    using d(10) unfolding n(1) rmap.simps by (blast elim!: rbind_eq_InrE)
  with d key n(2) show ?thesis by (intro that) simp_all
qed

lemma staking_derive_effect:
  assumes "staking_derive keccak256 pool ctx ev s = Inr us" "stk_delta ev \<noteq> 0"
    "- (2 ^ 127) \<le> stk_delta ev" "stk_delta ev < 2 ^ 127"
  shows "\<exists>layout slot0 word liquidity range lo up. layout_for pool = Some layout \<and> us = range @ lo @ up
    \<and> s POOL (slot0_slot layout) = Some slot0 \<and> s POOL 15 = Some word \<and> s POOL (liquidity_slot layout) = Some liquidity
    \<and> field 0 128 word \<le> field 0 128 liquidity
    \<and> stake_boundary keccak256 layout s (stk_lower ev) (stk_delta ev) lo
    \<and> stake_boundary keccak256 layout s (stk_upper ev) (- stk_delta ev) up
    \<and> (if stk_lower ev \<le> staking_tick slot0 \<and> staking_tick slot0 < stk_upper ev
       then \<exists>w'. range = [Slot POOL 15 w'] \<and> uint (field 0 128 w') = uint (field 0 128 word) + stk_delta ev
         \<and> field 0 128 w' \<le> field 0 128 liquidity \<and> field 128 128 w' = field 128 128 word
       else range = [])"
proof -
  obtain layout slot0 word liquidity range lo up where d: "layout_for pool = Some layout"
    "s POOL (slot0_slot layout) = Some slot0" "s POOL 15 = Some word" "s POOL (liquidity_slot layout) = Some liquidity"
    "validate_staking_parent slot0 word (liquidity AND MASK) = Inr ()"
    "staking_range_write ev (staking_tick slot0) word (liquidity AND MASK) = Inr range"
    "staking_tick_write keccak256 layout s (stk_lower ev, stk_delta ev) = Inr lo"
    "staking_tick_write keccak256 layout s (stk_upper ev, - stk_delta ev) = Inr up" "us = range @ lo @ up"
    using assms(1,2) by (rule staking_derive_okE)
  have le: "field 0 128 word \<le> field 0 128 liquidity"
    using d(5) by (auto simp: validate_staking_parent_def MASK_eq and_mask_field not_less split: if_splits)
  have b: "stake_boundary keccak256 layout s (stk_lower ev) (stk_delta ev) lo"
    "stake_boundary keccak256 layout s (stk_upper ev) (- stk_delta ev) up"
    unfolding stake_boundary_def Let_def by (rule staking_tick_okD d(7,8))+
  note range = staking_range_okD [OF d(6) assms(3,4), unfolded MASK_eq and_mask_field]
  show ?thesis
    by (rule exI [of _ layout], rule exI [of _ slot0], rule exI [of _ word], rule exI [of _ liquidity],
        rule exI [of _ range], rule exI [of _ lo], rule exI [of _ up]) (intro conjI d(1-4,9) le b range)
qed

section \<open>Partial views and aborts\<close>

interpretation staking: exact_transition "staking_derive keccak256 pool ctx ev" for keccak256 pool ctx ev
proof
  have "fail_closed (\<lambda>s. staking_tick_write keccak256 layout s td)" for layout td
    unfolding staking_tick_write_def Let_def by (cases td) (simp, intro fail_closed_intros)
  then show "fail_closed (staking_derive keccak256 pool ctx ev)"
    unfolding staking_derive_def Let_def by (intro fail_closed_intros)
qed

text \<open>Negating the amount is the only step that can abort.\<close>

lemma no_panic_staking_derive:
  assumes "stk_delta ev \<noteq> - (2 ^ 127)"
  shows "no_panic (staking_derive keccak256 pool ctx ev s)"
proof -
  have t: "no_panic (staking_tick_write keccak256 layout s td)" for layout td
    unfolding staking_tick_write_def Let_def staking_failure_def by (cases td) (simp, intro no_panic_intros)
  have n: "no_panic (neg_i128 (stk_delta ev))" using assms by (simp add: neg_i128_def)
  show ?thesis
    unfolding staking_derive_def Let_def validate_staking_range_def validate_staking_parent_def staking_range_write_def
      staking_failure_def
    by (intro no_panic_intros t n)
qed

end
