(* ===== verification/BTree_Map.thy ===== *)
theory BTree_Map
  imports Prelude "HOL-Library.Product_Lexorder"
begin

text \<open>
  \<open>BTreeMap\<close> as an association list sorted by key: insertion, and its relation to finite maps.
\<close>

definition btree_insert :: "'k::linorder \<Rightarrow> 'v \<Rightarrow> ('k \<times> 'v) list \<Rightarrow> ('k \<times> 'v) list" where
  "btree_insert k v m =
    (if map_of m k \<noteq> None then map (\<lambda>(k', v'). (k', if k' = k then v else v')) m else insort_key fst (k, v) m)"

definition btree_ok :: "('k::linorder \<times> 'v) list \<Rightarrow> bool" where
  "btree_ok m \<longleftrightarrow> sorted (map fst m) \<and> distinct (map fst m)"

lemma btree_ok_Nil [simp]: "btree_ok []"
  by (simp add: btree_ok_def)

lemma btree_ok_distinct: "btree_ok m \<Longrightarrow> distinct (map fst m)"
  by (simp add: btree_ok_def)

lemma set_btree_insert: "set (btree_insert k v m) \<subseteq> insert (k, v) (set m)"
  by (auto simp: btree_insert_def set_insort_key split: if_splits)

lemma distinct_btree_insert: "distinct (map fst m) \<Longrightarrow> distinct (map fst (btree_insert k v m))"
proof (cases "map_of m k")
  case None
  assume "distinct (map fst m)"
  moreover have "k \<notin> fst ` set m" using None by (simp add: map_of_eq_None_iff)
  ultimately have "distinct (map fst (insort_key fst (k, v) m))"
    by (induction m) (auto simp: set_insort_key)
  then show ?thesis using None by (simp add: btree_insert_def)
next
  case (Some w)
  assume "distinct (map fst m)"
  moreover have "map fst (map (\<lambda>(k', v'). (k', if k' = k then v else v')) m) = map fst m"
    by (simp add: case_prod_unfold)
  ultimately show ?thesis using Some by (simp add: btree_insert_def del: map_map)
qed

lemma btree_ok_insert [simp]: "btree_ok m \<Longrightarrow> btree_ok (btree_insert k v m)"
proof -
  assume ok: "btree_ok m"
  have "sorted (map fst (btree_insert k v m))"
  proof (cases "map_of m k")
    case None
    then show ?thesis using ok sorted_insort_key [of fst "(k, v)" m] by (simp add: btree_insert_def btree_ok_def)
  next
    case (Some w)
    moreover have "map fst (map (\<lambda>(k', v'). (k', if k' = k then v else v')) m) = map fst m"
      by (simp add: case_prod_unfold)
    ultimately show ?thesis using ok by (simp add: btree_insert_def btree_ok_def del: map_map)
  qed
  then show ?thesis using ok distinct_btree_insert [of m k v] by (simp add: btree_ok_def)
qed

lemma map_of_btree_insert: "map_of (btree_insert k v m) = (map_of m)(k \<mapsto> v)"
proof (cases "map_of m k")
  case None
  moreover have "k \<notin> fst ` set m \<Longrightarrow> map_of (insort_key fst (k, v) m) = (map_of m)(k \<mapsto> v)"
    by (induction m) (auto simp: fun_upd_twist)
  ultimately show ?thesis by (simp add: btree_insert_def map_of_eq_None_iff)
next
  case (Some w)
  have "map_of (map (\<lambda>(k', v'). (k', if k' = k then v else v')) m) = (\<lambda>x. if x = k \<and> map_of m k \<noteq> None then Some v else map_of m x)"
    by (induction m) (auto simp: fun_eq_iff)
  then show ?thesis using Some by (auto simp: btree_insert_def fun_eq_iff)
qed

end
