(* ===== verification/Staking_Evidence.thy ===== *)
theory Staking_Evidence
  imports Slipstream_Staking BTree_Map
begin

text \<open>
  The evidence of \<open>src/adapters/slipstream_staking.rs\<close>: \<open>SlipstreamStakingBatch::from_batch\<close> associates
  each Deposit or Withdraw of the gauge with the NFT transfer, the NFT Collect and the pool Collect
  of the same transaction that attest its owner and its range.

  The delivery batch and the cache snapshot belong to other crates: the records below hold the
  fields the code reads of them, with one constructor for the variants it treats alike. Decoders
  and encoders of the events come from the ABI crate and are parameters, as is the text of a
  handler id.
\<close>

section \<open>What the code reads of a delivery batch\<close>

record block_ref =
  blk_number :: u64
  blk_hash :: b256
  blk_parent_hash :: "b256 option"
  blk_timestamp :: "u64 option"

datatype chain_status =
    Included block_ref
  | Safe block_ref
  | Finalized block_ref
  | Reorged block_ref
  | ChainPending
  | Preconfirmed

record record_context =
  rc_chain_id :: "u64 option"
  rc_chain_status :: chain_status
  rc_block :: "block_ref option"
  rc_transaction_index :: "u64 option"
  rc_log_index :: "u64 option"

record rpc_log =
  rl_inner :: log
  rl_block_hash :: "b256 option"
  rl_block_number :: "u64 option"
  rl_block_timestamp :: "u64 option"
  rl_transaction_hash :: "b256 option"
  rl_transaction_index :: "u64 option"
  rl_log_index :: "u64 option"
  rl_removed :: bool

datatype reactive_input = InputLog rpc_log | OtherInput

datatype 'h delivery_audience = AudienceAll | Owners "'h list" | AllExcept "'h list" | OtherAudience

datatype delivery_scope = Canonical | OwnerCatchup | OtherScope

record 'h batch_record =
  br_input :: reactive_input
  br_context :: record_context
  br_audience :: "'h delivery_audience option"
  br_scope :: "delivery_scope option"

record pool_instance_id =
  inst_key :: pool_key
  inst_generation :: u64

record evm_snapshot =
  snapshot_chain_id :: u64
  account_code_hash :: "address \<Rightarrow> b256 option"
  storage_value :: "address \<Rightarrow> u256 \<Rightarrow> u256 option"

section \<open>Decoded events\<close>

record stake_event =
  ev_user :: address
  ev_token_id :: u256
  ev_liquidity :: u128

record transfer_event =
  ev_from :: address
  ev_to :: address
  ev_transfer_token :: u256

record collect_event =
  ev_collect_token :: u256
  ev_collect_recipient :: address

record pool_collect_event =
  ev_owner :: address
  ev_recipient :: address
  ev_tick_lower :: i32
  ev_tick_upper :: i32

text \<open>A decoder of the ABI crate with the encoder that it is checked against.\<close>

record 'e sol_event =
  sol_decode :: "log \<Rightarrow> 'e option"
  sol_encode :: "'e \<Rightarrow> b256 list \<times> u8 list"

definition canonical_event :: "'e sol_event \<Rightarrow> log \<Rightarrow> 'e option" where
  "canonical_event E log =
    (case sol_decode E log of
       None \<Rightarrow> None
     | Some decoded \<Rightarrow> if sol_encode E decoded = (log_topics log, log_data log) then Some decoded else None)"

record staking_abi =
  abi_topics :: staking_topics
  abi_deposit :: "stake_event sol_event"
  abi_withdraw :: "stake_event sol_event"
  abi_transfer :: "transfer_event sol_event"
  abi_collect :: "collect_event sol_event"
  abi_pool_collect :: "pool_collect_event sol_event"

section \<open>The order of transactions\<close>

definition transaction_tuple :: "'a transaction_key_scheme \<Rightarrow> u64 \<times> u64 \<times> b256 \<times> b256 \<times> u64 \<times> b256 \<times> u64 \<times> 'a" where
  "transaction_tuple k = (txk_chain k, txk_number k, txk_hash k, txk_parent k, txk_timestamp k, txk_transaction k, txk_index k,
     transaction_key.more k)"

lemma transaction_tuple_inj: "transaction_tuple j = transaction_tuple k \<Longrightarrow> j = k"
  by (simp add: transaction_tuple_def)

instantiation transaction_key_ext :: (linorder) linorder
begin

definition less_eq_transaction_key_ext :: "'a transaction_key_scheme \<Rightarrow> 'a transaction_key_scheme \<Rightarrow> bool" where
  "less_eq_transaction_key_ext j k \<longleftrightarrow> transaction_tuple j \<le> transaction_tuple k"

definition less_transaction_key_ext :: "'a transaction_key_scheme \<Rightarrow> 'a transaction_key_scheme \<Rightarrow> bool" where
  "less_transaction_key_ext j k \<longleftrightarrow> transaction_tuple j < transaction_tuple k"

instance
  by standard (auto simp: less_eq_transaction_key_ext_def less_transaction_key_ext_def intro: transaction_tuple_inj)

end

section \<open>Collecting the logs of a batch\<close>

definition MAX_RECORDS :: nat where "MAX_RECORDS = 16384"

definition record_visible :: "'h \<Rightarrow> 'h batch_record \<Rightarrow> bool" where
  "record_visible handler rec \<longleftrightarrow>
    (case br_audience rec of
       Some AudienceAll \<Rightarrow> True
     | Some (Owners owners) \<Rightarrow> handler \<in> set owners
     | Some (AllExcept owners) \<Rightarrow> handler \<notin> set owners
     | _ \<Rightarrow> False)
    \<and> br_scope rec \<in> {Some Canonical, Some OwnerCatchup}"

definition chain_status_at :: "chain_status \<Rightarrow> block_ref \<Rightarrow> bool" where
  "chain_status_at status block \<longleftrightarrow>
    (case status of Included b \<Rightarrow> b = block | Safe b \<Rightarrow> b = block | Finalized b \<Rightarrow> b = block | _ \<Rightarrow> False)"

text \<open>The transaction, the log index and the log of an accepted record.\<close>

definition record_position :: "'h batch_record \<Rightarrow> (transaction_key \<times> u64 \<times> log) option" where
  "record_position rec =
    (case br_input rec of OtherInput \<Rightarrow> None | InputLog lg \<Rightarrow>
     if log_address (rl_inner lg) \<notin> {POOL, GAUGE, NFT} then None
     else case rc_block (br_context rec) of None \<Rightarrow> None | Some block \<Rightarrow>
     (case (blk_parent_hash block, blk_timestamp block, rl_transaction_hash lg, rl_transaction_index lg, rl_log_index lg) of
        (Some parent, Some timestamp, Some tx, Some tx_index, Some log_index) \<Rightarrow>
          if rc_chain_id (br_context rec) \<noteq> Some 10 \<or> rl_removed lg
             \<or> \<not> chain_status_at (rc_chain_status (br_context rec)) block
             \<or> rl_block_hash lg \<noteq> Some (blk_hash block) \<or> rl_block_number lg \<noteq> Some (blk_number block)
             \<or> (case rl_block_timestamp lg of None \<Rightarrow> False | Some v \<Rightarrow> v \<noteq> timestamp)
             \<or> rc_transaction_index (br_context rec) \<noteq> Some tx_index
             \<or> rc_log_index (br_context rec) \<noteq> Some log_index
          then None
          else Some (\<lparr>txk_chain = 10, txk_number = blk_number block, txk_hash = blk_hash block, txk_parent = parent,
                      txk_timestamp = timestamp, txk_transaction = tx, txk_index = tx_index\<rparr>, log_index, rl_inner lg)
      | _ \<Rightarrow> None))"

type_synonym collected = "(transaction_key \<times> (u64 \<times> log) list) list \<times> transaction_key list
  \<times> (transaction_key \<times> delivery_scope option) list"

definition collect_record :: "'h \<Rightarrow> 'h batch_record \<Rightarrow> collected \<Rightarrow> collected" where
  "collect_record handler rec = (\<lambda>(transactions, invalid, scopes).
    if \<not> record_visible handler rec then (transactions, invalid, scopes)
    else case record_position rec of None \<Rightarrow> (transactions, invalid, scopes)
    | Some (key, log_index, lg) \<Rightarrow>
        let invalid = (case map_of scopes key of Some previous \<Rightarrow> if previous \<noteq> br_scope rec then key # invalid else invalid
                       | None \<Rightarrow> invalid);
            logs = (case map_of transactions key of Some logs \<Rightarrow> logs | None \<Rightarrow> []);
            invalid = (if map_of logs log_index \<noteq> None then key # invalid else invalid)
        in (btree_insert key (btree_insert log_index lg logs) transactions, invalid, btree_insert key (br_scope rec) scopes))"

definition collect_records :: "'h \<Rightarrow> 'h batch_record list \<Rightarrow> collected" where
  "collect_records handler records = fold (collect_record handler) records ([], [], [])"

section \<open>Associating the events of a transaction\<close>

definition transfer_positions :: "staking_abi \<Rightarrow> (u64 \<times> log) list \<Rightarrow> u256 \<times> address \<times> address \<Rightarrow> u64 list" where
  "transfer_positions abi logs key =
    map fst (filter (\<lambda>(_, lg). log_address lg = NFT
      \<and> (case canonical_event (abi_transfer abi) lg of None \<Rightarrow> False
         | Some ev \<Rightarrow> (ev_transfer_token ev, ev_from ev, ev_to ev) = key)) logs)"

definition collect_positions :: "staking_abi \<Rightarrow> (u64 \<times> log) list \<Rightarrow> u256 \<Rightarrow> (u64 \<times> address) list" where
  "collect_positions abi logs token =
    List.map_filter (\<lambda>(position, lg).
      if log_address lg \<noteq> NFT \<or> canonical_event (abi_transfer abi) lg \<noteq> None then None
      else case canonical_event (abi_collect abi) lg of None \<Rightarrow> None
        | Some ev \<Rightarrow> if ev_collect_token ev = token then Some (position, ev_collect_recipient ev) else None) logs"

text \<open>\<open>range(..i).next_back()\<close>: the greatest key below \<open>i\<close> of a sorted map.\<close>

definition last_below :: "('v \<Rightarrow> u64) \<Rightarrow> u64 \<Rightarrow> 'v list \<Rightarrow> 'v option" where
  "last_below pos i xs = (let ys = filter (\<lambda>x. pos x < i) xs in if ys = [] then None else Some (last ys))"

definition gauge_event :: "staking_abi \<Rightarrow> log \<Rightarrow> (bool \<times> stake_event) option" where
  "gauge_event abi lg =
    (if nth_opt (log_topics lg) 0 = Some (sig_deposit (abi_topics abi))
     then map_option (Pair True) (canonical_event (abi_deposit abi) lg)
     else if nth_opt (log_topics lg) 0 = Some (sig_withdraw (abi_topics abi))
     then map_option (Pair False) (canonical_event (abi_withdraw abi) lg)
     else None)"

record staking_match =
  sm_deposit :: bool
  sm_event :: stake_event
  sm_transfer :: u64
  sm_range :: pool_collect_event

definition match_gauge_log :: "staking_abi \<Rightarrow> (u64 \<times> log) list \<Rightarrow> u64 \<Rightarrow> log \<Rightarrow> staking_match option" where
  "match_gauge_log abi logs index lg =
    (if log_address lg \<noteq> GAUGE then None
     else case gauge_event abi lg of None \<Rightarrow> None | Some (deposit, ev) \<Rightarrow>
     let owner = ev_user ev; token = ev_token_id ev
     in if 2 ^ 127 \<le> uint (ev_liquidity ev) then None
     else case last_below id index (transfer_positions abi logs (if deposit then (token, owner, GAUGE) else (token, GAUGE, owner)))
       of None \<Rightarrow> None | Some transfer \<Rightarrow>
     (case last_below fst transfer (collect_positions abi logs token) of None \<Rightarrow> None | Some (collect, recipient) \<Rightarrow>
     if recipient \<noteq> owner then None
     else case (if uint collect < 2 then None else map_of logs (collect - 2)) of None \<Rightarrow> None | Some pool_log \<Rightarrow>
     if log_address pool_log \<noteq> POOL then None
     else case canonical_event (abi_pool_collect abi) pool_log of None \<Rightarrow> None | Some rg \<Rightarrow>
     if ev_recipient rg \<noteq> owner \<or> ev_owner rg \<noteq> (if deposit then NFT else GAUGE) then None
     else Some \<lparr>sm_deposit = deposit, sm_event = ev, sm_transfer = transfer, sm_range = rg\<rparr>))"

definition match_evidence ::
  "keccak \<Rightarrow> transaction_key \<Rightarrow> (u64 \<times> log) list \<Rightarrow> u64 \<Rightarrow> log \<Rightarrow> staking_match \<Rightarrow> slipstream_staking_evidence list" where
  "match_evidence keccak256 tx logs index lg m =
    (let amount = uint (ev_liquidity (sm_event m));
         apply_index = (if sm_deposit m then index else sm_transfer m);
         proof' = \<lparr>stk_key = \<lparr>evk_transaction = tx, evk_log = apply_index\<rparr>,
           stk_payload = fingerprint keccak256 (the (map_of logs apply_index)),
           stk_lower = ev_tick_lower (sm_range m), stk_upper = ev_tick_upper (sm_range m),
           stk_delta = (if sm_deposit m then amount else - amount)\<rparr>
     in proof' # (if sm_deposit m then []
          else [proof'\<lparr>stk_key := \<lparr>evk_transaction = tx, evk_log = index\<rparr>, stk_payload := fingerprint keccak256 lg, stk_delta := 0\<rparr>]))"

text \<open>The loop over the logs; \<open>None\<close> is its exit with \<open>ambiguous\<close> set.\<close>

fun staking_candidates ::
  "keccak \<Rightarrow> staking_abi \<Rightarrow> transaction_key \<Rightarrow> (u64 \<times> log) list \<Rightarrow> u64 list \<Rightarrow> (u64 \<times> log) list
    \<Rightarrow> slipstream_staking_evidence list option" where
  "staking_candidates keccak256 abi tx logs used [] = Some []"
| "staking_candidates keccak256 abi tx logs used ((index, lg) # rest) =
    (case match_gauge_log abi logs index lg of
       None \<Rightarrow> staking_candidates keccak256 abi tx logs used rest
     | Some m \<Rightarrow>
         if sm_transfer m \<in> set used then None
         else map_option (\<lambda>cs. match_evidence keccak256 tx logs index lg m @ cs)
                (staking_candidates keccak256 abi tx logs (sm_transfer m # used) rest))"

definition transaction_evidence ::
  "keccak \<Rightarrow> staking_abi \<Rightarrow> transaction_key \<Rightarrow> (u64 \<times> log) list \<Rightarrow> slipstream_staking_evidence list" where
  "transaction_evidence keccak256 abi tx logs =
    (case staking_candidates keccak256 abi tx logs [] logs of
       None \<Rightarrow> []
     | Some candidates \<Rightarrow> if distinct (map stk_key candidates) then candidates else [])"

section \<open>The batch\<close>

definition runtime_matches :: "evm_snapshot \<Rightarrow> bool" where
  "runtime_matches snapshot \<longleftrightarrow>
    list_all (\<lambda>(addr, hash). account_code_hash snapshot addr = Some hash)
      [(POOL, 0x063ca35333cb7f2463f087d40ff9485475550abf4858a2f63c387d4d102b0f4f),
       (0xc28ad28853a547556780bebf7847628501a3bcbb, 0x36c3da904ca0b58544254cd0d978fe4801c32dc1f9e3b3e644487ef541299794),
       (GAUGE, 0x576a24f21989bca966fb1698aa060e9957ceabe9a970dadb98ba8dc740e845f1),
       (IMPLEMENTATION, 0xeb344e9f4bd301360b265a45cf417685e7ba46f7c53e03b592e7fc1fad53abdb),
       (NFT, 0xe46c8b86983505f15a6598c270339e696f5465478a32f17f1026d76e36fd69de)]
    \<and> storage_value snapshot POOL 3 = Some (ucast GAUGE) \<and> storage_value snapshot POOL 4 = Some (ucast NFT)"

type_synonym staking_batch = "event_key \<rightharpoonup> slipstream_staking_evidence"

definition from_batch ::
  "keccak \<Rightarrow> staking_abi \<Rightarrow> (pool_instance_id \<Rightarrow> 'h) \<Rightarrow> 'h batch_record list \<Rightarrow> pool_instance_id \<Rightarrow> evm_snapshot
    \<Rightarrow> staking_batch" where
  "from_batch keccak256 abi handler_id records inst snapshot =
    (if inst_key inst \<noteq> SlipstreamKey POOL \<or> snapshot_chain_id snapshot \<noteq> 10 \<or> \<not> runtime_matches snapshot then Map.empty
     else if MAX_RECORDS < length records then Map.empty
     else case collect_records (handler_id inst) records of (transactions, invalid, _) \<Rightarrow>
       fold (\<lambda>(tx, logs) output.
           if tx \<in> set invalid then output
           else fold (\<lambda>p m. m(stk_key p \<mapsto> p)) (transaction_evidence keccak256 abi tx logs) output)
         transactions Map.empty)"

definition batch_evidence :: "staking_batch \<Rightarrow> address \<Rightarrow> adapter_event_context \<Rightarrow> slipstream_staking_evidence option" where
  "batch_evidence batch pool ctx =
    (if pool = POOL then (case event_key_context ctx of None \<Rightarrow> None | Some key \<Rightarrow> batch key) else None)"

definition prepare ::
  "keccak \<Rightarrow> staking_abi \<Rightarrow> (pool_instance_id \<Rightarrow> 'h) \<Rightarrow> u64 \<Rightarrow> 'h batch_record list \<Rightarrow> pool_instance_id option \<Rightarrow> evm_snapshot
    \<Rightarrow> staking_batch" where
  "prepare keccak256 abi handler_id cache_chain_id records active_pool snapshot =
    (if cache_chain_id \<noteq> 10 \<or> MAX_RECORDS < length records then Map.empty
     else case active_pool of None \<Rightarrow> Map.empty
     | Some inst \<Rightarrow>
         if \<not> list_ex (\<lambda>rec. case br_input rec of InputLog lg \<Rightarrow> log_address (rl_inner lg) = GAUGE | OtherInput \<Rightarrow> False) records
         then Map.empty
         else from_batch keccak256 abi handler_id records inst snapshot)"

section \<open>Where the evidence comes from\<close>

text \<open>Every collected log is the log of a visible record at that position of that transaction.\<close>

definition collected_from :: "'h \<Rightarrow> 'h batch_record list \<Rightarrow> transaction_key \<Rightarrow> (u64 \<times> log) list \<Rightarrow> bool" where
  "collected_from handler records tx logs \<longleftrightarrow> distinct (map fst logs)
    \<and> (\<forall>(i, l) \<in> set logs. \<exists>rec \<in> set records. record_visible handler rec \<and> record_position rec = Some (tx, i, l))"

lemma collected_from_insert:
  assumes "collected_from handler records tx logs" "rec \<in> set records" "record_visible handler rec"
    "record_position rec = Some (tx, i, l)"
  shows "collected_from handler records tx (btree_insert i l logs)"
  using assms set_btree_insert [of i l logs] distinct_btree_insert [of logs i l]
  by (fastforce simp: collected_from_def)

lemma collect_record_from:
  assumes "\<forall>(tx, logs) \<in> set transactions. collected_from handler records tx logs" "rec \<in> set records"
    "collect_record handler rec (transactions, invalid, scopes) = (transactions', invalid', scopes')"
  shows "\<forall>(tx, logs) \<in> set transactions'. collected_from handler records tx logs"
proof (cases "record_visible handler rec \<and> record_position rec \<noteq> None")
  case False
  then have "transactions' = transactions" using assms(3) by (auto simp: collect_record_def split: option.splits)
  then show ?thesis using assms(1) by simp
next
  case True
  then obtain key i l where p: "record_position rec = Some (key, i, l)" by (metis option.exhaust prod_cases3)
  define logs where "logs = (case map_of transactions key of Some logs \<Rightarrow> logs | None \<Rightarrow> [])"
  have t: "transactions' = btree_insert key (btree_insert i l logs) transactions"
    using assms(3) True p by (simp add: collect_record_def Let_def logs_def)
  have "collected_from handler records key logs"
    using assms(1) by (cases "map_of transactions key") (auto simp: logs_def collected_from_def dest!: map_of_SomeD)
  then have "collected_from handler records key (btree_insert i l logs)"
    using assms(2) True p by (intro collected_from_insert) simp_all
  then show ?thesis using assms(1) set_btree_insert [of key "btree_insert i l logs" transactions] unfolding t by fastforce
qed

lemma collect_records_from:
  assumes "collect_records handler records = (transactions, invalid, scopes)" "(tx, logs) \<in> set transactions"
  shows "collected_from handler records tx logs"
proof -
  have "\<forall>(tx, logs) \<in> set transactions'. collected_from handler records tx logs"
    if "set recs \<subseteq> set records" "\<forall>(tx, logs) \<in> set ts. collected_from handler records tx logs"
      "fold (collect_record handler) recs (ts, iv, sc) = (transactions', iv', sc')" for recs ts iv sc transactions' iv' sc'
    using that
  proof (induction recs arbitrary: ts iv sc)
    case (Cons rec recs)
    obtain ts2 iv2 sc2 where c: "collect_record handler rec (ts, iv, sc) = (ts2, iv2, sc2)" by (metis prod_cases3)
    show ?case
      using Cons.prems c collect_record_from [OF Cons.prems(2) _ c] by (intro Cons.IH [of ts2 iv2 sc2]) simp_all
  qed simp
  from this [of records "[]" "[]" "[]"] assms show ?thesis by (fastforce simp: collect_records_def)
qed

section \<open>What the evidence attests\<close>

text \<open>
  A gauge event at \<open>i\<close>, the NFT transfer of its token between owner and gauge before it, the NFT Collect of
  the same token for the owner before that, and two positions earlier the Collect of the pool that
  names the range.
\<close>

definition attested :: "staking_abi \<Rightarrow> (u64 \<times> log) list \<Rightarrow> u64 \<Rightarrow> log \<Rightarrow> staking_match \<Rightarrow> bool" where
  "attested abi logs i l m \<longleftrightarrow>
    (let owner = ev_user (sm_event m); token = ev_token_id (sm_event m)
     in log_address l = GAUGE \<and> gauge_event abi l = Some (sm_deposit m, sm_event m)
      \<and> uint (ev_liquidity (sm_event m)) < 2 ^ 127
      \<and> sm_transfer m < i
      \<and> (\<exists>tl ev. (sm_transfer m, tl) \<in> set logs \<and> log_address tl = NFT \<and> canonical_event (abi_transfer abi) tl = Some ev
          \<and> ev_transfer_token ev = token
          \<and> (if sm_deposit m then ev_from ev = owner \<and> ev_to ev = GAUGE else ev_from ev = GAUGE \<and> ev_to ev = owner))
      \<and> (\<exists>c cl ev pl. (c, cl) \<in> set logs \<and> c < sm_transfer m \<and> 2 \<le> uint c \<and> log_address cl = NFT
          \<and> canonical_event (abi_collect abi) cl = Some ev \<and> ev_collect_token ev = token \<and> ev_collect_recipient ev = owner
          \<and> map_of logs (c - 2) = Some pl \<and> log_address pl = POOL
          \<and> canonical_event (abi_pool_collect abi) pl = Some (sm_range m)
          \<and> ev_recipient (sm_range m) = owner \<and> ev_owner (sm_range m) = (if sm_deposit m then NFT else GAUGE)))"

lemma last_below_Some: "last_below pos i xs = Some x \<Longrightarrow> x \<in> set xs \<and> pos x < i"
  using last_in_set [of "filter (\<lambda>x. pos x < i) xs"] by (auto simp: last_below_def Let_def split: if_splits)

lemma match_gauge_log_SomeD:
  assumes "match_gauge_log abi logs i l = Some m"
  shows "attested abi logs i l m"
proof -
  obtain deposit ev where g: "log_address l = GAUGE" "gauge_event abi l = Some (deposit, ev)" "uint (ev_liquidity ev) < 2 ^ 127"
    using assms by (auto simp: match_gauge_log_def Let_def not_le split: if_splits option.splits)
  let ?owner = "ev_user ev" and ?token = "ev_token_id ev"
  let ?key = "if deposit then (?token, ?owner, GAUGE) else (?token, GAUGE, ?owner)"
  obtain transfer c recipient where t: "last_below id i (transfer_positions abi logs ?key) = Some transfer"
    "last_below fst transfer (collect_positions abi logs ?token) = Some (c, recipient)" "recipient = ?owner"
    using assms g by (auto simp: match_gauge_log_def Let_def split: if_splits option.splits)
  obtain pl rg where r: "2 \<le> uint c" "map_of logs (c - 2) = Some pl" "log_address pl = POOL"
    "canonical_event (abi_pool_collect abi) pl = Some rg" "ev_recipient rg = ?owner"
    "ev_owner rg = (if deposit then NFT else GAUGE)"
    and m: "m = \<lparr>sm_deposit = deposit, sm_event = ev, sm_transfer = transfer, sm_range = rg\<rparr>"
    using assms g t by (auto simp: match_gauge_log_def Let_def not_less split: if_splits option.splits)
  have tp: "transfer \<in> set (transfer_positions abi logs ?key)" "transfer < i" using last_below_Some [OF t(1)] by simp_all
  have cp: "(c, ?owner) \<in> set (collect_positions abi logs ?token)" "c < transfer"
    using last_below_Some [OF t(2)] t(3) by simp_all
  obtain tl tev where tl: "(transfer, tl) \<in> set logs" "log_address tl = NFT" "canonical_event (abi_transfer abi) tl = Some tev"
    "(ev_transfer_token tev, ev_from tev, ev_to tev) = ?key"
    using tp(1) by (auto simp: transfer_positions_def split: option.splits)
  obtain cl cev where cl: "(c, cl) \<in> set logs" "log_address cl = NFT" "canonical_event (abi_collect abi) cl = Some cev"
    "ev_collect_token cev = ?token" "ev_collect_recipient cev = ?owner"
    using cp(1) by (auto simp: collect_positions_def List.map_filter_def split: if_splits option.splits)
  have "\<exists>tl ev'. (transfer, tl) \<in> set logs \<and> log_address tl = NFT \<and> canonical_event (abi_transfer abi) tl = Some ev'
      \<and> ev_transfer_token ev' = ?token
      \<and> (if deposit then ev_from ev' = ?owner \<and> ev_to ev' = GAUGE else ev_from ev' = GAUGE \<and> ev_to ev' = ?owner)"
    using tl by (intro exI [of _ tl] exI [of _ tev]) (auto split: if_splits)
  moreover have "\<exists>c cl cev pl. (c, cl) \<in> set logs \<and> c < transfer \<and> 2 \<le> uint c \<and> log_address cl = NFT
          \<and> canonical_event (abi_collect abi) cl = Some cev \<and> ev_collect_token cev = ?token \<and> ev_collect_recipient cev = ?owner
          \<and> map_of logs (c - 2) = Some pl \<and> log_address pl = POOL
          \<and> canonical_event (abi_pool_collect abi) pl = Some rg
          \<and> ev_recipient rg = ?owner \<and> ev_owner rg = (if deposit then NFT else GAUGE)"
    using cl cp(2) r by (intro exI [of _ c] exI [of _ cl] exI [of _ cev] exI [of _ pl]) simp
  ultimately show ?thesis unfolding attested_def m Let_def staking_match.simps using g tp(2) by (intro conjI)
qed

lemma staking_candidates_from:
  assumes "staking_candidates keccak256 abi tx logs used rest = Some cs" "e \<in> set cs"
  shows "\<exists>i l m. (i, l) \<in> set rest \<and> match_gauge_log abi logs i l = Some m
    \<and> e \<in> set (match_evidence keccak256 tx logs i l m)"
  using assms
proof (induction rest arbitrary: used cs)
  case (Cons x rest)
  obtain i l where x: "x = (i, l)" by (cases x)
  show ?case
  proof (cases "match_gauge_log abi logs i l")
    case None
    then have "staking_candidates keccak256 abi tx logs used rest = Some cs" using Cons.prems x by simp
    from Cons.IH [OF this Cons.prems(2)] show ?thesis by auto
  next
    case (Some m)
    then obtain cs' where cs: "staking_candidates keccak256 abi tx logs (sm_transfer m # used) rest = Some cs'"
      "cs = match_evidence keccak256 tx logs i l m @ cs'"
      using Cons.prems x by (auto split: if_splits)
    then show ?thesis using Cons.IH [OF cs(1)] Cons.prems(2) Some x by auto
  qed
qed simp

lemma fold_evidence_from:
  assumes "fold (\<lambda>p m. m(stk_key p \<mapsto> p)) ps m k = Some e"
  shows "m k = Some e \<or> e \<in> set ps \<and> stk_key e = k"
  using assms by (induction ps arbitrary: m) (fastforce split: if_splits)+

lemma from_batch_from:
  assumes "from_batch keccak256 abi handler_id records inst snapshot k = Some e"
  shows "stk_key e = k \<and> runtime_matches snapshot \<and> snapshot_chain_id snapshot = 10 \<and> inst_key inst = SlipstreamKey POOL
    \<and> (\<exists>tx logs i l m. collected_from (handler_id inst) records tx logs \<and> (i, l) \<in> set logs
        \<and> match_gauge_log abi logs i l = Some m \<and> e \<in> set (match_evidence keccak256 tx logs i l m))"
proof -
  obtain transactions invalid scopes where c: "collect_records (handler_id inst) records = (transactions, invalid, scopes)"
    by (metis prod_cases3)
  define F where "F = (\<lambda>(tx, logs) output. if tx \<in> set invalid then output
    else fold (\<lambda>p m. m(stk_key p \<mapsto> p)) (transaction_evidence keccak256 abi tx logs) output)"
  have g: "inst_key inst = SlipstreamKey POOL" "snapshot_chain_id snapshot = 10" "runtime_matches snapshot"
    and r: "fold F transactions Map.empty k = Some e"
    using assms unfolding from_batch_def c prod.case F_def [symmetric] by (auto split: if_splits)
  have "m k = Some e \<or> (\<exists>(tx, logs) \<in> set ts. e \<in> set (transaction_evidence keccak256 abi tx logs) \<and> stk_key e = k)"
    if "fold F ts m k = Some e" for ts m
    using that
  proof (induction ts arbitrary: m)
    case (Cons t ts)
    obtain tx logs where t: "t = (tx, logs)" by (cases t)
    consider "F t m k = Some e" | "\<exists>(tx, logs) \<in> set ts. e \<in> set (transaction_evidence keccak256 abi tx logs) \<and> stk_key e = k"
      using Cons.IH [of "F t m"] Cons.prems by auto
    then show ?case
    proof cases
      case 1
      then show ?thesis using fold_evidence_from [of "transaction_evidence keccak256 abi tx logs" m k e]
        by (auto simp: F_def t split: if_splits)
    next
      case 2
      then show ?thesis by auto
    qed
  qed simp
  from this [OF r] obtain tx logs where tx: "(tx, logs) \<in> set transactions"
    "e \<in> set (transaction_evidence keccak256 abi tx logs)" "stk_key e = k" by auto
  obtain cs where "staking_candidates keccak256 abi tx logs [] logs = Some cs" "e \<in> set cs"
    using tx(2) by (cases "staking_candidates keccak256 abi tx logs [] logs")
      (auto simp: transaction_evidence_def split: if_splits)
  from staking_candidates_from [OF this] collect_records_from [OF c tx(1)] g tx(3) show ?thesis by blast
qed

text \<open>
  An entry of the batch carries the key it is stored under, the range of the attesting pool Collect, and the
  signed amount at the log where it applies (for a withdrawal the transfer, with a zero entry at
  the gauge event); its payload is the fingerprint of that log.
\<close>

lemma match_evidence_fields:
  assumes "collected_from handler records tx logs" "(i, l) \<in> set logs" "attested abi logs i l m"
    "e \<in> set (match_evidence keccak256 tx logs i l m)"
  shows "evk_transaction (stk_key e) = tx \<and> stk_lower e = ev_tick_lower (sm_range m) \<and> stk_upper e = ev_tick_upper (sm_range m)
    \<and> \<bar>stk_delta e\<bar> < 2 ^ 127
    \<and> (\<exists>al. (evk_log (stk_key e), al) \<in> set logs \<and> stk_payload e = fingerprint keccak256 al)
    \<and> (if evk_log (stk_key e) = i
       then stk_delta e = (if sm_deposit m then uint (ev_liquidity (sm_event m)) else 0)
       else evk_log (stk_key e) = sm_transfer m \<and> \<not> sm_deposit m \<and> stk_delta e = - uint (ev_liquidity (sm_event m)))"
proof -
  have d: "distinct (map fst logs)" using assms(1) by (simp add: collected_from_def)
  obtain tl where tl: "(sm_transfer m, tl) \<in> set logs" "sm_transfer m \<noteq> i" "uint (ev_liquidity (sm_event m)) < 2 ^ 127"
    using assms(3) by (auto simp: attested_def Let_def)
  have "map_of logs i = Some l" "map_of logs (sm_transfer m) = Some tl"
    using d assms(2) tl(1) by (simp_all add: map_of_is_SomeI)
  then show ?thesis
    using assms(2,4) tl by (cases "sm_deposit m") (auto simp: match_evidence_def Let_def)
qed

lemma from_batch_delta:
  assumes "from_batch keccak256 abi handler_id records inst snapshot k = Some e"
  shows "\<bar>stk_delta e\<bar> < 2 ^ 127"
proof -
  from from_batch_from [OF assms] obtain tx logs i l m where
    "collected_from (handler_id inst) records tx logs" "(i, l) \<in> set logs"
    "match_gauge_log abi logs i l = Some m" "e \<in> set (match_evidence keccak256 tx logs i l m)" by blast
  from match_evidence_fields [OF this(1,2) match_gauge_log_SomeD [OF this(3)] this(4)] show ?thesis by blast
qed

end
