(* ===== verification/Example_Staking.thy ===== *)
theory Example_Staking
  imports Example_Slipstream_Mint Staking_Evidence
begin

text \<open>
  One staking transaction: the collects and the transfer of a position NFT followed by the deposit into the gauge,
  the evidence that its logs yield, and the batch that the pool derives from it.
\<close>

definition stk_owner :: address where "stk_owner = 0x77"

definition stk_log :: "address \<Rightarrow> b256 \<Rightarrow> log" where
  "stk_log a topic = \<lparr>log_address = a, log_topics = [topic], log_data = []\<rparr>"

definition stk_codec :: "b256 \<Rightarrow> 'e \<Rightarrow> 'e sol_event" where
  "stk_codec topic ev = \<lparr>sol_decode = (\<lambda>l. if log_topics l = [topic] \<and> log_data l = [] then Some ev else None),
     sol_encode = (\<lambda>_. ([topic], []))\<rparr>"

definition stk_event :: stake_event where
  "stk_event = \<lparr>ev_user = stk_owner, ev_token_id = 9, ev_liquidity = 5\<rparr>"

definition stk_range :: pool_collect_event where
  "stk_range = \<lparr>ev_owner = NFT, ev_recipient = stk_owner, ev_tick_lower = - 200, ev_tick_upper = 400\<rparr>"

definition stk_abi :: staking_abi where
  "stk_abi = \<lparr>abi_topics = \<lparr>sig_deposit = 1, sig_withdraw = 2, sig_transfer = 3\<rparr>,
     abi_deposit = stk_codec 1 stk_event, abi_withdraw = stk_codec 2 stk_event,
     abi_transfer = stk_codec 3 \<lparr>ev_from = stk_owner, ev_to = GAUGE, ev_transfer_token = 9\<rparr>,
     abi_collect = stk_codec 4 \<lparr>ev_collect_token = 9, ev_collect_recipient = stk_owner\<rparr>,
     abi_pool_collect = stk_codec 5 stk_range\<rparr>"

definition stk_block :: block_ref where
  "stk_block = \<lparr>blk_number = 100, blk_hash = 0x11, blk_parent_hash = Some 0x22, blk_timestamp = Some 2000\<rparr>"

definition stk_record :: "u64 \<Rightarrow> log \<Rightarrow> nat batch_record" where
  "stk_record i l = \<lparr>
     br_input = InputLog \<lparr>rl_inner = l, rl_block_hash = Some 0x11, rl_block_number = Some 100, rl_block_timestamp = None,
       rl_transaction_hash = Some 0x33, rl_transaction_index = Some 3, rl_log_index = Some i, rl_removed = False\<rparr>,
     br_context = \<lparr>rc_chain_id = Some 10, rc_chain_status = Included stk_block, rc_block = Some stk_block,
       rc_transaction_index = Some 3, rc_log_index = Some i\<rparr>,
     br_audience = Some AudienceAll, br_scope = Some Canonical\<rparr>"

definition stk_logs :: "(u64 \<times> log) list" where
  "stk_logs = [(0, stk_log POOL 5), (2, stk_log NFT 4), (3, stk_log NFT 3), (4, stk_log GAUGE 1)]"

definition stk_records :: "nat batch_record list" where
  "stk_records = map (\<lambda>(i, l). stk_record i l) stk_logs"

definition stk_tx :: transaction_key where
  "stk_tx = \<lparr>txk_chain = 10, txk_number = 100, txk_hash = 0x11, txk_parent = 0x22, txk_timestamp = 2000,
     txk_transaction = 0x33, txk_index = 3\<rparr>"

definition stk_inst :: pool_instance_id where
  "stk_inst = \<lparr>inst_key = SlipstreamKey POOL, inst_generation = 1\<rparr>"

definition stk_snapshot :: evm_snapshot where
  "stk_snapshot = \<lparr>snapshot_chain_id = 10,
     account_code_hash = map_of [(POOL, 0x063ca35333cb7f2463f087d40ff9485475550abf4858a2f63c387d4d102b0f4f),
       (0xc28ad28853a547556780bebf7847628501a3bcbb, 0x36c3da904ca0b58544254cd0d978fe4801c32dc1f9e3b3e644487ef541299794),
       (GAUGE, 0x576a24f21989bca966fb1698aa060e9957ceabe9a970dadb98ba8dc740e845f1),
       (IMPLEMENTATION, 0xeb344e9f4bd301360b265a45cf417685e7ba46f7c53e03b592e7fc1fad53abdb),
       (NFT, 0xe46c8b86983505f15a6598c270339e696f5465478a32f17f1026d76e36fd69de)],
     storage_value = (\<lambda>a k. if a = POOL then map_of [(3, ucast GAUGE), (4, ucast NFT)] k else None)\<rparr>"

definition stk_key4 :: event_key where
  "stk_key4 = \<lparr>evk_transaction = stk_tx, evk_log = 4\<rparr>"

definition stk_evidence :: slipstream_staking_evidence where
  "stk_evidence = \<lparr>stk_key = stk_key4, stk_payload = fingerprint mint_hash (stk_log GAUGE 1), stk_lower = - 200,
     stk_upper = 400, stk_delta = 5\<rparr>"

lemma stk_accounts: "POOL \<noteq> GAUGE" "POOL \<noteq> NFT" "GAUGE \<noteq> NFT" "GAUGE \<noteq> POOL" "NFT \<noteq> POOL" "NFT \<noteq> GAUGE"
  by (simp_all add: POOL_def GAUGE_def NFT_def)

lemma stk_runtime: "runtime_matches stk_snapshot"
  unfolding runtime_matches_def stk_snapshot_def by (simp add: POOL_def GAUGE_def NFT_def IMPLEMENTATION_def)

lemma stk_visible: "record_visible h (stk_record i l)"
  by (simp add: record_visible_def stk_record_def)

lemma stk_position: "log_address l \<in> {POOL, GAUGE, NFT} \<Longrightarrow> record_position (stk_record i l) = Some (stk_tx, i, l)"
  by (simp add: record_position_def stk_record_def stk_block_def chain_status_at_def stk_tx_def)

lemma stk_collect: "collect_records h stk_records = ([(stk_tx, stk_logs)], [], [(stk_tx, Some Canonical)])"
proof -
  have scope: "br_scope (stk_record i l) = Some Canonical" for i l by (simp add: stk_record_def)
  have step: "collect_record h (stk_record i l) (ts, iv, sc) =
      (let invalid = (case map_of sc stk_tx of Some previous \<Rightarrow> if previous \<noteq> Some Canonical then stk_tx # iv else iv | None \<Rightarrow> iv);
           logs = (case map_of ts stk_tx of Some logs \<Rightarrow> logs | None \<Rightarrow> []);
           invalid = (if map_of logs i \<noteq> None then stk_tx # invalid else invalid)
       in (btree_insert stk_tx (btree_insert i l logs) ts, invalid, btree_insert stk_tx (Some Canonical) sc))"
    if "log_address l \<in> {POOL, GAUGE, NFT}" for i l ts iv sc
    by (simp only: collect_record_def stk_visible stk_position [OF that] scope prod.case option.case not_True_eq_False if_False)
  show ?thesis
    by (simp add: collect_records_def stk_records_def stk_logs_def step stk_log_def btree_insert_def)
qed

lemma stk_canonical:
  "canonical_event (stk_codec t ev) (stk_log a t') = (if t' = t then Some ev else None)"
  by (simp add: canonical_event_def stk_codec_def stk_log_def)

lemma stk_match:
  "match_gauge_log stk_abi stk_logs 4 (stk_log GAUGE 1)
    = Some \<lparr>sm_deposit = True, sm_event = stk_event, sm_transfer = 3, sm_range = stk_range\<rparr>"
proof -
  have addr [simp]: "log_address (stk_log a t) = a" "log_topics (stk_log a t) = [t]" for a t by (simp_all add: stk_log_def)
  have g: "gauge_event stk_abi (stk_log GAUGE 1) = Some (True, stk_event)"
    by (simp add: gauge_event_def stk_abi_def stk_canonical nth_opt_def)
  have t: "transfer_positions stk_abi stk_logs (9, stk_owner, GAUGE) = [3]"
    by (simp add: transfer_positions_def stk_logs_def stk_abi_def stk_canonical stk_accounts)
  have c: "collect_positions stk_abi stk_logs 9 = [(2, stk_owner)]"
    by (simp add: collect_positions_def stk_logs_def stk_abi_def stk_canonical stk_accounts List.map_filter_simps)
  have p: "canonical_event (abi_pool_collect stk_abi) (stk_log POOL 5) = Some stk_range" "map_of stk_logs 0 = Some (stk_log POOL 5)"
    by (simp_all add: stk_abi_def stk_canonical stk_logs_def)
  show ?thesis
    by (simp add: match_gauge_log_def g Let_def stk_event_def t c p last_below_def)
      (simp add: stk_range_def stk_event_def)
qed

lemma stk_other_logs:
  "a \<noteq> GAUGE \<Longrightarrow> match_gauge_log abi logs i (stk_log a t) = None"
  by (simp add: match_gauge_log_def stk_log_def)

lemma stk_batch: "from_batch mint_hash stk_abi id_handler stk_records stk_inst stk_snapshot stk_key4 = Some stk_evidence"
proof -
  have "staking_candidates mint_hash stk_abi stk_tx stk_logs [] [(0, stk_log POOL 5), (2, stk_log NFT 4), (3, stk_log NFT 3), (4, stk_log GAUGE 1)]
      = Some [stk_evidence]"
    using stk_accounts by (simp add: stk_other_logs stk_match match_evidence_def Let_def)
      (simp add: stk_logs_def stk_evidence_def stk_key4_def stk_event_def stk_range_def)
  then have ev: "transaction_evidence mint_hash stk_abi stk_tx stk_logs = [stk_evidence]"
    by (simp add: transaction_evidence_def stk_logs_def [symmetric])
  have "length stk_records = 4" "inst_key stk_inst = SlipstreamKey POOL" "snapshot_chain_id stk_snapshot = 10"
    "stk_key stk_evidence = stk_key4"
    by (simp_all add: stk_records_def stk_logs_def stk_inst_def stk_snapshot_def stk_evidence_def)
  then show ?thesis
    by (simp add: from_batch_def stk_runtime stk_collect ev MAX_RECORDS_def)
qed

section \<open>The transition\<close>

definition stk_pool :: pool_registration where
  "stk_pool = (registration_new (SlipstreamKey POOL))\<lparr>reg_metadata := SlipstreamMeta \<lparr>v3_token0 = None, v3_token1 = None,
     v3_fee = None, v3_tick_spacing = Some 200, v3_factory = None, v3_quoter = None, v3_storage_layout_override = None,
     v3_warm_word_radius = None, v3_warmed_slots = []\<rparr>\<rparr>"

definition stk_ctx :: adapter_event_context where
  "stk_ctx = with_chain_id demo_ctx 10"

definition stk_view :: state_view where
  "stk_view a k = (if a = POOL then map_of ([(14358, 2 ^ 248), (14354, 0), (14353, 7), (36886, 2 ^ 248), (36882, 0), (36881, 7)]
     @ slip_words) k else None)"

definition stk_updates :: "state_update list" where
  "stk_updates = [Slot POOL 15 292300327976604134022144661738318915078838825779205, Slot POOL 14354 5,
     Slot POOL 36882 (2 ^ 128 - 5)]"

lemma stk_layout: "layout_for stk_pool = Some (layout_slipstream 200)"
  by (simp add: stk_pool_def layout_from_metadata_def)

lemma stk_context: "event_key_context stk_ctx = Some stk_key4" "validate_context stk_ctx = Inr ()" "ctx_chain_id stk_ctx = Some 10"
  by (simp_all add: event_key_context_def stk_ctx_def demo_ctx_def with_transaction_hash_def with_event_order_def
      with_parent_hash_def with_chain_id_def for_block_def stk_key4_def stk_tx_def validate_context_def event_timestamp_def word_eval)

lemma stk_review: "validate_reviewed_slipstream_event POOL (layout_slipstream 200) stk_ctx = Inr ()"
  by (simp add: validate_reviewed_slipstream_event_def stk_context POOL_def)

lemma stk_run: "staking_derive mint_hash stk_pool stk_ctx stk_evidence stk_view = Inr stk_updates"
proof -
  have v: "stk_view POOL 6 = Some slip_slot0" "stk_view POOL 15 = Some 292300327976604134022144661738318915078838825779200"
    "stk_view POOL 16 = Some 2381976568446569244244622252022377480192" "stk_view POOL 14358 = Some (2 ^ 248)"
    "stk_view POOL 14354 = Some 0" "stk_view POOL 14353 = Some 7" "stk_view POOL 36886 = Some (2 ^ 248)"
    "stk_view POOL 36882 = Some 0" "stk_view POOL 36881 = Some 7"
    by (simp_all add: stk_view_def slip_words_def)
  have e: "stk_key stk_evidence = stk_key4" "stk_lower stk_evidence = - 200" "stk_upper stk_evidence = 400" "stk_delta stk_evidence = 5"
    by (simp_all add: stk_evidence_def)
  have m: "MASK = 340282366920938463463374607431768211455" by (simp add: MASK_eq mask_eq_exp_minus_1)
  have tick: "staking_tick slip_slot0 = 0" by (simp add: staking_tick_def slip_slot0_def word_eval)
  have parent: "validate_staking_parent slip_slot0 292300327976604134022144661738318915078838825779200
      (2381976568446569244244622252022377480192 AND MASK) = Inr ()"
    unfolding validate_staking_parent_def tick m by (simp add: slip_slot0_def word_eval)
  have range: "staking_range_write stk_evidence 0 292300327976604134022144661738318915078838825779200
      (2381976568446569244244622252022377480192 AND MASK) = Inr [Slot POOL 15 292300327976604134022144661738318915078838825779205]"
    unfolding staking_range_write_def e m by (simp add: checked_add_def word_eval)
  have lo: "staking_tick_write mint_hash (layout_slipstream 200) stk_view (- 200, 5) = Inr [Slot POOL 14354 5]"
    by (simp add: staking_tick_write_def slip_mint_keys v Let_def m as_i128_def i128_checked_add_def word_eval)
  have up: "staking_tick_write mint_hash (layout_slipstream 200) stk_view (400, - 5) = Inr [Slot POOL 36882 (2 ^ 128 - 5)]"
    by (simp add: staking_tick_write_def slip_mint_keys v Let_def m as_i128_def i128_checked_add_def word_eval)
  have valid: "validate_staking_range (layout_slipstream 200) stk_evidence = Inr ()" by (simp add: validate_staking_range_def e)
  show ?thesis
    by (simp add: staking_derive_def stk_context stk_layout stk_review valid e v tick parent range neg_i128_def lo up stk_updates_def
        del: layout_for.simps)
qed

end
