(* ===== verification/Cold_Start.thy ===== *)
theory Cold_Start
  imports Registry BTree_Map
begin

text \<open>
  \<open>src/adapters/cold_start.rs\<close>: the vocabulary of cold-start planners, and the resumable job that prepares a
  pool in the background. A planner cannot cross an await point, so the job keeps a transcript of its
  rounds and at every step rebuilds the planner and replays it; \<open>drive\<close> is the same work done with one
  planner that is never dropped, and the job is proved to refine it.

  The storage fetcher belongs to the cache crate: it is a function of the number of completed rounds and of the
  request, so that the provider may answer differently over time. The method \<open>code_seeds\<close> of the adapter, the
  provider of account proofs and the account patch of the cache crate are the fields of a record.
\<close>

section \<open>Plans, results and outcomes\<close>

record cold_start_call =
  csc_from :: address
  csc_to :: address
  csc_calldata :: "u8 list"
  csc_restrict_to :: "address list option"

record cold_start_plan =
  pln_verify :: "(address \<times> u256) list"
  pln_probe :: "(address \<times> u256) list"
  pln_probe_roots :: "address list"
  pln_accounts :: "address list"
  pln_discover :: "cold_start_call list"

definition empty_plan :: cold_start_plan where
  "empty_plan = \<lparr>pln_verify = [], pln_probe = [], pln_probe_roots = [], pln_accounts = [], pln_discover = []\<rparr>"

definition verify_plan :: "(address \<times> u256) list \<Rightarrow> cold_start_plan" where
  "verify_plan slots = empty_plan\<lparr>pln_verify := slots\<rparr>"

datatype slot_fetch = FetchValue u256 | FetchZero | FetchFailed string | NotAttempted

record slot_outcome =
  so_address :: address
  so_slot :: u256
  so_fetch :: slot_fetch

text \<open>The outcome of a discover call: whether it succeeded, its return data and the slots it touched.\<close>

record cold_start_call_result =
  ccr_success :: bool
  ccr_output :: "u8 list option"
  ccr_slots :: "(address \<times> u256) list"

record cold_start_results =
  res_verified :: "slot_change list"
  res_fetched :: "slot_outcome list"
  res_probed :: "slot_outcome list"
  res_discovered :: "cold_start_call_result list"

text \<open>\<open>Abort\<close> is not a value of the source's enum: it is how the model shows a callback of the planner that panics.\<close>

datatype cold_start_step = Done | Continue cold_start_plan | Abort adapter_event_error

record cold_start_run_report =
  rr_rounds :: nat
  rr_verified_slots :: nat
  rr_changed_slots :: nat
  rr_discovered_accounts :: nat
  rr_discovered_slots :: nat
  rr_failed_slots :: nat

definition run_report_default :: cold_start_run_report where
  "run_report_default = \<lparr>rr_rounds = 0, rr_verified_slots = 0, rr_changed_slots = 0, rr_discovered_accounts = 0,
     rr_discovered_slots = 0, rr_failed_slots = 0\<rparr>"

record cold_start_report =
  csr_pool :: pool_key
  csr_policy :: cold_start_policy
  csr_status :: pool_status
  csr_verified_slots :: "(address \<times> u256) list"
  csr_changed_slots :: "slot_change list"
  csr_deferred :: "deferred_work list"

definition report_new :: "pool_key \<Rightarrow> cold_start_policy \<Rightarrow> cold_start_report" where
  "report_new key policy = \<lparr>csr_pool = key, csr_policy = policy, csr_status = Pending, csr_verified_slots = [],
     csr_changed_slots = [], csr_deferred = []\<rparr>"

datatype cold_start_outcome =
    OutcomeReady cold_start_report
  | ReadyWithDeferred cold_start_report "deferred_work list"
  | NeedsRepair cold_start_report repair_action
  | OutcomeUnsupported unsupported_reason

section \<open>Planners\<close>

text \<open>The trait \<open>AdapterColdStartPlanner\<close>, with the planner's own state passed and returned.\<close>

record 'p planner_ops =
  op_initial_plan :: "'p \<Rightarrow> state_view \<Rightarrow> cold_start_plan \<times> 'p"
  op_on_results :: "'p \<Rightarrow> cold_start_results \<Rightarrow> state_view \<Rightarrow> cold_start_step \<times> 'p"
  op_finish :: "'p \<Rightarrow> pool_registration \<Rightarrow> cold_start_run_report \<Rightarrow> cold_start_outcome \<times> pool_registration"

record 'p planner_adapter =
  pa_ops :: "'p planner_ops"
  pa_planner :: "pool_registration \<Rightarrow> cold_start_policy \<Rightarrow> unsupported_reason + 'p"

section \<open>Prepared state\<close>

type_synonym cell = "address \<times> u256"

record ('b, 'a) prepared_pool_state =
  pps_registration :: pool_registration
  pps_baseline :: 'b
  pps_storage :: "(cell \<times> u256) list"
  pps_accounts :: "'a option"
  pps_deferred :: "deferred_work list"

datatype bytecode_template_error =
    MissingImmutable string
  | InvalidPatchLength string nat
  | PatchOutOfBounds string nat nat nat

datatype unsupported_prepared_phase = PhaseAccounts | PhaseDiscover | PhaseProbeRoots

datatype 'e prepared_cold_start_error =
    PreparedUnsupported unsupported_reason
  | UnsupportedPhase unsupported_prepared_phase
  | InvalidRoundBudget
  | RoundBudgetExceeded nat
  | StorageFetch 'e
  | CodeSeed bytecode_template_error
  | CodeProofUnavailable
  | CodeProofFetch 'e
  | CodeProofMismatch address
  | CodeProofFailed address string
  | PlannerTranscriptDiverged
  | PlannerPanicked adapter_event_error
  | NotReady cold_start_outcome
  | DuplicateStorage cell

fun first_duplicate :: "cell list \<Rightarrow> (cell \<times> u256) list \<Rightarrow> cell option" where
  "first_duplicate seen [] = None"
| "first_duplicate seen ((cell, _) # rest) = (if cell \<in> set seen then Some cell else first_duplicate (cell # seen) rest)"

definition prepared_new ::
  "pool_registration \<Rightarrow> 'b \<Rightarrow> (cell \<times> u256) list \<Rightarrow> 'e prepared_cold_start_error + ('b, 'a) prepared_pool_state" where
  "prepared_new registration baseline entries =
    (let storage = sort_key fst entries
     in case first_duplicate [] storage of
         Some cell \<Rightarrow> Inl (DuplicateStorage cell)
       | None \<Rightarrow> Inr \<lparr>pps_registration = registration, pps_baseline = baseline, pps_storage = storage,
           pps_accounts = None, pps_deferred = []\<rparr>)"

section \<open>Code seeds\<close>

record adapter_code_seed =
  seed_address :: address
  seed_runtime_bytecode :: "u8 list"
  seed_code_hash :: b256

datatype 'f account_proof_outcome =
    ProofVerified address 'f
  | ProofMismatch address
  | ProofFetchFailed address string
  | ProofOther address

text \<open>
  What the job's constructor is given for code: the adapter's seeds, the registry's switch, the optional provider of
  proofs at the baseline block, the account patch at that block and its values, the accounts verified before.
\<close>

record ('b, 'e, 'f, 'a) code_env =
  ce_code_seeds :: "pool_registration \<Rightarrow> bytecode_template_error + adapter_code_seed list"
  ce_enabled :: bool
  ce_fetch_proofs :: "('b \<Rightarrow> (address \<times> b256) list \<Rightarrow> 'e + 'f account_proof_outcome list) option"
  ce_patch :: "'b \<Rightarrow> (address \<times> 'f \<times> u8 list) list \<Rightarrow> 'a"
  ce_patch_values :: "'a \<Rightarrow> (address \<times> 'f \<times> u8 list) list"
  ce_verified_accounts :: "(address \<times> 'f \<times> u8 list) list"

fun proved_code ::
  "(adapter_code_seed \<times> 'f account_proof_outcome) list \<Rightarrow> 'e prepared_cold_start_error + (address \<times> 'f \<times> u8 list) list" where
  "proved_code [] = Inr []"
| "proved_code ((seed, outcome) # rest) =
    (case outcome of
       ProofVerified address f \<Rightarrow> map_sum id (\<lambda>code. (address, f, seed_runtime_bytecode seed) # code) (proved_code rest)
     | ProofMismatch address \<Rightarrow> Inl (CodeProofMismatch address)
     | ProofFetchFailed address reason \<Rightarrow> Inl (CodeProofFailed address reason)
     | ProofOther address \<Rightarrow> Inl (CodeProofFailed address ''unsupported account-proof outcome''))"

definition prepare_code_seeds ::
  "('b, 'e, 'f, 'a) code_env \<Rightarrow> pool_registration \<Rightarrow> 'b \<Rightarrow> 'e prepared_cold_start_error + 'a" where
  "prepare_code_seeds env pool baseline =
    (case (if ce_enabled env then ce_code_seeds env pool else Inr []) of
       Inl e \<Rightarrow> Inl (CodeSeed e)
     | Inr seeds \<Rightarrow>
         if seeds = [] then Inr (ce_patch env baseline [])
         else case ce_fetch_proofs env of
             None \<Rightarrow> Inl CodeProofUnavailable
           | Some fetch \<Rightarrow>
               (case fetch baseline (map (\<lambda>seed. (seed_address seed, seed_code_hash seed)) seeds) of
                  Inl e \<Rightarrow> Inl (CodeProofFetch e)
                | Inr outcomes \<Rightarrow> map_sum id (ce_patch env baseline) (proved_code (zip seeds outcomes))))"

text \<open>The patch of the seeds, extended with the accounts that were verified before.\<close>

definition job_account_patch ::
  "('b, 'e, 'f, 'a) code_env \<Rightarrow> pool_registration \<Rightarrow> 'b \<Rightarrow> 'e prepared_cold_start_error + 'a" where
  "job_account_patch env pool baseline =
    map_sum id (\<lambda>patch. ce_patch env baseline (ce_patch_values env patch @ ce_verified_accounts env))
      (prepare_code_seeds env pool baseline)"

section \<open>One round\<close>

definition worker_view :: "state_view \<Rightarrow> (cell \<times> u256) list \<Rightarrow> state_view" where
  "worker_view base storage a k = (case map_of storage (a, k) of Some v \<Rightarrow> Some v | None \<Rightarrow> base a k)"

definition same_prepared_plan :: "cold_start_plan \<Rightarrow> cold_start_plan \<Rightarrow> bool" where
  "same_prepared_plan left right \<longleftrightarrow>
    pln_verify left = pln_verify right \<and> pln_probe left = pln_probe right
    \<and> pln_probe_roots left = pln_probe_roots right \<and> pln_accounts left = pln_accounts right
    \<and> length (pln_discover left) = length (pln_discover right)
    \<and> list_all (\<lambda>(l, r). csc_from l = csc_from r \<and> csc_to l = csc_to r \<and> csc_calldata l = csc_calldata r
        \<and> csc_restrict_to l = csc_restrict_to r) (zip (pln_discover left) (pln_discover right))"

definition reject_unsupported_phase :: "cold_start_plan \<Rightarrow> 'e prepared_cold_start_error + unit" where
  "reject_unsupported_phase plan =
    (if pln_accounts plan \<noteq> [] then Inl (UnsupportedPhase PhaseAccounts)
     else if pln_discover plan \<noteq> [] then Inl (UnsupportedPhase PhaseDiscover)
     else if pln_probe_roots plan \<noteq> [] then Inl (UnsupportedPhase PhaseProbeRoots)
     else Inr ())"

record storage_round =
  sr_fetched :: "slot_outcome list"
  sr_probed :: "slot_outcome list"
  sr_patch :: "(cell \<times> u256) list"

type_synonym 'e fetcher = "nat \<Rightarrow> (address \<times> u256) list \<Rightarrow> (address \<times> u256) list \<Rightarrow> 'e + storage_round"

definition apply_patch_value ::
  "state_view \<Rightarrow> cell \<times> u256 \<Rightarrow> slot_change list \<times> (cell \<times> u256) list \<Rightarrow> slot_change list \<times> (cell \<times> u256) list" where
  "apply_patch_value base = (\<lambda>((a, k), new) (verified, storage).
    let old = (case worker_view base storage a k of Some v \<Rightarrow> v | None \<Rightarrow> 0)
    in (if old \<noteq> new then verified @ [\<lparr>sc_address = a, sc_slot = k, sc_old = old, sc_new = new\<rparr>] else verified,
        btree_insert (a, k) new storage))"

definition absorb_worker_round ::
  "cold_start_run_report \<Rightarrow> cold_start_plan \<Rightarrow> cold_start_results \<Rightarrow> cold_start_run_report" where
  "absorb_worker_round report plan results = report\<lparr>
     rr_rounds := rr_rounds report + 1,
     rr_verified_slots := rr_verified_slots report + length (pln_verify plan),
     rr_changed_slots := rr_changed_slots report + length (res_verified results),
     rr_failed_slots := rr_failed_slots report
       + length (filter (\<lambda>o'. case so_fetch o' of FetchFailed _ \<Rightarrow> True | _ \<Rightarrow> False) (res_fetched results @ res_probed results))\<rparr>"

definition round_results :: "storage_round \<Rightarrow> slot_change list \<Rightarrow> cold_start_results" where
  "round_results r verified = \<lparr>res_verified = verified, res_fetched = sr_fetched r, res_probed = sr_probed r, res_discovered = []\<rparr>"

definition conclude ::
  "'p planner_ops \<Rightarrow> 'p \<Rightarrow> pool_registration \<Rightarrow> 'b \<Rightarrow> 'a \<Rightarrow> cold_start_run_report \<Rightarrow> (cell \<times> u256) list
    \<Rightarrow> 'e prepared_cold_start_error + ('b, 'a) prepared_pool_state" where
  "conclude ops p pool baseline accounts report accumulated =
    (case op_finish ops p pool report of (outcome, pool') \<Rightarrow>
       (case (case outcome of OutcomeReady _ \<Rightarrow> Some [] | ReadyWithDeferred _ deferred \<Rightarrow> Some deferred | _ \<Rightarrow> None) of
          None \<Rightarrow> Inl (NotReady outcome)
        | Some deferred \<Rightarrow>
            (case prepared_new pool' baseline accumulated of
               Inl e \<Rightarrow> Inl e
             | Inr s \<Rightarrow> Inr (s\<lparr>pps_accounts := Some accounts, pps_deferred := deferred\<rparr>))))"

section \<open>The job\<close>

record prepared_round =
  rd_plan :: cold_start_plan
  rd_results :: cold_start_results
  rd_storage :: "(cell \<times> u256) list"

record ('b, 'a) prepared_pool_job =
  job_pool :: pool_registration
  job_baseline :: 'b
  job_policy :: cold_start_policy
  job_base :: state_view
  job_accounts :: 'a
  job_max_rounds :: nat
  job_rounds :: "prepared_round list"
  job_report :: cold_start_run_report
  job_accumulated :: "(cell \<times> u256) list"

definition job_new ::
  "(protocol_id \<rightharpoonup> 'p planner_adapter) \<Rightarrow> pool_registration \<Rightarrow> 'b \<Rightarrow> cold_start_policy \<Rightarrow> state_view
    \<Rightarrow> ('b, 'e, 'f, 'a) code_env \<Rightarrow> nat \<Rightarrow> 'e prepared_cold_start_error + ('p planner_adapter \<times> ('b, 'a) prepared_pool_job)" where
  "job_new adapter_of pool baseline policy base env max_rounds =
    (if max_rounds = 0 then Inl InvalidRoundBudget
     else case adapter_of (reg_protocol pool) of
         None \<Rightarrow> Inl (PreparedUnsupported (UnsupportedProtocol (reg_protocol pool)))
       | Some adapter \<Rightarrow>
           (case pa_planner adapter pool policy of
              Inl reason \<Rightarrow> Inl (PreparedUnsupported reason)
            | Inr _ \<Rightarrow>
                (case job_account_patch env pool baseline of
                   Inl e \<Rightarrow> Inl e
                 | Inr account_patch \<Rightarrow> Inr (adapter, \<lparr>job_pool = pool, job_baseline = baseline, job_policy = policy,
                     job_base = base, job_accounts = account_patch, job_max_rounds = max_rounds, job_rounds = [],
                     job_report = run_report_default, job_accumulated = []\<rparr>))))"

fun replay ::
  "'p planner_ops \<Rightarrow> state_view \<Rightarrow> 'p \<Rightarrow> cold_start_plan \<Rightarrow> prepared_round list
    \<Rightarrow> 'e prepared_cold_start_error + ('p \<times> cold_start_plan)" where
  "replay ops base p plan [] = Inr (p, plan)"
| "replay ops base p plan (historical # rest) =
    (if \<not> same_prepared_plan plan (rd_plan historical) then Inl PlannerTranscriptDiverged
     else case op_on_results ops p (rd_results historical) (worker_view base (rd_storage historical)) of
         (Continue next, p') \<Rightarrow> replay ops base p' next rest
       | (Done, _) \<Rightarrow> Inl PlannerTranscriptDiverged
       | (Abort e, _) \<Rightarrow> Inl (PlannerPanicked e))"

definition last_storage :: "prepared_round list \<Rightarrow> (cell \<times> u256) list" where
  "last_storage rounds = (if rounds = [] then [] else rd_storage (last rounds))"

datatype ('b, 'a) prepared_pool_step = StepContinue "('b, 'a) prepared_pool_job" | StepDone "('b, 'a) prepared_pool_state"

definition job_step ::
  "'e fetcher \<Rightarrow> 'p planner_adapter \<Rightarrow> ('b, 'a) prepared_pool_job
    \<Rightarrow> 'e prepared_cold_start_error + ('b, 'a) prepared_pool_step" where
  "job_step fetch adapter job =
    (if job_max_rounds job \<le> length (job_rounds job) then Inl (RoundBudgetExceeded (job_max_rounds job))
     else case pa_planner adapter (job_pool job) (job_policy job) of
         Inl reason \<Rightarrow> Inl (PreparedUnsupported reason)
       | Inr planner \<Rightarrow>
     (case op_initial_plan (pa_ops adapter) planner (worker_view (job_base job) []) of (plan, planner) \<Rightarrow>
     (case replay (pa_ops adapter) (job_base job) planner plan (job_rounds job) of
         Inl e \<Rightarrow> Inl e
       | Inr (planner, plan) \<Rightarrow>
     (case reject_unsupported_phase plan of
         Inl e \<Rightarrow> Inl e
       | Inr _ \<Rightarrow>
     (case fetch (length (job_rounds job)) (pln_verify plan) (pln_probe plan) of
         Inl e \<Rightarrow> Inl (StorageFetch e)
       | Inr r \<Rightarrow>
     (case fold (apply_patch_value (job_base job)) (sr_patch r) ([], last_storage (job_rounds job)) of (verified, storage) \<Rightarrow>
      let accumulated = fold (\<lambda>(cell, new). btree_insert cell new) (sr_patch r) (job_accumulated job);
          results = round_results r verified;
          report = absorb_worker_round (job_report job) plan results;
          job' = job\<lparr>job_rounds := job_rounds job @ [\<lparr>rd_plan = plan, rd_results = results, rd_storage = storage\<rparr>],
                     job_report := report, job_accumulated := accumulated\<rparr>
      in case op_on_results (pa_ops adapter) planner results (worker_view (job_base job) storage) of
          (Continue _, _) \<Rightarrow> Inr (StepContinue job')
        | (Abort e, _) \<Rightarrow> Inl (PlannerPanicked e)
        | (Done, planner) \<Rightarrow>
            map_sum id StepDone
              (conclude (pa_ops adapter) planner (job_pool job) (job_baseline job) (job_accounts job) report accumulated)))))))"

lemma job_step_Continue:
  assumes "job_step fetch adapter job = Inr (StepContinue job')"
  shows "length (job_rounds job) < job_max_rounds job" "length (job_rounds job') = Suc (length (job_rounds job))"
    "job_max_rounds job' = job_max_rounds job"
  using assms by (auto simp: job_step_def Let_def map_sum_def split: if_splits sum.splits prod.splits cold_start_step.splits)

function run_job ::
  "'e fetcher \<Rightarrow> 'p planner_adapter \<Rightarrow> ('b, 'a) prepared_pool_job
    \<Rightarrow> 'e prepared_cold_start_error + ('b, 'a) prepared_pool_state" where
  "run_job fetch adapter job =
    (case job_step fetch adapter job of
       Inl e \<Rightarrow> Inl e
     | Inr (StepContinue job') \<Rightarrow> run_job fetch adapter job'
     | Inr (StepDone prepared) \<Rightarrow> Inr prepared)"
  by pat_completeness auto

termination
  by (relation "measure (\<lambda>(_, _, job). job_max_rounds job - length (job_rounds job))")
    (simp_all add: job_step_Continue diff_less_mono2)

declare run_job.simps [simp del]

definition prepare_resumable_pool ::
  "'e fetcher \<Rightarrow> (protocol_id \<rightharpoonup> 'p planner_adapter) \<Rightarrow> pool_registration \<Rightarrow> 'b \<Rightarrow> cold_start_policy \<Rightarrow> state_view
    \<Rightarrow> ('b, 'e, 'f, 'a) code_env \<Rightarrow> nat \<Rightarrow> 'e prepared_cold_start_error + ('b, 'a) prepared_pool_state" where
  "prepare_resumable_pool fetch adapter_of pool baseline policy base env max_rounds =
    (case job_new adapter_of pool baseline policy base env max_rounds of
       Inl e \<Rightarrow> Inl e
     | Inr (adapter, job) \<Rightarrow> run_job fetch adapter job)"

section \<open>The same work with one planner\<close>

fun drive ::
  "'e fetcher \<Rightarrow> 'p planner_ops \<Rightarrow> pool_registration \<Rightarrow> 'b \<Rightarrow> state_view \<Rightarrow> 'a \<Rightarrow> nat \<Rightarrow> nat
    \<Rightarrow> 'p \<Rightarrow> cold_start_plan \<Rightarrow> (cell \<times> u256) list \<Rightarrow> cold_start_run_report
    \<Rightarrow> 'e prepared_cold_start_error + ('b, 'a) prepared_pool_state" where
  "drive fetch ops pool baseline base accounts n 0 p plan storage report = Inl (RoundBudgetExceeded n)"
| "drive fetch ops pool baseline base accounts n (Suc left) p plan storage report =
    (case reject_unsupported_phase plan of
       Inl e \<Rightarrow> Inl e
     | Inr _ \<Rightarrow>
    (case fetch n (pln_verify plan) (pln_probe plan) of
       Inl e \<Rightarrow> Inl (StorageFetch e)
     | Inr r \<Rightarrow>
    (case fold (apply_patch_value base) (sr_patch r) ([], storage) of (verified, storage') \<Rightarrow>
     let results = round_results r verified; report' = absorb_worker_round report plan results
     in case op_on_results ops p results (worker_view base storage') of
         (Continue next, p') \<Rightarrow> drive fetch ops pool baseline base accounts (Suc n) left p' next storage' report'
       | (Done, p') \<Rightarrow> conclude ops p' pool baseline accounts report' storage'
       | (Abort e, _) \<Rightarrow> Inl (PlannerPanicked e))))"

definition direct_cold_start ::
  "'e fetcher \<Rightarrow> (protocol_id \<rightharpoonup> 'p planner_adapter) \<Rightarrow> pool_registration \<Rightarrow> 'b \<Rightarrow> cold_start_policy \<Rightarrow> state_view
    \<Rightarrow> ('b, 'e, 'f, 'a) code_env \<Rightarrow> nat \<Rightarrow> 'e prepared_cold_start_error + ('b, 'a) prepared_pool_state" where
  "direct_cold_start fetch adapter_of pool baseline policy base env max_rounds =
    (if max_rounds = 0 then Inl InvalidRoundBudget
     else case adapter_of (reg_protocol pool) of
         None \<Rightarrow> Inl (PreparedUnsupported (UnsupportedProtocol (reg_protocol pool)))
       | Some adapter \<Rightarrow>
     (case pa_planner adapter pool policy of
         Inl reason \<Rightarrow> Inl (PreparedUnsupported reason)
       | Inr p \<Rightarrow>
     (case job_account_patch env pool baseline of
         Inl e \<Rightarrow> Inl e
       | Inr account_patch \<Rightarrow>
     (case op_initial_plan (pa_ops adapter) p (worker_view base []) of (plan, p') \<Rightarrow>
        drive fetch (pa_ops adapter) pool baseline base account_patch 0 max_rounds p' plan [] run_report_default))))"

lemma same_prepared_plan_refl [simp]: "same_prepared_plan plan plan"
  by (auto simp: same_prepared_plan_def list_all_iff in_set_zip)

lemma replay_snoc:
  "replay ops base p plan (rs @ [r]) =
    (case replay ops base p plan rs of
       Inl e \<Rightarrow> Inl e
     | Inr (p', plan') \<Rightarrow> replay ops base p' plan' [r])"
  by (induction rs arbitrary: p plan) (auto split: prod.splits cold_start_step.splits)

lemma apply_patch_storage:
  "snd (fold (apply_patch_value base) patch (verified, storage)) = fold (\<lambda>(cell, new). btree_insert cell new) patch storage"
  by (induction patch arbitrary: verified storage) (auto simp: apply_patch_value_def Let_def)

lemma apply_patch_ok: "btree_ok storage \<Longrightarrow> btree_ok (fold (\<lambda>(cell, new). btree_insert cell new) patch storage)"
  by (induction patch arbitrary: storage) auto

lemma run_job_drive:
  assumes "pa_planner adapter (job_pool job) (job_policy job) = Inr p0"
    "op_initial_plan (pa_ops adapter) p0 (worker_view (job_base job) []) = (plan0, p1)"
    "replay (pa_ops adapter) (job_base job) p1 plan0 (job_rounds job) = (Inr (p, plan) :: 'e prepared_cold_start_error + _)"
    "job_accumulated job = last_storage (job_rounds job)" "length (job_rounds job) \<le> job_max_rounds job"
  shows "run_job (fetch :: 'e fetcher) adapter job =
    drive fetch (pa_ops adapter) (job_pool job) (job_baseline job) (job_base job) (job_accounts job)
      (length (job_rounds job)) (job_max_rounds job - length (job_rounds job)) p plan (last_storage (job_rounds job)) (job_report job)"
  using assms
proof (induction "job_max_rounds job - length (job_rounds job)" arbitrary: job p plan)
  case 0
  then show ?case by (simp add: run_job.simps [of fetch adapter job] job_step_def)
next
  case (Suc left)
  note prems = Suc.prems and IH = Suc.hyps(1)
  have n: "\<not> job_max_rounds job \<le> length (job_rounds job)" "job_max_rounds job - length (job_rounds job) = Suc left"
    using Suc.hyps(2) by simp_all
  define st where "st = last_storage (job_rounds job)"
  note unf = run_job.simps [of fetch adapter job] job_step_def n(2) drive.simps if_not_P [OF n(1)] prems(1,2,3) sum.case prod.case
  show ?case
  proof (cases "reject_unsupported_phase plan :: 'e prepared_cold_start_error + unit")
    case (Inl e)
    then show ?thesis unfolding unf by simp
  next
    case ok: (Inr u)
    show ?thesis
    proof (cases "fetch (length (job_rounds job)) (pln_verify plan) (pln_probe plan)")
      case (Inl e)
      then show ?thesis unfolding unf ok by simp
    next
      case r: (Inr r)
      obtain verified storage where f: "fold (apply_patch_value (job_base job)) (sr_patch r) ([], st) = (verified, storage)"
        by (cases "fold (apply_patch_value (job_base job)) (sr_patch r) ([], st)")
      have acc: "fold (\<lambda>(cell, new). btree_insert cell new) (sr_patch r) (job_accumulated job) = storage"
        using apply_patch_storage [of "job_base job" "sr_patch r" "[]" st] f by (simp add: prems(4) st_def)
      define results where "results = round_results r verified"
      define report where "report = absorb_worker_round (job_report job) plan results"
      define job' where "job' = job\<lparr>job_rounds := job_rounds job @ [\<lparr>rd_plan = plan, rd_results = results, rd_storage = storage\<rparr>],
          job_report := report, job_accumulated := storage\<rparr>"
      obtain s p' where on: "op_on_results (pa_ops adapter) p results (worker_view (job_base job) storage) = (s, p')"
        by (cases "op_on_results (pa_ops adapter) p results (worker_view (job_base job) storage)")
      note all = unf ok r f [unfolded st_def] acc results_def [symmetric] report_def [symmetric] job'_def [symmetric] on Let_def
      show ?thesis
      proof (cases s)
        case Done
        show ?thesis unfolding all Done cold_start_step.case
          by (cases "conclude (pa_ops adapter) p' (job_pool job) (job_baseline job) (job_accounts job) report storage
              :: 'e prepared_cold_start_error + _") simp_all
      next
        case (Continue nx)
        have "replay (pa_ops adapter) (job_base job') p1 plan0 (job_rounds job')
            = (Inr (p', nx) :: 'e prepared_cold_start_error + _)"
          unfolding job'_def by (simp add: replay_snoc prems(3) on Continue)
        moreover have "left = job_max_rounds job' - length (job_rounds job')" using n(2) by (simp add: job'_def)
        ultimately have "run_job fetch adapter job' = drive fetch (pa_ops adapter) (job_pool job) (job_baseline job) (job_base job)
            (job_accounts job) (Suc (length (job_rounds job))) left p' nx storage report"
          using IH [of job' p' nx] prems(1,2) n(1) by (simp add: job'_def last_storage_def)
        then show ?thesis unfolding all Continue cold_start_step.case prepared_pool_step.case by simp
      next
        case (Abort e)
        show ?thesis unfolding all Abort cold_start_step.case by simp
      qed
    qed
  qed
qed

text \<open>The job computes what the single planner computes.\<close>

lemma prepare_refines_direct:
  "prepare_resumable_pool fetch adapter_of pool baseline policy base env max_rounds
    = direct_cold_start fetch adapter_of pool baseline policy base env max_rounds"
proof (cases "max_rounds = 0 \<or> adapter_of (reg_protocol pool) = None")
  case True
  then show ?thesis by (auto simp: prepare_resumable_pool_def job_new_def direct_cold_start_def)
next
  case False
  then obtain adapter where a: "adapter_of (reg_protocol pool) = Some adapter" "max_rounds \<noteq> 0" by auto
  show ?thesis
  proof (cases "pa_planner adapter pool policy")
    case (Inl e)
    then show ?thesis using a by (simp add: prepare_resumable_pool_def job_new_def direct_cold_start_def)
  next
    case planner: (Inr p)
    show ?thesis
    proof (cases "job_account_patch env pool baseline")
      case (Inl e)
      then show ?thesis using a planner by (simp add: prepare_resumable_pool_def job_new_def direct_cold_start_def)
    next
      case (Inr account_patch)
      obtain plan p' where i: "op_initial_plan (pa_ops adapter) p (worker_view base []) = (plan, p')"
        by (cases "op_initial_plan (pa_ops adapter) p (worker_view base [])")
      define job where "job = \<lparr>job_pool = pool, job_baseline = baseline, job_policy = policy, job_base = base,
                  job_accounts = account_patch, job_max_rounds = max_rounds, job_rounds = [],
                  job_report = run_report_default, job_accumulated = []\<rparr>"
      have "run_job fetch adapter job = drive fetch (pa_ops adapter) pool baseline base account_patch 0 max_rounds p' plan []
          run_report_default"
        using run_job_drive [of adapter job p plan p' p' plan fetch] planner i by (simp add: job_def last_storage_def)
      then show ?thesis using a planner Inr i by (simp add: prepare_resumable_pool_def job_new_def direct_cold_start_def job_def)
    qed
  qed
qed

section \<open>What the direct run shows\<close>

lemma first_duplicate_None: "first_duplicate seen m = None \<longleftrightarrow> distinct (map fst m) \<and> set seen \<inter> fst ` set m = {}"
  by (induction seen m rule: first_duplicate.induct) auto

definition ready_outcome :: "cold_start_outcome \<Rightarrow> deferred_work list \<Rightarrow> bool" where
  "ready_outcome outcome deferred \<longleftrightarrow>
    (\<exists>rep. outcome = OutcomeReady rep \<and> deferred = [] \<or> outcome = ReadyWithDeferred rep deferred)"

lemma conclude_eq:
  assumes "btree_ok m" "op_finish ops p pool report = (outcome, pool')"
  shows "conclude ops p pool baseline accounts report m =
    (case outcome of
       OutcomeReady _ \<Rightarrow> Inr \<lparr>pps_registration = pool', pps_baseline = baseline, pps_storage = m,
         pps_accounts = Some accounts, pps_deferred = []\<rparr>
     | ReadyWithDeferred _ deferred \<Rightarrow> Inr \<lparr>pps_registration = pool', pps_baseline = baseline, pps_storage = m,
         pps_accounts = Some accounts, pps_deferred = deferred\<rparr>
     | _ \<Rightarrow> Inl (NotReady outcome))"
proof -
  have "first_duplicate [] m = None" "sort_key fst m = m"
    using assms(1) by (simp_all add: btree_ok_def first_duplicate_None sort_key_id_if_sorted)
  then show ?thesis using assms(2) by (simp add: conclude_def prepared_new_def split: cold_start_outcome.split)
qed

lemma conclude_Inl: "btree_ok m \<Longrightarrow> conclude ops p pool baseline accounts report m = Inl e \<Longrightarrow> \<exists>outcome. e = NotReady outcome"
  by (cases "op_finish ops p pool report") (auto simp: conclude_eq split: cold_start_outcome.splits)

lemma conclude_Inr:
  assumes "btree_ok m" "conclude ops p pool baseline accounts report m = Inr s"
  shows "pps_storage s = m \<and> pps_baseline s = baseline \<and> pps_accounts s = Some accounts
    \<and> (\<exists>outcome. op_finish ops p pool report = (outcome, pps_registration s) \<and> ready_outcome outcome (pps_deferred s))"
proof -
  obtain outcome pool' where o: "op_finish ops p pool report = (outcome, pool')" by (cases "op_finish ops p pool report")
  show ?thesis using assms(2) unfolding conclude_eq [OF assms(1) o]
    by (cases outcome) (auto simp: ready_outcome_def o)
qed

lemma drive_storage_ok:
  assumes "btree_ok storage" "drive fetch ops pool baseline base accounts n left p plan storage report = Inl e"
  shows "e \<noteq> PlannerTranscriptDiverged \<and> (\<forall>cell. e \<noteq> DuplicateStorage cell)"
  using assms
proof (induction left arbitrary: n p plan storage report)
  case (Suc left)
  have ph: "e \<noteq> PlannerTranscriptDiverged \<and> (\<forall>cell. e \<noteq> DuplicateStorage cell)"
    if "reject_unsupported_phase plan = Inl e" using that by (auto simp: reject_unsupported_phase_def split: if_splits)
  show ?case
  proof (cases "reject_unsupported_phase plan = Inl e \<or> (\<exists>x. fetch n (pln_verify plan) (pln_probe plan) = Inl x \<and> e = StorageFetch x)")
    case True
    then show ?thesis using ph by auto
  next
    case False
    then obtain r where r: "reject_unsupported_phase plan = (Inr () :: 'a prepared_cold_start_error + unit)"
      "fetch n (pln_verify plan) (pln_probe plan) = Inr r"
      using Suc.prems(2) by (auto split: sum.splits)
    obtain verified storage' where f: "fold (apply_patch_value base) (sr_patch r) ([], storage) = (verified, storage')"
      by (cases "fold (apply_patch_value base) (sr_patch r) ([], storage)")
    have ok: "btree_ok storage'"
      using apply_patch_storage [of base "sr_patch r" "[]" storage] apply_patch_ok [OF Suc.prems(1), of "sr_patch r"] f by simp
    obtain s p' where on: "op_on_results ops p (round_results r verified) (worker_view base storage') = (s, p')"
      by (cases "op_on_results ops p (round_results r verified) (worker_view base storage')")
    show ?thesis
    proof (cases s)
      case (Continue nx)
      then show ?thesis using Suc.prems(2) Suc.IH [OF ok] r f on by (simp add: Let_def)
    next
      case Done
      then have "conclude ops p' pool baseline accounts (absorb_worker_round report plan (round_results r verified)) storage' = Inl e"
        using Suc.prems(2) r f on by (simp add: Let_def)
      from conclude_Inl [OF ok this] show ?thesis by auto
    next
      case (Abort x)
      then show ?thesis using Suc.prems(2) r f on by (auto simp: Let_def)
    qed
  qed
qed auto

text \<open>A successful run returns the registration that the planner finished, with a sorted and duplicate-free storage.\<close>

lemma drive_success:
  assumes "btree_ok storage" "drive fetch ops pool baseline base accounts n left p plan storage report = Inr s"
  shows "btree_ok (pps_storage s) \<and> pps_baseline s = baseline \<and> pps_accounts s = Some accounts
    \<and> (\<exists>p' report' outcome. op_finish ops p' pool report' = (outcome, pps_registration s) \<and> rr_rounds report' \<le> rr_rounds report + left
        \<and> ready_outcome outcome (pps_deferred s))"
  using assms
proof (induction left arbitrary: n p plan storage report)
  case (Suc left)
  then obtain r where r: "reject_unsupported_phase plan = (Inr () :: 'a prepared_cold_start_error + unit)"
    "fetch n (pln_verify plan) (pln_probe plan) = Inr r"
    by (auto split: sum.splits)
  obtain verified storage' where f: "fold (apply_patch_value base) (sr_patch r) ([], storage) = (verified, storage')"
    by (cases "fold (apply_patch_value base) (sr_patch r) ([], storage)")
  have ok: "btree_ok storage'"
    using apply_patch_storage [of base "sr_patch r" "[]" storage] apply_patch_ok [OF Suc.prems(1), of "sr_patch r"] f by simp
  define report' where "report' = absorb_worker_round report plan (round_results r verified)"
  have rr: "rr_rounds report' = Suc (rr_rounds report)" by (simp add: report'_def absorb_worker_round_def)
  obtain s' p' where on: "op_on_results ops p (round_results r verified) (worker_view base storage') = (s', p')"
    by (cases "op_on_results ops p (round_results r verified) (worker_view base storage')")
  show ?case
  proof (cases s')
    case (Continue nx)
    then have "drive fetch ops pool baseline base accounts (Suc n) left p' nx storage' report' = Inr s"
      using Suc.prems(2) r f on by (simp add: Let_def report'_def)
    from Suc.IH [OF ok this] rr show ?thesis by (auto simp: add.commute)
  next
    case Done
    then have c: "conclude ops p' pool baseline accounts report' storage' = (Inr s :: 'a prepared_cold_start_error + _)"
      using Suc.prems(2) r f on by (simp add: Let_def report'_def)
    from conclude_Inr [OF ok c] ok rr show ?thesis by (metis add_Suc add_Suc_right le_add1)
  next
    case (Abort x)
    then show ?thesis using Suc.prems(2) r f on by (simp add: Let_def)
  qed
qed simp

text \<open>At most \<open>left\<close> rounds are fetched.\<close>

lemma drive_fetch_bound:
  assumes "\<And>i. n \<le> i \<Longrightarrow> i < n + left \<Longrightarrow> fetch i = fetch' i"
  shows "drive fetch ops pool baseline base accounts n left p plan storage report
    = drive fetch' ops pool baseline base accounts n left p plan storage report"
  using assms
proof (induction left arbitrary: n p plan storage report)
  case (Suc left)
  have "fetch n = fetch' n" by (rule Suc.prems) simp_all
  moreover have "drive fetch ops pool baseline base accounts (Suc n) left p plan storage report
      = drive fetch' ops pool baseline base accounts (Suc n) left p plan storage report" for p plan storage report
    by (rule Suc.IH) (simp add: Suc.prems)
  ultimately show ?case unfolding drive.simps by (simp only: simp_thms)
qed simp

lemma prepare_drive:
  assumes "max_rounds \<noteq> 0" "adapter_of (reg_protocol pool) = Some adapter" "pa_planner adapter pool policy = Inr p"
    "job_account_patch env pool baseline = Inr account_patch"
    "op_initial_plan (pa_ops adapter) p (worker_view base []) = (plan, p')"
  shows "prepare_resumable_pool fetch adapter_of pool baseline policy base env max_rounds
    = drive fetch (pa_ops adapter) pool baseline base account_patch 0 max_rounds p' plan [] run_report_default"
  using assms by (simp add: prepare_refines_direct direct_cold_start_def)

lemma proved_code_errors: "proved_code xs = Inl e \<Longrightarrow> e \<noteq> PlannerTranscriptDiverged \<and> (\<forall>cell. e \<noteq> DuplicateStorage cell)"
  by (induction xs rule: proved_code.induct) (auto simp: map_sum_def split: account_proof_outcome.splits sum.splits)

lemma job_account_patch_errors:
  "job_account_patch env pool baseline = Inl e \<Longrightarrow> e \<noteq> PlannerTranscriptDiverged \<and> (\<forall>cell. e \<noteq> DuplicateStorage cell)"
  by (auto simp: job_account_patch_def prepare_code_seeds_def map_sum_def proved_code_errors dest: proved_code_errors
      split: sum.splits if_splits option.splits)

text \<open>Before the first round a job is refused for its budget, its planner or its code; then it is a drive.\<close>

lemma prepare_cases:
  obtains (refused) e where "e \<noteq> PlannerTranscriptDiverged \<and> (\<forall>cell. e \<noteq> DuplicateStorage cell)"
      "\<And>fetch :: 'e fetcher. prepare_resumable_pool fetch adapter_of pool baseline policy base env max_rounds = Inl e"
  | (driven) adapter account_patch plan p where "max_rounds \<noteq> 0" "adapter_of (reg_protocol pool) = Some adapter"
      "job_account_patch env pool baseline = Inr account_patch"
      "\<And>fetch :: 'e fetcher. prepare_resumable_pool fetch adapter_of pool baseline policy base env max_rounds
        = drive fetch (pa_ops adapter) pool baseline base account_patch 0 max_rounds p plan [] run_report_default"
proof -
  consider "max_rounds = 0" | "max_rounds \<noteq> 0" "adapter_of (reg_protocol pool) = None"
    | adapter r where "max_rounds \<noteq> 0" "adapter_of (reg_protocol pool) = Some adapter" "pa_planner adapter pool policy = Inl r"
    | adapter p e where "max_rounds \<noteq> 0" "adapter_of (reg_protocol pool) = Some adapter" "pa_planner adapter pool policy = Inr p"
        "job_account_patch env pool baseline = Inl e"
    | adapter p account_patch where "max_rounds \<noteq> 0" "adapter_of (reg_protocol pool) = Some adapter"
        "pa_planner adapter pool policy = Inr p" "job_account_patch env pool baseline = Inr account_patch"
    by (metis not_None_eq sum.exhaust)
  then show thesis
  proof cases
    case 1
    then show ?thesis by (intro refused [of InvalidRoundBudget]) (simp_all add: prepare_refines_direct direct_cold_start_def)
  next
    case 2
    then show ?thesis by (intro refused [of "PreparedUnsupported _"]) (auto simp: prepare_refines_direct direct_cold_start_def)
  next
    case (3 adapter r)
    then show ?thesis by (intro refused [of "PreparedUnsupported r"]) (auto simp: prepare_refines_direct direct_cold_start_def)
  next
    case (4 adapter p e)
    then show ?thesis
      by (intro refused [OF job_account_patch_errors [OF 4(4)]]) (simp add: prepare_refines_direct direct_cold_start_def)
  next
    case (5 adapter p account_patch)
    obtain plan p' where i: "op_initial_plan (pa_ops adapter) p (worker_view base []) = (plan, p')"
      by (cases "op_initial_plan (pa_ops adapter) p (worker_view base [])")
    show ?thesis by (rule driven [OF 5(1,2,4)]) (rule prepare_drive [of max_rounds adapter_of, OF 5 i])
  qed
qed

lemma prepare_fetch_bound:
  fixes fetch fetch' :: "'e fetcher"
  assumes "\<And>i. i < max_rounds \<Longrightarrow> fetch i = fetch' i"
  shows "prepare_resumable_pool fetch adapter_of pool baseline policy base env max_rounds
    = prepare_resumable_pool fetch' adapter_of pool baseline policy base env max_rounds"
proof (cases rule: prepare_cases [where 'e = 'e, of adapter_of pool baseline policy base env max_rounds])
  case (refused e)
  show ?thesis unfolding refused(2) ..
next
  case (driven adapter account_patch plan p)
  show ?thesis unfolding driven(4) by (rule drive_fetch_bound) (simp add: assms)
qed

lemma prepare_errors:
  fixes fetch :: "'e fetcher"
  assumes "prepare_resumable_pool fetch adapter_of pool baseline policy base env max_rounds = Inl e"
  shows "e \<noteq> PlannerTranscriptDiverged \<and> (\<forall>cell. e \<noteq> DuplicateStorage cell)"
proof (cases rule: prepare_cases [where 'e = 'e, of adapter_of pool baseline policy base env max_rounds])
  case (refused e')
  then show ?thesis using assms by auto
next
  case (driven adapter account_patch plan p)
  then show ?thesis using assms drive_storage_ok [OF btree_ok_Nil] by metis
qed

section \<open>The contract of a planner\<close>

text \<open>
  What the registry relies on when a planner rewrites a registration that it accepts: the key stays, the metadata names
  the key's venue, a ready outcome marks the pool ready and a repair at most marks it degraded.
\<close>

locale planner_contract =
  fixes ops :: "'p planner_ops" and protocol :: protocol_id and accepts :: "pool_registration \<Rightarrow> bool"
  assumes finish_ready: "op_finish ops p pool rep = (outcome, pool') \<Longrightarrow> reg_protocol pool = protocol \<Longrightarrow> accepts pool
        \<Longrightarrow> ready_outcome outcome d
      \<Longrightarrow> reg_key pool' = reg_key pool \<and> check_protocol_agreement pool' = Inr () \<and> reg_status pool' = Ready"
    and finish_repair: "op_finish ops p pool rep = (NeedsRepair report action, pool')
        \<Longrightarrow> pool' \<in> {pool, pool\<lparr>reg_status := Degraded\<rparr>} \<and> csr_status report = Degraded"
begin

lemma prepared_registration:
  fixes fetch :: "'e fetcher"
  assumes "prepare_resumable_pool fetch adapter_of pool baseline policy base env max_rounds = Inr s"
    and "adapter_of protocol = Some adapter" "pa_ops adapter = ops" "reg_protocol pool = protocol" "accepts pool"
  shows "reg_key (pps_registration s) = reg_key pool \<and> check_protocol_agreement (pps_registration s) = Inr ()
    \<and> reg_status (pps_registration s) = Ready \<and> btree_ok (pps_storage s) \<and> pps_baseline s = baseline"
proof -
  obtain p plan account_patch where "drive fetch ops pool baseline base account_patch 0 max_rounds p plan [] run_report_default = Inr s"
  proof (cases rule: prepare_cases [where 'e = 'e, of adapter_of pool baseline policy base env max_rounds])
    case (refused e)
    then show ?thesis using assms(1) by simp
  next
    case (driven adapter' account_patch plan p)
    then show ?thesis using assms that by simp
  qed
  from drive_success [OF btree_ok_Nil this] finish_ready assms(4,5) show ?thesis by metis
qed

text \<open>A prepared pool with a fresh key can be registered, and keeps the invariant of the registry.\<close>

lemma prepared_registers:
  assumes "prepare_resumable_pool fetch adapter_of pool baseline policy base env max_rounds = Inr s"
    and "adapter_of protocol = Some adapter" "pa_ops adapter = ops" "reg_protocol pool = protocol" "accepts pool"
    and "registry_ok r" "pools r (reg_key pool) = None"
  shows "\<exists>r'. register_pool r (pps_registration s) = Inr r' \<and> registry_ok r' \<and> pools r' (reg_key pool) = Some (pps_registration s)"
proof -
  note f = prepared_registration [OF assms(1-5)]
  then obtain r' where r': "register_pool r (pps_registration s) = Inr r'"
    using assms(7) by (auto simp: register_pool_def)
  from r' assms(6) have "registry_ok r'" by (rule register_pool_ok)
  moreover have "pools r' (reg_key pool) = Some (pps_registration s)"
    using pool_store.add_entry [OF r', of "reg_key pool"] f by simp
  ultimately show ?thesis using r' by blast
qed

end

end
