(* ===== verification/Dependencies.thy ===== *)
theory Dependencies
  imports Pool_Types "HOL-Library.Product_Lexorder"
begin

text \<open>
  The state that a pool declares as its own (\<open>src/adapters/ownership.rs\<close>, \<open>PoolStateDependencies\<close>): addresses associated with it,
  accounts that belong to it as a whole, and exact storage slots. Its fields are private, so a value is what the builder
  methods make of the default; \<open>dependencies_ok\<close> is what they keep.
\<close>

section \<open>The declaration and its builders\<close>

record state_dependencies =
  dep_associated_addresses :: "address list"
  dep_whole_accounts :: "address list"
  dep_slots :: "(address \<times> u256) list"

text \<open>\<open>sort_unstable\<close> followed by \<open>dedup\<close>.\<close>

definition sort_dedup :: "'a::linorder list \<Rightarrow> 'a list" where
  "sort_dedup xs = remdups_adj (sort xs)"

definition dependencies_default :: state_dependencies where
  "dependencies_default = \<lparr>dep_associated_addresses = [], dep_whole_accounts = [], dep_slots = []\<rparr>"

definition dependencies_normalize :: "state_dependencies \<Rightarrow> state_dependencies" where
  "dependencies_normalize d =
    (let whole_accounts = sort_dedup (dep_whole_accounts d); slots = sort_dedup (dep_slots d)
     in \<lparr>dep_associated_addresses = sort_dedup (dep_associated_addresses d @ whole_accounts @ map fst slots),
         dep_whole_accounts = whole_accounts, dep_slots = slots\<rparr>)"

definition with_associated_addresses :: "state_dependencies \<Rightarrow> address list \<Rightarrow> state_dependencies" where
  "with_associated_addresses d addresses =
    dependencies_normalize (d\<lparr>dep_associated_addresses := dep_associated_addresses d @ addresses\<rparr>)"

definition with_whole_accounts :: "state_dependencies \<Rightarrow> address list \<Rightarrow> state_dependencies" where
  "with_whole_accounts d addresses = dependencies_normalize (d\<lparr>dep_whole_accounts := dep_whole_accounts d @ addresses\<rparr>)"

definition with_slots :: "state_dependencies \<Rightarrow> (address \<times> u256) list \<Rightarrow> state_dependencies" where
  "with_slots d slots = dependencies_normalize (d\<lparr>dep_slots := dep_slots d @ slots\<rparr>)"

text \<open>The default of the adapter trait: the address of the key and every state address as a whole.\<close>

definition default_state_dependencies :: "pool_registration \<Rightarrow> state_dependencies" where
  "default_state_dependencies pool =
    with_whole_accounts dependencies_default
      ((case key_address (reg_key pool) of Some address \<Rightarrow> [address] | None \<Rightarrow> []) @ reg_state_addresses pool)"

section \<open>What the builders keep\<close>

lemma set_sort_dedup [simp]: "set (sort_dedup xs) = set xs"
  by (simp add: sort_dedup_def)

lemma distinct_sort_dedup [simp]: "distinct (sort_dedup xs)"
proof -
  have "sorted ys \<Longrightarrow> distinct (remdups_adj ys)" for ys :: "'a list"
    by (induction ys rule: remdups_adj.induct) (auto simp: order_antisym)
  then show ?thesis by (simp add: sort_dedup_def)
qed

lemma sorted_sort_dedup [simp]: "sorted (sort_dedup xs)"
  by (simp add: sort_dedup_def sorted_remdups_adj)

definition dependencies_ok :: "state_dependencies \<Rightarrow> bool" where
  "dependencies_ok d \<longleftrightarrow>
    sorted (dep_associated_addresses d) \<and> distinct (dep_associated_addresses d)
    \<and> sorted (dep_whole_accounts d) \<and> distinct (dep_whole_accounts d)
    \<and> sorted (dep_slots d) \<and> distinct (dep_slots d)
    \<and> set (dep_whole_accounts d) \<subseteq> set (dep_associated_addresses d)
    \<and> fst ` set (dep_slots d) \<subseteq> set (dep_associated_addresses d)"

lemma dependencies_ok_default [simp]: "dependencies_ok dependencies_default"
  by (simp add: dependencies_ok_def dependencies_default_def)

lemma dependencies_ok_builders [simp]:
  "dependencies_ok (with_associated_addresses d as)" "dependencies_ok (with_whole_accounts d as)" "dependencies_ok (with_slots d ss)"
  by (auto simp: dependencies_ok_def with_associated_addresses_def with_whole_accounts_def with_slots_def
      dependencies_normalize_def Let_def)

lemma dependencies_ok_default_adapter [simp]: "dependencies_ok (default_state_dependencies pool)"
  by (simp add: default_state_dependencies_def)

end
