(* ===== verification/Reserve_Adapters.thy ===== *)
theory Reserve_Adapters
  imports Cold_Start Dependencies
begin

text \<open>
  The adapters of the reserve pools: \<open>src/adapters/uniswap_v2.rs\<close> keeps both reserves packed in one slot and
  answers a \<open>Sync\<close> log with a masked write, \<open>src/adapters/solidly_v2.rs\<close> keeps them in two slots of a
  configured layout and answers with two exact writes. Both have a cold-start planner of a single round.

  The signature hash of \<open>Sync\<close> and the validating decoder that the \<open>sol!\<close> macro generates are arguments; the
  decoder matters only for whether it accepts the log.
\<close>

section \<open>Words of the log data\<close>

definition be_word :: "u8 list \<Rightarrow> u256" where
  "be_word bytes = foldl (\<lambda>acc b. push_bit 8 acc OR ucast b) 0 bytes"

definition data_word :: "log \<Rightarrow> nat \<Rightarrow> u256 option" where
  "data_word log index =
    (let start = index * 32
     in if start + 32 \<le> length (log_data log) then Some (be_word (take 32 (drop start (log_data log)))) else None)"

definition v2_low_mask :: "nat \<Rightarrow> u256" where
  "v2_low_mask bits = push_bit bits 1 - 1"

section \<open>Uniswap V2: events\<close>

definition v2_event_sources :: "b256 \<Rightarrow> pool_registration \<Rightarrow> event_source list" where
  "v2_event_sources sync_hash pool =
    (case key_address (reg_key pool) of None \<Rightarrow> [] | Some address \<Rightarrow> [source_direct address [sync_hash]])"

definition v2_state_dependencies :: "pool_registration \<Rightarrow> state_dependencies" where
  "v2_state_dependencies pool =
    (case key_address (reg_key pool) of
       None \<Rightarrow> dependencies_default
     | Some address \<Rightarrow> with_slots dependencies_default
         [(address, V2_TOKEN0_SLOT), (address, V2_TOKEN1_SLOT), (address, V2_RESERVES_SLOT)])"

definition v2_decode_event ::
  "b256 \<Rightarrow> (log \<Rightarrow> bool) \<Rightarrow> pool_registration \<Rightarrow> log \<Rightarrow> state_view \<Rightarrow> adapter_event_result" where
  "v2_decode_event sync_hash sync_valid pool log _ =
    (if nth_opt (log_topics log) 0 \<noteq> Some sync_hash then result_ignored
     else if \<not> sync_valid log then result_error (MalformedLog ''malformed Uniswap V2 Sync log'')
     else case key_address (reg_key pool) of
         None \<Rightarrow> result_error (MalformedLog ''Uniswap V2 pool key is not address-keyed'')
       | Some address \<Rightarrow>
     (case data_word log 0 of
         None \<Rightarrow> result_error (MalformedLog ''missing Uniswap V2 reserve0'')
       | Some reserve0 \<Rightarrow>
     (case data_word log 1 of
         None \<Rightarrow> result_error (MalformedLog ''missing Uniswap V2 reserve1'')
       | Some reserve1 \<Rightarrow>
     let value = reserve0 OR push_bit 112 reserve1; mask = v2_low_mask 224
     in result_event \<lparr>ae_pool = reg_key pool, ae_emitter = log_address log, ae_topic0 = sync_hash, ae_kind = Sync,
          ae_updates = [SlotMasked address V2_RESERVES_SLOT mask value],
          ae_quality = ExactIfApplied, ae_repair = NoRepair\<rparr>)))"

definition v2_after_apply :: "pool_registration \<Rightarrow> adapter_event \<Rightarrow> state_diff \<Rightarrow> repair_action" where
  "v2_after_apply pool event diff =
    (if ae_kind event = Sync \<and> has_skipped diff
     then (case key_address (reg_key pool) of
         Some address \<Rightarrow> VerifySlots [(address, V2_RESERVES_SLOT)]
       | None \<Rightarrow> NoRepair)
     else NoRepair)"

section \<open>Uniswap V2: the cold-start planner\<close>

datatype v2_verdict = V2Ready | V2DegenerateZero | V2FetchFailed

record v2_planner =
  v2p_address :: address
  v2p_policy :: cold_start_policy
  v2p_verified_slots :: "(address \<times> u256) list"
  v2p_changed_slots :: "slot_change list"
  v2p_token0 :: "address option"
  v2p_token1 :: "address option"
  v2p_verdict :: "v2_verdict option"

definition v2_cold_start_planner :: "pool_registration \<Rightarrow> cold_start_policy \<Rightarrow> unsupported_reason + v2_planner" where
  "v2_cold_start_planner pool policy =
    (case key_address (reg_key pool) of
       None \<Rightarrow> Inl (UnsupportedCustom ''Uniswap V2 pool key is not address-keyed'')
     | Some address \<Rightarrow> Inr \<lparr>v2p_address = address, v2p_policy = policy, v2p_verified_slots = [], v2p_changed_slots = [],
         v2p_token0 = None, v2p_token1 = None, v2p_verdict = None\<rparr>)"

definition v2_initial_plan :: "v2_planner \<Rightarrow> state_view \<Rightarrow> cold_start_plan \<times> v2_planner" where
  "v2_initial_plan p _ =
    (let a = v2p_address p;
         verify = (case v2p_policy p of
             Strict \<Rightarrow> [(a, V2_TOKEN0_SLOT), (a, V2_TOKEN1_SLOT), (a, V2_RESERVES_SLOT)]
           | Eager \<Rightarrow> [(a, V2_TOKEN0_SLOT), (a, V2_TOKEN1_SLOT), (a, V2_RESERVES_SLOT)]
           | Lazy \<Rightarrow> [(a, V2_RESERVES_SLOT)]
           | HotSlotsOnly \<Rightarrow> [(a, V2_RESERVES_SLOT)])
     in (verify_plan verify, p\<lparr>v2p_verified_slots := verify\<rparr>))"

definition fetch_of :: "cold_start_results \<Rightarrow> address \<Rightarrow> u256 \<Rightarrow> slot_fetch option" where
  "fetch_of results a k =
    map_option so_fetch (find (\<lambda>o'. so_address o' = a \<and> so_slot o' = k) (res_fetched results))"

definition v2_on_results :: "v2_planner \<Rightarrow> cold_start_results \<Rightarrow> state_view \<Rightarrow> cold_start_step \<times> v2_planner" where
  "v2_on_results p results state =
    (let a = v2p_address p;
         verdict = (case fetch_of results a V2_RESERVES_SLOT of
             Some (FetchValue _) \<Rightarrow> V2Ready
           | Some FetchZero \<Rightarrow> V2DegenerateZero
           | _ \<Rightarrow> V2FetchFailed)
     in (Done, p\<lparr>v2p_changed_slots := v2p_changed_slots p @ res_verified results, v2p_verdict := Some verdict,
           v2p_token0 := map_option decode_address_slot (state a V2_TOKEN0_SLOT),
           v2p_token1 := map_option decode_address_slot (state a V2_TOKEN1_SLOT)\<rparr>))"

definition v2_finish ::
  "v2_planner \<Rightarrow> pool_registration \<Rightarrow> cold_start_run_report \<Rightarrow> cold_start_outcome \<times> pool_registration" where
  "v2_finish p pool _ =
    (let cold_report = (report_new (reg_key pool) (v2p_policy p))
           \<lparr>csr_verified_slots := v2p_verified_slots p, csr_changed_slots := v2p_changed_slots p\<rparr>;
         degraded = cold_report\<lparr>csr_status := Degraded\<rparr>;
         a = v2p_address p
     in case v2p_verdict p of
         Some V2DegenerateZero \<Rightarrow> (NeedsRepair degraded (PurgeSlots a [V2_RESERVES_SLOT]), pool)
       | Some V2Ready \<Rightarrow>
           (let metadata = \<lparr>v2_token0 = v2p_token0 p, v2_token1 = v2p_token1 p,
                  v2_fee_bps = (case reg_metadata pool of UniswapV2Meta existing \<Rightarrow> v2_fee_bps existing | _ \<Rightarrow> None)\<rparr>;
                pool' = pool\<lparr>reg_metadata := UniswapV2Meta metadata, reg_status := Ready\<rparr>;
                cold_report = cold_report\<lparr>csr_status := Ready\<rparr>
            in if v2p_policy p = Lazy
               then let deferred = [DeferVerifySlots [(a, V2_TOKEN0_SLOT), (a, V2_TOKEN1_SLOT)]]
                    in (ReadyWithDeferred (cold_report\<lparr>csr_deferred := deferred\<rparr>) deferred, pool')
               else (OutcomeReady cold_report, pool'))
       | _ \<Rightarrow> (NeedsRepair degraded (VerifySlots [(a, V2_RESERVES_SLOT)]), pool))"

definition v2_adapter :: "v2_planner planner_adapter" where
  "v2_adapter = \<lparr>pa_ops = \<lparr>op_initial_plan = v2_initial_plan, op_on_results = v2_on_results, op_finish = v2_finish\<rparr>,
     pa_planner = v2_cold_start_planner\<rparr>"

section \<open>Solidly V2: events\<close>

definition solidly_layout :: "pool_registration \<Rightarrow> solidly_storage_layout option" where
  "solidly_layout pool = (case reg_metadata pool of SolidlyV2Meta m \<Rightarrow> sol_storage_layout m | _ \<Rightarrow> None)"

definition solidly_event_sources :: "b256 \<Rightarrow> pool_registration \<Rightarrow> event_source list" where
  "solidly_event_sources sync_hash pool =
    (case key_address (reg_key pool) of None \<Rightarrow> [] | Some address \<Rightarrow> [source_direct address [sync_hash]])"

definition solidly_decode_event ::
  "b256 \<Rightarrow> (log \<Rightarrow> bool) \<Rightarrow> pool_registration \<Rightarrow> log \<Rightarrow> state_view \<Rightarrow> adapter_event_result" where
  "solidly_decode_event sync_hash sync_valid pool log _ =
    (if nth_opt (log_topics log) 0 \<noteq> Some sync_hash then result_ignored
     else if \<not> sync_valid log then result_error (MalformedLog ''malformed Solidly V2 Sync log'')
     else case key_address (reg_key pool) of
         None \<Rightarrow> result_error (MalformedLog ''Solidly V2 pool key is not address-keyed'')
       | Some address \<Rightarrow>
     (case solidly_layout pool of
         None \<Rightarrow> result_ignored
       | Some layout \<Rightarrow>
     (case data_word log 0 of
         None \<Rightarrow> result_error (MalformedLog ''missing Solidly V2 reserve0'')
       | Some reserve0 \<Rightarrow>
     (case data_word log 1 of
         None \<Rightarrow> result_error (MalformedLog ''missing Solidly V2 reserve1'')
       | Some reserve1 \<Rightarrow>
     result_event \<lparr>ae_pool = reg_key pool, ae_emitter = log_address log, ae_topic0 = sync_hash, ae_kind = Sync,
       ae_updates = [Slot address (reserve0_slot layout) reserve0, Slot address (reserve1_slot layout) reserve1],
       ae_quality = ExactIfApplied, ae_repair = NoRepair\<rparr>))))"

section \<open>Solidly V2: the cold-start planner\<close>

datatype solidly_verdict = SolidlyReady | SolidlyDegenerateZero | SolidlyFetchFailed

record solidly_planner =
  slp_address :: address
  slp_layout :: solidly_storage_layout
  slp_policy :: cold_start_policy
  slp_verified_slots :: "(address \<times> u256) list"
  slp_changed_slots :: "slot_change list"
  slp_token0 :: "address option"
  slp_token1 :: "address option"
  slp_verdict :: "solidly_verdict option"

text \<open>The nested loop over the four slots, as the list of the pairs it compares.\<close>

definition slots_collide :: "u256 list \<Rightarrow> bool" where
  "slots_collide slots = list_ex (\<lambda>i. list_ex (\<lambda>j. slots ! i = slots ! j) [i + 1..<length slots]) [0..<length slots]"

definition solidly_cold_start_planner :: "pool_registration \<Rightarrow> cold_start_policy \<Rightarrow> unsupported_reason + solidly_planner" where
  "solidly_cold_start_planner pool policy =
    (case key_address (reg_key pool) of
       None \<Rightarrow> Inl (UnsupportedCustom ''Solidly V2 pool key is not address-keyed'')
     | Some address \<Rightarrow>
    (case solidly_layout pool of
       None \<Rightarrow> Inl (MissingMetadata ''Solidly V2 storage layout'')
     | Some layout \<Rightarrow>
         if slots_collide [reserve0_slot layout, reserve1_slot layout, token0_slot layout, token1_slot layout]
         then Inl (UnsupportedCustom ''Solidly V2 storage layout slots must be pairwise distinct'')
         else Inr \<lparr>slp_address = address, slp_layout = layout, slp_policy = policy, slp_verified_slots = [],
           slp_changed_slots = [], slp_token0 = None, slp_token1 = None, slp_verdict = None\<rparr>))"

definition classify_slot :: "cold_start_results \<Rightarrow> address \<Rightarrow> u256 \<Rightarrow> solidly_verdict" where
  "classify_slot results a k =
    (case fetch_of results a k of
       Some (FetchValue _) \<Rightarrow> SolidlyReady
     | Some FetchZero \<Rightarrow> SolidlyDegenerateZero
     | _ \<Rightarrow> SolidlyFetchFailed)"

definition solidly_initial_plan :: "solidly_planner \<Rightarrow> state_view \<Rightarrow> cold_start_plan \<times> solidly_planner" where
  "solidly_initial_plan p _ =
    (let a = slp_address p; l = slp_layout p;
         hot = [(a, reserve0_slot l), (a, reserve1_slot l)];
         verify = (case slp_policy p of
             Strict \<Rightarrow> hot @ [(a, token0_slot l), (a, token1_slot l)]
           | Eager \<Rightarrow> hot @ [(a, token0_slot l), (a, token1_slot l)]
           | Lazy \<Rightarrow> hot
           | HotSlotsOnly \<Rightarrow> hot)
     in (verify_plan verify, p\<lparr>slp_verified_slots := verify\<rparr>))"

definition combine_verdicts :: "solidly_verdict \<Rightarrow> solidly_verdict \<Rightarrow> solidly_verdict" where
  "combine_verdicts r0 r1 =
    (if r0 = SolidlyFetchFailed \<or> r1 = SolidlyFetchFailed then SolidlyFetchFailed
     else if r0 = SolidlyDegenerateZero \<or> r1 = SolidlyDegenerateZero then SolidlyDegenerateZero
     else SolidlyReady)"

definition solidly_on_results :: "solidly_planner \<Rightarrow> cold_start_results \<Rightarrow> state_view \<Rightarrow> cold_start_step \<times> solidly_planner" where
  "solidly_on_results p results state =
    (let a = slp_address p; l = slp_layout p;
         verdict = combine_verdicts (classify_slot results a (reserve0_slot l)) (classify_slot results a (reserve1_slot l))
     in (Done, p\<lparr>slp_changed_slots := slp_changed_slots p @ res_verified results, slp_verdict := Some verdict,
           slp_token0 := map_option decode_address_slot (state a (token0_slot l)),
           slp_token1 := map_option decode_address_slot (state a (token1_slot l))\<rparr>))"

definition solidly_finish ::
  "solidly_planner \<Rightarrow> pool_registration \<Rightarrow> cold_start_run_report \<Rightarrow> cold_start_outcome \<times> pool_registration" where
  "solidly_finish p pool _ =
    (let cold_report = (report_new (reg_key pool) (slp_policy p))
           \<lparr>csr_verified_slots := slp_verified_slots p, csr_changed_slots := slp_changed_slots p\<rparr>;
         degraded = cold_report\<lparr>csr_status := Degraded\<rparr>;
         a = slp_address p; l = slp_layout p
     in case slp_verdict p of
         Some SolidlyDegenerateZero \<Rightarrow> (NeedsRepair degraded (PurgeSlots a [reserve0_slot l, reserve1_slot l]), pool)
       | Some SolidlyReady \<Rightarrow>
           (let metadata = (case reg_metadata pool of
                    SolidlyV2Meta existing \<Rightarrow> \<lparr>sol_token0 = slp_token0 p, sol_token1 = slp_token1 p,
                      sol_stable = sol_stable existing, sol_storage_layout = sol_storage_layout existing\<rparr>
                  | _ \<Rightarrow> \<lparr>sol_token0 = slp_token0 p, sol_token1 = slp_token1 p,
                      sol_stable = None, sol_storage_layout = Some l\<rparr>);
                pool' = pool\<lparr>reg_metadata := SolidlyV2Meta metadata, reg_status := Ready\<rparr>;
                cold_report = cold_report\<lparr>csr_status := Ready\<rparr>
            in if slp_policy p = Lazy
               then let deferred = [DeferVerifySlots [(a, token0_slot l), (a, token1_slot l)]]
                    in (ReadyWithDeferred (cold_report\<lparr>csr_deferred := deferred\<rparr>) deferred, pool')
               else (OutcomeReady cold_report, pool'))
       | _ \<Rightarrow> (NeedsRepair degraded (VerifySlots [(a, reserve0_slot l), (a, reserve1_slot l)]), pool))"

definition solidly_adapter :: "solidly_planner planner_adapter" where
  "solidly_adapter = \<lparr>pa_ops = \<lparr>op_initial_plan = solidly_initial_plan, op_on_results = solidly_on_results,
     op_finish = solidly_finish\<rparr>, pa_planner = solidly_cold_start_planner\<rparr>"

section \<open>Reading the words back\<close>

lemma bit_be_word:
  assumes "length bytes \<le> 32"
  shows "bit (be_word bytes) n \<longleftrightarrow> n < 8 * length bytes \<and> bit (bytes ! (length bytes - 1 - n div 8)) (n mod 8)"
  using assms
proof (induction bytes arbitrary: n rule: rev_induct)
  case Nil
  then show ?case by (simp add: be_word_def)
next
  case (snoc b bytes)
  have step: "be_word (bytes @ [b]) = push_bit 8 (be_word bytes) OR ucast b" by (simp add: be_word_def)
  show ?case
  proof (cases "n < 8")
    case True
    then show ?thesis unfolding step by (simp add: bit_or_iff bit_push_bit_iff bit_ucast_iff nth_append)
  next
    case False
    define m where "m = n - 8"
    have n: "n = m + 8" using False by (simp add: m_def)
    have "\<not> bit b n" using False bit_imp_le_length [of b n] by auto
    then have "bit (be_word (bytes @ [b])) n \<longleftrightarrow> n < 256 \<and> bit (be_word bytes) m"
      unfolding step by (auto simp: bit_or_iff bit_push_bit_iff bit_ucast_iff n)
    also have "bit (be_word bytes) m \<longleftrightarrow> m < 8 * length bytes \<and> bit (bytes ! (length bytes - 1 - m div 8)) (m mod 8)"
      using snoc by simp
    finally have "bit (be_word (bytes @ [b])) n \<longleftrightarrow>
        n < 256 \<and> m < 8 * length bytes \<and> bit (bytes ! (length bytes - 1 - m div 8)) (m mod 8)" .
    moreover have "(m + 8) div 8 = Suc (m div 8)" "(m + 8) mod 8 = m mod 8" by simp_all
    ultimately show ?thesis using snoc.prems by (auto simp: n nth_append)
  qed
qed

lemma be_word_to_be_bytes32 [simp]: "be_word (to_be_bytes32 w) = w"
proof (rule bit_word_eqI)
  fix n assume "n < LENGTH(256)"
  then have n: "n < 256" by simp
  then have "n div 8 < 32" by auto
  moreover have "8 * (n div 8) + n mod 8 = n" by simp
  moreover have "31 - (31 - n div 8) = n div 8" using calculation(1) by simp
  ultimately show "bit (be_word (to_be_bytes32 w)) n = bit w n" using n
    by (subst bit_be_word) (simp_all add: nth_to_be_bytes32 bit_ucast_iff bit_drop_bit_eq)
qed

lemma data_word_append:
  assumes "log_data log = to_be_bytes32 w0 @ to_be_bytes32 w1 @ rest"
  shows "data_word log 0 = Some w0" "data_word log 1 = Some w1"
  using assms by (simp_all add: data_word_def)

lemma v2_low_mask_mask: "v2_low_mask n = mask n"
  by (simp add: v2_low_mask_def mask_eq_exp_minus_1 push_bit_eq_mult)

section \<open>The packed reserves\<close>

text \<open>What the pair contract keeps in its reserve slot: two 112-bit reserves and the time of the last block.\<close>

record pair_reserves =
  pr_reserve0 :: u256
  pr_reserve1 :: u256
  pr_timestamp :: u256

definition pair_of :: "u256 \<Rightarrow> pair_reserves" where
  "pair_of w = \<lparr>pr_reserve0 = take_bit 112 w, pr_reserve1 = take_bit 112 (drop_bit 112 w), pr_timestamp = drop_bit 224 w\<rparr>"

definition masked_write :: "u256 \<Rightarrow> u256 \<Rightarrow> u256 \<Rightarrow> u256" where
  "masked_write old m value = (old AND NOT m) OR (value AND m)"

lemma bit_less: "w < 2 ^ n \<Longrightarrow> n < LENGTH('a) \<Longrightarrow> bit (w :: 'a::len word) i \<Longrightarrow> i < n"
  by (metis bit_take_bit_iff less_mask_eq take_bit_eq_mask)

lemma pair_of_masked_write:
  assumes "r0 < 2 ^ 112" "r1 < 2 ^ 112"
  shows "pair_of (masked_write w (v2_low_mask 224) (r0 OR push_bit 112 r1)) = (pair_of w)\<lparr>pr_reserve0 := r0, pr_reserve1 := r1\<rparr>"
proof -
  have b: "bit r0 i \<Longrightarrow> i < 112" "bit r1 i \<Longrightarrow> i < 112" for i using assms by (auto intro: bit_less)
  note bits = bit_take_bit_iff bit_drop_bit_eq bit_or_iff bit_and_iff bit_not_iff bit_push_bit_iff bit_mask_iff
  have "take_bit 112 (masked_write w (mask 224) (r0 OR push_bit 112 r1)) = r0"
    by (rule bit_word_eqI) (auto simp: masked_write_def bits dest: b)
  moreover have "take_bit 112 (drop_bit 112 (masked_write w (mask 224) (r0 OR push_bit 112 r1))) = r1"
    by (rule bit_word_eqI) (auto simp: masked_write_def bits dest: b)
  moreover have "drop_bit 224 (masked_write w (mask 224) (r0 OR push_bit 112 r1)) = drop_bit 224 w"
    by (rule bit_word_eqI) (auto simp: masked_write_def bits dest: b bit_imp_le_length)
  ultimately show ?thesis by (simp add: pair_of_def v2_low_mask_mask)
qed

text \<open>
  How the cache applies a masked write, as \<open>state.rs\<close> documents it: the masked bits of a known slot are replaced,
  an unknown slot is left alone.
\<close>

definition applies_masked :: "(state_update \<Rightarrow> state_view \<Rightarrow> state_view) \<Rightarrow> bool" where
  "applies_masked apply_update \<longleftrightarrow>
    (\<forall>s a k m value. apply_update (SlotMasked a k m value) s =
      (case s a k of None \<Rightarrow> s | Some old \<Rightarrow> s(a := (s a)(k \<mapsto> masked_write old m value))))"

text \<open>What the generated decoder guarantees of a log it accepts: two words, both below the bound of their type.\<close>

definition decodes_sync :: "nat \<Rightarrow> (log \<Rightarrow> bool) \<Rightarrow> bool" where
  "decodes_sync bits sync_valid \<longleftrightarrow>
    (\<forall>log. sync_valid log \<longrightarrow> (\<exists>r0 r1 rest. log_data log = to_be_bytes32 r0 @ to_be_bytes32 r1 @ rest
      \<and> unat r0 < 2 ^ bits \<and> unat r1 < 2 ^ bits))"

lemma decodes_syncE:
  assumes "decodes_sync bits sync_valid" "sync_valid log"
  obtains r0 r1 rest where "log_data log = to_be_bytes32 r0 @ to_be_bytes32 r1 @ rest" "unat r0 < 2 ^ bits" "unat r1 < 2 ^ bits"
    "data_word log 0 = Some r0" "data_word log 1 = Some r1"
proof -
  obtain r0 r1 rest where d: "log_data log = to_be_bytes32 r0 @ to_be_bytes32 r1 @ rest" "unat r0 < 2 ^ bits" "unat r1 < 2 ^ bits"
    using assms by (auto simp: decodes_sync_def)
  from that [OF d data_word_append [OF d(1)]] show thesis .
qed

section \<open>Planners of a single round\<close>

locale single_round =
  fixes adapter :: "'p planner_adapter"
  assumes one_round: "fst (op_on_results (pa_ops adapter) p results state) = Done"
    and verify_only: "\<exists>slots. fst (op_initial_plan (pa_ops adapter) p state) = verify_plan slots"
begin

lemma reject_verify_plan: "reject_unsupported_phase (verify_plan slots) = Inr ()"
  by (simp add: reject_unsupported_phase_def verify_plan_def empty_plan_def)

lemma prepare_once:
  assumes "adapter_of (reg_protocol pool) = Some adapter" "pa_planner adapter pool policy = Inr p"
    and "op_initial_plan (pa_ops adapter) p (worker_view base []) = (verify_plan slots, p1)" "fetch 0 slots [] = Inr r"
    and "fold (apply_patch_value base) (sr_patch r) ([], []) = (verified, storage)" "max_rounds \<noteq> 0"
    and "job_account_patch env pool baseline = Inr account_patch"
  shows "prepare_resumable_pool fetch adapter_of pool baseline policy base env max_rounds
    = conclude (pa_ops adapter) (snd (op_on_results (pa_ops adapter) p1 (round_results r verified) (worker_view base storage)))
        pool baseline account_patch (absorb_worker_round run_report_default (verify_plan slots) (round_results r verified)) storage"
proof -
  obtain n where n: "max_rounds = Suc n" using assms(6) not0_implies_Suc by blast
  obtain s p2 where on: "op_on_results (pa_ops adapter) p1 (round_results r verified) (worker_view base storage) = (s, p2)"
    by (cases "op_on_results (pa_ops adapter) p1 (round_results r verified) (worker_view base storage)")
  have "s = Done" using one_round [of p1 "round_results r verified" "worker_view base storage"] on by simp
  moreover have "pln_verify (verify_plan slots) = slots" "pln_probe (verify_plan slots) = []"
    by (simp_all add: verify_plan_def empty_plan_def)
  ultimately show ?thesis
    using assms on by (simp add: prepare_refines_direct direct_cold_start_def n reject_verify_plan)
qed

text \<open>Only the first answer of the provider matters, whatever the budget.\<close>

lemma later_rounds_ignored:
  fixes fetch fetch' :: "'e fetcher"
  assumes "adapter_of (reg_protocol pool) = Some adapter" "fetch 0 = fetch' 0" "max_rounds \<noteq> 0"
  shows "prepare_resumable_pool fetch adapter_of pool baseline policy base env max_rounds
    = prepare_resumable_pool fetch' adapter_of pool baseline policy base env 1"
proof (cases "pa_planner adapter pool policy")
  case (Inl e)
  then show ?thesis using assms by (simp add: prepare_refines_direct direct_cold_start_def)
next
  case (Inr p)
  obtain plan p1 where i: "op_initial_plan (pa_ops adapter) p (worker_view base []) = (plan, p1)"
    by (cases "op_initial_plan (pa_ops adapter) p (worker_view base [])")
  then obtain slots where plan: "plan = verify_plan slots" using verify_only [of p "worker_view base []"] by auto
  show ?thesis
  proof (cases "fetch 0 slots []")
    case f: (Inl e)
    obtain n where "max_rounds = Suc n" using assms(3) not0_implies_Suc by blast
    moreover have "pln_verify plan = slots" "pln_probe plan = []" by (simp_all add: plan verify_plan_def empty_plan_def)
    ultimately show ?thesis using assms f i Inr plan
      by (simp add: prepare_refines_direct direct_cold_start_def reject_verify_plan split: sum.split)
  next
    case (Inr r)
    obtain verified storage where "fold (apply_patch_value base) (sr_patch r) ([], []) = (verified, storage)"
      by (cases "fold (apply_patch_value base) (sr_patch r) ([], [])")
    note once = prepare_once [where adapter_of = adapter_of, OF assms(1) \<open>pa_planner adapter pool policy = Inr p\<close> i [unfolded plan] _ this]
    show ?thesis
    proof (cases "job_account_patch env pool baseline")
      case (Inl e)
      then show ?thesis using assms(1,3) \<open>pa_planner adapter pool policy = Inr p\<close>
        by (simp add: prepare_refines_direct direct_cold_start_def)
    next
      case patch: (Inr account_patch)
      show ?thesis using once [OF _ _ patch, of fetch max_rounds] once [OF _ _ patch, of fetch' 1] Inr assms(2,3) by simp
    qed
  qed
qed

end

section \<open>The two reserve planners\<close>

interpretation v2: single_round v2_adapter
  by unfold_locales (auto simp: v2_adapter_def v2_on_results_def v2_initial_plan_def Let_def)

interpretation solidly: single_round solidly_adapter
  by unfold_locales (auto simp: solidly_adapter_def solidly_on_results_def solidly_initial_plan_def Let_def)

interpretation v2_contract: planner_contract "pa_ops v2_adapter" UniswapV2 "\<lambda>_. True"
  by unfold_locales
    (auto simp: v2_adapter_def v2_finish_def Let_def ready_outcome_def check_protocol_agreement_Inr reg_protocol_def
      split: option.splits v2_verdict.splits if_splits)

interpretation solidly_contract: planner_contract "pa_ops solidly_adapter" SolidlyV2 "\<lambda>_. True"
  by unfold_locales
    (auto simp: solidly_adapter_def solidly_finish_def Let_def ready_outcome_def check_protocol_agreement_Inr reg_protocol_def
      split: option.splits solidly_verdict.splits if_splits)

end
