(* ===== verification/Balancer_V2.thy ===== *)
theory Balancer_V2
  imports Reserve_Adapters
begin

text \<open>
  \<open>src/adapters/balancer_v2.rs\<close>: the balances of a pool live in packed words of the shared vault, at slots that are
  found by value. A \<open>Swap\<close> of the vault is replayed into the located cash fields when every part of it is known, and
  asks for a re-read of the known slots otherwise. The planner has two modes: it discovers the slots with a view call
  and verifies them, or verifies a set that is already known.

  The signature hashes, the decoders and the encoder that the \<open>sol!\<close> macro generates are arguments.
\<close>

section \<open>Packed balances\<close>

definition CASH_BITS :: nat where "CASH_BITS = 112"

definition CASH_MASK :: u256 where "CASH_MASK = 0xFFFFFFFFFFFFFFFFFFFFFFFFFFFF"

definition TWO_TOKEN_SPECIALIZATION :: u16 where "TWO_TOKEN_SPECIALIZATION = 2"

text \<open>Bytes 20 and 21 of the pool id, big endian.\<close>

definition is_two_token_pool :: "b256 \<Rightarrow> bool" where
  "is_two_token_pool pool_id \<longleftrightarrow>
    (let bytes = to_be_bytes32 pool_id
     in (push_bit 8 (ucast (bytes ! 20)) OR ucast (bytes ! 21) :: u16) = TWO_TOKEN_SPECIALIZATION)"

definition cash_shift :: "bool \<Rightarrow> nat" where
  "cash_shift high = (if high then CASH_BITS else 0)"

definition cash_field :: "u256 \<Rightarrow> bool \<Rightarrow> u256" where
  "cash_field word high = drop_bit (cash_shift high) word AND CASH_MASK"

definition set_cash_field :: "u256 \<Rightarrow> bool \<Rightarrow> u256 \<Rightarrow> u256" where
  "set_cash_field word high cash =
    (let shift = cash_shift high; cleared = word AND (- 1 XOR push_bit shift CASH_MASK)
     in cleared OR push_bit shift (cash AND CASH_MASK))"

definition apply_cash_delta :: "u256 \<Rightarrow> bool \<Rightarrow> bool \<Rightarrow> u256 \<Rightarrow> u256 option" where
  "apply_cash_delta word high add amount =
    (case (if add then checked_add (cash_field word high) amount else checked_sub (cash_field word high) amount) of
       None \<Rightarrow> None
     | Some new \<Rightarrow> if CASH_MASK < new then None else Some (set_cash_field word high new))"

section \<open>Locating the cash fields\<close>

definition cash_matches :: "state_view \<Rightarrow> address \<Rightarrow> (address \<times> u256) list \<Rightarrow> bool \<Rightarrow> u256 \<Rightarrow> (u256 \<times> bool) list" where
  "cash_matches state vault verified_slots high_field_can_be_cash balance =
    concat (map (\<lambda>(_, slot). case state vault slot of
        None \<Rightarrow> []
      | Some word \<Rightarrow> (if cash_field word False = balance then [(slot, False)] else [])
          @ (if high_field_can_be_cash \<and> cash_field word True = balance then [(slot, True)] else []))
      (filter (\<lambda>(address, _). address = vault) verified_slots))"

definition probe_token_cash ::
  "address list \<Rightarrow> u256 list \<Rightarrow> (address \<times> u256) list \<Rightarrow> address \<Rightarrow> state_view \<Rightarrow> bool \<Rightarrow> balancer_token_balance list" where
  "probe_token_cash tokens balances verified_slots vault state high_field_can_be_cash =
    concat (map (\<lambda>(token, balance).
        if balance = 0 then []
        else case cash_matches state vault verified_slots high_field_can_be_cash balance of
            [(slot, high)] \<Rightarrow> [\<lparr>bal_token = token, bal_slot = slot, bal_high_field = high\<rparr>]
          | _ \<Rightarrow> [])
      (zip tokens balances))"

definition token_cash_location :: "balancer_v2_metadata \<Rightarrow> address \<Rightarrow> balancer_token_balance option" where
  "token_cash_location metadata token = find (\<lambda>b. bal_token b = token) (bal_token_cash metadata)"

section \<open>Events\<close>

record swap_cash_delta =
  scd_token_in :: address
  scd_amount_in :: u256
  scd_token_out :: address
  scd_amount_out :: u256

definition resync_repair :: "address \<Rightarrow> balancer_v2_metadata \<Rightarrow> repair_action \<times> update_quality" where
  "resync_repair vault metadata =
    (if bal_balance_slots metadata = [] then (NoRepair, ConservativeInvalidation)
     else (VerifySlots (map (\<lambda>slot. (vault, slot)) (bal_balance_slots metadata)), RequiresRepair))"

definition event_source_swap ::
  "state_view \<Rightarrow> address \<Rightarrow> b256 \<Rightarrow> balancer_v2_metadata \<Rightarrow> swap_cash_delta \<Rightarrow> state_update list option" where
  "event_source_swap view vault pool_id metadata swap =
    Option.bind (token_cash_location metadata (scd_token_in swap)) (\<lambda>in_loc.
    Option.bind (token_cash_location metadata (scd_token_out swap)) (\<lambda>out_loc.
    if \<not> is_two_token_pool pool_id \<and> (bal_high_field in_loc \<or> bal_high_field out_loc) then None
    else if bal_slot in_loc = bal_slot out_loc then
      (if bal_high_field in_loc = bal_high_field out_loc then None
       else
         Option.bind (view vault (bal_slot in_loc)) (\<lambda>word.
         Option.bind (apply_cash_delta word (bal_high_field in_loc) True (scd_amount_in swap)) (\<lambda>word.
         Option.bind (apply_cash_delta word (bal_high_field out_loc) False (scd_amount_out swap)) (\<lambda>word.
         Some [Slot vault (bal_slot in_loc) word]))))
    else
      Option.bind (view vault (bal_slot in_loc)) (\<lambda>word_in.
      Option.bind (apply_cash_delta word_in (bal_high_field in_loc) True (scd_amount_in swap)) (\<lambda>word_in.
      Option.bind (view vault (bal_slot out_loc)) (\<lambda>word_out.
      Option.bind (apply_cash_delta word_out (bal_high_field out_loc) False (scd_amount_out swap)) (\<lambda>word_out.
      Some [Slot vault (bal_slot in_loc) word_in, Slot vault (bal_slot out_loc) word_out]))))))"

record balancer_swap_log =
  bs_token_in :: address
  bs_token_out :: address
  bs_amount_in :: u256
  bs_amount_out :: u256

text \<open>The generated bindings: the two hashes, the two validating decoders and the codec of \<open>getPoolTokens\<close>.\<close>

record balancer_abi =
  abi_swap_hash :: b256
  abi_balance_changed_hash :: b256
  abi_decode_swap :: "log \<Rightarrow> balancer_swap_log option"
  abi_decode_deltas :: "log \<Rightarrow> u256 list option"
  abi_encode_get_pool_tokens :: "b256 \<Rightarrow> u8 list"
  abi_decode_get_pool_tokens :: "u8 list \<Rightarrow> (address list \<times> u256 list) option"

definition balancer_decode_swap :: "balancer_abi \<Rightarrow> pool_registration \<Rightarrow> log \<Rightarrow> state_view \<Rightarrow> adapter_event_result" where
  "balancer_decode_swap abi pool log view =
    (case abi_decode_swap abi log of
       None \<Rightarrow> result_error (MalformedLog ''malformed Balancer V2 Swap log'')
     | Some decoded \<Rightarrow>
    (case (case reg_metadata pool of
         BalancerV2Meta metadata \<Rightarrow> (case bal_vault metadata of
             Some vault \<Rightarrow>
               (case Option.bind (key_bytes32 (reg_key pool)) (\<lambda>pool_id.
                   event_source_swap view vault pool_id metadata
                     \<lparr>scd_token_in = bs_token_in decoded, scd_amount_in = bs_amount_in decoded,
                      scd_token_out = bs_token_out decoded, scd_amount_out = bs_amount_out decoded\<rparr>) of
                  Some updates \<Rightarrow> (updates, NoRepair, Exact)
                | None \<Rightarrow> (case resync_repair vault metadata of (repair, quality) \<Rightarrow> ([], repair, quality)))
           | None \<Rightarrow> ([], NoRepair, ConservativeInvalidation))
       | _ \<Rightarrow> ([], NoRepair, ConservativeInvalidation)) of (updates, repair, quality) \<Rightarrow>
     result_event \<lparr>ae_pool = reg_key pool, ae_emitter = log_address log, ae_topic0 = abi_swap_hash abi, ae_kind = Swap,
       ae_updates = updates, ae_quality = quality, ae_repair = repair\<rparr>))"

definition decode_liquidity_change :: "balancer_abi \<Rightarrow> pool_registration \<Rightarrow> log \<Rightarrow> adapter_event_result" where
  "decode_liquidity_change abi pool log =
    (case abi_decode_deltas abi log of
       None \<Rightarrow> result_error (MalformedLog ''malformed Balancer V2 PoolBalanceChanged log'')
     | Some deltas \<Rightarrow>
    (case (case reg_metadata pool of
         BalancerV2Meta metadata \<Rightarrow> (case bal_vault metadata of
             Some vault \<Rightarrow> resync_repair vault metadata
           | None \<Rightarrow> (NoRepair, ConservativeInvalidation))
       | _ \<Rightarrow> (NoRepair, ConservativeInvalidation)) of (repair, quality) \<Rightarrow>
     result_event \<lparr>ae_pool = reg_key pool, ae_emitter = log_address log, ae_topic0 = abi_balance_changed_hash abi,
       ae_kind = (if list_ex (\<lambda>delta. 0 < sint delta) deltas then LiquidityAdded else LiquidityRemoved),
       ae_updates = [], ae_quality = quality, ae_repair = repair\<rparr>))"

definition balancer_decode_event :: "balancer_abi \<Rightarrow> pool_registration \<Rightarrow> log \<Rightarrow> state_view \<Rightarrow> adapter_event_result" where
  "balancer_decode_event abi pool log view =
    (case nth_opt (log_topics log) 0 of
       None \<Rightarrow> result_ignored
     | Some topic0 \<Rightarrow>
         if topic0 = abi_swap_hash abi then balancer_decode_swap abi pool log view
         else if topic0 = abi_balance_changed_hash abi then decode_liquidity_change abi pool log
         else result_ignored)"

definition balancer_vault :: "pool_registration \<Rightarrow> address option" where
  "balancer_vault pool =
    (let first = nth_opt (reg_state_addresses pool) 0
     in case reg_metadata pool of
         BalancerV2Meta metadata \<Rightarrow> (case bal_vault metadata of Some vault \<Rightarrow> Some vault | None \<Rightarrow> first)
       | _ \<Rightarrow> first)"

definition balancer_event_sources :: "balancer_abi \<Rightarrow> pool_registration \<Rightarrow> event_source list" where
  "balancer_event_sources abi pool =
    (case balancer_vault pool of
       None \<Rightarrow> []
     | Some vault \<Rightarrow> [source_indexed_bytes32 vault [abi_swap_hash abi, abi_balance_changed_hash abi] 1])"

definition balancer_state_dependencies :: "pool_registration \<Rightarrow> state_dependencies" where
  "balancer_state_dependencies pool =
    (let (associated, whole_accounts, slots) =
       (case reg_metadata pool of
          BalancerV2Meta metadata \<Rightarrow>
            (reg_state_addresses pool @ (case balancer_vault pool of Some vault \<Rightarrow> [vault] | None \<Rightarrow> []),
             (case bal_pool_address metadata of Some pool_address \<Rightarrow> [pool_address] | None \<Rightarrow> []),
             (case balancer_vault pool of
                Some vault \<Rightarrow> map (\<lambda>slot. (vault, slot)) (bal_balance_slots metadata)
              | None \<Rightarrow> []))
        | _ \<Rightarrow> (reg_state_addresses pool, [], []))
     in with_slots (with_whole_accounts (with_associated_addresses dependencies_default associated) whole_accounts) slots)"

section \<open>The cold-start planner\<close>

datatype balancer_phase = Discover | Verify

datatype balancer_repair = DiscoverFailed | NoSlotsDiscovered | BalancesUnfetched

record balancer_planner =
  bp_vault :: address
  bp_pool_id :: b256
  bp_policy :: cold_start_policy
  bp_phase :: balancer_phase
  bp_tokens :: "address list"
  bp_balances :: "u256 list"
  bp_token_cash :: "balancer_token_balance list"
  bp_verified_slots :: "(address \<times> u256) list"
  bp_changed_slots :: "slot_change list"
  bp_repair :: "balancer_repair option"

definition balancer_planner_new ::
  "address \<Rightarrow> b256 \<Rightarrow> u256 list \<Rightarrow> address list \<Rightarrow> balancer_token_balance list \<Rightarrow> cold_start_policy \<Rightarrow> balancer_planner" where
  "balancer_planner_new vault pool_id known_slots tokens known_token_cash policy =
    (let slots = remdups_adj (sort known_slots);
         (phase, verified_slots) = (if slots = [] then (Discover, []) else (Verify, map (\<lambda>slot. (vault, slot)) slots))
     in \<lparr>bp_vault = vault, bp_pool_id = pool_id, bp_policy = policy, bp_phase = phase, bp_tokens = tokens,
         bp_balances = [], bp_token_cash = known_token_cash, bp_verified_slots = verified_slots,
         bp_changed_slots = [], bp_repair = None\<rparr>)"

definition balancer_cold_start_planner :: "pool_registration \<Rightarrow> cold_start_policy \<Rightarrow> unsupported_reason + balancer_planner" where
  "balancer_cold_start_planner pool policy =
    (case balancer_vault pool of
       None \<Rightarrow> Inl (MissingMetadata ''Balancer vault'')
     | Some vault \<Rightarrow>
    (case key_bytes32 (reg_key pool) of
       None \<Rightarrow> Inl (UnsupportedCustom ''Balancer V2 pool key is not bytes32-keyed'')
     | Some pool_id \<Rightarrow>
    (case (case reg_metadata pool of
         BalancerV2Meta metadata \<Rightarrow> (bal_balance_slots metadata, bal_tokens metadata, bal_token_cash metadata)
       | _ \<Rightarrow> ([], [], [])) of (known_slots, tokens, known_token_cash) \<Rightarrow>
     Inr (balancer_planner_new vault pool_id known_slots tokens known_token_cash policy))))"

definition balancer_initial_plan :: "balancer_abi \<Rightarrow> balancer_planner \<Rightarrow> state_view \<Rightarrow> cold_start_plan \<times> balancer_planner" where
  "balancer_initial_plan abi p _ =
    (if bp_phase p = Verify then (verify_plan (bp_verified_slots p), p)
     else (empty_plan\<lparr>pln_accounts := [bp_vault p],
             pln_discover := [\<lparr>csc_from = 0, csc_to = bp_vault p,
               csc_calldata = abi_encode_get_pool_tokens abi (bp_pool_id p), csc_restrict_to = Some [bp_vault p]\<rparr>]\<rparr>, p))"

definition unfetched :: "cold_start_results \<Rightarrow> address \<times> u256 \<Rightarrow> bool" where
  "unfetched results = (\<lambda>(a, k). case fetch_of results a k of
      Some (FetchFailed _) \<Rightarrow> True | Some NotAttempted \<Rightarrow> True | None \<Rightarrow> True | _ \<Rightarrow> False)"

definition balancer_on_results ::
  "balancer_abi \<Rightarrow> balancer_planner \<Rightarrow> cold_start_results \<Rightarrow> state_view \<Rightarrow> cold_start_step \<times> balancer_planner" where
  "balancer_on_results abi planner results state =
    (let p = planner\<lparr>bp_changed_slots := bp_changed_slots planner @ res_verified results\<rparr>
     in case bp_phase p of
         Discover \<Rightarrow>
           (case nth_opt (res_discovered results) 0 of
              None \<Rightarrow> (Done, p\<lparr>bp_repair := Some DiscoverFailed\<rparr>)
            | Some call \<Rightarrow>
              if \<not> ccr_success call then (Done, p\<lparr>bp_repair := Some DiscoverFailed\<rparr>)
              else (case ccr_output call of
                  None \<Rightarrow> (Done, p\<lparr>bp_repair := Some DiscoverFailed\<rparr>)
                | Some output \<Rightarrow>
              (case abi_decode_get_pool_tokens abi output of
                  None \<Rightarrow> (Done, p\<lparr>bp_repair := Some DiscoverFailed\<rparr>)
                | Some (tokens, balances) \<Rightarrow>
              let p = p\<lparr>bp_tokens := tokens, bp_balances := balances\<rparr>;
                  discovered = filter (\<lambda>(a, _). a = bp_vault p) (ccr_slots call)
              in if discovered = [] then (Done, p\<lparr>bp_repair := Some NoSlotsDiscovered\<rparr>)
                 else (Continue (verify_plan discovered), p\<lparr>bp_verified_slots := discovered, bp_phase := Verify\<rparr>))))
       | Verify \<Rightarrow>
           (let p = (if list_ex (unfetched results) (bp_verified_slots p)
                     then p\<lparr>bp_repair := Some BalancesUnfetched\<rparr> else p);
                p = (if bp_balances p \<noteq> []
                     then p\<lparr>bp_token_cash := probe_token_cash (bp_tokens p) (bp_balances p) (bp_verified_slots p) (bp_vault p)
                              state (is_two_token_pool (bp_pool_id p))\<rparr>
                     else p)
            in (Done, p)))"

text \<open>The pool address is the leading twenty bytes of the pool id.\<close>

definition balancer_pool_address :: "b256 \<Rightarrow> address" where
  "balancer_pool_address pool_id = ucast (drop_bit 96 pool_id)"

definition balancer_finish ::
  "balancer_planner \<Rightarrow> pool_registration \<Rightarrow> cold_start_run_report \<Rightarrow> cold_start_outcome \<times> pool_registration" where
  "balancer_finish p pool _ =
    (let report = (report_new (reg_key pool) (bp_policy p))
           \<lparr>csr_verified_slots := bp_verified_slots p, csr_changed_slots := bp_changed_slots p\<rparr>;
         degraded = report\<lparr>csr_status := Degraded\<rparr>
     in case bp_repair p of
         Some DiscoverFailed \<Rightarrow> (NeedsRepair degraded (ColdStartRepair (reg_key pool) (bp_policy p)), pool)
       | Some NoSlotsDiscovered \<Rightarrow> (NeedsRepair degraded (ColdStartRepair (reg_key pool) (bp_policy p)), pool)
       | Some BalancesUnfetched \<Rightarrow> (NeedsRepair degraded (VerifySlots (bp_verified_slots p)), pool)
       | None \<Rightarrow>
           (OutcomeReady (report\<lparr>csr_status := Ready\<rparr>),
            pool\<lparr>reg_metadata := BalancerV2Meta \<lparr>bal_vault = Some (bp_vault p),
                bal_pool_address = Some (balancer_pool_address (bp_pool_id p)), bal_tokens = bp_tokens p,
                bal_balance_slots = remdups_adj (sort (map snd (bp_verified_slots p))), bal_token_cash = bp_token_cash p\<rparr>,
              reg_status := Ready\<rparr>))"

definition balancer_adapter :: "balancer_abi \<Rightarrow> balancer_planner planner_adapter" where
  "balancer_adapter abi = \<lparr>pa_ops = \<lparr>op_initial_plan = balancer_initial_plan abi, op_on_results = balancer_on_results abi,
     op_finish = balancer_finish\<rparr>, pa_planner = balancer_cold_start_planner\<rparr>"

section \<open>The packed fields\<close>

lemma CASH_MASK_mask: "CASH_MASK = mask 112"
  by (simp add: CASH_MASK_def mask_eq_exp_minus_1)

lemma cash_field_le: "cash_field w high \<le> CASH_MASK"
  by (simp add: cash_field_def word_and_le1)

lemma uint_cash_field: "uint (cash_field w high) < 2 ^ 112"
proof -
  have "uint (cash_field w high) \<le> uint CASH_MASK" using cash_field_le by (simp add: word_le_def)
  then show ?thesis by (simp add: CASH_MASK_def)
qed

lemma bit_set_cash_field:
  "bit (set_cash_field w high c) i \<longleftrightarrow>
    (if cash_shift high \<le> i \<and> i < cash_shift high + 112 then bit c (i - cash_shift high) else bit w i)"
proof (cases "i < 256")
  case True
  have "cash_shift high + 112 \<le> 256" by (simp add: cash_shift_def CASH_BITS_def)
  with True show ?thesis unfolding set_cash_field_def Let_def CASH_MASK_mask
    by (auto simp: bit_or_iff bit_and_iff bit_not_iff bit_push_bit_iff bit_mask_iff)
next
  case False
  moreover have "cash_shift high + 112 \<le> 256" by (simp add: cash_shift_def CASH_BITS_def)
  ultimately have "\<not> (cash_shift high \<le> i \<and> i < cash_shift high + 112)" by simp
  with False show ?thesis using bit_imp_le_length [of w i] bit_imp_le_length [of "set_cash_field w high c" i] by auto
qed

lemma bit_cash_field: "bit (cash_field w high) i \<longleftrightarrow> i < 112 \<and> bit w (i + cash_shift high)"
  by (auto simp: cash_field_def CASH_MASK_mask bit_and_iff bit_drop_bit_eq bit_mask_iff add.commute)

lemma cash_field_set:
  assumes "c \<le> CASH_MASK"
  shows "cash_field (set_cash_field w high c) high' = (if high' = high then c else cash_field w high')"
proof -
  have "uint c < 2 ^ 112" using assms by (simp add: CASH_MASK_def word_le_def)
  then have "c < 2 ^ 112" by (simp add: word_less_def)
  then have "bit c i \<Longrightarrow> i < 112" for i by (rule bit_less) simp_all
  then show ?thesis
    by (intro bit_word_eqI) (auto simp: bit_cash_field bit_set_cash_field cash_shift_def CASH_BITS_def)
qed

lemma drop_set_cash_field: "drop_bit 224 (set_cash_field w high c) = drop_bit 224 w"
  by (rule bit_word_eqI) (auto simp: bit_drop_bit_eq bit_set_cash_field cash_shift_def CASH_BITS_def)

text \<open>A delta either lands exactly in its field, or overflows the field or the word and is refused.\<close>

definition cash_after :: "bool \<Rightarrow> u256 \<Rightarrow> u256 \<Rightarrow> int" where
  "cash_after add amount cash = (if add then uint cash + uint amount else uint cash - uint amount)"

lemma apply_cash_delta_Some:
  assumes "apply_cash_delta w high add amount = Some w'"
  shows "uint (cash_field w' high) = cash_after add amount (cash_field w high)" "cash_field w' (\<not> high) = cash_field w (\<not> high)"
    "drop_bit 224 w' = drop_bit 224 w"
proof -
  obtain new where new: "(if add then checked_add (cash_field w high) amount else checked_sub (cash_field w high) amount) = Some new"
    and le: "new \<le> CASH_MASK" and w': "w' = set_cash_field w high new"
    using assms by (auto simp: apply_cash_delta_def not_less split: option.splits if_splits)
  have "uint new = cash_after add amount (cash_field w high)"
    using new by (auto simp: cash_after_def checked_simps split: if_splits)
  then show "uint (cash_field w' high) = cash_after add amount (cash_field w high)" by (simp add: w' cash_field_set [OF le])
  show "cash_field w' (\<not> high) = cash_field w (\<not> high)" by (simp add: w' cash_field_set [OF le])
  show "drop_bit 224 w' = drop_bit 224 w" by (simp add: w' drop_set_cash_field)
qed

lemma apply_cash_delta_None:
  "apply_cash_delta w high add amount = None \<longleftrightarrow> \<not> (0 \<le> cash_after add amount (cash_field w high) \<and> cash_after add amount (cash_field w high) < 2 ^ 112)"
proof -
  have m: "CASH_MASK < new \<longleftrightarrow> 2 ^ 112 \<le> uint new" for new :: u256
    by (simp add: CASH_MASK_def word_less_def) presburger
  show ?thesis
  proof (cases add)
    case True
    show ?thesis
    proof (cases "checked_add (cash_field w high) amount")
      case None
      then have "2 ^ 256 \<le> uint (cash_field w high) + uint amount" by (simp add: checked_simps)
      with None True show ?thesis by (auto simp: apply_cash_delta_def cash_after_def)
    next
      case (Some new)
      then have "uint new = uint (cash_field w high) + uint amount" by (simp add: checked_simps)
      with Some True show ?thesis by (simp add: apply_cash_delta_def cash_after_def m not_le)
    qed
  next
    case False
    show ?thesis
    proof (cases "checked_sub (cash_field w high) amount")
      case None
      then have "uint (cash_field w high) < uint amount" by (simp add: checked_simps word_less_def)
      with None False show ?thesis by (auto simp: apply_cash_delta_def cash_after_def)
    next
      case (Some new)
      then have "uint new = uint (cash_field w high) - uint amount" by (simp add: checked_simps)
      moreover have "uint new \<le> uint (cash_field w high)" using calculation by simp
      ultimately show ?thesis using Some False uint_cash_field [of w high]
        uint_ge_0 [of new] by (auto simp: apply_cash_delta_def cash_after_def m)
    qed
  qed
qed

section \<open>Swaps on the balances\<close>

text \<open>The abstract state: the balance of every cash field of the vault.\<close>

definition cash_at :: "state_view \<Rightarrow> address \<Rightarrow> u256 \<times> bool \<Rightarrow> int option" where
  "cash_at view vault = (\<lambda>(slot, high). map_option (\<lambda>w. uint (cash_field w high)) (view vault slot))"

definition loc_field :: "balancer_token_balance \<Rightarrow> u256 \<times> bool" where
  "loc_field loc = (bal_slot loc, bal_high_field loc)"

text \<open>The swap of the vault on its balances: one field grows, another shrinks, no other changes.\<close>

definition balances_swapped ::
  "(u256 \<times> bool \<Rightarrow> int option) \<Rightarrow> u256 \<times> bool \<Rightarrow> u256 \<Rightarrow> u256 \<times> bool \<Rightarrow> u256 \<Rightarrow> (u256 \<times> bool \<Rightarrow> int option)" where
  "balances_swapped cash fin amount_in fout amount_out =
    cash(fin := map_option (\<lambda>c. c + uint amount_in) (cash fin), fout := map_option (\<lambda>c. c - uint amount_out) (cash fout))"

lemma apply_cash_delta_total:
  assumes "0 \<le> cash_after add amount (cash_field w high)" "cash_after add amount (cash_field w high) < 2 ^ 112"
  obtains w' where "apply_cash_delta w high add amount = Some w'"
  using assms apply_cash_delta_None [of w high add amount] by (cases "apply_cash_delta w high add amount") auto

text \<open>A swap is sourced from the event whenever both fields are known, differ, and can take the amounts.\<close>

lemma event_source_swap_total:
  assumes loc: "token_cash_location metadata (scd_token_in swap) = Some i" "token_cash_location metadata (scd_token_out swap) = Some o'"
    and f: "loc_field i \<noteq> loc_field o'" "is_two_token_pool pool_id \<or> \<not> bal_high_field i \<and> \<not> bal_high_field o'"
    and c: "cash_at view vault (loc_field i) = Some ci" "ci + uint (scd_amount_in swap) < 2 ^ 112"
      "cash_at view vault (loc_field o') = Some co" "uint (scd_amount_out swap) \<le> co"
  shows "event_source_swap view vault pool_id metadata swap \<noteq> None"
proof -
  obtain wi wo where w: "view vault (bal_slot i) = Some wi" "ci = uint (cash_field wi (bal_high_field i))"
    "view vault (bal_slot o') = Some wo" "co = uint (cash_field wo (bal_high_field o'))"
    using c(1,3) by (auto simp: cash_at_def loc_field_def)
  have "0 \<le> cash_after True (scd_amount_in swap) (cash_field wi (bal_high_field i))"
    "cash_after True (scd_amount_in swap) (cash_field wi (bal_high_field i)) < 2 ^ 112"
    using c(2) by (simp_all add: cash_after_def w(2))
  then obtain wi' where i: "apply_cash_delta wi (bal_high_field i) True (scd_amount_in swap) = Some wi'"
    by (rule apply_cash_delta_total)
  have after: "cash_after False (scd_amount_out swap) (cash_field wo (bal_high_field o')) = co - uint (scd_amount_out swap)"
    by (simp add: cash_after_def w(4))
  have "co - uint (scd_amount_out swap) < 2 ^ 112"
    using uint_cash_field [of wo "bal_high_field o'"] uint_ge_0 [of "scd_amount_out swap"] unfolding w(4) by linarith
  with after c(4) have out: "0 \<le> cash_after False (scd_amount_out swap) (cash_field wo (bal_high_field o'))"
    "cash_after False (scd_amount_out swap) (cash_field wo (bal_high_field o')) < 2 ^ 112" by simp_all
  show ?thesis
  proof (cases "bal_slot i = bal_slot o'")
    case True
    then have h: "bal_high_field o' = (\<not> bal_high_field i)" "wo = wi" using f(1) w(1,3) by (auto simp: loc_field_def)
    have "cash_field wi' (bal_high_field o') = cash_field wo (bal_high_field o')"
      using apply_cash_delta_Some(2) [OF i] by (simp add: h)
    with out obtain w'' where "apply_cash_delta wi' (bal_high_field o') False (scd_amount_out swap) = Some w''"
      by (metis apply_cash_delta_total)
    then show ?thesis using True h f(2) loc w(1) i by (auto simp: event_source_swap_def)
  next
    case False
    obtain w'' where "apply_cash_delta wo (bal_high_field o') False (scd_amount_out swap) = Some w''"
      using out by (rule apply_cash_delta_total)
    then show ?thesis using False f(2) loc w(1,3) i by (auto simp: event_source_swap_def)
  qed
qed

lemma event_source_swap_SomeE:
  assumes "event_source_swap view vault pool_id metadata swap = Some us"
  obtains in_loc out_loc where "token_cash_location metadata (scd_token_in swap) = Some in_loc"
    "token_cash_location metadata (scd_token_out swap) = Some out_loc" "loc_field in_loc \<noteq> loc_field out_loc"
    "is_two_token_pool pool_id \<or> \<not> bal_high_field in_loc \<and> \<not> bal_high_field out_loc"
    "bal_slot in_loc = bal_slot out_loc \<Longrightarrow> \<exists>w w1 w2. view vault (bal_slot in_loc) = Some w
       \<and> apply_cash_delta w (bal_high_field in_loc) True (scd_amount_in swap) = Some w1
       \<and> apply_cash_delta w1 (bal_high_field out_loc) False (scd_amount_out swap) = Some w2
       \<and> us = [Slot vault (bal_slot in_loc) w2]"
    "bal_slot in_loc \<noteq> bal_slot out_loc \<Longrightarrow> \<exists>v v' w w'. view vault (bal_slot in_loc) = Some v
       \<and> apply_cash_delta v (bal_high_field in_loc) True (scd_amount_in swap) = Some v'
       \<and> view vault (bal_slot out_loc) = Some w
       \<and> apply_cash_delta w (bal_high_field out_loc) False (scd_amount_out swap) = Some w'
       \<and> us = [Slot vault (bal_slot in_loc) v', Slot vault (bal_slot out_loc) w']"
proof -
  obtain i where i: "token_cash_location metadata (scd_token_in swap) = Some i"
    using assms by (auto simp: event_source_swap_def bind_eq_Some_conv)
  obtain o' where o': "token_cash_location metadata (scd_token_out swap) = Some o'"
    using assms by (auto simp: event_source_swap_def bind_eq_Some_conv)
  note run = assms [unfolded event_source_swap_def i o' Option.bind.bind_lunit]
  show thesis
  proof (rule that [OF i o'])
    show "loc_field i \<noteq> loc_field o'" using run by (auto simp: loc_field_def split: if_splits)
    show "is_two_token_pool pool_id \<or> \<not> bal_high_field i \<and> \<not> bal_high_field o'" using run by (auto split: if_splits)
  qed (use run in \<open>auto simp: bind_eq_Some_conv split: if_splits\<close>)
qed

lemma event_source_swap_refines:
  assumes "event_source_swap view vault pool_id metadata swap = Some us"
    and "token_cash_location metadata (scd_token_in swap) = Some in_loc"
    and "token_cash_location metadata (scd_token_out swap) = Some out_loc"
  shows "cash_at (overlay us view) vault
      = balances_swapped (cash_at view vault) (loc_field in_loc) (scd_amount_in swap) (loc_field out_loc) (scd_amount_out swap)"
proof -
  show ?thesis
    using assms(1)
  proof (rule event_source_swap_SomeE)
    fix i o' assume a: "token_cash_location metadata (scd_token_in swap) = Some i" "token_cash_location metadata (scd_token_out swap) = Some o'"
      "loc_field i \<noteq> loc_field o'"
      "bal_slot i = bal_slot o' \<Longrightarrow> \<exists>w w1 w2. view vault (bal_slot i) = Some w
       \<and> apply_cash_delta w (bal_high_field i) True (scd_amount_in swap) = Some w1
       \<and> apply_cash_delta w1 (bal_high_field o') False (scd_amount_out swap) = Some w2
       \<and> us = [Slot vault (bal_slot i) w2]"
      "bal_slot i \<noteq> bal_slot o' \<Longrightarrow> \<exists>v v' w w'. view vault (bal_slot i) = Some v
       \<and> apply_cash_delta v (bal_high_field i) True (scd_amount_in swap) = Some v'
       \<and> view vault (bal_slot o') = Some w
       \<and> apply_cash_delta w (bal_high_field o') False (scd_amount_out swap) = Some w'
       \<and> us = [Slot vault (bal_slot i) v', Slot vault (bal_slot o') w']"
    have eq: "i = in_loc" "o' = out_loc" using a assms by simp_all
    show ?thesis
    proof (cases "bal_slot i = bal_slot o'")
      case True
      then have h: "bal_high_field o' = (\<not> bal_high_field i)" using a(3) by (auto simp: loc_field_def)
      obtain w w1 w2 where w: "view vault (bal_slot i) = Some w" "us = [Slot vault (bal_slot i) w2]"
        and d1: "apply_cash_delta w (bal_high_field i) True (scd_amount_in swap) = Some w1"
        and d2: "apply_cash_delta w1 (bal_high_field o') False (scd_amount_out swap) = Some w2"
        using a(4) [OF True] by blast
      have "uint (cash_field w2 (bal_high_field i)) = uint (cash_field w (bal_high_field i)) + uint (scd_amount_in swap)"
        "uint (cash_field w2 (bal_high_field o')) = uint (cash_field w (bal_high_field o')) - uint (scd_amount_out swap)"
        using apply_cash_delta_Some(1,2) [OF d1] apply_cash_delta_Some(1,2) [OF d2] by (simp_all add: h cash_after_def)
      with True h w show ?thesis unfolding eq [symmetric]
        by (auto simp: fun_eq_iff cash_at_def overlay_def balances_swapped_def loc_field_def)
    next
      case False
      obtain v v' w w' where w: "view vault (bal_slot i) = Some v" "view vault (bal_slot o') = Some w"
        "us = [Slot vault (bal_slot i) v', Slot vault (bal_slot o') w']"
        and d1: "apply_cash_delta v (bal_high_field i) True (scd_amount_in swap) = Some v'"
        and d2: "apply_cash_delta w (bal_high_field o') False (scd_amount_out swap) = Some w'"
        using a(5) [OF False] by blast
      have "cash_field v' high = cash_field v high" if "high \<noteq> bal_high_field i" for high
        using apply_cash_delta_Some(2) [OF d1] that by (cases high; cases "bal_high_field i") simp_all
      moreover have "cash_field w' high = cash_field w high" if "high \<noteq> bal_high_field o'" for high
        using apply_cash_delta_Some(2) [OF d2] that by (cases high; cases "bal_high_field o'") simp_all
      ultimately show ?thesis unfolding eq [symmetric]
        using False w apply_cash_delta_Some(1) [OF d1] apply_cash_delta_Some(1) [OF d2]
        by (auto simp: fun_eq_iff cash_at_def overlay_def balances_swapped_def loc_field_def cash_after_def)
    qed
  qed
qed

text \<open>The upper bits of every word, among them the stamp of the last change, stay as they were.\<close>

lemma event_source_swap_stamp:
  assumes "event_source_swap view vault pool_id metadata swap = Some us"
  shows "map_option (drop_bit 224) (overlay us view a k) = map_option (drop_bit 224) (view a k)" "exact_writes_to vault us"
  using assms
proof (atomize (full), elim event_source_swap_SomeE, goal_cases)
  case (1 i o')
  then show ?case
    using apply_cash_delta_Some(3)
    by (cases "bal_slot i = bal_slot o'") (fastforce simp: overlay_def split: option.splits)+
qed

section \<open>The probe\<close>

text \<open>A located field is the only field of the verified slots that holds the token's balance.\<close>

lemma probe_token_cash_unique:
  assumes "b \<in> set (probe_token_cash tokens balances slots vault state high_ok)"
  shows "\<exists>balance. (bal_token b, balance) \<in> set (zip tokens balances) \<and> balance \<noteq> 0
    \<and> cash_matches state vault slots high_ok balance = [loc_field b]"
  using assms by (auto simp: probe_token_cash_def loc_field_def split: if_splits list.splits)

lemma set_cash_matches:
  "f \<in> set (cash_matches state vault slots high_ok balance) \<longleftrightarrow>
    (vault, fst f) \<in> set slots \<and> cash_at state vault f = Some (uint balance) \<and> (snd f \<longrightarrow> high_ok)"
  by (cases f; cases "snd f") (auto simp: cash_matches_def cash_at_def word_uint_eq_iff [of "cash_field _ _", symmetric]
      dest: sym [of "Some _"] split: option.splits if_splits)

interpretation balancer_contract: planner_contract "pa_ops (balancer_adapter abi)" BalancerV2 "\<lambda>_. True" for abi
  by unfold_locales
    (auto simp: balancer_adapter_def balancer_finish_def Let_def ready_outcome_def check_protocol_agreement_Inr reg_protocol_def
      split: option.splits balancer_repair.splits if_splits)

end
