(* ===== verification/Reactive.thy ===== *)
theory Reactive
  imports Balancer_V2 Staking_Evidence
begin

text \<open>
  \<open>src/adapters/reactive.rs\<close>: the handler that turns a routed log into effects for the reactive runtime, the merging
  of repairs (\<open>RepairAction::combine\<close> of \<open>types.rs\<close>), the lowering of a tick-range repair (\<open>repair.rs\<close>) and the bounded
  store of Slipstream fee evidence.

  The runtime that executes the effects is another crate. Tags and labels of the observability hooks are strings for
  humans and are left out; the identity of a resync request, which the code prints, is the tuple of the values it prints.
\<close>

section \<open>Merging repairs\<close>

definition union_into :: "'a list \<Rightarrow> 'a list \<Rightarrow> 'a list" where
  "union_into left right = fold (\<lambda>x xs. if x \<in> set xs then xs else xs @ [x]) right left"

definition combine :: "repair_action \<Rightarrow> repair_action \<Rightarrow> repair_action" where
  "combine self other =
    (if self = NoRepair then other
     else if other = NoRepair then self
     else case (self, other) of
         (VerifySlots left, VerifySlots right) \<Rightarrow> VerifySlots (union_into left right)
       | (PurgeSlots left_address left_slots, PurgeSlots right_address right_slots) \<Rightarrow>
           if left_address = right_address then PurgeSlots left_address (union_into left_slots right_slots) else other
       | _ \<Rightarrow> other)"

section \<open>Predicting skipped updates\<close>

fun skip_update :: "state_view \<Rightarrow> state_update \<Rightarrow> state_diff \<Rightarrow> state_diff" where
  "skip_update state (SlotDelta a k delta) diff =
    (if state a k = None
     then diff\<lparr>diff_skipped := diff_skipped diff @ [\<lparr>sd_address = a, sd_slot = k, sd_delta = delta\<rparr>]\<rparr> else diff)"
| "skip_update state (SlotMasked a k m value) diff =
    (if state a k = None
     then diff\<lparr>diff_skipped_masks := diff_skipped_masks diff @ [\<lparr>sm_address = a, sm_slot = k, sm_mask = m, sm_value = value\<rparr>]\<rparr>
     else diff)"
| "skip_update state _ diff = diff"

definition predict_cold_skips :: "state_update list \<Rightarrow> state_view \<Rightarrow> state_diff" where
  "predict_cold_skips updates state =
    fold (skip_update state) updates \<lparr>diff_slots = [], diff_skipped = [], diff_skipped_masks = []\<rparr>"

definition skipped_slots :: "state_diff \<Rightarrow> (address \<times> u256) list" where
  "skipped_slots diff =
    map (\<lambda>s. (sd_address s, sd_slot s)) (diff_skipped diff) @ map (\<lambda>s. (sm_address s, sm_slot s)) (diff_skipped_masks diff)"

definition verify_slots_for_predicted_skips :: "state_diff \<Rightarrow> repair_action" where
  "verify_slots_for_predicted_skips diff =
    (let slots = skipped_slots diff in if slots = [] then NoRepair else VerifySlots slots)"

datatype state_effect_quality = ExactFromInput | AppliedWithPendingResync | EffectRequiresRepair | NoStateEffect

definition quality_for_event :: "adapter_event \<Rightarrow> bool \<Rightarrow> state_effect_quality" where
  "quality_for_event event has_predicted_skips =
    (case ae_quality event of
       Exact \<Rightarrow> ExactFromInput
     | ExactIfApplied \<Rightarrow> if has_predicted_skips then AppliedWithPendingResync else ExactFromInput
     | RequiresRepair \<Rightarrow> EffectRequiresRepair
     | ConservativeInvalidation \<Rightarrow> EffectRequiresRepair
     | Ignored \<Rightarrow> NoStateEffect)"

section \<open>Effects\<close>

record reactive_context =
  rx_chain_id :: "u64 option"
  rx_chain_status :: chain_status
  rx_block :: "block_ref option"
  rx_transaction_index :: "u64 option"
  rx_log_index :: "u64 option"

datatype resync_block = BlockPending | BlockHash u64 b256 | BlockLatest

datatype resync_reason = SkippedStateEffect | HandlerRequested

record resync_id =
  rid_instance :: "pool_instance_id option"
  rid_pool :: pool_key
  rid_kind :: adapter_event_kind
  rid_address :: address
  rid_slots :: "u256 list"
  rid_block :: resync_block
  rid_position :: "(u64 option \<times> u64 option) option"

record resync_request =
  rq_id :: resync_id
  rq_reason :: resync_reason
  rq_block :: resync_block
  rq_address :: address
  rq_slots :: "u256 list"

datatype amm_signal =
    EventSignal "pool_instance_id option" adapter_event
  | DecodeErrorSignal "pool_instance_id option" pool_key adapter_event_error
  | RepairSignal "pool_instance_id option" repair_action

datatype reactive_effect =
    EffectUpdate state_update
  | EffectResync resync_request
  | EffectInvalidate address purge_scope
  | EffectHook string amm_signal

record handler_outcome =
  ho_effects :: "reactive_effect list"
  ho_quality :: state_effect_quality

definition outcome_empty :: handler_outcome where
  "outcome_empty = \<lparr>ho_effects = [], ho_quality = NoStateEffect\<rparr>"

definition context_block :: "reactive_context \<Rightarrow> block_ref option" where
  "context_block ctx =
    (case rx_block ctx of
       Some b \<Rightarrow> Some b
     | None \<Rightarrow> (case rx_chain_status ctx of
           Included b \<Rightarrow> Some b
         | Safe b \<Rightarrow> Some b
         | Finalized b \<Rightarrow> Some b
         | Reorged b \<Rightarrow> Some b
         | ChainPending \<Rightarrow> None
         | Preconfirmed \<Rightarrow> None))"

definition resync_block_of :: "reactive_context \<Rightarrow> resync_block" where
  "resync_block_of ctx =
    (if rx_chain_status ctx = Preconfirmed then BlockPending
     else case context_block ctx of
         Some b \<Rightarrow> BlockHash (blk_number b) (blk_hash b)
       | None \<Rightarrow> BlockLatest)"

definition resync_id_of ::
  "pool_instance_id option \<Rightarrow> adapter_event \<Rightarrow> address \<Rightarrow> u256 list \<Rightarrow> resync_block \<Rightarrow> reactive_context \<Rightarrow> resync_id" where
  "resync_id_of inst event address slots block ctx =
    \<lparr>rid_instance = inst, rid_pool = ae_pool event, rid_kind = ae_kind event, rid_address = address, rid_slots = slots,
     rid_block = block,
     rid_position = (case inst of Some _ \<Rightarrow> Some (rx_transaction_index ctx, rx_log_index ctx) | None \<Rightarrow> None)\<rparr>"

definition group_slot :: "address \<times> u256 \<Rightarrow> (address \<times> u256 list) list \<Rightarrow> (address \<times> u256 list) list" where
  "group_slot = (\<lambda>(address, slot) grouped.
    let entry = (case map_of grouped address of Some slots \<Rightarrow> slots | None \<Rightarrow> [])
    in btree_insert address (if slot \<in> set entry then entry else entry @ [slot]) grouped)"

definition verify_slot_resyncs ::
  "reactive_context \<Rightarrow> adapter_event \<Rightarrow> (address \<times> u256) list \<Rightarrow> resync_reason \<Rightarrow> pool_instance_id option \<Rightarrow> reactive_effect list" where
  "verify_slot_resyncs ctx event slots reason inst =
    (let block = resync_block_of ctx
     in map (\<lambda>(address, slots). let slots = sort slots
          in EffectResync \<lparr>rq_id = resync_id_of inst event address slots block ctx, rq_reason = reason, rq_block = block,
               rq_address = address, rq_slots = slots\<rparr>)
        (fold group_slot slots []))"

text \<open>\<open>repair.rs\<close>: the boundary slots of a tick range, sorted and without duplicates.\<close>

definition v3_tick_range_slots :: "keccak \<Rightarrow> v3_storage_layout \<Rightarrow> i32 \<Rightarrow> i32 \<Rightarrow> u256 list result" where
  "v3_tick_range_slots keccak256 layout tick_lower tick_upper =
    rbind (v3_word_position tick_lower (tick_spacing layout)) (\<lambda>lower_word.
    rbind (v3_word_position tick_upper (tick_spacing layout)) (\<lambda>upper_word.
    let keys = concat (map (\<lambda>tick. v3_tick_info_storage_keys_with_base keccak256 tick (ticks_base_slot layout))
                  [tick_lower, tick_upper]);
        ordered = (if sint upper_word < sint lower_word then [upper_word, lower_word] else [lower_word, upper_word]);
        words = map (\<lambda>w. v3_tick_bitmap_storage_key_with_base keccak256 w (tick_bitmap_base_slot layout)) (remdups_adj ordered)
    in Inr (remdups_adj (sort (keys @ words @ [liquidity_slot layout])))))"

text \<open>The layout has a positive spacing, so the word positions exist; the code would abort otherwise.\<close>

definition v3_tick_range_effects ::
  "keccak \<Rightarrow> pool_registration \<Rightarrow> adapter_event \<Rightarrow> i32 \<Rightarrow> i32 \<Rightarrow> reactive_context \<Rightarrow> pool_instance_id option
    \<Rightarrow> reactive_effect list result" where
  "v3_tick_range_effects keccak256 pool event tick_lower tick_upper ctx inst =
    (case key_address (reg_key pool) of
       None \<Rightarrow> Inr []
     | Some address \<Rightarrow>
    (case layout_for pool of
       None \<Rightarrow> Inr [EffectInvalidate address AllStorage]
     | Some layout \<Rightarrow>
    rbind (v3_tick_range_slots keccak256 layout tick_lower tick_upper) (\<lambda>slots.
    let block = resync_block_of ctx
    in Inr [EffectResync \<lparr>rq_id = resync_id_of inst event address slots block ctx, rq_reason = HandlerRequested,
         rq_block = block, rq_address = address, rq_slots = slots\<rparr>])))"

definition repair_hook :: "string \<Rightarrow> pool_instance_id option \<Rightarrow> repair_action \<Rightarrow> reactive_effect" where
  "repair_hook kind inst action = EffectHook kind (RepairSignal inst action)"

definition repair_effects ::
  "keccak \<Rightarrow> reactive_context \<Rightarrow> pool_registration \<Rightarrow> adapter_event \<Rightarrow> repair_action \<Rightarrow> bool \<Rightarrow> pool_instance_id option
    \<Rightarrow> reactive_effect list result" where
  "repair_effects keccak256 ctx pool event repair skipped_state_effect inst =
    (case repair of
       NoRepair \<Rightarrow> Inr []
     | VerifySlots slots \<Rightarrow>
         Inr (verify_slot_resyncs ctx event slots (if skipped_state_effect then SkippedStateEffect else HandlerRequested) inst)
     | PurgeStorage address \<Rightarrow> Inr [EffectInvalidate address AllStorage]
     | PurgeSlots address slots \<Rightarrow> Inr [EffectInvalidate address (Slots slots)]
     | ColdStartRepair _ _ \<Rightarrow> Inr [repair_hook ''amm.repair.cold_start'' inst repair]
     | V3TickRange _ tick_lower tick_upper \<Rightarrow>
         rbind (v3_tick_range_effects keccak256 pool event tick_lower tick_upper ctx inst) (\<lambda>effects.
         Inr (effects @ [repair_hook ''amm.repair.v3_tick_range'' inst repair]))
     | V3Incremental _ \<Rightarrow> Inr [repair_hook ''amm.repair.v3_incremental'' inst repair]
     | V3Full _ \<Rightarrow> Inr [repair_hook ''amm.repair.v3_full'' inst repair])"

section \<open>Handling a routed log\<close>

text \<open>The methods of \<open>AmmAdapter\<close> that the handler calls.\<close>

record event_adapter =
  ea_decode :: "pool_registration \<Rightarrow> log \<Rightarrow> state_view \<Rightarrow> adapter_event_context \<Rightarrow> adapter_event_result"
  ea_after_apply :: "pool_registration \<Rightarrow> adapter_event \<Rightarrow> state_diff \<Rightarrow> repair_action"

definition v2_event_adapter :: "b256 \<Rightarrow> (log \<Rightarrow> bool) \<Rightarrow> event_adapter" where
  "v2_event_adapter sync_hash sync_valid =
    \<lparr>ea_decode = (\<lambda>pool log view _. v2_decode_event sync_hash sync_valid pool log view), ea_after_apply = v2_after_apply\<rparr>"

definition event_context :: "reactive_context \<Rightarrow> b256 option \<Rightarrow> adapter_event_context" where
  "event_context ctx transaction_hash = \<lparr>
     ctx_chain_id = rx_chain_id ctx,
     ctx_block_number = map_option blk_number (rx_block ctx),
     ctx_block_hash = map_option blk_hash (rx_block ctx),
     ctx_parent_hash = Option.bind (rx_block ctx) blk_parent_hash,
     ctx_block_timestamp = Option.bind (rx_block ctx) blk_timestamp,
     ctx_transaction_hash = transaction_hash,
     ctx_transaction_index = rx_transaction_index ctx,
     ctx_log_index = rx_log_index ctx,
     ctx_slipstream_fee_evidence = None,
     ctx_slipstream_staking_evidence = None\<rparr>"

text \<open>The evidence stores of the routing context, as the handler reads them.\<close>

record evidence_stores =
  es_fee :: "address \<Rightarrow> adapter_event_context \<Rightarrow> slipstream_swap_fee_evidence option"
  es_staking :: "address \<Rightarrow> adapter_event_context \<Rightarrow> slipstream_staking_evidence option"

definition routed_context ::
  "evidence_stores option \<Rightarrow> pool_registration \<Rightarrow> adapter_event_context \<Rightarrow> adapter_event_context" where
  "routed_context routing pool context =
    (case (routing, key_address (reg_key pool)) of
       (Some stores, Some address) \<Rightarrow>
         let context = (case es_fee stores address context of
                 Some ev \<Rightarrow> context\<lparr>ctx_slipstream_fee_evidence := Some ev\<rparr> | None \<Rightarrow> context)
         in if supports_pool address
            then context\<lparr>ctx_slipstream_staking_evidence := es_staking stores address context\<rparr> else context
     | _ \<Rightarrow> context)"

definition handle_routed_log ::
  "keccak \<Rightarrow> reactive_context \<Rightarrow> log \<Rightarrow> b256 option \<Rightarrow> state_view \<Rightarrow> pool_registration \<Rightarrow> event_adapter
    \<Rightarrow> pool_instance_id option \<Rightarrow> evidence_stores option \<Rightarrow> handler_outcome result" where
  "handle_routed_log keccak256 ctx log transaction_hash state pool adapter inst routing =
    (let context = routed_context routing pool (event_context ctx transaction_hash);
         decoded = ea_decode adapter pool log state context;
         error_hooks = (case aer_error decoded of
             None \<Rightarrow> []
           | Some err \<Rightarrow> [EffectHook ''amm.decode_error'' (DecodeErrorSignal inst (reg_key pool) err)])
     in case aer_event decoded of
         None \<Rightarrow> Inr \<lparr>ho_effects = error_hooks, ho_quality = NoStateEffect\<rparr>
       | Some event \<Rightarrow>
           let predicted = predict_cold_skips (ae_updates event) state;
               predicted_verify = verify_slots_for_predicted_skips predicted;
               post_apply_repair = ea_after_apply adapter pool event predicted;
               repair = combine (combine (ae_repair event) post_apply_repair) predicted_verify
           in rbind (repair_effects keccak256 ctx pool event repair (has_skipped predicted) inst) (\<lambda>repairs.
              Inr \<lparr>ho_effects = error_hooks @ map EffectUpdate (ae_updates event) @ repairs
                     @ [EffectHook ''amm.event'' (EventSignal inst event)]
                     @ (if repair = NoRepair then [] else [repair_hook ''amm.repair.required'' inst repair]),
                   ho_quality = quality_for_event event (has_skipped predicted)\<rparr>))"

section \<open>The handlers\<close>

definition pool_source_matches ::
  "(log \<Rightarrow> pool_key option) \<Rightarrow> event_source \<Rightarrow> pool_key \<Rightarrow> log \<Rightarrow> bool" where
  "pool_source_matches adapter_route source pool log \<longleftrightarrow>
    (if src_emitter source \<noteq> log_address log \<or> \<not> matches_indexed_topics source (log_topics log) then False
     else if src_topics source \<noteq> []
        \<and> \<not> (case nth_opt (log_topics log) 0 of None \<Rightarrow> False | Some topic0 \<Rightarrow> topic0 \<in> set (src_topics source)) then False
     else if src_route source = AdapterDefined then adapter_route log = Some pool
     else event_source_matches source pool log)"

definition pool_handle ::
  "keccak \<Rightarrow> reactive_context \<Rightarrow> reactive_input \<Rightarrow> state_view \<Rightarrow> pool_registration \<Rightarrow> event_adapter \<Rightarrow> (log \<Rightarrow> pool_key option)
    \<Rightarrow> event_source list \<Rightarrow> pool_instance_id \<Rightarrow> evidence_stores \<Rightarrow> handler_outcome result" where
  "pool_handle keccak256 ctx input state pool adapter adapter_route sources inst stores =
    (case input of
       OtherInput \<Rightarrow> Inr outcome_empty
     | InputLog rpc_log \<Rightarrow>
         if rl_removed rpc_log \<or> \<not> list_ex (\<lambda>source. pool_source_matches adapter_route source (reg_key pool) (rl_inner rpc_log)) sources
         then Inr outcome_empty
         else handle_routed_log keccak256 ctx (rl_inner rpc_log) (rl_transaction_hash rpc_log) state pool adapter
                (Some inst) (Some stores))"

datatype log_route_key = EmitterKey address | TopicKey nat b256

definition indexed_address_topic :: "address \<Rightarrow> b256" where
  "indexed_address_topic address = ucast address"

definition source_route_key :: "pool_key \<Rightarrow> event_source \<Rightarrow> log_route_key option" where
  "source_route_key pool source =
    (case src_route source of
       Direct \<Rightarrow> Some (EmitterKey (src_emitter source))
     | IndexedAddress i \<Rightarrow> map_option (\<lambda>a. TopicKey i (indexed_address_topic a)) (key_address pool)
     | IndexedBytes32 i \<Rightarrow> map_option (TopicKey i) (key_bytes32 pool)
     | AdapterDefined \<Rightarrow> None)"

fun collect_route_keys :: "pool_key \<Rightarrow> event_source list \<Rightarrow> log_route_key list \<Rightarrow> log_route_key list option" where
  "collect_route_keys pool [] keys = Some keys"
| "collect_route_keys pool (source # sources) keys =
    (case source_route_key pool source of
       None \<Rightarrow> None
     | Some key \<Rightarrow> collect_route_keys pool sources (if key \<in> set keys then keys else keys @ [key]))"

definition log_route_index :: "pool_key \<Rightarrow> event_source list \<Rightarrow> (log_route_key \<times> log_route_key list) option" where
  "log_route_index pool sources =
    (case collect_route_keys pool sources [] of
       Some (primary # additional) \<Rightarrow> Some (primary, additional)
     | _ \<Rightarrow> None)"

section \<open>The store of fee evidence\<close>

definition MAX_SLIPSTREAM_FEE_EVIDENCE_PER_CHAIN :: nat where "MAX_SLIPSTREAM_FEE_EVIDENCE_PER_CHAIN = 2048"

text \<open>
  The key in the order of its fields, which is the order the map sorts by: chain, pool, block number, block hash,
  parent hash, transaction hash, transaction index, log index.
\<close>

type_synonym fee_key = "u64 \<times> address \<times> u64 \<times> b256 \<times> b256 \<times> b256 \<times> u64 \<times> u64"

definition fee_key_of :: "slipstream_swap_fee_evidence \<Rightarrow> fee_key" where
  "fee_key_of ev = (fee_chain_id ev, fee_pool ev, fee_block_number ev, fee_block_hash ev, fee_parent_hash ev,
     fee_transaction_hash ev, fee_transaction_index ev, fee_log_index ev)"

definition fee_key_from_context :: "address \<Rightarrow> adapter_event_context \<Rightarrow> fee_key option" where
  "fee_key_from_context pool context =
    Option.bind (ctx_chain_id context) (\<lambda>chain_id.
    Option.bind (ctx_block_number context) (\<lambda>block_number.
    Option.bind (ctx_block_hash context) (\<lambda>block_hash.
    Option.bind (ctx_parent_hash context) (\<lambda>parent_hash.
    Option.bind (ctx_transaction_hash context) (\<lambda>transaction_hash.
    Option.bind (ctx_transaction_index context) (\<lambda>transaction_index.
    Option.bind (ctx_log_index context) (\<lambda>log_index.
    Some (chain_id, pool, block_number, block_hash, parent_hash, transaction_hash, transaction_index, log_index))))))))"

fun key_chain :: "fee_key \<Rightarrow> u64" where "key_chain (c, _) = c"

fun key_block_number :: "fee_key \<Rightarrow> u64" where "key_block_number (_, _, n, _) = n"

fun key_block_hash :: "fee_key \<Rightarrow> b256" where "key_block_hash (_, _, _, h, _) = h"

text \<open>Age: block number, transaction index, log index, pool, block hash.\<close>

fun key_age :: "fee_key \<Rightarrow> u64 \<times> u64 \<times> u64 \<times> address \<times> b256" where
  "key_age (_, pool, number, hash, _, _, transaction_index, log_index) = (number, transaction_index, log_index, pool, hash)"

datatype fee_insert_outcome =
    Inserted
  | Replaced slipstream_swap_fee_evidence
  | InsertedAndEvicted slipstream_swap_fee_evidence
  | RejectedInvalid slipstream_fee_evidence_error
  | RejectedStaleAtCapacity slipstream_swap_fee_evidence

type_synonym fee_store = "(fee_key \<times> slipstream_swap_fee_evidence) list"

fun min_by_key :: "('a \<Rightarrow> 'b::linorder) \<Rightarrow> 'a list \<Rightarrow> 'a option" where
  "min_by_key f [] = None"
| "min_by_key f (x # xs) =
    (case min_by_key f xs of None \<Rightarrow> Some x | Some y \<Rightarrow> if f x \<le> f y then Some x else Some y)"

definition chain_keys :: "u64 \<Rightarrow> fee_store \<Rightarrow> fee_key list" where
  "chain_keys chain_id retained = filter (\<lambda>candidate. key_chain candidate = chain_id) (map fst retained)"

definition btree_remove :: "'k \<Rightarrow> ('k \<times> 'v) list \<Rightarrow> ('k \<times> 'v) list" where
  "btree_remove k m = filter (\<lambda>(k', _). k' \<noteq> k) m"

definition inject_slipstream_fee_evidence ::
  "fee_store \<Rightarrow> slipstream_swap_fee_evidence \<Rightarrow> (fee_insert_outcome \<times> fee_store) result" where
  "inject_slipstream_fee_evidence retained ev =
    (case evidence_validate ev of
       Inl err \<Rightarrow> Inr (RejectedInvalid err, retained)
     | Inr _ \<Rightarrow>
    (let key = fee_key_of ev
     in case map_of retained key of
         Some previous \<Rightarrow> Inr (Replaced previous, btree_insert key ev retained)
       | None \<Rightarrow>
           if length (chain_keys (fee_chain_id ev) retained) < MAX_SLIPSTREAM_FEE_EVIDENCE_PER_CHAIN
           then Inr (Inserted, btree_insert key ev retained)
           else
             rbind (expect (min_by_key key_age (chain_keys (fee_chain_id ev) retained))
                 ''per-chain evidence count reached the nonzero bound'') (\<lambda>oldest.
             if key_age key \<le> key_age oldest then Inr (RejectedStaleAtCapacity ev, retained)
             else
               rbind (expect (map_of retained oldest) ''selected evidence key is retained'') (\<lambda>evicted.
               Inr (InsertedAndEvicted evicted, btree_insert key ev (btree_remove oldest retained))))))"

definition remove_slipstream_fee_evidence ::
  "fee_store \<Rightarrow> slipstream_swap_fee_evidence \<Rightarrow> slipstream_swap_fee_evidence option \<times> fee_store" where
  "remove_slipstream_fee_evidence retained ev = (map_of retained (fee_key_of ev), btree_remove (fee_key_of ev) retained)"

definition prune_slipstream_fee_evidence :: "fee_store \<Rightarrow> u64 \<Rightarrow> u64 \<Rightarrow> nat \<times> fee_store" where
  "prune_slipstream_fee_evidence retained chain_id minimum_block =
    (let kept = filter (\<lambda>(key, _). key_chain key \<noteq> chain_id \<or> minimum_block \<le> key_block_number key) retained
     in (length retained - length kept, kept))"

definition retain_slipstream_fee_evidence_for_block :: "fee_store \<Rightarrow> u64 \<Rightarrow> u64 \<Rightarrow> b256 \<Rightarrow> nat \<times> fee_store" where
  "retain_slipstream_fee_evidence_for_block retained chain_id block_number canonical_hash =
    (let kept = filter (\<lambda>(key, _). key_chain key \<noteq> chain_id \<or> key_block_number key \<noteq> block_number
           \<or> key_block_hash key = canonical_hash) retained
     in (length retained - length kept, kept))"

definition slipstream_fee_evidence :: "fee_store \<Rightarrow> address \<Rightarrow> adapter_event_context \<Rightarrow> slipstream_swap_fee_evidence option" where
  "slipstream_fee_evidence retained pool context =
    Option.bind (fee_key_from_context pool context) (map_of retained)"

section \<open>Facts: repairs\<close>

lemma set_union_into [simp]: "set (union_into xs ys) = set xs \<union> set ys"
  unfolding union_into_def by (induction ys arbitrary: xs) auto

lemma distinct_union_into: "distinct xs \<Longrightarrow> distinct (union_into xs ys)"
  unfolding union_into_def by (induction ys arbitrary: xs) auto

lemma combine_NoRepair [simp]: "combine NoRepair r = r" "combine r NoRepair = r"
  by (simp_all add: combine_def)

lemma combine_VerifySlots:
  "\<exists>xs. combine r (VerifySlots slots) = VerifySlots xs \<and> set slots \<subseteq> set xs"
  by (cases r) (simp_all add: combine_def)

text \<open>The cells of the updates that the cache would skip.\<close>

definition cold_cells :: "state_view \<Rightarrow> state_update list \<Rightarrow> (address \<times> u256) set" where
  "cold_cells state us = {(a, k). state a k = None \<and> (\<exists>d. SlotDelta a k d \<in> set us \<or> (\<exists>m v. SlotMasked a k m v \<in> set us))}"

lemma fold_skip_update:
  "set (skipped_slots (fold (skip_update state) us diff)) = set (skipped_slots diff) \<union> cold_cells state us"
proof (induction us arbitrary: diff)
  case Nil
  then show ?case by (simp add: cold_cells_def)
next
  case (Cons u us)
  have "cold_cells state (u # us) = cold_cells state [u] \<union> cold_cells state us" by (auto simp: cold_cells_def)
  moreover have "set (skipped_slots (skip_update state u diff)) = set (skipped_slots diff) \<union> cold_cells state [u]"
    by (cases u) (auto simp: skipped_slots_def cold_cells_def)
  ultimately show ?case using Cons [of "skip_update state u diff"] by auto
qed

lemma set_skipped_slots_predict: "set (skipped_slots (predict_cold_skips us state)) = cold_cells state us"
  by (simp add: predict_cold_skips_def fold_skip_update) (simp add: skipped_slots_def)

lemma has_skipped_iff: "has_skipped diff \<longleftrightarrow> skipped_slots diff \<noteq> []"
  by (simp add: has_skipped_def skipped_slots_def)

lemma has_skipped_predict: "has_skipped (predict_cold_skips us state) \<longleftrightarrow> cold_cells state us \<noteq> {}"
  using set_skipped_slots_predict [of us state] by (auto simp: has_skipped_iff)

text \<open>The repair that a handler settles on covers every cell whose update is skipped.\<close>

lemma repair_covers_skips:
  assumes "cold_cells state us \<noteq> {}"
  shows "\<exists>slots. combine r (verify_slots_for_predicted_skips (predict_cold_skips us state)) = VerifySlots slots
    \<and> cold_cells state us \<subseteq> set slots"
proof -
  let ?s = "skipped_slots (predict_cold_skips us state)"
  have "?s \<noteq> []" "set ?s = cold_cells state us" using assms set_skipped_slots_predict [of us state] by auto
  then show ?thesis using combine_VerifySlots [of r ?s] by (auto simp: verify_slots_for_predicted_skips_def Let_def)
qed

section \<open>Facts: resync requests\<close>

definition grouped_cells :: "(address \<times> u256 list) list \<Rightarrow> (address \<times> u256) set" where
  "grouped_cells m = {(a, k). \<exists>slots. (a, slots) \<in> set m \<and> k \<in> set slots}"

lemma grouped_cells_map_of: "distinct (map fst m) \<Longrightarrow> grouped_cells m = {(a, k). \<exists>slots. map_of m a = Some slots \<and> k \<in> set slots}"
  by (auto simp: grouped_cells_def)

lemma group_slot_ok:
  assumes "btree_ok m" "\<forall>slots \<in> snd ` set m. distinct slots"
  shows "btree_ok (group_slot cell m) \<and> (\<forall>slots \<in> snd ` set (group_slot cell m). distinct slots)
    \<and> grouped_cells (group_slot cell m) = insert cell (grouped_cells m)"
proof -
  obtain a k where cell: "cell = (a, k)" by (cases cell)
  define entry where "entry = (case map_of m a of Some slots \<Rightarrow> slots | None \<Rightarrow> [])"
  define entry' where "entry' = (if k \<in> set entry then entry else entry @ [k])"
  have g: "group_slot cell m = btree_insert a entry' m" by (simp only: group_slot_def cell prod.case Let_def entry_def entry'_def)
  have ok: "btree_ok (group_slot cell m)" using assms(1) by (simp add: g)
  have "distinct entry" using assms(2) by (fastforce simp: entry_def dest: map_of_SomeD split: option.splits)
  then have "distinct entry'" by (simp add: entry'_def)
  then have d: "\<forall>slots \<in> snd ` set (group_slot cell m). distinct slots"
    using assms(2) set_btree_insert [of a entry' m] unfolding g by fastforce
  have "set entry' = insert k (set entry)" by (auto simp: entry'_def)
  moreover have "grouped_cells (group_slot cell m) = {(b, x). \<exists>slots. ((map_of m)(a \<mapsto> entry')) b = Some slots \<and> x \<in> set slots}"
    using grouped_cells_map_of [OF btree_ok_distinct [OF ok]] by (simp add: g map_of_btree_insert)
  ultimately have "grouped_cells (group_slot cell m) = insert cell (grouped_cells m)"
    using grouped_cells_map_of [OF btree_ok_distinct [OF assms(1)]]
    by (auto simp: cell entry_def split: option.splits if_splits)
  with ok d show ?thesis by blast
qed

lemma fold_group_slot:
  assumes "btree_ok m" "\<forall>slots \<in> snd ` set m. distinct slots"
  shows "btree_ok (fold group_slot cells m) \<and> (\<forall>slots \<in> snd ` set (fold group_slot cells m). distinct slots)
    \<and> grouped_cells (fold group_slot cells m) = set cells \<union> grouped_cells m"
  using assms
proof (induction cells arbitrary: m)
  case (Cons c cells)
  from group_slot_ok [OF Cons.prems, of c] Cons.IH [of "group_slot c m"] show ?case by auto
qed simp

definition resync_cells :: "reactive_effect list \<Rightarrow> (address \<times> u256) set" where
  "resync_cells effects = {(a, k). \<exists>rq. EffectResync rq \<in> set effects \<and> rq_address rq = a \<and> k \<in> set (rq_slots rq)}"

text \<open>One request per account, in the order of the accounts, each with its slots sorted and once.\<close>

lemma verify_slot_resyncs_cells:
  "resync_cells (verify_slot_resyncs ctx event slots reason inst) = set slots"
  "\<forall>e \<in> set (verify_slot_resyncs ctx event slots reason inst).
    \<exists>rq. e = EffectResync rq \<and> rq_block rq = resync_block_of ctx \<and> sorted (rq_slots rq) \<and> distinct (rq_slots rq)"
proof -
  have g: "btree_ok (fold group_slot slots [])" "\<forall>xs \<in> snd ` set (fold group_slot slots []). distinct xs"
    "grouped_cells (fold group_slot slots []) = set slots"
    using fold_group_slot [of "[]" slots] by (auto simp: grouped_cells_def)
  show "resync_cells (verify_slot_resyncs ctx event slots reason inst) = set slots"
    unfolding g(3) [symmetric] by (force simp: resync_cells_def verify_slot_resyncs_def grouped_cells_def Let_def)
  show "\<forall>e \<in> set (verify_slot_resyncs ctx event slots reason inst).
    \<exists>rq. e = EffectResync rq \<and> rq_block rq = resync_block_of ctx \<and> sorted (rq_slots rq) \<and> distinct (rq_slots rq)"
    using g(2) by (auto simp: verify_slot_resyncs_def Let_def)
qed

section \<open>Facts: the handler\<close>

lemma strict_sorted_remdups: "distinct (remdups_adj (sort xs))"
  using sorted_remdups_adj_strict [of "sort xs"] by (simp add: strict_sorted_iff)

lemma no_panic_v3_tick_range_slots: "0 < tick_spacing layout \<Longrightarrow> no_panic (v3_tick_range_slots keccak256 layout lower upper)"
  by (simp add: v3_tick_range_slots_def v3_word_position_def Let_def)

lemma v3_tick_range_slots_facts:
  assumes "0 < tick_spacing layout"
  shows "\<exists>slots. v3_tick_range_slots keccak256 layout lower upper = Inr slots \<and> sorted slots \<and> distinct slots
    \<and> (\<forall>tick \<in> {lower, upper}. set (v3_tick_info_storage_keys_with_base keccak256 tick (ticks_base_slot layout)) \<subseteq> set slots
        \<and> v3_tick_bitmap_storage_key_with_base keccak256 (word_of_int (tick div tick_spacing layout div 256)) (tick_bitmap_base_slot layout) \<in> set slots)
    \<and> liquidity_slot layout \<in> set slots"
  using assms by (auto simp: v3_tick_range_slots_def v3_word_position_def Let_def strict_sorted_remdups)

lemma rbind_total: "\<exists>x. m = Inr x \<Longrightarrow> (\<And>x. \<exists>y. f x = Inr y) \<Longrightarrow> \<exists>y. rbind m f = Inr y"
  by auto

lemma repair_effects_Inr: "\<exists>effects. repair_effects keccak256 ctx pool event repair skipped inst = Inr effects"
proof (cases repair)
  case (V3TickRange _ lower upper)
  then show ?thesis
    using v3_tick_range_slots_facts [of "the (layout_for pool)" keccak256 lower upper] layout_for_SomeD(1) [of pool]
    by (auto simp: repair_effects_def v3_tick_range_effects_def Let_def simp del: layout_for.simps split: option.splits)
qed (simp_all add: repair_effects_def)

definition outcome_updates :: "reactive_effect list \<Rightarrow> state_update list" where
  "outcome_updates effects = List.map_filter (\<lambda>e. case e of EffectUpdate u \<Rightarrow> Some u | _ \<Rightarrow> None) effects"

lemma outcome_updates_append [simp]: "outcome_updates (xs @ ys) = outcome_updates xs @ outcome_updates ys"
  by (simp add: outcome_updates_def map_filter_def)

lemma outcome_updates_simps [simp]:
  "outcome_updates [] = []" "outcome_updates (EffectUpdate u # es) = u # outcome_updates es"
  "outcome_updates (EffectResync rq # es) = outcome_updates es"
  "outcome_updates (EffectInvalidate a s # es) = outcome_updates es"
  "outcome_updates (EffectHook kind sig # es) = outcome_updates es"
  by (simp_all add: outcome_updates_def List.map_filter_simps)

lemma outcome_updates_map [simp]: "outcome_updates (map EffectUpdate us) = us"
  by (induction us) simp_all

lemma outcome_updates_none: "(\<And>e. e \<in> set es \<Longrightarrow> \<nexists>u. e = EffectUpdate u) \<Longrightarrow> outcome_updates es = []"
  by (induction es) (auto simp: outcome_updates_def List.map_filter_simps split: reactive_effect.splits)

lemma repair_effects_no_update:
  "repair_effects keccak256 ctx pool event repair skipped inst = Inr es \<Longrightarrow> outcome_updates es = []"
  by (intro outcome_updates_none, cases repair)
    (auto simp: repair_effects_def v3_tick_range_effects_def verify_slot_resyncs_def repair_hook_def Let_def
      simp del: layout_for.simps split: option.splits)

lemma resync_cells_append: "resync_cells (xs @ ys) = resync_cells xs \<union> resync_cells ys"
  by (auto simp: resync_cells_def)

text \<open>Every log yields an outcome: the only abort in reach, that of a word position, cannot happen.\<close>

lemma handle_routed_log_Inr:
  "\<exists>out. handle_routed_log keccak256 ctx log transaction_hash state pool adapter inst routing = Inr out"
  unfolding handle_routed_log_def Let_def
proof (cases "aer_event (ea_decode adapter pool log state (routed_context routing pool (event_context ctx transaction_hash)))", goal_cases)
  case (2 event)
  show ?case unfolding 2 option.case by (rule rbind_total [OF repair_effects_Inr]) blast
qed simp

text \<open>
  An outcome carries exactly the updates of the event, re-reads every cell whose update the cache would skip, and
  names itself exact only when nothing is skipped.
\<close>

lemma handle_routed_log_event:
  assumes "handle_routed_log keccak256 ctx log transaction_hash state pool adapter inst routing = Inr out"
    and "aer_event (ea_decode adapter pool log state (routed_context routing pool (event_context ctx transaction_hash))) = Some event"
  shows "outcome_updates (ho_effects out) = ae_updates event" "cold_cells state (ae_updates event) \<subseteq> resync_cells (ho_effects out)"
    "ho_quality out = quality_for_event event (cold_cells state (ae_updates event) \<noteq> {})"
proof -
  define predicted where "predicted = predict_cold_skips (ae_updates event) state"
  define pre where "pre = combine (ae_repair event) (ea_after_apply adapter pool event predicted)"
  define repair where "repair = combine pre (verify_slots_for_predicted_skips predicted)"
  define hooks where "hooks = (case aer_error (ea_decode adapter pool log state (routed_context routing pool (event_context ctx transaction_hash))) of
      None \<Rightarrow> [] | Some err \<Rightarrow> [EffectHook ''amm.decode_error'' (DecodeErrorSignal inst (reg_key pool) err)])"
  obtain es where es: "repair_effects keccak256 ctx pool event repair (has_skipped predicted) inst = Inr es"
    using repair_effects_Inr by blast
  have out: "out = \<lparr>ho_effects = hooks @ map EffectUpdate (ae_updates event) @ es @ [EffectHook ''amm.event'' (EventSignal inst event)]
      @ (if repair = NoRepair then [] else [repair_hook ''amm.repair.required'' inst repair]),
      ho_quality = quality_for_event event (has_skipped predicted)\<rparr>"
    using assms(1) es unfolding handle_routed_log_def Let_def assms(2) option.case predicted_def [symmetric]
      pre_def [symmetric] repair_def [symmetric] hooks_def [symmetric] by simp
  have "outcome_updates hooks = []" by (simp add: hooks_def split: option.split)
  then show "outcome_updates (ho_effects out) = ae_updates event"
    using repair_effects_no_update [OF es] by (simp add: out repair_hook_def)
  show "ho_quality out = quality_for_event event (cold_cells state (ae_updates event) \<noteq> {})"
    by (simp add: out predicted_def has_skipped_predict)
  show "cold_cells state (ae_updates event) \<subseteq> resync_cells (ho_effects out)"
  proof (cases "cold_cells state (ae_updates event) = {}")
    case False
    then obtain slots where s: "repair = VerifySlots slots" "cold_cells state (ae_updates event) \<subseteq> set slots"
      using repair_covers_skips [of state "ae_updates event" pre] by (auto simp: repair_def predicted_def)
    then have "resync_cells es = set slots" using es by (auto simp: repair_effects_def verify_slot_resyncs_cells)
    with s show ?thesis by (auto simp: out resync_cells_append)
  qed simp
qed

text \<open>A log that decodes to no event changes nothing, whatever the error.\<close>

lemma handle_routed_log_no_event:
  assumes "handle_routed_log keccak256 ctx log transaction_hash state pool adapter inst routing = Inr out"
    and "aer_event (ea_decode adapter pool log state (routed_context routing pool (event_context ctx transaction_hash))) = None"
  shows "outcome_updates (ho_effects out) = []" "ho_quality out = NoStateEffect" "resync_cells (ho_effects out) = {}"
  using assms by (auto simp: handle_routed_log_def Let_def resync_cells_def split: option.splits)

section \<open>Facts: routing\<close>

definition route_key_hits :: "log \<Rightarrow> log_route_key \<Rightarrow> bool" where
  "route_key_hits log key =
    (case key of EmitterKey a \<Rightarrow> log_address log = a | TopicKey i v \<Rightarrow> nth_opt (log_topics log) i = Some v)"

text \<open>Topics that hold an address are zero-extended, as the ABI writes them.\<close>

definition clean_address_topics :: "event_source \<Rightarrow> log \<Rightarrow> bool" where
  "clean_address_topics source log \<longleftrightarrow>
    (case src_route source of
       IndexedAddress i \<Rightarrow> (\<forall>t. nth_opt (log_topics log) i = Some t \<longrightarrow> indexed_address_topic (topic_address t) = t)
     | _ \<Rightarrow> True)"

lemma collect_route_keys_set:
  "collect_route_keys pool sources keys = Some ks \<Longrightarrow> set ks = set keys \<union> {k. \<exists>s \<in> set sources. source_route_key pool s = Some k}"
  by (induction sources arbitrary: keys) (auto split: option.splits if_splits)

lemma source_route_key_hits:
  assumes "source_route_key pool source = Some key" "pool_source_matches adapter_route source pool log" "clean_address_topics source log"
  shows "route_key_hits log key"
  using assms
  by (auto simp: source_route_key_def pool_source_matches_def event_source_matches_def clean_address_topics_def route_key_hits_def
      split: event_route.splits option.splits if_splits)

lemma log_route_index_complete:
  assumes "log_route_index pool sources = Some (primary, additional)" "source \<in> set sources"
    and "pool_source_matches adapter_route source pool log" "clean_address_topics source log"
  shows "\<exists>key \<in> set (primary # additional). route_key_hits log key"
proof -
  have c: "collect_route_keys pool sources [] = Some (primary # additional)"
    using assms(1) by (auto simp: log_route_index_def split: option.splits list.splits)
  have all: "\<forall>s \<in> set sources. \<exists>k. source_route_key pool s = Some k" if "collect_route_keys pool sources keys = Some ks" for keys ks
    using that by (induction sources arbitrary: keys) (auto split: option.splits)
  obtain key where k: "source_route_key pool source = Some key" using all [OF c] assms(2) by blast
  then have "key \<in> set (primary # additional)" using collect_route_keys_set [OF c] assms(2) by auto
  then show ?thesis using source_route_key_hits [OF k assms(3,4)] by blast
qed

section \<open>Facts: the store of fee evidence\<close>

definition fee_store_ok :: "fee_store \<Rightarrow> bool" where
  "fee_store_ok m \<longleftrightarrow> btree_ok m \<and> (\<forall>(k, ev) \<in> set m. k = fee_key_of ev \<and> evidence_validate ev = Inr ())
    \<and> (\<forall>c. length (chain_keys c m) \<le> MAX_SLIPSTREAM_FEE_EVIDENCE_PER_CHAIN)"

lemma min_by_key_Some:
  "xs \<noteq> [] \<Longrightarrow> \<exists>x. min_by_key f xs = Some x \<and> x \<in> set xs \<and> (\<forall>y \<in> set xs. f x \<le> f y)"
proof (induction xs)
  case (Cons a xs)
  show ?case
  proof (cases xs)
    case (Cons b ys)
    then obtain x where "min_by_key f xs = Some x" "x \<in> set xs" "\<forall>y \<in> set xs. f x \<le> f y" using Cons.IH by auto
    then show ?thesis by (auto intro: order_trans)
  qed simp
qed simp

lemma map_of_btree_remove: "map_of (btree_remove k m) = (map_of m)(k := None)"
  unfolding btree_remove_def by (induction m) (auto simp: fun_eq_iff)

lemma btree_ok_filter: "btree_ok m \<Longrightarrow> btree_ok (filter P m)"
proof -
  assume "btree_ok m"
  moreover have "sorted (map fst xs) \<and> distinct (map fst xs) \<Longrightarrow> sorted (map fst (filter P xs)) \<and> distinct (map fst (filter P xs))" for xs
    by (induction xs) auto
  ultimately show ?thesis by (simp add: btree_ok_def)
qed

lemma keys_btree_insert: "fst ` set (btree_insert k v m) = insert k (fst ` set m)"
  by (metis dom_fun_upd dom_map_of_conv_image_fst map_of_btree_insert option.discI)

lemma length_chain_keys: "btree_ok m \<Longrightarrow> length (chain_keys c m) = card {k \<in> fst ` set m. key_chain k = c}"
proof -
  assume "btree_ok m"
  then have "distinct (chain_keys c m)" by (simp add: chain_keys_def btree_ok_def)
  moreover have "set (chain_keys c m) = {k \<in> fst ` set m. key_chain k = c}" by (auto simp: chain_keys_def)
  ultimately show ?thesis using distinct_card [of "chain_keys c m"] by simp
qed

lemma Collect_insert_if: "{x \<in> insert a A. P x} = (if P a then insert a {x \<in> A. P x} else {x \<in> A. P x})"
  by auto

lemma chain_keys_insert:
  assumes "btree_ok m"
  shows "length (chain_keys c (btree_insert k v m)) =
    length (chain_keys c m) + (if key_chain k = c \<and> k \<notin> fst ` set m then 1 else 0)"
proof -
  note Collect_insert_if [of k "fst ` set m" "\<lambda>x. key_chain x = c"]
  moreover have "finite {x \<in> fst ` set m. key_chain x = c}" by simp
  ultimately show ?thesis
    unfolding length_chain_keys [OF assms] length_chain_keys [OF btree_ok_insert [OF assms]] keys_btree_insert
    by (simp only: card_insert_if if_distrib [of card] mem_Collect_eq) (simp split: if_split)
qed

lemma chain_keys_filter: "length (chain_keys c (filter P m)) \<le> length (chain_keys c m)"
proof -
  have "chain_keys c (filter P m) = map fst (filter (\<lambda>x. key_chain (fst x) = c) (filter P m))"
    "chain_keys c m = map fst (filter (\<lambda>x. key_chain (fst x) = c) m)" for P
    by (simp_all add: chain_keys_def filter_map comp_def)
  then have "length (chain_keys c (filter P m)) = length (filter P (filter (\<lambda>x. key_chain (fst x) = c) m))"
    "length (chain_keys c m) = length (filter (\<lambda>x. key_chain (fst x) = c) m)" by (simp_all add: conj_commute)
  then show ?thesis using length_filter_le by metis
qed

lemma fee_store_ok_filter: "fee_store_ok m \<Longrightarrow> fee_store_ok (filter P m)"
  by (auto simp: fee_store_ok_def btree_ok_filter intro: order_trans [OF chain_keys_filter])

lemma fee_store_ok_remove: "fee_store_ok m \<Longrightarrow> fee_store_ok (btree_remove k m)"
  unfolding btree_remove_def by (rule fee_store_ok_filter)

lemma fee_store_ok_insert:
  assumes "fee_store_ok m" "evidence_validate ev = Inr ()"
    and "map_of m (fee_key_of ev) \<noteq> None \<or> length (chain_keys (fee_chain_id ev) m) < MAX_SLIPSTREAM_FEE_EVIDENCE_PER_CHAIN"
  shows "fee_store_ok (btree_insert (fee_key_of ev) ev m)"
proof -
  have m: "btree_ok m" "\<forall>(k, ev) \<in> set m. k = fee_key_of ev \<and> evidence_validate ev = Inr ()"
    "\<forall>c. length (chain_keys c m) \<le> MAX_SLIPSTREAM_FEE_EVIDENCE_PER_CHAIN" using assms(1) by (simp_all add: fee_store_ok_def)
  have "\<forall>(k, ev) \<in> set (btree_insert (fee_key_of ev) ev m). k = fee_key_of ev \<and> evidence_validate ev = Inr ()"
    using m(2) assms(2) set_btree_insert [of "fee_key_of ev" ev m] by blast
  moreover have "length (chain_keys c (btree_insert (fee_key_of ev) ev m)) \<le> MAX_SLIPSTREAM_FEE_EVIDENCE_PER_CHAIN" for c
  proof (cases "key_chain (fee_key_of ev) = c \<and> fee_key_of ev \<notin> fst ` set m")
    case True
    then have "map_of m (fee_key_of ev) = None" by (simp add: map_of_eq_None_iff)
    with assms(3) True show ?thesis by (simp add: chain_keys_insert [OF m(1)] fee_key_of_def)
  next
    case False
    then show ?thesis using m(3) unfolding chain_keys_insert [OF m(1)] if_not_P [OF False] by simp
  qed
  ultimately show ?thesis using m(1) by (simp add: fee_store_ok_def)
qed

lemma inject_ok:
  assumes "fee_store_ok m"
  shows "\<exists>outcome m'. inject_slipstream_fee_evidence m ev = Inr (outcome, m') \<and> fee_store_ok m'"
proof (cases "evidence_validate ev")
  case (Inl err)
  then show ?thesis using assms by (simp add: inject_slipstream_fee_evidence_def)
next
  case valid: (Inr u)
  then have v: "evidence_validate ev = Inr ()" by simp
  define keys where "keys = chain_keys (fee_chain_id ev) m"
  show ?thesis
  proof (cases "map_of m (fee_key_of ev) \<noteq> None \<or> length keys < MAX_SLIPSTREAM_FEE_EVIDENCE_PER_CHAIN")
    case True
    then have "fee_store_ok (btree_insert (fee_key_of ev) ev m)"
      using fee_store_ok_insert [OF assms v] by (simp add: keys_def)
    then show ?thesis using True by (auto simp: inject_slipstream_fee_evidence_def v keys_def Let_def split: option.split)
  next
    case False
    then have none: "map_of m (fee_key_of ev) = None" and full: "length keys = MAX_SLIPSTREAM_FEE_EVIDENCE_PER_CHAIN"
      using assms by (auto simp: fee_store_ok_def keys_def le_antisym not_less)
    then have "keys \<noteq> []" by (auto simp: MAX_SLIPSTREAM_FEE_EVIDENCE_PER_CHAIN_def)
    then obtain oldest where o': "min_by_key key_age keys = Some oldest" "oldest \<in> set keys" using min_by_key_Some by blast
    then have "oldest \<in> fst ` set m" "key_chain oldest = fee_chain_id ev" by (auto simp: keys_def chain_keys_def)
    then obtain evicted where e: "map_of m oldest = Some evicted" by (metis map_of_eq_None_iff option.exhaust)
    have "length (chain_keys (fee_chain_id ev) (btree_remove oldest m)) < length keys"
    proof -
      have "chain_keys (fee_chain_id ev) (btree_remove oldest m) = filter (\<lambda>k. k \<noteq> oldest) keys"
        unfolding keys_def chain_keys_def btree_remove_def by (induction m) auto
      then show ?thesis using o'(2) length_filter_less [of oldest keys] by simp
    qed
    moreover have "fee_store_ok (btree_remove oldest m)" using assms by (rule fee_store_ok_remove)
    ultimately have "fee_store_ok (btree_insert (fee_key_of ev) ev (btree_remove oldest m))"
      using fee_store_ok_insert [of "btree_remove oldest m" ev] v full by simp
    then show ?thesis using assms none full o'(1) e
      by (auto simp: inject_slipstream_fee_evidence_def v keys_def Let_def)
  qed
qed

text \<open>What an injection leaves in the store, by its outcome.\<close>

lemma inject_effect:
  assumes "inject_slipstream_fee_evidence m ev = Inr (outcome, m')"
  shows "case outcome of
      Inserted \<Rightarrow> map_of m (fee_key_of ev) = None \<and> map_of m' = (map_of m)(fee_key_of ev \<mapsto> ev)
    | Replaced previous \<Rightarrow> map_of m (fee_key_of ev) = Some previous \<and> map_of m' = (map_of m)(fee_key_of ev \<mapsto> ev)
    | InsertedAndEvicted evicted \<Rightarrow> map_of m (fee_key_of ev) = None
        \<and> (\<exists>oldest. map_of m oldest = Some evicted \<and> key_chain oldest = fee_chain_id ev
          \<and> (\<forall>k \<in> set (chain_keys (fee_chain_id ev) m). key_age oldest \<le> key_age k) \<and> key_age oldest < key_age (fee_key_of ev)
          \<and> map_of m' = (map_of m)(oldest := None, fee_key_of ev \<mapsto> ev))
    | RejectedInvalid err \<Rightarrow> evidence_validate ev = Inl err \<and> m' = m
    | RejectedStaleAtCapacity stale \<Rightarrow> stale = ev \<and> m' = m"
proof (cases "evidence_validate ev")
  case (Inl err)
  then show ?thesis using assms by (auto simp: inject_slipstream_fee_evidence_def)
next
  case (Inr u)
  define keys where "keys = chain_keys (fee_chain_id ev) m"
  note run = assms [unfolded inject_slipstream_fee_evidence_def Inr sum.case Let_def keys_def [symmetric]]
  show ?thesis
  proof (cases "map_of m (fee_key_of ev)")
    case (Some previous)
    then show ?thesis using run by (auto simp: map_of_btree_insert)
  next
    case None
    show ?thesis
    proof (cases "length keys < MAX_SLIPSTREAM_FEE_EVIDENCE_PER_CHAIN")
      case True
      then show ?thesis using run None by (auto simp: map_of_btree_insert)
    next
      case False
      then obtain oldest where o': "min_by_key key_age keys = Some oldest" using run None by auto
      show ?thesis
      proof (cases "key_age (fee_key_of ev) \<le> key_age oldest")
        case True
        then show ?thesis using run None False o' by auto
      next
        case older: False
        then obtain evicted where e: "map_of m oldest = Some evicted" "outcome = InsertedAndEvicted evicted"
          "m' = btree_insert (fee_key_of ev) ev (btree_remove oldest m)"
          using run None False o' by auto
        have "keys \<noteq> []" using o' by auto
        then have "oldest \<in> set keys" "\<forall>k \<in> set keys. key_age oldest \<le> key_age k" using min_by_key_Some [of keys key_age] o' by auto
        moreover have "key_chain oldest = fee_chain_id ev" using calculation(1) by (simp add: keys_def chain_keys_def)
        ultimately have "\<exists>oldest. map_of m oldest = Some evicted \<and> key_chain oldest = fee_chain_id ev
            \<and> (\<forall>k \<in> set keys. key_age oldest \<le> key_age k) \<and> key_age oldest < key_age (fee_key_of ev)
            \<and> map_of m' = (map_of m)(oldest := None, fee_key_of ev \<mapsto> ev)"
          using e(1,3) older by (intro exI [of _ oldest]) (simp add: map_of_btree_insert map_of_btree_remove not_le)
        then show ?thesis unfolding e(2) fee_insert_outcome.case keys_def [symmetric] using None by blast
      qed
    qed
  qed
qed

text \<open>The lookup of the handler is by the exact position of the event.\<close>

lemma slipstream_fee_evidence_Some:
  assumes "fee_store_ok m" "slipstream_fee_evidence m pool context = Some ev"
  shows "fee_pool ev = pool \<and> evidence_validate ev = Inr ()
    \<and> ctx_chain_id context = Some (fee_chain_id ev) \<and> ctx_block_number context = Some (fee_block_number ev)
    \<and> ctx_block_hash context = Some (fee_block_hash ev) \<and> ctx_parent_hash context = Some (fee_parent_hash ev)
    \<and> ctx_transaction_hash context = Some (fee_transaction_hash ev)
    \<and> ctx_transaction_index context = Some (fee_transaction_index ev) \<and> ctx_log_index context = Some (fee_log_index ev)"
proof -
  obtain k where k: "fee_key_from_context pool context = Some k" "map_of m k = Some ev"
    using assms(2) by (auto simp: slipstream_fee_evidence_def bind_eq_Some_conv)
  have "k = fee_key_of ev" "evidence_validate ev = Inr ()"
    using assms(1) map_of_SomeD [OF k(2)] by (auto simp: fee_store_ok_def)
  then show ?thesis using k(1) by (auto simp: fee_key_from_context_def fee_key_of_def bind_eq_Some_conv)
qed

end
