(* ===== verification/Concentrated_Liquidity.thy ===== *)
theory Concentrated_Liquidity
  imports Reactive V3_Accounting V3_Swap_Facts Slipstream_Facts Slipstream_Liquidity
begin

text \<open>
  The adapter of the concentrated-liquidity pools, \<open>src/adapters/uniswap_v3.rs\<close>: event sources, state dependencies,
  the capabilities that gate a replay, the decoding of every event that mutates a pool, and the repair after a partly
  applied batch. Canonical Uniswap V3 pools and the reviewed Slipstream pools reach the transitions of the previous
  theories; every other pool is invalidated. The cold-start planner of the same file is in \<open>V3_Planner\<close>.

  The signature hashes of the events and the validating decoders that the \<open>sol!\<close> macro generates are fields of
  \<open>v3_abi\<close>; of a decoder only whether it accepts the log matters. Quoting and the pool factories are not part of this
  theory; the evaluation of the unstaked fee on an EVM snapshot is in \<open>Fee_Evaluation\<close>.
\<close>

unbundle bit_operations_syntax

section \<open>The ABI of the pools\<close>

record v3_abi =
  h_initialize :: b256
  h_swap :: b256
  h_mint :: b256
  h_collect :: b256
  h_burn :: b256
  h_flash :: b256
  h_growth :: b256
  h_set_fee_protocol :: b256
  h_collect_protocol :: b256
  h_pancake_swap :: b256
  ok_swap :: "log \<Rightarrow> bool"
  ok_pancake_swap :: "log \<Rightarrow> bool"
  ok_mint :: "log \<Rightarrow> bool"
  ok_burn :: "log \<Rightarrow> bool"
  ok_collect :: "log \<Rightarrow> bool"
  ok_flash :: "log \<Rightarrow> bool"
  ok_growth :: "log \<Rightarrow> bool"
  ok_set_fee_protocol :: "log \<Rightarrow> bool"
  ok_collect_protocol :: "log \<Rightarrow> bool"

section \<open>Metadata and topics\<close>

definition v3_protocols :: "protocol_id list" where
  "v3_protocols = [UniswapV3, PancakeV3, Slipstream]"

definition pool_v3_metadata :: "pool_registration \<Rightarrow> v3_metadata option" where
  "pool_v3_metadata pool =
    (case reg_metadata pool of
       UniswapV3Meta m \<Rightarrow> Some m
     | PancakeV3Meta m \<Rightarrow> Some m
     | SlipstreamMeta m \<Rightarrow> Some m
     | _ \<Rightarrow> None)"

definition pool_v3_fee :: "pool_registration \<Rightarrow> u32 option" where
  "pool_v3_fee pool = Option.bind (pool_v3_metadata pool) v3_fee"

definition pool_warm_word_radius :: "pool_registration \<Rightarrow> i16 option" where
  "pool_warm_word_radius pool = Option.bind (pool_v3_metadata pool) v3_warm_word_radius"

definition swap_topic_for :: "v3_abi \<Rightarrow> protocol_id \<Rightarrow> b256" where
  "swap_topic_for abi protocol = (case protocol of PancakeV3 \<Rightarrow> h_pancake_swap abi | _ \<Rightarrow> h_swap abi)"

definition canonical_v3_non_swap_mutation_topics :: "v3_abi \<Rightarrow> b256 list" where
  "canonical_v3_non_swap_mutation_topics abi =
    [h_initialize abi, h_mint abi, h_collect abi, h_burn abi, h_flash abi, h_growth abi, h_set_fee_protocol abi,
     h_collect_protocol abi]"

definition v3_mutating_event_topics :: "v3_abi \<Rightarrow> protocol_id \<Rightarrow> b256 list" where
  "v3_mutating_event_topics abi protocol = swap_topic_for abi protocol # canonical_v3_non_swap_mutation_topics abi"

definition canonical_v3_accounting_topics :: "v3_abi \<Rightarrow> b256 list" where
  "canonical_v3_accounting_topics abi = [h_flash abi, h_set_fee_protocol abi, h_collect_protocol abi, h_growth abi]"

section \<open>Sources and routing\<close>

definition v3_route_log :: "pool_key list \<Rightarrow> 'acc adapter_registry \<Rightarrow> log \<Rightarrow> pool_key option" where
  "v3_route_log order registry log =
    (case staking_route log (pools registry) of
       Some key \<Rightarrow> Some key
     | None \<Rightarrow> map_option reg_key (route_log_generic order registry log))"

definition v3_event_sources :: "v3_abi \<Rightarrow> staking_topics \<Rightarrow> pool_registration \<Rightarrow> event_source list" where
  "v3_event_sources abi sigs pool =
    (case staking_sources sigs pool (v3_mutating_event_topics abi (reg_protocol pool)) of
       Some sources \<Rightarrow> sources
     | None \<Rightarrow> (case key_address (reg_key pool) of
           None \<Rightarrow> []
         | Some address \<Rightarrow> [source_direct address (v3_mutating_event_topics abi (reg_protocol pool))]))"

section \<open>The reviewed fee runtimes\<close>

record reviewed_fee_runtime =
  rfr_chain_id :: u64
  rfr_pool :: address
  rfr_factory :: address
  rfr_proxy_runtime_code_hash :: b256
  rfr_implementation :: address
  rfr_implementation_runtime_code_hash :: b256
  rfr_factory_runtime_code_hash :: b256
  rfr_voter :: address
  rfr_voter_runtime_code_hash :: b256
  rfr_gauge :: address
  rfr_module :: address
  rfr_module_runtime_code_hash :: b256

definition SLIPSTREAM_VOTER_GAUGES_SLOT :: u64 where "SLIPSTREAM_VOTER_GAUGES_SLOT = 8"
definition SLIPSTREAM_VOTER_IS_ALIVE_SLOT :: u64 where "SLIPSTREAM_VOTER_IS_ALIVE_SLOT = 20"
definition SLIPSTREAM_FACTORY_UNSTAKED_FEE_MODULE_SLOT :: u64 where "SLIPSTREAM_FACTORY_UNSTAKED_FEE_MODULE_SLOT = 4"
definition SLIPSTREAM_FEE_MODULE_OVERRIDES_SLOT :: u64 where "SLIPSTREAM_FEE_MODULE_OVERRIDES_SLOT = 1"

definition solidity_address_mapping_key :: "keccak \<Rightarrow> address \<Rightarrow> u64 \<Rightarrow> u256" where
  "solidity_address_mapping_key keccak256 key mapping_slot =
    keccak256 (replicate 12 0 @ log_address_bytes key @ to_be_bytes32 (ucast mapping_slot))"

definition reviewed_slipstream_fee_storage_targets :: "keccak \<Rightarrow> reviewed_fee_runtime \<Rightarrow> (address \<times> u256) list" where
  "reviewed_slipstream_fee_storage_targets keccak256 reviewed =
    [(rfr_factory reviewed, ucast SLIPSTREAM_FACTORY_UNSTAKED_FEE_MODULE_SLOT),
     (rfr_voter reviewed, solidity_address_mapping_key keccak256 (rfr_pool reviewed) SLIPSTREAM_VOTER_GAUGES_SLOT),
     (rfr_voter reviewed, solidity_address_mapping_key keccak256 (rfr_gauge reviewed) SLIPSTREAM_VOTER_IS_ALIVE_SLOT),
     (rfr_module reviewed, solidity_address_mapping_key keccak256 (rfr_pool reviewed) SLIPSTREAM_FEE_MODULE_OVERRIDES_SLOT)]"

fun reviewed_slipstream_fee_runtime :: "slipstream_runtime_family \<Rightarrow> reviewed_fee_runtime" where
  "reviewed_slipstream_fee_runtime AerodromeBaseBifi = \<lparr>
     rfr_chain_id = 8453,
     rfr_pool = 0xb378137c90444bbcecd44a1f766851fbf53d2a9e,
     rfr_factory = 0x5e7bb104d84c7cb9b682aac2f3d509f5f406809a,
     rfr_proxy_runtime_code_hash = 0xacd6710f7037ad095b1e4d5f8ee5b2681069cb4dd316e77e4e0cb8f85716a2a1,
     rfr_implementation = 0xec8e5342b19977b4ef8892e02d8daecfa1315831,
     rfr_implementation_runtime_code_hash = 0x772fb5c610b40a122036f544e5b9b5bce6becb19db9524331289d1aaed2d5888,
     rfr_factory_runtime_code_hash = 0x7340cf80843bd721bcaefbfc050e38304cb4174c239e6e914e3056f27f39b11c,
     rfr_voter = 0x16613524e02ad97edfeF371bC883F2F5d6C480A5,
     rfr_voter_runtime_code_hash = 0x465dc52dbb30fca5cca06c57fb266ec0e36c10530cdc6738dc4f035c81a0ae96,
     rfr_gauge = 0x6e415053aacdddc8b678a806a5279a8dcdd4f6f1,
     rfr_module = 0x0ad08370c76ff426f534bb2affd9b5555338ee68,
     rfr_module_runtime_code_hash = 0xab88b0a965d9f221253c1affc473f1326156c89c15ebae6dc257a2654b063fdd\<rparr>"
| "reviewed_slipstream_fee_runtime VelodromeOptimismBifi = \<lparr>
     rfr_chain_id = 10,
     rfr_pool = 0x173cdc71e29d5cffa6d090ad99f555a24b8831f9,
     rfr_factory = 0xcc0bddb707055e04e497ab22a59c2af4391cd12f,
     rfr_proxy_runtime_code_hash = 0x063ca35333cb7f2463f087d40ff9485475550abf4858a2f63c387d4d102b0f4f,
     rfr_implementation = 0xc28ad28853a547556780bebf7847628501a3bcbb,
     rfr_implementation_runtime_code_hash = 0x36c3da904ca0b58544254cd0d978fe4801c32dc1f9e3b3e644487ef541299794,
     rfr_factory_runtime_code_hash = 0x54e70bfdb89910349654db2f06c4a5cdbb9f4c74c781fe59276c1fa7b3f7f95e,
     rfr_voter = 0x41c914ee0c7e1a5edcd0295623e6dc557b5abf3c,
     rfr_voter_runtime_code_hash = 0x6b54418007a7361638cff3c94032cb17f2728a6cda864d4ac65753c5445f1062,
     rfr_gauge = 0x41160e66fcaa10cbb148ace60bc2a22d609ec519,
     rfr_module = 0xc565f7ba9c56b157da983c4db30e13f5f06c59d9,
     rfr_module_runtime_code_hash = 0x23425577e3d433f535309680b44b53e5cbd1ad581b1d2248e015030fd9816e37\<rparr>"

definition reviewed_slipstream_fee_runtime_for_pool :: "address \<Rightarrow> reviewed_fee_runtime option" where
  "reviewed_slipstream_fee_runtime_for_pool pool =
    find (\<lambda>reviewed. rfr_pool reviewed = pool)
      (map reviewed_slipstream_fee_runtime [AerodromeBaseBifi, VelodromeOptimismBifi])"

definition v3_verified_code_targets :: "pool_registration \<Rightarrow> address list" where
  "v3_verified_code_targets pool =
    (case key_address (reg_key pool) of
       None \<Rightarrow> []
     | Some address \<Rightarrow> (case reg_protocol pool of
           PancakeV3 \<Rightarrow> [address]
         | Slipstream \<Rightarrow> (case reviewed_slipstream_fee_runtime_for_pool address of
               None \<Rightarrow> [address]
             | Some reviewed \<Rightarrow> [address, rfr_implementation reviewed, rfr_factory reviewed, rfr_voter reviewed, rfr_module reviewed]
                 @ code_targets address)
         | _ \<Rightarrow> []))"

definition v3_verified_storage_targets :: "keccak \<Rightarrow> pool_registration \<Rightarrow> (address \<times> u256) list" where
  "v3_verified_storage_targets keccak256 pool =
    (if reg_protocol pool \<noteq> Slipstream then []
     else case key_address (reg_key pool) of
         None \<Rightarrow> []
       | Some address \<Rightarrow> (case reviewed_slipstream_fee_runtime_for_pool address of
             None \<Rightarrow> []
           | Some reviewed \<Rightarrow> reviewed_slipstream_fee_storage_targets keccak256 reviewed))"

definition v3_state_dependencies :: "keccak \<Rightarrow> pool_registration \<Rightarrow> state_dependencies" where
  "v3_state_dependencies keccak256 pool =
    (case key_address (reg_key pool) of
       None \<Rightarrow> dependencies_default
     | Some address \<Rightarrow>
         let slots = (case pool_v3_metadata pool of Some m \<Rightarrow> v3_warmed_slots m | None \<Rightarrow> []);
             slots = (case layout_for pool of
                 Some layout \<Rightarrow> if slots = [] then [slot0_slot layout, liquidity_slot layout] else slots
               | None \<Rightarrow> slots)
         in with_slots (with_associated_addresses dependencies_default [address])
              (map (Pair address) slots @ v3_verified_storage_targets keccak256 pool))"

section \<open>Words and bodies of the logs\<close>

text \<open>\<open>topic_address\<close> of \<open>uniswap_v3.rs\<close>, which reads the topic of a log; the conversion is that of \<open>registry.rs\<close>.\<close>

definition log_topic_address :: "log \<Rightarrow> nat \<Rightarrow> address option" where
  "log_topic_address log index = map_option topic_address (nth_opt (log_topics log) index)"

definition signed_word_magnitude :: "u256 \<Rightarrow> bool \<times> u256" where
  "signed_word_magnitude word = (if drop_bit 255 word = 0 then (False, word) else (True, NOT word + 1))"

definition int24_from_word :: "u256 \<Rightarrow> i32" where
  "int24_from_word word =
    (let raw = (ucast (word AND 0x00FFFFFF) :: u32)
     in if raw AND 0x00800000 \<noteq> 0 then sint (raw OR 0xFF000000) else sint raw)"

definition log_word :: "log \<Rightarrow> nat \<Rightarrow> string \<Rightarrow> u256 result" where
  "log_word log index what = ok_or (data_word log index) (MalformedLog what)"

definition decode_swap_body :: "log \<Rightarrow> decoded_swap result" where
  "decode_swap_body log =
    rbind (log_word log 0 ''missing V3 amount0'') (\<lambda>amount0.
    rbind (log_word log 1 ''missing V3 amount1'') (\<lambda>amount1.
    rbind (log_word log 2 ''missing V3 sqrtPriceX96'') (\<lambda>sqrt_price_x96.
    rbind (log_word log 3 ''missing V3 liquidity'') (\<lambda>liquidity.
    rbind (log_word log 4 ''missing V3 tick'') (\<lambda>tick_word.
    let tick = int24_from_word tick_word;
        (amount0_negative, amount0) = signed_word_magnitude amount0;
        (amount1_negative, amount1) = signed_word_magnitude amount1
    in Inr \<lparr>sw_amount0_negative = amount0_negative, sw_amount0 = amount0, sw_amount1_negative = amount1_negative,
         sw_amount1 = amount1, sw_sqrt_price_x96 = sqrt_price_x96, sw_liquidity = liquidity, sw_tick = tick\<rparr>)))))"

definition decode_liquidity_body :: "log \<Rightarrow> bool \<Rightarrow> decoded_liquidity result" where
  "decode_liquidity_body log is_mint =
    rbind (ok_or (map_option int24_from_word (nth_opt (log_topics log) 2)) (MalformedLog ''missing Slipstream lower tick'')) (\<lambda>tick_lower.
    rbind (ok_or (map_option int24_from_word (nth_opt (log_topics log) 3)) (MalformedLog ''missing Slipstream upper tick'')) (\<lambda>tick_upper.
    rbind (log_word log (if is_mint then 1 else 0) ''missing Slipstream liquidity amount'') (\<lambda>amount_word.
    if ucast (- 1 :: u128) < amount_word then Inl (MalformedLog ''Slipstream liquidity amount exceeds uint128'')
    else Inr \<lparr>dl_tick_lower = tick_lower, dl_tick_upper = tick_upper, dl_amount = ucast amount_word, dl_is_mint = is_mint\<rparr>)))"

definition narrow_u8 :: "log \<Rightarrow> nat \<Rightarrow> string \<Rightarrow> u8 result" where
  "narrow_u8 log index what =
    rbind (log_word log index what) (\<lambda>word.
    if ucast (- 1 :: u8) < word then Inl (MalformedLog what) else Inr (ucast word))"

definition narrow_u16 :: "log \<Rightarrow> nat \<Rightarrow> string \<Rightarrow> u16 result" where
  "narrow_u16 log index what =
    rbind (log_word log index what) (\<lambda>word.
    if ucast (- 1 :: u16) < word then Inl (MalformedLog what) else Inr (ucast word))"

definition decode_flash_body :: "v3_abi \<Rightarrow> log \<Rightarrow> decoded_flash result" where
  "decode_flash_body abi log =
    (if \<not> ok_flash abi log then Inl (MalformedLog ''malformed V3 Flash log'')
     else case (data_word log 0, data_word log 1, data_word log 2, data_word log 3) of
         (Some amount0, Some amount1, Some paid0, Some paid1) \<Rightarrow>
           Inr \<lparr>fl_amount0 = amount0, fl_amount1 = amount1, fl_paid0 = paid0, fl_paid1 = paid1\<rparr>
       | _ \<Rightarrow> Inl (MalformedLog ''missing V3 Flash data word''))"

definition decode_fee_protocol_body :: "v3_abi \<Rightarrow> log \<Rightarrow> decoded_fee_protocol result" where
  "decode_fee_protocol_body abi log =
    (if \<not> ok_set_fee_protocol abi log then Inl (MalformedLog ''malformed V3 SetFeeProtocol log'')
     else let what = ''missing V3 SetFeeProtocol data word''
     in rbind (narrow_u8 log 0 what) (\<lambda>old0.
        rbind (narrow_u8 log 1 what) (\<lambda>old1.
        rbind (narrow_u8 log 2 what) (\<lambda>new0.
        rbind (narrow_u8 log 3 what) (\<lambda>new1.
        Inr \<lparr>fp_old0 = old0, fp_old1 = old1, fp_new0 = new0, fp_new1 = new1\<rparr>)))))"

definition decode_collect_protocol_body :: "v3_abi \<Rightarrow> log \<Rightarrow> decoded_collect_protocol result" where
  "decode_collect_protocol_body abi log =
    (if \<not> ok_collect_protocol abi log then Inl (MalformedLog ''malformed V3 CollectProtocol log'')
     else case (data_word log 0, data_word log 1) of
         (Some amount0, Some amount1) \<Rightarrow> Inr \<lparr>cp_amount0 = amount0, cp_amount1 = amount1\<rparr>
       | _ \<Rightarrow> Inl (MalformedLog ''missing V3 CollectProtocol data word''))"

definition decode_observation_growth_body :: "v3_abi \<Rightarrow> log \<Rightarrow> decoded_observation_growth result" where
  "decode_observation_growth_body abi log =
    (if \<not> ok_growth abi log then Inl (MalformedLog ''malformed V3 IncreaseObservationCardinalityNext log'')
     else let what = ''missing V3 IncreaseObservationCardinalityNext data word''
     in rbind (narrow_u16 log 0 what) (\<lambda>old.
        rbind (narrow_u16 log 1 what) (\<lambda>new.
        Inr \<lparr>og_old = old, og_new = new\<rparr>)))"

section \<open>Capabilities\<close>

datatype v3_swap_capability = SwapExact | SwapUnsupported

datatype v3_liquidity_capability = LiquidityExact | LiquidityUnsupported

definition swap_transition_capability :: "pool_registration \<Rightarrow> v3_swap_capability" where
  "swap_transition_capability pool =
    (case layout_for pool of
       None \<Rightarrow> SwapUnsupported
     | Some layout \<Rightarrow>
         if reg_protocol pool = UniswapV3 \<and> layout = layout_uniswap (tick_spacing layout) \<and> 0 < tick_spacing layout
            \<and> (case pool_v3_fee pool of None \<Rightarrow> False | Some fee \<Rightarrow> fee < 1000000)
         then SwapExact else SwapUnsupported)"

definition evidence_fits_context :: "address \<Rightarrow> adapter_event_context \<Rightarrow> slipstream_swap_fee_evidence \<Rightarrow> bool" where
  "evidence_fits_context address ctx ev \<longleftrightarrow>
    \<not> ((case evidence_validate ev of Inl _ \<Rightarrow> True | Inr _ \<Rightarrow> False)
       \<or> fee_pool ev \<noteq> address
       \<or> ctx_chain_id ctx \<noteq> Some (fee_chain_id ev)
       \<or> ctx_block_number ctx \<noteq> Some (fee_block_number ev)
       \<or> ctx_block_hash ctx \<noteq> Some (fee_block_hash ev)
       \<or> ctx_parent_hash ctx \<noteq> Some (fee_parent_hash ev)
       \<or> ctx_block_timestamp ctx \<noteq> Some (fee_block_timestamp ev)
       \<or> ctx_transaction_hash ctx \<noteq> Some (fee_transaction_hash ev)
       \<or> ctx_transaction_index ctx \<noteq> Some (fee_transaction_index ev)
       \<or> ctx_log_index ctx \<noteq> Some (fee_log_index ev))"

definition swap_transition_capability_with_context :: "pool_registration \<Rightarrow> adapter_event_context \<Rightarrow> v3_swap_capability" where
  "swap_transition_capability_with_context pool ctx =
    (if swap_transition_capability pool = SwapExact then SwapExact
     else case layout_for pool of
         None \<Rightarrow> SwapUnsupported
       | Some layout \<Rightarrow>
     (case key_address (reg_key pool) of
         None \<Rightarrow> SwapUnsupported
       | Some address \<Rightarrow>
           if reg_protocol pool \<noteq> Slipstream \<or> validate_reviewed_slipstream_event address layout ctx \<noteq> Inr ()
           then SwapUnsupported
           else (case ctx_slipstream_fee_evidence ctx of
               Some ev \<Rightarrow> if evidence_fits_context address ctx ev then SwapExact else SwapUnsupported
             | None \<Rightarrow> SwapExact)))"

definition liquidity_transition_capability :: "pool_registration \<Rightarrow> v3_liquidity_capability" where
  "liquidity_transition_capability pool =
    (case layout_for pool of
       None \<Rightarrow> LiquidityUnsupported
     | Some layout \<Rightarrow>
         if reg_protocol pool = UniswapV3 \<and> layout = layout_uniswap (tick_spacing layout) \<and> 0 < tick_spacing layout
            \<and> uniswap_v3_max_liquidity_per_tick (tick_spacing layout) \<noteq> None
         then LiquidityExact else LiquidityUnsupported)"

definition liquidity_transition_capability_with_context ::
  "pool_registration \<Rightarrow> adapter_event_context \<Rightarrow> v3_liquidity_capability" where
  "liquidity_transition_capability_with_context pool ctx =
    (if liquidity_transition_capability pool = LiquidityExact then LiquidityExact
     else case layout_for pool of
         None \<Rightarrow> LiquidityUnsupported
       | Some layout \<Rightarrow>
     (case key_address (reg_key pool) of
         None \<Rightarrow> LiquidityUnsupported
       | Some address \<Rightarrow>
           if reg_protocol pool \<noteq> Slipstream \<or> validate_reviewed_slipstream_event address layout ctx \<noteq> Inr ()
           then LiquidityUnsupported else LiquidityExact))"

definition canonical_accounting_layout :: "pool_registration \<Rightarrow> (address \<times> v3_storage_layout) option" where
  "canonical_accounting_layout pool =
    (if reg_protocol pool \<noteq> UniswapV3 then None
     else case layout_for pool of
         None \<Rightarrow> None
       | Some layout \<Rightarrow>
           if layout \<noteq> layout_uniswap (tick_spacing layout) \<or> tick_spacing layout \<le> 0 then None
           else map_option (\<lambda>address. (address, layout)) (key_address (reg_key pool)))"

section \<open>Decoding without a context\<close>

definition swap_invalidation :: "pool_registration \<Rightarrow> address \<Rightarrow> b256 \<Rightarrow> address \<Rightarrow> adapter_event" where
  "swap_invalidation pool emitter topic0 address =
    \<lparr>ae_pool = reg_key pool, ae_emitter = emitter, ae_topic0 = topic0, ae_kind = Swap,
     ae_updates = [Purge address AllStorage], ae_quality = RequiresRepair, ae_repair = PurgeStorage address\<rparr>"

definition non_swap_mutation_invalidation ::
  "v3_abi \<Rightarrow> pool_registration \<Rightarrow> address \<Rightarrow> b256 \<Rightarrow> address \<Rightarrow> adapter_event" where
  "non_swap_mutation_invalidation abi pool emitter topic0 address =
    \<lparr>ae_pool = reg_key pool, ae_emitter = emitter, ae_topic0 = topic0,
     ae_kind = (if topic0 = h_mint abi then LiquidityAdded else if topic0 = h_burn abi then LiquidityRemoved else UnknownEvent),
     ae_updates = [Purge address AllStorage], ae_quality = RequiresRepair, ae_repair = PurgeStorage address\<rparr>"

definition exact_event :: "pool_registration \<Rightarrow> log \<Rightarrow> b256 \<Rightarrow> adapter_event_kind \<Rightarrow> state_update list \<Rightarrow> adapter_event" where
  "exact_event pool log topic0 kind updates =
    \<lparr>ae_pool = reg_key pool, ae_emitter = log_address log, ae_topic0 = topic0, ae_kind = kind,
     ae_updates = updates, ae_quality = Exact, ae_repair = NoRepair\<rparr>"

definition decode_swap_without_context :: "v3_abi \<Rightarrow> pool_registration \<Rightarrow> log \<Rightarrow> b256 \<Rightarrow> adapter_event_result" where
  "decode_swap_without_context abi pool log topic0 =
    (case key_address (reg_key pool) of
       None \<Rightarrow> result_error (MalformedLog ''V3 pool key is not address-keyed'')
     | Some address \<Rightarrow>
         let invalidation = swap_invalidation pool (log_address log) topic0 address;
             valid = (if topic0 = h_pancake_swap abi then ok_pancake_swap abi log else ok_swap abi log)
         in if layout_for pool = None
            then result_event_with_error invalidation (Unsupported (MissingMetadata ''V3 storage layout''))
            else if \<not> valid
            then result_event_with_error invalidation (MalformedLog ''malformed V3 Swap log'')
            else result_event_with_error invalidation
              (if swap_transition_capability pool = SwapExact then V3Transition (MissingContext ''complete event context'')
               else Unsupported (UnsupportedProtocol (reg_protocol pool))))"

definition decode_non_swap_mutation :: "v3_abi \<Rightarrow> pool_registration \<Rightarrow> log \<Rightarrow> b256 \<Rightarrow> adapter_event_result" where
  "decode_non_swap_mutation abi pool log topic0 =
    (case key_address (reg_key pool) of
       None \<Rightarrow> result_error (MalformedLog ''V3 pool key is not address-keyed'')
     | Some address \<Rightarrow>
         result_event_with_error (non_swap_mutation_invalidation abi pool (log_address log) topic0 address)
           (Unsupported (UnsupportedCustom ''exact event-only canonical V3 non-Swap transition is unsupported'')))"

definition liquidity_topic :: "v3_abi \<Rightarrow> bool \<Rightarrow> b256" where
  "liquidity_topic abi is_mint = (if is_mint then h_mint abi else h_burn abi)"

definition ok_liquidity :: "v3_abi \<Rightarrow> bool \<Rightarrow> log \<Rightarrow> bool" where
  "ok_liquidity abi is_mint log = (if is_mint then ok_mint abi log else ok_burn abi log)"

definition decode_liquidity_event :: "v3_abi \<Rightarrow> pool_registration \<Rightarrow> log \<Rightarrow> bool \<Rightarrow> adapter_event_result" where
  "decode_liquidity_event abi pool log is_mint =
    (let topic0 = liquidity_topic abi is_mint
     in case key_address (reg_key pool) of
         None \<Rightarrow> result_error (MalformedLog ''V3 pool key is not address-keyed'')
       | Some address \<Rightarrow>
           if \<not> ok_liquidity abi is_mint log
           then result_event_with_error (non_swap_mutation_invalidation abi pool (log_address log) topic0 address)
             (MalformedLog ''malformed V3 liquidity log'')
           else decode_non_swap_mutation abi pool log topic0)"

definition context_default :: adapter_event_context where
  "context_default = \<lparr>ctx_chain_id = None, ctx_block_number = None, ctx_block_hash = None, ctx_parent_hash = None,
     ctx_block_timestamp = None, ctx_transaction_hash = None, ctx_transaction_index = None, ctx_log_index = None,
     ctx_slipstream_fee_evidence = None, ctx_slipstream_staking_evidence = None\<rparr>"

definition v3_decode_event ::
  "keccak \<Rightarrow> v3_abi \<Rightarrow> staking_topics \<Rightarrow> pool_registration \<Rightarrow> log \<Rightarrow> state_view \<Rightarrow> adapter_event_result" where
  "v3_decode_event keccak256 abi sigs pool log view =
    (case staking_decode keccak256 sigs pool log context_default view of
       Some result \<Rightarrow> result
     | None \<Rightarrow>
    (case nth_opt (log_topics log) 0 of
       None \<Rightarrow> result_ignored
     | Some topic0 \<Rightarrow>
         if topic0 = h_swap abi \<or> topic0 = h_pancake_swap abi then decode_swap_without_context abi pool log topic0
         else if topic0 = h_mint abi then decode_liquidity_event abi pool log True
         else if topic0 = h_burn abi then decode_liquidity_event abi pool log False
         else if topic0 \<in> set (canonical_v3_non_swap_mutation_topics abi) then decode_non_swap_mutation abi pool log topic0
         else result_ignored))"

section \<open>Exact replays\<close>

text \<open>
  An abort of a transition would abort the decoder. The model shows it as the error \<open>Panicked\<close> of the result, which
  no transition produces.
\<close>

definition decode_swap_exact ::
  "keccak \<Rightarrow> v3_abi \<Rightarrow> pool_registration \<Rightarrow> log \<Rightarrow> b256 \<Rightarrow> state_view \<Rightarrow> adapter_event_context \<Rightarrow> adapter_event_result" where
  "decode_swap_exact keccak256 abi pool log topic0 view ctx =
    (case key_address (reg_key pool) of
       None \<Rightarrow> result_error (MalformedLog ''V3 pool key is not address-keyed'')
     | Some address \<Rightarrow>
    (case layout_for pool of
       None \<Rightarrow> result_error (Unsupported (MissingMetadata ''V3 storage layout''))
     | Some layout \<Rightarrow>
         if \<not> ok_swap abi log
         then result_event_with_error (swap_invalidation pool (log_address log) topic0 address)
           (MalformedLog ''malformed V3 Swap log'')
         else case decode_swap_body log of
             Inl err \<Rightarrow> result_event_with_error (swap_invalidation pool (log_address log) topic0 address) err
           | Inr swap \<Rightarrow>
         if reg_protocol pool = UniswapV3 \<and> pool_v3_fee pool = None
         then result_error (Unsupported (MissingMetadata ''V3 fee''))
         else case (case reg_protocol pool of
               UniswapV3 \<Rightarrow> derive_uniswap_v3_swap keccak256 address layout (the (pool_v3_fee pool)) swap ctx view
             | Slipstream \<Rightarrow> derive_slipstream_swap keccak256 address layout swap ctx view
             | _ \<Rightarrow> Inl (Unsupported (UnsupportedProtocol (reg_protocol pool)))) of
             Inl err \<Rightarrow> result_event_with_error
               \<lparr>ae_pool = reg_key pool, ae_emitter = log_address log, ae_topic0 = topic0, ae_kind = Swap,
                ae_updates = [Purge address AllStorage], ae_quality = ConservativeInvalidation,
                ae_repair = PurgeStorage address\<rparr> err
           | Inr updates \<Rightarrow> result_event (exact_event pool log topic0 Swap updates)))"

definition liquidity_kind :: "bool \<Rightarrow> adapter_event_kind" where
  "liquidity_kind is_mint = (if is_mint then LiquidityAdded else LiquidityRemoved)"

definition position_purge :: "keccak \<Rightarrow> address \<Rightarrow> address \<Rightarrow> i32 \<Rightarrow> i32 \<Rightarrow> state_update" where
  "position_purge keccak256 address owner tick_lower tick_upper =
    Purge address (Slots (uniswap_v3_position_slots keccak256 owner tick_lower tick_upper))"

definition decode_canonical_liquidity_exact ::
  "keccak \<Rightarrow> v3_abi \<Rightarrow> pool_registration \<Rightarrow> log \<Rightarrow> state_view \<Rightarrow> bool \<Rightarrow> adapter_event_context \<Rightarrow> adapter_event_result" where
  "decode_canonical_liquidity_exact keccak256 abi pool log view is_mint ctx =
    (if liquidity_transition_capability pool \<noteq> LiquidityExact then decode_liquidity_event abi pool log is_mint
     else let topic0 = liquidity_topic abi is_mint
     in case key_address (reg_key pool) of
         None \<Rightarrow> result_error (MalformedLog ''V3 pool key is not address-keyed'')
       | Some address \<Rightarrow>
     let invalidation = non_swap_mutation_invalidation abi pool (log_address log) topic0 address
     in case layout_for pool of
         None \<Rightarrow> result_event_with_error invalidation (Unsupported (MissingMetadata ''V3 storage layout''))
       | Some layout \<Rightarrow>
     if \<not> ok_liquidity abi is_mint log
     then result_event_with_error invalidation (MalformedLog ''malformed V3 liquidity log'')
     else case decode_liquidity_body log is_mint of
         Inl err \<Rightarrow> result_event_with_error invalidation err
       | Inr decoded \<Rightarrow>
     (case derive_uniswap_v3_liquidity keccak256 address layout decoded ctx view of
         Inl err \<Rightarrow> result_event_with_error invalidation err
       | Inr transition \<Rightarrow>
     let updates = clt_updates transition @ (case log_topic_address log 1 of
             Some owner \<Rightarrow> [position_purge keccak256 address owner (dl_tick_lower decoded) (dl_tick_upper decoded)]
           | None \<Rightarrow> [])
     in if clt_cold_slots transition = []
        then result_event (exact_event pool log topic0 (liquidity_kind is_mint) updates)
        else result_event \<lparr>ae_pool = reg_key pool, ae_emitter = log_address log, ae_topic0 = topic0,
          ae_kind = liquidity_kind is_mint, ae_updates = updates @ [Purge address (Slots (clt_cold_slots transition))],
          ae_quality = RequiresRepair,
          ae_repair = VerifySlots (map (\<lambda>slot. (address, slot)) (clt_cold_slots transition))\<rparr>))"

definition decode_liquidity_event_with_context ::
  "keccak \<Rightarrow> v3_abi \<Rightarrow> pool_registration \<Rightarrow> log \<Rightarrow> state_view \<Rightarrow> bool \<Rightarrow> adapter_event_context \<Rightarrow> adapter_event_result" where
  "decode_liquidity_event_with_context keccak256 abi pool log view is_mint ctx =
    (if reg_protocol pool = UniswapV3 then decode_canonical_liquidity_exact keccak256 abi pool log view is_mint ctx
     else if reg_protocol pool \<noteq> Slipstream then decode_liquidity_event abi pool log is_mint
     else let topic0 = liquidity_topic abi is_mint
     in case key_address (reg_key pool) of
         None \<Rightarrow> result_error (MalformedLog ''Slipstream pool key is not address-keyed'')
       | Some address \<Rightarrow>
     let invalidation = non_swap_mutation_invalidation abi pool (log_address log) topic0 address
     in case layout_for pool of
         None \<Rightarrow> result_event_with_error invalidation (Unsupported (MissingMetadata ''Slipstream storage layout''))
       | Some layout \<Rightarrow>
     if \<not> ok_liquidity abi is_mint log
     then result_event_with_error invalidation (MalformedLog ''malformed Slipstream liquidity log'')
     else case decode_liquidity_body log is_mint of
         Inl err \<Rightarrow> result_event_with_error invalidation err
       | Inr decoded \<Rightarrow>
     (case derive_slipstream_liquidity keccak256 address layout decoded ctx view of
         Inl err \<Rightarrow> result_event_with_error invalidation err
       | Inr updates \<Rightarrow> result_event (exact_event pool log topic0 (liquidity_kind is_mint) updates)))"

definition decode_canonical_collect :: "keccak \<Rightarrow> v3_abi \<Rightarrow> pool_registration \<Rightarrow> log \<Rightarrow> adapter_event_result" where
  "decode_canonical_collect keccak256 abi pool log =
    (case key_address (reg_key pool) of
       None \<Rightarrow> result_error (MalformedLog ''V3 pool key is not address-keyed'')
     | Some address \<Rightarrow>
    let invalidation = non_swap_mutation_invalidation abi pool (log_address log) (h_collect abi) address
    in if \<not> ok_collect abi log then result_event_with_error invalidation (MalformedLog ''malformed V3 Collect log'')
       else case (log_topic_address log 1, map_option int24_from_word (nth_opt (log_topics log) 2),
             map_option int24_from_word (nth_opt (log_topics log) 3)) of
           (Some owner, Some tick_lower, Some tick_upper) \<Rightarrow>
             result_event (exact_event pool log (h_collect abi) UnknownEvent
               [position_purge keccak256 address owner tick_lower tick_upper])
         | _ \<Rightarrow> result_event_with_error invalidation (MalformedLog ''V3 Collect is missing indexed position topics''))"

definition decode_collect_with_context ::
  "keccak \<Rightarrow> v3_abi \<Rightarrow> pool_registration \<Rightarrow> log \<Rightarrow> adapter_event_context \<Rightarrow> adapter_event_result" where
  "decode_collect_with_context keccak256 abi pool log ctx =
    (if reg_protocol pool = UniswapV3 \<and> liquidity_transition_capability pool = LiquidityExact
     then decode_canonical_collect keccak256 abi pool log
     else if reg_protocol pool \<noteq> Slipstream then decode_non_swap_mutation abi pool log (h_collect abi)
     else case key_address (reg_key pool) of
         None \<Rightarrow> result_error (MalformedLog ''Slipstream pool key is not address-keyed'')
       | Some address \<Rightarrow>
     let invalidation = non_swap_mutation_invalidation abi pool (log_address log) (h_collect abi) address
     in if \<not> ok_collect abi log then result_event_with_error invalidation (MalformedLog ''malformed Slipstream Collect log'')
        else case layout_for pool of
            None \<Rightarrow> result_event_with_error invalidation (Unsupported (MissingMetadata ''Slipstream storage layout''))
          | Some layout \<Rightarrow>
        (case validate_reviewed_slipstream_event address layout ctx of
            Inl err \<Rightarrow> result_event_with_error invalidation err
          | Inr _ \<Rightarrow> result_event (exact_event pool log (h_collect abi) UnknownEvent [])))"

definition derive_canonical_accounting ::
  "v3_abi \<Rightarrow> pool_registration \<Rightarrow> address \<Rightarrow> v3_storage_layout \<Rightarrow> log \<Rightarrow> state_view \<Rightarrow> b256 \<Rightarrow> adapter_event_context
    \<Rightarrow> state_update list result option" where
  "derive_canonical_accounting abi pool address layout log view topic0 ctx =
    (if topic0 = h_flash abi
     then Some (case pool_v3_fee pool of
         Some fee \<Rightarrow> rbind (decode_flash_body abi log) (\<lambda>flash. derive_uniswap_v3_flash address layout fee flash ctx view)
       | None \<Rightarrow> Inl (Unsupported (MissingMetadata ''V3 fee'')))
     else if topic0 = h_set_fee_protocol abi
     then Some (rbind (decode_fee_protocol_body abi log) (\<lambda>event. derive_uniswap_v3_set_fee_protocol address layout event ctx view))
     else if topic0 = h_collect_protocol abi
     then Some (rbind (decode_collect_protocol_body abi log) (\<lambda>event. derive_uniswap_v3_collect_protocol address layout event ctx view))
     else if topic0 = h_growth abi
     then Some (rbind (decode_observation_growth_body abi log) (\<lambda>event. derive_uniswap_v3_observation_growth address layout event ctx view))
     else None)"

definition decode_canonical_accounting_event ::
  "v3_abi \<Rightarrow> pool_registration \<Rightarrow> log \<Rightarrow> state_view \<Rightarrow> b256 \<Rightarrow> adapter_event_context \<Rightarrow> adapter_event_result" where
  "decode_canonical_accounting_event abi pool log view topic0 ctx =
    (case canonical_accounting_layout pool of
       None \<Rightarrow> decode_non_swap_mutation abi pool log topic0
     | Some (address, layout) \<Rightarrow>
    (case derive_canonical_accounting abi pool address layout log view topic0 ctx of
       None \<Rightarrow> decode_non_swap_mutation abi pool log topic0
     | Some (Inr updates) \<Rightarrow> result_event (exact_event pool log topic0 UnknownEvent updates)
     | Some (Inl err) \<Rightarrow>
         result_event_with_error (non_swap_mutation_invalidation abi pool (log_address log) topic0 address) err))"

section \<open>The adapter\<close>

definition v3_decode_event_with_context ::
  "keccak \<Rightarrow> v3_abi \<Rightarrow> staking_topics \<Rightarrow> pool_registration \<Rightarrow> log \<Rightarrow> state_view \<Rightarrow> adapter_event_context
    \<Rightarrow> adapter_event_result" where
  "v3_decode_event_with_context keccak256 abi sigs pool log view ctx =
    (case staking_decode keccak256 sigs pool log ctx view of
       Some result \<Rightarrow> result
     | None \<Rightarrow>
    (case nth_opt (log_topics log) 0 of
       None \<Rightarrow> result_ignored
     | Some topic0 \<Rightarrow>
         if topic0 = h_swap abi
         then if swap_transition_capability_with_context pool ctx = SwapExact
              then decode_swap_exact keccak256 abi pool log topic0 view ctx
              else decode_swap_without_context abi pool log topic0
         else if topic0 = h_pancake_swap abi then decode_swap_without_context abi pool log topic0
         else if topic0 = h_mint abi then decode_liquidity_event_with_context keccak256 abi pool log view True ctx
         else if topic0 = h_burn abi then decode_liquidity_event_with_context keccak256 abi pool log view False ctx
         else if topic0 = h_collect abi then decode_collect_with_context keccak256 abi pool log ctx
         else if topic0 \<in> set (canonical_v3_accounting_topics abi)
         then decode_canonical_accounting_event abi pool log view topic0 ctx
         else v3_decode_event keccak256 abi sigs pool log view))"

definition v3_after_apply :: "pool_registration \<Rightarrow> adapter_event \<Rightarrow> state_diff \<Rightarrow> repair_action" where
  "v3_after_apply pool event diff =
    (if ae_kind event \<noteq> Swap \<or> \<not> has_skipped diff then NoRepair
     else let slots = map (\<lambda>skipped. (sm_address skipped, sm_slot skipped)) (diff_skipped_masks diff)
                @ map (\<lambda>skipped. (sd_address skipped, sd_slot skipped)) (diff_skipped diff)
          in if slots = [] then NoRepair else VerifySlots slots)"

definition pool_infer_slipstream_swap_fee ::
  "keccak \<Rightarrow> v3_abi \<Rightarrow> pool_registration \<Rightarrow> log \<Rightarrow> state_view \<Rightarrow> adapter_event_context \<Rightarrow> u32 result" where
  "pool_infer_slipstream_swap_fee keccak256 abi pool log view ctx =
    (if reg_protocol pool \<noteq> Slipstream then Inl (Unsupported (UnsupportedProtocol (reg_protocol pool)))
     else rbind (ok_or (key_address (reg_key pool)) (MalformedLog ''Slipstream pool key is not address-keyed'')) (\<lambda>address.
     rbind (ok_or (layout_for pool) (Unsupported (MissingMetadata ''Slipstream storage layout''))) (\<lambda>layout.
     if nth_opt (log_topics log) 0 \<noteq> Some (h_swap abi) \<or> \<not> ok_swap abi log
     then Inl (MalformedLog ''malformed Slipstream Swap log'')
     else rbind (decode_swap_body log) (\<lambda>swap. infer_slipstream_swap_fee keccak256 address layout swap ctx view))))"

definition v3_event_adapter :: "keccak \<Rightarrow> v3_abi \<Rightarrow> staking_topics \<Rightarrow> event_adapter" where
  "v3_event_adapter keccak256 abi sigs =
    \<lparr>ea_decode = v3_decode_event_with_context keccak256 abi sigs, ea_after_apply = v3_after_apply\<rparr>"

section \<open>What the bodies say\<close>

text \<open>The sign and magnitude of an \<open>int256\<close> (the smallest value included) and the value of an \<open>int24\<close>.\<close>

lemma signed_word_magnitude_int:
  assumes "signed_word_magnitude w = (negative, magnitude)"
  shows "negative \<longleftrightarrow> sint w < 0" "uint magnitude = \<bar>sint w\<bar>"
proof -
  have lt: "uint w < 2 ^ 256" "0 \<le> uint w" using uint_lt2p [of w] by simp_all
  have top: "drop_bit 255 w = 0 \<longleftrightarrow> uint w < 2 ^ 255"
  proof -
    have "uint (drop_bit 255 w) = uint w div 2 ^ 255" by (simp add: drop_bit_eq_div uint_div)
    then show ?thesis unfolding word_uint_eq_iff [of "drop_bit 255 w"] using lt by (auto simp: zdiv_eq_0_iff)
  qed
  have s: "sint w = (if uint w < 2 ^ 255 then uint w else uint w - 2 ^ 256)"
  proof -
    have "uint w div 2 ^ 255 = 1" if "2 ^ 255 \<le> uint w"
      using that lt by (simp add: div_pos_geq div_pos_pos_trivial)
    then have "bit (uint w) 255 \<longleftrightarrow> \<not> uint w < 2 ^ 255"
      using lt by (cases "uint w < 2 ^ 255") (simp_all add: bit_iff_odd div_pos_pos_trivial)
    then show ?thesis using lt
      by (auto simp: sint_uint signed_take_bit_eq_take_bit_minus take_bit_int_eq_self)
  qed
  have m: "uint (NOT w + 1) = 2 ^ 256 - uint w" if "\<not> uint w < 2 ^ 255"
  proof -
    have "NOT w + 1 = - w" by (simp add: minus_eq_not_plus_1)
    then show ?thesis using that lt by (simp add: uint_word_ariths zmod_zminus1_eq_if)
  qed
  show "negative \<longleftrightarrow> sint w < 0" using assms top lt unfolding s by (auto simp: signed_word_magnitude_def split: if_splits)
  show "uint magnitude = \<bar>sint w\<bar>" using assms top lt m unfolding s
    by (auto simp: signed_word_magnitude_def split: if_splits)
qed

lemma int24_from_word_sint: "int24_from_word w = sint (ucast w :: 24 word)"
proof -
  define raw where "raw = (ucast (w AND 0x00FFFFFF) :: u32)"
  have bits: "bit raw n \<longleftrightarrow> n < 24 \<and> bit w n" for n
  proof -
    have "(0x00FFFFFF :: u256) = mask 24" by (simp add: mask_eq_exp_minus_1)
    then have "raw = ucast (w AND mask 24)" by (simp only: raw_def)
    then show ?thesis by (auto simp: bit_ucast_iff bit_and_iff bit_mask_iff)
  qed
  have sgn: "raw AND 0x00800000 \<noteq> 0 \<longleftrightarrow> bit w 23"
  proof -
    have "(0x00800000 :: u32) = push_bit 23 1" by simp
    then have b: "bit (raw AND 0x00800000) n \<longleftrightarrow> bit raw 23 \<and> n = 23" for n
      by (simp only: bit_and_iff bit_push_bit_iff bit_1_iff) auto
    have "raw AND 0x00800000 \<noteq> 0 \<longleftrightarrow> (\<exists>n<32. bit (raw AND 0x00800000) n)"
      by (auto simp: bit_eq_iff)
    then show ?thesis unfolding b by (simp add: bits)
  qed
  define top :: u32 where "top = 0xFF000000"
  have hi: "bit top n \<longleftrightarrow> 24 \<le> n \<and> n < 32" for n
  proof -
    have e: "(0xFF000000 :: u32) = push_bit 24 (mask 8)" by (simp add: mask_eq_exp_minus_1)
    show ?thesis unfolding top_def e by (simp only: bit_push_bit_iff bit_mask_iff) auto
  qed
  have "int24_from_word w = sint (if bit w 23 then raw OR top else raw)"
    by (simp add: int24_from_word_def raw_def [symmetric] sgn top_def Let_def)
  also have "\<dots> = sint (ucast w :: 24 word)"
    by (rule bit_eqI) (auto simp: bit_sint_iff bit_or_iff bits hi bit_ucast_iff)
  finally show ?thesis .
qed

section \<open>No mutation goes unnoticed\<close>

text \<open>
  The replays that the code allows, as a relation: by \<open>v3_replays t updates cold\<close> an event with topic \<open>t\<close> is replayed
  by \<open>updates\<close>, exactly but for the cells \<open>cold\<close>.
\<close>

inductive v3_replays ::
  "keccak \<Rightarrow> v3_abi \<Rightarrow> pool_registration \<Rightarrow> log \<Rightarrow> adapter_event_context \<Rightarrow> state_view \<Rightarrow> b256 \<Rightarrow> state_update list \<Rightarrow> u256 list \<Rightarrow> bool"
  for keccak256 abi pool log ctx view where
  uniswap_swap:
    "\<lbrakk>reg_protocol pool = UniswapV3; key_address (reg_key pool) = Some a; layout_for pool = Some l;
      l = layout_uniswap (tick_spacing l); 0 < tick_spacing l; pool_v3_fee pool = Some fee; fee < 1000000; ok_swap abi log;
      decode_swap_body log = Inr swap; derive_uniswap_v3_swap keccak256 a l fee swap ctx view = Inr updates\<rbrakk>
     \<Longrightarrow> v3_replays keccak256 abi pool log ctx view (h_swap abi) updates []"
| slipstream_swap:
    "\<lbrakk>reg_protocol pool = Slipstream; key_address (reg_key pool) = Some a; layout_for pool = Some l;
      validate_reviewed_slipstream_event a l ctx = Inr (); ok_swap abi log;
      decode_swap_body log = Inr swap; derive_slipstream_swap keccak256 a l swap ctx view = Inr updates\<rbrakk>
     \<Longrightarrow> v3_replays keccak256 abi pool log ctx view (h_swap abi) updates []"
| uniswap_liquidity:
    "\<lbrakk>reg_protocol pool = UniswapV3; key_address (reg_key pool) = Some a; layout_for pool = Some l;
      l = layout_uniswap (tick_spacing l); ok_liquidity abi is_mint log; decode_liquidity_body log is_mint = Inr event;
      derive_uniswap_v3_liquidity keccak256 a l event ctx view = Inr transition; log_topic_address log 1 = Some owner;
      updates = clt_updates transition @ [position_purge keccak256 a owner (dl_tick_lower event) (dl_tick_upper event)]
        @ (if clt_cold_slots transition = [] then [] else [Purge a (Slots (clt_cold_slots transition))])\<rbrakk>
     \<Longrightarrow> v3_replays keccak256 abi pool log ctx view (liquidity_topic abi is_mint) updates (clt_cold_slots transition)"
| slipstream_liquidity:
    "\<lbrakk>reg_protocol pool = Slipstream; key_address (reg_key pool) = Some a; layout_for pool = Some l;
      ok_liquidity abi is_mint log; decode_liquidity_body log is_mint = Inr event;
      derive_slipstream_liquidity keccak256 a l event ctx view = Inr updates\<rbrakk>
     \<Longrightarrow> v3_replays keccak256 abi pool log ctx view (liquidity_topic abi is_mint) updates []"
| uniswap_collect:
    "\<lbrakk>reg_protocol pool = UniswapV3; key_address (reg_key pool) = Some a; layout_for pool = Some l;
      l = layout_uniswap (tick_spacing l); ok_collect abi log; log_topic_address log 1 = Some owner;
      nth_opt (log_topics log) 2 = Some lower; nth_opt (log_topics log) 3 = Some upper\<rbrakk>
     \<Longrightarrow> v3_replays keccak256 abi pool log ctx view (h_collect abi)
           [position_purge keccak256 a owner (int24_from_word lower) (int24_from_word upper)] []"
| slipstream_collect:
    "\<lbrakk>reg_protocol pool = Slipstream; key_address (reg_key pool) = Some a; layout_for pool = Some l; ok_collect abi log;
      validate_reviewed_slipstream_event a l ctx = Inr ()\<rbrakk>
     \<Longrightarrow> v3_replays keccak256 abi pool log ctx view (h_collect abi) [] []"
| uniswap_accounting:
    "\<lbrakk>canonical_accounting_layout pool = Some (a, l);
      derive_canonical_accounting abi pool a l log view t ctx = Some (Inr updates)\<rbrakk>
     \<Longrightarrow> v3_replays keccak256 abi pool log ctx view t updates []"

text \<open>
  What the decoder owes the pool for one of its mutations: an event with the pool's key and the log's topic that is
  exact and replayed, or invalidates the whole storage with an error that is not an abort, or is replayed but for cells
  that it drops and requests again.
\<close>

definition accounted ::
  "pool_registration \<Rightarrow> address \<Rightarrow> b256 \<Rightarrow> log \<Rightarrow> (state_update list \<Rightarrow> u256 list \<Rightarrow> bool) \<Rightarrow> adapter_event_result \<Rightarrow> bool" where
  "accounted pool a t log replays result \<longleftrightarrow>
    (\<exists>e. aer_event result = Some e \<and> ae_pool e = reg_key pool \<and> ae_emitter e = log_address log \<and> ae_topic0 e = t
      \<and> (aer_error result = None \<and> ae_quality e = Exact \<and> ae_repair e = NoRepair \<and> replays (ae_updates e) []
         \<or> (\<exists>err. aer_error result = Some err \<and> (\<forall>msg. err \<noteq> Panicked msg)) \<and> ae_quality e \<in> {RequiresRepair, ConservativeInvalidation}
             \<and> ae_updates e = [Purge a AllStorage] \<and> ae_repair e = PurgeStorage a
         \<or> aer_error result = None \<and> ae_quality e = RequiresRepair
             \<and> (\<exists>cold. cold \<noteq> [] \<and> ae_repair e = VerifySlots (map (Pair a) cold) \<and> last (ae_updates e) = Purge a (Slots cold)
                 \<and> replays (ae_updates e) cold)))"

lemma accounted_exact: "replays updates [] \<Longrightarrow> accounted pool a t log replays (result_event (exact_event pool log t kind updates))"
  by (simp add: accounted_def result_event_def exact_event_def)

lemma accounted_invalidation:
  assumes "\<And>msg. err \<noteq> Panicked msg"
  shows "accounted pool a t log replays (result_event_with_error (swap_invalidation pool (log_address log) t a) err)"
    "accounted pool a t log replays (result_event_with_error (non_swap_mutation_invalidation abi pool (log_address log) t a) err)"
  using assms by (simp_all add: accounted_def result_event_with_error_def swap_invalidation_def non_swap_mutation_invalidation_def)

lemmas accounted_intros = accounted_exact accounted_invalidation

text \<open>No error of a body or of a transition is an abort.\<close>

lemma no_panic_bodies [no_panic_intros]:
  "no_panic (log_word log i what)" "no_panic (narrow_u8 log i what)" "no_panic (narrow_u16 log i what)"
  by (auto simp: no_panic_def log_word_def ok_or_def narrow_u8_def narrow_u16_def rbind_def split: sum.splits option.splits if_splits)

lemma no_panic_decode [no_panic_intros]:
  "no_panic (decode_swap_body log)" "no_panic (decode_liquidity_body log is_mint)" "no_panic (decode_flash_body abi log)"
  "no_panic (decode_fee_protocol_body abi log)" "no_panic (decode_collect_protocol_body abi log)"
  "no_panic (decode_observation_growth_body abi log)"
  unfolding decode_swap_body_def decode_liquidity_body_def decode_flash_body_def decode_fee_protocol_body_def
    decode_collect_protocol_body_def decode_observation_growth_body_def Let_def
  by (intro no_panic_intros; (simp split: prod.split option.split)?)+

lemma no_panic_derive_slipstream_swap [no_panic_intros]:
  "no_panic (derive_slipstream_swap keccak256 addr layout swap ctx state)"
  unfolding derive_slipstream_swap_def Let_def fee_evidence_error_def by (intro no_panic_intros no_panic_derive_slipstream)

lemma no_panic_canonical_accounting [no_panic_intros]:
  "derive_canonical_accounting abi pool a l log view t ctx = Some r \<Longrightarrow> no_panic r"
  by (auto simp: derive_canonical_accounting_def split: if_splits option.split intro!: no_panic_intros no_panic_accounting)

lemma no_panic_InlD: "no_panic r \<Longrightarrow> r = Inl err \<Longrightarrow> err \<noteq> Panicked msg"
  by auto

lemmas transition_errors = no_panic_decode [THEN no_panic_InlD] no_panic_derive_swap [THEN no_panic_InlD]
  no_panic_derive_slipstream_swap [THEN no_panic_InlD] no_panic_derive_liquidity [THEN no_panic_InlD]
  no_panic_derive_slipstream_liquidity [THEN no_panic_InlD] 

text \<open>The decoders of the single events.\<close>

lemma accounted_swap_without_context:
  assumes "key_address (reg_key pool) = Some a"
  shows "accounted pool a t log replays (decode_swap_without_context abi pool log t)"
  using assms by (simp add: decode_swap_without_context_def Let_def accounted_invalidation)

lemma accounted_non_swap_mutation:
  assumes "key_address (reg_key pool) = Some a"
  shows "accounted pool a t log replays (decode_non_swap_mutation abi pool log t)"
  using assms by (simp add: decode_non_swap_mutation_def accounted_invalidation)

lemma accounted_liquidity_event:
  assumes "key_address (reg_key pool) = Some a" "t = liquidity_topic abi is_mint"
  shows "accounted pool a t log replays (decode_liquidity_event abi pool log is_mint)"
  using assms by (simp add: decode_liquidity_event_def Let_def accounted_invalidation accounted_non_swap_mutation)

lemma accounted_swap_exact:
  assumes a: "key_address (reg_key pool) = Some a" and t: "t = h_swap abi"
    and cap: "swap_transition_capability_with_context pool ctx = SwapExact"
  shows "accounted pool a t log (v3_replays keccak256 abi pool log ctx view t) (decode_swap_exact keccak256 abi pool log t view ctx)"
proof -
  obtain l where l: "layout_for pool = Some l"
    using cap by (auto simp: swap_transition_capability_with_context_def swap_transition_capability_def simp del: layout_for.simps
        split: option.splits if_splits)
  consider (uniswap) fee where "reg_protocol pool = UniswapV3" "l = layout_uniswap (tick_spacing l)" "0 < tick_spacing l"
      "pool_v3_fee pool = Some fee" "fee < 1000000"
    | (slipstream) "reg_protocol pool = Slipstream" "validate_reviewed_slipstream_event a l ctx = Inr ()"
    using cap a l by (auto simp: swap_transition_capability_with_context_def swap_transition_capability_def simp del: layout_for.simps
        split: option.splits if_splits)
  then show ?thesis
  proof cases
    case uniswap
    show ?thesis using a l uniswap unfolding t
      by (auto simp: decode_swap_exact_def accounted_def result_event_with_error_def result_event_def exact_event_def
          swap_invalidation_def simp del: layout_for.simps split: sum.splits intro: uniswap_swap dest: transition_errors)
  next
    case slipstream
    show ?thesis using a l slipstream unfolding t
      by (auto simp: decode_swap_exact_def accounted_def result_event_with_error_def result_event_def exact_event_def
          swap_invalidation_def simp del: layout_for.simps split: sum.splits intro: slipstream_swap dest: transition_errors)
  qed
qed

lemma liquidity_body_owner: "decode_liquidity_body log is_mint = Inr event \<Longrightarrow> \<exists>owner. log_topic_address log 1 = Some owner"
  by (auto simp: decode_liquidity_body_def log_topic_address_def nth_opt_def split: if_splits elim!: rbind_eq_InrE)

lemma liquidity_capability_layout:
  assumes "liquidity_transition_capability pool = LiquidityExact"
  obtains l where "layout_for pool = Some l" "reg_protocol pool = UniswapV3" "l = layout_uniswap (tick_spacing l)"
  using assms by (auto simp: liquidity_transition_capability_def simp del: layout_for.simps split: option.splits if_splits)

lemma accounted_canonical_liquidity:
  assumes a: "key_address (reg_key pool) = Some a" and t: "t = liquidity_topic abi is_mint"
  shows "accounted pool a t log (v3_replays keccak256 abi pool log ctx view t)
    (decode_canonical_liquidity_exact keccak256 abi pool log view is_mint ctx)"
proof (cases "liquidity_transition_capability pool = LiquidityExact")
  case False
  then show ?thesis using accounted_liquidity_event [OF a t] by (simp add: decode_canonical_liquidity_exact_def)
next
  case True
  from True obtain l where l: "layout_for pool = Some l" "reg_protocol pool = UniswapV3" "l = layout_uniswap (tick_spacing l)"
    by (rule liquidity_capability_layout)
  note unf = decode_canonical_liquidity_exact_def True a l(1) t [symmetric] Let_def
  show ?thesis
  proof (cases "ok_liquidity abi is_mint log \<and> (\<exists>event tr. decode_liquidity_body log is_mint = Inr event
      \<and> derive_uniswap_v3_liquidity keccak256 a l event ctx view = Inr tr)")
    case False
    then show ?thesis unfolding unf
      by (auto split: sum.splits intro!: accounted_invalidation dest: transition_errors)
  next
    case ok: True
    then obtain event tr where e: "ok_liquidity abi is_mint log" "decode_liquidity_body log is_mint = Inr event"
      "derive_uniswap_v3_liquidity keccak256 a l event ctx view = Inr tr" by auto
    from liquidity_body_owner [OF e(2)] obtain owner where o: "log_topic_address log 1 = Some owner" by blast
    note r = uniswap_liquidity [OF l(2) a l(1,3) e o refl, folded t]
    show ?thesis
    proof (cases "clt_cold_slots tr = []")
      case True
      then show ?thesis unfolding unf using e o r by (auto intro!: accounted_exact)
    next
      case False
      then show ?thesis unfolding unf using e o r
        by (auto simp: accounted_def result_event_def)
    qed
  qed
qed

lemma accounted_liquidity_with_context:
  assumes a: "key_address (reg_key pool) = Some a" and t: "t = liquidity_topic abi is_mint"
  shows "accounted pool a t log (v3_replays keccak256 abi pool log ctx view t)
    (decode_liquidity_event_with_context keccak256 abi pool log view is_mint ctx)"
  using accounted_canonical_liquidity [OF a t] accounted_liquidity_event [OF a t] a
  by (auto simp: decode_liquidity_event_with_context_def t [symmetric] Let_def simp del: layout_for.simps
      split: option.split sum.split intro!: accounted_intros slipstream_liquidity [of pool a _ abi is_mint, folded t]
      dest: transition_errors)

lemma accounted_collect:
  assumes a: "key_address (reg_key pool) = Some a" and t: "t = h_collect abi"
  shows "accounted pool a t log (v3_replays keccak256 abi pool log ctx view t) (decode_collect_with_context keccak256 abi pool log ctx)"
proof (cases "reg_protocol pool = UniswapV3 \<and> liquidity_transition_capability pool = LiquidityExact")
  case True
  then obtain l where l: "layout_for pool = Some l" "l = layout_uniswap (tick_spacing l)"
    using liquidity_capability_layout by blast
  have r: "decode_collect_with_context keccak256 abi pool log ctx = decode_canonical_collect keccak256 abi pool log"
    using True by (simp add: decode_collect_with_context_def)
  show ?thesis unfolding r using a True l
    by (auto simp: decode_canonical_collect_def t Let_def simp del: layout_for.simps split: option.split
        intro!: accounted_intros uniswap_collect)
next
  case False
  then have "decode_collect_with_context keccak256 abi pool log ctx =
    (if reg_protocol pool \<noteq> Slipstream then decode_non_swap_mutation abi pool log (h_collect abi)
     else decode_collect_with_context keccak256 abi pool log ctx)" by (auto simp: decode_collect_with_context_def)
  then show ?thesis using a accounted_non_swap_mutation [OF a, of t log "v3_replays keccak256 abi pool log ctx view t" abi]
    by (auto simp: decode_collect_with_context_def t Let_def simp del: layout_for.simps split: option.split sum.split
        intro!: accounted_intros slipstream_collect dest: no_panic_slipstream_checks [THEN no_panic_InlD])
qed

lemma accounted_accounting:
  assumes a: "key_address (reg_key pool) = Some a"
  shows "accounted pool a t log (v3_replays keccak256 abi pool log ctx view t) (decode_canonical_accounting_event abi pool log view t ctx)"
proof (cases "canonical_accounting_layout pool")
  case None
  then show ?thesis using accounted_non_swap_mutation [OF a] by (simp add: decode_canonical_accounting_event_def)
next
  case (Some al)
  then obtain l where l: "canonical_accounting_layout pool = Some (a, l)"
    using a by (auto simp: canonical_accounting_layout_def simp del: layout_for.simps split: if_splits option.splits)
  show ?thesis using a l accounted_non_swap_mutation [OF a]
    by (auto simp: decode_canonical_accounting_event_def split: option.split sum.split intro!: accounted_intros uniswap_accounting
        dest: no_panic_canonical_accounting)
qed

text \<open>Only a direct source of the pool matches a log, which comes from the pool and carries one of its mutating topics.\<close>

lemma v3_matching_source_direct:
  assumes "source \<in> set (v3_event_sources abi sigs pool)" "event_source_matches source (reg_key pool) log"
  shows "src_route source = Direct"
  using assms by (cases "reg_key pool = SlipstreamKey POOL"; cases "key_address (reg_key pool)")
    (auto simp: v3_event_sources_def staking_sources_def source_adapter_defined_def source_direct_def event_source_matches_def
      split: if_splits)

lemma v3_direct_source:
  assumes "source \<in> set (v3_event_sources abi sigs pool)" "event_source_matches source (reg_key pool) log"
  obtains t where "key_address (reg_key pool) = Some (log_address log)" "nth_opt (log_topics log) 0 = Some t"
    "t \<in> set (v3_mutating_event_topics abi (reg_protocol pool))"
proof -
  let ?topics = "v3_mutating_event_topics abi (reg_protocol pool)"
  have "\<exists>a. key_address (reg_key pool) = Some a \<and> source = source_direct a ?topics"
    using assms(1) v3_matching_source_direct [OF assms] by (cases "reg_key pool = SlipstreamKey POOL"; cases "key_address (reg_key pool)")
      (auto simp: v3_event_sources_def staking_sources_def source_adapter_defined_def)
  then obtain a where a: "key_address (reg_key pool) = Some a" "source = source_direct a ?topics" by blast
  have "log_address log = a"
    "case nth_opt (log_topics log) 0 of None \<Rightarrow> False | Some t \<Rightarrow> t \<in> set ?topics"
    using assms(2) unfolding a(2) by (auto simp: event_source_matches_def source_direct_def v3_mutating_event_topics_def
        split: if_splits option.splits)
  then show thesis using that a(1) by (auto split: option.splits)
qed

lemma staking_ignores_pool_log:
  "key_address (reg_key pool) = Some (log_address log) \<Longrightarrow> staking_decode keccak256 sigs pool log ctx view = None"
  by (auto simp: staking_decode_def POOL_def GAUGE_def NFT_def)

lemma v3_mutation_accounted:
  assumes a: "key_address (reg_key pool) = Some (log_address log)" and t: "nth_opt (log_topics log) 0 = Some t"
    and m: "t \<in> set (v3_mutating_event_topics abi (reg_protocol pool))"
  shows "accounted pool (log_address log) t log (v3_replays keccak256 abi pool log ctx view t)
      (v3_decode_event_with_context keccak256 abi sigs pool log view ctx)"
    and "accounted pool (log_address log) t log (\<lambda>_ _. False) (v3_decode_event keccak256 abi sigs pool log view)"
proof -
  note s = staking_ignores_pool_log [OF a]
  have plain: "accounted pool (log_address log) t log replays (v3_decode_event keccak256 abi sigs pool log view)" for replays
    using m unfolding v3_decode_event_def s t
    by (auto simp: v3_mutating_event_topics_def swap_topic_for_def liquidity_topic_def
        intro!: accounted_swap_without_context [OF a] accounted_liquidity_event [OF a] accounted_non_swap_mutation [OF a]
        split: protocol_id.splits)
  then show "accounted pool (log_address log) t log (\<lambda>_ _. False) (v3_decode_event keccak256 abi sigs pool log view)" .
  show "accounted pool (log_address log) t log (v3_replays keccak256 abi pool log ctx view t)
      (v3_decode_event_with_context keccak256 abi sigs pool log view ctx)"
    unfolding v3_decode_event_with_context_def s t
    by (auto simp: liquidity_topic_def intro!: accounted_swap_exact [OF a] accounted_swap_without_context [OF a]
        accounted_liquidity_with_context [OF a] accounted_collect [OF a] accounted_accounting [OF a] plain)
qed

text \<open>No replay of a pool of another family.\<close>

lemma v3_replays_family: "v3_replays keccak256 abi pool log ctx view t updates cold \<Longrightarrow> reg_protocol pool \<in> {UniswapV3, Slipstream}"
  by (induction rule: v3_replays.induct) (auto simp: canonical_accounting_layout_def split: if_splits)

text \<open>What the runtime is told about an accounted event.\<close>

lemma accounted_handled:
  assumes "accounted pool a t log replays (ea_decode adapter pool log view (routed_context routing pool (event_context rctx tx)))"
    and "handle_routed_log keccak256 rctx log tx view pool adapter inst routing = Inr out"
  shows "ho_quality out = ExactFromInput \<and> replays (outcome_updates (ho_effects out)) [] \<or> ho_quality out = EffectRequiresRepair"
proof -
  obtain e where e: "aer_event (ea_decode adapter pool log view (routed_context routing pool (event_context rctx tx))) = Some e"
    "ae_quality e = Exact \<and> replays (ae_updates e) [] \<or> ae_quality e \<in> {RequiresRepair, ConservativeInvalidation}"
    using assms(1) unfolding accounted_def by blast
  show ?thesis using e(2) handle_routed_log_event [OF assms(2) e(1)] by (auto simp: quality_for_event_def)
qed

end
