(* ===== verification/V3_Planner.thy ===== *)
theory V3_Planner
  imports Concentrated_Liquidity
begin

text \<open>
  The cold-start planner of \<open>src/adapters/uniswap_v3.rs\<close>. Its first round verifies slot0, the liquidity and the global
  cells of the exact surface, its second the bitmap words of a window around the current tick, its third the words of
  every initialized tick of the window.

  An \<open>i32\<close> product that overflows and a tick spacing that is not positive abort the planner; the operations return
  the abort as an error of the model, and the planner record of \<open>Cold_Start\<close> gets the operations of the planners that
  never do.
\<close>

unbundle bit_operations_syntax

section \<open>The planner\<close>

definition SLOT0_TICK_SHIFT :: nat where "SLOT0_TICK_SHIFT = 160"
definition V3_MIN_TICK :: i32 where "V3_MIN_TICK = - 887272"
definition V3_MAX_TICK :: i32 where "V3_MAX_TICK = 887272"
definition V3_TICK_WORD_RADIUS :: i16 where "V3_TICK_WORD_RADIUS = 2"

datatype v3_phase = Slot0Liquidity | BitmapWord | TickInfo

datatype v3_exact_surface = NoSurface | CanonicalUniswap | SlipstreamSurface

record v3_planner =
  vp_address :: address
  vp_layout :: v3_storage_layout
  vp_policy :: cold_start_policy
  vp_radius :: i16
  vp_exact_surface :: v3_exact_surface
  vp_external_exact_slots :: "(address \<times> u256) list"
  vp_phase :: v3_phase
  vp_window :: "(i16 \<times> u256) list"
  vp_verified_slots :: "(address \<times> u256) list"
  vp_changed_slots :: "slot_change list"
  vp_proven_zero_slots :: "(address \<times> u256) list"
  vp_failed_exact_slots :: "(address \<times> u256) list"
  vp_deferred :: "deferred_work list"
  vp_slot0_cold :: bool

definition v3_planner_new ::
  "address \<Rightarrow> v3_storage_layout \<Rightarrow> cold_start_policy \<Rightarrow> i16 \<Rightarrow> v3_exact_surface \<Rightarrow> (address \<times> u256) list \<Rightarrow> v3_planner" where
  "v3_planner_new address layout policy radius exact_surface external_exact_slots =
    \<lparr>vp_address = address, vp_layout = layout, vp_policy = policy, vp_radius = radius, vp_exact_surface = exact_surface,
     vp_external_exact_slots = external_exact_slots, vp_phase = Slot0Liquidity, vp_window = [], vp_verified_slots = [],
     vp_changed_slots = [], vp_proven_zero_slots = [], vp_failed_exact_slots = [], vp_deferred = [], vp_slot0_cold = False\<rparr>"

definition v3_cold_start_planner :: "keccak \<Rightarrow> pool_registration \<Rightarrow> cold_start_policy \<Rightarrow> unsupported_reason + v3_planner" where
  "v3_cold_start_planner keccak256 pool policy =
    (case key_address (reg_key pool) of
       None \<Rightarrow> Inl (UnsupportedCustom ''Uniswap V3 pool key is not address-keyed'')
     | Some address \<Rightarrow>
    (case layout_for pool of
       None \<Rightarrow> Inl (MissingMetadata ''V3 storage layout'')
     | Some layout \<Rightarrow>
         let radius = (case pool_warm_word_radius pool of Some r \<Rightarrow> r | None \<Rightarrow> V3_TICK_WORD_RADIUS);
             exact_surface =
               (if reg_protocol pool = UniswapV3 \<and> layout = layout_uniswap (tick_spacing layout) then CanonicalUniswap
                else if reg_protocol pool = Slipstream \<and> layout = layout_slipstream (tick_spacing layout) then SlipstreamSurface
                else NoSurface)
         in Inr (v3_planner_new address layout policy radius exact_surface (v3_verified_storage_targets keccak256 pool))))"

definition is_exact_slot :: "v3_planner \<Rightarrow> address \<Rightarrow> u256 \<Rightarrow> bool" where
  "is_exact_slot p address slot \<longleftrightarrow>
    vp_exact_surface p \<noteq> NoSurface \<and> (address = vp_address p \<or> (address, slot) \<in> set (vp_external_exact_slots p))"

definition resolve_window :: "keccak \<Rightarrow> v3_planner \<Rightarrow> i16 \<Rightarrow> (i16 \<times> u256) list result" where
  "resolve_window keccak256 p current_word =
    (let radius = max (sint (vp_radius p)) 0; spacing = tick_spacing (vp_layout p)
     in rbind (v3_word_position V3_MIN_TICK spacing) (\<lambda>min_word.
        rbind (v3_word_position V3_MAX_TICK spacing) (\<lambda>max_word.
        let lo = max (sint current_word - radius) (sint min_word);
            hi = min (sint current_word + radius) (sint max_word)
        in Inr (map (\<lambda>word. let word_i16 = (word_of_int word :: i16)
             in (word_i16, v3_tick_bitmap_storage_key_with_base keccak256 word_i16 (tick_bitmap_base_slot (vp_layout p))))
             [lo..hi]))))"

definition v3_initial_plan :: "v3_planner \<Rightarrow> state_view \<Rightarrow> cold_start_plan \<times> v3_planner" where
  "v3_initial_plan p _ =
    (let a = vp_address p;
         verify = [(a, slot0_slot (vp_layout p)), (a, liquidity_slot (vp_layout p))]
           @ (case vp_exact_surface p of
                CanonicalUniswap \<Rightarrow> [(a, 1), (a, 2), (a, 3)]
              | SlipstreamSurface \<Rightarrow> map (\<lambda>slot. (a, ucast slot)) SLIPSTREAM_TRANSITION_GLOBAL_SLOTS
              | NoSurface \<Rightarrow> [])
           @ vp_external_exact_slots p
     in (verify_plan verify, p\<lparr>vp_verified_slots := vp_verified_slots p @ verify\<rparr>))"

section \<open>Answers of a round\<close>

definition exact_outcomes :: "v3_planner \<Rightarrow> cold_start_results \<Rightarrow> (slot_fetch \<Rightarrow> bool) \<Rightarrow> (address \<times> u256) list" where
  "exact_outcomes p results verdict =
    map (\<lambda>o'. (so_address o', so_slot o'))
      (filter (\<lambda>o'. is_exact_slot p (so_address o') (so_slot o') \<and> verdict (so_fetch o')) (res_fetched results))"

definition record_outcomes :: "v3_planner \<Rightarrow> cold_start_results \<Rightarrow> v3_planner" where
  "record_outcomes p results =
    (let p = p\<lparr>vp_changed_slots := vp_changed_slots p @ res_verified results\<rparr>
     in if vp_exact_surface p \<noteq> NoSurface
        then p\<lparr>vp_proven_zero_slots := sort_dedup (vp_proven_zero_slots p @ exact_outcomes p results (\<lambda>f. f = FetchZero)),
               vp_failed_exact_slots := sort_dedup (vp_failed_exact_slots p
                 @ exact_outcomes p results (\<lambda>f. case f of FetchFailed _ \<Rightarrow> True | NotAttempted \<Rightarrow> True | _ \<Rightarrow> False))\<rparr>
        else p)"

definition observation_cells :: "v3_planner \<Rightarrow> u256 \<Rightarrow> (address \<times> u256) list" where
  "observation_cells p slot0 =
    (let observation_index = (ucast (drop_bit 184 slot0 AND 0xFFFF) :: u16);
         observation_cardinality = (ucast (drop_bit 200 slot0 AND 0xFFFF) :: u16)
     in case vp_exact_surface p of
         CanonicalUniswap \<Rightarrow> [(vp_address p, 8 + ucast observation_index)]
       | SlipstreamSurface \<Rightarrow> map (\<lambda>index. (vp_address p, 20 + of_nat index)) [0..<unat observation_cardinality]
       | NoSurface \<Rightarrow> [])"

definition on_slot0 :: "keccak \<Rightarrow> v3_planner \<Rightarrow> cold_start_results \<Rightarrow> (cold_start_step \<times> v3_planner) result" where
  "on_slot0 keccak256 p results =
    (case fetch_of results (vp_address p) (slot0_slot (vp_layout p)) of
       Some (FetchValue slot0) \<Rightarrow>
         if vp_failed_exact_slots p \<noteq> [] then Inr (Done, p)
         else
           rbind (v3_word_position (int24_from_word (drop_bit SLOT0_TICK_SHIFT slot0)) (tick_spacing (vp_layout p))) (\<lambda>current_word.
           rbind (resolve_window keccak256 p current_word) (\<lambda>window.
           let p = p\<lparr>vp_window := window\<rparr>;
               window_keys = map (\<lambda>(_, key). (vp_address p, key)) window
           in case vp_policy p of
               HotSlotsOnly \<Rightarrow> Inr (Done, p)
             | Lazy \<Rightarrow> Inr (Done, p\<lparr>vp_deferred := vp_deferred p @ [DeferVerifySlots window_keys]\<rparr>)
             | _ \<Rightarrow> let verify = window_keys @ observation_cells p slot0
                    in Inr (Continue (verify_plan verify),
                         p\<lparr>vp_phase := BitmapWord, vp_verified_slots := vp_verified_slots p @ verify\<rparr>)))
     | _ \<Rightarrow> Inr (Done, p\<lparr>vp_slot0_cold := True\<rparr>))"

definition tick_of_bit :: "i16 \<Rightarrow> nat \<Rightarrow> i32 \<Rightarrow> i32 result" where
  "tick_of_bit word i spacing =
    (let tick_i = (sint word * 256 + int i) * spacing
     in if - (2 ^ 31) \<le> tick_i \<and> tick_i < 2 ^ 31 then Inr tick_i else Inl (Panicked ''attempt to multiply with overflow''))"

definition tick_cells :: "keccak \<Rightarrow> v3_planner \<Rightarrow> i16 \<Rightarrow> u256 \<Rightarrow> nat \<Rightarrow> (address \<times> u256) list result" where
  "tick_cells keccak256 p word bitmap i =
    (if drop_bit i bitmap AND 1 = 1
     then rbind (tick_of_bit word i (tick_spacing (vp_layout p))) (\<lambda>tick_i.
       if \<not> (V3_MIN_TICK \<le> tick_i \<and> tick_i \<le> V3_MAX_TICK) then Inr []
       else Inr (map (Pair (vp_address p))
         (if vp_exact_surface p = SlipstreamSurface
          then slipstream_tick_info_storage_keys_with_base keccak256 tick_i (ticks_base_slot (vp_layout p))
          else v3_tick_info_storage_keys_with_base keccak256 tick_i (ticks_base_slot (vp_layout p)))))
     else Inr [])"

definition window_bitmap :: "v3_planner \<Rightarrow> cold_start_results \<Rightarrow> state_view \<Rightarrow> u256 \<Rightarrow> u256 option" where
  "window_bitmap p results state key =
    (case (case fetch_of results (vp_address p) key of
             Some (FetchValue value) \<Rightarrow> Some value
           | Some FetchZero \<Rightarrow> Some 0
           | _ \<Rightarrow> None)
     of Some bitmap \<Rightarrow> Some bitmap
      | None \<Rightarrow> state (vp_address p) key)"

definition window_word_cells ::
  "keccak \<Rightarrow> v3_planner \<Rightarrow> cold_start_results \<Rightarrow> state_view \<Rightarrow> i16 \<times> u256 \<Rightarrow> (address \<times> u256) list result" where
  "window_word_cells keccak256 p results state = (\<lambda>(word, key).
    case window_bitmap p results state key of
      None \<Rightarrow> Inr []
    | Some bitmap \<Rightarrow> rbind (rmap (tick_cells keccak256 p word bitmap) [0..<256]) (\<lambda>cells. Inr (concat cells)))"

definition on_bitmaps :: "keccak \<Rightarrow> v3_planner \<Rightarrow> cold_start_results \<Rightarrow> state_view \<Rightarrow> (cold_start_step \<times> v3_planner) result" where
  "on_bitmaps keccak256 p results state =
    (if vp_failed_exact_slots p \<noteq> [] then Inr (Done, p)
     else
       rbind (rmap (window_word_cells keccak256 p results state) (vp_window p)) (\<lambda>cells.
       let tick_slots = concat cells;
           missing = map (\<lambda>(_, key). (vp_address p, key))
             (filter (\<lambda>(_, key). window_bitmap p results state key = None) (vp_window p));
           p = p\<lparr>vp_failed_exact_slots := vp_failed_exact_slots p @ missing\<rparr>
       in if tick_slots = [] then Inr (Done, p)
          else Inr (Continue (verify_plan tick_slots),
            p\<lparr>vp_phase := TickInfo, vp_verified_slots := vp_verified_slots p @ tick_slots\<rparr>)))"

definition v3_on_results ::
  "keccak \<Rightarrow> v3_planner \<Rightarrow> cold_start_results \<Rightarrow> state_view \<Rightarrow> (cold_start_step \<times> v3_planner) result" where
  "v3_on_results keccak256 p results state =
    (let p = record_outcomes p results
     in case vp_phase p of
         Slot0Liquidity \<Rightarrow> on_slot0 keccak256 p results
       | BitmapWord \<Rightarrow> on_bitmaps keccak256 p results state
       | TickInfo \<Rightarrow> Inr (Done, p))"

section \<open>Finishing\<close>

definition v3_materialization_updates :: "v3_planner \<Rightarrow> state_update list" where
  "v3_materialization_updates p =
    (if vp_slot0_cold p then [] else map (\<lambda>(a, slot). Slot a slot 0) (vp_proven_zero_slots p))"

definition record_v3_warmed_slots :: "pool_registration \<Rightarrow> address \<Rightarrow> (address \<times> u256) list \<Rightarrow> pool_registration" where
  "record_v3_warmed_slots pool address verified_slots =
    (let slots = remdups_adj (sort (map snd (filter (\<lambda>(slot_address, _). slot_address = address) verified_slots)))
     in case reg_metadata pool of
         UniswapV3Meta m \<Rightarrow> pool\<lparr>reg_metadata := UniswapV3Meta (m\<lparr>v3_warmed_slots := slots\<rparr>)\<rparr>
       | PancakeV3Meta m \<Rightarrow> pool\<lparr>reg_metadata := PancakeV3Meta (m\<lparr>v3_warmed_slots := slots\<rparr>)\<rparr>
       | SlipstreamMeta m \<Rightarrow> pool\<lparr>reg_metadata := SlipstreamMeta (m\<lparr>v3_warmed_slots := slots\<rparr>)\<rparr>
       | _ \<Rightarrow> pool)"

definition v3_finish ::
  "v3_planner \<Rightarrow> pool_registration \<Rightarrow> cold_start_run_report \<Rightarrow> cold_start_outcome \<times> pool_registration" where
  "v3_finish p pool _ =
    (let cold_report = (report_new (reg_key pool) (vp_policy p))
           \<lparr>csr_verified_slots := vp_verified_slots p, csr_changed_slots := vp_changed_slots p\<rparr>;
         degraded = cold_report\<lparr>csr_status := Degraded\<rparr>
     in if vp_slot0_cold p
        then (NeedsRepair degraded (VerifySlots [(vp_address p, slot0_slot (vp_layout p))]), pool\<lparr>reg_status := Degraded\<rparr>)
        else if vp_failed_exact_slots p \<noteq> []
        then (NeedsRepair degraded (VerifySlots (vp_failed_exact_slots p)), pool\<lparr>reg_status := Degraded\<rparr>)
        else
          let pool' = (record_v3_warmed_slots pool (vp_address p) (vp_verified_slots p))\<lparr>reg_status := Ready\<rparr>;
              cold_report = cold_report\<lparr>csr_status := Ready\<rparr>
          in if vp_deferred p = [] then (OutcomeReady cold_report, pool')
             else (ReadyWithDeferred (cold_report\<lparr>csr_deferred := vp_deferred p\<rparr>) (vp_deferred p), pool'))"

definition v3_planner_adapter :: "keccak \<Rightarrow> v3_planner planner_adapter" where
  "v3_planner_adapter keccak256 = \<lparr>pa_ops = \<lparr>op_initial_plan = v3_initial_plan,
     op_on_results = (\<lambda>p results state. case v3_on_results keccak256 p results state of Inr step \<Rightarrow> step | Inl e \<Rightarrow> (Abort e, p)),
     op_finish = v3_finish\<rparr>, pa_planner = v3_cold_start_planner keccak256\<rparr>"

end
