(* ===== verification/V3_Cold_Start.thy ===== *)
theory V3_Cold_Start
  imports V3_Planner
begin

text \<open>
  What the cold start of a concentrated pool achieves. With an \<open>int24\<close> tick spacing the planner never aborts and stops
  within three rounds, whatever the provider answers (\<open>v3_on_results_advances\<close>, \<open>v3_drive_budget\<close>); with a provider that
  answers from one state of the chain, a canonical pool becomes ready and its storage holds the cells that replays
  inside the window read (\<open>v3_cold_start_warms\<close>).
\<close>

unbundle bit_operations_syntax

section \<open>The window\<close>

text \<open>The word of a tick, and the words of the window around the current tick.\<close>

definition tick_word :: "i32 \<Rightarrow> i32 \<Rightarrow> int" where
  "tick_word spacing tick = tick div spacing div 256"

definition in_window :: "i32 \<Rightarrow> int \<Rightarrow> i32 \<Rightarrow> int \<Rightarrow> bool" where
  "in_window spacing radius tick w \<longleftrightarrow>
    tick_word spacing (- 887272) \<le> w \<and> w \<le> tick_word spacing 887272 \<and> \<bar>w - tick_word spacing tick\<bar> \<le> max radius 0"

lemma tick_word_mono: "0 < spacing \<Longrightarrow> s \<le> t \<Longrightarrow> tick_word spacing s \<le> tick_word spacing t"
  by (simp add: tick_word_def zdiv_mono1)

lemma tick_word_bounds:
  assumes "0 < spacing" "- (2 ^ 23) \<le> tick" "tick < 2 ^ 23"
  shows "- (2 ^ 15) \<le> tick_word spacing tick" "tick_word spacing tick < 2 ^ 15"
proof -
  have "- (2 ^ 23) \<le> tick div spacing"
  proof (cases "0 \<le> tick")
    case True
    then show ?thesis using assms(1) by (simp add: pos_imp_zdiv_nonneg_iff order_trans [of _ 0])
  next
    case False
    have "tick * spacing \<le> tick" using False assms(1) mult_left_mono_neg [of 1 spacing tick] by simp
    then have "tick \<le> tick div spacing" using assms(1) zdiv_mono1 [of "tick * spacing" tick spacing] by simp
    then show ?thesis using assms(2) by linarith
  qed
  then show "- (2 ^ 15) \<le> tick_word spacing tick"
    using zdiv_mono1 [of "- (2 ^ 23)" "tick div spacing" 256] by (simp add: tick_word_def)
  have "tick div spacing \<le> 2 ^ 23 - 1"
  proof (cases "0 \<le> tick")
    case True
    then have "tick div spacing \<le> tick" using assms(1) zdiv_mono2 [of tick 1 spacing] by simp
    then show ?thesis using assms(3) by linarith
  next
    case False
    then have "tick div spacing < 0" using assms(1) by (simp add: pos_imp_zdiv_neg_iff)
    then show ?thesis by simp
  qed
  then show "tick_word spacing tick < 2 ^ 15"
    using zdiv_mono1 [of "tick div spacing" "2 ^ 23 - 1" 256] by (simp add: tick_word_def)
qed

lemma sint_i16: "- (2 ^ 15) \<le> x \<Longrightarrow> x < 2 ^ 15 \<Longrightarrow> sint (word_of_int x :: i16) = x"
  by (simp add: sint_uint uint_word_of_int_eq signed_take_bit_take_bit signed_take_bit_int_eq_self)

lemma v3_word_position_tick_word: "0 < spacing \<Longrightarrow> v3_word_position tick spacing = Inr (word_of_int (tick_word spacing tick))"
  by (simp add: v3_word_position_def tick_word_def)

definition bitmap_key :: "keccak \<Rightarrow> v3_storage_layout \<Rightarrow> int \<Rightarrow> u256" where
  "bitmap_key keccak256 layout w = v3_tick_bitmap_storage_key_with_base keccak256 (word_of_int w) (tick_bitmap_base_slot layout)"

lemma in_window_range:
  assumes "0 < spacing" "in_window spacing radius tick w"
  shows "- (2 ^ 15) \<le> w" "w < 2 ^ 15"
  using assms tick_word_bounds [of spacing "- 887272"] tick_word_bounds [of spacing 887272] by (auto simp: in_window_def)

lemma resolve_window_words:
  assumes "0 < tick_spacing (vp_layout p)" "- (2 ^ 23) \<le> tick" "tick < 2 ^ 23"
  shows "\<exists>ws. resolve_window keccak256 p (word_of_int (tick_word (tick_spacing (vp_layout p)) tick))
      = Inr (map (\<lambda>w. (word_of_int w, bitmap_key keccak256 (vp_layout p) w)) ws)
    \<and> set ws = {w. in_window (tick_spacing (vp_layout p)) (sint (vp_radius p)) tick w}"
proof -
  let ?sp = "tick_spacing (vp_layout p)"
  note s = sint_i16 [OF tick_word_bounds [OF assms]]
    sint_i16 [OF tick_word_bounds [OF assms(1), of "- 887272"]] sint_i16 [OF tick_word_bounds [OF assms(1), of 887272]]
  define ws where "ws = [max (tick_word ?sp tick - max (sint (vp_radius p)) 0) (tick_word ?sp (- 887272))
    ..min (tick_word ?sp tick + max (sint (vp_radius p)) 0) (tick_word ?sp 887272)]"
  have "resolve_window keccak256 p (word_of_int (tick_word ?sp tick))
      = Inr (map (\<lambda>w. (word_of_int w, bitmap_key keccak256 (vp_layout p) w)) ws)"
    using s by (simp add: ws_def resolve_window_def v3_word_position_tick_word assms(1) Let_def V3_MIN_TICK_def V3_MAX_TICK_def bitmap_key_def)
  moreover have "set ws = {w. in_window ?sp (sint (vp_radius p)) tick w}" by (auto simp: in_window_def ws_def)
  ultimately show ?thesis by blast
qed

text \<open>For every \<open>int24\<close> spacing the ticks of the window fit an \<open>i32\<close>.\<close>

lemma tick_of_bit_fits:
  assumes "0 < spacing" "spacing < 2 ^ 23" "in_window spacing radius tick w" "i < 256"
  shows "tick_of_bit (word_of_int w) i spacing = Inr ((w * 256 + int i) * spacing)"
proof -
  have w: "tick_word spacing (- 887272) \<le> w" "w \<le> tick_word spacing 887272" using assms(3) by (simp_all add: in_window_def)
  have "- (2 ^ 31) \<le> (w * 256 + int i) * spacing \<and> (w * 256 + int i) * spacing < 2 ^ 31"
  proof (cases "887272 < spacing")
    case True
    have "tick_word spacing 887272 = 0" using True by (simp add: tick_word_def div_pos_pos_trivial)
    moreover have "- 887272 div spacing = - 1" using True by (simp add: zdiv_zminus1_eq_if div_pos_pos_trivial mod_pos_pos_trivial)
    ultimately have "- 1 \<le> w" "w \<le> 0" using w by (simp_all add: tick_word_def)
    then have "- 256 \<le> w * 256 + int i" "w * 256 + int i \<le> 255" using assms(4) by simp_all
    then have "- 256 * spacing \<le> (w * 256 + int i) * spacing" "(w * 256 + int i) * spacing \<le> 255 * spacing"
      using assms(1) by (simp_all only: mult_right_mono less_imp_le)
    then show ?thesis using assms(2) by simp
  next
    case False
    have "w * 256 \<le> 887272 div spacing"
      using w(2) div_mult_mod_eq [of "887272 div spacing" 256] pos_mod_sign [of 256 "887272 div spacing"]
      unfolding tick_word_def by linarith
    then have "w * 256 * spacing \<le> 887272 div spacing * spacing" using assms(1) by simp
    then have up: "w * 256 * spacing \<le> 887272"
      using div_mult_mod_eq [of 887272 spacing] pos_mod_sign [OF assms(1), of 887272] by linarith
    have "- 887272 div spacing - 255 \<le> w * 256"
      using w(1) div_mult_mod_eq [of "- 887272 div spacing" 256] pos_mod_bound [of 256 "- 887272 div spacing"]
      unfolding tick_word_def by linarith
    then have "(- 887272 div spacing - 255) * spacing \<le> w * 256 * spacing" using assms(1) by simp
    then have low: "- 887272 - 256 * spacing \<le> w * 256 * spacing"
      using div_mult_mod_eq [of "- 887272" spacing] pos_mod_bound [OF assms(1), of "- 887272"]
      unfolding left_diff_distrib by linarith
    have "0 \<le> int i * spacing" "int i * spacing \<le> 255 * spacing"
      using assms(1,4) by (simp_all add: mult_right_mono)
    moreover have "(2 :: int) ^ 31 = 2147483648" by simp
    ultimately show ?thesis using False up low unfolding distrib_right by (intro conjI) linarith+
  qed
  then show ?thesis using sint_i16 [OF in_window_range [OF assms(1,3)]] by (simp add: tick_of_bit_def Let_def)
qed

section \<open>Rounds with an answering provider\<close>

text \<open>
  A provider that answers from one state of the chain, as \<open>SlotFetch\<close> documents it: one outcome per requested slot,
  a patch that says nothing else than the chain and has every requested cell that is not zero.
\<close>

definition outcome_of :: "state_view \<Rightarrow> address \<times> u256 \<Rightarrow> slot_outcome" where
  "outcome_of onchain = (\<lambda>(a, k). \<lparr>so_address = a, so_slot = k, so_fetch =
     (case onchain a k of None \<Rightarrow> FetchFailed ''unavailable'' | Some v \<Rightarrow> if v = 0 then FetchZero else FetchValue v)\<rparr>)"

definition answers_from :: "state_view \<Rightarrow> (address \<times> u256) list \<Rightarrow> storage_round \<Rightarrow> bool" where
  "answers_from onchain verify r \<longleftrightarrow>
    sr_fetched r = map (outcome_of onchain) verify
    \<and> list_all (\<lambda>((a, k), v). onchain a k = Some v) (sr_patch r)
    \<and> list_all (\<lambda>(a, k). onchain a k \<in> {None, Some 0} \<or> (a, k) \<in> fst ` set (sr_patch r)) verify"

definition provider_answers :: "state_view \<Rightarrow> 'e fetcher \<Rightarrow> bool" where
  "provider_answers onchain fetch \<longleftrightarrow> (\<forall>n verify probe. \<exists>r. fetch n verify probe = Inr r \<and> answers_from onchain verify r)"

text \<open>The storage of a job says nothing but the chain and has the given cells unless they are zero.\<close>

definition warmed :: "state_view \<Rightarrow> (address \<times> u256) list \<Rightarrow> (cell \<times> u256) list \<Rightarrow> bool" where
  "warmed onchain cells storage \<longleftrightarrow>
    btree_ok storage \<and> (\<forall>a k v. map_of storage (a, k) = Some v \<longrightarrow> onchain a k = Some v)
    \<and> (\<forall>(a, k) \<in> set cells. onchain a k \<in> {None, Some 0} \<or> map_of storage (a, k) = onchain a k)"

lemma fold_btree_insert_lookup:
  assumes "list_all (\<lambda>((a, k), v). onchain a k = Some v) patch"
  shows "map_of (fold (\<lambda>(cell, new). btree_insert cell new) patch storage) (a, k)
    = (if (a, k) \<in> fst ` set patch then onchain a k else map_of storage (a, k))"
  using assms by (induction patch arbitrary: storage) (auto simp: map_of_btree_insert)

lemma warmed_round:
  assumes "warmed onchain cells storage" "answers_from onchain verify r"
    and "fold (apply_patch_value base) (sr_patch r) ([], storage) = (verified, storage')"
  shows "warmed onchain (cells @ verify) storage'"
proof -
  have s: "storage' = fold (\<lambda>(cell, new). btree_insert cell new) (sr_patch r) storage"
    using apply_patch_storage [of base "sr_patch r" "[]" storage] assms(3) by simp
  have p: "list_all (\<lambda>((a, k), v). onchain a k = Some v) (sr_patch r)" using assms(2) by (simp add: answers_from_def)
  note look = fold_btree_insert_lookup [OF p, of storage]
  have known: "onchain a k \<noteq> None" if "(a, k) \<in> fst ` set (sr_patch r)" for a k
    using that p by (fastforce simp: list_all_iff)
  show ?thesis unfolding warmed_def
  proof (intro conjI allI impI ballI)
    show "btree_ok storage'" unfolding s using assms(1) by (simp add: warmed_def apply_patch_ok)
    show "onchain a k = Some v" if "map_of storage' (a, k) = Some v" for a k v
      using that assms(1) unfolding s look by (auto simp: warmed_def split: if_splits)
    show "case c of (a, k) \<Rightarrow> onchain a k \<in> {None, Some 0} \<or> map_of storage' (a, k) = onchain a k"
      if c: "c \<in> set (cells @ verify)" for c
    proof -
      obtain a k where ak: "c = (a, k)" by (cases c)
      consider "(a, k) \<in> set cells" | "(a, k) \<in> set verify" using c ak by auto
      then have "onchain a k \<in> {None, Some 0} \<or> map_of storage (a, k) = onchain a k \<or> (a, k) \<in> fst ` set (sr_patch r)"
      proof cases
        case 1
        have "\<forall>c \<in> set cells. case c of (a, k) \<Rightarrow> onchain a k \<in> {None, Some 0} \<or> map_of storage (a, k) = onchain a k"
          using assms(1) unfolding warmed_def by (elim conjE)
        from bspec [OF this 1] show ?thesis by auto
      next
        case 2
        have "\<forall>c \<in> set verify. case c of (a, k) \<Rightarrow> onchain a k \<in> {None, Some 0} \<or> (a, k) \<in> fst ` set (sr_patch r)"
          using assms(2) unfolding answers_from_def list_all_iff by (elim conjE)
        from bspec [OF this 2] show ?thesis by auto
      qed
      then show ?thesis unfolding s ak by (auto simp: look)
    qed
  qed
qed

text \<open>One round of the drive.\<close>

lemma drive_answered:
  assumes "provider_answers onchain fetch" "warmed onchain cells storage"
  obtains results storage' report' where "res_fetched results = map (outcome_of onchain) slots"
    "warmed onchain (cells @ slots) storage'"
    "drive fetch ops pool baseline base accounts n (Suc left) p (verify_plan slots) storage report =
      (case op_on_results ops p results (worker_view base storage') of
         (Continue nx, p') \<Rightarrow> drive fetch ops pool baseline base accounts (Suc n) left p' nx storage' report'
       | (Done, p') \<Rightarrow> conclude ops p' pool baseline accounts report' storage'
       | (Abort e, _) \<Rightarrow> Inl (PlannerPanicked e))"
proof -
  have v: "pln_verify (verify_plan slots) = slots" "pln_probe (verify_plan slots) = []"
    "reject_unsupported_phase (verify_plan slots) = Inr ()"
    by (simp_all add: verify_plan_def empty_plan_def reject_unsupported_phase_def)
  obtain r where r: "fetch n slots [] = Inr r" "answers_from onchain slots r"
    using assms(1) unfolding provider_answers_def by blast
  obtain verified storage' where f: "fold (apply_patch_value base) (sr_patch r) ([], storage) = (verified, storage')"
    by (cases "fold (apply_patch_value base) (sr_patch r) ([], storage)")
  have "res_fetched (round_results r verified) = map (outcome_of onchain) slots"
    using r(2) by (simp add: round_results_def answers_from_def)
  then show thesis using warmed_round [OF assms(2) r(2) f]
    by (rule that [of _ _ "absorb_worker_round report (verify_plan slots) (round_results r verified)"]) (simp add: v r f Let_def)
qed

lemma fetch_of_answered:
  assumes "res_fetched results = map (outcome_of onchain) slots" "(a, k) \<in> set slots"
  shows "fetch_of results a k = Some (so_fetch (outcome_of onchain (a, k)))"
proof -
  have "find (\<lambda>o'. so_address o' = a \<and> so_slot o' = k) (map (outcome_of onchain) slots) = Some (outcome_of onchain (a, k))"
    using assms(2) by (induction slots) (auto simp: outcome_of_def)
  then show ?thesis by (simp add: fetch_of_def assms(1))
qed

lemma record_outcomes_answered:
  assumes "res_fetched results = map (outcome_of onchain) slots" "\<forall>(a, k) \<in> set slots. onchain a k \<noteq> None"
    "vp_failed_exact_slots p = []"
  shows "record_outcomes p results = p\<lparr>vp_changed_slots := vp_changed_slots (record_outcomes p results),
    vp_proven_zero_slots := vp_proven_zero_slots (record_outcomes p results)\<rparr>"
proof -
  have "exact_outcomes q results (\<lambda>f. case f of FetchFailed _ \<Rightarrow> True | NotAttempted \<Rightarrow> True | _ \<Rightarrow> False) = []" for q
    using assms(2) by (fastforce simp: exact_outcomes_def assms(1) filter_empty_conv outcome_of_def split: option.splits if_splits)
  then show ?thesis using assms(3)
    by (cases "vp_exact_surface p = NoSurface"; cases p) (auto simp: record_outcomes_def Let_def sort_dedup_def)
qed

text \<open>The tick that the planner reads from slot0 is the tick that the transitions read.\<close>

lemma slot0_tick: "int24_from_word (drop_bit SLOT0_TICK_SHIFT w) = s0_tick (slot0_decode w)"
  by (simp add: int24_from_word_sint slot0_decode_fields field_def sint_uint unsigned_ucast_eq SLOT0_TICK_SHIFT_def
      unsigned_take_bit_eq signed_take_bit_take_bit)

text \<open>What a round leaves alone.\<close>

definition same_setup :: "v3_planner \<Rightarrow> v3_planner \<Rightarrow> bool" where
  "same_setup p q \<longleftrightarrow>
    vp_address q = vp_address p \<and> vp_layout q = vp_layout p \<and> vp_exact_surface q = vp_exact_surface p
    \<and> vp_deferred q = vp_deferred p \<and> vp_slot0_cold q = vp_slot0_cold p \<and> vp_failed_exact_slots q = []"

lemma first_round:
  assumes fetched: "res_fetched results = map (outcome_of onchain) slots" and total: "\<And>a k. onchain a k \<noteq> None"
    and slot0: "(vp_address p, slot0_slot (vp_layout p)) \<in> set slots" "onchain (vp_address p) (slot0_slot (vp_layout p)) = Some w" "w \<noteq> 0"
    and p: "vp_phase p = Slot0Liquidity" "vp_failed_exact_slots p = []" "0 < tick_spacing (vp_layout p)" "vp_policy p \<in> {Strict, Eager}"
  obtains ws cells q where "v3_on_results keccak256 p results state = Inr (Continue (verify_plan cells), q)" "same_setup p q"
    "vp_phase q = BitmapWord" "vp_verified_slots q = vp_verified_slots p @ cells"
    "cells = map (\<lambda>w. (vp_address p, bitmap_key keccak256 (vp_layout p) w)) ws @ observation_cells p w"
    "vp_window q = map (\<lambda>w. (word_of_int w, bitmap_key keccak256 (vp_layout p) w)) ws"
    "set ws = {v. in_window (tick_spacing (vp_layout p)) (sint (vp_radius p)) (s0_tick (slot0_decode w)) v}"
proof -
  define r where "r = record_outcomes p results"
  have r: "r = p\<lparr>vp_changed_slots := vp_changed_slots r, vp_proven_zero_slots := vp_proven_zero_slots r\<rparr>"
    unfolding r_def by (rule record_outcomes_answered [OF fetched _ p(2)]) (auto simp: total)
  have sel: "vp_address r = vp_address p" "vp_layout r = vp_layout p" "vp_exact_surface r = vp_exact_surface p"
    "vp_policy r = vp_policy p" "vp_radius r = vp_radius p" "vp_phase r = Slot0Liquidity" "vp_failed_exact_slots r = []"
    "vp_deferred r = vp_deferred p" "vp_slot0_cold r = vp_slot0_cold p" "vp_verified_slots r = vp_verified_slots p"
    by (subst r, simp add: p)+
  have f: "fetch_of results (vp_address p) (slot0_slot (vp_layout p)) = Some (FetchValue w)"
    using fetch_of_answered [OF fetched slot0(1)] slot0(2,3) by (simp add: outcome_of_def)
  obtain ws where ws: "resolve_window keccak256 r (word_of_int (tick_word (tick_spacing (vp_layout p)) (s0_tick (slot0_decode w))))
      = Inr (map (\<lambda>w. (word_of_int w, bitmap_key keccak256 (vp_layout p) w)) ws)"
    "set ws = {v. in_window (tick_spacing (vp_layout p)) (sint (vp_radius p)) (s0_tick (slot0_decode w)) v}"
    using resolve_window_words [of r "s0_tick (slot0_decode w)" keccak256] p(3) slot0_decode_bounds [of w] by (auto simp: sel)
  define window where "window = map (\<lambda>w. (word_of_int w :: i16, bitmap_key keccak256 (vp_layout p) w)) ws"
  define cells where "cells = map (\<lambda>w. (vp_address p, bitmap_key keccak256 (vp_layout p) w)) ws @ observation_cells p w"
  define q where "q = r\<lparr>vp_window := window, vp_phase := BitmapWord, vp_verified_slots := vp_verified_slots p @ cells\<rparr>"
  have obs: "observation_cells (r\<lparr>vp_window := window\<rparr>) w = observation_cells p w"
    by (simp add: observation_cells_def sel split: v3_exact_surface.split)
  have "v3_on_results keccak256 p results state = Inr (Continue (verify_plan cells), q)"
    using p(4) unfolding v3_on_results_def r_def [symmetric] Let_def sel v3_phase.case on_slot0_def f
    by (auto simp: slot0_tick v3_word_position_tick_word p(3) ws(1) sel window_def [symmetric] obs q_def cells_def)
      (auto simp: window_def case_prod_unfold o_def)
  then show thesis
    by (rule that [OF _ _ _ _ cells_def _ ws(2)]) (simp_all add: q_def same_setup_def sel window_def)
qed

lemma rmap_total: "(\<And>x. x \<in> set xs \<Longrightarrow> f x = Inr (g x)) \<Longrightarrow> rmap f xs = Inr (map g xs)"
  by (induction xs) auto

definition tick_info_keys :: "keccak \<Rightarrow> v3_planner \<Rightarrow> i32 \<Rightarrow> u256 list" where
  "tick_info_keys keccak256 p t =
    (if vp_exact_surface p = SlipstreamSurface then slipstream_tick_info_storage_keys_with_base keccak256 t (ticks_base_slot (vp_layout p))
     else v3_tick_info_storage_keys_with_base keccak256 t (ticks_base_slot (vp_layout p)))"

definition word_ticks :: "i32 \<Rightarrow> int \<Rightarrow> u256 \<Rightarrow> i32 list" where
  "word_ticks spacing w bitmap =
    filter (\<lambda>t. - 887272 \<le> t \<and> t \<le> 887272) (map (\<lambda>i. (w * 256 + int i) * spacing) (filter (bit bitmap) [0..<256]))"

lemma lsb_drop_bit: "drop_bit i w AND 1 = 1 \<longleftrightarrow> bit (w :: 'a::len word) i"
  by (simp add: bit_iff_odd_drop_bit and_one_eq odd_iff_mod_2_eq_one)

lemma word_cells:
  assumes "0 < tick_spacing (vp_layout p)" "tick_spacing (vp_layout p) < 2 ^ 23"
    and "in_window (tick_spacing (vp_layout p)) radius tick w" "window_bitmap p results state key = Some bitmap"
  shows "window_word_cells keccak256 p results state (word_of_int w, key)
    = Inr (concat (map (\<lambda>t. map (Pair (vp_address p)) (tick_info_keys keccak256 p t)) (word_ticks (tick_spacing (vp_layout p)) w bitmap)))"
proof -
  define g where "g = (\<lambda>i. let t = (w * 256 + int i) * tick_spacing (vp_layout p)
    in if bit bitmap i \<and> - 887272 \<le> t \<and> t \<le> 887272 then map (Pair (vp_address p)) (tick_info_keys keccak256 p t) else [])"
  have "tick_cells keccak256 p (word_of_int w) bitmap i = Inr (g i)" if "i \<in> set [0..<256]" for i
    using tick_of_bit_fits [OF assms(1-3), of i] that
    by (simp add: tick_cells_def lsb_drop_bit g_def Let_def V3_MIN_TICK_def V3_MAX_TICK_def tick_info_keys_def)
  then have "rmap (tick_cells keccak256 p (word_of_int w) bitmap) [0..<256] = Inr (map g [0..<256])" by (rule rmap_total)
  moreover have "concat (map g is) = concat (map (\<lambda>t. map (Pair (vp_address p)) (tick_info_keys keccak256 p t))
      (filter (\<lambda>t. - 887272 \<le> t \<and> t \<le> 887272)
        (map (\<lambda>i. (w * 256 + int i) * tick_spacing (vp_layout p)) (filter (bit bitmap) is))))" for "is"
    by (induction "is") (simp_all add: g_def Let_def)
  ultimately show ?thesis using assms(4) by (simp add: window_word_cells_def word_ticks_def)
qed

lemma second_round:
  assumes fetched: "res_fetched results = map (outcome_of onchain) slots" and total: "\<And>a k. onchain a k \<noteq> None"
    and p: "vp_phase p = BitmapWord" "vp_failed_exact_slots p = []" "0 < tick_spacing (vp_layout p)" "tick_spacing (vp_layout p) < 2 ^ 23"
    and window: "vp_window p = map (\<lambda>w. (word_of_int w, bitmap_key keccak256 (vp_layout p) w)) ws"
      "\<And>w. w \<in> set ws \<Longrightarrow> in_window (tick_spacing (vp_layout p)) radius tick w"
      "\<And>w. w \<in> set ws \<Longrightarrow> (vp_address p, bitmap_key keccak256 (vp_layout p) w) \<in> set slots"
  obtains cells q where "v3_on_results keccak256 p results state = Inr (if cells = [] then Done else Continue (verify_plan cells), q)"
    "same_setup p q" "vp_verified_slots q = vp_verified_slots p @ cells" "cells \<noteq> [] \<longrightarrow> vp_phase q = TickInfo"
    "cells = concat (map (\<lambda>w. concat (map (\<lambda>t. map (Pair (vp_address p)) (tick_info_keys keccak256 p t))
       (word_ticks (tick_spacing (vp_layout p)) w (the (onchain (vp_address p) (bitmap_key keccak256 (vp_layout p) w)))))) ws)"
proof -
  define r where "r = record_outcomes p results"
  have r: "r = p\<lparr>vp_changed_slots := vp_changed_slots r, vp_proven_zero_slots := vp_proven_zero_slots r\<rparr>"
    unfolding r_def by (rule record_outcomes_answered [OF fetched _ p(2)]) (auto simp: total)
  have sel: "vp_address r = vp_address p" "vp_layout r = vp_layout p" "vp_exact_surface r = vp_exact_surface p"
    "vp_phase r = BitmapWord" "vp_failed_exact_slots r = []" "vp_window r = vp_window p"
    "vp_deferred r = vp_deferred p" "vp_slot0_cold r = vp_slot0_cold p" "vp_verified_slots r = vp_verified_slots p"
    by (subst r, simp add: p)+
  let ?word = "\<lambda>w. the (onchain (vp_address p) (bitmap_key keccak256 (vp_layout p) w))"
  have bm: "window_bitmap r results state (bitmap_key keccak256 (vp_layout p) w) = Some (?word w)" if "w \<in> set ws" for w
    using fetch_of_answered [OF fetched window(3) [OF that]] total [of "vp_address p" "bitmap_key keccak256 (vp_layout p) w"]
    by (auto simp: window_bitmap_def outcome_of_def sel)
  define g where "g = (\<lambda>w. concat (map (\<lambda>t. map (Pair (vp_address p)) (tick_info_keys keccak256 p t))
       (word_ticks (tick_spacing (vp_layout p)) w (?word w))))"
  have keys: "tick_info_keys keccak256 r = tick_info_keys keccak256 p" unfolding fun_eq_iff tick_info_keys_def sel by simp
  have "window_word_cells keccak256 r results state (word_of_int w, bitmap_key keccak256 (vp_layout p) w) = Inr (g w)"
    if "w \<in> set ws" for w
    using word_cells [of r radius tick w results state _ _ keccak256] window(2) [OF that] bm [OF that] p(3,4)
    by (simp add: sel g_def keys)
  then have "rmap (\<lambda>w. window_word_cells keccak256 r results state (word_of_int w, bitmap_key keccak256 (vp_layout p) w)) ws
      = Inr (map g ws)" by (rule rmap_total)
  moreover have "rmap f (map h ws) = rmap (\<lambda>w. f (h w)) ws" for f :: "_ \<Rightarrow> (address \<times> u256) list result" and h :: "int \<Rightarrow> i16 \<times> u256"
    by (induction ws) auto
  ultimately have run: "rmap (window_word_cells keccak256 r results state) (vp_window r) = Inr (map g ws)"
    by (simp add: sel window(1))
  have none: "filter (\<lambda>(_, key). window_bitmap r results state key = None) (vp_window r) = []"
    using bm by (auto simp: sel window(1) filter_empty_conv)
  define cells where "cells = concat (map g ws)"
  define q where "q = (if cells = [] then r else r\<lparr>vp_phase := TickInfo, vp_verified_slots := vp_verified_slots p @ cells\<rparr>)"
  have "r\<lparr>vp_failed_exact_slots := []\<rparr> = r" using sel(5) by (cases r) simp
  then have "v3_on_results keccak256 p results state = Inr (if cells = [] then Done else Continue (verify_plan cells), q)"
    unfolding v3_on_results_def r_def [symmetric] Let_def sel(4) v3_phase.case on_bitmaps_def run none
    by (simp add: cells_def [symmetric] q_def sel del: concat_eq_Nil_conv)
  then show thesis by (rule that) (simp_all add: q_def same_setup_def sel cells_def g_def)
qed

lemma third_round:
  assumes "res_fetched results = map (outcome_of onchain) slots" "\<And>a k. onchain a k \<noteq> None"
    "vp_phase p = TickInfo" "vp_failed_exact_slots p = []"
  obtains q where "v3_on_results keccak256 p results state = Inr (Done, q)" "same_setup p q"
    "vp_verified_slots q = vp_verified_slots p"
proof -
  define r where "r = record_outcomes p results"
  have r: "r = p\<lparr>vp_changed_slots := vp_changed_slots r, vp_proven_zero_slots := vp_proven_zero_slots r\<rparr>"
    unfolding r_def by (rule record_outcomes_answered [OF assms(1) _ assms(4)]) (auto simp: assms(2))
  have "vp_phase r = TickInfo" "same_setup p r" "vp_verified_slots r = vp_verified_slots p"
    by (subst r, simp add: assms(3,4) same_setup_def)+
  then show thesis using that [of r] by (simp add: v3_on_results_def r_def [symmetric])
qed

section \<open>The whole run\<close>

lemma conclude_ready:
  assumes "warmed onchain cells storage" "vp_deferred q = []" "\<not> vp_slot0_cold q" "vp_failed_exact_slots q = []"
  shows "conclude (pa_ops (v3_planner_adapter keccak256)) q pool baseline accounts report storage
    = Inr \<lparr>pps_registration = (record_v3_warmed_slots pool (vp_address q) (vp_verified_slots q))\<lparr>reg_status := Ready\<rparr>,
        pps_baseline = baseline, pps_storage = storage, pps_accounts = Some accounts, pps_deferred = []\<rparr>"
proof -
  have ok: "btree_ok storage" using assms(1) by (simp add: warmed_def)
  obtain rep where "op_finish (pa_ops (v3_planner_adapter keccak256)) q pool report
      = (OutcomeReady rep, (record_v3_warmed_slots pool (vp_address q) (vp_verified_slots q))\<lparr>reg_status := Ready\<rparr>)"
    using assms(2-4) by (simp add: v3_planner_adapter_def v3_finish_def Let_def)
  from conclude_eq [OF ok this] show ?thesis by simp
qed

text \<open>The cells of the three rounds.\<close>

definition first_cells :: "v3_planner \<Rightarrow> (address \<times> u256) list" where
  "first_cells p = pln_verify (fst (v3_initial_plan p (\<lambda>_ _. None)))"

lemma initial_plan_cells:
  "v3_initial_plan p state = (verify_plan (first_cells p), p\<lparr>vp_verified_slots := vp_verified_slots p @ first_cells p\<rparr>)"
  by (simp add: first_cells_def v3_initial_plan_def Let_def verify_plan_def)

definition planned_cells :: "keccak \<Rightarrow> v3_planner \<Rightarrow> state_view \<Rightarrow> int list \<Rightarrow> u256 \<Rightarrow> (address \<times> u256) list" where
  "planned_cells keccak256 p onchain ws w =
    first_cells p @ map (\<lambda>w. (vp_address p, bitmap_key keccak256 (vp_layout p) w)) ws @ observation_cells p w
    @ concat (map (\<lambda>w. concat (map (\<lambda>t. map (Pair (vp_address p)) (tick_info_keys keccak256 p t))
       (word_ticks (tick_spacing (vp_layout p)) w (the (onchain (vp_address p) (bitmap_key keccak256 (vp_layout p) w)))))) ws)"

lemma planner_run:
  assumes prov: "provider_answers onchain fetch" and total: "\<And>a k. onchain a k \<noteq> None"
    and slot0: "onchain (vp_address p) (slot0_slot (vp_layout p)) = Some w" "w \<noteq> 0"
    and p: "vp_phase p = Slot0Liquidity" "vp_failed_exact_slots p = []" "vp_deferred p = []" "\<not> vp_slot0_cold p"
      "vp_verified_slots p = []" "0 < tick_spacing (vp_layout p)" "tick_spacing (vp_layout p) < 2 ^ 23" "vp_policy p \<in> {Strict, Eager}"
    and i: "v3_initial_plan p state = (plan, p1)"
  obtains s ws where "drive fetch (pa_ops (v3_planner_adapter keccak256)) pool baseline base accounts n (Suc (Suc (Suc left))) p1 plan [] report
      = Inr s"
    "pps_registration s = (record_v3_warmed_slots pool (vp_address p) (planned_cells keccak256 p onchain ws w))\<lparr>reg_status := Ready\<rparr>"
    "warmed onchain (planned_cells keccak256 p onchain ws w) (pps_storage s)"
    "set ws = {v. in_window (tick_spacing (vp_layout p)) (sint (vp_radius p)) (s0_tick (slot0_decode w)) v}"
proof -
  let ?ops = "pa_ops (v3_planner_adapter keccak256)"
  define slots where "slots = first_cells p"
  have plan: "plan = verify_plan slots" and p1: "p1 = p\<lparr>vp_verified_slots := slots\<rparr>"
    using i p(5) by (auto simp: initial_plan_cells slots_def)
  have in1: "(vp_address p1, slot0_slot (vp_layout p1)) \<in> set slots"
    by (simp add: p1 slots_def first_cells_def v3_initial_plan_def Let_def verify_plan_def)
  have pp: "onchain (vp_address p1) (slot0_slot (vp_layout p1)) = Some w" "vp_phase p1 = Slot0Liquidity" "vp_failed_exact_slots p1 = []"
    "0 < tick_spacing (vp_layout p1)" "vp_policy p1 \<in> {Strict, Eager}"
    using slot0 p by (simp_all add: p1)
  have ops: "op_on_results ?ops q results view = (case v3_on_results keccak256 q results view of Inr step \<Rightarrow> step | Inl e \<Rightarrow> (Abort e, q))"
    for q results view by (simp add: v3_planner_adapter_def)
  have w0: "warmed onchain [] []" by (simp add: warmed_def)
  obtain r1 st1 rep1 where d1: "res_fetched r1 = map (outcome_of onchain) slots" "warmed onchain ([] @ slots) st1"
    "drive fetch ?ops pool baseline base accounts n (Suc (Suc (Suc left))) p1 (verify_plan slots) [] report =
      (case op_on_results ?ops p1 r1 (worker_view base st1) of
         (Continue nx, p') \<Rightarrow> drive fetch ?ops pool baseline base accounts (Suc n) (Suc (Suc left)) p' nx st1 rep1
       | (Done, p') \<Rightarrow> conclude ?ops p' pool baseline accounts rep1 st1
       | (Abort e, _) \<Rightarrow> Inl (PlannerPanicked e))"
    by (rule drive_answered [OF prov w0])
  obtain ws cells2 q where f: "v3_on_results keccak256 p1 r1 (worker_view base st1) = Inr (Continue (verify_plan cells2), q)" "same_setup p1 q"
    "vp_phase q = BitmapWord" "vp_verified_slots q = vp_verified_slots p1 @ cells2"
    "cells2 = map (\<lambda>w. (vp_address p1, bitmap_key keccak256 (vp_layout p1) w)) ws @ observation_cells p1 w"
    "vp_window q = map (\<lambda>w. (word_of_int w, bitmap_key keccak256 (vp_layout p1) w)) ws"
    "set ws = {v. in_window (tick_spacing (vp_layout p1)) (sint (vp_radius p1)) (s0_tick (slot0_decode w)) v}"
    by (rule first_round [OF d1(1) total in1 pp(1) slot0(2) pp(2-5)])
  have q: "vp_address q = vp_address p" "vp_layout q = vp_layout p" "vp_failed_exact_slots q = []" "vp_deferred q = []"
    "\<not> vp_slot0_cold q" "vp_exact_surface q = vp_exact_surface p"
    using f(2) p by (simp_all add: same_setup_def p1)
  obtain r2 st2 rep2 where d2: "res_fetched r2 = map (outcome_of onchain) cells2" "warmed onchain (([] @ slots) @ cells2) st2"
    "drive fetch ?ops pool baseline base accounts (Suc n) (Suc (Suc left)) q (verify_plan cells2) st1 rep1 =
      (case op_on_results ?ops q r2 (worker_view base st2) of
         (Continue nx, p') \<Rightarrow> drive fetch ?ops pool baseline base accounts (Suc (Suc n)) (Suc left) p' nx st2 rep2
       | (Done, p') \<Rightarrow> conclude ?ops p' pool baseline accounts rep2 st2
       | (Abort e, _) \<Rightarrow> Inl (PlannerPanicked e))"
    by (rule drive_answered [OF prov d1(2)])
  have qq: "0 < tick_spacing (vp_layout q)" "tick_spacing (vp_layout q) < 2 ^ 23"
    "vp_window q = map (\<lambda>w. (word_of_int w, bitmap_key keccak256 (vp_layout q) w)) ws"
    "\<And>v. v \<in> set ws \<Longrightarrow> in_window (tick_spacing (vp_layout q)) (sint (vp_radius p)) (s0_tick (slot0_decode w)) v"
    "\<And>v. v \<in> set ws \<Longrightarrow> (vp_address q, bitmap_key keccak256 (vp_layout q) v) \<in> set cells2"
    using p f(5,6,7) by (simp_all add: q p1)
  obtain cells3 u where g: "v3_on_results keccak256 q r2 (worker_view base st2) = Inr (if cells3 = [] then Done else Continue (verify_plan cells3), u)"
    "same_setup q u" "vp_verified_slots u = vp_verified_slots q @ cells3" "cells3 \<noteq> [] \<longrightarrow> vp_phase u = TickInfo"
    "cells3 = concat (map (\<lambda>w. concat (map (\<lambda>t. map (Pair (vp_address q)) (tick_info_keys keccak256 q t))
       (word_ticks (tick_spacing (vp_layout q)) w (the (onchain (vp_address q) (bitmap_key keccak256 (vp_layout q) w)))))) ws)"
    by (rule second_round [OF d2(1) total f(3) q(3) qq])
  have u: "vp_address u = vp_address p" "vp_failed_exact_slots u = []" "vp_deferred u = []" "\<not> vp_slot0_cold u"
    using g(2) q by (simp_all add: same_setup_def)
  have keys: "tick_info_keys keccak256 q = tick_info_keys keccak256 p" unfolding fun_eq_iff tick_info_keys_def q by simp
  have obs: "observation_cells p1 w = observation_cells p w" by (simp add: observation_cells_def p1 split: v3_exact_surface.split)
  have cells: "planned_cells keccak256 p onchain ws w = slots @ cells2 @ cells3"
    unfolding planned_cells_def slots_def f(5) g(5) keys q obs by (simp add: p1)
  have verified: "vp_verified_slots u = planned_cells keccak256 p onchain ws w" unfolding cells g(3) f(4) by (simp add: p1)
  have set_ws: "set ws = {v. in_window (tick_spacing (vp_layout p)) (sint (vp_radius p)) (s0_tick (slot0_decode w)) v}"
    using f(7) by (simp add: p1)
  show thesis
  proof (cases "cells3 = []")
    case True
    have wm: "warmed onchain (planned_cells keccak256 p onchain ws w) st2" using d2(2) unfolding cells True by simp
    have "drive fetch ?ops pool baseline base accounts n (Suc (Suc (Suc left))) p1 plan [] report
      = Inr \<lparr>pps_registration = (record_v3_warmed_slots pool (vp_address p) (planned_cells keccak256 p onchain ws w))\<lparr>reg_status := Ready\<rparr>,
          pps_baseline = baseline, pps_storage = st2, pps_accounts = Some accounts, pps_deferred = []\<rparr>"
      unfolding plan d1(3) ops f(1) sum.case prod.case cold_start_step.case d2(3) g(1)
      by (simp add: True conclude_ready [OF wm u(3,4,2)] u(1) verified)
    then show thesis by (rule that [OF _ _ _ set_ws]) (simp_all add: wm)
  next
    case False
    obtain r3 st3 rep3 where d3: "res_fetched r3 = map (outcome_of onchain) cells3" "warmed onchain ((([] @ slots) @ cells2) @ cells3) st3"
      "drive fetch ?ops pool baseline base accounts (Suc (Suc n)) (Suc left) u (verify_plan cells3) st2 rep2 =
        (case op_on_results ?ops u r3 (worker_view base st3) of
           (Continue nx, p') \<Rightarrow> drive fetch ?ops pool baseline base accounts (Suc (Suc (Suc n))) left p' nx st3 rep3
         | (Done, p') \<Rightarrow> conclude ?ops p' pool baseline accounts rep3 st3
         | (Abort e, _) \<Rightarrow> Inl (PlannerPanicked e))"
      by (rule drive_answered [OF prov d2(2)])
    obtain v where h: "v3_on_results keccak256 u r3 (worker_view base st3) = Inr (Done, v)" "same_setup u v"
      "vp_verified_slots v = vp_verified_slots u"
      by (rule third_round [OF d3(1) total mp [OF g(4) False] u(2)])
    have wm: "warmed onchain (planned_cells keccak256 p onchain ws w) st3" using d3(2) unfolding cells by simp
    have v: "vp_address v = vp_address p" "vp_failed_exact_slots v = []" "vp_deferred v = []" "\<not> vp_slot0_cold v"
      "vp_verified_slots v = planned_cells keccak256 p onchain ws w"
      using h u verified by (simp_all add: same_setup_def)
    have "drive fetch ?ops pool baseline base accounts n (Suc (Suc (Suc left))) p1 plan [] report
      = Inr \<lparr>pps_registration = (record_v3_warmed_slots pool (vp_address p) (planned_cells keccak256 p onchain ws w))\<lparr>reg_status := Ready\<rparr>,
          pps_baseline = baseline, pps_storage = st3, pps_accounts = Some accounts, pps_deferred = []\<rparr>"
      unfolding plan d1(3) ops f(1) sum.case prod.case cold_start_step.case d2(3) g(1)
        if_not_P [OF False] d3(3) h(1)
      by (simp add: conclude_ready [OF wm v(3,4,2)] v(1,5))
    then show thesis by (rule that [OF _ _ _ set_ws]) (simp_all add: wm)
  qed
qed

section \<open>The surface that quotes and replays read\<close>

text \<open>
  The cells of a canonical pool that a swap inside the window reads: slot0, both fee growths, the protocol fees, the
  liquidity, the current observation, the bitmap words of the window, and the four words of every initialized tick
  whose word is in the window.
\<close>

definition tick_is_initialized :: "keccak \<Rightarrow> (u256 \<Rightarrow> u256) \<Rightarrow> v3_storage_layout \<Rightarrow> i32 \<Rightarrow> bool" where
  "tick_is_initialized keccak256 words layout t \<longleftrightarrow>
    - 887272 \<le> t \<and> t \<le> 887272 \<and> t mod tick_spacing layout = 0
    \<and> bit (words (bitmap_key keccak256 layout (tick_word (tick_spacing layout) t))) (nat (t div tick_spacing layout mod 256))"

definition replay_surface :: "keccak \<Rightarrow> (u256 \<Rightarrow> u256) \<Rightarrow> v3_storage_layout \<Rightarrow> int \<Rightarrow> u256 set" where
  "replay_surface keccak256 words layout radius =
    (let slot0 = slot0_decode (words 0); near = in_window (tick_spacing layout) radius (s0_tick slot0)
     in {0, 1, 2, 3, 4, 8 + ucast (s0_observation_index slot0)} \<union> bitmap_key keccak256 layout ` {w. near w}
        \<union> (\<Union>t \<in> {t. tick_is_initialized keccak256 words layout t \<and> near (tick_word (tick_spacing layout) t)}.
            set (v3_tick_info_storage_keys_with_base keccak256 t (ticks_base_slot layout))))"

lemma initialized_word_tick:
  assumes "0 < tick_spacing layout" "tick_is_initialized keccak256 words layout t"
  shows "t \<in> set (word_ticks (tick_spacing layout) (tick_word (tick_spacing layout) t)
    (words (bitmap_key keccak256 layout (tick_word (tick_spacing layout) t))))"
proof -
  define c where "c = t div tick_spacing layout"
  define i where "i = nat (c mod 256)"
  have t: "t = c * tick_spacing layout"
    using assms(2) by (simp add: c_def tick_is_initialized_def) (metis div_mult_mod_eq add.right_neutral)
  have c: "c = tick_word (tick_spacing layout) t * 256 + int i" "i < 256"
    by (simp_all add: tick_word_def c_def [symmetric] i_def)
  have "t = (tick_word (tick_spacing layout) t * 256 + int i) * tick_spacing layout" using t c(1) by simp
  then show ?thesis using assms(2) c(2) unfolding word_ticks_def tick_is_initialized_def
    by (auto simp: c_def [symmetric] i_def [symmetric] intro!: image_eqI [of _ _ i])
qed

lemma surface_planned:
  assumes p: "vp_exact_surface p = CanonicalUniswap" "vp_layout p = layout_uniswap spacing" "0 < spacing"
    and chain: "\<And>k. onchain (vp_address p) k = Some (words k)"
    and ws: "set ws = {v. in_window spacing radius (s0_tick (slot0_decode (words 0))) v}"
  shows "k \<in> replay_surface keccak256 words (layout_uniswap spacing) radius
    \<Longrightarrow> (vp_address p, k) \<in> set (planned_cells keccak256 p onchain ws (words 0))"
proof -
  let ?cells = "set (planned_cells keccak256 p onchain ws (words 0))"
  have obs: "observation_cells p (words 0) = [(vp_address p, 8 + ucast (s0_observation_index (slot0_decode (words 0))))]"
    by (simp add: observation_cells_def p(1) slot0_decode_def unsigned_minus_1_eq_mask mask_eq_exp_minus_1)
  have fixed: "(vp_address p, k) \<in> ?cells" if "k \<in> {0, 1, 2, 3, 4, 8 + ucast (s0_observation_index (slot0_decode (words 0)))}" for k
    using that by (auto simp: planned_cells_def obs first_cells_def v3_initial_plan_def verify_plan_def p Let_def)
  have bitmaps: "(vp_address p, bitmap_key keccak256 (layout_uniswap spacing) w) \<in> ?cells"
    if "in_window spacing radius (s0_tick (slot0_decode (words 0))) w" for w
    using that ws by (simp add: planned_cells_def p(2))
  have ticks: "(vp_address p, k) \<in> ?cells"
    if t: "tick_is_initialized keccak256 words (layout_uniswap spacing) t"
      "in_window spacing radius (s0_tick (slot0_decode (words 0))) (tick_word spacing t)"
      and k: "k \<in> set (v3_tick_info_storage_keys_with_base keccak256 t 5)" for t k
  proof -
    have "t \<in> set (word_ticks spacing (tick_word spacing t) (words (bitmap_key keccak256 (layout_uniswap spacing) (tick_word spacing t))))"
      using initialized_word_tick [of "layout_uniswap spacing" keccak256 words t] t(1) p(3) by simp
    moreover have "tick_word spacing t \<in> set ws" using t(2) ws by simp
    moreover have "k \<in> set (tick_info_keys keccak256 p t)" using k by (simp add: tick_info_keys_def p)
    ultimately show ?thesis unfolding planned_cells_def by (auto simp: p(2) chain intro!: bexI)
  qed
  show "k \<in> replay_surface keccak256 words (layout_uniswap spacing) radius \<Longrightarrow> (vp_address p, k) \<in> ?cells"
    using fixed bitmaps ticks unfolding replay_surface_def Let_def by auto
qed

section \<open>Three rounds, no abort\<close>

text \<open>
  With an \<open>int24\<close> spacing no operation of the planner aborts, whatever the provider answers, and each round that
  continues enters a later phase.
\<close>

definition planner_ok :: "v3_planner \<Rightarrow> bool" where
  "planner_ok p \<longleftrightarrow>
    0 < tick_spacing (vp_layout p) \<and> tick_spacing (vp_layout p) < 2 ^ 23
    \<and> (\<forall>(word, _) \<in> set (vp_window p). \<exists>w radius tick. word = word_of_int w \<and> in_window (tick_spacing (vp_layout p)) radius tick w)"

fun phase_rank :: "v3_phase \<Rightarrow> nat" where
  "phase_rank Slot0Liquidity = 0"
| "phase_rank BitmapWord = 1"
| "phase_rank TickInfo = 2"

definition advances :: "v3_planner \<Rightarrow> (cold_start_step \<times> v3_planner) result \<Rightarrow> bool" where
  "advances p r \<longleftrightarrow> (\<exists>step q. r = Inr (step, q) \<and> planner_ok q
    \<and> (step = Done \<or> (\<exists>slots. step = Continue (verify_plan slots)) \<and> phase_rank (vp_phase p) < phase_rank (vp_phase q)))"

lemma record_outcomes_select [simp]:
  "vp_address (record_outcomes p results) = vp_address p" "vp_layout (record_outcomes p results) = vp_layout p"
  "vp_window (record_outcomes p results) = vp_window p" "vp_phase (record_outcomes p results) = vp_phase p"
  by (simp_all add: record_outcomes_def Let_def)

lemma planner_ok_record [simp]: "planner_ok (record_outcomes p results) = planner_ok p"
  by (simp add: planner_ok_def)

lemma on_slot0_advances:
  assumes "planner_ok p" "vp_phase p = Slot0Liquidity"
  shows "advances p (on_slot0 keccak256 p results)"
proof -
  have sp: "0 < tick_spacing (vp_layout p)" "tick_spacing (vp_layout p) < 2 ^ 23" using assms(1) by (simp_all add: planner_ok_def)
  have stops: "advances p (Inr (Done, q))" if "planner_ok q" for q using that by (simp add: advances_def)
  show ?thesis
  proof (cases "\<exists>w. fetch_of results (vp_address p) (slot0_slot (vp_layout p)) = Some (FetchValue w) \<and> vp_failed_exact_slots p = []")
    case False
    then show ?thesis using assms(1) unfolding on_slot0_def
      by (auto intro!: stops simp: planner_ok_def split: option.split slot_fetch.split)
  next
    case True
    then obtain w where w: "fetch_of results (vp_address p) (slot0_slot (vp_layout p)) = Some (FetchValue w)" "vp_failed_exact_slots p = []"
      by blast
    let ?tick = "s0_tick (slot0_decode w)"
    obtain ws where ws: "resolve_window keccak256 p (word_of_int (tick_word (tick_spacing (vp_layout p)) ?tick))
        = Inr (map (\<lambda>v. (word_of_int v, bitmap_key keccak256 (vp_layout p) v)) ws)"
      "set ws = {v. in_window (tick_spacing (vp_layout p)) (sint (vp_radius p)) ?tick v}"
      using resolve_window_words [OF sp(1) slot0_decode_bounds(2,3) [of w], of keccak256] by (elim exE conjE)
    have ok: "\<forall>(word, _) \<in> set (map (\<lambda>v. (word_of_int v :: i16, bitmap_key keccak256 (vp_layout p) v)) ws).
        \<exists>v radius tick. word = word_of_int v \<and> in_window (tick_spacing (vp_layout p)) radius tick v"
      using ws(2) by auto
    show ?thesis using assms sp ok unfolding on_slot0_def w option.case slot_fetch.case slot0_tick v3_word_position_tick_word [OF sp(1)]
      by (simp add: ws(1) w(2) advances_def planner_ok_def Let_def split: cold_start_policy.split) blast
  qed
qed

lemma on_bitmaps_advances:
  assumes "planner_ok p" "vp_phase p = BitmapWord"
  shows "advances p (on_bitmaps keccak256 p results state)"
proof -
  have sp: "0 < tick_spacing (vp_layout p)" "tick_spacing (vp_layout p) < 2 ^ 23" using assms(1) by (simp_all add: planner_ok_def)
  have "\<exists>cells. window_word_cells keccak256 p results state entry = Inr cells" if "entry \<in> set (vp_window p)" for entry
  proof -
    obtain word key where e: "entry = (word, key)" by (cases entry)
    from that assms(1) obtain w radius tick where w: "word = word_of_int w" "in_window (tick_spacing (vp_layout p)) radius tick w"
      unfolding planner_ok_def e by fast
    show ?thesis using word_cells [OF sp w(2), of results state key] unfolding e w(1)
      by (cases "window_bitmap p results state key") (auto simp: window_word_cells_def)
  qed
  then obtain g where "window_word_cells keccak256 p results state entry = Inr (g entry)" if "entry \<in> set (vp_window p)" for entry
    by metis
  then have "rmap (window_word_cells keccak256 p results state) (vp_window p) = Inr (map g (vp_window p))" by (rule rmap_total)
  then show ?thesis using assms by (auto simp: on_bitmaps_def advances_def planner_ok_def Let_def)
qed

lemma v3_on_results_advances: "planner_ok p \<Longrightarrow> advances p (v3_on_results keccak256 p results state)"
  using on_slot0_advances [of "record_outcomes p results" keccak256 results]
    on_bitmaps_advances [of "record_outcomes p results" keccak256 results state]
  by (cases "vp_phase p") (auto simp: v3_on_results_def Let_def advances_def)

lemma v3_drive_budget:
  assumes "planner_ok p" "btree_ok storage" "3 \<le> phase_rank (vp_phase p) + left"
  shows "drive fetch (pa_ops (v3_planner_adapter keccak256)) pool baseline base accounts n left p (verify_plan slots) storage report
    \<noteq> Inl (RoundBudgetExceeded m)"
  using assms
proof (induction left arbitrary: n p slots storage report)
  case 0
  then show ?case by (cases "vp_phase p") simp_all
next
  case (Suc left)
  let ?ops = "pa_ops (v3_planner_adapter keccak256)"
  have v: "reject_unsupported_phase (verify_plan slots) = Inr ()"
    by (simp add: verify_plan_def empty_plan_def reject_unsupported_phase_def)
  show ?case
  proof (cases "fetch n (pln_verify (verify_plan slots)) (pln_probe (verify_plan slots))")
    case (Inl e)
    then show ?thesis by (simp add: v)
  next
    case (Inr r)
    obtain verified storage' where f: "fold (apply_patch_value base) (sr_patch r) ([], storage) = (verified, storage')"
      by (cases "fold (apply_patch_value base) (sr_patch r) ([], storage)")
    have ok: "btree_ok storage'"
      using apply_patch_storage [of base "sr_patch r" "[]" storage] apply_patch_ok [OF Suc.prems(2), of "sr_patch r"] f by simp
    obtain step q where on: "v3_on_results keccak256 p (round_results r verified) (worker_view base storage') = Inr (step, q)"
      "planner_ok q" "step = Done \<or> (\<exists>slots. step = Continue (verify_plan slots)) \<and> phase_rank (vp_phase p) < phase_rank (vp_phase q)"
      using v3_on_results_advances [OF Suc.prems(1)] unfolding advances_def by blast
    have ops: "op_on_results ?ops p (round_results r verified) (worker_view base storage') = (step, q)"
      using on(1) by (simp add: v3_planner_adapter_def)
    show ?thesis
    proof (cases step)
      case Done
      then show ?thesis by (auto simp: v Inr f ops Let_def dest: conclude_Inl [OF ok])
    next
      case (Continue nx)
      then obtain slots' where nx: "nx = verify_plan slots'" "phase_rank (vp_phase p) < phase_rank (vp_phase q)" using on(3) by auto
      then have "3 \<le> phase_rank (vp_phase q) + left" using Suc.prems(3) by simp
      from Suc.IH [OF on(2) ok this] show ?thesis by (simp add: v Inr f ops Continue nx(1) Let_def)    next
      case (Abort e)
      then show ?thesis using on(3) by simp
    qed
  qed
qed

lemma planner_new_ok:
  assumes "v3_cold_start_planner keccak256 pool policy = Inr p" "\<And>l. layout_for pool = Some l \<Longrightarrow> tick_spacing l < 2 ^ 23"
  shows "planner_ok p" "vp_phase p = Slot0Liquidity"
  using assms by (auto simp: v3_cold_start_planner_def planner_ok_def v3_planner_new_def Let_def layout_from_metadata_def
      split: option.splits if_splits protocol_metadata.splits protocol_id.splits)


lemma proved_code_budget: "proved_code xs \<noteq> Inl (RoundBudgetExceeded m)"
  by (induction xs rule: proved_code.induct) (auto simp: map_sum_def split: account_proof_outcome.splits sum.splits)

lemma job_account_patch_budget: "job_account_patch env pool baseline \<noteq> Inl (RoundBudgetExceeded m)"
  by (auto simp: job_account_patch_def prepare_code_seeds_def map_sum_def proved_code_budget
      split: sum.splits if_splits option.splits)

lemma v3_cold_start_budget:
  assumes "adapter_of (reg_protocol pool) = Some (v3_planner_adapter keccak256)" "\<And>l. layout_for pool = Some l \<Longrightarrow> tick_spacing l < 2 ^ 23" "3 \<le> max_rounds"
  shows "prepare_resumable_pool fetch adapter_of pool baseline policy base env max_rounds
    \<noteq> Inl (RoundBudgetExceeded m)"
proof (cases "v3_cold_start_planner keccak256 pool policy")
  case (Inl e)
  then show ?thesis using assms(1,3) by (simp add: prepare_refines_direct direct_cold_start_def v3_planner_adapter_def)
next
  case (Inr p)
  note ok = planner_new_ok [OF Inr assms(2)]
  have pl: "pa_planner (v3_planner_adapter keccak256) pool policy = Inr p" using Inr by (simp add: v3_planner_adapter_def)
  show ?thesis
  proof (cases "job_account_patch env pool baseline")
    case (Inl e)
    then show ?thesis using assms(1,3) pl job_account_patch_budget [of env pool baseline m]
      by (simp add: prepare_refines_direct direct_cold_start_def)
  next
    case acc: (Inr account_patch)
    have i: "op_initial_plan (pa_ops (v3_planner_adapter keccak256)) p (worker_view base [])
        = (verify_plan (first_cells p), p\<lparr>vp_verified_slots := vp_verified_slots p @ first_cells p\<rparr>)"
      by (simp add: v3_planner_adapter_def initial_plan_cells)
    have "planner_ok (p\<lparr>vp_verified_slots := vp_verified_slots p @ first_cells p\<rparr>)" using ok(1) by (simp add: planner_ok_def)
    from v3_drive_budget [OF this btree_ok_Nil, of max_rounds] show ?thesis
      using prepare_drive [OF _ _ pl acc i, of max_rounds adapter_of fetch] assms(1,3) ok(2) by simp
  qed
qed

lemma warmed_slots_record:
  assumes "pool_v3_metadata pool = Some m"
  shows "\<exists>m'. pool_v3_metadata (record_v3_warmed_slots pool a cells) = Some m'
    \<and> set (v3_warmed_slots m') = {k. (a, k) \<in> set cells} \<and> reg_key (record_v3_warmed_slots pool a cells) = reg_key pool"
  using assms by (auto simp: pool_v3_metadata_def record_v3_warmed_slots_def Let_def image_iff split: protocol_metadata.splits)

lemma v3_cold_start_warms:
  assumes prov: "provider_answers onchain fetch" and total: "\<And>a k. onchain a k \<noteq> None"
    and pool: "reg_key pool = UniswapV3Key a" "layout_for pool = Some (layout_uniswap spacing)" "spacing < 2 ^ 23"
    and run: "policy \<in> {Strict, Eager}" "3 \<le> max_rounds" "job_account_patch env pool baseline = Inr account_patch"
    and words: "\<And>k. onchain a k = Some (words k)" "words 0 \<noteq> 0"
    and adapter: "adapter_of UniswapV3 = Some (v3_planner_adapter keccak256)"
  shows "\<exists>s m. prepare_resumable_pool fetch adapter_of pool baseline policy base env max_rounds = Inr s
    \<and> reg_status (pps_registration s) = Ready \<and> reg_key (pps_registration s) = reg_key pool
    \<and> pool_v3_metadata (pps_registration s) = Some m
    \<and> (\<forall>b k v. map_of (pps_storage s) (b, k) = Some v \<longrightarrow> onchain b k = Some v)
    \<and> (\<forall>k \<in> replay_surface keccak256 words (layout_uniswap spacing)
              (sint (case pool_warm_word_radius pool of Some r \<Rightarrow> r | None \<Rightarrow> V3_TICK_WORD_RADIUS)).
         k \<in> set (v3_warmed_slots m) \<and> (words k \<noteq> 0 \<longrightarrow> map_of (pps_storage s) (a, k) = Some (words k)))"
proof -
  define radius where "radius = (case pool_warm_word_radius pool of Some r \<Rightarrow> r | None \<Rightarrow> V3_TICK_WORD_RADIUS)"
  define p where "p = v3_planner_new a (layout_uniswap spacing) policy radius CanonicalUniswap []"
  have proto: "reg_protocol pool = UniswapV3" "key_address (reg_key pool) = Some a" by (simp_all add: reg_protocol_def pool(1))
  have "v3_cold_start_planner keccak256 pool policy = Inr p"
    unfolding v3_cold_start_planner_def proto option.case pool(2)
    by (simp add: p_def radius_def v3_verified_storage_targets_def proto Let_def)
  then have pl: "pa_planner (v3_planner_adapter keccak256) pool policy = Inr p" by (simp add: v3_planner_adapter_def)
  have sp: "0 < spacing" using pool(2)
    by (auto simp: layout_from_metadata_def split: option.splits if_splits protocol_metadata.splits protocol_id.splits)
  obtain m where m: "pool_v3_metadata pool = Some m"
    using pool(2) by (auto simp: pool_v3_metadata_def split: protocol_metadata.splits)
  have p: "vp_phase p = Slot0Liquidity" "vp_failed_exact_slots p = []" "vp_deferred p = []" "\<not> vp_slot0_cold p"
    "vp_verified_slots p = []" "0 < tick_spacing (vp_layout p)" "tick_spacing (vp_layout p) < 2 ^ 23" "vp_policy p \<in> {Strict, Eager}"
    "onchain (vp_address p) (slot0_slot (vp_layout p)) = Some (words 0)"
    using sp pool(3) run(1) words(1) by (simp_all add: p_def v3_planner_new_def)
  obtain left where left: "max_rounds = Suc (Suc (Suc left))"
    using run(2) by (metis Suc_le_D numeral_3_eq_3 Suc_le_mono)
  have i: "op_initial_plan (pa_ops (v3_planner_adapter keccak256)) p (worker_view base [])
      = (verify_plan (first_cells p), p\<lparr>vp_verified_slots := vp_verified_slots p @ first_cells p\<rparr>)"
    by (simp add: v3_planner_adapter_def initial_plan_cells)
  obtain s ws where s: "drive fetch (pa_ops (v3_planner_adapter keccak256)) pool baseline base account_patch 0 (Suc (Suc (Suc left)))
        (p\<lparr>vp_verified_slots := vp_verified_slots p @ first_cells p\<rparr>) (verify_plan (first_cells p)) [] run_report_default = Inr s"
    "pps_registration s = (record_v3_warmed_slots pool (vp_address p) (planned_cells keccak256 p onchain ws (words 0)))\<lparr>reg_status := Ready\<rparr>"
    "warmed onchain (planned_cells keccak256 p onchain ws (words 0)) (pps_storage s)"
    "set ws = {v. in_window (tick_spacing (vp_layout p)) (sint (vp_radius p)) (s0_tick (slot0_decode (words 0))) v}"
    by (rule planner_run [OF prov total p(9) words(2) p(1-8) initial_plan_cells])
  have sel: "vp_address p = a" "vp_layout p = layout_uniswap spacing" "vp_radius p = radius" "vp_exact_surface p = CanonicalUniswap"
    by (simp_all add: p_def v3_planner_new_def)
  have prep: "prepare_resumable_pool fetch adapter_of pool baseline policy base env max_rounds = Inr s"
    using prepare_drive [OF _ _ pl run(3) i, of max_rounds adapter_of fetch] s(1) adapter by (simp add: left proto)
  from warmed_slots_record [OF m, of a "planned_cells keccak256 p onchain ws (words 0)"] obtain m' where
    m': "pool_v3_metadata (pps_registration s) = Some m'" "set (v3_warmed_slots m') = {k. (a, k) \<in> set (planned_cells keccak256 p onchain ws (words 0))}"
      "reg_key (pps_registration s) = reg_key pool" by (auto simp: s(2) sel pool_v3_metadata_def)
  have plan: "(a, k) \<in> set (planned_cells keccak256 p onchain ws (words 0))"
    if "k \<in> replay_surface keccak256 words (layout_uniswap spacing) (sint radius)" for k
    using surface_planned [of p spacing onchain words ws "sint radius" k keccak256] that s(4) sp words(1) by (simp add: sel)
  have store: "words k \<noteq> 0 \<longrightarrow> map_of (pps_storage s) (a, k) = Some (words k)"
    if "(a, k) \<in> set (planned_cells keccak256 p onchain ws (words 0))" for k
    using s(3) that words(1) unfolding warmed_def by fastforce
  have "\<forall>b k v. map_of (pps_storage s) (b, k) = Some v \<longrightarrow> onchain b k = Some v" using s(3) by (simp add: warmed_def)
  then show ?thesis using prep m' plan store unfolding radius_def by (intro exI [of _ s] exI [of _ m']) (auto simp: s(2))
qed

section \<open>The contract\<close>

text \<open>
  Unlike the reserve planners this one keeps the metadata it is given: a pool whose metadata names another venue is
  finished as ready, and only then refused by the registry.
\<close>

lemma record_v3_warmed_slots_keeps:
  "reg_key (record_v3_warmed_slots pool a cells) = reg_key pool"
  "check_protocol_agreement ((record_v3_warmed_slots pool a cells)\<lparr>reg_status := s\<rparr>) = check_protocol_agreement pool"
  by (simp_all add: record_v3_warmed_slots_def check_protocol_agreement_def Let_def split: protocol_metadata.split)

interpretation v3_contract: planner_contract "pa_ops (v3_planner_adapter keccak256)" protocol
    "\<lambda>pool. check_protocol_agreement pool = Inr ()" for keccak256 protocol
  by unfold_locales
    (auto simp: v3_planner_adapter_def v3_finish_def Let_def ready_outcome_def record_v3_warmed_slots_keeps split: if_splits)

end
