(* ===== verification/Runtime_Properties.thy ===== *)
theory Runtime_Properties
  imports V3_Cold_Start Example_Slipstream
begin

text \<open>
  What the registry, the cold start, the reserve and vault adapters and the reactive handler guarantee: the
  properties C31 to C40, with small concrete pools for their witnesses.
\<close>

section \<open>Concrete pools\<close>

definition pair_pool :: pool_registration where
  "pair_pool = registration_new (UniswapV2Key 1)"

definition one_pool_registry :: "unit adapter_registry" where
  "one_pool_registry = registry_new\<lparr>pools := [UniswapV2Key 1 \<mapsto> with_event_source pair_pool (source_direct 1 [7])]\<rparr>"

definition solidly_demo_layout :: solidly_storage_layout where
  "solidly_demo_layout = \<lparr>reserve0_slot = 20, reserve1_slot = 21, token0_slot = 22, token1_slot = 23\<rparr>"

definition solidly_pool :: pool_registration where
  "solidly_pool = (registration_new (SolidlyV2Key 2))\<lparr>reg_metadata := SolidlyV2Meta \<lparr>sol_token0 = None, sol_token1 = None,
     sol_stable = Some True, sol_storage_layout = Some solidly_demo_layout\<rparr>\<rparr>"

text \<open>A provider that answers every requested slot with nine.\<close>

definition nine_fetch :: "unit fetcher" where
  "nine_fetch n verify probe = Inr \<lparr>sr_fetched = map (\<lambda>(a, k). \<lparr>so_address = a, so_slot = k, so_fetch = FetchValue 9\<rparr>) verify,
     sr_probed = [], sr_patch = map (\<lambda>cell. (cell, 9)) verify\<rparr>"

text \<open>An adapter without code seeds.\<close>

definition no_code :: "(unit, unit, unit, unit) code_env" where
  "no_code = \<lparr>ce_code_seeds = (\<lambda>_. Inr []), ce_enabled = True, ce_fetch_proofs = None, ce_patch = (\<lambda>_ _. ()),
     ce_patch_values = (\<lambda>_. []), ce_verified_accounts = []\<rparr>"

lemma no_code_patch [simp]: "job_account_patch no_code pool () = Inr ()"
  by (simp add: no_code_def job_account_patch_def prepare_code_seeds_def)

definition sync_log :: "address \<Rightarrow> log" where
  "sync_log a = \<lparr>log_address = a, log_topics = [7], log_data = to_be_bytes32 300 @ to_be_bytes32 400\<rparr>"

definition demo_apply :: "state_update \<Rightarrow> state_view \<Rightarrow> state_view" where
  "demo_apply u s = (case u of
      SlotMasked a k m value \<Rightarrow> (case s a k of None \<Rightarrow> s | Some old \<Rightarrow> s(a := (s a)(k \<mapsto> masked_write old m value)))
    | Slot a k v \<Rightarrow> s(a := (s a)(k \<mapsto> v))
    | _ \<Rightarrow> s)"

definition idle_context :: reactive_context where
  "idle_context = \<lparr>rx_chain_id = Some 1, rx_chain_status = ChainPending, rx_block = None, rx_transaction_index = None,
     rx_log_index = None\<rparr>"

definition vault_metadata :: balancer_v2_metadata where
  "vault_metadata = \<lparr>bal_vault = Some 3, bal_pool_address = None, bal_tokens = [11, 12], bal_balance_slots = [5],
     bal_token_cash = [\<lparr>bal_token = 11, bal_slot = 5, bal_high_field = False\<rparr>, \<lparr>bal_token = 12, bal_slot = 5, bal_high_field = True\<rparr>]\<rparr>"

definition vault_pool :: pool_registration where
  "vault_pool = (registration_new (BalancerV2Key (push_bit 80 2)))\<lparr>reg_metadata := BalancerV2Meta vault_metadata\<rparr>"

definition vault_abi :: balancer_abi where
  "vault_abi = \<lparr>abi_swap_hash = 1, abi_balance_changed_hash = 2,
     abi_decode_swap = (\<lambda>_. Some \<lparr>bs_token_in = 11, bs_token_out = 12, bs_amount_in = 5, bs_amount_out = 3\<rparr>),
     abi_decode_deltas = (\<lambda>_. None), abi_encode_get_pool_tokens = (\<lambda>_. []), abi_decode_get_pool_tokens = (\<lambda>_. None)\<rparr>"

definition vault_log :: log where
  "vault_log = \<lparr>log_address = 3, log_topics = [1], log_data = []\<rparr>"

definition vault_view :: state_view where
  "vault_view a k = (if a = 3 \<and> k = 5 then Some (500 OR push_bit 112 1000 OR push_bit 224 77) else None)"

lemma decodes_sync_log: "(300 :: nat) < 2 ^ bits \<Longrightarrow> (400 :: nat) < 2 ^ bits \<Longrightarrow> decodes_sync bits (\<lambda>l. l = sync_log a)"
  unfolding decodes_sync_def sync_log_def
  by (intro allI impI exI [of _ 300] exI [of _ 400] exI [of _ "[]"]) simp

lemma pair_address [simp]: "reg_key pair_pool = UniswapV2Key 1" "reg_protocol pair_pool = UniswapV2"
  by (simp_all add: pair_pool_def registration_new_def reg_protocol_def)

lemma pair_prepared:
  "\<exists>s. prepare_resumable_pool nine_fetch [UniswapV2 \<mapsto> v2_adapter] pair_pool () Lazy (\<lambda>_ _. None) no_code 1 = Inr s"
  by (simp add: prepare_refines_direct direct_cold_start_def v2_adapter_def v2_cold_start_planner_def v2_initial_plan_def
      v2_on_results_def v2_finish_def verify_plan_def empty_plan_def reject_unsupported_phase_def nine_fetch_def round_results_def
      apply_patch_value_def worker_view_def fetch_of_def conclude_def prepared_new_def btree_insert_def Let_def)

lemma solidly_pool_facts [simp]: "reg_key solidly_pool = SolidlyV2Key 2" "reg_protocol solidly_pool = SolidlyV2"
    "solidly_layout solidly_pool = Some solidly_demo_layout"
  by (simp_all add: solidly_pool_def registration_new_def reg_protocol_def solidly_layout_def)

lemma solidly_prepared:
  "\<exists>s. prepare_resumable_pool nine_fetch [SolidlyV2 \<mapsto> solidly_adapter] solidly_pool () HotSlotsOnly (\<lambda>_ _. None) no_code 3 = Inr s"
  by (simp add: prepare_refines_direct direct_cold_start_def solidly_adapter_def solidly_cold_start_planner_def solidly_initial_plan_def
      solidly_on_results_def solidly_finish_def verify_plan_def empty_plan_def reject_unsupported_phase_def nine_fetch_def
      round_results_def apply_patch_value_def worker_view_def fetch_of_def classify_slot_def combine_verdicts_def conclude_def
      prepared_new_def btree_insert_def Let_def slots_collide_def solidly_demo_layout_def numeral_3_eq_3)

lemma prepare_finishes:
  fixes fetch :: "'e fetcher"
  assumes "prepare_resumable_pool fetch adapter_of pool baseline policy base env max_rounds = Inr s"
    and "adapter_of (reg_protocol pool) = Some adapter"
  shows "\<exists>p report outcome. op_finish (pa_ops adapter) p pool report = (outcome, pps_registration s) \<and> ready_outcome outcome (pps_deferred s)"
proof (cases rule: prepare_cases [where 'e = 'e, of adapter_of pool baseline policy base env max_rounds])
  case (refused e)
  then show ?thesis using assms(1) by simp
next
  case (driven adapter' account_patch plan p)
  then have "drive fetch (pa_ops adapter) pool baseline base account_patch 0 max_rounds p plan [] run_report_default = Inr s"
    using assms by simp
  from drive_success [OF btree_ok_Nil this] show ?thesis by blast
qed

section \<open>The registry\<close>

text \<open>
  C31. Whatever sequence of registrations, status updates, removals, edits, adapter changes and configuration changes a
  registry goes through, every tracked pool that was not edited through \<open>pool_mut\<close> since its registration is stored under
  its own key with metadata of its own venue, every adapter under all the protocols it serves, and an adapter that is
  successfully removed serves no tracked pool. \<open>pool_mut\<close> is public and checks nothing, so an edit is any function
  here and nothing is claimed of an edited pool until it is removed and registered again; the comment in
  \<open>types.rs\<close> that a mismatch never enters a registry overlooks it.
\<close>

theorem registry_invariant:
  assumes "registry_step\<^sup>*\<^sup>* (registry_new, {}) (r, edited)"
  shows "(\<forall>k p. k \<notin> edited \<longrightarrow> pools r k = Some p \<longrightarrow> reg_key p = k \<and> check_protocol_agreement p = Inr ())
    \<and> (\<forall>q a. adapters r q = Some a \<longrightarrow> q \<in> set (ad_protocols a) \<and> (\<forall>q' \<in> set (ad_protocols a). adapters r q' = Some a))
    \<and> (\<forall>order q a r'. iterates order (pools r) \<longrightarrow> unregister_adapter order r q = Inr (a, r')
        \<longrightarrow> (\<forall>p \<in> ran (pools r'). adapters r' (reg_protocol p) = adapters r (reg_protocol p)))"
proof (intro conjI)
  have ok: "pools_ok_except edited r" "adapters_ok r" using registry_reachable_ok [OF assms] by simp_all
  show "\<forall>k p. k \<notin> edited \<longrightarrow> pools r k = Some p \<longrightarrow> reg_key p = k \<and> check_protocol_agreement p = Inr ()"
    using ok(1) unfolding pools_ok_except_def .
  show "\<forall>q a. adapters r q = Some a \<longrightarrow> q \<in> set (ad_protocols a) \<and> (\<forall>q' \<in> set (ad_protocols a). adapters r q' = Some a)"
    using ok(2) unfolding adapters_ok_def .
  show "\<forall>order q a r'. iterates order (pools r) \<longrightarrow> unregister_adapter order r q = Inr (a, r')
      \<longrightarrow> (\<forall>p \<in> ran (pools r'). adapters r' (reg_protocol p) = adapters r (reg_protocol p))"
    using unregister_adapter_keeps [OF ok(2)] by blast
qed

theorem registry_invariant_witness:
  "\<exists>(r' :: unit adapter_registry) p. register_pool registry_new pair_pool = Inr r'
    \<and> pools (pool_mut r' (UniswapV3Key 9) (\<lambda>p. p\<lparr>reg_key := UniswapV3Key 8\<rparr>)) (reg_key pair_pool) = Some p
    \<and> reg_key p = reg_key pair_pool \<and> check_protocol_agreement p = Inr ()"
proof -
  define f :: "pool_registration \<Rightarrow> pool_registration" where "f = (\<lambda>p. p\<lparr>reg_key := UniswapV3Key 8\<rparr>)"
  obtain r' :: "unit adapter_registry" where r': "register_pool registry_new pair_pool = Inr r'"
    by (auto simp: register_pool_def registry_new_def check_protocol_agreement_def pair_pool_def registration_new_def)
  from step_register [OF r', of "{}"] step_edit [of r' "{} - {reg_key pair_pool}" "UniswapV3Key 9" f]
  have "registry_step\<^sup>*\<^sup>* (registry_new, {}) (pool_mut r' (UniswapV3Key 9) f, insert (UniswapV3Key 9) ({} - {reg_key pair_pool}))"
    by (meson r_into_rtranclp rtranclp.rtrancl_into_rtrancl)
  note reachable = registry_invariant [OF this]
  have key: "reg_key pair_pool \<noteq> UniswapV3Key 9" by (simp add: pair_pool_def registration_new_def)
  have "pools r' (reg_key pair_pool) = Some pair_pool" using r' by (auto simp: register_pool_def split: if_splits sum.splits)
  with key have "pools (pool_mut r' (UniswapV3Key 9) f) (reg_key pair_pool) = Some pair_pool"
    by (simp add: pool_mut_def split: option.split)
  with reachable r' key show ?thesis unfolding f_def [symmetric] by blast
qed

text \<open>
  C32. Generic routing is sound and complete for every iteration order of the pools: it returns a tracked pool with a
  source that matches the log, and returns none exactly when no tracked pool has one. The subscription filter,
  sorted and without duplicates, contains the first topic of every log that a tracked pool's source with a topic
  filter matches, so no such log is missed.
\<close>

theorem routing_complete:
  assumes "iterates order (pools r)"
  shows "(\<forall>p. route_log_generic order r log = Some p \<longrightarrow> p \<in> ran (pools r) \<and> pool_matches log p)
    \<and> (route_log_generic order r log = None \<longleftrightarrow> (\<forall>p \<in> ran (pools r). \<not> pool_matches log p))
    \<and> sorted_wrt (<) (subscription_topics order r)
    \<and> (\<forall>p \<in> ran (pools r). \<forall>s \<in> set (event_sources_for r p). src_topics s \<noteq> [] \<longrightarrow> event_source_matches s (reg_key p) log
        \<longrightarrow> log_topics log \<noteq> [] \<and> hd (log_topics log) \<in> set (subscription_topics order r))"
  using route_log_generic_Some route_log_generic_None [OF assms] subscription_topics_sorted routed_topic_subscribed [OF assms]
  by blast

theorem routing_complete_witness:
  "\<exists>p. route_log_generic [UniswapV2Key 1] one_pool_registry (sync_log 1) = Some p \<and> pool_matches (sync_log 1) p"
proof -
  have "iterates [UniswapV2Key 1] (pools one_pool_registry)" by (simp add: iterates_def one_pool_registry_def)
  moreover have "\<exists>p \<in> ran (pools one_pool_registry). pool_matches (sync_log 1) p"
    by (simp add: one_pool_registry_def with_event_source_def source_direct_def event_source_matches_def matches_indexed_topics_def
        sync_log_def nth_opt_def pair_pool_def registration_new_def)
  ultimately show ?thesis using routing_complete [of "[UniswapV2Key 1]" one_pool_registry "sync_log 1"] by fastforce
qed

section \<open>Cold start\<close>

text \<open>
  C33. The resumable job, which drops its planner at every step and rebuilds it from the transcript of its rounds,
  computes exactly what one planner computes that is kept throughout; in particular its replay never diverges
  and the storage it accumulates never has a duplicate cell.
\<close>

theorem cold_start_job_refines:
  "prepare_resumable_pool fetch adapter_of pool baseline policy base env max_rounds
      = direct_cold_start fetch adapter_of pool baseline policy base env max_rounds
    \<and> prepare_resumable_pool fetch adapter_of pool baseline policy base env max_rounds \<noteq> Inl PlannerTranscriptDiverged
    \<and> (\<forall>cell. prepare_resumable_pool fetch adapter_of pool baseline policy base env max_rounds \<noteq> Inl (DuplicateStorage cell))"
  by (intro conjI allI notI prepare_refines_direct) (auto dest: prepare_errors)

text \<open>
  C34. A job stops within its round budget: what it returns depends only on the answers of the provider to the first
  \<open>max_rounds\<close> rounds, however the planner behaves.
\<close>

theorem cold_start_bounded:
  fixes fetch fetch' :: "'e fetcher"
  assumes "\<And>i. i < max_rounds \<Longrightarrow> fetch i = fetch' i"
  shows "prepare_resumable_pool fetch adapter_of pool baseline policy base env max_rounds
    = prepare_resumable_pool fetch' adapter_of pool baseline policy base env max_rounds"
  using assms by (rule prepare_fetch_bound)

theorem cold_start_bounded_witness:
  "prepare_resumable_pool nine_fetch [UniswapV2 \<mapsto> v2_adapter] pair_pool () Lazy (\<lambda>_ _. None) no_code 1
    = prepare_resumable_pool (\<lambda>i. if i = 0 then nine_fetch 0 else (\<lambda>_ _. Inl ())) [UniswapV2 \<mapsto> v2_adapter] pair_pool () Lazy
        (\<lambda>_ _. None) no_code 1"
  by (rule cold_start_bounded) simp

text \<open>
  C35. A pool that a cold start of a Uniswap V2, Solidly V2 or Balancer V2 adapter prepared can be registered when its key is
  free: the registration is accepted, keeps the invariant of the registry and is found under its key with the status
  \<open>Ready\<close>. So can one that the adapter of the concentrated pools prepared, provided its metadata named its own venue
  before: that adapter keeps the metadata.
\<close>

theorem prepared_pool_registers:
  assumes "registry_ok r" "pools r (reg_key pool) = None"
  shows "(\<forall>s. reg_protocol pool = UniswapV2
          \<longrightarrow> prepare_resumable_pool fetch [UniswapV2 \<mapsto> v2_adapter] pool baseline policy base env max_rounds = Inr s
          \<longrightarrow> (\<exists>r'. register_pool r (pps_registration s) = Inr r' \<and> registry_ok r' \<and> pools r' (reg_key pool) = Some (pps_registration s))
            \<and> reg_status (pps_registration s) = Ready)
    \<and> (\<forall>s. reg_protocol pool = SolidlyV2
          \<longrightarrow> prepare_resumable_pool fetch [SolidlyV2 \<mapsto> solidly_adapter] pool baseline policy base env max_rounds = Inr s
          \<longrightarrow> (\<exists>r'. register_pool r (pps_registration s) = Inr r' \<and> registry_ok r' \<and> pools r' (reg_key pool) = Some (pps_registration s))
            \<and> reg_status (pps_registration s) = Ready)
    \<and> (\<forall>s. reg_protocol pool = BalancerV2
          \<longrightarrow> prepare_resumable_pool fetch [BalancerV2 \<mapsto> balancer_adapter abi] pool baseline policy base env max_rounds = Inr s
          \<longrightarrow> (\<exists>r'. register_pool r (pps_registration s) = Inr r' \<and> registry_ok r' \<and> pools r' (reg_key pool) = Some (pps_registration s))
            \<and> reg_status (pps_registration s) = Ready)
    \<and> (\<forall>s. check_protocol_agreement pool = Inr ()
          \<longrightarrow> prepare_resumable_pool fetch [reg_protocol pool \<mapsto> v3_planner_adapter keccak256] pool baseline policy base env max_rounds = Inr s
          \<longrightarrow> (\<exists>r'. register_pool r (pps_registration s) = Inr r' \<and> registry_ok r' \<and> pools r' (reg_key pool) = Some (pps_registration s))
            \<and> reg_status (pps_registration s) = Ready)"
  using v2_contract.prepared_registers [of fetch "[UniswapV2 \<mapsto> v2_adapter]" pool baseline policy base env max_rounds, OF _ _ _ _ _ assms]
    v2_contract.prepared_registration [of fetch "[UniswapV2 \<mapsto> v2_adapter]" pool baseline policy base env max_rounds]
    solidly_contract.prepared_registers [of fetch "[SolidlyV2 \<mapsto> solidly_adapter]" pool baseline policy base env max_rounds, OF _ _ _ _ _ assms]
    solidly_contract.prepared_registration [of fetch "[SolidlyV2 \<mapsto> solidly_adapter]" pool baseline policy base env max_rounds]
    balancer_contract.prepared_registers [of fetch "[BalancerV2 \<mapsto> balancer_adapter abi]" pool baseline policy base env max_rounds, OF _ _ _ _ _ assms]
    balancer_contract.prepared_registration [of fetch "[BalancerV2 \<mapsto> balancer_adapter abi]" pool baseline policy base env max_rounds]
    v3_contract.prepared_registers [of fetch "[reg_protocol pool \<mapsto> v3_planner_adapter keccak256]" pool baseline policy base env max_rounds,
      OF _ _ _ _ _ assms, where protocol = "reg_protocol pool"]
    v3_contract.prepared_registration [of fetch "[reg_protocol pool \<mapsto> v3_planner_adapter keccak256]" pool baseline policy base env max_rounds,
      where protocol = "reg_protocol pool"]
  by (intro conjI allI impI) auto

theorem prepared_pool_registers_witness:
  "\<exists>s r'. prepare_resumable_pool nine_fetch [UniswapV2 \<mapsto> v2_adapter] pair_pool () Lazy (\<lambda>_ _. None) no_code 1 = Inr s
    \<and> register_pool (registry_new :: unit adapter_registry) (pps_registration s) = Inr r' \<and> reg_status (pps_registration s) = Ready"
proof -
  obtain s where s: "prepare_resumable_pool nine_fetch [UniswapV2 \<mapsto> v2_adapter] pair_pool () Lazy (\<lambda>_ _. None) no_code 1 = Inr s"
    using pair_prepared by blast
  have "registry_ok (registry_new :: unit adapter_registry)" by (rule registry_new_ok)
  moreover have "pools (registry_new :: unit adapter_registry) (reg_key pair_pool) = None" by (simp add: registry_new_def)
  ultimately show ?thesis
    using prepared_pool_registers [of "registry_new :: unit adapter_registry" pair_pool nine_fetch "()" Lazy "\<lambda>_ _. None" no_code 1] s by auto
qed

section \<open>Reserve pools\<close>

text \<open>
  C36. A \<open>Sync\<close> of a Uniswap V2 pair, handled and applied, sets both reserves of the pair to those of the event and keeps the
  timestamp beside them when the reserve slot is known; when it is not, nothing is written and the slot is
  requested again. The outcome says which of the two happened. Of the cache, only the documented effect of a masked
  write is assumed, of the decoder, that it accepts two 112-bit words.
\<close>

theorem v2_sync_refines:
  assumes "applies_masked apply_update" "decodes_sync 112 sync_valid" "reg_key pool = UniswapV2Key a"
    and "nth_opt (log_topics log) 0 = Some sync_hash" "sync_valid log"
    and "handle_routed_log keccak256 ctx log transaction_hash state pool (v2_event_adapter sync_hash sync_valid) inst routing = Inr out"
  shows "\<exists>r0 r1 state'. data_word log 0 = Some r0 \<and> data_word log 1 = Some r1
    \<and> state' = fold apply_update (outcome_updates (ho_effects out)) state
    \<and> (case state a V2_RESERVES_SLOT of
         Some w \<Rightarrow> ho_quality out = ExactFromInput
           \<and> (\<exists>w'. state' = state(a := (state a)(V2_RESERVES_SLOT \<mapsto> w')) \<and> pair_of w' = (pair_of w)\<lparr>pr_reserve0 := r0, pr_reserve1 := r1\<rparr>)
       | None \<Rightarrow> ho_quality out = AppliedWithPendingResync \<and> state' = state \<and> (a, V2_RESERVES_SLOT) \<in> resync_cells (ho_effects out))"
proof -
  from decodes_syncE [OF assms(2,5)] obtain r0 r1 where
    r: "unat r0 < 2 ^ 112" "unat r1 < 2 ^ 112" "data_word log 0 = Some r0" "data_word log 1 = Some r1" by metis
  have b: "r0 < 2 ^ 112" "r1 < 2 ^ 112" using r(1,2) by (simp_all add: word_less_nat_alt)
  define u where "u = SlotMasked a V2_RESERVES_SLOT (v2_low_mask 224) (r0 OR push_bit 112 r1)"
  define event where "event = \<lparr>ae_pool = reg_key pool, ae_emitter = log_address log, ae_topic0 = sync_hash, ae_kind = Sync,
    ae_updates = [u], ae_quality = ExactIfApplied, ae_repair = NoRepair\<rparr>"
  have "aer_event (ea_decode (v2_event_adapter sync_hash sync_valid) pool log state (routed_context routing pool (event_context ctx transaction_hash)))
      = Some event"
    by (simp add: v2_event_adapter_def v2_decode_event_def assms r Let_def result_event_def event_def u_def del: One_nat_def)
  note out = handle_routed_log_event [OF assms(6) this]
  have cold: "cold_cells state [u] = (if state a V2_RESERVES_SLOT = None then {(a, V2_RESERVES_SLOT)} else {})"
    by (auto simp: cold_cells_def u_def)
  have upd: "apply_update u state = (case state a V2_RESERVES_SLOT of None \<Rightarrow> state | Some w \<Rightarrow>
      state(a := (state a)(V2_RESERVES_SLOT \<mapsto> masked_write w (v2_low_mask 224) (r0 OR push_bit 112 r1))))"
    using assms(1) by (simp add: applies_masked_def u_def)
  have us: "ae_updates event = [u]" by (simp add: event_def)
  have fold: "fold apply_update (outcome_updates (ho_effects out)) state = apply_update u state" by (simp add: out(1) us)
  have quality: "quality_for_event event c = (if c then AppliedWithPendingResync else ExactFromInput)" for c
    by (simp add: quality_for_event_def event_def)
  show ?thesis
  proof (cases "state a V2_RESERVES_SLOT")
    case None
    then show ?thesis using r(3,4) out(2,3) cold upd fold quality us by auto
  next
    case (Some w)
    then have "ho_quality out = ExactFromInput" using out(3) cold quality us by simp
    then show ?thesis using Some r(3,4) upd fold pair_of_masked_write [OF b, of w] by auto
  qed
qed

theorem v2_sync_refines_witness:
  "\<exists>out. handle_routed_log demo_hash idle_context (sync_log 1) None (\<lambda>_ _. None) pair_pool
      (v2_event_adapter 7 (\<lambda>l. l = sync_log 1)) None None = Inr out
    \<and> ho_quality out = AppliedWithPendingResync \<and> (1, V2_RESERVES_SLOT) \<in> resync_cells (ho_effects out)"
proof -
  have "applies_masked demo_apply" by (simp add: applies_masked_def demo_apply_def)
  moreover have "decodes_sync 112 (\<lambda>l. l = sync_log 1)" by (rule decodes_sync_log) simp_all
  moreover obtain out where out: "handle_routed_log demo_hash idle_context (sync_log 1) None (\<lambda>_ _. None) pair_pool
      (v2_event_adapter 7 (\<lambda>l. l = sync_log 1)) None None = Inr out"
    using handle_routed_log_Inr by blast
  ultimately show ?thesis
    using v2_sync_refines [of demo_apply "\<lambda>l. l = sync_log 1" pair_pool 1 "sync_log 1" 7 demo_hash idle_context None "\<lambda>_ _. None"]
    by (auto simp: sync_log_def nth_opt_def)
qed

lemma solidly_finish_layout:
  assumes "solidly_finish p pool report = (outcome, pool')" "solidly_layout pool = Some layout"
  shows "solidly_layout pool' = Some layout"
proof -
  obtain m where m: "reg_metadata pool = SolidlyV2Meta m" "sol_storage_layout m = Some layout"
    using assms(2) by (auto simp: solidly_layout_def split: protocol_metadata.splits)
  from assms(1) m consider "pool' = pool" | m' where "reg_metadata pool' = SolidlyV2Meta m'" "sol_storage_layout m' = Some layout"
    by (fastforce simp: solidly_finish_def Let_def split: option.splits solidly_verdict.splits if_splits)
  then show ?thesis by cases (use m in \<open>auto simp: solidly_layout_def\<close>)
qed

text \<open>
  C37. A Solidly pool that a cold start prepared replays every accepted \<open>Sync\<close> exactly: its layout has four different
  slots, the batch writes the two reserves of the event to their own slots and touches neither token slot, whatever
  the cached state.
\<close>

theorem solidly_ready_replays:
  fixes fetch :: "'e fetcher"
  assumes "prepare_resumable_pool fetch adapter_of pool baseline policy base env max_rounds = Inr s"
    and "adapter_of SolidlyV2 = Some solidly_adapter" "reg_protocol pool = SolidlyV2"
    and "decodes_sync 256 sync_valid" "sync_valid log" "nth_opt (log_topics log) 0 = Some sync_hash"
  shows "\<exists>a layout r0 r1 event. key_address (reg_key pool) = Some a \<and> solidly_layout (pps_registration s) = Some layout
    \<and> data_word log 0 = Some r0 \<and> data_word log 1 = Some r1
    \<and> aer_event (solidly_decode_event sync_hash sync_valid (pps_registration s) log view) = Some event
    \<and> exact_writes_to a (ae_updates event)
    \<and> written (ae_updates event) a (reserve0_slot layout) = Some r0 \<and> written (ae_updates event) a (reserve1_slot layout) = Some r1
    \<and> written (ae_updates event) a (token0_slot layout) = None \<and> written (ae_updates event) a (token1_slot layout) = None"
proof -
  from decodes_syncE [OF assms(4,5)] obtain r0 r1 where r: "data_word log 0 = Some r0" "data_word log 1 = Some r1" by metis
  obtain p where p: "pa_planner solidly_adapter pool policy = Inr p"
    using assms(1-3) by (cases "pa_planner solidly_adapter pool policy")
      (auto simp: prepare_refines_direct direct_cold_start_def split: if_splits)
  then obtain a layout where l: "key_address (reg_key pool) = Some a" "solidly_layout pool = Some layout"
    "\<not> slots_collide [reserve0_slot layout, reserve1_slot layout, token0_slot layout, token1_slot layout]"
    by (auto simp: solidly_adapter_def solidly_cold_start_planner_def split: option.splits if_splits)
  have d: "distinct [reserve0_slot layout, reserve1_slot layout, token0_slot layout, token1_slot layout]"
    using l(3) by (simp add: slots_collide_def numeral_2_eq_2 numeral_3_eq_3)
  have reg: "reg_key (pps_registration s) = reg_key pool"
    using solidly_contract.prepared_registration [OF assms(1,2) refl assms(3)] by blast
  obtain p' report outcome where f: "op_finish (pa_ops solidly_adapter) p' pool report = (outcome, pps_registration s)"
    using prepare_finishes [OF assms(1), of solidly_adapter] assms(2,3) by auto
  have lay: "solidly_layout (pps_registration s) = Some layout"
    using f l(2) solidly_finish_layout by (simp add: solidly_adapter_def)
  define us where "us = [Slot a (reserve0_slot layout) r0, Slot a (reserve1_slot layout) r1]"
  have "\<exists>event. aer_event (solidly_decode_event sync_hash sync_valid (pps_registration s) log view) = Some event \<and> ae_updates event = us"
    by (simp add: solidly_decode_event_def assms reg l lay r result_event_def us_def del: One_nat_def)
  then show ?thesis using l(1) lay r d by (auto simp: us_def)
qed

theorem solidly_ready_replays_witness:
  "\<exists>s event. prepare_resumable_pool nine_fetch [SolidlyV2 \<mapsto> solidly_adapter] solidly_pool () HotSlotsOnly (\<lambda>_ _. None) no_code 3 = Inr s
    \<and> aer_event (solidly_decode_event 7 (\<lambda>l. l = sync_log 2) (pps_registration s) (sync_log 2) (\<lambda>_ _. None)) = Some event"
proof -
  obtain s where s: "prepare_resumable_pool nine_fetch [SolidlyV2 \<mapsto> solidly_adapter] solidly_pool () HotSlotsOnly (\<lambda>_ _. None) no_code 3 = Inr s"
    using solidly_prepared by blast
  have "decodes_sync 256 (\<lambda>l. l = sync_log 2)" by (rule decodes_sync_log) simp_all
  with solidly_ready_replays [OF s, of "\<lambda>l. l = sync_log 2" "sync_log 2" 7 "\<lambda>_ _. None"] s show ?thesis
    by (auto simp: sync_log_def nth_opt_def)
qed

section \<open>The Balancer vault\<close>

text \<open>
  C38. A decoded vault swap refines the swap on balances: when the event is exact, both tokens have a located cash field, the
  fields differ, and after the writes the field of the token in has grown and the one of the token out shrunk by the
  amounts of the event, every other cash field of the vault and the upper 32 bits of every word being unchanged; when
  the event is not exact it writes nothing. It is exact whenever both fields are located, cached and different, can take
  the amounts within 112 bits, and are low fields or belong to a pool of two tokens.
\<close>

theorem balancer_swap_refines:
  assumes "reg_metadata pool = BalancerV2Meta metadata" "bal_vault metadata = Some vault" "key_bytes32 (reg_key pool) = Some pool_id"
    and "nth_opt (log_topics log) 0 = Some (abi_swap_hash abi)" "abi_decode_swap abi log = Some swap"
  shows "\<exists>event. aer_event (balancer_decode_event abi pool log view) = Some event
    \<and> (if ae_quality event = Exact
       then (\<exists>in_loc out_loc. token_cash_location metadata (bs_token_in swap) = Some in_loc
           \<and> token_cash_location metadata (bs_token_out swap) = Some out_loc \<and> loc_field in_loc \<noteq> loc_field out_loc
           \<and> cash_at (overlay (ae_updates event) view) vault
             = balances_swapped (cash_at view vault) (loc_field in_loc) (bs_amount_in swap) (loc_field out_loc) (bs_amount_out swap))
         \<and> exact_writes_to vault (ae_updates event)
         \<and> (\<forall>a k. map_option (drop_bit 224) (overlay (ae_updates event) view a k) = map_option (drop_bit 224) (view a k))
       else ae_updates event = [])
    \<and> (\<forall>in_loc out_loc ci co. token_cash_location metadata (bs_token_in swap) = Some in_loc
        \<longrightarrow> token_cash_location metadata (bs_token_out swap) = Some out_loc \<longrightarrow> loc_field in_loc \<noteq> loc_field out_loc
        \<longrightarrow> is_two_token_pool pool_id \<or> \<not> bal_high_field in_loc \<and> \<not> bal_high_field out_loc
        \<longrightarrow> cash_at view vault (loc_field in_loc) = Some ci \<longrightarrow> ci + uint (bs_amount_in swap) < 2 ^ 112
        \<longrightarrow> cash_at view vault (loc_field out_loc) = Some co \<longrightarrow> uint (bs_amount_out swap) \<le> co \<longrightarrow> ae_quality event = Exact)"
proof -
  define delta where "delta = \<lparr>scd_token_in = bs_token_in swap, scd_amount_in = bs_amount_in swap,
    scd_token_out = bs_token_out swap, scd_amount_out = bs_amount_out swap\<rparr>"
  have fields: "scd_token_in delta = bs_token_in swap" "scd_amount_in delta = bs_amount_in swap"
    "scd_token_out delta = bs_token_out swap" "scd_amount_out delta = bs_amount_out swap" by (simp_all add: delta_def)
  show ?thesis
  proof (cases "event_source_swap view vault pool_id metadata delta")
    case None
    obtain event where e: "aer_event (balancer_decode_event abi pool log view) = Some event" "ae_updates event = []" "ae_quality event \<noteq> Exact"
      using assms None by (cases "bal_balance_slots metadata = []")
        (simp_all add: balancer_decode_event_def balancer_decode_swap_def delta_def [symmetric] resync_repair_def result_event_def)
    have "\<not> (token_cash_location metadata (bs_token_in swap) = Some i \<and> token_cash_location metadata (bs_token_out swap) = Some o'
        \<and> loc_field i \<noteq> loc_field o' \<and> (is_two_token_pool pool_id \<or> \<not> bal_high_field i \<and> \<not> bal_high_field o')
        \<and> cash_at view vault (loc_field i) = Some ci \<and> ci + uint (bs_amount_in swap) < 2 ^ 112
        \<and> cash_at view vault (loc_field o') = Some co \<and> uint (bs_amount_out swap) \<le> co)" for i o' ci co
      using event_source_swap_total [of metadata delta i o' pool_id view vault ci co, unfolded fields] None by blast
    then show ?thesis using e by (intro exI [of _ event]) auto
  next
    case (Some us)
    obtain event where e: "aer_event (balancer_decode_event abi pool log view) = Some event" "ae_updates event = us" "ae_quality event = Exact"
      using assms Some by (simp add: balancer_decode_event_def balancer_decode_swap_def delta_def [symmetric] result_event_def)
    obtain i o' where loc: "token_cash_location metadata (bs_token_in swap) = Some i"
      "token_cash_location metadata (bs_token_out swap) = Some o'" "loc_field i \<noteq> loc_field o'"
      using event_source_swap_SomeE [OF Some] unfolding fields by metis
    note ref = event_source_swap_refines [OF Some, unfolded fields, OF loc(1,2)]
    show ?thesis
      using e loc ref event_source_swap_stamp [OF Some] by (intro exI [of _ event]) auto
  qed
qed

lemma vault_facts:
  "reg_metadata vault_pool = BalancerV2Meta vault_metadata" "bal_vault vault_metadata = Some 3"
  "key_bytes32 (reg_key vault_pool) = Some (push_bit 80 2)" "nth_opt (log_topics vault_log) 0 = Some (abi_swap_hash vault_abi)"
  "abi_decode_swap vault_abi vault_log = Some \<lparr>bs_token_in = 11, bs_token_out = 12, bs_amount_in = 5, bs_amount_out = 3\<rparr>"
  "token_cash_location vault_metadata 11 = Some \<lparr>bal_token = 11, bal_slot = 5, bal_high_field = False\<rparr>"
  "token_cash_location vault_metadata 12 = Some \<lparr>bal_token = 12, bal_slot = 5, bal_high_field = True\<rparr>"
  "is_two_token_pool (push_bit 80 2)"
  "cash_at vault_view 3 (5, False) = Some 500" "cash_at vault_view 3 (5, True) = Some 1000"
  by (simp_all add: vault_pool_def vault_metadata_def registration_new_def vault_log_def vault_abi_def nth_opt_def token_cash_location_def
      is_two_token_pool_def TWO_TOKEN_SPECIALIZATION_def to_be_bytes32_def cash_at_def vault_view_def cash_field_def cash_shift_def
      CASH_BITS_def CASH_MASK_def)

theorem balancer_swap_refines_witness:
  "\<exists>event. aer_event (balancer_decode_event vault_abi vault_pool vault_log vault_view) = Some event \<and> ae_quality event = Exact
    \<and> cash_at (overlay (ae_updates event) vault_view) 3 (5, False) = Some 505
    \<and> cash_at (overlay (ae_updates event) vault_view) 3 (5, True) = Some 997"
proof -
  from balancer_swap_refines [OF vault_facts(1-5), of vault_view] obtain event where
    e: "aer_event (balancer_decode_event vault_abi vault_pool vault_log vault_view) = Some event" "ae_quality event = Exact"
    and swapped: "cash_at (overlay (ae_updates event) vault_view) 3 = balances_swapped (cash_at vault_view 3) (5, False) 5 (5, True) 3"
    using vault_facts(6-) by (auto simp: loc_field_def split: if_splits)
  then show ?thesis using vault_facts(9,10) by (simp add: balances_swapped_def)
qed

section \<open>The reactive handler\<close>


text \<open>
  C40. The store of fee evidence stays valid and bounded: an injection never aborts; it inserts or replaces the evidence
  under its own position, or, with the chain's 2048 places taken, evicts that chain's oldest entry, which is older than the
  new one, or rejects the new one, and no other entry changes. Removal, pruning and the retention after a reorganisation keep
  the store valid, and a lookup returns only evidence that names exactly the pool and the event of the context.
\<close>

theorem fee_store_bounded:
  assumes "fee_store_ok m"
  shows "(\<exists>outcome m'. inject_slipstream_fee_evidence m ev = Inr (outcome, m') \<and> fee_store_ok m'
      \<and> (case outcome of
          Inserted \<Rightarrow> map_of m' = (map_of m)(fee_key_of ev \<mapsto> ev)
        | Replaced previous \<Rightarrow> map_of m (fee_key_of ev) = Some previous \<and> map_of m' = (map_of m)(fee_key_of ev \<mapsto> ev)
        | InsertedAndEvicted evicted \<Rightarrow> (\<exists>oldest. map_of m oldest = Some evicted \<and> key_chain oldest = fee_chain_id ev
            \<and> (\<forall>k \<in> set (chain_keys (fee_chain_id ev) m). key_age oldest \<le> key_age k) \<and> key_age oldest < key_age (fee_key_of ev)
            \<and> map_of m' = (map_of m)(oldest := None, fee_key_of ev \<mapsto> ev))
        | RejectedInvalid err \<Rightarrow> evidence_validate ev = Inl err \<and> m' = m
        | RejectedStaleAtCapacity stale \<Rightarrow> stale = ev \<and> m' = m))
    \<and> fee_store_ok (snd (remove_slipstream_fee_evidence m ev)) \<and> fee_store_ok (snd (prune_slipstream_fee_evidence m chain_id minimum))
    \<and> fee_store_ok (snd (retain_slipstream_fee_evidence_for_block m chain_id number hash))
    \<and> (\<forall>pool context e. slipstream_fee_evidence m pool context = Some e \<longrightarrow>
        fee_pool e = pool \<and> evidence_validate e = Inr () \<and> fee_key_from_context pool context = Some (fee_key_of e))"
proof (intro conjI allI)
  obtain outcome m' where i: "inject_slipstream_fee_evidence m ev = Inr (outcome, m')" "fee_store_ok m'" using inject_ok [OF assms] by blast
  with inject_effect [OF i(1)] show "\<exists>outcome m'. inject_slipstream_fee_evidence m ev = Inr (outcome, m') \<and> fee_store_ok m'
      \<and> (case outcome of
          Inserted \<Rightarrow> map_of m' = (map_of m)(fee_key_of ev \<mapsto> ev)
        | Replaced previous \<Rightarrow> map_of m (fee_key_of ev) = Some previous \<and> map_of m' = (map_of m)(fee_key_of ev \<mapsto> ev)
        | InsertedAndEvicted evicted \<Rightarrow> (\<exists>oldest. map_of m oldest = Some evicted \<and> key_chain oldest = fee_chain_id ev
            \<and> (\<forall>k \<in> set (chain_keys (fee_chain_id ev) m). key_age oldest \<le> key_age k) \<and> key_age oldest < key_age (fee_key_of ev)
            \<and> map_of m' = (map_of m)(oldest := None, fee_key_of ev \<mapsto> ev))
        | RejectedInvalid err \<Rightarrow> evidence_validate ev = Inl err \<and> m' = m
        | RejectedStaleAtCapacity stale \<Rightarrow> stale = ev \<and> m' = m)"
    by (intro exI [of _ outcome] exI [of _ m']) (cases outcome; simp)
  show "fee_store_ok (snd (remove_slipstream_fee_evidence m ev))" "fee_store_ok (snd (prune_slipstream_fee_evidence m chain_id minimum))"
    "fee_store_ok (snd (retain_slipstream_fee_evidence_for_block m chain_id number hash))"
    using assms by (simp_all add: remove_slipstream_fee_evidence_def prune_slipstream_fee_evidence_def
        retain_slipstream_fee_evidence_for_block_def Let_def fee_store_ok_filter fee_store_ok_remove)
  show "slipstream_fee_evidence m pool cx = Some e \<longrightarrow>
        fee_pool e = pool \<and> evidence_validate e = Inr () \<and> fee_key_from_context pool cx = Some (fee_key_of e)" for pool cx e
    using slipstream_fee_evidence_Some [OF assms, of pool cx e] by (simp add: fee_key_from_context_def fee_key_of_def)
qed

theorem fee_store_bounded_witness:
  "\<exists>outcome m'. inject_slipstream_fee_evidence [] slip_evidence = Inr (outcome, m') \<and> fee_store_ok m'"
proof -
  have "fee_store_ok []" by (simp add: fee_store_ok_def chain_keys_def)
  from fee_store_bounded [OF this, of slip_evidence] show ?thesis by blast
qed

end
