(* ===== verification/Example_Adapter.thy ===== *)
theory Example_Adapter
  imports V3_Cold_Start Example_Accounting
begin

text \<open>
  The pool of \<open>Example_Pool\<close> as a registration, a \<open>SetFeeProtocol\<close> log of it decoded by the adapter, and a provider that
  answers its cold start.
\<close>

definition demo_abi :: v3_abi where
  "demo_abi = \<lparr>h_initialize = 1, h_swap = 2, h_mint = 3, h_collect = 4, h_burn = 5, h_flash = 6, h_growth = 7,
     h_set_fee_protocol = 8, h_collect_protocol = 9, h_pancake_swap = 10,
     ok_swap = (\<lambda>_. True), ok_pancake_swap = (\<lambda>_. True), ok_mint = (\<lambda>_. True), ok_burn = (\<lambda>_. True), ok_collect = (\<lambda>_. True),
     ok_flash = (\<lambda>_. True), ok_growth = (\<lambda>_. True), ok_set_fee_protocol = (\<lambda>_. True), ok_collect_protocol = (\<lambda>_. True)\<rparr>"

definition demo_sigs :: staking_topics where
  "demo_sigs = \<lparr>sig_deposit = 11, sig_withdraw = 12, sig_transfer = 13\<rparr>"

definition demo_metadata :: v3_metadata where
  "demo_metadata = \<lparr>v3_token0 = None, v3_token1 = None, v3_fee = Some 3000, v3_tick_spacing = Some 10, v3_factory = None,
     v3_quoter = None, v3_storage_layout_override = None, v3_warm_word_radius = None, v3_warmed_slots = []\<rparr>"

definition demo_registration :: pool_registration where
  "demo_registration = (registration_new (UniswapV3Key demo_pool))\<lparr>reg_metadata := UniswapV3Meta demo_metadata\<rparr>"

definition demo_fee_log :: log where
  "demo_fee_log = \<lparr>log_address = demo_pool, log_topics = [8],
     log_data = to_be_bytes32 4 @ to_be_bytes32 4 @ to_be_bytes32 5 @ to_be_bytes32 6\<rparr>"

lemma demo_registration_select:
  "reg_key demo_registration = UniswapV3Key demo_pool" "reg_protocol demo_registration = UniswapV3"
  "layout_for demo_registration = Some (layout_uniswap 10)" "pool_warm_word_radius demo_registration = None"
  "check_protocol_agreement demo_registration = Inr ()"
  by (simp_all add: demo_registration_def registration_new_def reg_protocol_def layout_from_metadata_def demo_metadata_def
      pool_warm_word_radius_def pool_v3_metadata_def check_protocol_agreement_def)

text \<open>The log is matched by the pool's source and replayed.\<close>

definition demo_source :: event_source where
  "demo_source = source_direct demo_pool (v3_mutating_event_topics demo_abi UniswapV3)"

lemma demo_source_matches:
  "demo_source \<in> set (v3_event_sources demo_abi demo_sigs demo_registration)"
  "event_source_matches demo_source (reg_key demo_registration) demo_fee_log"
  by (simp_all add: demo_source_def v3_event_sources_def staking_sources_def demo_registration_select source_direct_def
      event_source_matches_def matches_indexed_topics_def demo_fee_log_def nth_opt_def v3_mutating_event_topics_def
      canonical_v3_non_swap_mutation_topics_def demo_abi_def)

lemma demo_fee_log_words:
  "data_word demo_fee_log 0 = Some 4" "data_word demo_fee_log 1 = Some 4" "data_word demo_fee_log 2 = Some 5"
  "data_word demo_fee_log 3 = Some 6"
  by (simp_all add: data_word_def demo_fee_log_def del: One_nat_def)

lemma demo_fee_log_decoded:
  "v3_decode_event_with_context demo_hash demo_abi demo_sigs demo_registration demo_fee_log demo_view demo_ctx
    = result_event (exact_event demo_registration demo_fee_log 8 UnknownEvent
        [Slot demo_pool 0 2463923551118129878715653531026467732287819463790608118000252788586577920])"
proof -
  have body: "decode_fee_protocol_body demo_abi demo_fee_log = Inr demo_fee_protocol"
    by (simp add: decode_fee_protocol_body_def demo_abi_def narrow_u8_def log_word_def demo_fee_log_words demo_fee_protocol_def
        word_eval del: One_nat_def)
  have layout: "canonical_accounting_layout demo_registration = Some (demo_pool, layout_uniswap 10)"
    by (simp add: canonical_accounting_layout_def demo_registration_select del: layout_for.simps)
  have staking: "staking_decode demo_hash demo_sigs demo_registration demo_fee_log demo_ctx demo_view = None"
    by (simp add: staking_decode_def demo_registration_select)
  have derive: "derive_canonical_accounting demo_abi demo_registration demo_pool (layout_uniswap 10) demo_fee_log demo_view 8 demo_ctx
      = Some (Inr [Slot demo_pool 0 2463923551118129878715653531026467732287819463790608118000252788586577920])"
    using body demo_fee_protocol_run by (simp add: derive_canonical_accounting_def) (simp add: demo_abi_def)
  have topic: "nth_opt (log_topics demo_fee_log) 0 = Some 8" by (simp add: demo_fee_log_def nth_opt_def)
  have "v3_decode_event_with_context demo_hash demo_abi demo_sigs demo_registration demo_fee_log demo_view demo_ctx
      = decode_canonical_accounting_event demo_abi demo_registration demo_fee_log demo_view 8 demo_ctx"
    unfolding v3_decode_event_with_context_def staking topic by (simp add: demo_abi_def canonical_v3_accounting_topics_def)
  then show ?thesis using layout derive by (simp add: decode_canonical_accounting_event_def)
qed

section \<open>A provider\<close>

definition demo_chain_word :: "u256 \<Rightarrow> u256" where
  "demo_chain_word k = (case map_of demo_words k of Some v \<Rightarrow> v | None \<Rightarrow> 0)"

definition demo_onchain :: state_view where
  "demo_onchain a k = Some (if a = demo_pool then demo_chain_word k else 0)"

definition demo_fetch :: "unit fetcher" where
  "demo_fetch n verify probe = Inr \<lparr>sr_fetched = map (outcome_of demo_onchain) verify, sr_probed = [],
     sr_patch = map (\<lambda>cell. (cell, the (demo_onchain (fst cell) (snd cell)))) verify\<rparr>"

lemma demo_fetch_answers: "provider_answers demo_onchain demo_fetch"
  by (auto simp: provider_answers_def answers_from_def demo_fetch_def list_all_iff demo_onchain_def image_image)

lemma demo_slot0_nonzero: "demo_chain_word 0 \<noteq> 0"
  by (simp add: demo_chain_word_def demo_words_def demo_slot0_def word_eval)

end
