(* ===== verification/Fee_Evaluation.thy ===== *)
theory Fee_Evaluation
  imports Concentrated_Liquidity
begin

text \<open>
  The offline evaluation of the unstaked fee of a reviewed Slipstream pool (\<open>src/adapters/uniswap_v3.rs\<close>): the checks of the
  snapshot's identity and of the deployed code, the eight calls of the fee path, and the attestation that goes into the
  fee evidence.

  The overlay that executes the calls belongs to another crate and is an argument: how it is created from a snapshot,
  what a call yields, and whether it met state that the snapshot does not have. Of the snapshot, the record has what the
  checks read.
\<close>

section \<open>Snapshots and calls\<close>

datatype unstaked_fee_evaluation_error =
    SnapshotIdentity
  | RuntimeAddressIdentity
  | RuntimeCodeIdentity b256
  | MissingStateInEvaluation
  | ExecutionFailed
  | MalformedOutput
  | EvaluatedFeeRange
  | FeePathMismatch

record evm_snapshot =
  es_chain_id :: u64
  es_block_number :: "u64 option"
  es_block_context_hash :: "b256 option"
  es_timestamp :: "u64 option"
  es_block_hash :: "u64 \<Rightarrow> b256 option"
  es_account_code_hash :: "address \<Rightarrow> b256 option"

text \<open>A successful call has its output and the hashes of the executed code; the rest reverts, halts or fails.\<close>

datatype overlay_result = CallSuccess "u8 list" "b256 list" | CallRevertOrHalt | CallError

record 'ov evm =
  evm_overlay :: "evm_snapshot \<Rightarrow> 'ov"
  evm_call :: "'ov \<Rightarrow> address \<Rightarrow> address \<Rightarrow> u8 list \<Rightarrow> overlay_result \<times> 'ov"
  evm_missing_state :: "'ov \<Rightarrow> bool"

definition string_bytes :: "string \<Rightarrow> u8 list" where
  "string_bytes s = map (\<lambda>c. of_nat (of_char c)) s"

definition call_data :: "keccak \<Rightarrow> string \<Rightarrow> address option \<Rightarrow> u8 list" where
  "call_data keccak256 signature argument =
    take 4 (to_be_bytes32 (keccak256 (string_bytes signature)))
    @ (case argument of Some a \<Rightarrow> replicate 12 0 @ log_address_bytes a | None \<Rightarrow> [])"

definition offline_call_word ::
  "keccak \<Rightarrow> 'ov evm \<Rightarrow> address \<Rightarrow> address \<Rightarrow> string \<Rightarrow> address option \<Rightarrow> 'ov \<times> b256 set
    \<Rightarrow> unstaked_fee_evaluation_error + (u256 \<times> ('ov \<times> b256 set))" where
  "offline_call_word keccak256 vm caller target signature argument = (\<lambda>(ov, observed).
    case evm_call vm ov caller target (call_data keccak256 signature argument) of (result, ov) \<Rightarrow>
      if evm_missing_state vm ov then Inl MissingStateInEvaluation
      else case result of
          CallSuccess output code_hashes \<Rightarrow>
            if length output < 32 then Inl MalformedOutput
            else Inr (be_word (take 32 output), (ov, observed \<union> set code_hashes))
        | CallRevertOrHalt \<Rightarrow> Inl ExecutionFailed
        | CallError \<Rightarrow> Inl ExecutionFailed)"

section \<open>Identities\<close>

definition validate_snapshot_identity ::
  "evm_snapshot \<Rightarrow> reviewed_fee_runtime \<Rightarrow> slipstream_snapshot_identity \<Rightarrow> adapter_event_context
    \<Rightarrow> unstaked_fee_evaluation_error + unit" where
  "validate_snapshot_identity snapshot reviewed ident ctx =
    (if \<not> matches_context ident ctx
        \<or> es_chain_id snapshot \<noteq> rfr_chain_id reviewed
        \<or> snap_chain_id ident \<noteq> rfr_chain_id reviewed
        \<or> es_block_number snapshot \<noteq> Some (snap_block_number ident)
        \<or> es_block_context_hash snapshot \<noteq> Some (snap_block_hash ident)
        \<or> es_timestamp snapshot \<noteq> Some (snap_block_timestamp ident)
        \<or> Option.bind (checked_sub (snap_block_number ident) 1) (es_block_hash snapshot) \<noteq> Some (snap_parent_hash ident)
     then Inl SnapshotIdentity else Inr ())"

fun check_code_hashes :: "evm_snapshot \<Rightarrow> (address \<times> b256) list \<Rightarrow> unstaked_fee_evaluation_error + unit" where
  "check_code_hashes snapshot [] = Inr ()"
| "check_code_hashes snapshot ((address, expected) # rest) =
    (if es_account_code_hash snapshot address \<noteq> Some expected then Inl (RuntimeCodeIdentity expected)
     else check_code_hashes snapshot rest)"

definition validate_reviewed_runtime_addresses ::
  "evm_snapshot \<Rightarrow> reviewed_fee_runtime \<Rightarrow> bool \<Rightarrow> unstaked_fee_evaluation_error + unit" where
  "validate_reviewed_runtime_addresses snapshot reviewed include_fee_path =
    (let pool_runtimes = [(rfr_pool reviewed, rfr_proxy_runtime_code_hash reviewed),
           (rfr_implementation reviewed, rfr_implementation_runtime_code_hash reviewed)];
         fee_runtimes = [(rfr_factory reviewed, rfr_factory_runtime_code_hash reviewed),
           (rfr_voter reviewed, rfr_voter_runtime_code_hash reviewed),
           (rfr_module reviewed, rfr_module_runtime_code_hash reviewed)]
     in check_code_hashes snapshot (pool_runtimes @ (if include_fee_path then fee_runtimes else [])))"

section \<open>The fee path\<close>

record fee_path_outcome =
  fpo_effective_fee :: u32
  fpo_gauge_alive :: bool
  fpo_observed_code_hashes :: "b256 set"

definition evaluate_reviewed_unstaked_fee_path ::
  "keccak \<Rightarrow> 'ov evm \<Rightarrow> evm_snapshot \<Rightarrow> reviewed_fee_runtime \<Rightarrow> address \<Rightarrow> unstaked_fee_evaluation_error + fee_path_outcome" where
  "evaluate_reviewed_unstaked_fee_path keccak256 vm snapshot reviewed caller =
    (let call = offline_call_word keccak256 vm caller
     in rbind (call (rfr_pool reviewed) ''factory()'' None (evm_overlay vm snapshot, {})) (\<lambda>(actual_pool_factory, st).
        rbind (call (rfr_implementation reviewed) ''factory()'' None st) (\<lambda>(_, st).
        rbind (call (rfr_factory reviewed) ''voter()'' None st) (\<lambda>(actual_voter, st).
        rbind (call (rfr_factory reviewed) ''unstakedFeeModule()'' None st) (\<lambda>(actual_module, st).
        rbind (call (rfr_voter reviewed) ''gauges(address)'' (Some (rfr_pool reviewed)) st) (\<lambda>(actual_gauge, st).
        if topic_address actual_pool_factory \<noteq> rfr_factory reviewed \<or> topic_address actual_voter \<noteq> rfr_voter reviewed
           \<or> topic_address actual_module \<noteq> rfr_module reviewed \<or> topic_address actual_gauge \<noteq> rfr_gauge reviewed
        then Inl RuntimeAddressIdentity
        else rbind (call (rfr_voter reviewed) ''isAlive(address)'' (Some (rfr_gauge reviewed)) st) (\<lambda>(alive_word, st).
        if 1 < alive_word then Inl MalformedOutput
        else let gauge_alive = (alive_word \<noteq> 0)
        in rbind (call (rfr_factory reviewed) ''getUnstakedFee(address)'' (Some (rfr_pool reviewed)) st) (\<lambda>(effective_word, st).
        if 1000000 < effective_word then Inl EvaluatedFeeRange
        else let effective_fee = (ucast effective_word :: u32)
        in rbind (call (rfr_module reviewed) ''getFee(address)'' (Some (rfr_pool reviewed)) st) (\<lambda>(module_fee, st).
        if gauge_alive \<and> module_fee \<noteq> effective_word \<or> \<not> gauge_alive \<and> effective_fee \<noteq> 0 then Inl FeePathMismatch
        else case find (\<lambda>hash. hash \<notin> snd st)
              [rfr_proxy_runtime_code_hash reviewed, rfr_implementation_runtime_code_hash reviewed,
               rfr_factory_runtime_code_hash reviewed, rfr_voter_runtime_code_hash reviewed, rfr_module_runtime_code_hash reviewed] of
            Some missing \<Rightarrow> Inl (RuntimeCodeIdentity missing)
          | None \<Rightarrow> Inr \<lparr>fpo_effective_fee = effective_fee, fpo_gauge_alive = gauge_alive,
              fpo_observed_code_hashes = snd st\<rparr>)))))))))"

record unstaked_fee_evaluation =
  ufe_effective_fee :: u32
  ufe_proof :: slipstream_unstaked_fee_proof

definition reviewed_runtime_evaluation ::
  "slipstream_runtime_family \<Rightarrow> bool \<Rightarrow> u32 \<Rightarrow> slipstream_snapshot_identity \<Rightarrow> slipstream_unstaked_fee_proof" where
  "reviewed_runtime_evaluation family gauge_alive effective_fee ident =
    \<lparr>prf_runtime_family = family, prf_kind = ReviewedRuntimeEvaluation, prf_gauge_alive = Some gauge_alive,
     prf_effective_fee = Some effective_fee, prf_snapshot_identity = Some ident\<rparr>"

definition unused_all_liquidity_staked ::
  "slipstream_runtime_family \<Rightarrow> slipstream_snapshot_identity \<Rightarrow> slipstream_unstaked_fee_proof" where
  "unused_all_liquidity_staked family ident =
    \<lparr>prf_runtime_family = family, prf_kind = UnusedAllLiquidityStaked, prf_gauge_alive = None,
     prf_effective_fee = None, prf_snapshot_identity = Some ident\<rparr>"

definition evaluate_slipstream_unstaked_fee ::
  "keccak \<Rightarrow> 'ov evm \<Rightarrow> slipstream_runtime_family \<Rightarrow> evm_snapshot \<Rightarrow> slipstream_snapshot_identity \<Rightarrow> adapter_event_context
    \<Rightarrow> unstaked_fee_evaluation_error + unstaked_fee_evaluation" where
  "evaluate_slipstream_unstaked_fee keccak256 vm family snapshot ident ctx =
    (let reviewed = reviewed_slipstream_fee_runtime family
     in rbind (validate_snapshot_identity snapshot reviewed ident ctx) (\<lambda>_.
        rbind (validate_reviewed_runtime_addresses snapshot reviewed True) (\<lambda>_.
        rbind (evaluate_reviewed_unstaked_fee_path keccak256 vm snapshot reviewed 0) (\<lambda>outcome.
        rbind (evaluate_reviewed_unstaked_fee_path keccak256 vm snapshot reviewed (rfr_pool reviewed)) (\<lambda>alternate.
        if alternate \<noteq> outcome then Inl FeePathMismatch
        else Inr \<lparr>ufe_effective_fee = fpo_effective_fee outcome,
          ufe_proof = reviewed_runtime_evaluation family (fpo_gauge_alive outcome) (fpo_effective_fee outcome) ident\<rparr>)))))"

definition evaluate_slipstream_all_staked_candidate ::
  "slipstream_runtime_family \<Rightarrow> evm_snapshot \<Rightarrow> slipstream_snapshot_identity \<Rightarrow> adapter_event_context
    \<Rightarrow> unstaked_fee_evaluation_error + unstaked_fee_evaluation" where
  "evaluate_slipstream_all_staked_candidate family snapshot ident ctx =
    (let reviewed = reviewed_slipstream_fee_runtime family
     in rbind (validate_snapshot_identity snapshot reviewed ident ctx) (\<lambda>_.
        rbind (validate_reviewed_runtime_addresses snapshot reviewed False) (\<lambda>_.
        Inr \<lparr>ufe_effective_fee = 0, ufe_proof = unused_all_liquidity_staked family ident\<rparr>)))"

section \<open>What an evaluation attests\<close>

lemma validate_snapshot_identity_okD:
  assumes "validate_snapshot_identity snapshot reviewed ident ctx = Inr ()"
  shows "matches_context ident ctx" "snap_chain_id ident = rfr_chain_id reviewed" "0 < snap_block_number ident"
  using assms by (auto simp: validate_snapshot_identity_def checked_sub_def word_neq_0_conv [symmetric] split: if_splits)

lemma evaluate_path_okD:
  assumes "evaluate_reviewed_unstaked_fee_path keccak256 vm snapshot reviewed caller = Inr outcome"
  shows "fpo_effective_fee outcome \<le> 1000000" "\<not> fpo_gauge_alive outcome \<Longrightarrow> fpo_effective_fee outcome = 0"
    "{rfr_proxy_runtime_code_hash reviewed, rfr_implementation_runtime_code_hash reviewed, rfr_factory_runtime_code_hash reviewed,
      rfr_voter_runtime_code_hash reviewed, rfr_module_runtime_code_hash reviewed} \<subseteq> fpo_observed_code_hashes outcome"
proof -
  have le: "(ucast w :: u32) \<le> 1000000" if "\<not> 1000000 < w" for w :: u256
  proof -
    have "take_bit 32 (uint w) \<le> uint w" by (simp add: take_bit_int_less_eq_self_iff)
    then show ?thesis using that by (simp add: word_le_def word_less_def unsigned_ucast_eq)
  qed
  show "fpo_effective_fee outcome \<le> 1000000" "\<not> fpo_gauge_alive outcome \<Longrightarrow> fpo_effective_fee outcome = 0"
    "{rfr_proxy_runtime_code_hash reviewed, rfr_implementation_runtime_code_hash reviewed, rfr_factory_runtime_code_hash reviewed,
      rfr_voter_runtime_code_hash reviewed, rfr_module_runtime_code_hash reviewed} \<subseteq> fpo_observed_code_hashes outcome"
    using assms unfolding evaluate_reviewed_unstaked_fee_path_def Let_def
    by (auto split: if_splits option.splits prod.splits elim!: rbind_eq_InrE simp: find_None_iff le)
qed

text \<open>
  An evaluation for the event of valid evidence is accepted into that evidence, and so is the candidate that all liquidity
  is staked: the attestation carries the family, the identity and the fee that the validation asks for.
\<close>

lemma evidence_identity_matches_update [simp]:
  "evidence_identity_matches family (ev\<lparr>fee_effective_unstaked_fee := f, fee_unstaked_fee_proof := prf\<rparr>) = evidence_identity_matches family ev"
  "evidence_identity (ev\<lparr>fee_effective_unstaked_fee := f, fee_unstaked_fee_proof := prf\<rparr>) = evidence_identity ev"
  by (cases family; simp add: evidence_identity_def)+

lemma evaluation_okD:
  assumes "evaluate_slipstream_unstaked_fee keccak256 vm family snapshot ident ctx = Inr evaluation"
  obtains gauge_alive where "ufe_proof evaluation = reviewed_runtime_evaluation family gauge_alive (ufe_effective_fee evaluation) ident"
    "ufe_effective_fee evaluation \<le> 1000000" "\<not> gauge_alive \<longrightarrow> ufe_effective_fee evaluation = 0" "matches_context ident ctx"
proof -
  obtain outcome where o: "evaluate_reviewed_unstaked_fee_path keccak256 vm snapshot (reviewed_slipstream_fee_runtime family) 0 = Inr outcome"
    "validate_snapshot_identity snapshot (reviewed_slipstream_fee_runtime family) ident ctx = Inr ()"
    "evaluation = \<lparr>ufe_effective_fee = fpo_effective_fee outcome,
       ufe_proof = reviewed_runtime_evaluation family (fpo_gauge_alive outcome) (fpo_effective_fee outcome) ident\<rparr>"
    using assms unfolding evaluate_slipstream_unstaked_fee_def Let_def by (auto split: if_splits elim!: rbind_eq_InrE)
  show thesis by (rule that [of "fpo_gauge_alive outcome"])
      (use evaluate_path_okD [OF o(1)] validate_snapshot_identity_okD(1) [OF o(2)] in \<open>simp_all add: o(3)\<close>)
qed

lemma evaluation_accepted:
  assumes "evidence_validate ev = Inr ()"
    and "evaluate_slipstream_unstaked_fee keccak256 vm (fee_runtime_family ev) snapshot (evidence_identity ev) ctx = Inr evaluation"
  shows "with_unstaked_fee_evaluation ev (ufe_effective_fee evaluation) (ufe_proof evaluation)
    = Inr (ev\<lparr>fee_effective_unstaked_fee := ufe_effective_fee evaluation, fee_unstaked_fee_proof := ufe_proof evaluation\<rparr>)"
proof -
  obtain gauge_alive where g: "ufe_proof evaluation = reviewed_runtime_evaluation (fee_runtime_family ev) gauge_alive
      (ufe_effective_fee evaluation) (evidence_identity ev)" "ufe_effective_fee evaluation \<le> 1000000"
    using evaluation_okD [OF assms(2)] by blast
  show ?thesis using assms(1) g
    by (auto simp: with_unstaked_fee_evaluation_def evidence_validate_def reviewed_runtime_evaluation_def Let_def not_less
        split: if_splits slipstream_unstaked_fee_proof_kind.splits)
qed

lemma candidate_accepted:
  assumes "evidence_validate ev = Inr ()"
    and "evaluate_slipstream_all_staked_candidate (fee_runtime_family ev) snapshot (evidence_identity ev) ctx = Inr evaluation"
  shows "with_unstaked_fee_evaluation ev (ufe_effective_fee evaluation) (ufe_proof evaluation)
    = Inr (ev\<lparr>fee_effective_unstaked_fee := 0, fee_unstaked_fee_proof := unused_all_liquidity_staked (fee_runtime_family ev) (evidence_identity ev)\<rparr>)"
proof -
  have e: "evaluation = \<lparr>ufe_effective_fee = 0, ufe_proof = unused_all_liquidity_staked (fee_runtime_family ev) (evidence_identity ev)\<rparr>"
    using assms(2) unfolding evaluate_slipstream_all_staked_candidate_def Let_def by (auto elim!: rbind_eq_InrE)
  show ?thesis using assms(1) unfolding e
    by (auto simp: with_unstaked_fee_evaluation_def evidence_validate_def unused_all_liquidity_staked_def Let_def not_less
        split: if_splits slipstream_unstaked_fee_proof_kind.splits)
qed

text \<open>With the evaluated fee and its attestation, evidence that a swap accepts stays acceptable for the same event.\<close>

lemma evaluation_injected:
  assumes "validate_slipstream_evidence addr ctx state = Inr ev"
    and "evaluate_slipstream_unstaked_fee keccak256 vm (fee_runtime_family ev) snapshot (evidence_identity ev) ctx = Inr evaluation"
    and ev': "ev' = ev\<lparr>fee_effective_unstaked_fee := ufe_effective_fee evaluation, fee_unstaked_fee_proof := ufe_proof evaluation\<rparr>"
  shows "with_unstaked_fee_evaluation ev (ufe_effective_fee evaluation) (ufe_proof evaluation) = Inr ev'"
    and "validate_slipstream_evidence addr (with_slipstream_fee_evidence ctx ev') state = Inr ev'"
proof -
  note okD = validate_slipstream_evidence_okD [OF assms(1)]
  show w: "with_unstaked_fee_evaluation ev (ufe_effective_fee evaluation) (ufe_proof evaluation) = Inr ev'"
    using evaluation_accepted [OF okD(2) assms(2)] ev' by simp
  have v: "evidence_validate ev' = Inr ()"
    using w unfolding with_unstaked_fee_evaluation_def Let_def ev' by (auto elim!: rbind_eq_InrE)
  have f: "ufe_effective_fee evaluation \<le> 1000000" using evaluation_okD [OF assms(2)] by blast
  obtain w where s: "state addr 0 = Some w" "decode_address_slot w = fee_factory ev" using okD(7) by blast
  show "validate_slipstream_evidence addr (with_slipstream_fee_evidence ctx ev') state = Inr ev'"
    using assms(1) f v s unfolding validate_slipstream_evidence_def with_slipstream_fee_evidence_def ev' Let_def
    by (simp add: okD(1) required_def SLIPSTREAM_FACTORY_SLOT_def FEE_DENOMINATOR_def not_less split: if_split_asm)
qed

end
