(* ===== verification/Example_Fee.thy ===== *)
theory Example_Fee
  imports Fee_Evaluation Example_Slipstream
begin

text \<open>
  An evaluation of the unstaked fee of the pool of \<open>Example_Slipstream\<close>: a snapshot of its block, and an overlay that
  answers the eight calls of the fee path in their order, for a live gauge and a levy of 5 percent.
\<close>

definition fee_runtime :: reviewed_fee_runtime where
  "fee_runtime = reviewed_slipstream_fee_runtime AerodromeBaseBifi"

definition fee_code_hashes :: "(address \<times> b256) list" where
  "fee_code_hashes =
    [(rfr_pool fee_runtime, rfr_proxy_runtime_code_hash fee_runtime),
     (rfr_implementation fee_runtime, rfr_implementation_runtime_code_hash fee_runtime),
     (rfr_factory fee_runtime, rfr_factory_runtime_code_hash fee_runtime),
     (rfr_voter fee_runtime, rfr_voter_runtime_code_hash fee_runtime),
     (rfr_module fee_runtime, rfr_module_runtime_code_hash fee_runtime)]"

definition fee_snapshot :: evm_snapshot where
  "fee_snapshot = \<lparr>es_chain_id = 8453, es_block_number = Some 100, es_block_context_hash = Some 0x11, es_timestamp = Some 2000,
     es_block_hash = (\<lambda>n. if n = 99 then Some 0x22 else None), es_account_code_hash = map_of fee_code_hashes\<rparr>"

definition fee_replies :: "u256 list" where
  "fee_replies =
    [ucast (rfr_factory fee_runtime), 0, ucast (rfr_voter fee_runtime), ucast (rfr_module fee_runtime),
     ucast (rfr_gauge fee_runtime), 1, 50000, 50000]"

definition fee_evm :: "u256 list evm" where
  "fee_evm = \<lparr>evm_overlay = (\<lambda>_. fee_replies),
     evm_call = (\<lambda>replies caller target calldata.
       case replies of [] \<Rightarrow> (CallError, []) | reply # rest \<Rightarrow> (CallSuccess (to_be_bytes32 reply) (map snd fee_code_hashes), rest)),
     evm_missing_state = (\<lambda>_. False)\<rparr>"

lemma fee_call:
  "offline_call_word keccak256 fee_evm caller target signature argument (reply # rest, observed)
    = Inr (reply, (rest, observed \<union> set (map snd fee_code_hashes)))"
  by (simp add: offline_call_word_def fee_evm_def)

lemma fee_address: "topic_address (ucast (a :: address)) = a"
  unfolding topic_address_def by (rule bit_word_eqI) (simp add: bit_ucast_iff)

lemma fee_path:
  "evaluate_reviewed_unstaked_fee_path keccak256 fee_evm fee_snapshot fee_runtime caller
    = Inr \<lparr>fpo_effective_fee = 50000, fpo_gauge_alive = True, fpo_observed_code_hashes = set (map snd fee_code_hashes)\<rparr>"
proof -
  have start: "evm_overlay fee_evm fee_snapshot = fee_replies" by (simp add: fee_evm_def)
  have hashes: "{rfr_proxy_runtime_code_hash fee_runtime, rfr_implementation_runtime_code_hash fee_runtime,
       rfr_factory_runtime_code_hash fee_runtime, rfr_voter_runtime_code_hash fee_runtime, rfr_module_runtime_code_hash fee_runtime}
     \<subseteq> set (map snd fee_code_hashes)"
    by (simp add: fee_code_hashes_def)
  show ?thesis unfolding evaluate_reviewed_unstaked_fee_path_def start fee_replies_def Let_def
    using hashes by (simp add: fee_call fee_address del: set_map)
qed

lemma fee_codes:
  "(\<And>x. x \<in> set xs \<Longrightarrow> map_of fee_code_hashes (fst x) = Some (snd x)) \<Longrightarrow> check_code_hashes fee_snapshot xs = Inr ()"
  by (induction xs) (auto simp: fee_snapshot_def)

lemma fee_identities:
  "validate_snapshot_identity fee_snapshot fee_runtime slip_identity slip_ctx = Inr ()"
  "validate_reviewed_runtime_addresses fee_snapshot fee_runtime True = Inr ()"
proof -
  have "matches_context slip_identity slip_ctx"
    by (simp add: matches_context_def slip_identity_def slip_ctx_eq demo_ctx_def with_transaction_hash_def
        with_event_order_def with_parent_hash_def with_chain_id_def for_block_def)
  then show "validate_snapshot_identity fee_snapshot fee_runtime slip_identity slip_ctx = Inr ()"
    by (simp add: validate_snapshot_identity_def fee_snapshot_def fee_runtime_def) (simp add: slip_identity_def checked_sub_def)
  have "distinct (map fst fee_code_hashes)" by (simp add: fee_code_hashes_def fee_runtime_def)
  then have "\<And>x. x \<in> set fee_code_hashes \<Longrightarrow> map_of fee_code_hashes (fst x) = Some (snd x)" by (simp add: map_of_is_SomeI)
  then have "check_code_hashes fee_snapshot fee_code_hashes = Inr ()" by (rule fee_codes)
  then show "validate_reviewed_runtime_addresses fee_snapshot fee_runtime True = Inr ()"
    by (simp add: validate_reviewed_runtime_addresses_def fee_code_hashes_def)
qed

definition fee_evaluation :: unstaked_fee_evaluation where
  "fee_evaluation = \<lparr>ufe_effective_fee = 50000, ufe_proof = reviewed_runtime_evaluation AerodromeBaseBifi True 50000 slip_identity\<rparr>"

lemma fee_evaluated:
  "evaluate_slipstream_unstaked_fee keccak256 fee_evm AerodromeBaseBifi fee_snapshot slip_identity slip_ctx = Inr fee_evaluation"
  unfolding evaluate_slipstream_unstaked_fee_def fee_runtime_def [symmetric] Let_def fee_identities fee_path
  by (simp add: fee_path fee_identities fee_evaluation_def)

end
