(* ===== verification/Ownership.thy ===== *)
theory Ownership
  imports Dependencies Staking_Evidence "HOL-Library.List_Lexorder" "HOL-Library.Char_ord"
begin

text \<open>
  \<open>src/adapters/ownership.rs\<close>: the index of what every registered pool, adapter family and discovery source owns, with
  its reverse indexes by address, slot, emitter and adapter, the work and the resync requests of each owner; and the
  identities of \<open>src/adapters/runtime.rs\<close> that it is keyed by.

  Handler and resync identifiers belong to the cache crate and are type parameters: \<open>handler_id\<close> names the handler of an
  instance and \<open>resync_text\<close> prints a request for sorting. A \<open>BTreeMap\<close> or \<open>HashMap\<close> is a partial function and a
  \<open>BTreeSet\<close> a set, so the canonical order of the lists that lookups return is left out; where the code walks through a
  map, the order is an argument.
\<close>

section \<open>Identities\<close>

fun protocol_rank :: "protocol_id \<Rightarrow> nat \<times> string" where
  "protocol_rank UniswapV2 = (0, [])"
| "protocol_rank UniswapV3 = (1, [])"
| "protocol_rank PancakeV3 = (2, [])"
| "protocol_rank Slipstream = (3, [])"
| "protocol_rank SolidlyV2 = (4, [])"
| "protocol_rank BalancerV2 = (5, [])"
| "protocol_rank Curve = (6, [])"
| "protocol_rank (CustomProtocol name) = (7, name)"

lemma protocol_rank_inj: "protocol_rank p = protocol_rank q \<Longrightarrow> p = q"
  by (cases p; cases q) simp_all

text \<open>The derived order: by constructor, then by name.\<close>

instantiation protocol_id :: linorder
begin

definition less_eq_protocol_id :: "protocol_id \<Rightarrow> protocol_id \<Rightarrow> bool" where
  "p \<le> q \<longleftrightarrow> protocol_rank p \<le> protocol_rank q"

definition less_protocol_id :: "protocol_id \<Rightarrow> protocol_id \<Rightarrow> bool" where
  "p < q \<longleftrightarrow> protocol_rank p < protocol_rank q"

instance
  by standard (auto simp: less_eq_protocol_id_def less_protocol_id_def not_le intro: protocol_rank_inj order_antisym order_trans)

end

record adapter_key =
  ak_protocols :: "protocol_id list"

definition adapter_key_new :: "protocol_id \<Rightarrow> protocol_id list \<Rightarrow> adapter_key" where
  "adapter_key_new primary additional = \<lparr>ak_protocols = sort_dedup (primary # additional)\<rparr>"

record adapter_instance_id =
  aid_key :: adapter_key
  aid_generation :: u64

record discovery_owner_id =
  did_key :: string
  did_generation :: u64

datatype runtime_owner_id =
    PoolOwner pool_instance_id
  | AdapterOwner adapter_instance_id
  | DiscoveryOwner discovery_owner_id

record runtime_work_id =
  rw_owner :: runtime_owner_id
  rw_work :: u64

text \<open>\<open>checked_next\<close> of the generations and of the work identifier; \<open>Inl\<close> names the exhausted sequence.\<close>

definition checked_next :: "string \<Rightarrow> u64 \<Rightarrow> string + u64" where
  "checked_next sequence_name value = ok_or (checked_add value 1) sequence_name"

section \<open>Ownership records\<close>

record 'h pool_ownership =
  po_instance :: pool_instance_id
  po_handler :: 'h
  po_adapter :: adapter_instance_id
  po_dependencies :: state_dependencies
  po_event_emitters :: "address list"

record discovery_ownership =
  do_owner :: discovery_owner_id
  do_adapter :: adapter_instance_id

datatype ('h, 'r) ownership_error =
    DuplicateAdapterFamily adapter_key
  | UnknownAdapter adapter_instance_id
  | MissingAdapter pool_key
  | AdapterProtocolMismatch pool_instance_id adapter_instance_id
  | DuplicateActivePool pool_key
  | DuplicateDiscovery string
  | DuplicateDiscoveryInstance discovery_owner_id
  | DuplicatePoolInstance pool_instance_id
  | DuplicateHandler 'h
  | DuplicateWork runtime_work_id
  | UnknownWorkOwner runtime_owner_id
  | DuplicateResync 'r
  | PoolReplacementIdentity pool_instance_id
  | UnknownPool pool_instance_id
  | AdapterStillInUse adapter_instance_id
  | OwnershipPanicked string

definition pool_ownership_new ::
  "(pool_instance_id \<Rightarrow> 'h) \<Rightarrow> pool_instance_id \<Rightarrow> adapter_instance_id \<Rightarrow> state_dependencies \<Rightarrow> address list
    \<Rightarrow> ('h, 'r) ownership_error + 'h pool_ownership" where
  "pool_ownership_new handler_id instance_id adapter dependencies event_emitters =
    (if key_protocol (inst_key instance_id) \<notin> set (ak_protocols (aid_key adapter))
     then Inl (AdapterProtocolMismatch instance_id adapter)
     else Inr \<lparr>po_instance = instance_id, po_handler = handler_id instance_id, po_adapter = adapter,
       po_dependencies = dependencies, po_event_emitters = sort_dedup event_emitters\<rparr>)"

record ('h, 'r) ownership_index =
  oi_adapters :: "adapter_instance_id set"
  oi_active_adapters :: "adapter_key \<rightharpoonup> adapter_instance_id"
  oi_active_pools :: "pool_key \<rightharpoonup> pool_instance_id"
  oi_pools :: "pool_instance_id \<rightharpoonup> 'h pool_ownership"
  oi_handler_pools :: "'h \<rightharpoonup> pool_instance_id"
  oi_adapter_pools :: "adapter_instance_id \<rightharpoonup> pool_instance_id set"
  oi_active_discovery :: "string \<rightharpoonup> discovery_owner_id"
  oi_discovery :: "discovery_owner_id \<rightharpoonup> discovery_ownership"
  oi_adapter_discovery :: "adapter_instance_id \<rightharpoonup> discovery_owner_id set"
  oi_address_pools :: "address \<rightharpoonup> pool_instance_id set"
  oi_whole_account_pools :: "address \<rightharpoonup> pool_instance_id set"
  oi_slot_pools :: "address \<times> u256 \<rightharpoonup> pool_instance_id set"
  oi_emitter_pools :: "address \<rightharpoonup> pool_instance_id set"
  oi_owner_work :: "runtime_owner_id \<rightharpoonup> runtime_work_id set"
  oi_resync_owners :: "'r \<rightharpoonup> pool_instance_id"
  oi_pool_resyncs :: "pool_instance_id \<rightharpoonup> 'r list"

definition ownership_default :: "('h, 'r) ownership_index" where
  "ownership_default = \<lparr>oi_adapters = {}, oi_active_adapters = Map.empty, oi_active_pools = Map.empty, oi_pools = Map.empty,
     oi_handler_pools = Map.empty, oi_adapter_pools = Map.empty, oi_active_discovery = Map.empty, oi_discovery = Map.empty,
     oi_adapter_discovery = Map.empty, oi_address_pools = Map.empty, oi_whole_account_pools = Map.empty,
     oi_slot_pools = Map.empty, oi_emitter_pools = Map.empty, oi_owner_work = Map.empty, oi_resync_owners = Map.empty,
     oi_pool_resyncs = Map.empty\<rparr>"

section \<open>Reverse indexes\<close>

definition insert_owner :: "'k \<Rightarrow> 'v \<Rightarrow> ('k \<rightharpoonup> 'v set) \<Rightarrow> ('k \<rightharpoonup> 'v set)" where
  "insert_owner key owner index = index(key \<mapsto> insert owner (case index key of Some owners \<Rightarrow> owners | None \<Rightarrow> {}))"

definition remove_owner :: "'k \<Rightarrow> 'v \<Rightarrow> ('k \<rightharpoonup> 'v set) \<Rightarrow> ('k \<rightharpoonup> 'v set)" where
  "remove_owner key owner index =
    (case index key of
       None \<Rightarrow> index
     | Some owners \<Rightarrow> let owners = owners - {owner}
         in if owners = {} then index(key := None) else index(key \<mapsto> owners))"

definition remove_discovery_owner :: "'k \<Rightarrow> 'v \<Rightarrow> ('k \<rightharpoonup> 'v set) \<Rightarrow> ('k \<rightharpoonup> 'v set)" where
  "remove_discovery_owner adapter owner index =
    (let (index, remove_adapter) = (case index adapter of
         Some owners \<Rightarrow> (index(adapter \<mapsto> owners - {owner}), owners - {owner} = {})
       | None \<Rightarrow> (index, False))
     in if remove_adapter then index(adapter := None) else index)"

definition owners :: "('k \<rightharpoonup> 'v set) \<Rightarrow> 'k \<Rightarrow> 'v set" where
  "owners index key = (case index key of Some members \<Rightarrow> members | None \<Rightarrow> {})"

section \<open>Inserting\<close>

definition insert_adapter ::
  "('h, 'r) ownership_index \<Rightarrow> adapter_instance_id \<Rightarrow> ('h, 'r) ownership_error + ('h, 'r) ownership_index" where
  "insert_adapter i adapter =
    (if oi_active_adapters i (aid_key adapter) \<noteq> None then Inl (DuplicateAdapterFamily (aid_key adapter))
     else Inr (i\<lparr>oi_active_adapters := (oi_active_adapters i)(aid_key adapter \<mapsto> adapter),
       oi_adapters := insert adapter (oi_adapters i)\<rparr>))"

text \<open>The four loops that enter the resources of a pool into the reverse indexes, and those that take them out.\<close>

definition index_resources :: "'h pool_ownership \<Rightarrow> ('h, 'r) ownership_index \<Rightarrow> ('h, 'r) ownership_index" where
  "index_resources ownership i =
    (let p = po_instance ownership; d = po_dependencies ownership
     in i\<lparr>oi_address_pools := fold (\<lambda>address. insert_owner address p) (dep_associated_addresses d) (oi_address_pools i),
          oi_whole_account_pools := fold (\<lambda>address. insert_owner address p) (dep_whole_accounts d) (oi_whole_account_pools i),
          oi_slot_pools := fold (\<lambda>slot. insert_owner slot p) (dep_slots d) (oi_slot_pools i),
          oi_emitter_pools := fold (\<lambda>emitter. insert_owner emitter p) (po_event_emitters ownership) (oi_emitter_pools i)\<rparr>)"

definition unindex_resources :: "pool_instance_id \<Rightarrow> 'h pool_ownership \<Rightarrow> ('h, 'r) ownership_index \<Rightarrow> ('h, 'r) ownership_index" where
  "unindex_resources p ownership i =
    (let d = po_dependencies ownership
     in i\<lparr>oi_address_pools := fold (\<lambda>address. remove_owner address p) (dep_associated_addresses d) (oi_address_pools i),
          oi_whole_account_pools := fold (\<lambda>address. remove_owner address p) (dep_whole_accounts d) (oi_whole_account_pools i),
          oi_slot_pools := fold (\<lambda>slot. remove_owner slot p) (dep_slots d) (oi_slot_pools i),
          oi_emitter_pools := fold (\<lambda>emitter. remove_owner emitter p) (po_event_emitters ownership) (oi_emitter_pools i)\<rparr>)"

definition insert_pool ::
  "('h, 'r) ownership_index \<Rightarrow> 'h pool_ownership \<Rightarrow> ('h, 'r) ownership_error + ('h, 'r) ownership_index" where
  "insert_pool i ownership =
    (let p = po_instance ownership; adapter = po_adapter ownership
     in if adapter \<notin> oi_adapters i then Inl (UnknownAdapter adapter)
        else if key_protocol (inst_key p) \<notin> set (ak_protocols (aid_key adapter)) then Inl (AdapterProtocolMismatch p adapter)
        else if oi_active_pools i (inst_key p) \<noteq> None then Inl (DuplicateActivePool (inst_key p))
        else if oi_pools i p \<noteq> None then Inl (DuplicatePoolInstance p)
        else if oi_handler_pools i (po_handler ownership) \<noteq> None then Inl (DuplicateHandler (po_handler ownership))
        else let i = i\<lparr>oi_active_pools := (oi_active_pools i)(inst_key p \<mapsto> p),
                 oi_handler_pools := (oi_handler_pools i)(po_handler ownership \<mapsto> p),
                 oi_adapter_pools := insert_owner adapter p (oi_adapter_pools i)\<rparr>;
               i = index_resources ownership i
             in Inr (i\<lparr>oi_pools := (oi_pools i)(p \<mapsto> ownership)\<rparr>))"

definition replace_pool ::
  "('h, 'r) ownership_index \<Rightarrow> 'h pool_ownership
    \<Rightarrow> ('h, 'r) ownership_error + ('h pool_ownership \<times> ('h, 'r) ownership_index)" where
  "replace_pool i ownership =
    (let p = po_instance ownership
     in if oi_active_pools i (inst_key p) \<noteq> Some p then Inl (UnknownPool p)
        else case oi_pools i p of
            None \<Rightarrow> Inl (UnknownPool p)
          | Some previous \<Rightarrow>
              if po_handler previous \<noteq> po_handler ownership \<or> po_adapter previous \<noteq> po_adapter ownership
                 \<or> oi_handler_pools i (po_handler previous) \<noteq> Some p
              then Inl (PoolReplacementIdentity p)
              else let i = index_resources ownership (unindex_resources p previous i)
                   in Inr (previous, i\<lparr>oi_pools := (oi_pools i)(p \<mapsto> ownership)\<rparr>))"

definition insert_discovery ::
  "('h, 'r) ownership_index \<Rightarrow> discovery_ownership \<Rightarrow> ('h, 'r) ownership_error + ('h, 'r) ownership_index" where
  "insert_discovery i ownership =
    (let owner = do_owner ownership
     in if do_adapter ownership \<notin> oi_adapters i then Inl (UnknownAdapter (do_adapter ownership))
        else if oi_active_discovery i (did_key owner) \<noteq> None then Inl (DuplicateDiscovery (did_key owner))
        else if oi_discovery i owner \<noteq> None then Inl (DuplicateDiscoveryInstance owner)
        else Inr (i\<lparr>oi_active_discovery := (oi_active_discovery i)(did_key owner \<mapsto> owner),
          oi_adapter_discovery := insert_owner (do_adapter ownership) owner (oi_adapter_discovery i),
          oi_discovery := (oi_discovery i)(owner \<mapsto> ownership)\<rparr>))"

section \<open>Lookups\<close>

definition active_pool :: "('h, 'r) ownership_index \<Rightarrow> pool_key \<Rightarrow> pool_instance_id option" where
  "active_pool i pool = oi_active_pools i pool"

definition active_adapter :: "('h, 'r) ownership_index \<Rightarrow> adapter_key \<Rightarrow> adapter_instance_id option" where
  "active_adapter i adapter = oi_active_adapters i adapter"

definition active_discovery :: "('h, 'r) ownership_index \<Rightarrow> string \<Rightarrow> discovery_owner_id option" where
  "active_discovery i owner = oi_active_discovery i owner"

definition pool_for_handler :: "('h, 'r) ownership_index \<Rightarrow> 'h \<Rightarrow> pool_instance_id option" where
  "pool_for_handler i handler = oi_handler_pools i handler"

definition adapter_for_pool :: "('h, 'r) ownership_index \<Rightarrow> pool_instance_id \<Rightarrow> adapter_instance_id option" where
  "adapter_for_pool i pool = map_option po_adapter (oi_pools i pool)"

definition adapter_for_discovery :: "('h, 'r) ownership_index \<Rightarrow> discovery_owner_id \<Rightarrow> adapter_instance_id option" where
  "adapter_for_discovery i owner = map_option do_adapter (oi_discovery i owner)"

definition pools_for_adapter :: "('h, 'r) ownership_index \<Rightarrow> adapter_instance_id \<Rightarrow> pool_instance_id set" where
  "pools_for_adapter i adapter = owners (oi_adapter_pools i) adapter"

definition discovery_for_adapter :: "('h, 'r) ownership_index \<Rightarrow> adapter_instance_id \<Rightarrow> discovery_owner_id set" where
  "discovery_for_adapter i adapter = owners (oi_adapter_discovery i) adapter"

definition pools_for_address :: "('h, 'r) ownership_index \<Rightarrow> address \<Rightarrow> pool_instance_id set" where
  "pools_for_address i address = owners (oi_address_pools i) address"

definition pools_for_slot :: "('h, 'r) ownership_index \<Rightarrow> address \<times> u256 \<Rightarrow> pool_instance_id set" where
  "pools_for_slot i slot =
    (let covering = (case oi_slot_pools i slot of Some exact \<Rightarrow> exact | None \<Rightarrow> {})
     in case oi_whole_account_pools i (fst slot) of Some whole \<Rightarrow> covering \<union> whole | None \<Rightarrow> covering)"

definition pools_for_emitter :: "('h, 'r) ownership_index \<Rightarrow> address \<Rightarrow> pool_instance_id set" where
  "pools_for_emitter i emitter = owners (oi_emitter_pools i) emitter"

section \<open>Work and resync requests\<close>

definition validate_owner :: "('h, 'r) ownership_index \<Rightarrow> runtime_owner_id \<Rightarrow> ('h, 'r) ownership_error + unit" where
  "validate_owner i owner =
    (case owner of
       PoolOwner pool \<Rightarrow> if oi_pools i pool = None then Inl (UnknownWorkOwner owner) else Inr ()
     | AdapterOwner adapter \<Rightarrow> if adapter \<notin> oi_adapters i then Inl (UnknownWorkOwner owner) else Inr ()
     | DiscoveryOwner discovery \<Rightarrow> if oi_discovery i discovery = None then Inl (UnknownWorkOwner owner) else Inr ())"

definition track_work ::
  "('h, 'r) ownership_index \<Rightarrow> runtime_work_id \<Rightarrow> ('h, 'r) ownership_error + ('h, 'r) ownership_index" where
  "track_work i work =
    rbind (validate_owner i (rw_owner work)) (\<lambda>_.
    if work \<in> owners (oi_owner_work i) (rw_owner work) then Inl (DuplicateWork work)
    else Inr (i\<lparr>oi_owner_work := insert_owner (rw_owner work) work (oi_owner_work i)\<rparr>))"

definition untrack_work :: "('h, 'r) ownership_index \<Rightarrow> runtime_work_id \<Rightarrow> bool \<times> ('h, 'r) ownership_index" where
  "untrack_work i work =
    (work \<in> owners (oi_owner_work i) (rw_owner work),
     i\<lparr>oi_owner_work := remove_owner (rw_owner work) work (oi_owner_work i)\<rparr>)"

definition work_for_owner :: "('h, 'r) ownership_index \<Rightarrow> runtime_owner_id \<Rightarrow> runtime_work_id set" where
  "work_for_owner i owner = owners (oi_owner_work i) owner"

definition track_resync ::
  "('h, 'r) ownership_index \<Rightarrow> pool_instance_id \<Rightarrow> 'r \<Rightarrow> ('h, 'r) ownership_error + ('h, 'r) ownership_index" where
  "track_resync i pool resync =
    (if oi_pools i pool = None then Inl (UnknownPool pool)
     else if oi_resync_owners i resync \<noteq> None then Inl (DuplicateResync resync)
     else Inr (i\<lparr>oi_resync_owners := (oi_resync_owners i)(resync \<mapsto> pool),
       oi_pool_resyncs := (oi_pool_resyncs i)(pool \<mapsto>
         (case oi_pool_resyncs i pool of Some resyncs \<Rightarrow> resyncs | None \<Rightarrow> []) @ [resync])\<rparr>))"

definition resync_owner :: "('h, 'r) ownership_index \<Rightarrow> 'r \<Rightarrow> pool_instance_id option" where
  "resync_owner i resync = oi_resync_owners i resync"

definition untrack_resync ::
  "('h, 'r) ownership_index \<Rightarrow> 'r \<Rightarrow> pool_instance_id option \<times> ('h, 'r) ownership_index" where
  "untrack_resync i resync =
    (case oi_resync_owners i resync of
       None \<Rightarrow> (None, i)
     | Some pool \<Rightarrow>
         let i = i\<lparr>oi_resync_owners := (oi_resync_owners i)(resync := None)\<rparr>
         in (Some pool, case oi_pool_resyncs i pool of
             None \<Rightarrow> i
           | Some resyncs \<Rightarrow>
               let resyncs = filter (\<lambda>tracked. tracked \<noteq> resync) resyncs
               in i\<lparr>oi_pool_resyncs := (oi_pool_resyncs i)(pool := (if resyncs = [] then None else Some resyncs))\<rparr>))"

definition sort_resyncs :: "('r \<Rightarrow> string) \<Rightarrow> 'r list \<Rightarrow> 'r list" where
  "sort_resyncs resync_text resyncs = sort_key resync_text resyncs"

definition resyncs_for_pool :: "('r \<Rightarrow> string) \<Rightarrow> ('h, 'r) ownership_index \<Rightarrow> pool_instance_id \<Rightarrow> 'r list" where
  "resyncs_for_pool resync_text i pool =
    sort_resyncs resync_text (case oi_pool_resyncs i pool of Some ids \<Rightarrow> ids | None \<Rightarrow> [])"

section \<open>Removing\<close>

record ('h, 'r) pool_ownership_removal =
  rem_ownership :: "'h pool_ownership"
  rem_work :: "runtime_work_id set"
  rem_resyncs :: "'r list"

definition remove_pool ::
  "('r \<Rightarrow> string) \<Rightarrow> ('h, 'r) ownership_index \<Rightarrow> pool_instance_id
    \<Rightarrow> (('h, 'r) pool_ownership_removal \<times> ('h, 'r) ownership_index) option" where
  "remove_pool resync_text i pool =
    (case oi_pools i pool of
       None \<Rightarrow> None
     | Some ownership \<Rightarrow>
         let i = i\<lparr>oi_pools := (oi_pools i)(pool := None)\<rparr>;
             i = (if oi_active_pools i (inst_key pool) = Some pool
                  then i\<lparr>oi_active_pools := (oi_active_pools i)(inst_key pool := None)\<rparr> else i);
             i = i\<lparr>oi_handler_pools := (oi_handler_pools i)(po_handler ownership := None),
                   oi_adapter_pools := remove_owner (po_adapter ownership) pool (oi_adapter_pools i)\<rparr>;
             i = unindex_resources pool ownership i;
             owner = PoolOwner pool;
             work = owners (oi_owner_work i) owner;
             i = i\<lparr>oi_owner_work := (oi_owner_work i)(owner := None)\<rparr>;
             resyncs = (case oi_pool_resyncs i pool of Some ids \<Rightarrow> ids | None \<Rightarrow> []);
             i = i\<lparr>oi_pool_resyncs := (oi_pool_resyncs i)(pool := None),
                   oi_resync_owners := fold (\<lambda>resync m. m(resync := None)) resyncs (oi_resync_owners i)\<rparr>
         in Some (\<lparr>rem_ownership = ownership, rem_work = work, rem_resyncs = sort_resyncs resync_text resyncs\<rparr>, i))"

definition remove_discovery ::
  "('h, 'r) ownership_index \<Rightarrow> discovery_owner_id
    \<Rightarrow> ((discovery_ownership \<times> runtime_work_id set) \<times> ('h, 'r) ownership_index) option" where
  "remove_discovery i owner =
    (case oi_discovery i owner of
       None \<Rightarrow> None
     | Some ownership \<Rightarrow>
         let i = i\<lparr>oi_discovery := (oi_discovery i)(owner := None)\<rparr>;
             i = (if oi_active_discovery i (did_key owner) = Some owner
                  then i\<lparr>oi_active_discovery := (oi_active_discovery i)(did_key owner := None)\<rparr> else i);
             i = i\<lparr>oi_adapter_discovery := remove_discovery_owner (do_adapter ownership) owner (oi_adapter_discovery i)\<rparr>;
             work = owners (oi_owner_work i) (DiscoveryOwner owner)
         in Some ((ownership, work), i\<lparr>oi_owner_work := (oi_owner_work i)(DiscoveryOwner owner := None)\<rparr>))"

definition remove_adapter_prevalidated ::
  "('h, 'r) ownership_index \<Rightarrow> adapter_instance_id \<Rightarrow> bool \<times> ('h, 'r) ownership_index" where
  "remove_adapter_prevalidated i adapter =
    (if adapter \<notin> oi_adapters i then (False, i)
     else let i = i\<lparr>oi_adapters := oi_adapters i - {adapter}\<rparr>;
              i = (if oi_active_adapters i (aid_key adapter) = Some adapter
                   then i\<lparr>oi_active_adapters := (oi_active_adapters i)(aid_key adapter := None)\<rparr> else i)
          in (True, i\<lparr>oi_owner_work := (oi_owner_work i)(AdapterOwner adapter := None)\<rparr>))"

definition remove_adapter ::
  "('h, 'r) ownership_index \<Rightarrow> adapter_instance_id \<Rightarrow> ('h, 'r) ownership_error + (bool \<times> ('h, 'r) ownership_index)" where
  "remove_adapter i adapter =
    (if owners (oi_adapter_pools i) adapter \<noteq> {} \<or> owners (oi_adapter_discovery i) adapter \<noteq> {}
     then Inl (AdapterStillInUse adapter)
     else Inr (remove_adapter_prevalidated i adapter))"

section \<open>The index of a registry\<close>

text \<open>
  \<open>primary\<close> is the \<open>protocol\<close> of an adapter and \<open>dependencies_of\<close> its \<open>state_dependencies\<close>; \<open>families\<close> lists the keys of the
  adapters and \<open>order\<close> those of the pools, both in the order in which the code sorts them.
\<close>

definition family_key :: "(amm_adapter \<Rightarrow> protocol_id) \<Rightarrow> amm_adapter \<Rightarrow> adapter_key" where
  "family_key primary adapter = adapter_key_new (primary adapter) (ad_protocols adapter)"

fun insert_families ::
  "('h, 'r) ownership_index \<Rightarrow> adapter_key list \<Rightarrow> ('h, 'r) ownership_error + ('h, 'r) ownership_index" where
  "insert_families i [] = Inr i"
| "insert_families i (key # keys) =
    rbind (insert_adapter i \<lparr>aid_key = key, aid_generation = 0\<rparr>) (\<lambda>i. insert_families i keys)"

definition insert_registered ::
  "(pool_instance_id \<Rightarrow> 'h) \<Rightarrow> (amm_adapter \<Rightarrow> protocol_id) \<Rightarrow> (amm_adapter \<Rightarrow> pool_registration \<Rightarrow> state_dependencies)
    \<Rightarrow> 'acc adapter_registry \<Rightarrow> ('h, 'r) ownership_index \<Rightarrow> pool_registration
    \<Rightarrow> ('h, 'r) ownership_error + ('h, 'r) ownership_index" where
  "insert_registered handler_id primary dependencies_of r i pool =
    (case adapters r (reg_protocol pool) of
       None \<Rightarrow> Inl (MissingAdapter (reg_key pool))
     | Some adapter \<Rightarrow>
         (case oi_active_adapters i (family_key primary adapter) of
            None \<Rightarrow> Inl (OwnershipPanicked ''adapter family inserted above'')
          | Some adapter_instance \<Rightarrow>
              rbind (pool_ownership_new handler_id \<lparr>inst_key = reg_key pool, inst_generation = 0\<rparr> adapter_instance
                  (dependencies_of adapter pool) (map src_emitter (event_sources_for r pool))) (\<lambda>ownership.
              insert_pool i ownership)))"

fun insert_all_registered ::
  "(pool_instance_id \<Rightarrow> 'h) \<Rightarrow> (amm_adapter \<Rightarrow> protocol_id) \<Rightarrow> (amm_adapter \<Rightarrow> pool_registration \<Rightarrow> state_dependencies)
    \<Rightarrow> 'acc adapter_registry \<Rightarrow> ('h, 'r) ownership_index \<Rightarrow> pool_registration list
    \<Rightarrow> ('h, 'r) ownership_error + ('h, 'r) ownership_index" where
  "insert_all_registered handler_id primary dependencies_of r i [] = Inr i"
| "insert_all_registered handler_id primary dependencies_of r i (pool # rest) =
    rbind (insert_registered handler_id primary dependencies_of r i pool) (\<lambda>i.
    insert_all_registered handler_id primary dependencies_of r i rest)"

definition from_registry ::
  "(pool_instance_id \<Rightarrow> 'h) \<Rightarrow> (amm_adapter \<Rightarrow> protocol_id) \<Rightarrow> (amm_adapter \<Rightarrow> pool_registration \<Rightarrow> state_dependencies)
    \<Rightarrow> adapter_key list \<Rightarrow> pool_key list \<Rightarrow> 'acc adapter_registry \<Rightarrow> ('h, 'r) ownership_error + ('h, 'r) ownership_index" where
  "from_registry handler_id primary dependencies_of families order r =
    rbind (insert_families ownership_default families) (\<lambda>i.
    insert_all_registered handler_id primary dependencies_of r i (values_in order (pools r)))"

end
