(* ===== verification/Ownership_Facts.thy ===== *)
theory Ownership_Facts
  imports Ownership
begin

text \<open>
  The invariant of the ownership index. A reverse index promises little (the locale \<open>reverse_index\<close>): inserting and removing
  change one owner under one key and leave no empty entry. From that it follows that the loops over the resources of a
  pool keep every reverse index equal to what the ownership records say, which is the heart of the invariant.
\<close>

section \<open>The contract of a reverse index\<close>

definition reflects :: "('k \<Rightarrow> 'v set) \<Rightarrow> ('v \<rightharpoonup> 'o) \<Rightarrow> ('o \<Rightarrow> 'k list) \<Rightarrow> bool" where
  "reflects look table keys \<longleftrightarrow> (\<forall>k. look k = {v. \<exists>x. table v = Some x \<and> k \<in> set (keys x)})"

definition tidy :: "('k \<rightharpoonup> 'v set) \<Rightarrow> bool" where
  "tidy index \<longleftrightarrow> (\<forall>k. index k \<noteq> Some {})"

locale reverse_index =
  fixes put delete :: "'k \<Rightarrow> 'v \<Rightarrow> 'i \<Rightarrow> 'i" and look :: "'i \<Rightarrow> 'k \<Rightarrow> 'v set" and clean :: "'i \<Rightarrow> bool"
  assumes look_put: "look (put k v i) k' = (if k' = k then insert v (look i k') else look i k')"
    and look_delete: "look (delete k v i) k' = (if k' = k then look i k' - {v} else look i k')"
    and clean_put: "clean i \<Longrightarrow> clean (put k v i)"
    and clean_delete: "clean i \<Longrightarrow> clean (delete k v i)"
begin

lemma look_put_all: "look (fold (\<lambda>k. put k v) ks i) k = (if k \<in> set ks then insert v (look i k) else look i k)"
  by (induction ks arbitrary: i) (auto simp: look_put)

lemma look_delete_all: "look (fold (\<lambda>k. delete k v) ks i) k = (if k \<in> set ks then look i k - {v} else look i k)"
  by (induction ks arbitrary: i) (auto simp: look_delete)

lemma clean_put_all: "clean i \<Longrightarrow> clean (fold (\<lambda>k. put k v) ks i)"
  by (induction ks arbitrary: i) (auto simp: clean_put)

lemma clean_delete_all: "clean i \<Longrightarrow> clean (fold (\<lambda>k. delete k v) ks i)"
  by (induction ks arbitrary: i) (auto simp: clean_delete)

lemma reflects_put_all:
  assumes "reflects (look i) table keys" "table v = None"
  shows "reflects (look (fold (\<lambda>k. put k v) (keys x) i)) (table(v \<mapsto> x)) keys"
  using assms by (auto simp: reflects_def look_put_all)

lemma reflects_delete_all:
  assumes "reflects (look i) table keys" "table v = Some x"
  shows "reflects (look (fold (\<lambda>k. delete k v) (keys x) i)) (table(v := None)) keys"
  using assms by (auto simp: reflects_def look_delete_all)

lemma reflects_replace_all:
  assumes "reflects (look i) table keys" "table v = Some x"
  shows "reflects (look (fold (\<lambda>k. put k v) (keys y) (fold (\<lambda>k. delete k v) (keys x) i))) (table(v \<mapsto> y)) keys"
  using reflects_put_all [OF reflects_delete_all [OF assms], where x = y and v = v] by simp

end

interpretation pool_index: reverse_index insert_owner remove_owner owners tidy
  by unfold_locales (auto simp: insert_owner_def remove_owner_def owners_def tidy_def Let_def split: option.splits if_splits)

interpretation discovery_index: reverse_index insert_owner remove_discovery_owner owners tidy
  by unfold_locales (auto simp: insert_owner_def remove_discovery_owner_def owners_def tidy_def Let_def split: option.splits if_splits)

section \<open>The invariant\<close>

definition pools_indexed :: "('h, 'r) ownership_index \<Rightarrow> bool" where
  "pools_indexed i \<longleftrightarrow>
    (\<forall>p x. oi_pools i p = Some x \<longrightarrow>
       po_instance x = p \<and> oi_active_pools i (inst_key p) = Some p \<and> oi_handler_pools i (po_handler x) = Some p
       \<and> po_adapter x \<in> oi_adapters i \<and> key_protocol (inst_key p) \<in> set (ak_protocols (aid_key (po_adapter x)))
       \<and> dependencies_ok (po_dependencies x))
    \<and> (\<forall>k p. oi_active_pools i k = Some p \<longrightarrow> inst_key p = k \<and> oi_pools i p \<noteq> None)
    \<and> (\<forall>h p. oi_handler_pools i h = Some p \<longrightarrow> (\<exists>x. oi_pools i p = Some x \<and> po_handler x = h))"

lemma pools_indexedI:
  assumes "\<And>p x. oi_pools i p = Some x \<Longrightarrow>
      po_instance x = p \<and> oi_active_pools i (inst_key p) = Some p \<and> oi_handler_pools i (po_handler x) = Some p
      \<and> po_adapter x \<in> oi_adapters i \<and> key_protocol (inst_key p) \<in> set (ak_protocols (aid_key (po_adapter x)))
      \<and> dependencies_ok (po_dependencies x)"
    and "\<And>k p. oi_active_pools i k = Some p \<Longrightarrow> inst_key p = k \<and> oi_pools i p \<noteq> None"
    and "\<And>h p. oi_handler_pools i h = Some p \<Longrightarrow> \<exists>x. oi_pools i p = Some x \<and> po_handler x = h"
  shows "pools_indexed i"
  using assms unfolding pools_indexed_def by simp

lemma pools_indexedD:
  assumes "pools_indexed i"
  shows "oi_pools i p = Some x \<Longrightarrow>
      po_instance x = p \<and> oi_active_pools i (inst_key p) = Some p \<and> oi_handler_pools i (po_handler x) = Some p
      \<and> po_adapter x \<in> oi_adapters i \<and> key_protocol (inst_key p) \<in> set (ak_protocols (aid_key (po_adapter x)))
      \<and> dependencies_ok (po_dependencies x)"
    and "oi_active_pools i k = Some p \<Longrightarrow> inst_key p = k \<and> oi_pools i p \<noteq> None"
    and "oi_handler_pools i h = Some p \<Longrightarrow> \<exists>x. oi_pools i p = Some x \<and> po_handler x = h"
  using assms unfolding pools_indexed_def by simp_all

definition resources_indexed :: "('h, 'r) ownership_index \<Rightarrow> bool" where
  "resources_indexed i \<longleftrightarrow>
    reflects (owners (oi_adapter_pools i)) (oi_pools i) (\<lambda>x. [po_adapter x])
    \<and> reflects (owners (oi_address_pools i)) (oi_pools i) (\<lambda>x. dep_associated_addresses (po_dependencies x))
    \<and> reflects (owners (oi_whole_account_pools i)) (oi_pools i) (\<lambda>x. dep_whole_accounts (po_dependencies x))
    \<and> reflects (owners (oi_slot_pools i)) (oi_pools i) (\<lambda>x. dep_slots (po_dependencies x))
    \<and> reflects (owners (oi_emitter_pools i)) (oi_pools i) po_event_emitters"

definition index_tidy :: "('h, 'r) ownership_index \<Rightarrow> bool" where
  "index_tidy i \<longleftrightarrow> tidy (oi_adapter_pools i) \<and> tidy (oi_adapter_discovery i) \<and> tidy (oi_address_pools i)
    \<and> tidy (oi_whole_account_pools i) \<and> tidy (oi_slot_pools i) \<and> tidy (oi_emitter_pools i) \<and> tidy (oi_owner_work i)"

definition families_indexed :: "('h, 'r) ownership_index \<Rightarrow> bool" where
  "families_indexed i \<longleftrightarrow>
    (\<forall>a. a \<in> oi_adapters i \<longleftrightarrow> oi_active_adapters i (aid_key a) = Some a)
    \<and> (\<forall>k a. oi_active_adapters i k = Some a \<longrightarrow> aid_key a = k)"

definition discovery_indexed :: "('h, 'r) ownership_index \<Rightarrow> bool" where
  "discovery_indexed i \<longleftrightarrow>
    (\<forall>d x. oi_discovery i d = Some x \<longrightarrow> do_owner x = d \<and> oi_active_discovery i (did_key d) = Some d \<and> do_adapter x \<in> oi_adapters i)
    \<and> (\<forall>k d. oi_active_discovery i k = Some d \<longrightarrow> did_key d = k \<and> oi_discovery i d \<noteq> None)
    \<and> reflects (owners (oi_adapter_discovery i)) (oi_discovery i) (\<lambda>x. [do_adapter x])"

definition work_indexed :: "('h, 'r) ownership_index \<Rightarrow> bool" where
  "work_indexed i \<longleftrightarrow> (\<forall>ow w. w \<in> owners (oi_owner_work i) ow \<longrightarrow> rw_owner w = ow \<and> validate_owner i ow = Inr ())"

definition resyncs_indexed :: "('h, 'r) ownership_index \<Rightarrow> bool" where
  "resyncs_indexed i \<longleftrightarrow>
    (\<forall>r p. oi_resync_owners i r = Some p \<longleftrightarrow> (\<exists>rs. oi_pool_resyncs i p = Some rs \<and> r \<in> set rs))
    \<and> (\<forall>p rs. oi_pool_resyncs i p = Some rs \<longrightarrow> distinct rs \<and> rs \<noteq> [] \<and> oi_pools i p \<noteq> None)"

definition index_ok :: "('h, 'r) ownership_index \<Rightarrow> bool" where
  "index_ok i \<longleftrightarrow> pools_indexed i \<and> resources_indexed i \<and> index_tidy i \<and> families_indexed i \<and> discovery_indexed i
    \<and> work_indexed i \<and> resyncs_indexed i"

lemma index_ok_default: "index_ok ownership_default"
  by (simp add: index_ok_def pools_indexed_def resources_indexed_def index_tidy_def families_indexed_def discovery_indexed_def
      work_indexed_def resyncs_indexed_def ownership_default_def reflects_def owners_def tidy_def)

section \<open>Every operation keeps it\<close>

lemmas index_parts = pools_indexed_def resources_indexed_def index_tidy_def families_indexed_def discovery_indexed_def
  work_indexed_def resyncs_indexed_def

lemma resources_select [simp]:
  "oi_adapters (index_resources x i) = oi_adapters i" "oi_active_adapters (index_resources x i) = oi_active_adapters i"
  "oi_active_pools (index_resources x i) = oi_active_pools i" "oi_pools (index_resources x i) = oi_pools i"
  "oi_handler_pools (index_resources x i) = oi_handler_pools i" "oi_adapter_pools (index_resources x i) = oi_adapter_pools i"
  "oi_active_discovery (index_resources x i) = oi_active_discovery i" "oi_discovery (index_resources x i) = oi_discovery i"
  "oi_adapter_discovery (index_resources x i) = oi_adapter_discovery i" "oi_owner_work (index_resources x i) = oi_owner_work i"
  "oi_resync_owners (index_resources x i) = oi_resync_owners i" "oi_pool_resyncs (index_resources x i) = oi_pool_resyncs i"
  "oi_adapters (unindex_resources p x i) = oi_adapters i" "oi_active_adapters (unindex_resources p x i) = oi_active_adapters i"
  "oi_active_pools (unindex_resources p x i) = oi_active_pools i" "oi_pools (unindex_resources p x i) = oi_pools i"
  "oi_handler_pools (unindex_resources p x i) = oi_handler_pools i" "oi_adapter_pools (unindex_resources p x i) = oi_adapter_pools i"
  "oi_active_discovery (unindex_resources p x i) = oi_active_discovery i" "oi_discovery (unindex_resources p x i) = oi_discovery i"
  "oi_adapter_discovery (unindex_resources p x i) = oi_adapter_discovery i" "oi_owner_work (unindex_resources p x i) = oi_owner_work i"
  "oi_resync_owners (unindex_resources p x i) = oi_resync_owners i" "oi_pool_resyncs (unindex_resources p x i) = oi_pool_resyncs i"
  by (simp_all add: index_resources_def unindex_resources_def Let_def)

lemma work_indexed_mono:
  assumes "work_indexed i" "\<And>ow. owners (oi_owner_work i') ow \<subseteq> owners (oi_owner_work i) ow"
    and "\<And>ow. validate_owner i ow = Inr () \<Longrightarrow> owners (oi_owner_work i') ow \<noteq> {} \<Longrightarrow> validate_owner i' ow = Inr ()"
  shows "work_indexed i'"
  using assms unfolding work_indexed_def by blast

lemma validate_owner_Inr:
  "validate_owner i ow = Inr () \<longleftrightarrow>
    (case ow of PoolOwner p \<Rightarrow> oi_pools i p \<noteq> None | AdapterOwner a \<Rightarrow> a \<in> oi_adapters i | DiscoveryOwner d \<Rightarrow> oi_discovery i d \<noteq> None)"
  by (simp add: validate_owner_def split: runtime_owner_id.splits)

lemma insert_adapter_ok:
  assumes "index_ok i" "insert_adapter i a = Inr i'"
  shows "index_ok i'"
proof -
  have a: "oi_active_adapters i (aid_key a) = None"
    and i': "i' = i\<lparr>oi_active_adapters := (oi_active_adapters i)(aid_key a \<mapsto> a), oi_adapters := insert a (oi_adapters i)\<rparr>"
    using assms(2) by (auto simp: insert_adapter_def split: if_splits)
  have "families_indexed i'" using assms(1) a by (auto simp: index_ok_def families_indexed_def i')
  moreover have "work_indexed i'"
    by (rule work_indexed_mono [of i]) (use assms(1) in \<open>auto simp: index_ok_def i' validate_owner_Inr split: runtime_owner_id.splits\<close>)
  moreover have "pools_indexed i'" "discovery_indexed i'"
    using assms(1) unfolding index_ok_def pools_indexed_def discovery_indexed_def i' by auto
  moreover have "resources_indexed i'" "index_tidy i'" "resyncs_indexed i'"
    using assms(1) by (simp_all add: index_ok_def index_parts i')
  ultimately show ?thesis by (simp add: index_ok_def)
qed

lemma insert_pool_Inr:
  assumes "insert_pool i x = Inr i'"
  obtains p where "p = po_instance x" "po_adapter x \<in> oi_adapters i" "key_protocol (inst_key p) \<in> set (ak_protocols (aid_key (po_adapter x)))"
    "oi_active_pools i (inst_key p) = None" "oi_pools i p = None" "oi_handler_pools i (po_handler x) = None"
    "i' = (index_resources x (i\<lparr>oi_active_pools := (oi_active_pools i)(inst_key p \<mapsto> p),
       oi_handler_pools := (oi_handler_pools i)(po_handler x \<mapsto> p),
       oi_adapter_pools := insert_owner (po_adapter x) p (oi_adapter_pools i)\<rparr>))\<lparr>oi_pools := (oi_pools i)(p \<mapsto> x)\<rparr>"
  using assms by (auto simp: insert_pool_def Let_def split: if_splits)

lemma insert_pool_ok:
  assumes "index_ok i" "insert_pool i x = Inr i'" "dependencies_ok (po_dependencies x)"
  shows "index_ok i'"
proof -
  from insert_pool_Inr [OF assms(2)] obtain p where p: "p = po_instance x" "po_adapter x \<in> oi_adapters i"
    "key_protocol (inst_key p) \<in> set (ak_protocols (aid_key (po_adapter x)))"
    "oi_active_pools i (inst_key p) = None" "oi_pools i p = None" "oi_handler_pools i (po_handler x) = None"
    and i': "i' = (index_resources x (i\<lparr>oi_active_pools := (oi_active_pools i)(inst_key p \<mapsto> p),
       oi_handler_pools := (oi_handler_pools i)(po_handler x \<mapsto> p),
       oi_adapter_pools := insert_owner (po_adapter x) p (oi_adapter_pools i)\<rparr>))\<lparr>oi_pools := (oi_pools i)(p \<mapsto> x)\<rparr>" by blast
  have ok: "pools_indexed i" using assms(1) by (simp add: index_ok_def)
  have free: "oi_active_pools i k \<noteq> Some p" "oi_handler_pools i h \<noteq> Some p" for k h
    using pools_indexedD(2,3) [OF ok] p(5) by fastforce+
  have "pools_indexed i'"
  proof (rule pools_indexedI)
    fix q y assume "oi_pools i' q = Some y"
    then consider "q = p" "y = x" | "q \<noteq> p" "oi_pools i q = Some y" by (auto simp: i' split: if_splits)
    then show "po_instance y = q \<and> oi_active_pools i' (inst_key q) = Some q \<and> oi_handler_pools i' (po_handler y) = Some q
       \<and> po_adapter y \<in> oi_adapters i' \<and> key_protocol (inst_key q) \<in> set (ak_protocols (aid_key (po_adapter y)))
       \<and> dependencies_ok (po_dependencies y)"
    proof cases
      case 1 then show ?thesis using p assms(3) by (simp add: i')
    next
      case 2
      from pools_indexedD(1) [OF ok this(2)] p(4,6) have "inst_key q \<noteq> inst_key p" "po_handler y \<noteq> po_handler x" by auto
      with pools_indexedD(1) [OF ok 2(2)] show ?thesis by (simp add: i')
    qed
  next
    show "inst_key q = k \<and> oi_pools i' q \<noteq> None" if "oi_active_pools i' k = Some q" for k q
      using that pools_indexedD(2) [OF ok, of k q] by (auto simp: i' split: if_splits)
  next
    show "\<exists>y. oi_pools i' q = Some y \<and> po_handler y = h" if "oi_handler_pools i' h = Some q" for h q
      using that pools_indexedD(3) [OF ok, of h q] free by (auto simp: i' split: if_splits)
  qed
  moreover have "resources_indexed i'"
    using assms(1) p(5) pool_index.reflects_put_all [of "oi_adapter_pools i" "oi_pools i" "\<lambda>x. [po_adapter x]" p x]
    unfolding index_ok_def resources_indexed_def i'
    by (auto simp: index_resources_def Let_def p(1) [symmetric] intro: pool_index.reflects_put_all)
  moreover have "index_tidy i'"
    using assms(1) unfolding index_ok_def index_tidy_def i'
    by (auto simp: index_resources_def Let_def intro: pool_index.clean_put_all pool_index.clean_put)
  moreover have "work_indexed i'"
    by (rule work_indexed_mono [of i]) (use assms(1) in \<open>auto simp: index_ok_def i' validate_owner_Inr split: runtime_owner_id.splits\<close>)
  moreover have "families_indexed i'" "discovery_indexed i'" "resyncs_indexed i'"
    using assms(1) by (auto simp: index_ok_def index_parts i')
  ultimately show ?thesis by (simp add: index_ok_def)
qed

lemma replace_pool_ok:
  assumes "index_ok i" "replace_pool i x = Inr (previous, i')" "dependencies_ok (po_dependencies x)"
  shows "index_ok i'"
proof -
  define p where "p = po_instance x"
  have r: "oi_active_pools i (inst_key p) = Some p" "oi_pools i p = Some previous" "po_handler previous = po_handler x"
    "po_adapter previous = po_adapter x"
    and i': "i' = (index_resources x (unindex_resources p previous i))\<lparr>oi_pools := (oi_pools i)(p \<mapsto> x)\<rparr>"
    using assms(2) by (auto simp: replace_pool_def Let_def p_def split: if_splits option.splits)
  have ok: "pools_indexed i" using assms(1) by (simp add: index_ok_def)
  have "pools_indexed i'"
  proof (rule pools_indexedI)
    fix q y assume "oi_pools i' q = Some y"
    then consider "q = p" "y = x" | "oi_pools i q = Some y" by (cases "q = p") (simp_all add: i')
    then show "po_instance y = q \<and> oi_active_pools i' (inst_key q) = Some q \<and> oi_handler_pools i' (po_handler y) = Some q
       \<and> po_adapter y \<in> oi_adapters i' \<and> key_protocol (inst_key q) \<in> set (ak_protocols (aid_key (po_adapter y)))
       \<and> dependencies_ok (po_dependencies y)"
    proof cases
      case 1 then show ?thesis using pools_indexedD(1) [OF ok r(2)] r assms(3) by (simp add: i' p_def)
    next
      case 2 then show ?thesis using pools_indexedD(1) [OF ok 2] by (simp add: i')
    qed
  next
    show "inst_key q = k \<and> oi_pools i' q \<noteq> None" if "oi_active_pools i' k = Some q" for k q
      using that pools_indexedD(2) [OF ok, of k q] by (auto simp: i' split: if_splits)
  next
    show "\<exists>y. oi_pools i' q = Some y \<and> po_handler y = h" if "oi_handler_pools i' h = Some q" for h q
      using that pools_indexedD(3) [OF ok, of h q] r by (auto simp: i' split: if_splits)
  qed
  moreover have "resources_indexed i'"
  proof -
    have "reflects (owners (oi_adapter_pools i)) ((oi_pools i)(p \<mapsto> x)) (\<lambda>x. [po_adapter x])"
      using assms(1) r(2,4) by (auto simp: index_ok_def resources_indexed_def reflects_def)
    then show ?thesis using assms(1) r(2) unfolding index_ok_def resources_indexed_def i'
      by (auto simp: index_resources_def unindex_resources_def Let_def p_def [symmetric] intro: pool_index.reflects_replace_all)
  qed
  moreover have "index_tidy i'"
    using assms(1) unfolding index_ok_def index_tidy_def i'
    by (auto simp: index_resources_def unindex_resources_def Let_def intro: pool_index.clean_put_all pool_index.clean_delete_all)
  moreover have "work_indexed i'"
    by (rule work_indexed_mono [of i]) (use assms(1) in \<open>auto simp: index_ok_def i' validate_owner_Inr split: runtime_owner_id.splits\<close>)
  moreover have "families_indexed i'" "discovery_indexed i'" "resyncs_indexed i'"
    using assms(1) by (auto simp: index_ok_def index_parts i')
  ultimately show ?thesis by (simp add: index_ok_def)
qed

lemma fold_forget: "fold (\<lambda>r m. m(r := None)) rs m k = (if k \<in> set rs then None else m k)"
  by (induction rs arbitrary: m) auto

lemma remove_pool_Some:
  assumes "index_ok i" "remove_pool resync_text i p = Some (removal, i')"
  obtains x where "oi_pools i p = Some x"
    "removal = \<lparr>rem_ownership = x, rem_work = work_for_owner i (PoolOwner p), rem_resyncs = resyncs_for_pool resync_text i p\<rparr>"
    "i' = (unindex_resources p x i)\<lparr>oi_pools := (oi_pools i)(p := None), oi_active_pools := (oi_active_pools i)(inst_key p := None),
       oi_handler_pools := (oi_handler_pools i)(po_handler x := None),
       oi_adapter_pools := remove_owner (po_adapter x) p (oi_adapter_pools i),
       oi_owner_work := (oi_owner_work i)(PoolOwner p := None), oi_pool_resyncs := (oi_pool_resyncs i)(p := None),
       oi_resync_owners := (\<lambda>r. if oi_resync_owners i r = Some p then None else oi_resync_owners i r)\<rparr>"
proof -
  from assms(2) obtain x where x: "oi_pools i p = Some x" by (auto simp: remove_pool_def split: option.splits)
  have active: "oi_active_pools i (inst_key p) = Some p" using assms(1) pools_indexedD(1) [OF _ x] by (simp add: index_ok_def)
  have "resyncs_indexed i" using assms(1) by (simp add: index_ok_def)
  then have rs: "oi_resync_owners i r = Some p \<longleftrightarrow> r \<in> set (case oi_pool_resyncs i p of Some ids \<Rightarrow> ids | None \<Rightarrow> [])" for r
    unfolding resyncs_indexed_def by (cases "oi_pool_resyncs i p") auto
  have "fold (\<lambda>r m. m(r := None)) (case oi_pool_resyncs i p of Some ids \<Rightarrow> ids | None \<Rightarrow> []) (oi_resync_owners i)
      = (\<lambda>r. if oi_resync_owners i r = Some p then None else oi_resync_owners i r)"
    by (rule ext) (simp add: fold_forget rs)
  then show thesis using assms(2) x active
    by (intro that [of x]) (cases i, simp add: remove_pool_def Let_def work_for_owner_def resyncs_for_pool_def unindex_resources_def)+
qed

lemma remove_pool_ok:
  assumes "index_ok i" "remove_pool resync_text i p = Some (removal, i')"
  shows "index_ok i'"
proof -
  from remove_pool_Some [OF assms] obtain x where x: "oi_pools i p = Some x"
    and i': "i' = (unindex_resources p x i)\<lparr>oi_pools := (oi_pools i)(p := None), oi_active_pools := (oi_active_pools i)(inst_key p := None),
       oi_handler_pools := (oi_handler_pools i)(po_handler x := None),
       oi_adapter_pools := remove_owner (po_adapter x) p (oi_adapter_pools i),
       oi_owner_work := (oi_owner_work i)(PoolOwner p := None), oi_pool_resyncs := (oi_pool_resyncs i)(p := None),
       oi_resync_owners := (\<lambda>r. if oi_resync_owners i r = Some p then None else oi_resync_owners i r)\<rparr>" by blast
  have ok: "pools_indexed i" using assms(1) by (simp add: index_ok_def)
  note px = pools_indexedD(1) [OF ok x]
  have "pools_indexed i'"
  proof (rule pools_indexedI)
    fix q y assume "oi_pools i' q = Some y"
    then have q: "q \<noteq> p" "oi_pools i q = Some y" by (cases "q = p"; simp add: i')+
    note qy = pools_indexedD(1) [OF ok q(2)]
    have "inst_key q \<noteq> inst_key p" "po_handler y \<noteq> po_handler x" using px qy q(1) by auto
    with qy show "po_instance y = q \<and> oi_active_pools i' (inst_key q) = Some q \<and> oi_handler_pools i' (po_handler y) = Some q
       \<and> po_adapter y \<in> oi_adapters i' \<and> key_protocol (inst_key q) \<in> set (ak_protocols (aid_key (po_adapter y)))
       \<and> dependencies_ok (po_dependencies y)" by (simp add: i')
  next
    show "inst_key q = k \<and> oi_pools i' q \<noteq> None" if "oi_active_pools i' k = Some q" for k q
      using that pools_indexedD(2) [OF ok, of k q] by (cases "k = inst_key p") (auto simp: i')
  next
    show "\<exists>y. oi_pools i' q = Some y \<and> po_handler y = h" if "oi_handler_pools i' h = Some q" for h q
      using that pools_indexedD(3) [OF ok, of h q] x by (cases "h = po_handler x") (auto simp: i')
  qed
  moreover have "resources_indexed i'"
    using assms(1) x pool_index.reflects_delete_all [of "oi_adapter_pools i" "oi_pools i" "\<lambda>x. [po_adapter x]" p x]
    unfolding index_ok_def resources_indexed_def i'
    by (auto simp: unindex_resources_def Let_def intro: pool_index.reflects_delete_all)
  moreover have "index_tidy i'"
    using assms(1) unfolding index_ok_def index_tidy_def i'
    by (auto simp: unindex_resources_def Let_def tidy_def [of "(oi_owner_work i)(_ := None)"] intro: pool_index.clean_delete_all pool_index.clean_delete)
       (simp add: tidy_def)
  moreover have "work_indexed i'"
    by (rule work_indexed_mono [of i])
       (use assms(1) in \<open>auto simp: index_ok_def i' validate_owner_Inr owners_def split: runtime_owner_id.splits if_splits\<close>)
  moreover have "resyncs_indexed i'"
  proof -
    have f: "oi_resync_owners i' r = Some q \<longleftrightarrow> q \<noteq> p \<and> oi_resync_owners i r = Some q"
      "oi_pool_resyncs i' q = Some rs \<longleftrightarrow> q \<noteq> p \<and> oi_pool_resyncs i q = Some rs"
      "oi_pools i' q = None \<longleftrightarrow> q = p \<or> oi_pools i q = None" for r q rs by (auto simp: i')
    have "resyncs_indexed i" using assms(1) by (simp add: index_ok_def)
    then show ?thesis unfolding resyncs_indexed_def f by blast
  qed
  moreover have "families_indexed i'" "discovery_indexed i'"
    using assms(1) by (auto simp: index_ok_def index_parts i')
  ultimately show ?thesis by (simp add: index_ok_def)
qed

lemma discovery_okI:
  assumes "index_ok i" "discovery_indexed i'" "tidy (oi_adapter_discovery i')" "tidy (oi_owner_work i')" "work_indexed i'"
    and "i' = i\<lparr>oi_active_discovery := ad, oi_adapter_discovery := dd, oi_discovery := d, oi_owner_work := w\<rparr>"
  shows "index_ok i'"
proof -
  have "pools_indexed i' = pools_indexed i" by (simp add: pools_indexed_def assms(6))
  moreover have "resources_indexed i' = resources_indexed i" by (simp add: resources_indexed_def assms(6))
  moreover have "families_indexed i' = families_indexed i" "resyncs_indexed i' = resyncs_indexed i"
    by (simp_all add: families_indexed_def resyncs_indexed_def assms(6))
  moreover have "index_tidy i'" using assms(1,3,4) by (simp add: index_ok_def index_tidy_def assms(6))
  ultimately show ?thesis using assms(1,2,5) by (simp add: index_ok_def)
qed

lemma discovery_active:
  "discovery_indexed i \<Longrightarrow> oi_discovery i e = Some x \<Longrightarrow> oi_active_discovery i (did_key e) = Some e"
  by (simp add: discovery_indexed_def)

lemma insert_discovery_ok:
  assumes "index_ok i" "insert_discovery i x = Inr i'"
  shows "index_ok i'"
proof -
  define d where "d = do_owner x"
  have r: "do_adapter x \<in> oi_adapters i" "oi_active_discovery i (did_key d) = None" "oi_discovery i d = None"
    and i': "i' = i\<lparr>oi_active_discovery := (oi_active_discovery i)(did_key d \<mapsto> d),
          oi_adapter_discovery := insert_owner (do_adapter x) d (oi_adapter_discovery i),
          oi_discovery := (oi_discovery i)(d \<mapsto> x)\<rparr>"
    using assms(2) by (auto simp: insert_discovery_def Let_def d_def split: if_splits)
  have ok: "discovery_indexed i" using assms(1) by (simp add: index_ok_def)
  have free: "oi_discovery i e = None" if "did_key e = did_key d" for e
    using r(2) that discovery_active [OF ok, of e] by (cases "oi_discovery i e") auto
  have "reflects (owners (oi_adapter_discovery i')) (oi_discovery i') (\<lambda>x. [do_adapter x])"
    using assms(1) r(3) discovery_index.reflects_put_all [of "oi_adapter_discovery i" "oi_discovery i" "\<lambda>x. [do_adapter x]" d x]
    by (simp add: index_ok_def discovery_indexed_def i')
  then have "discovery_indexed i'"
    using ok r free unfolding discovery_indexed_def by (auto simp: i' d_def [symmetric])
  moreover have "work_indexed i'"
    by (rule work_indexed_mono [of i]) (use assms(1) in \<open>auto simp: index_ok_def i' validate_owner_Inr split: runtime_owner_id.splits\<close>)
  ultimately show ?thesis
    using assms(1) by (intro discovery_okI [OF assms(1), where w = "oi_owner_work i"])
      (auto simp: i' index_ok_def index_tidy_def intro: discovery_index.clean_put)
qed

lemma remove_discovery_Some:
  assumes "index_ok i" "remove_discovery i d = Some (removal, i')"
  obtains x where "oi_discovery i d = Some x" "removal = (x, work_for_owner i (DiscoveryOwner d))"
    "i' = i\<lparr>oi_active_discovery := (oi_active_discovery i)(did_key d := None),
       oi_adapter_discovery := remove_discovery_owner (do_adapter x) d (oi_adapter_discovery i),
       oi_discovery := (oi_discovery i)(d := None), oi_owner_work := (oi_owner_work i)(DiscoveryOwner d := None)\<rparr>"
proof -
  from assms(2) obtain x where x: "oi_discovery i d = Some x" by (auto simp: remove_discovery_def split: option.splits)
  then have "oi_active_discovery i (did_key d) = Some d" using assms(1) by (simp add: index_ok_def discovery_indexed_def)
  then show thesis using assms(2) x
    by (intro that [of x]) (cases i, simp add: remove_discovery_def Let_def work_for_owner_def)+
qed

lemma remove_discovery_ok:
  assumes "index_ok i" "remove_discovery i d = Some (removal, i')"
  shows "index_ok i'"
proof -
  from remove_discovery_Some [OF assms] obtain x where x: "oi_discovery i d = Some x"
    and i': "i' = i\<lparr>oi_active_discovery := (oi_active_discovery i)(did_key d := None),
       oi_adapter_discovery := remove_discovery_owner (do_adapter x) d (oi_adapter_discovery i),
       oi_discovery := (oi_discovery i)(d := None), oi_owner_work := (oi_owner_work i)(DiscoveryOwner d := None)\<rparr>" by blast
  have ok: "discovery_indexed i" using assms(1) by (simp add: index_ok_def)
  have "reflects (owners (oi_adapter_discovery i')) (oi_discovery i') (\<lambda>x. [do_adapter x])"
    using ok x discovery_index.reflects_delete_all [of "oi_adapter_discovery i" "oi_discovery i" "\<lambda>x. [do_adapter x]" d x]
    by (simp add: discovery_indexed_def i')
  moreover have "do_owner y = e \<and> oi_active_discovery i' (did_key e) = Some e \<and> do_adapter y \<in> oi_adapters i'"
    if "oi_discovery i' e = Some y" for e y
  proof -
    have e: "e \<noteq> d" "oi_discovery i e = Some y" using that by (cases "e = d"; simp add: i')+
    then have "did_key e \<noteq> did_key d" using discovery_active [OF ok x] discovery_active [OF ok e(2)] by auto
    then show ?thesis using ok e(2) by (simp add: i' discovery_indexed_def)
  qed
  moreover have "did_key e = k \<and> oi_discovery i' e \<noteq> None" if "oi_active_discovery i' k = Some e" for k e
    using ok that by (cases "k = did_key d") (auto simp: i' discovery_indexed_def)
  ultimately have "discovery_indexed i'" by (simp add: discovery_indexed_def)
  moreover have "work_indexed i'"
    by (rule work_indexed_mono [of i])
       (use assms(1) in \<open>auto simp: index_ok_def i' validate_owner_Inr owners_def split: runtime_owner_id.splits if_splits\<close>)
  moreover have "tidy (oi_adapter_discovery i')" "tidy (oi_owner_work i')"
    using assms(1) by (auto simp: i' index_ok_def index_tidy_def tidy_def [of "(oi_owner_work i)(_ := None)"] tidy_def [of "oi_owner_work i"]
        intro: discovery_index.clean_delete)
  ultimately show ?thesis by (intro discovery_okI [OF assms(1)]) (auto simp: i')
qed

lemma work_okI:
  assumes "index_ok i" "tidy w" "work_indexed (i\<lparr>oi_owner_work := w\<rparr>)"
  shows "index_ok (i\<lparr>oi_owner_work := w\<rparr>)"
  by (rule discovery_okI [OF assms(1), where ad = "oi_active_discovery i" and dd = "oi_adapter_discovery i" and d = "oi_discovery i" and w = w])
     (use assms in \<open>simp_all add: index_ok_def discovery_indexed_def index_tidy_def\<close>)

lemma track_work_ok:
  assumes "index_ok i" "track_work i work = Inr i'"
  shows "index_ok i'"
proof -
  have v: "validate_owner i (rw_owner work) = Inr ()"
    and i': "i' = i\<lparr>oi_owner_work := insert_owner (rw_owner work) work (oi_owner_work i)\<rparr>"
    using assms(2) by (auto simp: track_work_def split: if_splits elim!: rbind_eq_InrE)
  have "work_indexed i'" using assms(1) v unfolding index_ok_def work_indexed_def i'
    by (auto simp: pool_index.look_put validate_owner_Inr split: if_splits runtime_owner_id.splits)
  then show ?thesis using assms(1) unfolding i' by (intro work_okI) (auto simp: index_ok_def index_tidy_def intro: pool_index.clean_put)
qed

lemma untrack_work_ok:
  assumes "index_ok i" "untrack_work i work = (b, i')"
  shows "index_ok i'"
proof -
  have i': "i' = i\<lparr>oi_owner_work := remove_owner (rw_owner work) work (oi_owner_work i)\<rparr>"
    using assms(2) by (simp add: untrack_work_def)
  have "work_indexed i'"
    by (rule work_indexed_mono [of i]) (use assms(1) in \<open>auto simp: index_ok_def i' validate_owner_Inr pool_index.look_delete
        split: runtime_owner_id.splits if_splits\<close>)
  then show ?thesis using assms(1) unfolding i' by (intro work_okI) (auto simp: index_ok_def index_tidy_def intro: pool_index.clean_delete)
qed

lemma resyncs_okI:
  assumes "index_ok i" "resyncs_indexed (i\<lparr>oi_resync_owners := ro, oi_pool_resyncs := pr\<rparr>)"
  shows "index_ok (i\<lparr>oi_resync_owners := ro, oi_pool_resyncs := pr\<rparr>)" (is "index_ok ?i")
proof -
  have "pools_indexed ?i = pools_indexed i" "resources_indexed ?i = resources_indexed i" "index_tidy ?i = index_tidy i"
    by (simp_all add: pools_indexed_def resources_indexed_def index_tidy_def)
  moreover have "validate_owner ?i ow = Inr () \<longleftrightarrow> validate_owner i ow = Inr ()" for ow
    by (cases ow) (simp_all add: validate_owner_Inr)
  then have "work_indexed ?i = work_indexed i" by (simp add: work_indexed_def)
  moreover have "families_indexed ?i = families_indexed i" "discovery_indexed ?i = discovery_indexed i"
    by (simp_all add: families_indexed_def discovery_indexed_def)
  ultimately show ?thesis using assms by (simp add: index_ok_def)
qed

definition tracked :: "('h, 'r) ownership_index \<Rightarrow> pool_instance_id \<Rightarrow> 'r list" where
  "tracked i p = (case oi_pool_resyncs i p of Some rs \<Rightarrow> rs | None \<Rightarrow> [])"

lemma resyncs_indexed_tracked:
  "resyncs_indexed i \<longleftrightarrow>
    (\<forall>r p. oi_resync_owners i r = Some p \<longleftrightarrow> r \<in> set (tracked i p))
    \<and> (\<forall>p. distinct (tracked i p) \<and> oi_pool_resyncs i p \<noteq> Some [] \<and> (tracked i p \<noteq> [] \<longrightarrow> oi_pools i p \<noteq> None))"
  unfolding resyncs_indexed_def tracked_def by (auto split: option.splits) (metis option.exhaust)+

lemma track_resync_ok:
  assumes "index_ok i" "track_resync i p r = Inr i'"
  shows "index_ok i'"
proof -
  have r: "oi_pools i p \<noteq> None" "oi_resync_owners i r = None"
    and i': "i' = i\<lparr>oi_resync_owners := (oi_resync_owners i)(r \<mapsto> p), oi_pool_resyncs := (oi_pool_resyncs i)(p \<mapsto> tracked i p @ [r])\<rparr>"
    using assms(2) by (auto simp: track_resync_def tracked_def split: if_splits)
  have t: "tracked i' q = (if q = p then tracked i p @ [r] else tracked i q)" for q by (simp add: tracked_def i')
  have ok: "resyncs_indexed i" using assms(1) by (simp add: index_ok_def)
  have "r \<notin> set (tracked i q)" for q using ok r(2) unfolding resyncs_indexed_tracked by (metis option.distinct(1))
  then have "resyncs_indexed i'" using ok r unfolding resyncs_indexed_tracked t by (auto simp: i')
  then show ?thesis unfolding i' by (rule resyncs_okI [OF assms(1)])
qed

lemma untrack_resync_ok:
  assumes "index_ok i" "untrack_resync i r = (owner, i')"
  shows "index_ok i'"
proof (cases "oi_resync_owners i r")
  case None then show ?thesis using assms by (simp add: untrack_resync_def)
next
  case (Some p)
  have ok: "resyncs_indexed i" using assms(1) by (simp add: index_ok_def)
  then obtain rs where rs: "oi_pool_resyncs i p = Some rs" "r \<in> set rs" using Some by (auto simp: resyncs_indexed_def)
  define rest where "rest = filter (\<lambda>x. x \<noteq> r) rs"
  have i': "i' = i\<lparr>oi_resync_owners := (oi_resync_owners i)(r := None),
      oi_pool_resyncs := (oi_pool_resyncs i)(p := (if rest = [] then None else Some rest))\<rparr>"
    using assms(2) Some rs by (cases i) (auto simp: untrack_resync_def Let_def rest_def)
  have t: "tracked i' q = filter (\<lambda>x. x \<noteq> r) (tracked i q)" for q
  proof (cases "q = p")
    case False
    then have "r \<notin> set (tracked i q)" using ok Some unfolding resyncs_indexed_tracked by (metis option.inject)
    then show ?thesis using False by (cases "oi_pool_resyncs i q") (auto simp: tracked_def i' filter_id_conv intro!: filter_True [symmetric])
  qed (auto simp: tracked_def i' rs(1) rest_def)
  have "oi_resync_owners i' x = Some q \<longleftrightarrow> x \<in> set (tracked i' q)" for x q
    using ok unfolding t resyncs_indexed_tracked by (simp add: i')
  moreover have "distinct (tracked i' q)" "oi_pool_resyncs i' q \<noteq> Some []" for q
    using ok unfolding t resyncs_indexed_tracked by (auto simp: i')
  moreover have "tracked i' q \<noteq> [] \<longrightarrow> oi_pools i' q \<noteq> None" for q
  proof -
    have "tracked i q \<noteq> [] \<longrightarrow> oi_pools i q \<noteq> None" using ok unfolding resyncs_indexed_tracked by blast
    moreover have "oi_pools i' = oi_pools i" by (simp add: i')
    ultimately show ?thesis unfolding t by (cases "tracked i q") simp_all
  qed
  ultimately have "resyncs_indexed i'" unfolding resyncs_indexed_tracked by blast
  then show ?thesis unfolding i' by (rule resyncs_okI [OF assms(1)])
qed

lemma remove_adapter_ok:
  assumes "index_ok i" "remove_adapter i a = Inr (b, i')"
  shows "index_ok i'"
proof (cases "a \<in> oi_adapters i")
  case False then show ?thesis using assms by (simp add: remove_adapter_def remove_adapter_prevalidated_def split: if_splits)
next
  case True
  have ok: "pools_indexed i" "resources_indexed i" "discovery_indexed i" "families_indexed i" using assms(1) by (simp_all add: index_ok_def)
  have e: "owners (oi_adapter_pools i) a = {}" "owners (oi_adapter_discovery i) a = {}"
    using assms(2) by (auto simp: remove_adapter_def split: if_splits)
  have active: "oi_active_adapters i (aid_key a) = Some a" using ok(4) True unfolding families_indexed_def by blast
  then have i': "i' = i\<lparr>oi_adapters := oi_adapters i - {a}, oi_active_adapters := (oi_active_adapters i)(aid_key a := None),
      oi_owner_work := (oi_owner_work i)(AdapterOwner a := None)\<rparr>"
    using assms(2) e True by (cases i) (simp add: remove_adapter_def remove_adapter_prevalidated_def Let_def)
  have unused: "po_adapter x \<noteq> a" if "oi_pools i p = Some x" for p x
    using ok(2) e(1) that unfolding resources_indexed_def reflects_def by auto
  have undiscovered: "do_adapter x \<noteq> a" if "oi_discovery i d = Some x" for d x
    using ok(3) e(2) that unfolding discovery_indexed_def reflects_def by auto
  have "pools_indexed i'"
    by (rule pools_indexedI) (use pools_indexedD [OF ok(1)] unused in \<open>auto simp: i'\<close>)
  moreover have "discovery_indexed i'" using ok(3) undiscovered unfolding discovery_indexed_def by (auto simp: i')
  moreover have "families_indexed i'"
  proof -
    have "b \<in> oi_adapters i \<longleftrightarrow> oi_active_adapters i (aid_key b) = Some b" for b using ok(4) unfolding families_indexed_def by blast
    then have "b \<in> oi_adapters i' \<longleftrightarrow> oi_active_adapters i' (aid_key b) = Some b" for b
      using active by (cases "aid_key b = aid_key a") (auto simp: i')
    moreover have "aid_key b = k" if "oi_active_adapters i' k = Some b" for k b
      using ok(4) that unfolding families_indexed_def by (cases "k = aid_key a") (auto simp: i')
    ultimately show ?thesis unfolding families_indexed_def by blast
  qed
  moreover have "index_tidy i'" using assms(1) unfolding index_ok_def index_tidy_def i' by (simp add: tidy_def)
  moreover have "work_indexed i'"
    by (rule work_indexed_mono [of i])
       (use assms(1) in \<open>auto simp: index_ok_def i' validate_owner_Inr owners_def split: runtime_owner_id.splits if_splits\<close>)
  moreover have "resources_indexed i' = resources_indexed i" "resyncs_indexed i' = resyncs_indexed i"
    by (simp_all add: resources_indexed_def resyncs_indexed_def i')
  ultimately show ?thesis using assms(1) by (simp add: index_ok_def)
qed

section \<open>Reachable indexes\<close>

text \<open>
  The public mutations. A pool enters with a record that \<open>pool_ownership_new\<close> built, from dependencies that the builders
  made.
\<close>

inductive ownership_step :: "(pool_instance_id \<Rightarrow> 'h) \<Rightarrow> ('h, 'r) ownership_index \<Rightarrow> ('h, 'r) ownership_index \<Rightarrow> bool"
  for handler_id :: "pool_instance_id \<Rightarrow> 'h" where
  own_adapter: "insert_adapter i a = Inr i' \<Longrightarrow> ownership_step handler_id i i'"
| own_pool: "\<lbrakk>dependencies_ok d; (pool_ownership_new handler_id p a d es :: ('h, 'r) ownership_error + _) = Inr x; insert_pool i x = Inr i'\<rbrakk>
    \<Longrightarrow> ownership_step handler_id i i'"
| own_replace: "\<lbrakk>dependencies_ok d; (pool_ownership_new handler_id p a d es :: ('h, 'r) ownership_error + _) = Inr x;
    replace_pool i x = Inr (previous, i')\<rbrakk> \<Longrightarrow> ownership_step handler_id i i'"
| own_discovery: "insert_discovery i y = Inr i' \<Longrightarrow> ownership_step handler_id i i'"
| own_work: "track_work i w = Inr i' \<Longrightarrow> ownership_step handler_id i i'"
| own_work_done: "untrack_work i w = (b, i') \<Longrightarrow> ownership_step handler_id i i'"
| own_resync: "track_resync i p r = Inr i' \<Longrightarrow> ownership_step handler_id i i'"
| own_resync_done: "untrack_resync i r = (q, i') \<Longrightarrow> ownership_step handler_id i i'"
| own_remove_pool: "remove_pool resync_text i p = Some (removal, i') \<Longrightarrow> ownership_step handler_id i i'"
| own_remove_discovery: "remove_discovery i d' = Some (gone, i') \<Longrightarrow> ownership_step handler_id i i'"
| own_remove_adapter: "remove_adapter i a = Inr (b, i') \<Longrightarrow> ownership_step handler_id i i'"

inductive_cases ownership_stepE: "ownership_step handler_id i i'"

definition ownership_reachable :: "(pool_instance_id \<Rightarrow> 'h) \<Rightarrow> ('h, 'r) ownership_index \<Rightarrow> bool" where
  "ownership_reachable handler_id i \<longleftrightarrow> (ownership_step handler_id)\<^sup>*\<^sup>* ownership_default i"

lemma pool_ownership_new_dependencies: "pool_ownership_new handler_id p a d es = Inr x \<Longrightarrow> po_dependencies x = d"
  by (auto simp: pool_ownership_new_def split: if_splits)

lemma ownership_step_ok: "ownership_step handler_id i i' \<Longrightarrow> index_ok i \<Longrightarrow> index_ok i'"
  by (erule ownership_stepE)
     (auto dest: pool_ownership_new_dependencies intro: insert_adapter_ok insert_pool_ok replace_pool_ok insert_discovery_ok
       track_work_ok untrack_work_ok track_resync_ok untrack_resync_ok remove_pool_ok remove_discovery_ok remove_adapter_ok)

lemma ownership_reachable_ok:
  assumes "ownership_reachable handler_id i"
  shows "index_ok i"
  using assms unfolding ownership_reachable_def
  by (induction rule: rtranclp_induct) (auto intro: index_ok_default ownership_step_ok)

section \<open>The index of a registry\<close>

lemma ownership_reachable_step: "ownership_reachable handler_id i \<Longrightarrow> ownership_step handler_id i i' \<Longrightarrow> ownership_reachable handler_id i'"
  unfolding ownership_reachable_def by (rule rtranclp.rtrancl_into_rtrancl)

lemma insert_families_total:
  assumes "distinct ks" "\<forall>k \<in> set ks. oi_active_adapters i k = None" "ownership_reachable handler_id i"
  shows "\<exists>i'. insert_families i ks = Inr i' \<and> ownership_reachable handler_id i' \<and> oi_pools i' = oi_pools i
    \<and> oi_active_pools i' = oi_active_pools i \<and> oi_handler_pools i' = oi_handler_pools i
    \<and> (\<forall>k. oi_active_adapters i' k = (if k \<in> set ks then Some \<lparr>aid_key = k, aid_generation = 0\<rparr> else oi_active_adapters i k))"
  using assms
proof (induction ks arbitrary: i)
  case (Cons k ks)
  define j where "j = i\<lparr>oi_active_adapters := (oi_active_adapters i)(k \<mapsto> \<lparr>aid_key = k, aid_generation = 0\<rparr>),
    oi_adapters := insert \<lparr>aid_key = k, aid_generation = 0\<rparr> (oi_adapters i)\<rparr>"
  have step: "insert_adapter i \<lparr>aid_key = k, aid_generation = 0\<rparr> = Inr j" using Cons.prems(2) by (simp add: insert_adapter_def j_def)
  have "ownership_reachable handler_id j" by (rule ownership_reachable_step [OF Cons.prems(3) own_adapter [OF step]])
  moreover have "\<forall>k \<in> set ks. oi_active_adapters j k = None" using Cons.prems(1,2) by (auto simp: j_def)
  ultimately obtain i' where "insert_families j ks = Inr i'" "ownership_reachable handler_id i'" "oi_pools i' = oi_pools j"
      "oi_active_pools i' = oi_active_pools j" "oi_handler_pools i' = oi_handler_pools j"
      "\<forall>k. oi_active_adapters i' k = (if k \<in> set ks then Some \<lparr>aid_key = k, aid_generation = 0\<rparr> else oi_active_adapters j k)"
    using Cons.IH [of j] Cons.prems(1) by auto
  then show ?case using step by (intro exI [of _ i']) (auto simp: j_def)
qed simp

definition generation0 :: "pool_key \<Rightarrow> pool_instance_id" where
  "generation0 k = \<lparr>inst_key = k, inst_generation = 0\<rparr>"

lemma generation0_select [simp]: "inst_key (generation0 k) = k" by (simp add: generation0_def)

definition registered_ownership ::
  "(pool_instance_id \<Rightarrow> 'h) \<Rightarrow> (amm_adapter \<Rightarrow> protocol_id) \<Rightarrow> (amm_adapter \<Rightarrow> pool_registration \<Rightarrow> state_dependencies)
    \<Rightarrow> 'acc adapter_registry \<Rightarrow> amm_adapter \<Rightarrow> pool_registration \<Rightarrow> 'h pool_ownership" where
  "registered_ownership handler_id primary dependencies_of r a pool =
    \<lparr>po_instance = generation0 (reg_key pool), po_handler = handler_id (generation0 (reg_key pool)),
     po_adapter = \<lparr>aid_key = family_key primary a, aid_generation = 0\<rparr>, po_dependencies = dependencies_of a pool,
     po_event_emitters = sort_dedup (map src_emitter (event_sources_for r pool))\<rparr>"

text \<open>One registered pool: its adapter is active, its key is free, and the handlers of other instances are different.\<close>

lemma insert_registered_total:
  fixes i :: "('h, 'r) ownership_index"
  assumes "adapters r (reg_protocol pool) = Some a" "reg_protocol pool \<in> set (ad_protocols a)"
    and "\<And>pool. dependencies_ok (dependencies_of a pool)" "inj handler_id" "ownership_reachable handler_id i"
    and "oi_active_adapters i (family_key primary a) = Some \<lparr>aid_key = family_key primary a, aid_generation = 0\<rparr>"
    and "oi_active_pools i (reg_key pool) = None"
    and "\<And>h p. oi_handler_pools i h = Some p \<Longrightarrow> h = handler_id p"
  shows "\<exists>i'. insert_registered handler_id primary dependencies_of r i pool = Inr i' \<and> ownership_reachable handler_id i'
    \<and> oi_pools i' = (oi_pools i)(generation0 (reg_key pool) \<mapsto> registered_ownership handler_id primary dependencies_of r a pool)
    \<and> oi_active_pools i' = (oi_active_pools i)(reg_key pool \<mapsto> generation0 (reg_key pool))
    \<and> oi_handler_pools i' = (oi_handler_pools i)(handler_id (generation0 (reg_key pool)) \<mapsto> generation0 (reg_key pool))
    \<and> oi_active_adapters i' = oi_active_adapters i"
proof -
  define x where "x = registered_ownership handler_id primary dependencies_of r a pool"
  have ok: "index_ok i" by (rule ownership_reachable_ok [OF assms(5)])
  then have fam: "families_indexed i" and pools: "pools_indexed i" by (simp_all add: index_ok_def)
  have member: "\<lparr>aid_key = family_key primary a, aid_generation = 0\<rparr> \<in> oi_adapters i"
    using fam assms(6) unfolding families_indexed_def by simp
  have protocol: "key_protocol (reg_key pool) \<in> set (ak_protocols (family_key primary a))"
    using assms(2) by (simp add: family_key_def adapter_key_new_def reg_protocol_def)
  have new: "pool_ownership_new handler_id (generation0 (reg_key pool)) \<lparr>aid_key = family_key primary a, aid_generation = 0\<rparr>
      (dependencies_of a pool) (map src_emitter (event_sources_for r pool)) = (Inr x :: ('h, 'r) ownership_error + _)"
    using protocol by (simp add: pool_ownership_new_def x_def registered_ownership_def)
  have fresh: "oi_pools i (generation0 (reg_key pool)) = None"
    using pools_indexedD(1) [OF pools, of "generation0 (reg_key pool)"] assms(7) by (cases "oi_pools i (generation0 (reg_key pool))") auto
  have handler: "oi_handler_pools i (po_handler x) = None"
  proof (cases "oi_handler_pools i (po_handler x)")
    case (Some p)
    then have "p = generation0 (reg_key pool)" using assms(4) assms(8) [OF Some] by (simp add: x_def registered_ownership_def inj_eq)
    then show ?thesis using pools_indexedD(3) [OF pools Some] fresh by simp
  qed
  have inst: "po_instance x = generation0 (reg_key pool)" "po_handler x = handler_id (generation0 (reg_key pool))"
    "po_adapter x = \<lparr>aid_key = family_key primary a, aid_generation = 0\<rparr>" by (simp_all add: x_def registered_ownership_def)
  obtain i' where i': "insert_pool i x = Inr i'" using member protocol assms(7) fresh handler
    by (simp add: insert_pool_def Let_def inst)
  from insert_pool_Inr [OF i'] obtain p where "p = po_instance x"
    "i' = (index_resources x (i\<lparr>oi_active_pools := (oi_active_pools i)(inst_key p \<mapsto> p),
       oi_handler_pools := (oi_handler_pools i)(po_handler x \<mapsto> p),
       oi_adapter_pools := insert_owner (po_adapter x) p (oi_adapter_pools i)\<rparr>))\<lparr>oi_pools := (oi_pools i)(p \<mapsto> x)\<rparr>" by blast
  then have "oi_pools i' = (oi_pools i)(generation0 (reg_key pool) \<mapsto> x)
      \<and> oi_active_pools i' = (oi_active_pools i)(reg_key pool \<mapsto> generation0 (reg_key pool))
      \<and> oi_handler_pools i' = (oi_handler_pools i)(handler_id (generation0 (reg_key pool)) \<mapsto> generation0 (reg_key pool))
      \<and> oi_active_adapters i' = oi_active_adapters i" by (simp add: inst)
  moreover have "insert_registered handler_id primary dependencies_of r i pool = Inr i'"
    using assms(1,6) new i' by (simp add: insert_registered_def generation0_def)
  moreover have "ownership_reachable handler_id i'"
    by (rule ownership_reachable_step [OF assms(5) own_pool [OF assms(3) new i']])
  ultimately show ?thesis by (auto simp: x_def)
qed

lemma insert_all_registered_total:
  fixes i :: "('h, 'r) ownership_index"
  assumes "distinct (map reg_key ps)" "ownership_reachable handler_id i" "inj handler_id"
    and "\<forall>pool \<in> set ps. \<exists>a. adapters r (reg_protocol pool) = Some a \<and> reg_protocol pool \<in> set (ad_protocols a)
      \<and> oi_active_adapters i (family_key primary a) = Some \<lparr>aid_key = family_key primary a, aid_generation = 0\<rparr>
      \<and> oi_active_pools i (reg_key pool) = None"
    and "\<And>a pool. dependencies_ok (dependencies_of a pool)" "\<And>h p. oi_handler_pools i h = Some p \<Longrightarrow> h = handler_id p"
  shows "\<exists>i'. insert_all_registered handler_id primary dependencies_of r i ps = Inr i' \<and> ownership_reachable handler_id i'
    \<and> (\<forall>p. oi_pools i' p \<noteq> None \<longleftrightarrow> oi_pools i p \<noteq> None \<or> p \<in> generation0 ` reg_key ` set ps)
    \<and> (\<forall>pool \<in> set ps. \<exists>a. adapters r (reg_protocol pool) = Some a
        \<and> oi_pools i' (generation0 (reg_key pool)) = Some (registered_ownership handler_id primary dependencies_of r a pool))
    \<and> (\<forall>p. p \<notin> generation0 ` reg_key ` set ps \<longrightarrow> oi_pools i' p = oi_pools i p)"
  using assms(1,2,4,6)
proof (induction ps arbitrary: i)
  case (Cons pool ps)
  define p where "p = generation0 (reg_key pool)"
  from Cons.prems(3) obtain a where a: "adapters r (reg_protocol pool) = Some a" "reg_protocol pool \<in> set (ad_protocols a)"
    "oi_active_adapters i (family_key primary a) = Some \<lparr>aid_key = family_key primary a, aid_generation = 0\<rparr>"
    "oi_active_pools i (reg_key pool) = None" by auto
  from insert_registered_total [where primary = primary and dependencies_of = dependencies_of,
      OF a(1,2) assms(5) assms(3) Cons.prems(2) a(3,4) Cons.prems(4)]
  obtain j where j: "insert_registered handler_id primary dependencies_of r i pool = Inr j" "ownership_reachable handler_id j"
    "oi_pools j = (oi_pools i)(p \<mapsto> registered_ownership handler_id primary dependencies_of r a pool)"
    "oi_active_pools j = (oi_active_pools i)(reg_key pool \<mapsto> p)" "oi_handler_pools j = (oi_handler_pools i)(handler_id p \<mapsto> p)"
    "oi_active_adapters j = oi_active_adapters i" unfolding p_def by blast
  have rest: "\<forall>q \<in> set ps. \<exists>a. adapters r (reg_protocol q) = Some a \<and> reg_protocol q \<in> set (ad_protocols a)
      \<and> oi_active_adapters j (family_key primary a) = Some \<lparr>aid_key = family_key primary a, aid_generation = 0\<rparr>
      \<and> oi_active_pools j (reg_key q) = None"
  proof
    fix q assume q: "q \<in> set ps"
    then have "reg_key q \<noteq> reg_key pool" using Cons.prems(1) by simp (metis image_eqI)
    moreover obtain b where "adapters r (reg_protocol q) = Some b" "reg_protocol q \<in> set (ad_protocols b)"
      "oi_active_adapters i (family_key primary b) = Some \<lparr>aid_key = family_key primary b, aid_generation = 0\<rparr>"
      "oi_active_pools i (reg_key q) = None" using Cons.prems(3) q by auto
    ultimately show "\<exists>a. adapters r (reg_protocol q) = Some a \<and> reg_protocol q \<in> set (ad_protocols a)
      \<and> oi_active_adapters j (family_key primary a) = Some \<lparr>aid_key = family_key primary a, aid_generation = 0\<rparr>
      \<and> oi_active_pools j (reg_key q) = None" by (simp add: j(4,6))
  qed
  have handlers: "h = handler_id q" if "oi_handler_pools j h = Some q" for h q
    using that Cons.prems(4) by (cases "h = handler_id p") (auto simp: j(5))
  have "distinct (map reg_key ps)" using Cons.prems(1) by simp
  from Cons.IH [OF this j(2) rest handlers] obtain i' where
    "insert_all_registered handler_id primary dependencies_of r j ps = Inr i'" "ownership_reachable handler_id i'"
    "\<forall>q. oi_pools i' q \<noteq> None \<longleftrightarrow> oi_pools j q \<noteq> None \<or> q \<in> generation0 ` reg_key ` set ps"
    "\<forall>pool \<in> set ps. \<exists>a. adapters r (reg_protocol pool) = Some a
        \<and> oi_pools i' (generation0 (reg_key pool)) = Some (registered_ownership handler_id primary dependencies_of r a pool)"
    "\<forall>q. q \<notin> generation0 ` reg_key ` set ps \<longrightarrow> oi_pools i' q = oi_pools j q" by blast
  moreover have "p \<notin> generation0 ` reg_key ` set ps"
    using Cons.prems(1) by (auto simp: p_def dest: arg_cong [where f = inst_key])
  ultimately show ?case using j(1,3) a(1) by (intro exI [of _ i']) (auto simp: p_def [symmetric])
qed simp

text \<open>
  The index of a registry is built without an error, and it is a reachable one: each tracked pool is there with the
  dependencies of its adapter and the emitters of its sources, and nothing else is.
\<close>

lemma from_registry_total:
  fixes r :: "'acc adapter_registry"
  assumes "registry_ok r" "iterates order (pools r)" "distinct families" "set families = family_key primary ` ran (adapters r)"
    and "\<And>k pool. pools r k = Some pool \<Longrightarrow> adapters r (reg_protocol pool) \<noteq> None"
    and "inj handler_id" "\<And>a pool. dependencies_ok (dependencies_of a pool)"
  shows "\<exists>i :: ('h, 'r) ownership_index. from_registry handler_id primary dependencies_of families order r = Inr i
    \<and> ownership_reachable handler_id i
    \<and> (\<forall>p. oi_pools i p \<noteq> None \<longleftrightarrow> inst_generation p = 0 \<and> pools r (inst_key p) \<noteq> None)
    \<and> (\<forall>k pool. pools r k = Some pool \<longrightarrow> (\<exists>a. adapters r (reg_protocol pool) = Some a
        \<and> oi_pools i (generation0 k) = Some (registered_ownership handler_id primary dependencies_of r a pool)))"
proof -
  have start: "ownership_reachable handler_id (ownership_default :: ('h, 'r) ownership_index)" by (simp add: ownership_reachable_def)
  have "\<forall>k \<in> set families. oi_active_adapters (ownership_default :: ('h, 'r) ownership_index) k = None"
    by (simp add: ownership_default_def)
  from insert_families_total [OF assms(3) this start] obtain i :: "('h, 'r) ownership_index" where
    i: "insert_families ownership_default families = Inr i" "ownership_reachable handler_id i" "oi_pools i = Map.empty"
      "oi_active_pools i = Map.empty" "oi_handler_pools i = Map.empty"
      "\<And>k. k \<in> set families \<Longrightarrow> oi_active_adapters i k = Some \<lparr>aid_key = k, aid_generation = 0\<rparr>"
    by (auto simp: ownership_default_def)
  have key: "reg_key pool = k" if "pools r k = Some pool" for k pool
    using assms(1) that by (simp add: registry_ok_def pools_ok_def)
  define ps where "ps = values_in order (pools r)"
  have "set ks \<subseteq> dom (pools r) \<Longrightarrow> map reg_key (List.map_filter (pools r) ks) = ks" for ks
    using key by (induction ks) (auto simp: List.map_filter_simps)
  then have keys: "map reg_key ps = order" using assms(2) by (simp add: ps_def values_in_def iterates_def)
  have mem: "pool \<in> set ps \<longleftrightarrow> pools r (reg_key pool) = Some pool" for pool
    using set_values_in [OF assms(2)] key by (auto simp: ps_def ran_def)
  have active: "\<forall>pool \<in> set ps. \<exists>a. adapters r (reg_protocol pool) = Some a \<and> reg_protocol pool \<in> set (ad_protocols a)
      \<and> oi_active_adapters i (family_key primary a) = Some \<lparr>aid_key = family_key primary a, aid_generation = 0\<rparr>
      \<and> oi_active_pools i (reg_key pool) = None"
  proof
    fix pool assume "pool \<in> set ps"
    with mem have "pools r (reg_key pool) = Some pool" by blast
    from assms(5) [OF this] obtain a where a: "adapters r (reg_protocol pool) = Some a" by blast
    then have "reg_protocol pool \<in> set (ad_protocols a)" using assms(1) unfolding registry_ok_def adapters_ok_def by blast
    moreover have "family_key primary a \<in> set families" using a assms(4) by (auto simp: ran_def)
    ultimately show "\<exists>a. adapters r (reg_protocol pool) = Some a \<and> reg_protocol pool \<in> set (ad_protocols a)
      \<and> oi_active_adapters i (family_key primary a) = Some \<lparr>aid_key = family_key primary a, aid_generation = 0\<rparr>
      \<and> oi_active_pools i (reg_key pool) = None" using a i(4,6) by auto
  qed
  have "distinct (map reg_key ps)" "\<And>h p. oi_handler_pools i h = Some p \<Longrightarrow> h = handler_id p"
    using assms(2) i(5) by (simp_all add: keys iterates_def)
  note insert_all_registered_total [where dependencies_of = dependencies_of, OF this(1) i(2) assms(6) active assms(7) this(2)]
  then obtain i' where i': "insert_all_registered handler_id primary dependencies_of r i ps = Inr i'" "ownership_reachable handler_id i'"
    "\<And>p. oi_pools i' p \<noteq> None \<longleftrightarrow> p \<in> generation0 ` reg_key ` set ps"
    "\<And>pool. pool \<in> set ps \<Longrightarrow> \<exists>a. adapters r (reg_protocol pool) = Some a
        \<and> oi_pools i' (generation0 (reg_key pool)) = Some (registered_ownership handler_id primary dependencies_of r a pool)"
    using i(3) by auto
  have "from_registry handler_id primary dependencies_of families order r = Inr i'"
    using i(1) i'(1) by (simp add: from_registry_def ps_def)
  moreover have "p \<in> generation0 ` reg_key ` set ps \<longleftrightarrow> inst_generation p = 0 \<and> pools r (inst_key p) \<noteq> None" for p
  proof -
    have "reg_key ` set ps = dom (pools r)" using keys assms(2) by (metis iterates_def list.set_map)
    then show ?thesis by (cases p) (auto simp: generation0_def image_iff dom_def)
  qed
  moreover have "\<exists>a. adapters r (reg_protocol pool) = Some a
      \<and> oi_pools i' (generation0 k) = Some (registered_ownership handler_id primary dependencies_of r a pool)"
    if "pools r k = Some pool" for k pool
    using i'(4) [of pool] mem [of pool] key [OF that] that by simp
  ultimately show ?thesis using i'(2,3) by (intro exI [of _ i']) simp
qed

section \<open>What lookups return\<close>

lemma lookups_exact:
  assumes "index_ok i"
  shows "pools_for_slot i (a, s) = {p. \<exists>x. oi_pools i p = Some x
      \<and> ((a, s) \<in> set (dep_slots (po_dependencies x)) \<or> a \<in> set (dep_whole_accounts (po_dependencies x)))}"
    and "pools_for_address i a = {p. \<exists>x. oi_pools i p = Some x \<and> a \<in> set (dep_associated_addresses (po_dependencies x))}"
    and "pools_for_emitter i a = {p. \<exists>x. oi_pools i p = Some x \<and> a \<in> set (po_event_emitters x)}"
    and "pools_for_adapter i ad = {p. adapter_for_pool i p = Some ad}"
    and "discovery_for_adapter i ad = {d. adapter_for_discovery i d = Some ad}"
proof -
  have r: "resources_indexed i" "discovery_indexed i" using assms by (simp_all add: index_ok_def)
  have slot: "pools_for_slot i (a, s) = owners (oi_slot_pools i) (a, s) \<union> owners (oi_whole_account_pools i) a"
    by (simp add: pools_for_slot_def owners_def split: option.splits)
  show "pools_for_slot i (a, s) = {p. \<exists>x. oi_pools i p = Some x
      \<and> ((a, s) \<in> set (dep_slots (po_dependencies x)) \<or> a \<in> set (dep_whole_accounts (po_dependencies x)))}"
    using r(1) unfolding slot resources_indexed_def reflects_def by auto
  show "pools_for_address i a = {p. \<exists>x. oi_pools i p = Some x \<and> a \<in> set (dep_associated_addresses (po_dependencies x))}"
    "pools_for_emitter i a = {p. \<exists>x. oi_pools i p = Some x \<and> a \<in> set (po_event_emitters x)}"
    using r(1) by (simp_all add: pools_for_address_def pools_for_emitter_def resources_indexed_def reflects_def)
  show "pools_for_adapter i ad = {p. adapter_for_pool i p = Some ad}" "discovery_for_adapter i ad = {d. adapter_for_discovery i d = Some ad}"
    using r by (auto simp: pools_for_adapter_def adapter_for_pool_def discovery_for_adapter_def adapter_for_discovery_def
        resources_indexed_def discovery_indexed_def reflects_def)
qed

lemma slot_owners_associated:
  assumes "index_ok i"
  shows "pools_for_slot i (a, s) \<subseteq> pools_for_address i a"
proof
  fix p assume "p \<in> pools_for_slot i (a, s)"
  then obtain x where x: "oi_pools i p = Some x"
    "(a, s) \<in> set (dep_slots (po_dependencies x)) \<or> a \<in> set (dep_whole_accounts (po_dependencies x))"
    using lookups_exact(1) [OF assms] by blast
  have "dependencies_ok (po_dependencies x)" using pools_indexedD(1) [OF _ x(1)] assms by (simp add: index_ok_def)
  then have "a \<in> set (dep_associated_addresses (po_dependencies x))" using x(2) by (force simp: dependencies_ok_def)
  then show "p \<in> pools_for_address i a" using lookups_exact(2) [OF assms] x(1) by auto
qed

lemma resync_owner_exact:
  assumes "index_ok i"
  shows "resync_owner i r = Some p \<longleftrightarrow> r \<in> set (resyncs_for_pool resync_text i p)"
proof -
  have "resyncs_indexed i" using assms by (simp add: index_ok_def)
  then have "oi_resync_owners i r = Some p \<longleftrightarrow> r \<in> set (tracked i p)" unfolding resyncs_indexed_tracked by blast
  then show ?thesis by (simp add: resync_owner_def resyncs_for_pool_def sort_resyncs_def tracked_def)
qed

text \<open>Removing a pool takes exactly that generation out of every lookup, and returns exactly what it owned.\<close>

lemma remove_pool_lookups:
  assumes "index_ok i" "remove_pool resync_text i p = Some (removal, i')"
  shows "rem_work removal = work_for_owner i (PoolOwner p)" "rem_resyncs removal = resyncs_for_pool resync_text i p"
    "oi_pools i p = Some (rem_ownership removal)" "active_pool i' (inst_key p) = None"
    "pools_for_slot i' (a, s) = pools_for_slot i (a, s) - {p}" "pools_for_address i' a = pools_for_address i a - {p}"
    "pools_for_emitter i' a = pools_for_emitter i a - {p}"
    "work_for_owner i' ow = (if ow = PoolOwner p then {} else work_for_owner i ow)"
    "resync_owner i' r = (if resync_owner i r = Some p then None else resync_owner i r)"
proof -
  from remove_pool_Some [OF assms] obtain x where x: "oi_pools i p = Some x"
    "removal = \<lparr>rem_ownership = x, rem_work = work_for_owner i (PoolOwner p), rem_resyncs = resyncs_for_pool resync_text i p\<rparr>"
    "i' = (unindex_resources p x i)\<lparr>oi_pools := (oi_pools i)(p := None), oi_active_pools := (oi_active_pools i)(inst_key p := None),
       oi_handler_pools := (oi_handler_pools i)(po_handler x := None),
       oi_adapter_pools := remove_owner (po_adapter x) p (oi_adapter_pools i),
       oi_owner_work := (oi_owner_work i)(PoolOwner p := None), oi_pool_resyncs := (oi_pool_resyncs i)(p := None),
       oi_resync_owners := (\<lambda>r. if oi_resync_owners i r = Some p then None else oi_resync_owners i r)\<rparr>" by blast
  show "rem_work removal = work_for_owner i (PoolOwner p)" "rem_resyncs removal = resyncs_for_pool resync_text i p"
    "oi_pools i p = Some (rem_ownership removal)" "active_pool i' (inst_key p) = None"
    "work_for_owner i' ow = (if ow = PoolOwner p then {} else work_for_owner i ow)"
    "resync_owner i' r = (if resync_owner i r = Some p then None else resync_owner i r)"
    by (simp_all add: x active_pool_def work_for_owner_def owners_def resync_owner_def)
  have ok': "index_ok i'" by (rule remove_pool_ok [OF assms])
  have pools: "oi_pools i' = (oi_pools i)(p := None)" by (simp add: x(3))
  show "pools_for_slot i' (a, s) = pools_for_slot i (a, s) - {p}" "pools_for_address i' a = pools_for_address i a - {p}"
    "pools_for_emitter i' a = pools_for_emitter i a - {p}"
    unfolding lookups_exact [OF ok'] lookups_exact [OF assms(1)] pools by auto
qed


end
