(* ===== verification/Example_Ownership.thy ===== *)
theory Example_Ownership
  imports Ownership_Facts
begin

text \<open>
  A registry with one adapter and one Uniswap V2 pair, whose ownership index the witnesses use. The adapter declares the
  default dependencies; a handler is named by the instance itself.
\<close>

definition pair_key :: pool_key where "pair_key = UniswapV2Key 5"

definition pair_adapter :: amm_adapter where
  "pair_adapter = \<lparr>ad_identity = 0, ad_protocols = [UniswapV2], ad_event_sources = (\<lambda>_. []), ad_route_log = (\<lambda>_ _. None)\<rparr>"

definition pair_registry :: "unit adapter_registry" where
  "pair_registry = registry_new\<lparr>adapters := [UniswapV2 \<mapsto> pair_adapter], pools := [pair_key \<mapsto> registration_new pair_key]\<rparr>"

definition pair_family :: adapter_key where "pair_family = adapter_key_new UniswapV2 [UniswapV2]"

lemma pair_registry_select:
  "adapters pair_registry = [UniswapV2 \<mapsto> pair_adapter]" "pools pair_registry = [pair_key \<mapsto> registration_new pair_key]"
  by (simp_all add: pair_registry_def)

lemma pair_registration: "reg_key (registration_new pair_key) = pair_key" "reg_protocol (registration_new pair_key) = UniswapV2"
  "reg_state_addresses (registration_new pair_key) = []" "key_address pair_key = Some 5"
  by (simp_all add: registration_new_def reg_protocol_def pair_key_def)

lemma pair_registry_ok: "registry_ok pair_registry"
  by (simp add: registry_ok_def pools_ok_def adapters_ok_def pair_registry_select pair_registration pair_adapter_def)
     (simp add: check_protocol_agreement_def registration_new_def)

lemma pair_family_key: "family_key (\<lambda>_. UniswapV2) pair_adapter = pair_family"
  by (simp add: family_key_def pair_family_def pair_adapter_def)

lemma pair_dependencies: "set (dep_associated_addresses (default_state_dependencies (registration_new pair_key))) = {5}"
  by (simp add: default_state_dependencies_def pair_registration with_whole_accounts_def dependencies_normalize_def
      dependencies_default_def Let_def)

end
