(* ===== verification/Spec2Isabelle.thy ===== *)
theory Spec2Isabelle
  imports Example_Mint Example_Accounting Example_Staking Runtime_Properties Example_Adapter Example_Fee Example_Ownership
begin

text \<open>
  A verification library for the adapters of evm-amm-state.

  \<^bold>\<open>The program.\<close> The crate keeps a cache of the storage words of automated market makers and replays
  the logs of each block into it. A registry holds the tracked pools and one adapter per protocol
  family; a cold start warms the words of a pool by rounds of provider reads that the adapter's planner
  asks for; a reactive handler routes each log to its pool, lets the adapter decode it into storage
  updates and repairs, and hands the effects to the cache. For concentrated-liquidity pools the crate does
  not re-read the chain: from a decoded event and the parent words it derives the complete batch of storage
  writes that the contract made, or it refuses with an error that says what contradicts what. That
  derivation is \<open>src/src/adapters/v3_transition.rs\<close>, the core of this development; the staking events of
  the reviewed Slipstream pool have their own in \<open>slipstream_staking.rs\<close>. An error makes the caller purge and
  repair the pool, so a wrong batch is worse than none: the properties say when a batch is produced, that
  it is the right one, and that a refusal is always a value.

  \<^bold>\<open>Theories\<close>, in the order of the dependencies:

  \<^item> \<open>Prelude\<close>: the error monad \<open>rbind\<close>/\<open>rmap\<close>/\<open>ok_or\<close>, checked and saturating word arithmetic,
    rounding division, bit lengths, the \<open>named_theorems\<close> collections.
  \<^item> \<open>Event_Types\<close>: \<open>types.rs\<close>, that is errors, fee evidence and its validation, the event context;
    \<open>no_panic\<close>, the absence of aborts, as a compositional predicate.
  \<^item> \<open>State\<close>: \<open>state.rs\<close>, updates and diffs; views of the cache as partial functions; the contract
    \<open>exact_transition\<close> (a locale) of a derivation towards the engine that replays it.
  \<^item> \<open>Storage\<close>: \<open>storage.rs\<close>, slots, layouts and key preimages.
  \<^item> \<open>Fixed_Point\<close>, \<open>Pool_Words\<close>, \<open>Tick_Math\<close>, \<open>Sqrt_Price\<close>, \<open>Tick_Bitmap\<close>, \<open>Fee_Lanes\<close>: the
    helpers of \<open>v3_transition.rs\<close>, that is 512-bit division and packed signed fields, \<open>slot0\<close> and
    observations with the oracle ring, tick prices, the amounts and budgets of one swap step, the
    search for the next initialized tick, and the two 128-bit lanes of the protocol fees (a locale
    \<open>fee_accumulator\<close> with one interpretation per token).
  \<^item> \<open>V3_Swap\<close>: \<open>derive_uniswap_v3_swap\<close>, one definition per phase of the function; \<open>V3_Swap_Path\<close>
    proves the invariant of its price walk, \<open>V3_Swap_Facts\<close> its results.
  \<^item> \<open>V3_Liquidity\<close> and \<open>V3_Liquidity_Facts\<close>: \<open>derive_uniswap_v3_liquidity\<close>, canonical Mint and Burn
    with the cold slots of boundaries that are not cached.
  \<^item> \<open>V3_Accounting\<close>: Flash, SetFeeProtocol, CollectProtocol, observation growth, position slots.
  \<^item> \<open>Slipstream_Fee\<close>: reviewed deployments, fee evidence, the split of a fee between gauge and
    unstaked liquidity, rewards, and the inference of the effective fee by two binary searches
    (locales \<open>rising_probe\<close> and \<open>falling_probe\<close>, interpreted on the two ends of the fee interval).
  \<^item> \<open>Slipstream_Swap\<close> and \<open>Slipstream_Facts\<close>: \<open>derive_slipstream_swap\<close> and
    \<open>infer_slipstream_swap_fee\<close>, and what they guarantee.
  \<^item> \<open>Slipstream_Liquidity\<close>: \<open>derive_slipstream_liquidity\<close>, Slipstream Mint and Burn.
  \<^item> \<open>Pool_Types\<close>: \<open>types.rs\<close>, that is pool keys, event sources, registrations and metadata with their
    agreement, events, repairs; \<open>storage.rs\<close>, the layout of a registration.
  \<^item> \<open>Registry\<close>: \<open>registry.rs\<close>, every mutation of the registry, routing, subscriptions, deferred work; the
    contract of a keyed store (locale \<open>keyed_store\<close>) and the step relation of the mutations.
  \<^item> \<open>Slipstream_Staking\<close> and \<open>Staking_Evidence\<close>: \<open>slipstream_staking.rs\<close>, the staking transition, its
    decoding, and the evidence assembled from the logs of a delivery batch. \<open>BTree_Map\<close>: sorted maps.
  \<^item> \<open>Cold_Start\<close>: \<open>cold_start.rs\<close> and \<open>prepared.rs\<close>, plans and rounds, the resumable job that replays its
    transcript, its direct specification, and the contract of a planner (a locale).
  \<^item> \<open>Dependencies\<close>, \<open>Ownership\<close> and \<open>Ownership_Facts\<close>: \<open>ownership.rs\<close> with the identities of \<open>runtime.rs\<close>, that is the state
    that a pool declares as its own, the index of owners with its reverse indexes (locale \<open>reverse_index\<close>, interpreted on
    the index of pools and on that of discovery sources), its step relation and its invariant.
  \<^item> \<open>Reserve_Adapters\<close>: \<open>uniswap_v2.rs\<close> and \<open>solidly_v2.rs\<close>; \<open>Balancer_V2\<close>: \<open>balancer_v2.rs\<close>; sources, event
    decoding, cold-start planners, each planner an instance of the contract.
  \<^item> \<open>Reactive\<close>: \<open>reactive.rs\<close> and \<open>repair.rs\<close>, the handling of a routed log with its repairs and resyncs,
    routing keys, and the bounded store of fee evidence.
  \<^item> \<open>Concentrated_Liquidity\<close>: the events side of \<open>uniswap_v3.rs\<close>, that is sources, dependencies, the decoders of the
    event bodies, capabilities, and the dispatch of a log to a transition or to the invalidation of the pool; what the
    adapter may call a replay is the inductive relation \<open>v3_replays\<close>.
  \<^item> \<open>V3_Planner\<close> and \<open>V3_Cold_Start\<close>: the cold-start planner of \<open>uniswap_v3.rs\<close>, its window of bitmap words and its three
    rounds, and what it warms; it is an instance of the contract of a planner too.
  \<^item> \<open>Fee_Evaluation\<close>: the offline evaluation of the unstaked fee of a reviewed Slipstream pool in \<open>uniswap_v3.rs\<close>.
  \<^item> \<open>Example_Pool\<close>, \<open>Example_Mint\<close>, \<open>Example_Accounting\<close>, \<open>Example_Slipstream\<close>, \<open>Example_Slipstream_Mint\<close>,
    \<open>Example_Staking\<close>, \<open>Example_Adapter\<close>, \<open>Example_Fee\<close>, \<open>Example_Ownership\<close>: concrete pools and events, evaluated step by step, which the witnesses use.
  \<^item> \<open>Runtime_Properties\<close>: the properties of registry, cold start, reserve pools, vault and handler, C31 to C40.

  \<^bold>\<open>Correspondence.\<close> A struct is a record, an enum a datatype, \<open>U256\<close>, \<open>u128\<close>, \<open>u64\<close>, \<open>u32\<close>, \<open>u16\<close> and
  \<open>u8\<close> are words of that width, whose \<open>+\<close> wraps as \<open>wrapping_add\<close> and the operators of the \<open>U256\<close>
  type do; \<open>U512\<close> is a word of 512 bits. Signed integers (\<open>i32\<close> ticks, \<open>i64\<close>, \<open>i128\<close>) are integers,
  with their range written out where the code checks it and with \<open>Panicked\<close> where Rust would abort
  on overflow. \<open>Result\<close> is a sum with the error on the left; \<open>?\<close> is \<open>rbind\<close>. A \<open>dyn StateView\<close> is a
  partial function from account and slot to word, so that a cell that is not cached differs from a
  zero. \<open>expect\<close>, slice indexing and integer division are modelled with an explicit
  \<open>Panicked\<close> outcome, which the properties then exclude; a planner that panics yields the step \<open>Abort\<close>, which ends
  its job with \<open>PlannerPanicked\<close>. A \<open>BTreeMap\<close> is a sorted association list.
  A loop is a recursive function with a termination proof. The hash \<open>keccak256\<close> is code of
  another crate and is a parameter of every definition that uses it; nothing is assumed about it.

  \<^bold>\<open>What is proved.\<close> C1 to C3: a canonical swap batch explains its event by a contiguous path and conserves
  the input over principal and fees. C4 and C5: transitions never abort and fail closed. C6: tick prices are strictly
  increasing and determine the final tick. C7: the ownership index agrees with its records. C8 and C9: the maximal input
  budget is exact, and one 512-bit division equals the contract's two roundings. C10 to C13: packed words round-trip, the oracle ring, crossing a tick is
  reversible, the next boundary is the nearest. C14 to C16: Mint and Burn keep bitmap and ticks consistent, and
  undo each other. C17 to C19: accounting events. C20: the adapter of the concentrated pools accounts for every
  mutation. C21 to C23 and C25 to C27: Slipstream swaps, with staked liquidity never
  above active liquidity, a fee inference that decides, conservation of fees over growth and gauge and of
  rewards over reserve, growth and rollover, and evidence that is bound to one event, that an offline evaluation
  completes, and that only ever adds words. C24: the cold start of a concentrated pool warms what a replay reads.
  C28 to C30: Slipstream Mint and Burn, stakes, and the provenance of staking evidence. C31 and C32: the
  invariant of the registry, for the pools that were not edited through the unchecked \<open>pool_mut\<close>, and its routing. C33 to C35: the resumable cold start refines a direct one, stops, and
  prepares pools that the registry accepts. C36 to C38: reserve and vault events refine updates of reserves and
  balances. C39 and C40: the handler loses no update, and the evidence store stays bounded.

  \<^bold>\<open>Bounds.\<close> The walk of a swap takes at most \<open>MAX_SWAP_STEPS\<close> = 4096 steps because the code counts
  them, and that count is the termination measure; with the fee-only step a path has at most 4097
  segments. The fee search runs over 0 to 100000 as in the code and halves its range at each
  step. A cold-start job takes at most
  the \<open>max_rounds\<close> of its configuration, the measure of its loop; a concentrated pool needs three. No fuel is used
  anywhere. C24 assumes a tick spacing below \<open>2 ^ 23\<close>, the range of the contract's \<open>int24\<close>, so that no tick of the window
  overflows. C22 assumes that the principal amounts and twice the final budget
  fit a word, so that no interval overflows; a swap of a real pool is far below that.

  \<^bold>\<open>Other crates.\<close> ABI decoders and signature hashes, the provider behind a round, the delivery batch and the
  snapshot of the cache are arguments, and so are the identifiers of handlers and resync requests; C7 assumes that different instances have
  different handlers when the index of a registry is built. C36 and C37 assume of the \<open>Sync\<close> decoder that it accepts logs of two words in
  the range of their type, and C36 of the cache that a masked write replaces the masked bits of a known word and
  skips an unknown one; the witnesses instantiate both. C24 assumes of the provider that it answers from one state of the
  chain: one outcome per requested cell, and a patch that has every requested cell that is not zero. The EVM overlay that
  executes the calls of a fee evaluation is an argument, and C26 holds whatever it answers. The iteration order of a hash map is an argument
  that enumerates its keys.

  \<^bold>\<open>Not modelled.\<close> Of \<open>uniswap_v3.rs\<close>, quotes, which run a quoter in the EVM, the rendering of bytecode
  templates, and the list of factories; \<open>curve.rs\<close>, which discovers slots by
  simulated calls; one-shot hydration, which runs storage programs in the cache crate; the cold-start scheduler,
  the live runtime, drivers and synchronisation, which orchestrate asynchronous providers; factories,
  persistence, snapshots and quote simulation. Of the modelled files, labels and tags for humans, locks, builder
  methods that set one field, and conversions to the types of the cache crate are left out.
\<close>

section \<open>Canonical swaps\<close>

text \<open>
  C1. A derived swap is a complete explanation of its event: there is a contiguous path of at
  most 4097 price segments from the parent price and liquidity to the event price and
  liquidity, each with the amounts of its own interval and with every crossed tick read from
  the parent state; the segments' inputs and the fees charged on them add up exactly to the
  input the event reports, every fee but the last is the full-step fee, and the event's output
  is the path's output up to a cap inside the last segment.
\<close>

theorem swap_explains_event:
  assumes "derive_uniswap_v3_swap keccak256 addr layout fee swap ctx state = Inr us"
  shows "\<exists>parent zfo ticks segs fees.
    load_swap_parent addr layout state = Inr parent \<and> swap_signs swap = Inr zfo
    \<and> loaded_ticks keccak256 addr layout state ticks
    \<and> path zfo ticks (s0_sqrt_price_x96 (sp_slot0 parent)) (sp_liquidity parent) segs
        (sw_sqrt_price_x96 swap) (sw_liquidity swap)
    \<and> length segs \<le> 4097 \<and> length fees = length segs
    \<and> (\<forall>i. Suc i < length segs \<longrightarrow> fee_for_full_step (seg_amount_in (segs ! i)) fee = Inr (fees ! i))
    \<and> uint (swap_actual_input swap zfo) = (\<Sum>s\<leftarrow>segs. uint (seg_amount_in s)) + (\<Sum>f\<leftarrow>fees. uint f)
    \<and> uint (swap_actual_output swap zfo) \<le> (\<Sum>s\<leftarrow>segs. uint (seg_amount_out s))
    \<and> (\<Sum>s\<leftarrow>segs. uint (seg_amount_out s)) - uint (seg_amount_out (last segs)) \<le> uint (swap_actual_output swap zfo)"
  using derive_swap_sound [OF assms] unfolding swap_witness_def by blast

theorem swap_explains_event_witness:
  "\<exists>parent zfo ticks segs fees.
    load_swap_parent demo_pool (layout_uniswap 10) demo_view = Inr parent \<and> swap_signs demo_swap = Inr zfo
    \<and> loaded_ticks demo_hash demo_pool (layout_uniswap 10) demo_view ticks
    \<and> path zfo ticks (s0_sqrt_price_x96 (sp_slot0 parent)) (sp_liquidity parent) segs
        (sw_sqrt_price_x96 demo_swap) (sw_liquidity demo_swap)
    \<and> length segs \<le> 4097 \<and> length fees = length segs
    \<and> uint (swap_actual_input demo_swap zfo) = (\<Sum>s\<leftarrow>segs. uint (seg_amount_in s)) + (\<Sum>f\<leftarrow>fees. uint (f :: u256))"
  using swap_explains_event [OF demo_run] by blast

text \<open>
  C2. The batch of a derived swap writes only the pool's own account, and starts with the five
  global words: a \<open>slot0\<close> that decodes to the event's price and tick with the advanced oracle
  position and the parent's next cardinality, protocol fee and lock bytes, both fee growth
  words, the protocol fees, and the event's liquidity.
\<close>

theorem swap_batch_shape:
  assumes "derive_uniswap_v3_swap keccak256 addr layout fee swap ctx state = Inr us"
  shows "\<exists>raw word growth0 growth1 protocol rest index cardinality now w.
    state addr 0 = Some raw
    \<and> us = [Slot addr 0 word, Slot addr 1 growth0, Slot addr 2 growth1, Slot addr 3 protocol,
            Slot addr 4 (sw_liquidity swap)] @ rest
    \<and> exact_writes_to addr us
    \<and> (\<exists>parent. load_swap_parent addr layout state = Inr parent
        \<and> swap_oracle addr parent swap ctx state = Inr (index, cardinality, w, now))
    \<and> slot0_decode word = (slot0_decode raw)\<lparr>s0_raw := word, s0_sqrt_price_x96 := sw_sqrt_price_x96 swap,
         s0_tick := sw_tick swap, s0_observation_index := index, s0_observation_cardinality := cardinality\<rparr>
    \<and> field 240 16 word = field 240 16 raw"
  using derive_swap_batch [OF assms] by blast

theorem swap_batch_shape_witness:
  "exact_writes_to demo_pool demo_updates \<and> (\<exists>word rest. demo_updates = Slot demo_pool 0 word # rest)"
  using swap_batch_shape [OF demo_run] unfolding append.simps by blast

text \<open>
  C3. Fees move on the input side only, and exactly. Along the path of C1, from the parent to the event over ticks
  of the parent state, with a fee of its own for every segment (the full-step fee for every segment but the last, and
  in all what the event's input leaves of the principal), the protocol takes the share of each fee that the input
  side's half of the fee protocol byte names, rounded down, and the rest raises the fee growth by the quotient by the segment's liquidity. The
  input token's fee growth word rises by the sum of the growths, its protocol-fee lane by the sum of the shares
  modulo \<open>2 ^ 128\<close>; a segment without liquidity leaves no fee for providers; the other token's growth and the
  other lane keep their parent values.
\<close>

theorem swap_fee_conservation:
  assumes "derive_uniswap_v3_swap keccak256 addr layout fee swap ctx state = Inr us"
  shows "\<exists>parent zfo ticks segs fees d share growths growth0 growth1 protocol.
    load_swap_parent addr layout state = Inr parent \<and> swap_signs swap = Inr zfo
    \<and> loaded_ticks keccak256 addr layout state ticks
    \<and> path zfo ticks (s0_sqrt_price_x96 (sp_slot0 parent)) (sp_liquidity parent) segs
        (sw_sqrt_price_x96 swap) (sw_liquidity swap)
    \<and> length fees = length segs \<and> length growths = length segs
    \<and> (\<forall>i. Suc i < length segs \<longrightarrow> fee_for_full_step (seg_amount_in (segs ! i)) fee = Inr (fees ! i))
    \<and> uint (swap_actual_input swap zfo) = (\<Sum>s\<leftarrow>segs. uint (seg_amount_in s)) + (\<Sum>f\<leftarrow>fees. uint f)
    \<and> d = (if zfo then s0_fee_protocol (sp_slot0 parent) AND 0x0f
           else drop_bit 4 (s0_fee_protocol (sp_slot0 parent)))
    \<and> share = (\<lambda>f :: u256. if d = 0 then 0 else uint f div uint d)
    \<and> (\<forall>i < length segs. if seg_liquidity (segs ! i) = 0
         then growths ! i = 0 \<and> uint (fees ! i) = share (fees ! i)
         else uint (growths ! i) = (uint (fees ! i) - share (fees ! i)) * 2 ^ 128 div uint (seg_liquidity (segs ! i)))
    \<and> us ! 1 = Slot addr 1 growth0 \<and> us ! 2 = Slot addr 2 growth1 \<and> us ! 3 = Slot addr 3 protocol
    \<and> growth0 = (if zfo then sp_fee_growth_0 parent + sum_list growths else sp_fee_growth_0 parent)
    \<and> growth1 = (if zfo then sp_fee_growth_1 parent else sp_fee_growth_1 parent + sum_list growths)
    \<and> lane0 protocol = (if zfo then (lane0 (sp_protocol_fees parent) + (\<Sum>f\<leftarrow>fees. share f)) mod 2 ^ 128
                        else lane0 (sp_protocol_fees parent))
    \<and> lane1 protocol = (if zfo then lane1 (sp_protocol_fees parent)
                        else (lane1 (sp_protocol_fees parent) + (\<Sum>f\<leftarrow>fees. share f)) mod 2 ^ 128)"
  by (rule derive_swap_fees [OF assms])

theorem swap_fee_conservation_witness:
  "\<exists>parent ticks segs fees growths :: u256 list.
    load_swap_parent demo_pool (layout_uniswap 10) demo_view = Inr parent
    \<and> path False ticks (s0_sqrt_price_x96 (sp_slot0 parent)) (sp_liquidity parent) segs
        (sw_sqrt_price_x96 demo_swap) (sw_liquidity demo_swap)
    \<and> length fees = length segs \<and> length growths = length segs
    \<and> uint (swap_actual_input demo_swap False) = (\<Sum>s\<leftarrow>segs. uint (seg_amount_in s)) + (\<Sum>f\<leftarrow>fees. uint (f :: u256))
    \<and> sp_fee_growth_0 parent = 5
    \<and> sp_fee_growth_1 parent + sum_list growths = 76563532557211154279259286672154"
proof -
  have signs: "swap_signs demo_swap = Inr False" using swap_direction_okD(1) [OF demo_direction] .
  have us: "demo_updates ! 1 = Slot demo_pool 1 5" "demo_updates ! 2 = Slot demo_pool 2 76563532557211154279259286672154"
    by (simp_all add: demo_updates_def)
  from swap_fee_conservation [OF demo_run] obtain parent zfo ticks segs fees growths growth0 growth1 where
    c: "load_swap_parent demo_pool (layout_uniswap 10) demo_view = Inr parent" "swap_signs demo_swap = Inr zfo"
    "path zfo ticks (s0_sqrt_price_x96 (sp_slot0 parent)) (sp_liquidity parent) segs
        (sw_sqrt_price_x96 demo_swap) (sw_liquidity demo_swap)"
    "length fees = length segs" "length growths = length segs"
    "uint (swap_actual_input demo_swap zfo) = (\<Sum>s\<leftarrow>segs. uint (seg_amount_in s)) + (\<Sum>f\<leftarrow>fees. uint (f :: u256))"
    "demo_updates ! 1 = Slot demo_pool 1 growth0" "demo_updates ! 2 = Slot demo_pool 2 growth1"
    "growth0 = (if zfo then sp_fee_growth_0 parent + sum_list growths else sp_fee_growth_0 parent)"
    "growth1 = (if zfo then sp_fee_growth_1 parent else sp_fee_growth_1 parent + sum_list growths)"
    by blast
  from c(2) signs have "\<not> zfo" by simp
  with c us show ?thesis by (intro exI [of _ parent] exI [of _ ticks] exI [of _ segs] exI [of _ fees] exI [of _ growths]) simp
qed

text \<open>
  C4. No transition aborts: whatever the event, the context and the cached state are, no assertion, \<open>expect\<close>,
  index, division or signed negation of the derivations of swaps, Mints and Burns of both families and of the fee
  inference fails. Every refusal is an error value.
\<close>

theorem transitions_never_abort:
  "no_panic (derive_uniswap_v3_swap keccak256 addr layout fee swap ctx state)
    \<and> no_panic (derive_uniswap_v3_liquidity keccak256 addr layout event ctx state)
    \<and> no_panic (derive_slipstream_swap keccak256 addr layout swap ctx state)
    \<and> no_panic (infer_slipstream_swap_fee keccak256 addr layout swap ctx state)
    \<and> no_panic (derive_slipstream_liquidity keccak256 addr layout event ctx state)"
proof (intro conjI)
  show "no_panic (derive_slipstream_swap keccak256 addr layout swap ctx state)"
    "no_panic (infer_slipstream_swap_fee keccak256 addr layout swap ctx state)"
    unfolding derive_slipstream_swap_def infer_slipstream_swap_fee_def Let_def fee_evidence_error_def
    by (intro no_panic_intros no_panic_derive_slipstream)+
qed (rule no_panic_derive_swap no_panic_derive_liquidity no_panic_derive_slipstream_liquidity)+

text \<open>
  C5. Transitions fail closed: an absent cell is never read as a zero, so what the derivation of a swap, of a
  Slipstream swap, of its fee, of a Slipstream Mint or Burn or of a stake yields on a partial view is what it
  yields on every view that knows more, and two partial views of one state never yield different swaps.
\<close>

theorem transitions_fail_closed:
  assumes "view_le s u"
  shows "(derive_uniswap_v3_swap keccak256 addr layout fee swap ctx s = Inr us
        \<longrightarrow> derive_uniswap_v3_swap keccak256 addr layout fee swap ctx u = Inr us
          \<and> (\<forall>t us'. view_le t u \<longrightarrow> derive_uniswap_v3_swap keccak256 addr layout fee swap ctx t = Inr us' \<longrightarrow> us' = us))
    \<and> (derive_slipstream_swap keccak256 addr layout swap ctx s = Inr us
        \<longrightarrow> derive_slipstream_swap keccak256 addr layout swap ctx u = Inr us)
    \<and> (infer_slipstream_swap_fee keccak256 addr layout swap ctx s = Inr f
        \<longrightarrow> infer_slipstream_swap_fee keccak256 addr layout swap ctx u = Inr f)
    \<and> (derive_slipstream_liquidity keccak256 addr layout event ctx s = Inr us
        \<longrightarrow> derive_slipstream_liquidity keccak256 addr layout event ctx u = Inr us)
    \<and> (staking_derive keccak256 pool ctx ev s = Inr us \<longrightarrow> staking_derive keccak256 pool ctx ev u = Inr us)"
proof (intro conjI impI allI)
  fix t us'
  assume "derive_uniswap_v3_swap keccak256 addr layout fee swap ctx s = Inr us" "view_le t u"
    "derive_uniswap_v3_swap keccak256 addr layout fee swap ctx t = Inr us'"
  then show "us' = us" using uniswap_swap.results_agree [OF _ assms] by blast
qed (rule uniswap_swap.result_survives_warming [OF assms] slipstream_swap.result_survives_warming [OF assms]
    slipstream_inference.result_survives_warming [OF assms] slipstream_liquidity.result_survives_warming [OF assms]
    staking.result_survives_warming [OF assms], assumption)+

theorem transitions_fail_closed_witness:
  "derive_uniswap_v3_swap demo_hash demo_pool (layout_uniswap 10) 3000 demo_swap demo_ctx
     (\<lambda>a k. if demo_view a k = None then Some 7 else demo_view a k) = Inr demo_updates"
proof -
  have "view_le demo_view (\<lambda>a k. if demo_view a k = None then Some 7 else demo_view a k)"
    by (simp add: view_le_def)
  from transitions_fail_closed [OF this] demo_run show ?thesis by blast
qed

section \<open>Tick prices\<close>

lemma final_tick_unique:
  assumes "validate_final_tick p t zfo = Inr ()" "validate_final_tick p t' zfo = Inr ()" "t < t'"
  shows "zfo \<and> t' = t + 1 \<and> sqrt_ratio_at_tick t' = Inr p"
proof (rule ccontr)
  note d = validate_final_tick_okD [OF assms(1)] and d' = validate_final_tick_okD [OF assms(2)]
  obtain lower upper where r: "sqrt_ratio_at_tick t' = Inr lower" "lower \<le> p"
    "sqrt_ratio_at_tick (t + 1) = Inr upper" "p < upper \<or> zfo \<and> p = upper"
    using d(5) d'(3) by blast
  assume neg: "\<not> ?thesis"
  have lt: "t + 1 \<le> t'" using assms(3) by auto
  have "upper \<le> lower" using sqrt_ratio_at_tick_mono [OF r(3,1) lt] .
  with r(2,4) have p: "zfo" "p = upper" "lower = p" by auto
  with neg r(1) have "t + 1 < t'" using lt by auto
  then have "upper < lower" by (rule sqrt_ratio_at_tick_strict_mono [OF r(3,1)])
  with p show False by simp
qed

text \<open>
  C6. Prices and ticks determine each other. The tick price is defined on the whole tick range, strictly increasing, and
  lies between the pool's price limits. The final-tick check accepts two different ticks for one price only at the end of
  a downward step on the price of a tick, and then they are that tick and the one below it.
\<close>

theorem tick_price_determines_tick:
  assumes "t < t'"
  shows "(- 887272 \<le> t \<and> t' \<le> 887272 \<longrightarrow> (\<exists>p p'. sqrt_ratio_at_tick t = Inr p \<and> sqrt_ratio_at_tick t' = Inr p' \<and> p < p'
      \<and> 4295128739 \<le> p \<and> p' \<le> 0xfffd8963efd1fc6a506488495d951d5263988d26))
    \<and> (\<forall>p zfo. validate_final_tick p t zfo = Inr () \<and> validate_final_tick p t' zfo = Inr ()
      \<longrightarrow> zfo \<and> t' = t + 1 \<and> sqrt_ratio_at_tick t' = Inr p)"
proof -
  have "\<exists>p p'. sqrt_ratio_at_tick t = Inr p \<and> sqrt_ratio_at_tick t' = Inr p' \<and> p < p'
      \<and> 4295128739 \<le> p \<and> p' \<le> 0xfffd8963efd1fc6a506488495d951d5263988d26" if "- 887272 \<le> t" "t' \<le> 887272"
  proof -
    from assms that sqrt_ratio_at_tick_total [of t] sqrt_ratio_at_tick_total [of t'] obtain p p' where
      r: "sqrt_ratio_at_tick t = Inr p" "sqrt_ratio_at_tick t' = Inr p'" by auto
    show ?thesis
      using r sqrt_ratio_at_tick_strict_mono [OF r] sqrt_ratio_at_tick_mono [OF sqrt_ratio_min r(1)]
        sqrt_ratio_at_tick_mono [OF r(2) sqrt_ratio_max] assms that by blast
  qed
  then show ?thesis using final_tick_unique [OF _ _ assms] by blast
qed

theorem tick_price_determines_tick_witness:
  "(\<exists>p p'. sqrt_ratio_at_tick (- 1) = Inr p \<and> sqrt_ratio_at_tick 5 = Inr p' \<and> p < p')
    \<and> sqrt_ratio_at_tick 1 = Inr 79232123823359799118286999568"
proof
  show "\<exists>p p'. sqrt_ratio_at_tick (- 1) = Inr p \<and> sqrt_ratio_at_tick 5 = Inr p' \<and> p < p'"
    using tick_price_determines_tick [of "- 1" 5] by auto
  have "validate_final_tick 79232123823359799118286999568 0 True = Inr ()"
    "validate_final_tick 79232123823359799118286999568 1 True = Inr ()"
    by (simp_all add: validate_final_tick_def Let_def sqrt_ratio_min sqrt_ratio_max sqrt_ratio_zero demo_prices)
  then show "sqrt_ratio_at_tick 1 = Inr 79232123823359799118286999568" using tick_price_determines_tick [of 0 1] by auto
qed

section \<open>Ownership\<close>

text \<open>
  C7. The ownership index says what the ownership records say. In every index that the mutations reach, the pools of a slot are those
  that declared the slot or its whole account, all of them are associated with the account, and the pools of an emitter
  and of an adapter are those whose records name it; a pool is active under its key, found by its handler, and has an active
  adapter; tracked work and resync requests belong to live owners. Removing a pool takes exactly that generation out of
  every lookup and returns exactly its work and requests. And a registry whose pools all have an adapter gets such an
  index without an error, with one record per tracked pool.
\<close>

theorem ownership_index_consistent:
  fixes handler_id :: "pool_instance_id \<Rightarrow> 'h" and r :: "'acc adapter_registry" and i :: "('h, 'r) ownership_index"
  shows "(ownership_reachable handler_id i \<longrightarrow>
      pools_for_slot i (a, s) = {p. \<exists>x. oi_pools i p = Some x
        \<and> ((a, s) \<in> set (dep_slots (po_dependencies x)) \<or> a \<in> set (dep_whole_accounts (po_dependencies x)))}
      \<and> pools_for_slot i (a, s) \<subseteq> pools_for_address i a
      \<and> pools_for_address i a = {p. \<exists>x. oi_pools i p = Some x \<and> a \<in> set (dep_associated_addresses (po_dependencies x))}
      \<and> pools_for_emitter i a = {p. \<exists>x. oi_pools i p = Some x \<and> a \<in> set (po_event_emitters x)}
      \<and> pools_for_adapter i ad = {p. adapter_for_pool i p = Some ad} \<and> discovery_for_adapter i ad = {d. adapter_for_discovery i d = Some ad}
      \<and> (\<forall>p x. oi_pools i p = Some x \<longrightarrow> active_pool i (inst_key p) = Some p \<and> pool_for_handler i (po_handler x) = Some p
          \<and> active_adapter i (aid_key (po_adapter x)) = Some (po_adapter x))
      \<and> (\<forall>ow. \<forall>w \<in> work_for_owner i ow. rw_owner w = ow \<and> validate_owner i ow = Inr ())
      \<and> (\<forall>req p. resync_owner i req = Some p \<longleftrightarrow> req \<in> set (resyncs_for_pool resync_text i p))
      \<and> (\<forall>p removal i'. remove_pool resync_text i p = Some (removal, i') \<longrightarrow> ownership_reachable handler_id i'
          \<and> rem_work removal = work_for_owner i (PoolOwner p) \<and> rem_resyncs removal = resyncs_for_pool resync_text i p
          \<and> active_pool i' (inst_key p) = None
          \<and> pools_for_slot i' (a, s) = pools_for_slot i (a, s) - {p} \<and> pools_for_address i' a = pools_for_address i a - {p}
          \<and> pools_for_emitter i' a = pools_for_emitter i a - {p}
          \<and> (\<forall>ow. work_for_owner i' ow = (if ow = PoolOwner p then {} else work_for_owner i ow))
          \<and> (\<forall>req. resync_owner i' req = (if resync_owner i req = Some p then None else resync_owner i req))))
    \<and> (registry_ok r \<and> iterates order (pools r) \<and> distinct families \<and> set families = family_key primary ` ran (adapters r)
        \<and> (\<forall>k pool. pools r k = Some pool \<longrightarrow> adapters r (reg_protocol pool) \<noteq> None)
        \<and> inj handler_id \<and> (\<forall>adapter pool. dependencies_ok (dependencies_of adapter pool))
      \<longrightarrow> (\<exists>j :: ('h, 'r) ownership_index. from_registry handler_id primary dependencies_of families order r = Inr j
        \<and> ownership_reachable handler_id j
        \<and> (\<forall>p. oi_pools j p \<noteq> None \<longleftrightarrow> inst_generation p = 0 \<and> pools r (inst_key p) \<noteq> None)
        \<and> (\<forall>k pool. pools r k = Some pool \<longrightarrow> (\<exists>adapter x. adapters r (reg_protocol pool) = Some adapter \<and> oi_pools j (generation0 k) = Some x
            \<and> po_dependencies x = dependencies_of adapter pool
            \<and> set (po_event_emitters x) = src_emitter ` set (event_sources_for r pool)))))"
proof (intro conjI [of "_ \<longrightarrow> _"] impI, goal_cases)
  case 1
  note ok = ownership_reachable_ok [OF this]
  have "active_pool i (inst_key p) = Some p \<and> pool_for_handler i (po_handler x) = Some p
      \<and> active_adapter i (aid_key (po_adapter x)) = Some (po_adapter x)" if "oi_pools i p = Some x" for p x
    using pools_indexedD(1) [OF _ that] ok by (simp add: index_ok_def families_indexed_def active_pool_def pool_for_handler_def active_adapter_def)
  moreover have "rw_owner w = ow \<and> validate_owner i ow = Inr ()" if "w \<in> work_for_owner i ow" for w ow
    using ok that by (simp add: index_ok_def work_indexed_def work_for_owner_def)
  ultimately show ?case
    using 1 lookups_exact [OF ok] slot_owners_associated [OF ok] resync_owner_exact [OF ok] remove_pool_lookups [OF ok]
    by (intro conjI allI ballI impI) (auto intro: ownership_reachable_step own_remove_pool)
next
  case 2
  then obtain j :: "('h, 'r) ownership_index" where
    "from_registry handler_id primary dependencies_of families order r = Inr j" "ownership_reachable handler_id j"
    "\<forall>p. oi_pools j p \<noteq> None \<longleftrightarrow> inst_generation p = 0 \<and> pools r (inst_key p) \<noteq> None"
    and records: "\<forall>k pool. pools r k = Some pool \<longrightarrow> (\<exists>a. adapters r (reg_protocol pool) = Some a
        \<and> oi_pools j (generation0 k) = Some (registered_ownership handler_id primary dependencies_of r a pool))"
    using from_registry_total [where r = r and order = order and families = families and primary = primary
        and handler_id = handler_id and dependencies_of = dependencies_of] by blast
  moreover have "\<exists>adapter x. adapters r (reg_protocol pool) = Some adapter \<and> oi_pools j (generation0 k) = Some x
      \<and> po_dependencies x = dependencies_of adapter pool \<and> set (po_event_emitters x) = src_emitter ` set (event_sources_for r pool)"
    if "pools r k = Some pool" for k pool
  proof -
    from that records obtain adapter where "adapters r (reg_protocol pool) = Some adapter"
      "oi_pools j (generation0 k) = Some (registered_ownership handler_id primary dependencies_of r adapter pool)" by blast
    then show ?thesis by (simp add: registered_ownership_def)
  qed
  ultimately show ?case by blast
qed

theorem ownership_index_consistent_witness:
  "\<exists>j :: (pool_instance_id, nat) ownership_index.
    from_registry id (\<lambda>_. UniswapV2) (\<lambda>_. default_state_dependencies) [pair_family] [pair_key] pair_registry = Inr j
    \<and> pools_for_address j 5 = {generation0 pair_key}"
proof -
  have "set [pair_family] = family_key (\<lambda>_. UniswapV2) ` ran (adapters pair_registry)" "iterates [pair_key] (pools pair_registry)"
    "\<forall>k pool. pools pair_registry k = Some pool \<longrightarrow> adapters pair_registry (reg_protocol pool) \<noteq> None"
    by (simp_all add: pair_registry_select pair_family_key iterates_def pair_registration)
  then have hyp: "registry_ok pair_registry \<and> iterates [pair_key] (pools pair_registry) \<and> distinct [pair_family]
      \<and> set [pair_family] = family_key (\<lambda>_. UniswapV2) ` ran (adapters pair_registry)
      \<and> (\<forall>k pool. pools pair_registry k = Some pool \<longrightarrow> adapters pair_registry (reg_protocol pool) \<noteq> None)
      \<and> inj (id :: pool_instance_id \<Rightarrow> _) \<and> (\<forall>adapter pool. dependencies_ok ((\<lambda>_ :: amm_adapter. default_state_dependencies) adapter pool))"
    using pair_registry_ok by simp
  from mp [OF conjunct2 [OF ownership_index_consistent [where 'r = nat]] hyp]
  obtain j :: "(pool_instance_id, nat) ownership_index" where
    j: "from_registry id (\<lambda>_. UniswapV2) (\<lambda>_. default_state_dependencies) [pair_family] [pair_key] pair_registry = Inr j"
    "ownership_reachable id j" "\<And>p. oi_pools j p \<noteq> None \<longleftrightarrow> inst_generation p = 0 \<and> pools pair_registry (inst_key p) \<noteq> None"
    "\<forall>k pool. pools pair_registry k = Some pool \<longrightarrow> (\<exists>adapter x. adapters pair_registry (reg_protocol pool) = Some adapter
       \<and> oi_pools j (generation0 k) = Some x \<and> po_dependencies x = default_state_dependencies pool
       \<and> set (po_event_emitters x) = src_emitter ` set (event_sources_for pair_registry pool))" by blast
  obtain x where x: "oi_pools j (generation0 pair_key) = Some x" "po_dependencies x = default_state_dependencies (registration_new pair_key)"
    using j(4) [rule_format, of pair_key "registration_new pair_key"] by (auto simp: pair_registry_select)
  have only: "p = generation0 pair_key" if "oi_pools j p \<noteq> None" for p
    using j(3) [of p] that by (cases p) (auto simp: pair_registry_select generation0_def split: if_splits)
  have "pools_for_address j 5 = {p. \<exists>x. oi_pools j p = Some x \<and> 5 \<in> set (dep_associated_addresses (po_dependencies x))}"
    by (rule conjunct1 [OF conjunct2 [OF conjunct2 [OF mp [OF conjunct1 [OF ownership_index_consistent] j(2)]]]])
  also have "\<dots> = {generation0 pair_key}" using x only pair_dependencies by auto
  finally show ?thesis using j(1) by blast
qed

section \<open>Step arithmetic\<close>

text \<open>
  C8. \<open>maximum_input_budget\<close> is exact: an input budget moves the price from \<open>start\<close>, in the direction of the swap,
  no further than \<open>e\<close>, in the sense of the contract's rounding in \<open>next_sqrt_from_input\<close>, if and only if it is at
  most the budget the function returns. This equivalence replaces a search over budgets.
\<close>

theorem input_budget_exact:
  assumes "uint l < 2 ^ 128" "uint start < 2 ^ 160" "uint e < 2 ^ 160"
    and "if zfo then e \<le> start \<and> 1 < uint e else start \<le> e"
    and "next_sqrt_from_input start l b zfo = Inr p"
  shows "(\<exists>m. maximum_input_budget start e l zfo = Inr m \<and> ((if zfo then e \<le> p else p \<le> e) \<longleftrightarrow> b \<le> m))
    \<and> (if zfo then p \<le> start else start \<le> p)"
  using maximum_input_budget_exact [OF assms] next_sqrt_from_input_direction [OF assms(1,5)] by blast

theorem input_budget_exact_witness:
  "\<exists>m. maximum_input_budget (2 ^ 96) (2 ^ 96 + 2) (2 ^ 96) False = Inr m \<and> (1 :: u256) \<le> m"
  using input_budget_exact [OF _ _ _ _ demo_next_sqrt, of "2 ^ 96 + 2"] by simp

text \<open>
  C9. \<open>amount0_delta\<close> rounds once and is total on the pool's ranges: its single 512-bit quotient equals
  the contract's two successive roundings, by the upper and then by the lower price.
\<close>

theorem amount0_single_rounding:
  assumes "lower \<le> upper" "uint upper < 2 ^ 160" "uint l < 2 ^ 128" "lower \<noteq> 0"
  shows "\<exists>v. amount0_delta lower upper l up = Inr v
    \<and> uint v = round_div up (round_div up (uint l * 2 ^ 96 * (uint upper - uint lower)) (uint upper)) (uint lower)"
  using amount0_delta_total [OF assms, of up] amount0_delta_two_stage [OF assms, of up] by blast

theorem amount0_single_rounding_witness:
  "\<exists>v. amount0_delta (2 ^ 96) (2 ^ 97) 5 True = Inr v \<and> uint v = 3"
  using amount0_single_rounding [of "2 ^ 96" "2 ^ 97" 5 True] by (simp add: round_div_def)

section \<open>Packed words and the oracle\<close>

text \<open>
  C10. Packed words round-trip: decoding the \<open>slot0\<close> that \<open>encode_final\<close> packed gives back the new price, tick,
  observation index and cardinality, the parent's next cardinality and fee protocol, and the parent's bytes
  above (the lock among them); and every observation the code produces, decoded or advanced to a new
  timestamp, is what decoding its storage word gives.
\<close>

theorem packed_words_roundtrip:
  assumes "uint p < 2 ^ 160" "- (2 ^ 23) \<le> t" "t < 2 ^ 23"
  shows "slot0_decode (encode_final (slot0_decode raw) p t oi oc)
    = (slot0_decode raw)\<lparr>s0_raw := encode_final (slot0_decode raw) p t oi oc, s0_sqrt_price_x96 := p,
        s0_tick := t, s0_observation_index := oi, s0_observation_cardinality := oc\<rparr>
    \<and> field 240 16 (encode_final (slot0_decode raw) p t oi oc) = field 240 16 raw
    \<and> observation_decode (observation_encode (observation_decode raw)) = observation_decode raw
    \<and> observation_decode (observation_encode (observation_transform obs now tick l)) = observation_transform obs now tick l"
  using slot0_roundtrip [OF assms] observation_roundtrip wf_observation_decode wf_observation_transform by blast

theorem packed_words_roundtrip_witness:
  "s0_tick (slot0_decode (encode_final (slot0_decode demo_slot0) (2 ^ 96) (- 5) 3 4)) = - 5"
  using packed_words_roundtrip [of "2 ^ 96" "- 5" demo_slot0 3 4] by simp

text \<open>
  C11. The oracle ring: an advance keeps the index inside the cardinality, grows the cardinality only
  from the last slot and only up to the announced next one, and either rewrites nothing (same
  timestamp) or writes the transformed current observation to the cyclic successor. The transformation, in integers:
  with the time difference taken modulo \<open>2 ^ 32\<close>, the tick accumulator grows by tick times time in the 56-bit
  signed ring, and the seconds per liquidity by time over liquidity (over one when there is none) in the 160-bit ring.
\<close>

theorem oracle_ring:
  assumes "advance_oracle addr surface s l ctx state = Inr (i, c, w, now)"
  shows "i < c \<and> s0_observation_cardinality s \<le> c \<and> c \<le> s0_observation_cardinality_next s
    \<and> (c \<noteq> s0_observation_cardinality s \<longrightarrow> s0_observation_index s = s0_observation_cardinality s - 1)
    \<and> (\<exists>raw ts obs. state addr (observations_base_slot surface + ucast (s0_observation_index s)) = Some raw
      \<and> obs = observation_decode raw \<and> event_timestamp ctx = Inr ts \<and> obs_initialized obs
      \<and> obs_timestamp now = ts \<and> obs_initialized now
      \<and> sint (obs_tick_cumulative now)
        = signed_take_bit 55 (sint (obs_tick_cumulative obs) + s0_tick s * ((uint ts - uint (obs_timestamp obs)) mod 2 ^ 32))
      \<and> uint (obs_seconds_per_liquidity_cumulative_x128 now)
        = (uint (obs_seconds_per_liquidity_cumulative_x128 obs)
           + (uint ts - uint (obs_timestamp obs)) mod 2 ^ 32 * 2 ^ 128 div max 1 (uint l)) mod 2 ^ 160
      \<and> (if obs_timestamp obs = ts
         then w = None \<and> i = s0_observation_index s \<and> c = s0_observation_cardinality s
         else w = Some (observations_base_slot surface + ucast i, observation_encode now)
           \<and> uint i = (uint (s0_observation_index s) + 1) mod uint c))"
proof -
  from advance_oracle_okD [OF assms] obtain raw ts where
    a: "state addr (observations_base_slot surface + ucast (s0_observation_index s)) = Some raw"
    "event_timestamp ctx = Inr ts" "obs_initialized (observation_decode raw)"
    "now = observation_transform (observation_decode raw) ts (s0_tick s) l"
    "if obs_timestamp (observation_decode raw) = ts
         then w = None \<and> i = s0_observation_index s \<and> c = s0_observation_cardinality s
         else w = Some (observations_base_slot surface + ucast i, observation_encode now)
           \<and> uint i = (uint (s0_observation_index s) + 1) mod uint c" by blast
  note spec = observation_transform_spec [of "observation_decode raw" ts "s0_tick s" l, folded a(4)]
  show ?thesis
    by (intro conjI impI advance_oracle_okD(1-4) [OF assms] exI [of _ raw] exI [of _ ts] exI [of _ "observation_decode raw"]
        refl a spec) assumption
qed

theorem oracle_ring_witness:
  "advance_oracle demo_pool UNISWAP_V3_SURFACE (sp_slot0 demo_parent) 1000000000000000000 demo_ctx mint_view
    = Inr (lp_advance mint_parent) \<and> (0 :: u16) < 1"
  using oracle_ring [OF mint_advance [unfolded mint_parent_def liquidity_parent.simps]] mint_advance by blast

text \<open>
  C12. Crossing a tick is reversible: crossing it twice at the same growth restores the packed outside word, one
  crossing subtracts each accumulator in its own ring and keeps the initialized byte, and crossing it back
  undoes the change of the liquidity, which is the integer sum within 128 bits.
\<close>

theorem crossing_reversible:
  assumes "- (2 ^ 127) < net" "net < 2 ^ 127" "uint liq < 2 ^ 128" "apply_liquidity_net liq net zfo = Inr r"
  shows "cross_tick_word (cross_tick_word raw c spl t) c spl t = raw
    \<and> uint (field 0 56 (cross_tick_word raw c spl t)) = (uint c - uint (field 0 56 raw)) mod 2 ^ 56
    \<and> uint (field 56 160 (cross_tick_word raw c spl t)) = (uint spl - uint (field 56 160 raw)) mod 2 ^ 160
    \<and> uint (field 216 32 (cross_tick_word raw c spl t)) = (uint t - uint (field 216 32 raw)) mod 2 ^ 32
    \<and> field 248 8 (cross_tick_word raw c spl t) = field 248 8 raw
    \<and> apply_liquidity_net r net (\<not> zfo) = Inr liq \<and> uint r = uint liq + (if zfo then - net else net) \<and> uint r < 2 ^ 128"
  using apply_liquidity_net_inverse [OF assms] assms
  by (intro conjI cross_tick_word_involution cross_tick_word_fields) (simp_all add: apply_liquidity_net_eq_Inr)

theorem crossing_reversible_witness:
  "apply_liquidity_net 70 30 True = Inr (40 :: u256) \<and> apply_liquidity_net 40 30 False = Inr 70"
proof -
  have "apply_liquidity_net 70 30 True = Inr 40" by (simp add: apply_liquidity_net_eq_Inr)
  with crossing_reversible [OF _ _ _ this] show ?thesis by simp
qed

section \<open>Initialized ticks\<close>

text \<open>
  C13. The boundary search is exact: the boundary it returns lies in the searched word, in the direction of the
  swap. It is an initialized tick or the last position of the word in that direction, the bitmap bit of the
  returned position says which, and no initialized tick lies between the current tick and the boundary.
\<close>

theorem next_boundary_nearest:
  assumes "next_step_boundary keccak256 addr layout t zfo state = Inr sb" "0 < tick_spacing layout"
  shows "\<exists>bitmap n c. c = t div tick_spacing layout + (if zfo then 0 else 1)
    \<and> state addr (v3_tick_bitmap_storage_key_with_base keccak256 (word_of_int (c div 256)) (tick_bitmap_base_slot layout)) = Some bitmap
    \<and> sb_tick sb = clamp_tick (n * tick_spacing layout) \<and> n div 256 = c div 256
    \<and> (if zfo then n \<le> c else c \<le> n) \<and> (sb_initialized sb \<longleftrightarrow> bit bitmap (nat (n mod 256)))
    \<and> (\<not> sb_initialized sb \<longrightarrow> n mod 256 = (if zfo then 0 else 255))
    \<and> (\<forall>m. (if zfo then n < m \<and> m \<le> c else c \<le> m \<and> m < n) \<longrightarrow> \<not> bit bitmap (nat (m mod 256)))"
proof -
  define c where "c = t div tick_spacing layout + (if zfo then 0 else 1)"
  from next_step_boundary_okD [OF assms, folded c_def] obtain bitmap n where
    b: "state addr (v3_tick_bitmap_storage_key_with_base keccak256 (word_of_int (c div 256)) (tick_bitmap_base_slot layout)) = Some bitmap"
    "search_word bitmap (nat (c mod 256)) c zfo = (n, sb_initialized sb)" "sb_tick sb = clamp_tick (n * tick_spacing layout)"
    by blast
  have "n div 256 = c div 256 \<and> (if zfo then n \<le> c else c \<le> n) \<and> (sb_initialized sb \<longleftrightarrow> bit bitmap (nat (n mod 256)))
    \<and> (\<not> sb_initialized sb \<longrightarrow> n mod 256 = (if zfo then 0 else 255))
    \<and> (\<forall>m. (if zfo then n < m \<and> m \<le> c else c \<le> m \<and> m < n) \<longrightarrow> \<not> bit bitmap (nat (m mod 256)))"
  proof (cases zfo)
    case True
    then have "zfo = True" by simp
    show ?thesis using search_down_compressed [OF b(2) [unfolded \<open>zfo = True\<close>]] \<open>zfo = True\<close>
      by (simp only: if_True) blast
  next
    case False
    then have "zfo = False" by simp
    show ?thesis using search_up_compressed [OF b(2) [unfolded \<open>zfo = False\<close>]] \<open>zfo = False\<close>
      by (simp only: if_False) blast
  qed
  with b c_def show ?thesis by blast
qed

theorem next_boundary_nearest_witness:
  "\<exists>sb bitmap n. next_step_boundary demo_hash demo_pool (layout_uniswap 10) 0 False demo_view = Inr sb
    \<and> demo_view demo_pool (v3_tick_bitmap_storage_key_with_base demo_hash 0 (tick_bitmap_base_slot (layout_uniswap 10))) = Some bitmap
    \<and> sb_tick sb = clamp_tick (n * 10) \<and> n div 256 = 0 \<and> 1 \<le> n \<and> n mod 256 = 255
    \<and> (\<forall>m. 1 \<le> m \<and> m < n \<longrightarrow> \<not> bit bitmap (nat (m mod 256)))"
  using next_boundary_nearest [OF demo_boundary] demo_boundary by auto

section \<open>Canonical Mint and Burn\<close>

text \<open>
  C14. An exact Mint or Burn (no cold slots) resolves both boundaries: its batch is the four words of
  each tick, the changed bitmap words and the in-range writes; after it, the bitmap bit of each
  boundary is set exactly when its tick holds liquidity, and the active liquidity has moved by the amount, within
  128 bits, exactly when the current tick lies in the range. The only assumption about the hash is
  that it separates the two bitmap words when the boundaries live in different ones.
\<close>

theorem liquidity_bitmap_consistent:
  assumes "derive_uniswap_v3_liquidity keccak256 addr layout event ctx state = Inr tr"
    and "dl_amount event \<noteq> 0" "clt_cold_slots tr = []"
    and "word_of_int (dl_tick_lower event div tick_spacing layout div 256)
        \<noteq> (word_of_int (dl_tick_upper event div tick_spacing layout div 256) :: i16)
      \<Longrightarrow> boundary_slot keccak256 layout (dl_tick_lower event) \<noteq> boundary_slot keccak256 layout (dl_tick_upper event)"
  shows "\<exists>parent bm1 bm2 u1 u2 bitmaps range.
    load_liquidity_parent addr layout ctx state = Inr parent
    \<and> update_canonical_liquidity_tick keccak256 (liquidity_env_of addr layout event parent) (dl_tick_lower event) False bm1 state = Inr u1
    \<and> update_canonical_liquidity_tick keccak256 (liquidity_env_of addr layout event parent) (dl_tick_upper event) True bm2 state = Inr u2
    \<and> in_range_writes addr layout event parent = Inr range
    \<and> clt_updates tr = tick_slot_writes addr u1 @ tick_slot_writes addr u2 @ bitmaps @ range
    \<and> exact_writes_to addr bitmaps
    \<and> (\<exists>v. overlay bitmaps state addr (boundary_slot keccak256 layout (dl_tick_lower event)) = Some v
        \<and> (bit v (boundary_bit layout (dl_tick_lower event)) \<longleftrightarrow> ctu_is_initialized u1))
    \<and> (\<exists>v. overlay bitmaps state addr (boundary_slot keccak256 layout (dl_tick_upper event)) = Some v
        \<and> (bit v (boundary_bit layout (dl_tick_upper event)) \<longleftrightarrow> ctu_is_initialized u2))
    \<and> (if dl_tick_lower event \<le> s0_tick (lp_slot0 parent) \<and> s0_tick (lp_slot0 parent) < dl_tick_upper event
       then \<exists>l. last range = Slot addr (liquidity_slot layout) l \<and> range \<noteq> [] \<and> uint l < 2 ^ 128
         \<and> uint l = uint (lp_active_liquidity parent)
             + (if dl_is_mint event then uint (dl_amount event) else - uint (dl_amount event))
       else range = [])"
  using derive_liquidity_exact [OF assms] in_range_writes_okD by blast

theorem liquidity_bitmap_consistent_witness:
  "\<exists>u1 u2 bitmaps range. clt_updates mint_transition
      = tick_slot_writes demo_pool u1 @ tick_slot_writes demo_pool u2 @ bitmaps @ range
    \<and> exact_writes_to demo_pool bitmaps"
proof -
  have "boundary_slot mint_hash (layout_uniswap 10) (dl_tick_lower mint_event) = 65286"
    "boundary_slot mint_hash (layout_uniswap 10) (dl_tick_upper mint_event) = 6"
    using mint_keys(1,2) by (simp_all add: boundary_slot_def mint_event_def)
  moreover have "dl_amount mint_event \<noteq> 0" "clt_cold_slots mint_transition = []"
    by (simp_all add: mint_event_def mint_transition_def)
  ultimately show ?thesis using liquidity_bitmap_consistent [OF mint_run] by simp blast
qed

text \<open>
  C15. The update of a boundary tick: \<open>liquidityGross\<close> moves by the signed amount and stays within the
  spacing's cap, \<open>liquidityNet\<close> moves by the same amount with the opposite sign at an upper
  boundary, the outside words change only when the tick becomes initialized, and a tick whose
  gross reaches zero is cleared.
\<close>

theorem tick_update_exact:
  assumes "0 \<le> le_amount env" "le_amount env < 2 ^ 127" "uint (le_max_liquidity_per_tick env) < 2 ^ 128"
    and "update_canonical_liquidity_tick keccak256 env t upper b s = Inr u"
  shows "\<exists>words. read_tick_words env t b (ctu_keys u) s = Inr words \<and> length (ctu_words u) = 4
    \<and> tick_gross (ctu_words u ! 0) = tick_gross (words ! 0) + signed_amount env
    \<and> tick_gross (ctu_words u ! 0) \<le> uint (le_max_liquidity_per_tick env)
    \<and> (ctu_was_initialized u \<longleftrightarrow> tick_gross (words ! 0) \<noteq> 0)
    \<and> (ctu_is_initialized u \<longleftrightarrow> tick_gross (ctu_words u ! 0) \<noteq> 0)
    \<and> (if ctu_is_initialized u
       then tick_net (ctu_words u ! 0) = tick_net (words ! 0) + (if upper then - signed_amount env else signed_amount env)
         \<and> tl (ctu_words u) = tl (if ctu_was_initialized u then words else outside_words env t words)
       else ctu_words u = [0, 0, 0, 0])"
  by (rule tick_update_effect [OF assms])

theorem tick_update_exact_witness:
  "length (ctu_words mint_upper) = 4 \<and> (ctu_is_initialized mint_upper \<longleftrightarrow> tick_gross (ctu_words mint_upper ! 0) \<noteq> 0)"
  using tick_update_exact [OF _ _ _ mint_ticks(2)]
  by (auto simp: mint_env_def liquidity_env_of_def mint_event_def mint_parent_def)

text \<open>
  C16. A Burn undoes a Mint: replayed on the state the Mint of a boundary leaves, the Burn of the same
  amount restores the four parent words of the tick and its initialized state.
\<close>

theorem mint_then_burn:
  assumes "0 < le_amount env" "le_amount env < 2 ^ 127" "uint (le_max_liquidity_per_tick env) < 2 ^ 128"
    and "le_is_mint env" "update_canonical_liquidity_tick keccak256 env t upper b s = Inr u"
  shows "\<exists>u' words. read_tick_words env t b (ctu_keys u) s = Inr words
    \<and> update_canonical_liquidity_tick keccak256 (env\<lparr>le_is_mint := False\<rparr>) t upper True
        (overlay (tick_slot_writes (le_address env) u) s) = Inr u'
    \<and> ctu_keys u' = ctu_keys u \<and> ctu_words u' = words
    \<and> ctu_was_initialized u' \<and> ctu_is_initialized u' = ctu_was_initialized u"
proof -
  have "length (ctu_words u) = 4"
    using tick_update_effect [OF less_imp_le [OF assms(1)] assms(2,3,5)] by blast
  with assms tick_writes_visible [OF assms(5)] show ?thesis by (intro mint_burn_restores) simp_all
qed

theorem mint_then_burn_witness:
  "\<exists>u' words. update_canonical_liquidity_tick mint_hash (mint_env\<lparr>le_is_mint := False\<rparr>) 20 True True
        (overlay (tick_slot_writes demo_pool mint_upper) mint_view) = Inr u' \<and> ctu_words u' = words
    \<and> \<not> ctu_is_initialized u'"
proof -
  have "0 < le_amount mint_env" "le_amount mint_env < 2 ^ 127" "uint (le_max_liquidity_per_tick mint_env) < 2 ^ 128"
    "le_is_mint mint_env" "le_address mint_env = demo_pool" "\<not> ctu_was_initialized mint_upper"
    by (simp_all add: mint_env_def liquidity_env_of_def mint_event_def mint_parent_def mint_upper_def)
  then show ?thesis using mint_then_burn [OF _ _ _ _ mint_ticks(2)] by auto
qed

section \<open>Canonical accounting events\<close>

text \<open>
  C17. A derived flash charges at least the quoted fee, rounded up, on both tokens and
  distributes exactly what was paid: the protocol's share goes to the token's lane of the
  protocol fees modulo \<open>2 ^ 128\<close>, and the rest raises the token's fee growth by its share per
  unit of the nonzero active liquidity. Price, tick, oracle and liquidity keep their words.
\<close>

theorem flash_accounting:
  assumes "derive_uniswap_v3_flash addr layout fee flash ctx state = Inr us"
  shows "\<exists>raw liquidity g0 g1 pf h0 h1 pf'.
    state addr 0 = Some raw \<and> state addr 4 = Some liquidity \<and> 0 < uint liquidity \<and> uint liquidity < 2 ^ 128
    \<and> state addr 1 = Some g0 \<and> state addr 2 = Some g1 \<and> state addr 3 = Some pf
    \<and> us = [Slot addr 1 h0, Slot addr 2 h1, Slot addr 3 pf']
    \<and> ceil_div (uint (fl_amount0 flash) * uint fee) 1000000 \<le> uint (fl_paid0 flash)
    \<and> ceil_div (uint (fl_amount1 flash) * uint fee) 1000000 \<le> uint (fl_paid1 flash)
    \<and> uint h0 = (uint g0 + flash_growth liquidity (fl_paid0 flash) (s0_fee_protocol (slot0_decode raw) mod 16)) mod 2 ^ 256
    \<and> uint h1 = (uint g1 + flash_growth liquidity (fl_paid1 flash) (drop_bit 4 (s0_fee_protocol (slot0_decode raw)))) mod 2 ^ 256
    \<and> lane0 pf' = (lane0 pf + flash_share (fl_paid0 flash) (s0_fee_protocol (slot0_decode raw) mod 16)) mod 2 ^ 128
    \<and> lane1 pf' = (lane1 pf + flash_share (fl_paid1 flash) (drop_bit 4 (s0_fee_protocol (slot0_decode raw)))) mod 2 ^ 128"
  by (rule derive_flash_okD [OF assms])

theorem flash_accounting_witness:
  "\<exists>raw. demo_view demo_pool 0 = Some raw
    \<and> ceil_div (uint (fl_amount0 demo_flash) * uint (3000 :: u32)) 1000000 \<le> uint (fl_paid0 demo_flash)
    \<and> lane0 759 = (lane0 9 + flash_share (fl_paid0 demo_flash) (s0_fee_protocol (slot0_decode raw) mod 16)) mod 2 ^ 128"
  using flash_accounting [OF demo_flash_run] demo_view_words by auto

text \<open>
  C18. The two events that governance and integrators raise. After a derived change of the protocol fee, the divisors that
  swaps and flashes read from \<open>slot0\<close>, the low nibble for token0 and the high one for token1, are the event's new values and
  the event's old values are those of the parent word. A derived growth of the observation ring reserves exactly the new
  slots of the ring, each with an observation that still reads as uninitialized, and raises the next cardinality of
  \<open>slot0\<close> from the event's old to its new value. Every other field of the word is kept by both.
\<close>

theorem governance_events_read_back:
  "(\<forall>us. derive_uniswap_v3_set_fee_protocol addr layout fee_event ctx state = Inr us \<longrightarrow>
      (\<exists>raw word. state addr 0 = Some raw \<and> us = [Slot addr 0 word]
        \<and> s0_fee_protocol (slot0_decode raw) = fp_old0 fee_event OR push_bit 4 (fp_old1 fee_event)
        \<and> slot0_decode word = (slot0_decode raw)\<lparr>s0_raw := word, s0_fee_protocol := fp_new0 fee_event OR push_bit 4 (fp_new1 fee_event)\<rparr>
        \<and> field 240 16 word = field 240 16 raw
        \<and> s0_fee_protocol (slot0_decode word) AND 0x0f = fp_new0 fee_event
        \<and> drop_bit 4 (s0_fee_protocol (slot0_decode word)) = fp_new1 fee_event))
    \<and> (\<forall>us. derive_uniswap_v3_observation_growth addr layout growth_event ctx state = Inr us \<longrightarrow>
      (\<exists>raw word. state addr 0 = Some raw \<and> og_old growth_event < og_new growth_event
        \<and> us = map (\<lambda>index. Slot addr (8 + word_of_nat index) 1) [unat (og_old growth_event) ..< unat (og_new growth_event)] @ [Slot addr 0 word]
        \<and> s0_observation_cardinality_next (slot0_decode raw) = og_old growth_event
        \<and> slot0_decode word = (slot0_decode raw)\<lparr>s0_raw := word, s0_observation_cardinality_next := og_new growth_event\<rparr>
        \<and> field 240 16 word = field 240 16 raw \<and> \<not> obs_initialized (observation_decode 1)))"
proof (intro conjI allI impI)
  fix us
  assume "derive_uniswap_v3_observation_growth addr layout growth_event ctx state = Inr us"
  from derive_observation_growth_okD [OF this] reserved_observation(1)
  show "\<exists>raw word. state addr 0 = Some raw \<and> og_old growth_event < og_new growth_event
        \<and> us = map (\<lambda>index. Slot addr (8 + word_of_nat index) 1) [unat (og_old growth_event) ..< unat (og_new growth_event)] @ [Slot addr 0 word]
        \<and> s0_observation_cardinality_next (slot0_decode raw) = og_old growth_event
        \<and> slot0_decode word = (slot0_decode raw)\<lparr>s0_raw := word, s0_observation_cardinality_next := og_new growth_event\<rparr>
        \<and> field 240 16 word = field 240 16 raw \<and> \<not> obs_initialized (observation_decode 1)" by blast
qed (rule derive_set_fee_protocol_okD)

theorem governance_events_read_back_witness:
  "(\<exists>word. s0_fee_protocol (slot0_decode word) AND 0x0f = fp_new0 demo_fee_protocol
      \<and> drop_bit 4 (s0_fee_protocol (slot0_decode word)) = fp_new1 demo_fee_protocol)
    \<and> (\<exists>raw. demo_view demo_pool 0 = Some raw
      \<and> s0_observation_cardinality_next (slot0_decode raw) = og_old demo_growth \<and> og_old demo_growth < og_new demo_growth)"
  using governance_events_read_back [of demo_pool "layout_uniswap 10" demo_fee_protocol demo_ctx demo_view demo_growth]
    demo_fee_protocol_run demo_growth_run by blast

text \<open>
  C19. A collection subtracts exactly the event's amounts from the two lanes of the protocol fees and touches nothing
  else; one of more than a lane has accrued is refused with an arithmetic error, so no lane ever wraps.
\<close>

theorem collect_protocol_exact:
  assumes "validate_canonical_accounting layout ctx = Inr ()" "uint (cp_amount0 event) < 2 ^ 128" "uint (cp_amount1 event) < 2 ^ 128"
    and "state addr 3 = Some pf"
  shows "(\<forall>us. derive_uniswap_v3_collect_protocol addr layout event ctx state = Inr us \<longrightarrow>
        (\<exists>pf'. us = [Slot addr 3 pf'] \<and> lane0 pf' = lane0 pf - uint (cp_amount0 event)
          \<and> lane1 pf' = lane1 pf - uint (cp_amount1 event)))
    \<and> (lane0 pf < uint (cp_amount0 event) \<or> lane1 pf < uint (cp_amount1 event)
        \<longrightarrow> (\<exists>reason. derive_uniswap_v3_collect_protocol addr layout event ctx state = Inl (arithmetic reason)))"
  using collect_protocol_rejects [of layout ctx event state addr pf] assms derive_collect_protocol_okD [of addr layout event ctx state] assms(4) by fastforce

theorem collect_protocol_exact_witness:
  "\<exists>reason. derive_uniswap_v3_collect_protocol demo_pool (layout_uniswap 10) \<lparr>cp_amount0 = 10, cp_amount1 = 0\<rparr> demo_ctx
    demo_view = Inl (arithmetic reason)"
proof -
  have "lane0 9 < uint (cp_amount0 \<lparr>cp_amount0 = 10, cp_amount1 = 0\<rparr>)" by (simp add: lane0_def uint_field)
  moreover have "demo_view demo_pool 3 = Some 9" by (rule demo_view_words)
  ultimately show ?thesis
    using collect_protocol_exact [OF demo_accounting, of "\<lparr>cp_amount0 = 10, cp_amount1 = 0\<rparr>" demo_view demo_pool 9] by simp
qed

section \<open>The adapter of the concentrated pools\<close>

text \<open>
  C20. No mutation of a concentrated pool goes unnoticed. Every log that a subscribed source of a Uniswap V3, Pancake V3 or
  Slipstream pool matches yields an event of that pool which is exact, and then carries the updates that one of the
  transitions derives from the log, or drops the whole storage of the pool with an error that is not an abort, or carries such
  updates but for some cells that it drops and requests again. Without a context no event is exact, Pancake pools never
  replay, and the runtime is told that the effect is exact only when the updates it gets are those of a transition; else it
  is told to repair.
\<close>

theorem v3_mutations_accounted:
  assumes "source \<in> set (v3_event_sources abi sigs pool)" "event_source_matches source (reg_key pool) log"
  shows "\<exists>t. key_address (reg_key pool) = Some (log_address log) \<and> nth_opt (log_topics log) 0 = Some t
    \<and> accounted pool (log_address log) t log (v3_replays keccak256 abi pool log ctx view t)
        (v3_decode_event_with_context keccak256 abi sigs pool log view ctx)
    \<and> accounted pool (log_address log) t log (\<lambda>_ _. False) (v3_decode_event keccak256 abi sigs pool log view)
    \<and> (reg_protocol pool = PancakeV3 \<longrightarrow> (\<forall>updates cold. \<not> v3_replays keccak256 abi pool log ctx view t updates cold))
    \<and> (\<forall>out. handle_routed_log keccak256 rctx log tx view pool (v3_event_adapter keccak256 abi sigs) inst routing = Inr out
        \<longrightarrow> ho_quality out = ExactFromInput \<and> v3_replays keccak256 abi pool log (routed_context routing pool (event_context rctx tx))
              view t (outcome_updates (ho_effects out)) []
          \<or> ho_quality out = EffectRequiresRepair)"
proof -
  obtain t where t: "key_address (reg_key pool) = Some (log_address log)" "nth_opt (log_topics log) 0 = Some t"
    "t \<in> set (v3_mutating_event_topics abi (reg_protocol pool))"
    using v3_direct_source [OF assms] by blast
  note acc = v3_mutation_accounted [OF t]
  have "accounted pool (log_address log) t log (v3_replays keccak256 abi pool log c view t)
      (ea_decode (v3_event_adapter keccak256 abi sigs) pool log view c)" for c
    using acc(1) by (simp add: v3_event_adapter_def)
  note handled = accounted_handled [OF this, of keccak256 rctx tx inst routing]
  show ?thesis
    by (intro exI [of _ t] conjI t(1,2) acc allI impI notI; (erule handled)?) (auto dest: v3_replays_family)
qed

theorem v3_mutations_accounted_witness:
  "accounted demo_registration demo_pool 8 demo_fee_log (v3_replays demo_hash demo_abi demo_registration demo_fee_log demo_ctx demo_view 8)
      (result_event (exact_event demo_registration demo_fee_log 8 UnknownEvent
        [Slot demo_pool 0 2463923551118129878715653531026467732287819463790608118000252788586577920]))"
  using v3_mutations_accounted [OF demo_source_matches, of demo_hash demo_ctx demo_view]
  unfolding demo_fee_log_decoded by (auto simp: demo_fee_log_def nth_opt_def)

section \<open>Slipstream swaps\<close>

text \<open>
  C21. A derived Slipstream swap explains its event: there is a contiguous path of at most 4097
  segments from the parent price, liquidity and staked liquidity to the event price and
  liquidity, whose crossed ticks are all read from the parent state and on which the staked liquidity never exceeds
  the active one; principal and step fees add up to the event's input, the event's output is the path's up to a cap
  inside the last segment, and every fee but the last is the full-step fee of the
  effective fee, which is at most 100000 and is the one that fee evidence claims. Only the pool is written, and the
  words later quotes depend on are exact: \<open>slot0\<close> decodes to the event's price and tick, the advanced oracle position
  and the parent's other fields, the liquidity word holds the event's liquidity and the parent's limit per tick,
  and the staked word holds the staked liquidity at the end of the path and the parent's tick spacing; its reward
  timestamp is the event's when evidence is given and the path crosses an initialized tick, and the parent's otherwise.
\<close>

theorem slipstream_explains_event:
  assumes "derive_slipstream_swap keccak256 addr layout swap ctx state = Inr us"
  shows "\<exists>fee parent zfo ticks segs fees st' index cardinality ow now.
    load_slipstream_parent addr layout (ctx_slipstream_fee_evidence ctx \<noteq> None) state = Inr parent
    \<and> swap_signs swap = Inr zfo \<and> loaded_slip_ticks keccak256 addr layout state ticks
    \<and> slip_path zfo ticks (s0_sqrt_price_x96 (slp_slot0 parent)) (slp_liquidity parent) (slp_staked parent) segs
        (sw_sqrt_price_x96 swap) (sw_liquidity swap) st'
    \<and> (\<forall>s \<in> set segs. seg_staked_liquidity s \<le> seg_liquidity s) \<and> st' \<le> sw_liquidity swap
    \<and> length segs \<le> 4097 \<and> length fees = length segs
    \<and> uint (swap_actual_input swap zfo) = (\<Sum>s\<leftarrow>segs. uint (seg_amount_in s)) + (\<Sum>f\<leftarrow>fees. uint f)
    \<and> uint (swap_actual_output swap zfo) \<le> (\<Sum>s\<leftarrow>segs. uint (seg_amount_out s))
    \<and> (\<Sum>s\<leftarrow>segs. uint (seg_amount_out s)) - uint (seg_amount_out (last segs)) \<le> uint (swap_actual_output swap zfo)
    \<and> (\<forall>i. Suc i < length segs \<longrightarrow> fee_for_full_step (seg_amount_in (segs ! i)) fee = Inr (fees ! i))
    \<and> uint fee \<le> 100000
    \<and> (\<forall>ev. ctx_slipstream_fee_evidence ctx = Some ev \<longrightarrow> fee_effective_swap_fee ev = fee)
    \<and> slipstream_oracle addr parent swap ctx state = Inr (index, cardinality, ow, now)
    \<and> (\<exists>raw lw sw word lword sword.
        state addr 6 = Some raw \<and> state addr 16 = Some lw \<and> state addr 15 = Some sw
        \<and> {Slot addr 6 word, Slot addr 15 sword, Slot addr 16 lword} \<subseteq> set us \<and> exact_writes_to addr us
        \<and> slot0_decode word = (slot0_decode raw)\<lparr>s0_raw := word, s0_sqrt_price_x96 := sw_sqrt_price_x96 swap,
             s0_tick := sw_tick swap, s0_observation_index := index, s0_observation_cardinality := cardinality\<rparr>
        \<and> field 0 128 lword = sw_liquidity swap \<and> field 128 128 lword = field 128 128 lw
        \<and> field 0 128 sword = st' \<and> field 160 96 sword = field 160 96 sw
        \<and> (if ctx_slipstream_fee_evidence ctx \<noteq> None \<and> (\<exists>s \<in> set segs. seg_crossed_tick s \<noteq> None)
           then \<exists>ts. event_timestamp ctx = Inr ts \<and> field 128 32 sword = ucast ts
           else field 128 32 sword = field 128 32 sw))"
proof -
  from derive_slipstream_swap_okD [OF assms] obtain fee where
    f: "derive_slipstream_swap_inner keccak256 addr layout swap ctx state = Inr (us, fee)"
    "\<forall>ev. ctx_slipstream_fee_evidence ctx = Some ev \<longrightarrow> fee_effective_swap_fee ev = fee" by blast
  from derive_slipstream_sound [OF f(1)] obtain parent zfo adv wk segs fees where
    s: "slipstream_witness keccak256 addr layout swap ctx state fee parent zfo (slw_ticks wk) segs fees (slw_staked wk)"
    "slipstream_oracle addr parent swap ctx state = Inr adv" "uint fee \<le> 100000"
    and b: "layout = layout_slipstream 200" "uint (sw_sqrt_price_x96 swap) < 2 ^ 160"
    "price_in_tick (sw_sqrt_price_x96 swap) (sw_tick swap)" "uint (sw_liquidity swap) < 2 ^ 128"
    "slw_liquidity wk = sw_liquidity swap" "slw_staked wk \<le> sw_liquidity swap"
    and us: "if ctx_slipstream_fee_evidence ctx = None then us = slipstream_quote_updates addr layout swap parent adv wk
       else \<exists>ts fs. event_timestamp ctx = Inr ts
         \<and> slipstream_account addr parent zfo (slipstream_unstaked_fee (ctx_slipstream_fee_evidence ctx))
             (snd (snd (snd adv))) ts state wk (zip segs fees) = Inr fs
         \<and> us = slipstream_full_updates addr layout swap parent zfo adv wk fs" by blast
  obtain index cardinality ow now where adv: "adv = (index, cardinality, ow, now)" by (metis prod_cases4)
  note w = s(1) [unfolded slipstream_witness_def]
  have st: "\<forall>s \<in> set segs. seg_staked_liquidity s \<le> seg_liquidity s" using slip_path_staked w by blast
  note words = derive_slipstream_batch [OF s(1) b us [unfolded adv snd_conv]]
  show ?thesis
    by (rule exI [of _ fee], rule exI [of _ parent], rule exI [of _ zfo], rule exI [of _ "slw_ticks wk"], rule exI [of _ segs],
        rule exI [of _ fees], rule exI [of _ "slw_staked wk"], rule exI [of _ index], rule exI [of _ cardinality],
        rule exI [of _ ow], rule exI [of _ now])
      (use w in \<open>intro conjI words f(2) st b(6) s(3) s(2) [unfolded adv]; simp\<close>)
qed

theorem slipstream_explains_event_witness:
  "\<exists>parent zfo ticks segs fees st'.
    load_slipstream_parent slip_pool slip_layout True slip_view = Inr parent
    \<and> loaded_slip_ticks demo_hash slip_pool slip_layout slip_view ticks
    \<and> slip_path zfo ticks (s0_sqrt_price_x96 (slp_slot0 parent)) (slp_liquidity parent) (slp_staked parent) segs
        (sw_sqrt_price_x96 demo_swap) (sw_liquidity demo_swap) st'
    \<and> uint (swap_actual_input demo_swap zfo)
        = (\<Sum>s\<leftarrow>segs. uint (seg_amount_in (s :: slipstream_segment))) + (\<Sum>f\<leftarrow>fees. uint (f :: u256))
    \<and> (\<exists>sword. Slot slip_pool 15 sword \<in> set slip_updates \<and> field 0 128 sword = st')"
proof -
  have ev: "(ctx_slipstream_fee_evidence slip_ctx \<noteq> None) = True" by (simp add: slip_ctx_eq)
  from slipstream_explains_event [OF slip_run, unfolded ev insert_subset] show ?thesis
    by (elim exE conjE) (intro exI conjI, assumption+)
qed

text \<open>
  C22. Fee inference decides. A fee is consistent when the fees of the full steps and the interval
  of the last one admit the event's total fee. Whenever the amounts are not at the very end of
  the word range, the two binary searches return a fee exactly when it is the only consistent
  one, report no match exactly when there is none, and otherwise report the end points of the
  interval of all consistent fees.
\<close>

theorem fee_inference_decides:
  assumes "segs \<noteq> []" "(\<Sum>s\<leftarrow>segs. uint (seg_amount_in s)) + 2 * (uint b + 1) < 2 ^ 256"
  shows "(case infer_slipstream_fee segs total_fee b capped of
      Inr f \<Rightarrow> {g. consistent_fee segs total_fee b capped g} = {f}
    | Inl (V3Transition SlipstreamFeeInferenceNoMatch) \<Rightarrow> {g. consistent_fee segs total_fee b capped g} = {}
    | Inl (V3Transition (SlipstreamFeeInferenceAmbiguous x y)) \<Rightarrow>
        x < y \<and> {g. consistent_fee segs total_fee b capped g} = {x..y}
    | Inl _ \<Rightarrow> False)"
  by (intro infer_slipstream_fee_decides slipstream_fee_interval_total assms) (simp add: word_le_def)

theorem fee_inference_decides_witness:
  "{g. consistent_fee [slip_segment] 300000000000 99700000000000 False g} = {3000}"
proof -
  have "(\<Sum>s\<leftarrow>[slip_segment]. uint (seg_amount_in s)) + 2 * (uint (99700000000000 :: u256) + 1) < 2 ^ 256"
    by (simp add: slip_segment_def)
  from fee_inference_decides [OF _ this, of 300000000000 False] show ?thesis by (simp add: slip_infer)
qed

text \<open>
  C23. With fee evidence, the fees of a swap are fully distributed. Along a path as in C21, over ticks of the parent
  state from the parent to the event, the fees of the segments (the full-step fee of the effective fee in the evidence
  for every segment but the last, and in all what the event's input leaves of the principal) are split in integers: the
  gauge gets the staked part of the fee and a levy of the unstaked fee on the rest, both
  rounded up, and what remains raises the fee growth by its quotient by the unstaked liquidity; a segment without liquidity has no
  split and one that is fully staked no growth. The input token's growth word moves by the sum of the growths and its
  gauge lane by the sum of the gauge shares modulo \<open>2 ^ 128\<close>, and the other token's lane is kept.
\<close>

theorem slipstream_gauge_conservation:
  assumes "derive_slipstream_swap keccak256 addr layout swap ctx state = Inr us"
    and "ctx_slipstream_fee_evidence ctx = Some ev"
  shows "\<exists>parent zfo ticks segs fees st' growths gauges growth gauge.
    load_slipstream_parent addr layout True state = Inr parent \<and> swap_signs swap = Inr zfo
    \<and> loaded_slip_ticks keccak256 addr layout state ticks
    \<and> slip_path zfo ticks (s0_sqrt_price_x96 (slp_slot0 parent)) (slp_liquidity parent) (slp_staked parent) segs
        (sw_sqrt_price_x96 swap) (sw_liquidity swap) st'
    \<and> length fees = length segs \<and> length growths = length segs \<and> length gauges = length segs
    \<and> (\<forall>i. Suc i < length segs \<longrightarrow>
         fee_for_full_step (seg_amount_in (segs ! i)) (fee_effective_swap_fee ev) = Inr (fees ! i))
    \<and> uint (swap_actual_input swap zfo) = (\<Sum>s\<leftarrow>segs. uint (seg_amount_in s)) + (\<Sum>f\<leftarrow>fees. uint f)
    \<and> (\<forall>i < length segs.
         let f = uint (fees ! i); l = uint (seg_liquidity (segs ! i)); staked = uint (seg_staked_liquidity (segs ! i));
             base = ceil_div (f * staked) l; levy = ceil_div ((f - base) * uint (fee_effective_unstaked_fee ev)) 1000000
         in if l = 0 then growths ! i = 0 \<and> gauges ! i = 0
            else uint (gauges ! i) = base + levy
              \<and> (if l = staked then growths ! i = 0 else uint (growths ! i) = (f - (base + levy)) * 2 ^ 128 div (l - staked)))
    \<and> {Slot addr (if zfo then 7 else 8) growth, Slot addr 10 gauge} \<subseteq> set us
    \<and> growth = (if zfo then slp_fee_growth_0 parent else slp_fee_growth_1 parent) + sum_list growths
    \<and> lane0 gauge = (if zfo then (lane0 (slp_gauge_fees parent) + (\<Sum>g\<leftarrow>gauges. uint (g :: u256))) mod 2 ^ 128
                     else lane0 (slp_gauge_fees parent))
    \<and> lane1 gauge = (if zfo then lane1 (slp_gauge_fees parent)
                     else (lane1 (slp_gauge_fees parent) + (\<Sum>g\<leftarrow>gauges. uint g)) mod 2 ^ 128)"
proof -
  from derive_slipstream_swap_okD [OF assms(1)] assms(2) have
    "derive_slipstream_swap_inner keccak256 addr layout swap ctx state = Inr (us, fee_effective_swap_fee ev)" by blast
  from derive_slipstream_gauge [OF this assms(2)] show ?thesis .
qed

theorem slipstream_gauge_conservation_witness:
  "\<exists>parent zfo ticks segs fees st' growths gauges growth gauge.
    load_slipstream_parent slip_pool slip_layout True slip_view = Inr parent
    \<and> slip_path zfo ticks (s0_sqrt_price_x96 (slp_slot0 parent)) (slp_liquidity parent) (slp_staked parent) segs
        (sw_sqrt_price_x96 demo_swap) (sw_liquidity demo_swap) st'
    \<and> uint (swap_actual_input demo_swap zfo) = (\<Sum>s\<leftarrow>segs. uint (seg_amount_in s)) + (\<Sum>f\<leftarrow>fees. uint (f :: u256))
    \<and> length growths = length segs \<and> length gauges = length segs
    \<and> {Slot slip_pool (if zfo then 7 else 8) growth, Slot slip_pool 10 gauge} \<subseteq> set slip_updates
    \<and> growth = (if zfo then slp_fee_growth_0 parent else slp_fee_growth_1 parent) + sum_list growths
    \<and> lane1 gauge = (if zfo then lane1 (slp_gauge_fees parent)
                     else (lane1 (slp_gauge_fees parent) + (\<Sum>g\<leftarrow>gauges. uint (g :: u256))) mod 2 ^ 128)"
proof -
  have "ctx_slipstream_fee_evidence slip_ctx = Some slip_evidence" by (simp add: slip_ctx_eq)
  from slipstream_gauge_conservation [OF slip_run this] show ?thesis
    by (elim exE conjE) (intro exI conjI; assumption)
qed

section \<open>Cold start of the concentrated pools\<close>

text \<open>
  C24. The cold start of a concentrated pool. With an \<open>int24\<close> tick spacing, a round budget of three is never exceeded,
  whatever the provider answers. For a canonical pool whose slot0 is not zero, with a provider that answers every cell
  from one state of the chain, the strict and the eager policy succeed: the pool is ready, the prepared storage says
  nothing but the chain, and every cell that a replay inside the warmed window reads (the pool's globals, the current
  observation, the bitmap words of the window and the words of every initialized tick in it) is recorded as warmed and
  is in the storage unless it is zero.
\<close>

theorem v3_cold_start_complete:
  assumes "adapter_of (reg_protocol pool) = Some (v3_planner_adapter keccak256)" "3 \<le> max_rounds"
    and "layout_for pool = Some layout" "tick_spacing layout < 2 ^ 23"
  shows "prepare_resumable_pool fetch adapter_of pool baseline policy base env max_rounds \<noteq> Inl (RoundBudgetExceeded budget)
    \<and> (\<forall>onchain words a account_patch. provider_answers onchain fetch \<longrightarrow> (\<forall>b k. onchain b k \<noteq> None)
        \<longrightarrow> reg_key pool = UniswapV3Key a \<longrightarrow> layout = layout_uniswap (tick_spacing layout) \<longrightarrow> policy \<in> {Strict, Eager}
        \<longrightarrow> job_account_patch env pool baseline = Inr account_patch \<longrightarrow> (\<forall>k. onchain a k = Some (words k)) \<longrightarrow> words 0 \<noteq> 0
        \<longrightarrow> (\<exists>s m. prepare_resumable_pool fetch adapter_of pool baseline policy base env max_rounds = Inr s
            \<and> reg_status (pps_registration s) = Ready \<and> reg_key (pps_registration s) = reg_key pool
            \<and> pool_v3_metadata (pps_registration s) = Some m
            \<and> (\<forall>b k v. map_of (pps_storage s) (b, k) = Some v \<longrightarrow> onchain b k = Some v)
            \<and> (\<forall>k \<in> replay_surface keccak256 words layout
                  (sint (case pool_warm_word_radius pool of Some r \<Rightarrow> r | None \<Rightarrow> V3_TICK_WORD_RADIUS)).
                 k \<in> set (v3_warmed_slots m) \<and> (words k \<noteq> 0 \<longrightarrow> map_of (pps_storage s) (a, k) = Some (words k)))))"
proof (intro conjI allI impI)
  show "prepare_resumable_pool fetch adapter_of pool baseline policy base env max_rounds \<noteq> Inl (RoundBudgetExceeded budget)"
    using v3_cold_start_budget [of adapter_of pool keccak256 max_rounds] assms by simp
next
  fix onchain words a account_patch
  assume h: "provider_answers onchain fetch" "\<forall>b k. onchain b k \<noteq> None" "reg_key pool = UniswapV3Key a"
    "layout = layout_uniswap (tick_spacing layout)" "policy \<in> {Strict, Eager}" "job_account_patch env pool baseline = Inr account_patch"
    "\<forall>k. onchain a k = Some (words k)" "words 0 \<noteq> 0"
  have adapter: "adapter_of UniswapV3 = Some (v3_planner_adapter keccak256)" using assms(1) h(3) by (simp add: reg_protocol_def)
  have l: "layout_for pool = Some (layout_uniswap (tick_spacing layout))" using assms(3) h(4) by simp
  have words: "onchain b k \<noteq> None" "onchain a k = Some (words k)" for b k using h(2,7) by simp_all
  from v3_cold_start_warms [where onchain = onchain and words = words and adapter_of = adapter_of, OF h(1) words(1) h(3) l assms(4) h(5) assms(2) h(6) words(2) h(8)
      adapter] h(4)
  show "\<exists>s m. prepare_resumable_pool fetch adapter_of pool baseline policy base env max_rounds = Inr s
            \<and> reg_status (pps_registration s) = Ready \<and> reg_key (pps_registration s) = reg_key pool
            \<and> pool_v3_metadata (pps_registration s) = Some m
            \<and> (\<forall>b k v. map_of (pps_storage s) (b, k) = Some v \<longrightarrow> onchain b k = Some v)
            \<and> (\<forall>k \<in> replay_surface keccak256 words layout
                  (sint (case pool_warm_word_radius pool of Some r \<Rightarrow> r | None \<Rightarrow> V3_TICK_WORD_RADIUS)).
                 k \<in> set (v3_warmed_slots m) \<and> (words k \<noteq> 0 \<longrightarrow> map_of (pps_storage s) (a, k) = Some (words k)))"
    by simp
qed

theorem v3_cold_start_complete_witness:
  "\<exists>s. prepare_resumable_pool demo_fetch [UniswapV3 \<mapsto> v3_planner_adapter demo_hash] demo_registration () Strict (\<lambda>_ _. None) no_code 3 = Inr s
    \<and> reg_status (pps_registration s) = Ready \<and> map_of (pps_storage s) (demo_pool, 4) = Some 1000000000000000000"
proof -
  have "4 \<in> replay_surface demo_hash demo_chain_word (layout_uniswap 10) r" for r by (simp add: replay_surface_def Let_def)
  moreover have "demo_chain_word 4 = 1000000000000000000" by (simp add: demo_chain_word_def demo_words_def)
  ultimately show ?thesis
    using v3_cold_start_complete [of "[UniswapV3 \<mapsto> v3_planner_adapter demo_hash]" demo_registration demo_hash 3
        "layout_uniswap 10" demo_fetch "()" Strict "\<lambda>_ _. None" no_code] demo_fetch_answers demo_slot0_nonzero
    by (fastforce simp: demo_registration_select demo_onchain_def simp del: layout_for.simps)
qed

section \<open>Slipstream rewards and evidence\<close>

text \<open>
  C25. Reward bookkeeping conserves the reserve. An update within the timestamp of the last one, or with an empty
  reserve, changes nothing but the timestamp. Any other takes the rate times the elapsed seconds, modulo the word, and at most the
  reserve, out of the reserve; all of it goes to the rollover when nothing is staked, and raises the reward
  growth by its quotient by the staked liquidity otherwise.
\<close>

theorem slipstream_rewards_conserved:
  assumes "update_slipstream_rewards addr growth staked last_updated ts state = Inr ru"
  shows "ru_last_updated ru = ts
    \<and> (if ts = last_updated
       then ru_reward_growth ru = growth \<and> ru_reward_reserve ru = None \<and> ru_rollover ru = None
       else \<exists>reserve. state addr 12 = Some reserve
         \<and> (if reserve = 0
            then ru_reward_growth ru = growth \<and> ru_reward_reserve ru = None \<and> ru_rollover ru = None
            else \<exists>rate reward remaining. state addr 11 = Some rate
              \<and> reward = min (rate * ucast (ts - last_updated)) reserve
              \<and> ru_reward_reserve ru = Some remaining \<and> uint reward + uint remaining = uint reserve
              \<and> (if staked = 0
                 then ru_reward_growth ru = growth
                   \<and> (\<exists>rollover. state addr 14 = Some rollover \<and> ru_rollover ru = Some (rollover + reward))
                 else ru_rollover ru = None
                   \<and> (\<exists>g. uint g = uint reward * 2 ^ 128 div uint staked \<and> ru_reward_growth ru = growth + g))))"
  by (rule update_slipstream_rewards_exact [OF assms, unfolded slipstream_slots])

theorem slipstream_rewards_conserved_witness:
  "\<exists>view ru. update_slipstream_rewards 0 5 0 1990 2000 view = Inr ru \<and> update_slipstream_rewards 0 5 10 1990 2000 view \<noteq> Inr ru
    \<and> view 0 12 = Some 100 \<and> view 0 11 = Some 1 \<and> view 0 14 = Some 7
    \<and> ru_last_updated ru = 2000 \<and> ru_reward_growth ru = 5 \<and> ru_reward_reserve ru = Some 90 \<and> ru_rollover ru = Some 17"
proof -
  define view :: state_view where "view = (\<lambda>a k. map_of [(11, 1), (12, 100), (14, 7)] k)"
  have v: "view 0 11 = Some 1" "view 0 12 = Some 100" "view 0 14 = Some 7" by (simp_all add: view_def)
  then obtain ru where ru: "update_slipstream_rewards 0 5 0 1990 2000 view = Inr ru"
    by (simp add: update_slipstream_rewards_def Let_def slipstream_slots)
  from slipstream_rewards_conserved [OF ru] v
  have "ru_last_updated ru = 2000" "ru_reward_growth ru = 5" "ru_rollover ru = Some 17"
    "\<exists>remaining. ru_reward_reserve ru = Some remaining \<and> uint remaining = 90"
    by (auto simp: min_def)
  moreover have "ru_rollover r = None" if "update_slipstream_rewards 0 5 10 1990 2000 view = Inr r" for r
    using slipstream_rewards_conserved [OF that] v by auto
  ultimately show ?thesis using v ru by (intro exI [of _ view] exI [of _ ru]) (auto simp: word_uint_eq_iff)
qed

text \<open>
  C26. Fee evidence is usable for one event only: what a Slipstream swap accepts as evidence is
  valid, names the reviewed deployment of that pool, whose factory word the parent state
  holds, and carries the chain, block, parent, timestamp, transaction and log of the context.
  An offline evaluation of the unstaked fee on a snapshot of that event, whatever the overlay
  answers, yields at most one million, zero when the gauge is not alive, and an attestation with which the
  evidence is accepted for the same event.
\<close>

theorem slipstream_evidence_bound:
  assumes "validate_slipstream_evidence addr ctx state = Inr ev"
  shows "ctx_slipstream_fee_evidence ctx = Some ev \<and> evidence_validate ev = Inr () \<and> fee_pool ev = addr
    \<and> matches_context (evidence_identity ev) ctx
    \<and> prf_snapshot_identity (fee_unstaked_fee_proof ev) = Some (evidence_identity ev)
    \<and> addr = rt_pool (reviewed_runtime (fee_runtime_family ev))
    \<and> fee_factory ev = rt_factory (reviewed_runtime (fee_runtime_family ev))
    \<and> (\<exists>w. state addr 0 = Some w \<and> decode_address_slot w = fee_factory ev)
    \<and> uint (fee_effective_swap_fee ev) \<le> 100000 \<and> uint (fee_effective_unstaked_fee ev) \<le> 1000000
    \<and> (\<forall>(vm :: 'ov evm) snapshot evaluation.
        evaluate_slipstream_unstaked_fee keccak256 vm (fee_runtime_family ev) snapshot (evidence_identity ev) ctx = Inr evaluation
        \<longrightarrow> ufe_effective_fee evaluation \<le> 1000000
          \<and> (prf_gauge_alive (ufe_proof evaluation) = Some False \<longrightarrow> ufe_effective_fee evaluation = 0)
          \<and> (\<exists>ev'. with_unstaked_fee_evaluation ev (ufe_effective_fee evaluation) (ufe_proof evaluation) = Inr ev'
            \<and> fee_effective_unstaked_fee ev' = ufe_effective_fee evaluation
            \<and> validate_slipstream_evidence addr (with_slipstream_fee_evidence ctx ev') state = Inr ev'))"
proof -
  have "ufe_effective_fee evaluation \<le> 1000000
      \<and> (prf_gauge_alive (ufe_proof evaluation) = Some False \<longrightarrow> ufe_effective_fee evaluation = 0)
      \<and> (\<exists>ev'. with_unstaked_fee_evaluation ev (ufe_effective_fee evaluation) (ufe_proof evaluation) = Inr ev'
        \<and> fee_effective_unstaked_fee ev' = ufe_effective_fee evaluation
        \<and> validate_slipstream_evidence addr (with_slipstream_fee_evidence ctx ev') state = Inr ev')"
    if run: "evaluate_slipstream_unstaked_fee keccak256 vm (fee_runtime_family ev) snapshot (evidence_identity ev) ctx = Inr evaluation"
    for vm :: "'ov evm" and snapshot evaluation
    using evaluation_injected [OF assms run refl] evaluation_okD [OF run] by (fastforce simp: reviewed_runtime_evaluation_def)
  then show ?thesis using validate_slipstream_evidence_okD [OF assms] evidence_validate_okD(5) by blast
qed

theorem slipstream_evidence_bound_witness:
  "matches_context (evidence_identity slip_evidence) slip_ctx
    \<and> (\<exists>ev'. with_unstaked_fee_evaluation slip_evidence 50000 (ufe_proof fee_evaluation) = Inr ev'
      \<and> validate_slipstream_evidence slip_pool (with_slipstream_fee_evidence slip_ctx ev') slip_view = Inr ev')"
proof -
  have "validate_slipstream_evidence slip_pool slip_ctx slip_view = Inr slip_evidence"
    using slip_evidence_ok by (auto simp: slipstream_evidence_def slip_ctx_eq)
  moreover have "evaluate_slipstream_unstaked_fee demo_hash fee_evm (fee_runtime_family slip_evidence) fee_snapshot
      (evidence_identity slip_evidence) slip_ctx = Inr fee_evaluation"
    using fee_evaluated by (simp add: slip_evidence_identity) (simp add: slip_evidence_def)
  moreover have "ufe_effective_fee fee_evaluation = 50000" by (simp add: fee_evaluation_def)
  ultimately show ?thesis using slipstream_evidence_bound [of slip_pool slip_ctx slip_view slip_evidence demo_hash] by metis
qed

text \<open>
  C27. Evidence only adds. Whenever a swap is derived with evidence, the swap without it is derived
  too, with the same inferred fee, which is the one that the evidence claims, and its batch is exactly the \<open>slot0\<close>, staked and
  liquidity words and the oracle write. The batch with evidence is those same updates and, beside them, only the
  accounting: the input token's growth word, the gauge fees, the reward words and the words of crossed ticks. The
  staked words of the two differ at most in the reward timestamp.
\<close>

theorem slipstream_evidence_only_adds:
  assumes "derive_slipstream_swap keccak256 addr layout swap ctx state = Inr us"
    and "without = ctx\<lparr>ctx_slipstream_fee_evidence := None\<rparr>"
  shows "\<exists>fee us' word w15 lword observed.
    derive_slipstream_swap keccak256 addr layout swap without state = Inr us'
    \<and> infer_slipstream_swap_fee keccak256 addr layout swap without state = Inr fee
    \<and> infer_slipstream_swap_fee keccak256 addr layout swap ctx state = Inr fee
    \<and> (\<forall>ev. ctx_slipstream_fee_evidence ctx = Some ev \<longrightarrow> fee_effective_swap_fee ev = fee)
    \<and> us' = [Slot addr 6 word, Slot addr 15 w15, Slot addr 16 lword] @ observed \<and> length observed \<le> 1
    \<and> (if ctx_slipstream_fee_evidence ctx = None then us = us'
       else \<exists>zfo growth gauge w15' rewards ticks. swap_signs swap = Inr zfo
         \<and> us = [Slot addr 6 word, Slot addr (if zfo then 7 else 8) growth, Slot addr 10 gauge, Slot addr 15 w15',
                 Slot addr 16 lword] @ rewards @ observed @ ticks
         \<and> field 0 128 w15 = field 0 128 w15' \<and> field 160 96 w15 = field 160 96 w15'
         \<and> (\<forall>u \<in> set rewards. \<exists>k v. k \<in> {9, 12, 14} \<and> u = Slot addr k v)
         \<and> (\<forall>u \<in> set ticks. \<exists>t it k v. load_slipstream_initialized_tick keccak256 addr layout t state = Inr it
             \<and> k \<in> set (st_keys it) \<and> u = Slot addr k v))"
proof -
  from derive_slipstream_swap_okD [OF assms(1)] obtain fee where
    f: "derive_slipstream_swap_inner keccak256 addr layout swap ctx state = Inr (us, fee)"
    "\<forall>ev. ctx_slipstream_fee_evidence ctx = Some ev \<longrightarrow> fee_effective_swap_fee ev = fee" by blast
  have run: "derive_slipstream_swap keccak256 addr layout swap without state = Inr us'
      \<and> infer_slipstream_swap_fee keccak256 addr layout swap without state = Inr fee
      \<and> infer_slipstream_swap_fee keccak256 addr layout swap ctx state = Inr fee"
    if "derive_slipstream_swap_inner keccak256 addr layout swap without state = Inr (us', fee)" for us'
    using that f(1) by (simp add: derive_slipstream_swap_def infer_slipstream_swap_fee_def assms(2))
  from derive_slipstream_evidence_adds [OF f(1), folded assms(2)] show ?thesis
    using run f(2) by (elim exE conjE) (intro exI conjI; (assumption | blast))
qed

theorem slipstream_evidence_only_adds_witness:
  "\<exists>us' word w15 lword observed.
    derive_slipstream_swap demo_hash slip_pool slip_layout demo_swap (slip_ctx\<lparr>ctx_slipstream_fee_evidence := None\<rparr>)
      slip_view = Inr us'
    \<and> infer_slipstream_swap_fee demo_hash slip_pool slip_layout demo_swap (slip_ctx\<lparr>ctx_slipstream_fee_evidence := None\<rparr>)
      slip_view = Inr (fee_effective_swap_fee slip_evidence)
    \<and> us' = [Slot slip_pool 6 word, Slot slip_pool 15 w15, Slot slip_pool 16 lword] @ observed
    \<and> {Slot slip_pool 6 word, Slot slip_pool 16 lword} \<subseteq> set slip_updates"
proof -
  have ev: "ctx_slipstream_fee_evidence slip_ctx = Some slip_evidence" by (simp add: slip_ctx_eq)
  have given: "(Some slip_evidence = None) = False" by simp
  from slipstream_evidence_only_adds [OF slip_run refl, unfolded ev given if_False]
  obtain fee us' word w15 lword observed zfo growth gauge w15' rewards ticks where r:
    "derive_slipstream_swap demo_hash slip_pool slip_layout demo_swap (slip_ctx\<lparr>ctx_slipstream_fee_evidence := None\<rparr>)
      slip_view = Inr us'"
    "infer_slipstream_swap_fee demo_hash slip_pool slip_layout demo_swap (slip_ctx\<lparr>ctx_slipstream_fee_evidence := None\<rparr>)
      slip_view = Inr fee"
    "\<forall>ev. Some slip_evidence = Some ev \<longrightarrow> fee_effective_swap_fee ev = fee"
    "us' = [Slot slip_pool 6 word, Slot slip_pool 15 w15, Slot slip_pool 16 lword] @ observed"
    "slip_updates = [Slot slip_pool 6 word, Slot slip_pool (if zfo then 7 else 8) growth, Slot slip_pool 10 gauge,
      Slot slip_pool 15 w15', Slot slip_pool 16 lword] @ rewards @ observed @ ticks"
    by (elim exE conjE) (rule that; assumption)
  have "{Slot slip_pool 6 word, Slot slip_pool 16 lword} \<subseteq> set slip_updates" unfolding r(5) by simp
  with r(1-4) show ?thesis by blast
qed

section \<open>Slipstream Mint, Burn and staking\<close>



text \<open>
  C29. A derived stake or unstake moves the staked liquidity of the pool by the signed amount exactly when the current
  tick lies in the range, never above the active liquidity, and moves the staked net liquidity of each
  initialized boundary by the amount at the lower and its negative at the upper tick, within that tick's gross
  liquidity; the other halves of the touched words are kept and nothing else is written.
\<close>

theorem staking_exact:
  assumes "staking_derive keccak256 pool ctx ev s = Inr us" "stk_delta ev \<noteq> 0" "- (2 ^ 127) \<le> stk_delta ev" "stk_delta ev < 2 ^ 127"
  shows "\<exists>layout slot0 word liquidity range lo up. layout_for pool = Some layout \<and> us = range @ lo @ up
    \<and> s POOL (slot0_slot layout) = Some slot0 \<and> s POOL 15 = Some word \<and> s POOL (liquidity_slot layout) = Some liquidity
    \<and> field 0 128 word \<le> field 0 128 liquidity
    \<and> stake_boundary keccak256 layout s (stk_lower ev) (stk_delta ev) lo
    \<and> stake_boundary keccak256 layout s (stk_upper ev) (- stk_delta ev) up
    \<and> (if stk_lower ev \<le> staking_tick slot0 \<and> staking_tick slot0 < stk_upper ev
       then \<exists>w'. range = [Slot POOL 15 w'] \<and> uint (field 0 128 w') = uint (field 0 128 word) + stk_delta ev
         \<and> field 0 128 w' \<le> field 0 128 liquidity \<and> field 128 128 w' = field 128 128 word
       else range = [])"
  by (rule staking_derive_effect [OF assms])

theorem staking_exact_witness:
  "\<exists>range lo up. stk_updates = range @ lo @ up \<and> stake_boundary mint_hash (layout_slipstream 200) stk_view (- 200) 5 lo"
  using staking_exact [OF stk_run] unfolding stk_layout option.inject by (simp add: stk_evidence_def) blast

text \<open>
  C30. Staking evidence is attested: an entry that a delivery batch yields is stored under its own event, was built for
  the reviewed pool with the reviewed code, and stems from logs of visible records of one transaction, namely a
  gauge event with the transfer of its NFT and the two collects of the position before it; its range is that of
  the pool's collect, its amount the event's, at the log where it applies. The derivation it feeds never aborts.
\<close>

theorem staking_evidence_attested:
  assumes "from_batch keccak256 abi handler_id records inst snapshot k = Some e"
  shows "stk_key e = k \<and> runtime_matches snapshot \<and> inst_key inst = SlipstreamKey POOL
    \<and> (\<exists>tx logs i l m. collected_from (handler_id inst) records tx logs \<and> (i, l) \<in> set logs \<and> attested abi logs i l m
        \<and> evk_transaction k = tx \<and> stk_lower e = ev_tick_lower (sm_range m) \<and> stk_upper e = ev_tick_upper (sm_range m)
        \<and> (\<exists>al. (evk_log k, al) \<in> set logs \<and> stk_payload e = fingerprint keccak256 al)
        \<and> (if evk_log k = i then stk_delta e = (if sm_deposit m then uint (ev_liquidity (sm_event m)) else 0)
           else evk_log k = sm_transfer m \<and> \<not> sm_deposit m \<and> stk_delta e = - uint (ev_liquidity (sm_event m))))
    \<and> no_panic (staking_derive keccak256 pool ctx e s)"
proof -
  from from_batch_from [OF assms] obtain tx logs i l m where
    f: "stk_key e = k" "runtime_matches snapshot" "inst_key inst = SlipstreamKey POOL"
    "collected_from (handler_id inst) records tx logs" "(i, l) \<in> set logs"
    "match_gauge_log abi logs i l = Some m" "e \<in> set (match_evidence keccak256 tx logs i l m)" by blast
  note a = match_gauge_log_SomeD [OF f(6)]
  note fields = match_evidence_fields [OF f(4,5) a f(7), unfolded f(1)]
  have "stk_delta e \<noteq> - (2 ^ 127)" using from_batch_delta [OF assms] by auto
  then have "no_panic (staking_derive keccak256 pool ctx e s)" by (rule no_panic_staking_derive)
  with f a fields show ?thesis by blast
qed

theorem staking_evidence_attested_witness:
  "runtime_matches stk_snapshot \<and> (\<exists>m. attested stk_abi stk_logs 4 (stk_log GAUGE 1) m)
    \<and> no_panic (staking_derive mint_hash stk_pool stk_ctx stk_evidence stk_view)"
proof (intro conjI)
  note e = staking_evidence_attested [OF stk_batch [of "\<lambda>_. 0"]]
  show "runtime_matches stk_snapshot" "no_panic (staking_derive mint_hash stk_pool stk_ctx stk_evidence stk_view)"
    using e by blast+
  show "\<exists>m. attested stk_abi stk_logs 4 (stk_log GAUGE 1) m" using match_gauge_log_SomeD [OF stk_match] by blast
qed

end
